(* ===== verification/Py_Prelude.thy ===== *)
theory Py_Prelude
  imports Complex_Main "HOL-Library.List_Lexorder" "HOL-Library.Char_ord"
begin

text \<open>
  What the server's Python uses of the language and its standard library, with the generic
  lemmas every component shares.

  \<^item> Text: a Python \<open>str\<close> is a \<^typ>\<open>string\<close>, a list of characters with code points below
    256; white space, word characters and lower case follow Python's Unicode tables on that
    range (so code points 28 to 31, 133 and 160 are white space, as \<open>str.isspace\<close> says).
  \<^item> Exceptions: an \<open>exn\<close> is a class and a message; \<open>subclass_of\<close> is the class hierarchy of
    the built-in classes, of \<open>server/app/errors.py\<close> and of \<open>heap_pool.py\<close>.
    A call that may raise returns \<^typ>\<open>'e + 'a\<close>, \<open>Inl\<close> for the exception.
  \<^item> A stateful call takes the state last and returns the pair of its outcome and the state
    after it.
  \<^item> Floats are real numbers; the \<open>:.0f\<close> and \<open>:.1f\<close> formats round half to even.
\<close>

named_theorems py_text \<open>characteristic equations of the text operations\<close>
named_theorems frame \<open>what an operation leaves unchanged\<close>
named_theorems inv_intro \<open>invariant preservation, one lemma per operation\<close>

section \<open>Characters and text\<close>

type_synonym pystr = string

abbreviation ord :: "char \<Rightarrow> nat" where
  "ord c \<equiv> of_char c"

definition is_space :: "char \<Rightarrow> bool" where
  "is_space c = (let n = ord c in
     (9 \<le> n \<and> n \<le> 13) \<or> (28 \<le> n \<and> n \<le> 32) \<or> n = 133 \<or> n = 160)"

definition is_alpha_ascii :: "char \<Rightarrow> bool" where
  "is_alpha_ascii c = (let n = ord c in (65 \<le> n \<and> n \<le> 90) \<or> (97 \<le> n \<and> n \<le> 122))"

definition is_digit_ascii :: "char \<Rightarrow> bool" where
  "is_digit_ascii c = (let n = ord c in 48 \<le> n \<and> n \<le> 57)"

text \<open>\<open>str.isalpha\<close> of a one-character string, and \<open>\w\<close> of the \<open>re\<close> module.\<close>

definition is_alpha :: "char \<Rightarrow> bool" where
  "is_alpha c = (let n = ord c in is_alpha_ascii c \<or> n = 170 \<or> n = 181 \<or> n = 186 \<or>
     (192 \<le> n \<and> n \<le> 255 \<and> n \<noteq> 215 \<and> n \<noteq> 247))"

definition is_word :: "char \<Rightarrow> bool" where
  "is_word c = (let n = ord c in is_alpha c \<or> is_digit_ascii c \<or> n = 95 \<or>
     n = 178 \<or> n = 179 \<or> n = 185 \<or> n = 188 \<or> n = 189 \<or> n = 190)"

abbreviation NL :: char where
  "NL \<equiv> CHR 0x0A"

definition lower_char :: "char \<Rightarrow> char" where
  "lower_char c = (let n = ord c in
     if (65 \<le> n \<and> n \<le> 90) \<or> (192 \<le> n \<and> n \<le> 222 \<and> n \<noteq> 215)
     then char_of (n + 32) else c)"

definition lower :: "pystr \<Rightarrow> pystr" where
  "lower s = map lower_char s"

subsection \<open>strip, startswith, slices\<close>

definition lstrip :: "pystr \<Rightarrow> pystr" where
  "lstrip s = dropWhile is_space s"

definition rstrip :: "pystr \<Rightarrow> pystr" where
  "rstrip s = rev (dropWhile is_space (rev s))"

definition strip :: "pystr \<Rightarrow> pystr" where
  "strip s = rstrip (lstrip s)"

definition startswith :: "pystr \<Rightarrow> pystr \<Rightarrow> bool" where
  "startswith s p = (take (length p) s = p)"

text \<open>\<open>s[:k]\<close>, \<open>s[k:]\<close> and \<open>s[-n:]\<close>: a negative bound counts from the end.\<close>

definition slice_to :: "int \<Rightarrow> 'a list \<Rightarrow> 'a list" where
  "slice_to k xs = (if 0 \<le> k then take (nat k) xs else take (nat (int (length xs) + k)) xs)"

definition slice_from :: "int \<Rightarrow> 'a list \<Rightarrow> 'a list" where
  "slice_from k xs = (if 0 \<le> k then drop (nat k) xs else drop (nat (int (length xs) + k)) xs)"

lemma slice_from_last: "0 < n \<Longrightarrow> length (slice_from (- n) xs) = min (nat n) (length xs)"
  by (auto simp: slice_from_def min_def)

lemma dropWhile_id_iff: "dropWhile P xs = xs \<longleftrightarrow> xs = [] \<or> \<not> P (hd xs)"
proof (cases xs)
  case (Cons x ys)
  have "length (dropWhile P ys) \<le> length ys" by (rule length_dropWhile_le)
  then have "dropWhile P ys \<noteq> x # ys" by auto
  then show ?thesis using Cons by auto
qed simp

lemma hd_dropWhile_not: "dropWhile P xs \<noteq> [] \<Longrightarrow> \<not> P (hd (dropWhile P xs))"
  by (rule hd_dropWhile)

lemma rstrip_Nil [simp]: "rstrip [] = []"
  by (simp add: rstrip_def)

lemma lstrip_Nil [simp]: "lstrip [] = []"
  by (simp add: lstrip_def)

lemma strip_Nil [simp]: "strip [] = []"
  by (simp add: strip_def)

lemma rstrip_prefix: "\<exists>w. s = rstrip s @ w \<and> (\<forall>c \<in> set w. is_space c)"
proof -
  let ?r = "rev s"
  have "?r = takeWhile is_space ?r @ dropWhile is_space ?r" by simp
  then have "s = rev (dropWhile is_space ?r) @ rev (takeWhile is_space ?r)"
    by (metis rev_append rev_rev_ident)
  moreover have "\<forall>c \<in> set (rev (takeWhile is_space ?r)). is_space c"
    by (auto dest: set_takeWhileD)
  ultimately show ?thesis by (auto simp: rstrip_def)
qed

lemma lstrip_suffix: "\<exists>w. s = w @ lstrip s \<and> (\<forall>c \<in> set w. is_space c)"
  by (metis lstrip_def set_takeWhileD takeWhile_dropWhile_id)

lemma strip_decomp:
  "\<exists>u v. s = u @ strip s @ v \<and> (\<forall>c \<in> set u. is_space c) \<and> (\<forall>c \<in> set v. is_space c)"
proof -
  obtain u where u: "s = u @ lstrip s" "\<forall>c \<in> set u. is_space c"
    using lstrip_suffix by blast
  obtain v where v: "lstrip s = rstrip (lstrip s) @ v" "\<forall>c \<in> set v. is_space c"
    using rstrip_prefix by blast
  have "s = u @ strip s @ v"
    using u(1) v(1) by (metis strip_def)
  with u(2) v(2) show ?thesis by blast
qed

lemma length_strip_le: "length (strip s) \<le> length s"
  by (metis length_append strip_decomp le_add1 le_add2 le_trans)

lemma rstrip_ends: "rstrip s \<noteq> [] \<Longrightarrow> \<not> is_space (last (rstrip s))"
  using hd_dropWhile [of is_space "rev s"] by (auto simp: rstrip_def last_rev)

lemma lstrip_starts: "lstrip s \<noteq> [] \<Longrightarrow> \<not> is_space (hd (lstrip s))"
  unfolding lstrip_def by (rule hd_dropWhile)

lemma rstrip_id: "s = [] \<or> \<not> is_space (last s) \<Longrightarrow> rstrip s = s"
  using dropWhile_id_iff [of is_space "rev s"] by (auto simp: rstrip_def hd_rev)

lemma lstrip_id: "s = [] \<or> \<not> is_space (hd s) \<Longrightarrow> lstrip s = s"
  by (auto simp: lstrip_def dropWhile_id_iff)

lemma hd_rstrip: "rstrip s \<noteq> [] \<Longrightarrow> hd (rstrip s) = hd s"
  by (metis hd_append2 rstrip_prefix)

lemma strip_id_iff: "strip s = s \<longleftrightarrow> s = [] \<or> \<not> is_space (hd s) \<and> \<not> is_space (last s)"
proof
  assume eq: "strip s = s"
  show "s = [] \<or> \<not> is_space (hd s) \<and> \<not> is_space (last s)"
  proof (cases "s = []")
    case False
    have nonempty: "rstrip (lstrip s) \<noteq> []" using False eq by (simp add: strip_def)
    then have "lstrip s \<noteq> []" by auto
    then have "\<not> is_space (hd (lstrip s))" by (rule lstrip_starts)
    moreover have "hd (lstrip s) = hd s"
      using hd_rstrip [OF nonempty] eq by (simp add: strip_def)
    moreover have "\<not> is_space (last s)"
      using rstrip_ends [OF nonempty] eq by (simp add: strip_def)
    ultimately show ?thesis by simp
  qed simp
next
  assume "s = [] \<or> \<not> is_space (hd s) \<and> \<not> is_space (last s)"
  then show "strip s = s" by (auto simp: strip_def lstrip_id rstrip_id)
qed

lemma strip_ends:
  "strip s \<noteq> [] \<Longrightarrow> \<not> is_space (hd (strip s)) \<and> \<not> is_space (last (strip s))"
  unfolding strip_def
  by (metis hd_rstrip lstrip_starts rstrip_Nil rstrip_ends)

lemma strip_strip [simp, py_text]: "strip (strip s) = strip s"
  using strip_ends strip_id_iff by blast

lemma strip_empty_iff: "strip s = [] \<longleftrightarrow> (\<forall>c \<in> set s. is_space c)"
proof
  assume "strip s = []"
  then show "\<forall>c \<in> set s. is_space c"
    using strip_decomp [of s] by auto
next
  assume all: "\<forall>c \<in> set s. is_space c"
  show "strip s = []"
  proof (rule ccontr)
    assume ne: "strip s \<noteq> []"
    then have "hd (strip s) \<in> set (strip s)" by simp
    then have "hd (strip s) \<in> set s" using strip_decomp [of s] by (metis UnCI set_append)
    with all strip_ends [OF ne] show False by blast
  qed
qed

lemma set_strip_subset: "set (strip s) \<subseteq> set s"
  by (metis UnI1 UnI2 set_append strip_decomp subsetI)

lemma startswith_append [simp]: "startswith (p @ s) p"
  by (simp add: startswith_def)

lemma startswith_iff: "startswith s p \<longleftrightarrow> (\<exists>r. s = p @ r)"
  by (metis append_eq_conv_conj append_take_drop_id startswith_def)

lemma startswith_Nil [simp]: "startswith s []"
  by (simp add: startswith_def)

lemma startswith_Cons: "startswith s (c # p) \<longleftrightarrow> (\<exists>r. s = c # r \<and> startswith r p)"
  by (cases s) (auto simp: startswith_def)

lemma startswith_before_sep:
  "startswith (w @ c # x) v \<Longrightarrow> c \<notin> set v \<Longrightarrow> startswith w v"
proof (induction w arbitrary: v)
  case Nil
  then show ?case by (cases v) (auto simp: startswith_def)
next
  case (Cons a w)
  then show ?case by (cases v) (auto simp: startswith_Cons)
qed

subsection \<open>join, split, splitlines, in\<close>

fun join :: "pystr \<Rightarrow> pystr list \<Rightarrow> pystr" where
  "join sep [] = []"
| "join sep [x] = x"
| "join sep (x # y # ys) = x @ sep @ join sep (y # ys)"

text \<open>\<open>s.split(c)\<close> for a one-character separator: never the empty list.\<close>

fun split_on :: "char \<Rightarrow> pystr \<Rightarrow> pystr list" where
  "split_on c [] = [[]]"
| "split_on c (x # xs) =
     (if x = c then [] # split_on c xs
      else (case split_on c xs of [] \<Rightarrow> [[x]] | l # ls \<Rightarrow> (x # l) # ls))"

text \<open>\<open>s.split()\<close>: the maximal runs of characters that are not white space.\<close>

function words_of :: "pystr \<Rightarrow> pystr list" where
  "words_of s = (let t = dropWhile is_space s in
     if t = [] then []
     else takeWhile (\<lambda>c. \<not> is_space c) t # words_of (dropWhile (\<lambda>c. \<not> is_space c) t))"
  by pat_completeness auto
termination
proof (relation "measure length", goal_cases)
  case (2 s t)
  have "length (dropWhile (\<lambda>c. \<not> is_space c) t) < length t"
  proof (cases t)
    case (Cons x xs)
    then have "\<not> is_space x" using 2 hd_dropWhile [of is_space s] by auto
    then show ?thesis using Cons by (simp add: le_imp_less_Suc length_dropWhile_le)
  qed (use 2 in simp)
  also have "length t \<le> length s" using 2 by (simp add: length_dropWhile_le)
  finally show ?case by simp
qed simp

declare words_of.simps [simp del]

text \<open>\<open>str.splitlines\<close>: a line ends at any of Python's line boundaries, \<open>\r\n\<close> counting once,
  and a boundary at the end opens no further line.\<close>

definition is_linebreak :: "char \<Rightarrow> bool" where
  "is_linebreak c = (let n = ord c in (10 \<le> n \<and> n \<le> 13) \<or> (28 \<le> n \<and> n \<le> 30) \<or> n = 133)"

fun splitlines_from :: "pystr \<Rightarrow> pystr \<Rightarrow> pystr list" where
  "splitlines_from acc [] = (if acc = [] then [] else [rev acc])"
| "splitlines_from acc (c # d # cs) =
     (if c = CHR 0x0D \<and> d = CHR 0x0A then rev acc # splitlines_from [] cs
      else if is_linebreak c then rev acc # splitlines_from [] (d # cs)
      else splitlines_from (c # acc) (d # cs))"
| "splitlines_from acc [c] = (if is_linebreak c then [rev acc] else [rev (c # acc)])"

definition splitlines :: "pystr \<Rightarrow> pystr list" where
  "splitlines s = splitlines_from [] s"

text \<open>\<open>sub in s\<close> and \<open>s.replace\<close> for a non-empty pattern.\<close>

fun contains :: "pystr \<Rightarrow> pystr \<Rightarrow> bool" where
  "contains [] sub = (sub = [])"
| "contains (c # cs) sub = (startswith (c # cs) sub \<or> contains cs sub)"

text \<open>\<open>s.split(c, 1)[0]\<close>.\<close>

definition before :: "char \<Rightarrow> pystr \<Rightarrow> pystr" where
  "before c s = takeWhile (\<lambda>x. x \<noteq> c) s"

lemma split_on_not_Nil [simp]: "split_on c s \<noteq> []"
  by (induction s) (auto split: list.splits)

lemma join_split_on [simp, py_text]: "join [c] (split_on c s) = s"
proof (induction s)
  case (Cons x xs)
  obtain l ls where l: "split_on c xs = l # ls" by (cases "split_on c xs") auto
  then show ?case using Cons by (cases ls) auto
qed simp

lemma split_on_no_sep: "l \<in> set (split_on c s) \<Longrightarrow> c \<notin> set l"
  by (induction s arbitrary: l) (auto split: if_splits list.splits)

lemma join_Cons: "ys \<noteq> [] \<Longrightarrow> join sep (x # ys) = x @ sep @ join sep ys"
  by (cases ys) auto

lemma set_join: "x \<in> set (join sep xs) \<Longrightarrow> x \<in> set sep \<or> (\<exists>y \<in> set xs. x \<in> set y)"
  by (induction xs rule: induct_list012) auto

lemma words_no_space: "w \<in> set (words_of s) \<Longrightarrow> c \<in> set w \<Longrightarrow> \<not> is_space c"
proof (induction s rule: words_of.induct)
  case (1 s)
  let ?t = "dropWhile is_space s"
  have "w = takeWhile (\<lambda>c. \<not> is_space c) ?t
      \<or> w \<in> set (words_of (dropWhile (\<lambda>c. \<not> is_space c) ?t))" and "?t \<noteq> []"
    using "1.prems"(1) by (subst (asm) words_of.simps; auto simp: Let_def split: if_splits)+
  then show ?case using 1 by (auto dest: set_takeWhileD)
qed

lemma split_on_append: "c \<notin> set u \<Longrightarrow> split_on c (u @ c # v) = u # split_on c v"
  by (induction u) auto

lemma split_on_single: "c \<notin> set u \<Longrightarrow> split_on c u = [u]"
  by (induction u) auto

lemma split_on_join: "xs \<noteq> [] \<Longrightarrow> (\<And>x. x \<in> set xs \<Longrightarrow> c \<notin> set x) \<Longrightarrow> split_on c (join [c] xs) = xs"
proof (induction xs rule: induct_list012)
  case (3 x y zs)
  then show ?case by (simp add: split_on_append)
qed (auto simp: split_on_single)

lemma contains_iff: "contains s sub \<longleftrightarrow> (\<exists>u v. s = u @ sub @ v)"
proof (induction s)
  case (Cons c cs)
  show ?case
  proof
    assume "contains (c # cs) sub"
    then consider "startswith (c # cs) sub" | "contains cs sub" by auto
    then show "\<exists>u v. c # cs = u @ sub @ v"
    proof cases
      case 1 then show ?thesis by (metis append_Nil startswith_iff)
    next
      case 2 then show ?thesis using Cons by (metis append_Cons)
    qed
  next
    assume "\<exists>u v. c # cs = u @ sub @ v"
    then obtain u v where eq: "c # cs = u @ sub @ v" by blast
    show "contains (c # cs) sub"
    proof (cases u)
      case Nil
      then have "startswith (c # cs) sub" using eq by (auto simp: startswith_iff)
      then show ?thesis by simp
    next
      case (Cons x xs) then show ?thesis using eq Cons.IH by auto
    qed
  qed
qed auto

section \<open>sorted(set(xs))\<close>

definition sorted_set :: "'a::linorder list \<Rightarrow> 'a list" where
  "sorted_set xs = sort (remdups xs)"

lemma set_sorted_set [simp]: "set (sorted_set xs) = set xs"
  by (simp add: sorted_set_def)

lemma sorted_sorted_set [simp]: "sorted (sorted_set xs)"
  by (simp add: sorted_set_def)

lemma distinct_sorted_set [simp]: "distinct (sorted_set xs)"
  by (simp add: sorted_set_def)

lemma sorted_set_cong: "set xs = set ys \<Longrightarrow> sorted_set xs = sorted_set ys"
  by (rule sorted_distinct_set_unique) auto

lemma sorted_set_id: "sorted xs \<Longrightarrow> distinct xs \<Longrightarrow> sorted_set xs = xs"
  by (rule sorted_distinct_set_unique) auto

lemma sorted_set_idem [simp]: "sorted_set (sorted_set xs) = sorted_set xs"
  by (rule sorted_set_cong) simp

section \<open>Numbers as text\<close>

fun show_nat :: "nat \<Rightarrow> pystr" where
  "show_nat n = (if n < 10 then [char_of (48 + n)]
                 else show_nat (n div 10) @ [char_of (48 + n mod 10)])"

declare show_nat.simps [simp del]

definition show_int :: "int \<Rightarrow> pystr" where
  "show_int k = (if k < 0 then CHR ''-'' # show_nat (nat (- k)) else show_nat (nat k))"

definition round_half_even :: "real \<Rightarrow> int" where
  "round_half_even x = (let f = \<lfloor>x\<rfloor>; d = x - of_int f in
     if d < 1 / 2 then f else if 1 / 2 < d then f + 1 else if even f then f else f + 1)"

text \<open>\<open>f"{x:.0f}"\<close>, \<open>f"{x:.1f}"\<close> and \<open>round(x, 1)\<close>.\<close>

definition fmt_f0 :: "real \<Rightarrow> pystr" where
  "fmt_f0 x = show_int (round_half_even x)"

definition fmt_f1 :: "real \<Rightarrow> pystr" where
  "fmt_f1 x = (let k = round_half_even (10 * x); a = nat \<bar>k\<bar> in
     (if x < 0 then ''-'' else []) @ show_nat (a div 10) @ ''.'' @ show_nat (a mod 10))"

definition round1 :: "real \<Rightarrow> real" where
  "round1 x = of_int (round_half_even (10 * x)) / 10"

section \<open>Option values that Python treats as false\<close>

text \<open>\<open>x or d\<close> for an optional text or list: \<open>None\<close> and the empty value fall through to \<open>d\<close>.\<close>

definition truthy :: "'a list option \<Rightarrow> bool" where
  "truthy x = (case x of None \<Rightarrow> False | Some v \<Rightarrow> v \<noteq> [])"

definition or_else :: "'a list option \<Rightarrow> 'a list \<Rightarrow> 'a list" where
  "or_else x d = (case x of None \<Rightarrow> d | Some v \<Rightarrow> if v = [] then d else v)"

lemma truthy_simps [simp]: "truthy None = False" "truthy (Some v) = (v \<noteq> [])"
  by (simp_all add: truthy_def)

lemma or_else_simps [simp]:
  "or_else None d = d" "or_else (Some []) d = d" "v \<noteq> [] \<Longrightarrow> or_else (Some v) d = v"
  by (simp_all add: or_else_def)

definition none_if_empty :: "'a list \<Rightarrow> 'a list option" where
  "none_if_empty v = (if v = [] then None else Some v)"

text \<open>\<open>s.replace(old, new)\<close> for a text \<open>old\<close> that is not empty, and \<open>s.strip(chars)\<close>.\<close>

function py_replace :: "pystr \<Rightarrow> pystr \<Rightarrow> pystr \<Rightarrow> pystr" where
  "py_replace old new s =
     (if s = [] \<or> old = [] then s
      else if startswith s old then new @ py_replace old new (drop (length old) s)
      else hd s # py_replace old new (tl s))"
  by pat_completeness auto
termination
  by (relation "measure (\<lambda>(old, new, s). length s)") (auto simp: startswith_def)

declare py_replace.simps [simp del]

definition strip_chars :: "char set \<Rightarrow> pystr \<Rightarrow> pystr" where
  "strip_chars cs s = rev (dropWhile (\<lambda>c. c \<in> cs) (rev (dropWhile (\<lambda>c. c \<in> cs) s)))"

end
