(* ===== verification/Server_Errors.thy ===== *)
theory Server_Errors
  imports Py_Prelude
begin

text \<open>
  The exceptions of the server and the HTTP answers they become: \<open>server/app/errors.py\<close>, the
  error classes of \<open>server/app/services/heap_pool.py\<close> and the exception handlers of
  \<open>server/app/main.py\<close>. A handler is looked up along the method resolution order of the
  exception's class, as Starlette does, so a handler for a subclass wins over the one for its base.
\<close>

section \<open>Classes and instances\<close>

datatype exn_class =
    C_Exception
  | C_RuntimeError | C_ValueError | C_TypeError | C_KeyError | C_AttributeError
  | C_OSError | C_TimeoutError | C_FileNotFoundError
  | C_HTTPException
  | C_SessionError | C_SessionNotFound | C_SessionStartError | C_GatewayUnavailable
  | C_PoolExhausted | C_SessionLeaseError | C_SessionBusyError
  | C_HeapPoolError | C_HeapNotFound | C_HeapCrossGroup | C_HeapBuildInProgress
  | C_HeapNotReady | C_HeapBuildFailed
  | C_Foreign pystr

text \<open>\<open>__mro__\<close> without \<open>BaseException\<close> and \<open>object\<close>; since Python 3.11 the built-in
  \<open>TimeoutError\<close>, a subclass of \<open>OSError\<close>, is also \<open>asyncio.TimeoutError\<close>. \<open>C_Foreign\<close> is any
  other class directly below \<open>Exception\<close>, by name (a \<open>Py4JNetworkError\<close>, say).\<close>

fun parent :: "exn_class \<Rightarrow> exn_class option" where
  "parent C_Exception = None"
| "parent C_TimeoutError = Some C_OSError"
| "parent C_FileNotFoundError = Some C_OSError"
| "parent C_SessionNotFound = Some C_SessionError"
| "parent C_SessionStartError = Some C_SessionError"
| "parent C_GatewayUnavailable = Some C_SessionError"
| "parent C_PoolExhausted = Some C_SessionError"
| "parent C_SessionLeaseError = Some C_SessionError"
| "parent C_SessionBusyError = Some C_SessionError"
| "parent C_HeapNotFound = Some C_HeapPoolError"
| "parent C_HeapCrossGroup = Some C_HeapPoolError"
| "parent C_HeapBuildInProgress = Some C_HeapPoolError"
| "parent C_HeapNotReady = Some C_HeapPoolError"
| "parent C_HeapBuildFailed = Some C_HeapPoolError"
| "parent _ = Some C_Exception"

definition mro :: "exn_class \<Rightarrow> exn_class list" where
  "mro c = (case parent c of None \<Rightarrow> [c]
            | Some p \<Rightarrow> (case parent p of None \<Rightarrow> [c, p] | Some q \<Rightarrow> [c, p, q]))"

lemma mro_complete: "last (mro c) = C_Exception"
  by (cases c) (simp_all add: mro_def)

text \<open>An instance: its class and \<open>str(e)\<close>; an \<open>HTTPException\<close> also has its status code.\<close>

datatype exn =
    Exn exn_class pystr
  | HTTPError nat pystr

fun class_of :: "exn \<Rightarrow> exn_class" where
  "class_of (Exn c _) = c"
| "class_of (HTTPError _ _) = C_HTTPException"

fun str_of :: "exn \<Rightarrow> pystr" where
  "str_of (Exn _ m) = m"
| "str_of (HTTPError _ m) = m"

definition isinstance :: "exn \<Rightarrow> exn_class \<Rightarrow> bool" where
  "isinstance e c = (c \<in> set (mro (class_of e)))"

fun class_name :: "exn_class \<Rightarrow> pystr" where
  "class_name C_Exception = ''Exception''"
| "class_name C_RuntimeError = ''RuntimeError''"
| "class_name C_ValueError = ''ValueError''"
| "class_name C_TypeError = ''TypeError''"
| "class_name C_KeyError = ''KeyError''"
| "class_name C_AttributeError = ''AttributeError''"
| "class_name C_OSError = ''OSError''"
| "class_name C_TimeoutError = ''TimeoutError''"
| "class_name C_FileNotFoundError = ''FileNotFoundError''"
| "class_name C_HTTPException = ''HTTPException''"
| "class_name C_SessionError = ''SessionError''"
| "class_name C_SessionNotFound = ''SessionNotFound''"
| "class_name C_SessionStartError = ''SessionStartError''"
| "class_name C_GatewayUnavailable = ''GatewayUnavailable''"
| "class_name C_PoolExhausted = ''PoolExhausted''"
| "class_name C_SessionLeaseError = ''SessionLeaseError''"
| "class_name C_SessionBusyError = ''SessionBusyError''"
| "class_name C_HeapPoolError = ''HeapPoolError''"
| "class_name C_HeapNotFound = ''HeapNotFound''"
| "class_name C_HeapCrossGroup = ''HeapCrossGroup''"
| "class_name C_HeapBuildInProgress = ''HeapBuildInProgress''"
| "class_name C_HeapNotReady = ''HeapNotReady''"
| "class_name C_HeapBuildFailed = ''HeapBuildFailed''"
| "class_name (C_Foreign n) = n"

text \<open>\<open>SessionError.__init__\<close>: the detail is \<open>error\<close>, else \<open>message\<close>, else the class name.\<close>

definition session_error :: "exn_class \<Rightarrow> pystr option \<Rightarrow> pystr option \<Rightarrow> exn" where
  "session_error c message error = Exn c (or_else error (or_else message (class_name c)))"

text \<open>\<open>f"{type(e).__name__}"\<close> and \<open>": {e}"\<close> when there is a message: the text under which
  a session reports a failed backend call.\<close>

definition describe_exn :: "exn \<Rightarrow> pystr" where
  "describe_exn e = class_name (class_of e) @ (if str_of e = [] then [] else '': '' @ str_of e)"

text \<open>\<open>getattr(exc, "status_code", 500)\<close> on the heap-pool errors.\<close>

fun heap_status_code :: "exn_class \<Rightarrow> nat" where
  "heap_status_code C_HeapNotFound = 404"
| "heap_status_code C_HeapCrossGroup = 403"
| "heap_status_code C_HeapBuildInProgress = 409"
| "heap_status_code C_HeapNotReady = 422"
| "heap_status_code _ = 500"

section \<open>Exception handlers of the application\<close>

record http_response =
  status :: nat
  detail :: pystr
  retry_after :: "pystr option"

definition answer :: "nat \<Rightarrow> pystr \<Rightarrow> http_response" where
  "answer n d = \<lparr>status = n, detail = d, retry_after = None\<rparr>"

definition or_text :: "pystr \<Rightarrow> pystr \<Rightarrow> pystr" where
  "or_text s d = (if s = [] then d else s)"

fun handler_for :: "exn_class \<Rightarrow> (exn \<Rightarrow> http_response) option" where
  "handler_for C_SessionNotFound =
     Some (\<lambda>e. answer 404 (or_text (str_of e) ''Session not found''))"
| "handler_for C_GatewayUnavailable =
     Some (\<lambda>e. answer 503 (or_text (str_of e) ''REPL gateway unavailable''))"
| "handler_for C_SessionStartError =
     Some (\<lambda>e. answer 500 (or_text (str_of e) ''Session start failed''))"
| "handler_for C_SessionLeaseError =
     Some (\<lambda>e. answer 403 (or_text (str_of e) ''Invalid lease token''))"
| "handler_for C_SessionBusyError =
     Some (\<lambda>e. answer 409 (or_text (str_of e) ''Session is busy''))"
| "handler_for C_PoolExhausted =
     Some (\<lambda>e. (answer 503 (or_text (str_of e) ''Session pool exhausted''))\<lparr>retry_after := Some ''5''\<rparr>)"
| "handler_for C_SessionError =
     Some (\<lambda>e. answer 500 (or_text (str_of e) ''Session error''))"
| "handler_for C_HeapPoolError =
     Some (\<lambda>e. answer (heap_status_code (class_of e)) (or_text (str_of e) ''Heap pool error''))"
| "handler_for C_HTTPException =
     Some (\<lambda>e. case e of HTTPError n d \<Rightarrow> answer n d | Exn _ d \<Rightarrow> answer 500 d)"
| "handler_for C_Exception = Some (\<lambda>e. answer 500 ''Internal server error'')"
| "handler_for _ = None"

fun first_handler :: "exn_class list \<Rightarrow> exn \<Rightarrow> http_response" where
  "first_handler [] e = answer 500 ''Internal server error''"
| "first_handler (c # cs) e =
     (case handler_for c of Some h \<Rightarrow> h e | None \<Rightarrow> first_handler cs e)"

definition handle_exception :: "exn \<Rightarrow> http_response" where
  "handle_exception e = first_handler (mro (class_of e)) e"

section \<open>What reaches the client\<close>

lemma isinstance_simps [simp]:
  "isinstance (Exn c m) d \<longleftrightarrow> d \<in> set (mro c)"
  "isinstance (HTTPError n m) d \<longleftrightarrow> d \<in> set (mro C_HTTPException)"
  by (simp_all add: isinstance_def)

lemma isinstance_Exception: "isinstance e C_Exception"
  using mro_complete [of "class_of e"] by (auto simp: isinstance_def mro_def split: option.splits)

text \<open>The status every exception class is answered with.\<close>

definition status_of_class :: "exn_class \<Rightarrow> nat" where
  "status_of_class c =
     (if c \<in> {C_SessionNotFound, C_HeapNotFound} then 404
      else if c \<in> {C_SessionLeaseError, C_HeapCrossGroup} then 403
      else if c \<in> {C_SessionBusyError, C_HeapBuildInProgress} then 409
      else if c = C_HeapNotReady then 422
      else if c \<in> {C_GatewayUnavailable, C_PoolExhausted} then 503
      else 500)"

lemma status_handle_exception: "status (handle_exception (Exn c m)) = status_of_class c"
  by (cases c) (simp_all add: handle_exception_def mro_def answer_def status_of_class_def)

lemma detail_handle_exception:
  assumes "m \<noteq> []" and "isinstance (Exn c m) C_SessionError \<or> isinstance (Exn c m) C_HeapPoolError"
  shows "detail (handle_exception (Exn c m)) = m"
  using assms by (cases c) (simp_all add: handle_exception_def mro_def answer_def or_text_def)

text \<open>Property C12: every exception of the session layer and of the heap pool reaches the client with the
  status of its own class, never the one of its base class or of the catch-all handler, and with its
  own message; only \<open>PoolExhausted\<close> carries a \<open>Retry-After\<close> header.\<close>

theorem typed_errors_reach_client:
  assumes "m \<noteq> []" and "isinstance (Exn c m) C_SessionError \<or> isinstance (Exn c m) C_HeapPoolError"
  shows "status (handle_exception (Exn c m)) = status_of_class c
    \<and> detail (handle_exception (Exn c m)) = m
    \<and> (retry_after (handle_exception (Exn c m)) = Some ''5'' \<longleftrightarrow> c = C_PoolExhausted)"
proof -
  have "retry_after (handle_exception (Exn c m)) = Some ''5'' \<longleftrightarrow> c = C_PoolExhausted"
    using assms(2) by (cases c) (simp_all add: handle_exception_def mro_def answer_def)
  then show ?thesis
    using assms by (simp add: status_handle_exception detail_handle_exception)
qed

theorem typed_errors_reach_client_witness:
  "status (handle_exception (Exn C_HeapNotReady ''stale'')) = 422
   \<and> detail (handle_exception (Exn C_HeapNotReady ''stale'')) = ''stale''"
  using typed_errors_reach_client [of "''stale''" C_HeapNotReady]
  by (simp add: mro_def status_of_class_def)

end
