(* ===== verification/Sledgehammer_Gate.thy ===== *)
theory Sledgehammer_Gate
  imports Server_Errors
begin

text \<open>
  The gate of the sledgehammer endpoints (\<open>sledgehammer\<close> and \<open>sledgehammer_at\<close> of \<open>server/app/api/v1/router.py\<close>):
  the semaphore of the session manager bounds the runs of the whole server, the further requests queue.

  A request checks its header and its lease before the gate; both endpoints are given here by what that check
  and the prover answer, as the router's own model computes them. \<open>asyncio.Semaphore\<close> hands its permit to the first
  waiter when it is released, and a newcomer waits behind those who wait. The gauge and the counters of the metrics
  are part of the state. Cancelled requests are not modelled.
\<close>

section \<open>State and operations\<close>

datatype hammer_kind = At_Tip | At_Position

record hammer_world =
  kind_of :: "nat \<Rightarrow> hammer_kind"
  admission :: "nat \<Rightarrow> exn option"
  hammer :: "nat \<Rightarrow> exn + pystr list"

text \<open>\<open>permits\<close> is \<open>None\<close> for a manager without semaphore; \<open>arrived\<close> and \<open>started\<close> record the order of events.\<close>

record hammer_gate =
  permits :: "nat option"
  waiters :: "nat list"
  holders :: "nat list"
  inflight :: int
  hammer_successes :: nat
  hammer_failures :: nat
  answers :: "nat \<rightharpoonup> exn + pystr list"
  arrived :: "nat list"
  started :: "nat list"

definition open_gate :: "nat option \<Rightarrow> hammer_gate" where
  "open_gate cap = \<lparr>permits = cap, waiters = [], holders = [], inflight = 0, hammer_successes = 0, hammer_failures = 0,
     answers = Map.empty, arrived = [], started = []\<rparr>"

definition start_hammer :: "nat \<Rightarrow> hammer_gate \<Rightarrow> hammer_gate" where
  "start_hammer i g = g\<lparr>holders := holders g @ [i], started := started g @ [i]\<rparr>"

definition acquire_permit :: "nat \<Rightarrow> hammer_gate \<Rightarrow> hammer_gate" where
  "acquire_permit i g = (case permits g of
       None \<Rightarrow> start_hammer i g
     | Some p \<Rightarrow> if p = 0 \<or> waiters g \<noteq> [] then g\<lparr>waiters := waiters g @ [i]\<rparr>
                 else start_hammer i (g\<lparr>permits := Some (p - 1)\<rparr>))"

definition release_permit :: "hammer_gate \<Rightarrow> hammer_gate" where
  "release_permit g = (case permits g of
       None \<Rightarrow> g
     | Some p \<Rightarrow> (case waiters g of
           [] \<Rightarrow> g\<lparr>permits := Some (Suc p)\<rparr>
         | j # js \<Rightarrow> start_hammer j (g\<lparr>waiters := js\<rparr>)))"

definition record_answer :: "nat \<Rightarrow> exn + pystr list \<Rightarrow> hammer_gate \<Rightarrow> hammer_gate" where
  "record_answer i r g = g\<lparr>answers := (answers g)(i \<mapsto> r)\<rparr>"

text \<open>The handler up to its wait.\<close>

definition hammer_arrives :: "hammer_world \<Rightarrow> nat \<Rightarrow> hammer_gate \<Rightarrow> hammer_gate" where
  "hammer_arrives w i g = (case admission w i of
       Some e \<Rightarrow> record_answer i (Inl e) g
     | None \<Rightarrow> acquire_permit i (g\<lparr>inflight := inflight g + 1, arrived := arrived g @ [i]\<rparr>))"

text \<open>The counters: the position-explicit endpoint has none.\<close>

definition count_outcome :: "hammer_kind \<Rightarrow> exn + pystr list \<Rightarrow> hammer_gate \<Rightarrow> hammer_gate" where
  "count_outcome k r g = (case k of
       At_Position \<Rightarrow> g
     | At_Tip \<Rightarrow> (case r of
           Inl e \<Rightarrow> g\<lparr>hammer_failures := Suc (hammer_failures g)\<rparr>
         | Inr found \<Rightarrow> if found = [] then g\<lparr>hammer_failures := Suc (hammer_failures g)\<rparr>
                        else g\<lparr>hammer_successes := Suc (hammer_successes g)\<rparr>))"

text \<open>The thread of a request comes back, with a result or by raising.\<close>

definition hammer_answers :: "hammer_world \<Rightarrow> nat \<Rightarrow> hammer_gate \<Rightarrow> hammer_gate" where
  "hammer_answers w i g =
     (let g1 = release_permit (g\<lparr>holders := remove1 i (holders g)\<rparr>);
          g2 = g1\<lparr>inflight := inflight g1 - 1\<rparr>
      in record_answer i (hammer w i) (count_outcome (kind_of w i) (hammer w i) g2))"

inductive hammer_step :: "hammer_world \<Rightarrow> hammer_gate \<Rightarrow> hammer_gate \<Rightarrow> bool" for w :: hammer_world where
  arrives: "i \<notin> set (arrived g) \<Longrightarrow> answers g i = None \<Longrightarrow> hammer_step w g (hammer_arrives w i g)"
| returns: "i \<in> set (holders g) \<Longrightarrow> hammer_step w g (hammer_answers w i g)"

inductive_cases hammer_stepE: "hammer_step w g h"

inductive hammer_reach :: "hammer_world \<Rightarrow> nat option \<Rightarrow> hammer_gate \<Rightarrow> bool"
  for w :: hammer_world and cap :: "nat option" where
  opened: "hammer_reach w cap (open_gate cap)"
| stepped: "hammer_reach w cap g \<Longrightarrow> hammer_step w g h \<Longrightarrow> hammer_reach w cap h"

section \<open>The invariant\<close>

text \<open>The requests past the admission that are answered.\<close>

definition served_requests :: "hammer_gate \<Rightarrow> nat list" where
  "served_requests g = filter (\<lambda>i. answers g i \<noteq> None) (arrived g)"

definition served_tips :: "hammer_world \<Rightarrow> hammer_gate \<Rightarrow> nat list" where
  "served_tips w g = filter (\<lambda>i. kind_of w i = At_Tip) (served_requests g)"

definition permits_fit :: "nat option \<Rightarrow> hammer_gate \<Rightarrow> bool" where
  "permits_fit cap g = (case cap of
       None \<Rightarrow> permits g = None \<and> waiters g = []
     | Some c \<Rightarrow> (\<exists>p. permits g = Some p \<and> p + length (holders g) = c \<and> (waiters g \<noteq> [] \<longrightarrow> p = 0)))"

definition gate_ok :: "hammer_world \<Rightarrow> nat option \<Rightarrow> hammer_gate \<Rightarrow> bool" where
  "gate_ok w cap g \<longleftrightarrow> permits_fit cap g \<and> arrived g = started g @ waiters g \<and> distinct (arrived g)
     \<and> set (holders g) = {i \<in> set (started g). answers g i = None} \<and> distinct (holders g)
     \<and> (\<forall>i \<in> set (waiters g). answers g i = None)
     \<and> inflight g = int (length (holders g) + length (waiters g))
     \<and> hammer_successes g + hammer_failures g = length (served_tips w g)"

lemmas gate_ops = hammer_arrives_def hammer_answers_def acquire_permit_def release_permit_def start_hammer_def
  record_answer_def count_outcome_def Let_def

lemma gate_ok_open: "gate_ok w cap (open_gate cap)"
  by (auto simp: gate_ok_def open_gate_def permits_fit_def served_tips_def served_requests_def split: option.split)

text \<open>A new answer for a request that has arrived, or for one that has not.\<close>

lemma filter_upd_old:
  assumes "distinct xs" "i \<in> set xs" "m i = None"
  shows "length (filter (\<lambda>j. P j \<and> (m(i \<mapsto> r)) j \<noteq> None) xs)
    = length (filter (\<lambda>j. P j \<and> m j \<noteq> None) xs) + (if P i then 1 else 0)"
proof -
  obtain ys zs where xs: "xs = ys @ i # zs" using split_list [OF assms(2)] by blast
  have "i \<notin> set ys" "i \<notin> set zs" using assms(1) by (auto simp: xs)
  then have "filter (\<lambda>j. P j \<and> (m(i \<mapsto> r)) j \<noteq> None) ys = filter (\<lambda>j. P j \<and> m j \<noteq> None) ys"
    "filter (\<lambda>j. P j \<and> (m(i \<mapsto> r)) j \<noteq> None) zs = filter (\<lambda>j. P j \<and> m j \<noteq> None) zs"
    by (auto intro!: filter_cong)
  then show ?thesis using assms(3) by (simp add: xs)
qed

lemma filter_upd_new: "i \<notin> set xs \<Longrightarrow> filter (\<lambda>j. P j \<and> (m(i \<mapsto> r)) j \<noteq> None) xs = filter (\<lambda>j. P j \<and> m j \<noteq> None) xs"
  by (auto intro: filter_cong)

lemma served_tips_alt: "served_tips w g = filter (\<lambda>j. kind_of w j = At_Tip \<and> answers g j \<noteq> None) (arrived g)"
  by (simp add: served_tips_def served_requests_def conj_commute)

lemma gate_ok_arrives:
  assumes g: "gate_ok w cap g" and i: "i \<notin> set (arrived g)" "answers g i = None"
  shows "gate_ok w cap (hammer_arrives w i g)"
proof (cases "admission w i")
  case None
  have "served_tips w (hammer_arrives w i g) = served_tips w g"
    using i None by (auto simp: served_tips_alt gate_ops split: option.split)
  then show ?thesis using g i None
    by (auto simp: gate_ok_def permits_fit_def gate_ops split: option.splits)
next
  case (Some e)
  have "served_tips w (hammer_arrives w i g) = served_tips w g"
    using filter_upd_new [OF i(1), of "\<lambda>j. kind_of w j = At_Tip" "answers g" "Inl e"] Some
    by (simp add: served_tips_alt hammer_arrives_def record_answer_def del: fun_upd_apply)
  moreover have "i \<notin> set (started g)" "i \<notin> set (waiters g)" using g i by (auto simp: gate_ok_def)
  ultimately show ?thesis using g Some
    by (auto simp: gate_ok_def permits_fit_def gate_ops split: option.splits)
qed

text \<open>What an answer does to each part.\<close>

lemma hammer_answers_parts:
  "arrived (hammer_answers w i g) = arrived g"
  "answers (hammer_answers w i g) = (answers g)(i \<mapsto> hammer w i)"
  "inflight (hammer_answers w i g) = inflight g - 1"
  "hammer_successes (hammer_answers w i g) + hammer_failures (hammer_answers w i g)
    = hammer_successes g + hammer_failures g + (if kind_of w i = At_Tip then 1 else 0)"
  "waiters (hammer_answers w i g) = (if permits g = None then waiters g else tl (waiters g))"
  "permits (hammer_answers w i g) = (if waiters g = [] then map_option Suc (permits g) else permits g)"
  "holders (hammer_answers w i g) = remove1 i (holders g)
    @ (if permits g = None \<or> waiters g = [] then [] else [hd (waiters g)])"
  "started (hammer_answers w i g) = started g @ (if permits g = None \<or> waiters g = [] then [] else [hd (waiters g)])"
  by (auto simp: gate_ops split: option.split list.split hammer_kind.split sum.split)

lemma length_without: "i \<in> set xs \<Longrightarrow> length xs = Suc (length (remove1 i xs))"
  using length_pos_if_in_set [of i xs] by (simp add: length_remove1)

lemma gate_ok_answers:
  assumes g: "gate_ok w cap g" and i: "i \<in> set (holders g)"
  shows "gate_ok w cap (hammer_answers w i g)"
proof -
  have arr: "i \<in> set (arrived g)" "answers g i = None" "distinct (arrived g)" "i \<notin> set (waiters g)"
    using g i by (auto simp: gate_ok_def)
  have tips: "length (served_tips w (hammer_answers w i g)) = length (served_tips w g) + (if kind_of w i = At_Tip then 1 else 0)"
    using filter_upd_old [where m = "answers g" and P = "\<lambda>j. kind_of w j = At_Tip" and r = "hammer w i", OF arr(3,1,2)]
    by (simp add: served_tips_alt hammer_answers_parts)
  have len: "length (holders g) = Suc (length (remove1 i (holders g)))" using i by (rule length_without)
  show ?thesis
  proof (cases "waiters g")
    case Nil
    then show ?thesis using g i arr tips len
      by (auto simp: gate_ok_def hammer_answers_parts permits_fit_def split: option.splits)
  next
    case (Cons j js)
    then have "permits g = Some 0" using g by (auto simp: gate_ok_def permits_fit_def split: option.splits)
    then show ?thesis using Cons g i arr tips len
      by (auto simp: gate_ok_def hammer_answers_parts permits_fit_def split: option.splits)
  qed
qed

lemma gate_ok_reach: "hammer_reach w cap g \<Longrightarrow> gate_ok w cap g"
  by (induction rule: hammer_reach.induct)
    (auto intro: gate_ok_open gate_ok_arrives gate_ok_answers elim!: hammer_stepE)

text \<open>Started requests are the running and the answered ones.\<close>

lemma started_split:
  assumes "gate_ok w cap g"
  shows "length (started g) = length (holders g) + length (served_requests g)"
proof -
  have d: "distinct (started g)" "distinct (holders g)" and w: "\<forall>i \<in> set (waiters g). answers g i = None"
    and a: "arrived g = started g @ waiters g" and h: "set (holders g) = {i \<in> set (started g). answers g i = None}"
    using assms by (auto simp: gate_ok_def)
  have "served_requests g = filter (\<lambda>i. answers g i \<noteq> None) (started g)"
    using w by (auto simp: served_requests_def a filter_empty_conv)
  moreover have "length (holders g) = length (filter (\<lambda>i. answers g i = None) (started g))"
    using distinct_card [OF d(2)] distinct_card [OF distinct_filter [OF d(1)], of "\<lambda>i. answers g i = None"] by (simp add: h)
  ultimately show ?thesis using sum_length_filter_compl [of "\<lambda>i. answers g i = None" "started g"] by simp
qed

section \<open>Properties\<close>

text \<open>The gate bounds the runs and keeps the order. With a semaphore of \<open>c\<close> permits, in every reachable state at most
  \<open>c\<close> sledgehammers run, a request waits only while all permits are out, requests start in the order they
  arrived, the gauge counts those that run and those that wait, and every answered request at the tip is counted once. The
  wait is bounded by the queue: the request that arrived after \<open>m\<close> others still waits only while at most \<open>m - c\<close>
  of the requests have been answered.\<close>

theorem hammer_gate_sound:
  assumes "hammer_reach w (Some c) g"
  shows "permits g = Some (c - length (holders g)) \<and> length (holders g) \<le> c
    \<and> (waiters g \<noteq> [] \<longrightarrow> length (holders g) = c)
    \<and> arrived g = started g @ waiters g \<and> distinct (arrived g)
    \<and> inflight g = int (length (holders g) + length (waiters g))
    \<and> hammer_successes g + hammer_failures g = length (served_tips w g)
    \<and> (\<forall>m < length (arrived g). arrived g ! m \<in> set (waiters g) \<longrightarrow> length (served_requests g) + c \<le> m)"
proof -
  have ok: "gate_ok w (Some c) g" using gate_ok_reach [OF assms] .
  then obtain p where p: "permits g = Some p" "p + length (holders g) = c" "waiters g \<noteq> [] \<longrightarrow> p = 0"
    by (auto simp: gate_ok_def permits_fit_def)
  have a: "arrived g = started g @ waiters g" "distinct (arrived g)" using ok by (auto simp: gate_ok_def)
  have "length (served_requests g) + c \<le> m" if m: "m < length (arrived g)" "arrived g ! m \<in> set (waiters g)" for m
  proof -
    have "waiters g \<noteq> []" using m(2) by auto
    moreover have "\<not> m < length (started g)"
    proof
      assume "m < length (started g)"
      then have "arrived g ! m \<in> set (started g)" by (simp add: a(1) nth_append)
      then show False using m(2) a by auto
    qed
    ultimately show ?thesis using p started_split [OF ok] by simp
  qed
  then show ?thesis using ok p by (auto simp: gate_ok_def)
qed

text \<open>The gate never stands still: while a request is unanswered and there is a permit at all, some request runs, and
  each return answers one request and leaves one fewer in the house.\<close>

theorem hammer_gate_progress:
  assumes "hammer_reach w cap g" and "cap \<noteq> Some 0" and "holders g @ waiters g \<noteq> []"
  shows "\<exists>i \<in> set (holders g). hammer_step w g (hammer_answers w i g)
    \<and> answers (hammer_answers w i g) = (answers g)(i \<mapsto> hammer w i)
    \<and> length (holders (hammer_answers w i g) @ waiters (hammer_answers w i g)) < length (holders g @ waiters g)"
proof -
  have ok: "gate_ok w cap g" using gate_ok_reach [OF assms(1)] .
  then have "holders g \<noteq> []"
    using assms(2,3) by (auto simp: gate_ok_def permits_fit_def split: option.splits)
  then obtain i where i: "i \<in> set (holders g)" by (meson last_in_set)
  then have "length (remove1 i (holders g)) < length (holders g)" using length_without [OF i] by simp
  then have "length (holders (hammer_answers w i g) @ waiters (hammer_answers w i g)) < length (holders g @ waiters g)"
    by (cases "waiters g") (auto simp: hammer_answers_parts)
  then show ?thesis using i hammer_step.returns [OF i] hammer_answers_parts(2) by blast
qed

text \<open>A limit of zero, which the environment variable may set, closes the gate for ever: no request past the admission is
  ever started or answered.\<close>

theorem zero_permits_block:
  assumes "hammer_reach w (Some 0) g"
  shows "started g = [] \<and> (\<forall>i \<in> set (arrived g). answers g i = None)"
proof -
  have ok: "gate_ok w (Some 0) g" using gate_ok_reach [OF assms] .
  have "started g = []"
    using assms
  proof (induction rule: hammer_reach.induct)
    case (stepped g h)
    then show ?case using gate_ok_reach [OF stepped.hyps(1)]
      by (auto simp: gate_ok_def permits_fit_def gate_ops elim!: hammer_stepE split: option.splits)
  qed (simp add: open_gate_def)
  then show ?thesis using ok by (auto simp: gate_ok_def)
qed

section \<open>Witnesses\<close>

text \<open>One permit, two requests; the first fails, and the second, which waited, finds a method.\<close>

definition demo_hammers :: hammer_world where
  "demo_hammers = \<lparr>kind_of = (\<lambda>_. At_Tip), admission = (\<lambda>_. None),
     hammer = (\<lambda>i. if i = 0 then Inl (Exn C_TimeoutError '''') else Inr [''by simp''])\<rparr>"

definition demo_queue :: hammer_gate where
  "demo_queue = hammer_arrives demo_hammers 1 (hammer_arrives demo_hammers 0 (open_gate (Some 1)))"

lemma demo_queue_reach: "hammer_reach demo_hammers (Some 1) demo_queue"
  unfolding demo_queue_def
  by (rule hammer_reach.stepped [OF hammer_reach.stepped [OF hammer_reach.opened
      hammer_step.arrives [of 0]] hammer_step.arrives [of 1]])
    (simp_all add: open_gate_def demo_hammers_def gate_ops)

theorem hammer_gate_sound_witness:
  "holders demo_queue = [0] \<and> waiters demo_queue = [1] \<and> permits demo_queue = Some 0 \<and> inflight demo_queue = 2
   \<and> started (hammer_answers demo_hammers 0 demo_queue) = [0, 1]"
proof -
  have "holders demo_queue = [0] \<and> waiters demo_queue = [1] \<and> started (hammer_answers demo_hammers 0 demo_queue) = [0, 1]"
    by (simp add: demo_queue_def open_gate_def demo_hammers_def gate_ops)
  then show ?thesis using hammer_gate_sound [OF demo_queue_reach] by simp
qed

theorem hammer_gate_progress_witness:
  "\<exists>i \<in> set (holders demo_queue). hammer_step demo_hammers demo_queue (hammer_answers demo_hammers i demo_queue)"
proof -
  have "holders demo_queue @ waiters demo_queue \<noteq> []"
    by (simp add: demo_queue_def open_gate_def demo_hammers_def gate_ops)
  from hammer_gate_progress [OF demo_queue_reach _ this] show ?thesis by auto
qed

theorem zero_permits_block_witness:
  "started (hammer_arrives demo_hammers 0 (open_gate (Some 0))) = []"
proof -
  have "hammer_reach demo_hammers (Some 0) (hammer_arrives demo_hammers 0 (open_gate (Some 0)))"
    by (intro hammer_reach.stepped [OF hammer_reach.opened] hammer_step.arrives) (simp_all add: open_gate_def)
  from zero_permits_block [OF this] show ?thesis by simp
qed

end
