(* ===== verification/Py_Regex.thy ===== *)
theory Py_Regex
  imports Py_Prelude
begin

text \<open>
  The part of Python's \<open>re\<close> module the server uses, as a backtracking matcher.

  A cursor is the character before the position (\<open>None\<close> at the start of the text) and the text
  from the position on. \<open>match_re r c g\<close> lists every way \<open>r\<close> can match at \<open>c\<close>, in the order in
  which a backtracking matcher tries them; the first entry is the match \<open>re\<close> reports. Groups are
  the captured texts, latest first. A starred expression that matches the empty text stops the
  iteration; none of the server's patterns stars an expression that can.
\<close>

section \<open>Expressions and matching\<close>

type_synonym cursor = "char option \<times> pystr"
type_synonym groups = "(nat \<times> pystr) list"

datatype re =
    Eps
  | Chr "char \<Rightarrow> bool"
  | Seq re re
  | Alt re re
  | Star re
  | Lazy re
  | Grp nat re
  | LineStart
  | TextStart
  | TextEnd
  | WordBoundary
  | NotAfter "char \<Rightarrow> bool"
  | NotBefore "char \<Rightarrow> bool"

definition prev_is :: "(char \<Rightarrow> bool) \<Rightarrow> cursor \<Rightarrow> bool" where
  "prev_is P c = (case fst c of None \<Rightarrow> False | Some x \<Rightarrow> P x)"

definition next_is :: "(char \<Rightarrow> bool) \<Rightarrow> cursor \<Rightarrow> bool" where
  "next_is P c = (case snd c of [] \<Rightarrow> False | x # _ \<Rightarrow> P x)"

definition advance :: "cursor \<Rightarrow> cursor" where
  "advance c = (case snd c of [] \<Rightarrow> c | x # s \<Rightarrow> (Some x, s))"

text \<open>The text between two cursors, the second further on than the first.\<close>

definition between :: "cursor \<Rightarrow> cursor \<Rightarrow> pystr" where
  "between c d = take (length (snd c) - length (snd d)) (snd c)"

fun iterate :: "nat \<Rightarrow> bool \<Rightarrow> (cursor \<Rightarrow> groups \<Rightarrow> (cursor \<times> groups) list)
    \<Rightarrow> cursor \<Rightarrow> groups \<Rightarrow> (cursor \<times> groups) list" where
  "iterate 0 greedy f c g = [(c, g)]"
| "iterate (Suc n) greedy f c g =
     (let more = concat (map (\<lambda>(d, h). if length (snd d) < length (snd c)
                                        then iterate n greedy f d h else []) (f c g))
      in if greedy then more @ [(c, g)] else (c, g) # more)"

primrec match_re :: "re \<Rightarrow> cursor \<Rightarrow> groups \<Rightarrow> (cursor \<times> groups) list" where
  "match_re Eps c g = [(c, g)]"
| "match_re (Chr P) c g = (if next_is P c then [(advance c, g)] else [])"
| "match_re (Seq r q) c g = concat (map (\<lambda>(d, h). match_re q d h) (match_re r c g))"
| "match_re (Alt r q) c g = match_re r c g @ match_re q c g"
| "match_re (Star r) c g = iterate (length (snd c)) True (match_re r) c g"
| "match_re (Lazy r) c g = iterate (length (snd c)) False (match_re r) c g"
| "match_re (Grp n r) c g = map (\<lambda>(d, h). (d, (n, between c d) # h)) (match_re r c g)"
| "match_re LineStart c g = (if fst c = None \<or> fst c = Some NL then [(c, g)] else [])"
| "match_re TextStart c g = (if fst c = None then [(c, g)] else [])"
| "match_re TextEnd c g = (if snd c = [] \<or> snd c = [NL] then [(c, g)] else [])"
| "match_re WordBoundary c g = (if prev_is is_word c \<noteq> next_is is_word c then [(c, g)] else [])"
| "match_re (NotAfter P) c g = (if prev_is P c then [] else [(c, g)])"
| "match_re (NotBefore P) c g = (if next_is P c then [] else [(c, g)])"

fun lit :: "pystr \<Rightarrow> re" where
  "lit [] = Eps"
| "lit (c # s) = Seq (Chr (\<lambda>x. x = c)) (lit s)"

fun seqs :: "re list \<Rightarrow> re" where
  "seqs [] = Eps"
| "seqs (r # rs) = Seq r (seqs rs)"

fun alts :: "re list \<Rightarrow> re" where
  "alts [] = Chr (\<lambda>_. False)"
| "alts (r # rs) = Alt r (alts rs)"

abbreviation Plus :: "re \<Rightarrow> re" where
  "Plus r \<equiv> Seq r (Star r)"

abbreviation LazyPlus :: "re \<Rightarrow> re" where
  "LazyPlus r \<equiv> Seq r (Lazy r)"

abbreviation word :: "pystr \<Rightarrow> re" where
  "word w \<equiv> Seq WordBoundary (Seq (lit w) WordBoundary)"

abbreviation any_char :: re where
  "any_char \<equiv> Chr (\<lambda>_. True)"

section \<open>match, search, fullmatch, findall, sub\<close>

text \<open>A reported match: where it starts, where it ends, and its groups.\<close>

type_synonym found = "cursor \<times> cursor \<times> groups"

definition first_at :: "re \<Rightarrow> cursor \<Rightarrow> (cursor \<times> groups) option" where
  "first_at r c = (case match_re r c [] of [] \<Rightarrow> None | x # _ \<Rightarrow> Some x)"

function search_from :: "re \<Rightarrow> cursor \<Rightarrow> found option" where
  "search_from r c =
     (case first_at r c of
        Some (d, g) \<Rightarrow> Some (c, d, g)
      | None \<Rightarrow> (if snd c = [] then None else search_from r (advance c)))"
  by pat_completeness auto
termination
  by (relation "measure (\<lambda>(r, c). length (snd c))") (auto simp: advance_def split: list.splits)

declare search_from.simps [simp del]

definition start_of :: "pystr \<Rightarrow> cursor" where
  "start_of s = (None, s)"

definition search :: "re \<Rightarrow> pystr \<Rightarrow> found option" where
  "search r s = search_from r (start_of s)"

definition match_start :: "re \<Rightarrow> pystr \<Rightarrow> (cursor \<times> groups) option" where
  "match_start r s = first_at r (start_of s)"

definition fullmatch :: "re \<Rightarrow> pystr \<Rightarrow> bool" where
  "fullmatch r s = (\<exists>x \<in> set (match_re r (start_of s) []). snd (fst x) = [])"

text \<open>All matches from left to right that do not overlap, for a pattern that never matches the
  empty text: \<open>finditer\<close>. The count of characters left bounds the number of matches.\<close>

fun finditer_from :: "nat \<Rightarrow> re \<Rightarrow> cursor \<Rightarrow> found list" where
  "finditer_from 0 r c = []"
| "finditer_from (Suc n) r c =
     (case search_from r c of None \<Rightarrow> []
      | Some (a, b, g) \<Rightarrow> (a, b, g) # (if length (snd b) < length (snd c)
                                       then finditer_from n r b else []))"

definition finditer :: "re \<Rightarrow> pystr \<Rightarrow> found list" where
  "finditer r s = finditer_from (Suc (length s)) r (start_of s)"

definition findall :: "re \<Rightarrow> pystr \<Rightarrow> pystr list" where
  "findall r s = map (\<lambda>(a, b, g). between a b) (finditer r s)"

text \<open>\<open>r.sub(f, s)\<close>: every match replaced by \<open>f\<close> of its text.\<close>

fun sub_from :: "nat \<Rightarrow> re \<Rightarrow> (pystr \<Rightarrow> pystr) \<Rightarrow> cursor \<Rightarrow> pystr" where
  "sub_from 0 r f c = snd c"
| "sub_from (Suc n) r f c =
     (case search_from r c of None \<Rightarrow> snd c
      | Some (a, b, g) \<Rightarrow> between c a @ f (between a b) @
          (if length (snd b) < length (snd c) then sub_from n r f b else snd b))"

definition sub_re :: "re \<Rightarrow> (pystr \<Rightarrow> pystr) \<Rightarrow> pystr \<Rightarrow> pystr" where
  "sub_re r f s = sub_from (Suc (length s)) r f (start_of s)"

definition group :: "nat \<Rightarrow> groups \<Rightarrow> pystr option" where
  "group n g = map_of g n"

section \<open>Where a match ends\<close>

lemma advance_simps [simp]:
  "advance (p, x # s) = (Some x, s)" "advance (p, []) = (p, [])"
  by (simp_all add: advance_def)

lemma next_is_simps [simp]:
  "next_is P (p, []) = False" "next_is P (p, x # s) = P x"
  by (simp_all add: next_is_def)

lemma prev_is_simps [simp]:
  "prev_is P (None, s) = False" "prev_is P (Some x, s) = P x"
  by (simp_all add: prev_is_def)

text \<open>Reading \<open>u\<close> from a cursor moves it past \<open>u\<close>.\<close>

definition after :: "char option \<Rightarrow> pystr \<Rightarrow> char option" where
  "after p u = (if u = [] then p else Some (last u))"

lemma after_simps [simp]:
  "after p [] = p" "after p (x # u) = after (Some x) u" "after p (u @ v) = after (after p u) v"
  by (auto simp: after_def)

lemma between_self [simp]: "between c c = []"
  by (simp add: between_def)

lemma between_append [simp]: "between (p, u @ s) (q, s) = u"
  by (simp add: between_def)

lemma between_Nil [simp]: "between (p, s) (q, []) = s"
  by (simp add: between_def)

lemma between_Cons [simp]:
  "length s \<le> length t \<Longrightarrow> between (p, x # t) (q, s) = x # between (Some x, t) (q, s)"
  by (simp add: between_def Suc_diff_le)

definition reads :: "cursor \<Rightarrow> cursor \<Rightarrow> bool" where
  "reads c d = (\<exists>u. snd c = u @ snd d \<and> fst d = after (fst c) u)"

lemma reads_refl [simp, intro]: "reads c c"
  by (simp add: reads_def)

lemma reads_trans: "reads c d \<Longrightarrow> reads d e \<Longrightarrow> reads c e"
  unfolding reads_def by (metis after_simps(3) append.assoc)

lemma reads_advance: "reads c (advance c)"
  by (cases c; cases "snd c") (auto simp: reads_def advance_def intro: exI [of _ "[_]"])

lemma iterate_reads:
  assumes "\<And>c g d h. (d, h) \<in> set (f c g) \<Longrightarrow> reads c d"
  shows "(d, h) \<in> set (iterate n b f c g) \<Longrightarrow> reads c d"
proof (induction n arbitrary: c g)
  case (Suc n)
  from Suc.prems consider "d = c" |
      d' h' where "(d', h') \<in> set (f c g)" "(d, h) \<in> set (iterate n b f d' h')"
    by (auto simp: Let_def split: if_splits)
  then show ?case
  proof cases
    case 2
    then show ?thesis using assms [OF 2(1)] Suc.IH [OF 2(2)] by (blast intro: reads_trans)
  qed simp
qed simp

lemma match_reads: "(d, h) \<in> set (match_re r c g) \<Longrightarrow> reads c d"
proof (induction r arbitrary: c g d h)
  case (Seq r q)
  from Seq.prems obtain d' h' where "(d', h') \<in> set (match_re r c g)" "(d, h) \<in> set (match_re q d' h')"
    by auto
  then show ?case using Seq.IH by (blast intro: reads_trans)
next
  case (Star r)
  then show ?case using iterate_reads [of "match_re r"] by simp
next
  case (Lazy r)
  then show ?case using iterate_reads [of "match_re r"] by simp
qed (auto split: if_splits simp: reads_advance)

section \<open>The first match\<close>

definition head :: "(cursor \<times> groups) list \<Rightarrow> (cursor \<times> groups) option" where
  "head xs = (case xs of [] \<Rightarrow> None | x # _ \<Rightarrow> Some x)"

lemma head_simps [simp]: "head [] = None" "head (x # xs) = Some x"
  by (simp_all add: head_def)

lemma first_at_head: "first_at r c = head (match_re r c [])"
  by (simp add: first_at_def head_def)

lemma head_None_iff [simp]: "head xs = None \<longleftrightarrow> xs = []"
  by (cases xs) auto

lemma head_append: "head (xs @ ys) = (if xs = [] then head ys else head xs)"
  by (cases xs) auto

lemma head_append_Some: "head xs = Some x \<Longrightarrow> head (xs @ ys) = Some x"
  by (cases xs) auto

lemma head_Seq:
  "head (match_re r c g) = Some (d, h) \<Longrightarrow> head (match_re q d h) = Some x
    \<Longrightarrow> head (match_re (Seq r q) c g) = Some x"
  by (cases "match_re r c g") (auto simp: head_append)

lemma head_Grp:
  "head (match_re r c g) = Some (d, h) \<Longrightarrow> head (match_re (Grp n r) c g) = Some (d, (n, between c d) # h)"
  by (cases "match_re r c g") auto

lemma Seq_single:
  "match_re r c g = [(d, h)] \<Longrightarrow> match_re (Seq r q) c g = match_re q d h"
  by simp

lemma Seq_fail: "match_re r c g = [] \<Longrightarrow> match_re (Seq r q) c g = []"
  by simp

lemma match_lit:
  "match_re (lit w) (p, s) g =
     (if startswith s w then [((after p w, drop (length w) s), g)] else [])"
proof (induction w arbitrary: p s)
  case (Cons c w)
  show ?case
  proof (cases s)
    case Nil then show ?thesis by (simp add: startswith_Cons)
  next
    case (Cons x t)
    then show ?thesis using Cons.IH by (auto simp: startswith_def)
  qed
qed simp

lemma match_lit_append [simp]:
  "match_re (lit w) (p, w @ s) g = [((after p w, s), g)]"
  by (simp add: match_lit)

lemma match_word:
  assumes "w \<noteq> []" "is_word (hd w)" "is_word (last w)" "\<not> prev_is is_word (p, [])" "t = [] \<or> \<not> is_word (hd t)"
  shows "match_re (word w) (p, w @ t) g = [((after p w, t), g)]"
proof -
  have "next_is is_word (p, w @ t)" using assms(1,2) by (cases w) auto
  moreover have "prev_is is_word (p, w @ t) = False" using assms(4) by (simp add: prev_is_def)
  moreover have "prev_is is_word (after p w, t)" using assms(1,3) by (simp add: prev_is_def after_def)
  moreover have "\<not> next_is is_word (after p w, t)" using assms(5) by (cases t) auto
  ultimately show ?thesis by simp
qed

lemma match_word_none: "\<not> startswith s w \<Longrightarrow> match_re (word w) (p, s) g = []"
  by (simp add: match_lit)

text \<open>A greedy run over a character class reads as far as the class goes.\<close>

lemma iterate_run:
  assumes step: "\<And>p x s g. P x \<Longrightarrow> f (p, x # s) g = [((Some x, s), g)]"
    and stop: "\<And>p. f (p, v) g = []"
    and "\<forall>x \<in> set u. P x" and "length u \<le> n"
  shows "head (iterate n True f (p, u @ v) g) = Some ((after p u, v), g)"
  using assms(3,4)
proof (induction n arbitrary: p u)
  case (Suc n)
  show ?case
  proof (cases u)
    case Nil
    then show ?thesis using stop by simp
  next
    case (Cons x w)
    then have "head (iterate n True f (Some x, w @ v) g) = Some ((after (Some x) w, v), g)"
      using Suc by simp
    then show ?thesis using Cons Suc.prems step by (auto simp: head_append)
  qed
qed simp

lemma head_Star_run:
  assumes "\<forall>x \<in> set u. P x" and "v = [] \<or> \<not> P (hd v)"
  shows "head (match_re (Star (Chr P)) (p, u @ v) g) = Some ((after p u, v), g)"
proof -
  have "\<not> next_is P (q, v)" for q using assms(2) by (cases v) auto
  then have "head (iterate (length (u @ v)) True (match_re (Chr P)) (p, u @ v) g)
      = Some ((after p u, v), g)"
    using assms(1) by (intro iterate_run [where P = P]) auto
  then show ?thesis by simp
qed

lemma Star_stop: "s = [] \<or> \<not> P (hd s) \<Longrightarrow> match_re (Star (Chr P)) (p, s) g = [((p, s), g)]"
  by (cases s) auto

lemma head_Plus_run:
  assumes "u \<noteq> []" and "\<forall>x \<in> set u. P x" and "v = [] \<or> \<not> P (hd v)"
  shows "head (match_re (Plus (Chr P)) (p, u @ v) g) = Some ((after p u, v), g)"
proof -
  obtain x w where u: "u = x # w" using assms(1) by (cases u) auto
  have "head (match_re (Star (Chr P)) (Some x, w @ v) g) = Some ((after (Some x) w, v), g)"
    using assms u by (intro head_Star_run) auto
  then show ?thesis using assms(2) u by simp
qed

lemma Plus_fail: "s = [] \<or> \<not> P (hd s) \<Longrightarrow> match_re (Plus (Chr P)) (p, s) g = []"
  by (cases s) auto

section \<open>Searching\<close>

lemma search_from_None:
  "search_from r c = None \<longleftrightarrow>
     (\<forall>u v. snd c = u @ v \<longrightarrow> match_re r (after (fst c) u, v) [] = [])"
proof (induction r c rule: search_from.induct)
  case (1 r c)
  obtain p s where c: "c = (p, s)" by (cases c)
  show ?case
  proof (cases "match_re r c [] = []")
    case False
    then have "search_from r c \<noteq> None"
      by (subst search_from.simps) (auto simp: first_at_head split: option.splits)
    moreover have "match_re r (after p [], s) [] \<noteq> []" using False c by simp
    ultimately show ?thesis using c by (metis append_Nil fst_conv snd_conv)
  next
    case True
    then have fa: "first_at r c = None" by (simp add: first_at_head)
    show ?thesis
    proof (cases s)
      case Nil
      then show ?thesis using fa c True by (simp add: search_from.simps [of r "(p, [])"])
    next
      case (Cons x t)
      have "search_from r c = search_from r (Some x, t)"
        using fa c Cons by (simp add: search_from.simps [of r "(p, x # t)"])
      moreover have "search_from r (Some x, t) = None \<longleftrightarrow>
          (\<forall>u v. t = u @ v \<longrightarrow> match_re r (after (Some x) u, v) [] = [])"
        using 1 [OF fa] c Cons by simp
      moreover have "(\<forall>u v. s = u @ v \<longrightarrow> match_re r (after p u, v) [] = [])
          \<longleftrightarrow> (\<forall>u v. t = u @ v \<longrightarrow> match_re r (after (Some x) u, v) [] = [])"
      proof (intro iffI allI impI)
        fix u v assume all: "\<forall>u v. s = u @ v \<longrightarrow> match_re r (after p u, v) [] = []" and "t = u @ v"
        then show "match_re r (after (Some x) u, v) [] = []"
          using Cons all [rule_format, of "x # u" v] by simp
      next
        fix u v assume "\<forall>u v. t = u @ v \<longrightarrow> match_re r (after (Some x) u, v) [] = []" and "s = u @ v"
        then show "match_re r (after p u, v) [] = []"
          using Cons True c by (cases u) auto
      qed
      ultimately show ?thesis using c by simp
    qed
  qed
qed

lemma search_from_hit:
  "head (match_re r c []) = Some (d, g) \<Longrightarrow> search_from r c = Some (c, d, g)"
  by (simp add: search_from.simps [of r c] first_at_head)

lemma search_from_miss:
  "match_re r (p, x # s) [] = [] \<Longrightarrow> search_from r (p, x # s) = search_from r (Some x, s)"
  by (simp add: search_from.simps [of r "(p, x # s)"] first_at_head)

text \<open>Text that no match can start in is skipped.\<close>

lemma search_from_skip:
  assumes "\<And>a b. u = a @ b \<Longrightarrow> b \<noteq> [] \<Longrightarrow> match_re r (after p a, b @ s) [] = []"
  shows "search_from r (p, u @ s) = search_from r (after p u, s)"
  using assms
proof (induction u arbitrary: p)
  case (Cons x u)
  have "match_re r (p, x # u @ s) [] = []"
    using Cons.prems [of "[]" "x # u"] by simp
  moreover have "search_from r (Some x, u @ s) = search_from r (after (Some x) u, s)"
  proof (rule Cons.IH)
    fix a b assume "u = a @ b" and "b \<noteq> []"
    then show "match_re r (after (Some x) a, b @ s) [] = []"
      using Cons.prems [of "x # a" b] by simp
  qed
  ultimately show ?case by (simp add: search_from_miss)
qed simp

lemma search_from_reads:
  "search_from r c = Some (a, b, g) \<Longrightarrow> reads c a \<and> reads a b \<and> (b, g) \<in> set (match_re r a [])"
proof (induction r c rule: search_from.induct)
  case (1 r c)
  show ?case
  proof (cases "match_re r c []")
    case Nil
    then have fa: "first_at r c = None" by (simp add: first_at_head)
    then have ne: "snd c \<noteq> []" and rec: "search_from r (advance c) = Some (a, b, g)"
      using "1.prems" by (auto simp: search_from.simps [of r c] split: if_splits)
    show ?thesis using "1.IH" [OF fa ne rec] reads_advance reads_trans by blast
  next
    case (Cons x xs)
    then have "x = (b, g)" "a = c"
      using "1.prems" by (cases x, auto simp: search_from.simps [of r c] first_at_head)+
    then show ?thesis using Cons match_reads [of b g r c "[]"] by simp
  qed
qed

end
