(* ===== verification/Theory_Parsing.thy ===== *)
theory Theory_Parsing
  imports Py_Regex
begin

text \<open>
  The canonical parse of a theory header (\<open>server/app/services/theory_parsing.py\<close>) and the header
  the session layer builds (\<open>_build_theory_header\<close> of \<open>server/app/services/session.py\<close>).
  The lemmas show that removing comments keeps the line numbering and leaves text without
  comments alone, that a comment before the header does not change the parse, and that a header
  the server builds is parsed back to the name and the imports it was built from.
\<close>

section \<open>Patterns\<close>

definition is_name_char :: "char \<Rightarrow> bool" where
  "is_name_char c = (is_alpha_ascii c \<or> is_digit_ascii c \<or> c \<in> set ''_.-'' \<or> ord c = 39)"

definition is_token_start :: "char \<Rightarrow> bool" where
  "is_token_start c = (is_alpha_ascii c \<or> c = CHR ''_'')"

definition is_token_char :: "char \<Rightarrow> bool" where
  "is_token_char c = (is_alpha_ascii c \<or> is_digit_ascii c \<or> c \<in> set ''_./-'')"

definition is_blank :: "char \<Rightarrow> bool" where
  "is_blank c = (c = CHR '' '' \<or> ord c = 9)"

abbreviation DQ :: char where
  "DQ \<equiv> CHR 0x22"

definition theory_name_re :: re where
  "theory_name_re =
     Alt (Seq (Chr (\<lambda>c. c = DQ))
            (Seq (Grp 1 (Plus (Chr (\<lambda>c. c \<noteq> DQ \<and> c \<noteq> NL)))) (Chr (\<lambda>c. c = DQ))))
         (Grp 2 (Plus (Chr is_name_char)))"

text \<open>\<open>_THEORY_LINE_RE\<close>, and \<open>RegularExp.THEORY_RE\<close> of \<open>core/config.py\<close>, which is the same.\<close>

definition THEORY_LINE_RE :: re where
  "THEORY_LINE_RE =
     seqs [LineStart, Star (Chr is_blank), lit ''theory'', Plus (Chr is_space), theory_name_re]"

definition IMPORT_TOKEN_RE :: re where
  "IMPORT_TOKEN_RE =
     Alt (Seq (Chr (\<lambda>c. c = DQ)) (Seq (Plus (Chr (\<lambda>c. c \<noteq> DQ))) (Chr (\<lambda>c. c = DQ))))
         (Seq (Chr is_token_start) (Star (Chr is_token_char)))"

definition NOISE :: "pystr list" where
  "NOISE = [''imports'', ''begin'', ''theory'', ''keywords'']"

text \<open>\<open>m.group(1) or m.group(2)\<close>.\<close>

definition theory_group :: "groups \<Rightarrow> pystr option" where
  "theory_group g = (if truthy (group 1 g) then group 1 g else group 2 g)"

section \<open>Operations\<close>

definition extract_theory_name :: "pystr \<Rightarrow> pystr option" where
  "extract_theory_name txt =
     (case search THEORY_LINE_RE txt of None \<Rightarrow> None | Some (a, b, g) \<Rightarrow> theory_group g)"

text \<open>The scan of \<open>strip_theory_comments\<close>: the nesting depth and the text from position \<open>i\<close> on.\<close>

function strip_from :: "nat \<Rightarrow> pystr \<Rightarrow> pystr" where
  "strip_from d [] = []"
| "strip_from d (c # s) =
     (if d = 0 then
        if startswith (c # s) ''(*'' then strip_from 1 (tl s)
        else c # strip_from 0 s
      else if startswith (c # s) ''(*'' then strip_from (d + 1) (tl s)
      else if startswith (c # s) ''*)'' then strip_from (d - 1) (tl s)
      else if c = NL then NL # strip_from d s
      else strip_from d s)"
  by pat_completeness auto
termination
  by (relation "measure (\<lambda>(d, s). length s)") auto

definition strip_theory_comments :: "pystr \<Rightarrow> pystr" where
  "strip_theory_comments txt = strip_from 0 txt"

definition strip_quotes :: "pystr \<Rightarrow> pystr" where
  "strip_quotes t = rev (dropWhile (\<lambda>c. c = DQ) (rev (dropWhile (\<lambda>c. c = DQ) t)))"

definition import_tokens :: "pystr \<Rightarrow> pystr list" where
  "import_tokens raw =
     filter (\<lambda>tok. tok \<noteq> [] \<and> tok \<notin> set NOISE) (map strip_quotes (findall IMPORT_TOKEN_RE raw))"

text \<open>The text between \<open>imports\<close> and \<open>begin\<close>, or to the end when there is no \<open>begin\<close>.\<close>

definition imports_part :: "pystr \<Rightarrow> pystr" where
  "imports_part aft =
     (case search (word ''begin'') aft of
        None \<Rightarrow> aft
      | Some (a, b, g) \<Rightarrow> between (start_of aft) a)"

definition parse_theory_header :: "pystr \<Rightarrow> pystr option \<times> pystr list" where
  "parse_theory_header txt =
     (let stripped = strip_theory_comments txt in
      case search THEORY_LINE_RE stripped of
        None \<Rightarrow> (None, [])
      | Some (a, b, g) \<Rightarrow>
          (let name = theory_group g; rest = snd b in
           case search (word ''imports'') rest of
             None \<Rightarrow> (name, [])
           | Some (_, im, _) \<Rightarrow> (name, import_tokens (imports_part (snd im)))))"

fun suggested_field :: "pystr list \<Rightarrow> pystr option" where
  "suggested_field [] = None"
| "suggested_field (name # names) =
     (if CHR ''.'' \<in> set name then Some (before (CHR ''.'') name) else suggested_field names)"

text \<open>\<open>_build_theory_header\<close>: an import that is not one identifier is quoted.\<close>

definition is_ident_rest :: "char \<Rightarrow> bool" where
  "is_ident_rest c = (is_word c \<or> ord c = 39)"

definition IDENT_RE :: re where
  "IDENT_RE = Seq (Chr is_alpha_ascii) (Star (Chr is_ident_rest))"

definition quote_import :: "pystr \<Rightarrow> pystr" where
  "quote_import i = (if fullmatch IDENT_RE i then i else [DQ] @ i @ [DQ])"

definition build_theory_header :: "pystr \<Rightarrow> pystr list option \<Rightarrow> pystr" where
  "build_theory_header name imports =
     (let names = filter (\<lambda>n. n \<noteq> []) (case imports of None \<Rightarrow> [] | Some is \<Rightarrow> is);
          names = (if names = [] then [''Main''] else names)
      in ''theory '' @ name @ '' imports '' @ join '' '' (map quote_import names) @ '' begin'')"

section \<open>Comments\<close>

lemma strip_from_newlines: "count_list (strip_from d s) NL = count_list s NL"
proof (induction d s rule: strip_from.induct)
  case (2 d c s)
  have tl_eq: "count_list (tl s) NL = count_list (c # s) NL"
    if "startswith (c # s) ''(*'' \<or> startswith (c # s) ''*)''"
    using that by (auto simp: startswith_Cons)
  show ?case using 2 tl_eq by auto
qed simp

lemma strip_from_no_comment: "\<not> contains s ''(*'' \<Longrightarrow> strip_from 0 s = s"
  by (induction s) auto

lemma length_strip_from: "length (strip_from d s) \<le> length s"
proof (induction d s rule: strip_from.induct)
  case (2 d c s)
  have "length (tl s) \<le> length s" by simp
  with 2 show ?case by (auto intro: le_SucI order_trans)
qed simp

text \<open>Where a comment opened at depth \<open>d\<close> closes.\<close>

function comment_end :: "nat \<Rightarrow> pystr \<Rightarrow> pystr option" where
  "comment_end d [] = (if d = 0 then Some [] else None)"
| "comment_end d (c # s) =
     (if d = 0 then Some (c # s)
      else if startswith (c # s) ''(*'' then comment_end (d + 1) (tl s)
      else if startswith (c # s) ''*)'' then comment_end (d - 1) (tl s)
      else comment_end d s)"
  by pat_completeness auto
termination
  by (relation "measure (\<lambda>(d, s). length s)") auto

lemma strip_from_comment_end:
  "comment_end d s = Some t \<Longrightarrow> \<exists>n. strip_from d s = replicate n NL @ strip_from 0 t"
proof (induction d s rule: comment_end.induct)
  case (1 d)
  then show ?case by (auto split: if_splits intro: exI [of _ 0])
next
  case (2 d c s)
  show ?case
  proof (cases "d = 0")
    case True
    then show ?thesis using "2.prems" by (auto intro: exI [of _ 0])
  next
    case False
    consider (opn) "startswith (c # s) ''(*''"
      | (cls) "\<not> startswith (c # s) ''(*''" "startswith (c # s) ''*)''"
      | (chr) "\<not> startswith (c # s) ''(*''" "\<not> startswith (c # s) ''*)''" by blast
    then show ?thesis
    proof cases
      case opn then show ?thesis using 2 False by simp
    next
      case cls then show ?thesis using 2 False by simp
    next
      case chr
      then obtain n where "strip_from d s = replicate n NL @ strip_from 0 t"
        using 2 False by auto
      then have "strip_from d (c # s) = (if c = NL then replicate (Suc n) NL else replicate n NL) @ strip_from 0 t"
        using chr False by simp
      then show ?thesis by (metis (full_types))
    qed
  qed
qed

lemma strip_from_append: "CHR ''('' \<notin> set u \<Longrightarrow> strip_from 0 (u @ v) = u @ strip_from 0 v"
  by (induction u) (auto simp: startswith_Cons)

section \<open>The parse does not look before the header's line\<close>

text \<open>An expression that looks only forward matches the same way whatever stands before.\<close>

fun forward :: "re \<Rightarrow> bool" where
  "forward (Seq r q) = (forward r \<and> forward q)"
| "forward (Alt r q) = (forward r \<and> forward q)"
| "forward (Star r) = forward r"
| "forward (Lazy r) = forward r"
| "forward (Grp n r) = forward r"
| "forward LineStart = False"
| "forward TextStart = False"
| "forward WordBoundary = False"
| "forward (NotAfter P) = False"
| "forward _ = True"

definition rests :: "(cursor \<times> groups) list \<Rightarrow> (pystr \<times> groups) list" where
  "rests xs = map (\<lambda>(d, h). (snd d, h)) xs"

lemma rests_simps [simp]:
  "rests [] = []" "rests (x # xs) = (snd (fst x), snd x) # rests xs"
  "rests (xs @ ys) = rests xs @ rests ys"
  by (auto simp: rests_def split: prod.splits)

lemma rests_concat: "rests (concat xss) = concat (map rests xss)"
  by (induction xss) auto

lemma rests_bind:
  assumes "\<And>d h d' h'. (snd d, h) = (snd d', h') \<Longrightarrow> rests (f d h) = rests (f' d' h')"
    and "rests xs = rests ys"
  shows "rests (concat (map (\<lambda>(d, h). f d h) xs)) = rests (concat (map (\<lambda>(d, h). f' d h) ys))"
  using assms(2)
proof (induction xs arbitrary: ys)
  case Nil
  then show ?case by (cases ys) auto
next
  case (Cons x xs)
  then obtain y zs where ys: "ys = y # zs" by (cases ys) auto
  have "rests (f (fst x) (snd x)) = rests (f' (fst y) (snd y))"
    using Cons.prems ys by (intro assms(1)) simp
  moreover have "rests (concat (map (\<lambda>(d, h). f d h) xs)) = rests (concat (map (\<lambda>(d, h). f' d h) zs))"
    using Cons.prems ys by (intro Cons.IH) simp
  ultimately show ?case using ys by (simp add: case_prod_unfold)
qed

lemma rests_iterate:
  assumes "\<And>c c' g. snd c = snd c' \<Longrightarrow> rests (f c g) = rests (f c' g)"
  shows "snd c = snd c' \<Longrightarrow> rests (iterate n b f c g) = rests (iterate n b f c' g)"
proof (induction n arbitrary: c c' g)
  case (Suc n)
  let ?step = "\<lambda>c. \<lambda>d h. if length (snd d) < length (snd c) then iterate n b f d h else []"
  have "rests (concat (map (\<lambda>(d, h). ?step c d h) (f c g)))
      = rests (concat (map (\<lambda>(d, h). ?step c' d h) (f c' g)))"
  proof (rule rests_bind)
    fix d d' :: cursor and h h' :: groups assume "(snd d, h) = (snd d', h')"
    then show "rests (?step c d h) = rests (?step c' d' h')"
      using Suc.prems Suc.IH [of d d' h] by simp
  qed (rule assms [OF Suc.prems])
  then show ?case using Suc.prems by (simp add: Let_def)
qed simp

lemma forward_rests:
  "forward r \<Longrightarrow> snd c = snd c' \<Longrightarrow> rests (match_re r c g) = rests (match_re r c' g)"
proof (induction r arbitrary: c c' g)
  case (Seq r q)
  have "rests (concat (map (\<lambda>(d, h). match_re q d h) (match_re r c g)))
      = rests (concat (map (\<lambda>(d, h). match_re q d h) (match_re r c' g)))"
  proof (rule rests_bind)
    fix d d' :: cursor and h h' :: groups assume "(snd d, h) = (snd d', h')"
    then show "rests (match_re q d h) = rests (match_re q d' h')"
      using Seq.prems(1) Seq.IH(2) [of d d' h] by simp
  next
    show "rests (match_re r c g) = rests (match_re r c' g)"
      by (rule Seq.IH(1)) (use Seq.prems in simp_all)
  qed
  then show ?case by simp
next
  case (Star r)
  then have "rests (iterate (length (snd c)) True (match_re r) c g)
      = rests (iterate (length (snd c)) True (match_re r) c' g)"
    by (intro rests_iterate Star.IH) auto
  with Star.prems show ?case by simp
next
  case (Lazy r)
  then have "rests (iterate (length (snd c)) False (match_re r) c g)
      = rests (iterate (length (snd c)) False (match_re r) c' g)"
    by (intro rests_iterate Lazy.IH) auto
  with Lazy.prems show ?case by simp
next
  case (Grp n r)
  have *: "rests (map (\<lambda>(d, h). (d, (n, between c d) # h)) xs)
      = map (\<lambda>(t, h). (t, (n, take (length (snd c) - length t) (snd c)) # h)) (rests xs)" for c xs
    by (induction xs) (auto simp: between_def)
  have "rests (match_re r c g) = rests (match_re r c' g)"
    by (rule Grp.IH) (use Grp.prems in simp_all)
  then show ?case using Grp.prems * by simp
next
  case (Alt r q)
  have "rests (match_re r c g) = rests (match_re r c' g)"
    by (rule Alt.IH(1)) (use Alt.prems in simp_all)
  moreover have "rests (match_re q c g) = rests (match_re q c' g)"
    by (rule Alt.IH(2)) (use Alt.prems in simp_all)
  ultimately show ?case by simp
qed (auto simp: advance_def next_is_def split: list.splits)

lemma search_after_newline:
  assumes "forward r"
  shows "map_option (\<lambda>(a, b, g). (snd b, g)) (search_from (Seq LineStart r) (Some NL, x))
       = map_option (\<lambda>(a, b, g). (snd b, g)) (search_from (Seq LineStart r) (None, x))"
proof -
  have eq: "rests (match_re (Seq LineStart r) (Some NL, x) [])
      = rests (match_re (Seq LineStart r) (None, x) [])"
    using forward_rests [OF assms, of "(Some NL, x)" "(None, x)" "[]"] by simp
  show ?thesis
  proof (cases "match_re (Seq LineStart r) (None, x) []")
    case Nil
    then have none: "match_re (Seq LineStart r) (Some NL, x) [] = []"
      using eq by (cases "match_re (Seq LineStart r) (Some NL, x) []") auto
    show ?thesis
    proof (cases x)
      case Nil
      then show ?thesis using \<open>match_re (Seq LineStart r) (None, x) [] = []\<close> none
        by (simp add: search_from.simps [of _ "(_, [])"] first_at_head del: match_re.simps)
    next
      case (Cons y z)
      then show ?thesis using \<open>match_re (Seq LineStart r) (None, x) [] = []\<close> none
        by (simp only: search_from_miss)
    qed
  next
    case (Cons y ys)
    then obtain z zs where z: "match_re (Seq LineStart r) (Some NL, x) [] = z # zs"
      using eq by (cases "match_re (Seq LineStart r) (Some NL, x) []") auto
    have "search_from (Seq LineStart r) (None, x) = Some ((None, x), fst y, snd y)"
      using Cons by (intro search_from_hit) simp
    moreover have "search_from (Seq LineStart r) (Some NL, x) = Some ((Some NL, x), fst z, snd z)"
      using z by (intro search_from_hit) simp
    ultimately show ?thesis using eq Cons z by (simp add: case_prod_beta del: match_re.simps)
  qed
qed

lemma THEORY_LINE_RE_Seq:
  "THEORY_LINE_RE = Seq LineStart
     (seqs [Star (Chr is_blank), lit ''theory'', Plus (Chr is_space), theory_name_re])"
  by (simp add: THEORY_LINE_RE_def)

lemma search_theory_newlines:
  "map_option (\<lambda>(a, b, g). (snd b, g)) (search THEORY_LINE_RE (replicate n NL @ x))
   = map_option (\<lambda>(a, b, g). (snd b, g)) (search THEORY_LINE_RE x)"
proof -
  have "search_from THEORY_LINE_RE (None, replicate n NL @ x)
      = search_from THEORY_LINE_RE (after None (replicate n NL), x)"
  proof (rule search_from_skip)
    fix a b assume ab: "replicate n NL = a @ b" and "b \<noteq> []"
    have "\<forall>c \<in> set (a @ b). c = NL" by (simp add: ab [symmetric])
    then obtain b' where "b = NL # b'" using \<open>b \<noteq> []\<close> by (cases b) auto
    then show "match_re THEORY_LINE_RE (after None a, b @ x) [] = []"
      by (simp add: THEORY_LINE_RE_def is_blank_def)
  qed
  then show ?thesis
  proof (cases n)
    case 0
    then show ?thesis by simp
  next
    case (Suc m)
    have aft: "after None (replicate n NL) = Some NL"
      using Suc by (simp add: after_def del: replicate.simps)
    have "forward (seqs [Star (Chr is_blank), lit ''theory'', Plus (Chr is_space), theory_name_re])"
      by (simp add: theory_name_re_def)
    from search_after_newline [OF this, of x] show ?thesis
      using aft \<open>search_from THEORY_LINE_RE (None, replicate n NL @ x) = _\<close>
      by (simp add: search_def start_of_def THEORY_LINE_RE_Seq)
  qed
qed

definition parse_stripped :: "pystr \<times> groups \<Rightarrow> pystr option \<times> pystr list" where
  "parse_stripped x = (theory_group (snd x),
     (case search (word ''imports'') (fst x) of
        None \<Rightarrow> [] | Some (_, im, _) \<Rightarrow> import_tokens (imports_part (snd im))))"

lemma parse_theory_header_alt:
  "parse_theory_header txt =
     (case map_option (\<lambda>(a, b, g). (snd b, g)) (search THEORY_LINE_RE (strip_theory_comments txt)) of
        None \<Rightarrow> (None, []) | Some x \<Rightarrow> parse_stripped x)"
  by (simp add: parse_theory_header_def parse_stripped_def Let_def split: option.splits prod.splits)

section \<open>The header the server builds\<close>

lemma contains_sep:
  assumes "c \<notin> set w" and "w \<noteq> []"
  shows "contains (x @ c # y) w \<longleftrightarrow> contains x w \<or> contains y w"
proof
  assume "contains (x @ c # y) w"
  then obtain u v where eq: "x @ c # y = u @ w @ v" by (auto simp: contains_iff)
  then consider (l) r where "x = (u @ w) @ r" | (m) r where "u @ w = x @ r" "r @ v = c # y"
    by (metis append.assoc append_eq_append_conv2)
  then show "contains x w \<or> contains y w"
  proof cases
    case l
    then show ?thesis by (auto simp: contains_iff)
  next
    case m
    show ?thesis
    proof (cases r)
      case Nil
      then show ?thesis using m(1) by (auto simp: contains_iff intro: exI [of _ u] exI [of _ "[]"])
    next
      case (Cons a r')
      then have r: "r = c # r'" "r' @ v = y" using m(2) by auto
      have "c \<in> set (u @ w)" "c \<notin> set w" using m(1) r(1) assms(1) by auto
      obtain us where "u = x @ us \<and> us @ w = r"
        using m(1) r(1) \<open>c \<notin> set w\<close> by (auto simp: append_eq_append_conv2)
      then obtain u' where "u = x @ c # u'" "r' = u' @ w"
        using r(1) \<open>c \<notin> set w\<close> assms(2) by (cases us) auto
      then show ?thesis using r by (auto simp: contains_iff)
    qed
  qed
next
  assume "contains x w \<or> contains y w"
  then show "contains (x @ c # y) w"
  proof
    assume "contains x w"
    then obtain u v where "x = u @ w @ v" by (auto simp: contains_iff)
    then have "x @ c # y = u @ w @ (v @ c # y)" by simp
    then show ?thesis unfolding contains_iff by blast
  next
    assume "contains y w"
    then obtain u v where "y = u @ w @ v" by (auto simp: contains_iff)
    then have "x @ c # y = (x @ c # u) @ w @ v" by simp
    then show ?thesis unfolding contains_iff by blast
  qed
qed

text \<open>Imports the header can carry: file and session names, no header keyword inside.\<close>

definition plain_import :: "pystr \<Rightarrow> bool" where
  "plain_import i = (i \<noteq> [] \<and> (\<forall>c \<in> set i. is_token_char c) \<and> \<not> contains i ''begin'' \<and> i \<notin> set NOISE)"

definition plain_name :: "pystr \<Rightarrow> bool" where
  "plain_name n = (n \<noteq> [] \<and> (\<forall>c \<in> set n. is_name_char c))"

lemma name_char_facts:
  "is_name_char c \<Longrightarrow> \<not> is_space c \<and> c \<noteq> DQ \<and> c \<noteq> CHR ''('' \<and> c \<noteq> CHR '' ''"
  by (auto simp: is_name_char_def is_space_def is_alpha_ascii_def is_digit_ascii_def Let_def)

lemma token_char_facts:
  "is_token_char c \<Longrightarrow> c \<noteq> DQ \<and> c \<noteq> CHR ''('' \<and> c \<noteq> CHR '' ''"
  by (auto simp: is_token_char_def is_alpha_ascii_def is_digit_ascii_def Let_def)

definition token_text :: "pystr list \<Rightarrow> pystr" where
  "token_text is = concat (map (\<lambda>i. CHR '' '' # quote_import i) is) @ '' ''"

lemma token_text_simps [simp]:
  "token_text [] = '' ''" "token_text (i # is) = CHR '' '' # quote_import i @ token_text is"
  by (simp_all add: token_text_def)

lemma token_text_join: "is \<noteq> [] \<Longrightarrow> '' '' @ join '' '' (map quote_import is) @ '' '' = token_text is"
proof (induction "is")
  case (Cons i "is")
  then show ?case by (cases "is") auto
qed simp

lemma ident_fullmatch:
  assumes "fullmatch IDENT_RE i"
  shows "i \<noteq> [] \<and> is_alpha_ascii (hd i)"
  using assms by (cases i) (auto simp: fullmatch_def IDENT_RE_def start_of_def split: if_splits)

lemma quote_import_no_paren:
  "plain_import i \<Longrightarrow> CHR ''('' \<notin> set (quote_import i)"
  by (auto simp: plain_import_def quote_import_def dest: token_char_facts)

lemma quote_import_no_begin:
  assumes "plain_import i"
  shows "\<not> contains (quote_import i) ''begin''"
proof -
  have "contains ([] @ DQ # (i @ DQ # [])) ''begin'' \<longleftrightarrow> contains i ''begin''"
    by (simp add: contains_sep del: append_Nil)
  then show ?thesis using assms by (auto simp: plain_import_def quote_import_def)
qed

lemma token_text_no_begin:
  "(\<And>i. i \<in> set is \<Longrightarrow> plain_import i) \<Longrightarrow> \<not> contains (token_text is) ''begin''"
proof (induction "is")
  case Nil
  then show ?case by (simp add: startswith_def)
next
  case (Cons i "is")
  obtain t where t: "token_text is = CHR '' '' # t" by (cases "is") auto
  have "\<not> contains t ''begin''" using Cons t by auto
  then have "\<not> contains (quote_import i @ CHR '' '' # t) ''begin''"
    using quote_import_no_begin [of i] Cons.prems by (simp add: contains_sep)
  then show ?case using t by (simp add: startswith_def)
qed

text \<open>One token is read at a time.\<close>

lemma head_token:
  assumes "plain_import i"
  shows "head (match_re IMPORT_TOKEN_RE (p, quote_import i @ CHR '' '' # t) g)
       = Some ((after p (quote_import i), CHR '' '' # t), g)"
proof (cases "fullmatch IDENT_RE i")
  case True
  obtain x w where i: "i = x # w" "is_alpha_ascii x" using ident_fullmatch [OF True] by (cases i) auto
  have w: "\<forall>c \<in> set w. is_token_char c" and x: "x \<noteq> DQ"
    using assms i by (auto simp: plain_import_def dest: token_char_facts)
  have "head (match_re (Star (Chr is_token_char)) (Some x, w @ CHR '' '' # t) g)
      = Some ((after (Some x) w, CHR '' '' # t), g)"
    using w by (intro head_Star_run) (auto simp: is_token_char_def is_alpha_ascii_def is_digit_ascii_def)
  then show ?thesis using True i x
    by (simp add: quote_import_def IMPORT_TOKEN_RE_def is_token_start_def del: match_re.simps(5))
next
  case False
  have run: "head (match_re (Plus (Chr (\<lambda>c. c \<noteq> DQ))) (Some DQ, i @ DQ # CHR '' '' # t) g)
      = Some ((after (Some DQ) i, DQ # CHR '' '' # t), g)"
    using assms by (intro head_Plus_run) (auto simp: plain_import_def dest: token_char_facts)
  have "head (match_re (Seq (Plus (Chr (\<lambda>c. c \<noteq> DQ))) (Chr (\<lambda>c. c = DQ)))
      (Some DQ, i @ DQ # CHR '' '' # t) g) = Some ((Some DQ, CHR '' '' # t), g)"
    by (rule head_Seq [OF run]) simp
  then have "head (match_re (Seq (Chr (\<lambda>c. c = DQ)) (Seq (Plus (Chr (\<lambda>c. c \<noteq> DQ))) (Chr (\<lambda>c. c = DQ))))
      (p, DQ # i @ DQ # CHR '' '' # t) g) = Some ((Some DQ, CHR '' '' # t), g)"
    by (intro head_Seq [of "Chr (\<lambda>c. c = DQ)" _ _ "(Some DQ, i @ DQ # CHR '' '' # t)" g]) simp_all
  then show ?thesis using False
    by (simp add: quote_import_def IMPORT_TOKEN_RE_def head_append_Some del: match_re.simps(1-3,5-13))
qed

lemma token_space: "match_re IMPORT_TOKEN_RE (p, CHR '' '' # t) g = []"
  by (simp add: IMPORT_TOKEN_RE_def is_token_start_def is_alpha_ascii_def)

lemma token_end: "match_re IMPORT_TOKEN_RE (p, []) g = []"
  by (simp add: IMPORT_TOKEN_RE_def)

lemma findall_tokens:
  assumes "\<And>i. i \<in> set is \<Longrightarrow> plain_import i" and "length is \<le> n"
  shows "map (\<lambda>(a, b, g). between a b) (finditer_from n IMPORT_TOKEN_RE (p, token_text is))
       = map quote_import is"
  using assms
proof (induction "is" arbitrary: n p)
  case Nil
  have "search_from IMPORT_TOKEN_RE (p, '' '') = None"
    by (simp add: search_from_miss token_space token_end search_from.simps [of _ "(_, [])"] first_at_head)
  then show ?case by (cases n) auto
next
  case (Cons i "is")
  obtain m where n: "n = Suc m" using Cons.prems(2) by (cases n) auto
  obtain t where t: "token_text is = CHR '' '' # t" by (cases "is") auto
  let ?p = "after (Some (CHR '' '')) (quote_import i)"
  have "search_from IMPORT_TOKEN_RE (p, token_text (i # is))
      = search_from IMPORT_TOKEN_RE (Some (CHR '' ''), quote_import i @ token_text is)"
    by (simp add: search_from_miss token_space)
  also have "\<dots> = Some ((Some (CHR '' ''), quote_import i @ token_text is), (?p, token_text is), [])"
    using head_token [of i "Some (CHR '' '')" t "[]"] Cons.prems(1) t by (simp add: search_from_hit)
  finally have hit: "search_from IMPORT_TOKEN_RE (p, token_text (i # is)) = \<dots>" .
  have "map (\<lambda>(a, b, g). between a b) (finditer_from m IMPORT_TOKEN_RE (?p, token_text is))
      = map quote_import is"
    using Cons n by simp
  then show ?case using hit n by simp
qed

lemma dropWhile_quote:
  "i \<noteq> [] \<Longrightarrow> hd i \<noteq> DQ \<Longrightarrow> dropWhile (\<lambda>c. c = DQ) i = i"
  by (cases i) auto

lemma strip_quotes_quote: "plain_import i \<Longrightarrow> strip_quotes (quote_import i) = i"
proof -
  assume p: "plain_import i"
  then have ne: "i \<noteq> []" and no: "\<And>c. c \<in> set i \<Longrightarrow> c \<noteq> DQ"
    by (auto simp: plain_import_def dest: token_char_facts)
  have "dropWhile (\<lambda>c. c = DQ) i = i" "dropWhile (\<lambda>c. c = DQ) (rev i) = rev i"
    using ne no by (auto intro!: dropWhile_quote simp: hd_rev)
  moreover have "dropWhile (\<lambda>c. c = DQ) (i @ [DQ]) = i @ [DQ]"
    using ne no by (cases i) auto
  ultimately show ?thesis by (simp add: strip_quotes_def quote_import_def)
qed

lemma import_tokens_text:
  assumes "\<And>i. i \<in> set is \<Longrightarrow> plain_import i"
  shows "import_tokens (token_text is) = is"
proof -
  have len: "length is \<le> length (token_text is)" by (induction "is") auto
  have "findall IMPORT_TOKEN_RE (token_text is) = map quote_import is"
    unfolding findall_def finditer_def start_of_def
    using assms len by (intro findall_tokens) auto
  moreover have "map (strip_quotes \<circ> quote_import) is = is"
    using assms by (intro map_idI) (simp add: strip_quotes_quote)
  ultimately show ?thesis
    using assms by (auto simp: import_tokens_def plain_import_def intro!: filter_True)
qed

lemma build_theory_header_text:
  assumes "is \<noteq> []" and "\<And>i. i \<in> set is \<Longrightarrow> plain_import i"
  shows "build_theory_header name (Some is) = ''theory '' @ name @ '' imports'' @ token_text is @ ''begin''"
proof -
  have "filter (\<lambda>n. n \<noteq> []) is = is"
    using assms(2) by (auto intro!: filter_True simp: plain_import_def)
  then show ?thesis
    using assms(1) token_text_join [OF assms(1)] by (simp add: build_theory_header_def Let_def)
qed

lemma search_theory_line:
  assumes "plain_name name"
  shows "\<exists>a b. search THEORY_LINE_RE (''theory '' @ name @ CHR '' '' # t) = Some (a, b, [(2, name)])
    \<and> snd b = CHR '' '' # t"
proof -
  let ?q = "after (Some (CHR '' '')) name"
  have facts: "name \<noteq> []" "\<And>c. c \<in> set name \<Longrightarrow> \<not> is_space c" "\<And>c. c \<in> set name \<Longrightarrow> c \<noteq> DQ"
    using assms by (auto simp: plain_name_def dest: name_char_facts)
  have hd_name: "\<not> is_space (hd (name @ CHR '' '' # t))" "hd (name @ CHR '' '' # t) \<noteq> DQ"
    using facts by (cases name, auto)+
  have "head (match_re (Plus (Chr is_name_char)) (Some (CHR '' ''), name @ CHR '' '' # t) [])
      = Some ((?q, CHR '' '' # t), [])"
    using assms by (intro head_Plus_run) (auto simp: plain_name_def is_name_char_def is_alpha_ascii_def is_digit_ascii_def)
  then have grp: "head (match_re (Grp 2 (Plus (Chr is_name_char))) (Some (CHR '' ''), name @ CHR '' '' # t) [])
      = Some ((?q, CHR '' '' # t), [(2, name)])"
    using head_Grp by fastforce
  have "match_re (Chr (\<lambda>c. c = DQ)) (Some (CHR '' ''), name @ CHR '' '' # t) [] = []"
    using hd_name facts by (cases name) auto
  then have nm: "head (match_re theory_name_re (Some (CHR '' ''), name @ CHR '' '' # t) [])
      = Some ((?q, CHR '' '' # t), [(2, name)])"
    unfolding theory_name_re_def match_re.simps(4) using grp by (simp add: Seq_fail)
  have sp: "head (match_re (Plus (Chr is_space)) (Some (CHR ''y''), '' '' @ name @ CHR '' '' # t) [])
      = Some ((Some (CHR '' ''), name @ CHR '' '' # t), [])"
    using hd_name by (subst head_Plus_run) (auto simp: is_space_def)
  have last: "head (match_re (Seq (Plus (Chr is_space)) (Seq theory_name_re Eps))
      (Some (CHR ''y''), '' '' @ name @ CHR '' '' # t) []) = Some ((?q, CHR '' '' # t), [(2, name)])"
    by (rule head_Seq [OF sp], rule head_Seq [OF nm]) simp
  have lit: "head (match_re (lit ''theory'') (None, ''theory '' @ name @ CHR '' '' # t) [])
      = Some ((Some (CHR ''y''), '' '' @ name @ CHR '' '' # t), [])"
    using match_lit_append [of "''theory''" None "'' '' @ name @ CHR '' '' # t" "[]"] by simp
  have star: "head (match_re (Star (Chr is_blank)) (None, ''theory '' @ name @ CHR '' '' # t) [])
      = Some ((None, ''theory '' @ name @ CHR '' '' # t), [])"
    by (subst Star_stop) (simp_all add: is_blank_def)
  have "head (match_re THEORY_LINE_RE (None, ''theory '' @ name @ CHR '' '' # t) [])
      = Some ((?q, CHR '' '' # t), [(2, name)])"
    unfolding THEORY_LINE_RE_def seqs.simps
    by (rule head_Seq [of LineStart _ _ "(None, ''theory '' @ name @ CHR '' '' # t)" "[]"], simp)
      (rule head_Seq [OF star], rule head_Seq [OF lit], rule last)
  then show ?thesis
    by (auto simp: search_def start_of_def dest: search_from_hit)
qed

lemma search_imports:
  assumes "t = [] \<or> \<not> is_word (hd t)"
  shows "\<exists>a b g. search (word ''imports'') ('' imports'' @ t) = Some (a, b, g) \<and> snd b = t"
proof -
  have "head (match_re (word ''imports'') (Some (CHR '' ''), ''imports'' @ t) [])
      = Some ((Some (CHR ''s''), t), [])"
    using assms
    by (subst match_word) (simp_all add: is_word_def is_alpha_def is_alpha_ascii_def is_digit_ascii_def)
  then have "search_from (word ''imports'') (Some (CHR '' ''), ''imports'' @ t)
      = Some ((Some (CHR '' ''), ''imports'' @ t), (Some (CHR ''s''), t), [])"
    by (rule search_from_hit)
  moreover have "search_from (word ''imports'') (None, CHR '' '' # ''imports'' @ t)
      = search_from (word ''imports'') (Some (CHR '' ''), ''imports'' @ t)"
    by (rule search_from_miss)
      (simp add: is_word_def is_alpha_def is_alpha_ascii_def is_digit_ascii_def)
  ultimately show ?thesis by (simp add: search_def start_of_def)
qed

lemma imports_part_text:
  assumes "\<not> contains u ''begin''" and "u = v @ '' ''" and "t = [] \<or> \<not> is_word (hd t)"
  shows "imports_part (u @ ''begin'' @ t) = u"
proof -
  have "search_from (word ''begin'') (None, u @ ''begin'' @ t)
      = search_from (word ''begin'') (after None u, ''begin'' @ t)"
  proof (rule search_from_skip)
    fix a b assume ab: "u = a @ b" and "b \<noteq> []"
    then obtain w where b: "b = w @ '' ''" using assms(2) by (metis append_butlast_last_id last_append last_snoc)
    have "\<not> startswith (b @ ''begin'' @ t) ''begin''"
    proof
      assume "startswith (b @ ''begin'' @ t) ''begin''"
      then have "startswith w ''begin''"
        using b startswith_before_sep [of w "CHR '' ''" "''begin'' @ t" "''begin''"] by simp
      then obtain r where "w = ''begin'' @ r" by (auto simp: startswith_iff)
      then have "u = a @ ''begin'' @ (r @ '' '')" using ab b by simp
      then show False using assms(1) unfolding contains_iff by blast
    qed
    then show "match_re (word ''begin'') (after None a, b @ ''begin'' @ t) [] = []"
      by (rule match_word_none)
  qed
  moreover have "search_from (word ''begin'') (after None u, ''begin'' @ t)
      = Some ((after None u, ''begin'' @ t), (Some (CHR ''n''), t), [])"
  proof (rule search_from_hit)
    show "head (match_re (word ''begin'') (after None u, ''begin'' @ t) []) = Some ((Some (CHR ''n''), t), [])"
      using assms
      by (subst match_word) (simp_all add: is_word_def is_alpha_def is_alpha_ascii_def is_digit_ascii_def)
  qed
  ultimately show ?thesis by (simp add: imports_part_def search_def start_of_def)
qed

section \<open>Properties\<close>

text \<open>Removing comments keeps every newline of the text, inside comments and outside, so
  line numbers do not shift.\<close>

theorem strip_comments_keeps_lines:
  "count_list (strip_theory_comments txt) NL = count_list txt NL"
  by (simp add: strip_theory_comments_def strip_from_newlines)

text \<open>A comment before the header, nested comments inside it included and whatever words it
  holds, does not change the parsed name or imports.\<close>

theorem leading_comment_ignored:
  assumes "comment_end 1 s = Some t"
  shows "parse_theory_header (''(*'' @ s) = parse_theory_header t"
proof -
  obtain n where "strip_from 1 s = replicate n NL @ strip_from 0 t"
    using strip_from_comment_end [OF assms] by blast
  then have "strip_theory_comments (''(*'' @ s) = replicate n NL @ strip_theory_comments t"
    by (simp add: strip_theory_comments_def startswith_def)
  then show ?thesis by (simp add: parse_theory_header_alt search_theory_newlines)
qed

text \<open>Property C11: a header built by the session layer for a plain name and plain imports is parsed back,
  whatever follows it, to that name and those imports in the same order.\<close>

theorem header_round_trip:
  assumes "plain_name name" and "is \<noteq> []" and "\<forall>i \<in> set is. plain_import i"
  shows "parse_theory_header (build_theory_header name (Some is) @ NL # body) = (Some name, is)"
proof -
  let ?body = "NL # strip_from 0 body"
  have p: "\<And>i. i \<in> set is \<Longrightarrow> plain_import i" using assms(3) by blast
  have hdr: "build_theory_header name (Some is) = ''theory '' @ name @ '' imports'' @ token_text is @ ''begin''"
    using assms(2) p by (rule build_theory_header_text)
  have "CHR ''('' \<notin> set (token_text is)"
    using p quote_import_no_paren by (auto simp: token_text_def)
  then have "CHR ''('' \<notin> set (build_theory_header name (Some is))"
    using assms(1) hdr by (auto simp: plain_name_def dest: name_char_facts)
  then have stripped: "strip_theory_comments (build_theory_header name (Some is) @ NL # body)
      = ''theory '' @ name @ CHR '' '' # ''imports'' @ token_text is @ ''begin'' @ ?body"
    by (simp add: strip_theory_comments_def strip_from_append hdr startswith_Cons)
  obtain a b where line: "search THEORY_LINE_RE (strip_theory_comments (build_theory_header name (Some is) @ NL # body))
      = Some (a, b, [(2, name)])" and rest: "snd b = '' imports'' @ (token_text is @ ''begin'' @ ?body)"
    using search_theory_line [OF assms(1)] unfolding stripped by force
  have tt: "\<not> is_word (hd (token_text is @ ''begin'' @ ?body))"
    by (cases "is") (auto simp: is_word_def is_alpha_def is_alpha_ascii_def is_digit_ascii_def)
  obtain a' b' g' where imp: "search (word ''imports'') (snd b) = Some (a', b', g')"
    and aft: "snd b' = token_text is @ ''begin'' @ ?body"
    using search_imports [of "token_text is @ ''begin'' @ ?body"] tt rest by auto
  have "imports_part (snd b') = token_text is"
    unfolding aft using p
    by (intro imports_part_text token_text_no_begin)
      (auto simp: token_text_def is_word_def is_alpha_def is_alpha_ascii_def is_digit_ascii_def)
  then show ?thesis
    using line imp p assms(1)
    by (simp add: parse_theory_header_def import_tokens_text theory_group_def group_def plain_name_def)
qed

theorem leading_comment_ignored_witness:
  "parse_theory_header (''(*'' @ ''imports X (* begin *)'' @ [NL] @ ''*)theory T imports Main begin'')
     = parse_theory_header (''theory T imports Main begin'')"
  by (rule leading_comment_ignored) (simp add: startswith_def)

theorem header_round_trip_witness:
  "parse_theory_header (build_theory_header ''T'' (Some [''Main'', ''HOL-Library.Word'']) @ NL # ''end'')
     = (Some ''T'', [''Main'', ''HOL-Library.Word''])"
  by (rule header_round_trip)
    (simp_all add: plain_name_def plain_import_def NOISE_def is_name_char_def is_token_char_def
      is_alpha_ascii_def is_digit_ascii_def startswith_def)

text \<open>The token pattern has no prime, the identifier pattern of the builder has: an import with a prime is
  left without quotes by the builder and cut at the prime by the parser.\<close>

theorem primed_import_truncated:
  "parse_theory_header (build_theory_header ''T'' (Some [[CHR ''A'', CHR 0x27]])) = (Some ''T'', [''A''])"
  by code_simp

text \<open>\<open>extract_theory_name\<close>, which the build verifier and big-step use, does not remove comments
  first: a theory line inside a comment wins over the header.\<close>

theorem name_from_comment:
  "extract_theory_name (''(*'' @ [NL] @ ''theory Old'' @ [NL] @ ''*)theory T imports Main begin'') = Some ''Old''
   \<and> fst (parse_theory_header (''(*'' @ [NL] @ ''theory Old'' @ [NL] @ ''*)theory T imports Main begin'')) = Some ''T''"
  by code_simp
end
