(* ===== verification/Py_Effects.thy ===== *)
theory Py_Effects
  imports Server_Errors
begin

text \<open>
  Python's statements as operations on an explicit state: an operation maps the state to its
  outcome, an exception or a value, and the state after it, so what ran before a \<open>raise\<close> stays
  done. \<open>andThen\<close> is sequencing, \<open>catch\<close> is \<open>try ... except\<close>, \<open>ensure\<close> is \<open>try ... finally\<close> with
  a clean-up that cannot raise. The relations \<open>keeps\<close>, \<open>preserves\<close> and \<open>only_raises\<close> are the
  frame, invariant and error contracts of an operation; each is closed under the statements, and the
  closure lemmas are in the collections \<open>frame\<close> and \<open>inv_intro\<close>.

  A JSON value is what \<open>json.loads\<close> returns; a reply text is seen through the two things the code
  does with it, its truth value and the parse.
\<close>

section \<open>Operations\<close>

type_synonym ('s, 'a) py = "'s \<Rightarrow> (exn + 'a) \<times> 's"

definition ret :: "'a \<Rightarrow> ('s, 'a) py" where
  "ret v s = (Inr v, s)"

definition throw :: "exn \<Rightarrow> ('s, 'a) py" where
  "throw e s = (Inl e, s)"

definition andThen :: "('s, 'a) py \<Rightarrow> ('a \<Rightarrow> ('s, 'b) py) \<Rightarrow> ('s, 'b) py" where
  "andThen m f s = (case m s of (Inl e, s') \<Rightarrow> (Inl e, s') | (Inr v, s') \<Rightarrow> f v s')"

definition fetch :: "('s \<Rightarrow> 'a) \<Rightarrow> ('s, 'a) py" where
  "fetch g s = (Inr (g s), s)"

definition change :: "('s \<Rightarrow> 's) \<Rightarrow> ('s, unit) py" where
  "change f s = (Inr (), f s)"

definition catch :: "('s, 'a) py \<Rightarrow> (exn \<Rightarrow> ('s, 'a) py) \<Rightarrow> ('s, 'a) py" where
  "catch m h s = (case m s of (Inl e, s') \<Rightarrow> h e s' | (Inr v, s') \<Rightarrow> (Inr v, s'))"

definition ensure :: "('s, 'a) py \<Rightarrow> ('s \<Rightarrow> 's) \<Rightarrow> ('s, 'a) py" where
  "ensure m fin s = (case m s of (r, s') \<Rightarrow> (r, fin s'))"

definition from_result :: "exn + 'a \<Rightarrow> ('s, 'a) py" where
  "from_result r s = (r, s)"

definition outcome :: "('s, 'a) py \<Rightarrow> 's \<Rightarrow> exn + 'a" where
  "outcome m s = fst (m s)"

definition final :: "('s, 'a) py \<Rightarrow> 's \<Rightarrow> 's" where
  "final m s = snd (m s)"

lemmas py_defs = ret_def throw_def fetch_def change_def from_result_def andThen_def catch_def ensure_def

lemma py_run [simp]:
  "ret v s = (Inr v, s)"
  "throw e s = (Inl e, s)"
  "fetch g s = (Inr (g s), s)"
  "change f s = (Inr (), f s)"
  "from_result r s = (r, s)"
  by (simp_all add: py_defs)

lemma andThen_ret [simp]: "andThen (ret v) f = f v"
  by (simp add: fun_eq_iff andThen_def)

lemma andThen_assoc: "andThen (andThen m f) g = andThen m (\<lambda>v. andThen (f v) g)"
  by (auto simp: fun_eq_iff andThen_def split: prod.split sum.split)

section \<open>Contracts\<close>

definition keeps :: "('s \<Rightarrow> 'x) \<Rightarrow> ('s, 'a) py \<Rightarrow> bool" where
  "keeps f m = (\<forall>s. f (snd (m s)) = f s)"

definition preserves :: "('s \<Rightarrow> bool) \<Rightarrow> ('s, 'a) py \<Rightarrow> bool" where
  "preserves P m = (\<forall>s. P s \<longrightarrow> P (snd (m s)))"

definition only_raises :: "(exn \<Rightarrow> bool) \<Rightarrow> ('s, 'a) py \<Rightarrow> bool" where
  "only_raises E m = (\<forall>s e s'. m s = (Inl e, s') \<longrightarrow> E e)"

lemma keepsD: "keeps f m \<Longrightarrow> m s = (r, s') \<Longrightarrow> f s' = f s"
  by (metis keeps_def snd_conv)

lemma keeps_final: "keeps f m \<Longrightarrow> f (final m s) = f s"
  by (simp add: keeps_def final_def)

lemma keeps_basic [frame]:
  "keeps f (ret v)" "keeps f (throw e)" "keeps f (fetch g)" "keeps f (from_result r)"
  by (simp_all add: keeps_def)

lemma keeps_change [frame]: "(\<And>s. f (h s) = f s) \<Longrightarrow> keeps f (change h)"
  by (simp add: keeps_def)

lemma keeps_andThen [frame]:
  assumes "keeps f m" and "\<And>v. keeps f (k v)"
  shows "keeps f (andThen m k)"
  unfolding keeps_def
proof
  fix s
  show "f (snd (andThen m k s)) = f s"
    using assms(2) keepsD [OF assms(1), of s]
    by (auto simp: andThen_def keeps_def split: prod.split sum.split)
qed

lemma keeps_catch [frame]:
  assumes "keeps f m" and "\<And>e. keeps f (h e)"
  shows "keeps f (catch m h)"
  unfolding keeps_def
proof
  fix s
  show "f (snd (catch m h s)) = f s"
    using assms(2) keepsD [OF assms(1), of s]
    by (auto simp: catch_def keeps_def split: prod.split sum.split)
qed

lemma keeps_ensure [frame]:
  "keeps f m \<Longrightarrow> (\<And>s. f (fin s) = f s) \<Longrightarrow> keeps f (ensure m fin)"
  by (auto simp: keeps_def ensure_def split: prod.split) (metis snd_conv)

lemma keeps_if [frame]: "(b \<Longrightarrow> keeps f m) \<Longrightarrow> (\<not> b \<Longrightarrow> keeps f n) \<Longrightarrow> keeps f (if b then m else n)"
  by simp

lemma keeps_option [frame]:
  "keeps f n \<Longrightarrow> (\<And>v. keeps f (k v)) \<Longrightarrow> keeps f (case x of None \<Rightarrow> n | Some v \<Rightarrow> k v)"
  by (cases x) simp_all

lemma keeps_prod [frame]: "(\<And>a b. keeps f (k a b)) \<Longrightarrow> keeps f (case x of (a, b) \<Rightarrow> k a b)"
  by (cases x) simp

lemma preserves_of_keeps: "keeps P m \<Longrightarrow> preserves P m"
  by (simp add: keeps_def preserves_def)

lemma preserves_basic [inv_intro]:
  "preserves P (ret v)" "preserves P (throw e)" "preserves P (fetch g)" "preserves P (from_result r)"
  by (simp_all add: preserves_def)

lemma preserves_change [inv_intro]: "(\<And>s. P s \<Longrightarrow> P (h s)) \<Longrightarrow> preserves P (change h)"
  by (simp add: preserves_def)

lemma preserves_andThen [inv_intro]:
  assumes "preserves P m" and "\<And>v. preserves P (k v)"
  shows "preserves P (andThen m k)"
  unfolding preserves_def
proof (intro allI impI)
  fix s assume "P s"
  then have "P (snd (m s))" using assms(1) by (simp add: preserves_def)
  then show "P (snd (andThen m k s))"
    using assms(2) by (auto simp: andThen_def preserves_def split: prod.split sum.split)
qed

lemma preserves_catch [inv_intro]:
  assumes "preserves P m" and "\<And>e. preserves P (h e)"
  shows "preserves P (catch m h)"
  unfolding preserves_def
proof (intro allI impI)
  fix s assume "P s"
  then have "P (snd (m s))" using assms(1) by (simp add: preserves_def)
  then show "P (snd (catch m h s))"
    using assms(2) by (auto simp: catch_def preserves_def split: prod.split sum.split)
qed

lemma preserves_ensure [inv_intro]:
  "preserves P m \<Longrightarrow> (\<And>s. P s \<Longrightarrow> P (fin s)) \<Longrightarrow> preserves P (ensure m fin)"
  by (simp add: preserves_def ensure_def split: prod.split) (metis snd_conv)

lemma preserves_if [inv_intro]:
  "(b \<Longrightarrow> preserves P m) \<Longrightarrow> (\<not> b \<Longrightarrow> preserves P n) \<Longrightarrow> preserves P (if b then m else n)"
  by simp

lemma preserves_option [inv_intro]:
  "preserves P n \<Longrightarrow> (\<And>v. preserves P (k v)) \<Longrightarrow> preserves P (case x of None \<Rightarrow> n | Some v \<Rightarrow> k v)"
  by (cases x) simp_all

lemma only_raises_basic [inv_intro]:
  "only_raises E (ret v)" "only_raises E (fetch g)" "only_raises E (change h)"
  by (simp_all add: only_raises_def)

lemma only_raises_throw [inv_intro]: "E e \<Longrightarrow> only_raises E (throw e)"
  by (simp add: only_raises_def)

lemma only_raises_from_result [inv_intro]: "(\<And>e. r = Inl e \<Longrightarrow> E e) \<Longrightarrow> only_raises E (from_result r)"
  by (simp add: only_raises_def)

lemma only_raises_andThen [inv_intro]:
  "only_raises E m \<Longrightarrow> (\<And>v. only_raises E (k v)) \<Longrightarrow> only_raises E (andThen m k)"
  by (fastforce simp: only_raises_def andThen_def split: prod.splits sum.splits)

text \<open>A handler has to answer only for what the body can raise.\<close>

lemma only_raises_catch [inv_intro]: "(\<And>e. only_raises E (h e)) \<Longrightarrow> only_raises E (catch m h)"
  by (fastforce simp: only_raises_def catch_def split: prod.splits sum.splits)

lemma only_raises_ensure [inv_intro]: "only_raises E m \<Longrightarrow> only_raises E (ensure m fin)"
  by (fastforce simp: only_raises_def ensure_def split: prod.splits)

lemma only_raises_if [inv_intro]:
  "(b \<Longrightarrow> only_raises E m) \<Longrightarrow> (\<not> b \<Longrightarrow> only_raises E n) \<Longrightarrow> only_raises E (if b then m else n)"
  by simp

lemma only_raises_option [inv_intro]:
  "only_raises E n \<Longrightarrow> (\<And>v. only_raises E (k v))
    \<Longrightarrow> only_raises E (case x of None \<Rightarrow> n | Some v \<Rightarrow> k v)"
  by (cases x) simp_all

text \<open>A Hoare triple for the outcomes without an exception.\<close>

definition yields :: "('s \<Rightarrow> bool) \<Rightarrow> ('s, 'a) py \<Rightarrow> ('a \<Rightarrow> 's \<Rightarrow> bool) \<Rightarrow> bool" where
  "yields P m Q = (\<forall>s v s'. P s \<and> m s = (Inr v, s') \<longrightarrow> Q v s')"

lemma yieldsD: "\<lbrakk>yields P m Q; P s; m s = (Inr v, s')\<rbrakk> \<Longrightarrow> Q v s'"
  by (auto simp: yields_def)

lemma yields_andThen:
  "\<lbrakk>yields P m R; \<And>v. yields (R v) (k v) Q\<rbrakk> \<Longrightarrow> yields P (andThen m k) Q"
  by (fastforce simp: yields_def andThen_def split: prod.splits sum.splits)

lemma yields_of_preserves: "preserves P m \<Longrightarrow> yields P m (\<lambda>_. P)"
  by (fastforce simp: yields_def preserves_def)

lemma yields_weaken: "\<lbrakk>yields P m Q; \<And>v s. Q v s \<Longrightarrow> R v s\<rbrakk> \<Longrightarrow> yields P m R"
  by (auto simp: yields_def)

lemma yields_change: "(\<And>s. P s \<Longrightarrow> Q () (h s)) \<Longrightarrow> yields P (change h) Q"
  by (auto simp: yields_def)

lemma yields_ret: "(\<And>s. P s \<Longrightarrow> Q v s) \<Longrightarrow> yields P (ret v) Q"
  by (auto simp: yields_def)

lemma yields_throw: "yields P (throw e) Q"
  by (simp add: yields_def)

lemma yields_if: "\<lbrakk>b \<Longrightarrow> yields P m Q; \<not> b \<Longrightarrow> yields P n Q\<rbrakk> \<Longrightarrow> yields P (if b then m else n) Q"
  by simp

lemma yields_prod: "(\<And>a b. v = (a, b) \<Longrightarrow> yields P (k a b) Q) \<Longrightarrow> yields P (case v of (a, b) \<Rightarrow> k a b) Q"
  by (cases v) simp

text \<open>\<open>try\<close>/\<open>finally\<close> around a counter: whatever the body does and however it ends, the counter is
  back at its value once the body leaves it alone.\<close>

lemma ensure_restores:
  assumes "keeps f m" and "\<And>s s'. f s' = f (acq s) \<Longrightarrow> f (fin s') = f s"
  shows "f (snd (ensure m fin (acq s))) = f s"
  using assms by (auto simp: ensure_def keeps_def split: prod.split) (metis snd_conv)

section \<open>JSON\<close>

datatype json =
    JNull
  | JBool bool
  | JInt int
  | JFloat real
  | JStr pystr
  | JList "json list"
  | JObj "(pystr \<times> json) list"

text \<open>What a reply text is to the code: falsy, not JSON, or the parsed value.\<close>

datatype reply = NoReply | BadReply | Parsed json

fun py_bool :: "json \<Rightarrow> bool" where
  "py_bool JNull = False"
| "py_bool (JBool b) = b"
| "py_bool (JInt n) = (n \<noteq> 0)"
| "py_bool (JFloat x) = (x \<noteq> 0)"
| "py_bool (JStr s) = (s \<noteq> [])"
| "py_bool (JList xs) = (xs \<noteq> [])"
| "py_bool (JObj kvs) = (kvs \<noteq> [])"

text \<open>\<open>d.get(key)\<close>: only a dict has \<open>get\<close>; a missing key reads as \<open>None\<close>.\<close>

fun dict_get :: "pystr \<Rightarrow> json \<Rightarrow> exn + json" where
  "dict_get k (JObj kvs) = Inr (case map_of kvs k of None \<Rightarrow> JNull | Some v \<Rightarrow> v)"
| "dict_get k _ = Inl (Exn C_AttributeError ''object has no attribute get'')"

definition dict_get_or :: "pystr \<Rightarrow> json \<Rightarrow> json \<Rightarrow> exn + json" where
  "dict_get_or k d j = (case j of
       JObj kvs \<Rightarrow> Inr (case map_of kvs k of None \<Rightarrow> d | Some v \<Rightarrow> v)
     | _ \<Rightarrow> dict_get k j)"

text \<open>\<open>x or d\<close>, and \<open>for ... in x\<close>.\<close>

definition json_or :: "json \<Rightarrow> json \<Rightarrow> json" where
  "json_or x d = (if py_bool x then x else d)"

fun py_iter :: "json \<Rightarrow> exn + json list" where
  "py_iter (JList xs) = Inr xs"
| "py_iter (JStr s) = Inr (map (\<lambda>c. JStr [c]) s)"
| "py_iter (JObj kvs) = Inr (map (\<lambda>(k, v). JStr k) kvs)"
| "py_iter _ = Inl (Exn C_TypeError ''object is not iterable'')"

text \<open>\<open>str(x)\<close>; \<open>rp\<close> is the text of floats and containers.\<close>

fun show_json :: "(json \<Rightarrow> pystr) \<Rightarrow> json \<Rightarrow> pystr" where
  "show_json rp JNull = ''None''"
| "show_json rp (JBool b) = (if b then ''True'' else ''False'')"
| "show_json rp (JInt n) = show_int n"
| "show_json rp (JStr s) = s"
| "show_json rp j = rp j"

text \<open>Sequencing without a state.\<close>

definition onOk :: "exn + 'a \<Rightarrow> ('a \<Rightarrow> exn + 'b) \<Rightarrow> exn + 'b" where
  "onOk r f = (case r of Inl e \<Rightarrow> Inl e | Inr v \<Rightarrow> f v)"

lemma onOk_simps [simp]: "onOk (Inl e) f = Inl e" "onOk (Inr v) f = f v"
  by (simp_all add: onOk_def)

end
