(* ===== verification/Ordered_Dict.thy ===== *)
theory Ordered_Dict
  imports Py_Prelude
begin

text \<open>
  Python's \<open>OrderedDict\<close> and \<open>dict\<close> as an association list in insertion order: lookup, assignment
  (in place for a key that is present), deletion and \<open>move_to_end\<close>. The locale \<open>keyed_store\<close> is the
  contract the session pool, the heap registry and the build cache rely on: what a lookup returns
  after each update, and how the keys change.
\<close>

section \<open>Operations\<close>

type_synonym ('k, 'v) od = "('k \<times> 'v) list"

definition od_get :: "'k \<Rightarrow> ('k, 'v) od \<Rightarrow> 'v option" where
  "od_get k d = map_of d k"

definition od_set :: "'k \<Rightarrow> 'v \<Rightarrow> ('k, 'v) od \<Rightarrow> ('k, 'v) od" where
  "od_set k v d = (if k \<in> fst ` set d then map (\<lambda>(j, w). (j, if j = k then v else w)) d else d @ [(k, v)])"

definition od_pop :: "'k \<Rightarrow> ('k, 'v) od \<Rightarrow> ('k, 'v) od" where
  "od_pop k d = filter (\<lambda>p. fst p \<noteq> k) d"

definition od_to_end :: "'k \<Rightarrow> ('k, 'v) od \<Rightarrow> ('k, 'v) od" where
  "od_to_end k d = (case od_get k d of None \<Rightarrow> d | Some v \<Rightarrow> od_pop k d @ [(k, v)])"

definition od_keys :: "('k, 'v) od \<Rightarrow> 'k list" where
  "od_keys d = map fst d"

definition od_ok :: "('k, 'v) od \<Rightarrow> bool" where
  "od_ok d = distinct (od_keys d)"

section \<open>Lookups after updates\<close>

lemma od_get_Nil [simp]: "od_get k [] = None"
  by (simp add: od_get_def)

lemma od_get_mem: "od_get k d = Some v \<Longrightarrow> (k, v) \<in> set d"
  by (simp add: od_get_def map_of_SomeD)

lemma od_get_None_iff: "od_get k d = None \<longleftrightarrow> k \<notin> set (od_keys d)"
  by (simp add: od_get_def od_keys_def map_of_eq_None_iff)

lemma map_of_update:
  "map_of (map (\<lambda>(i, w). (i, if i = k then v else w)) d) j =
     map_option (\<lambda>w. if j = k then v else w) (map_of d j)"
  by (induction d) (auto split: prod.split)

lemma od_get_set [simp]: "od_get j (od_set k v d) = (if j = k then Some v else od_get j d)"
proof (cases "k \<in> fst ` set d")
  case False
  then have "map_of d k = None" by (simp add: map_of_eq_None_iff)
  then show ?thesis using False
    by (auto simp: od_get_def od_set_def map_add_def split: option.split)
next
  case True
  then have "map_of d k \<noteq> None" by (simp add: map_of_eq_None_iff)
  then show ?thesis using True
    by (cases "map_of d j") (auto simp: od_get_def od_set_def map_of_update)
qed

lemma od_get_pop [simp]: "od_get j (od_pop k d) = (if j = k then None else od_get j d)"
  by (induction d) (auto simp: od_get_def od_pop_def)

lemma od_get_to_end [simp]: "od_get j (od_to_end k d) = od_get j d"
proof (cases "od_get k d")
  case (Some v)
  have "od_get j (od_pop k d @ [(k, v)]) =
      (case od_get j (od_pop k d) of None \<Rightarrow> (if j = k then Some v else None) | Some w \<Rightarrow> Some w)"
    by (auto simp: od_get_def map_add_def split: option.split)
  then show ?thesis using Some by (auto simp: od_to_end_def split: option.splits)
qed (simp add: od_to_end_def)

section \<open>Keys and order\<close>

lemma od_keys_pop [simp]: "od_keys (od_pop k d) = filter (\<lambda>j. j \<noteq> k) (od_keys d)"
  by (induction d) (auto simp: od_keys_def od_pop_def)

lemma od_keys_set: "od_keys (od_set k v d) = (if k \<in> set (od_keys d) then od_keys d else od_keys d @ [k])"
  by (auto simp: od_keys_def od_set_def)

lemma set_od_keys_to_end [simp]: "set (od_keys (od_to_end k d)) = set (od_keys d)"
  by (auto simp: od_to_end_def od_keys_def od_pop_def od_get_def split: option.split
      dest: map_of_SomeD intro: rev_image_eqI)

lemma od_ok_pop [simp]: "od_ok d \<Longrightarrow> od_ok (od_pop k d)"
  by (simp add: od_ok_def)

lemma od_ok_set [simp]: "od_ok d \<Longrightarrow> od_ok (od_set k v d)"
  by (simp add: od_ok_def od_keys_set)

lemma od_ok_to_end [simp]: "od_ok d \<Longrightarrow> od_ok (od_to_end k d)"
  by (auto simp: od_ok_def od_to_end_def od_keys_def od_pop_def distinct_map_filter split: option.split)

lemma od_pop_absent: "k \<notin> set (od_keys d) \<Longrightarrow> od_pop k d = d"
  by (auto simp: od_pop_def od_keys_def filter_id_conv)

lemma length_od_pop: "od_ok d \<Longrightarrow> k \<in> set (od_keys d) \<Longrightarrow> length (od_pop k d) = length d - 1"
proof (induction d)
  case (Cons p d)
  show ?case
  proof (cases "fst p = k")
    case True
    then have "od_pop k d = d" using Cons.prems by (intro od_pop_absent) (auto simp: od_ok_def od_keys_def)
    then show ?thesis using True by (simp add: od_pop_def)
  next
    case False
    then have "k \<in> set (od_keys d)" "od_ok d" using Cons.prems by (auto simp: od_ok_def od_keys_def)
    moreover have "d \<noteq> []" using \<open>k \<in> set (od_keys d)\<close> by (auto simp: od_keys_def)
    ultimately show ?thesis using Cons.IH False by (cases d) (auto simp: od_pop_def)
  qed
qed (simp add: od_keys_def)

lemma length_od_to_end: "od_ok d \<Longrightarrow> length (od_to_end k d) = length d"
proof (cases "od_get k d")
  case (Some v)
  assume ok: "od_ok d"
  have k: "k \<in> set (od_keys d)" using Some od_get_None_iff [of k d] by auto
  then have "d \<noteq> []" by (auto simp: od_keys_def)
  then show ?thesis using Some length_od_pop [OF ok k] by (cases d) (auto simp: od_to_end_def)
qed (simp add: od_to_end_def)

lemma length_od_pop_le: "length (od_pop k d) \<le> length d"
  by (simp add: od_pop_def)

lemma length_od_set: "length (od_set k v d) = (if k \<in> set (od_keys d) then length d else length d + 1)"
  by (auto simp: od_set_def od_keys_def)

lemma set_od_pop: "set (od_pop k d) = {p \<in> set d. fst p \<noteq> k}"
  by (auto simp: od_pop_def)

lemma set_od_set: "p \<in> set (od_set k v d) \<Longrightarrow> p = (k, v) \<or> p \<in> set d \<and> fst p \<noteq> k"
  by (auto simp: od_set_def split: if_splits prod.splits)

lemma set_od_to_end: "od_ok d \<Longrightarrow> set (od_to_end k d) = set d"
  by (auto simp: od_to_end_def set_od_pop od_ok_def od_keys_def split: option.split
      dest: od_get_mem eq_key_imp_eq_value)

lemma od_get_Some_iff: "od_ok d \<Longrightarrow> od_get k d = Some v \<longleftrightarrow> (k, v) \<in> set d"
  by (simp add: od_ok_def od_keys_def od_get_def)

lemma last_od_to_end: "od_get k d = Some v \<Longrightarrow> od_to_end k d \<noteq> [] \<and> last (od_to_end k d) = (k, v)"
  by (simp add: od_to_end_def)

lemma od_pop_set [simp]: "od_pop k (od_set k v d) = od_pop k d"
proof -
  have "filter (\<lambda>p. fst p \<noteq> k) (map (\<lambda>(j, w). (j, if j = k then v else w)) d) = filter (\<lambda>p. fst p \<noteq> k) d"
    by (induction d) auto
  then show ?thesis by (simp add: od_pop_def od_set_def)
qed

lemma od_pop_pop [simp]: "od_pop k (od_pop k d) = od_pop k d"
  by (simp add: od_pop_def)

lemma od_to_end_set: "od_to_end k (od_set k v d) = od_pop k d @ [(k, v)]"
  by (simp add: od_to_end_def)

lemma od_pop_split: "od_ok (u @ (k, w) # v) \<Longrightarrow> od_pop k (u @ (k, w) # v) = u @ v"
proof -
  assume "od_ok (u @ (k, w) # v)"
  then have "k \<notin> fst ` set u" "k \<notin> fst ` set v" by (auto simp: od_ok_def od_keys_def)
  then have "filter (\<lambda>p. fst p \<noteq> k) u = u" "filter (\<lambda>p. fst p \<noteq> k) v = v" by (auto simp: filter_id_conv)
  then show ?thesis by (simp add: od_pop_def)
qed

section \<open>The contract of a keyed store\<close>

locale keyed_store =
  fixes get :: "'k \<Rightarrow> 'm \<Rightarrow> 'v option"
    and set_at :: "'k \<Rightarrow> 'v \<Rightarrow> 'm \<Rightarrow> 'm"
    and pop_at :: "'k \<Rightarrow> 'm \<Rightarrow> 'm"
  assumes get_set: "get j (set_at k v d) = (if j = k then Some v else get j d)"
    and get_pop: "get j (pop_at k d) = (if j = k then None else get j d)"
begin

text \<open>Updates of other keys commute with a lookup; what was popped and put back is found again.\<close>

lemma put_back: "get j (set_at k v (pop_at k d)) = get j (set_at k v d)"
  by (simp add: get_set get_pop)

lemma popped_absent: "get k (pop_at k d) = None"
  by (simp add: get_pop)

lemma set_idem: "get j (set_at k v (set_at k w d)) = get j (set_at k v d)"
  by (simp add: get_set)

text \<open>Every entry of a store satisfies a property that each written value has.\<close>

lemma all_set: "\<lbrakk>\<And>j w. get j d = Some w \<Longrightarrow> P w; P v\<rbrakk> \<Longrightarrow> get j (set_at k v d) = Some w \<Longrightarrow> P w"
  by (auto simp: get_set split: if_splits)

lemma all_pop: "\<lbrakk>\<And>j w. get j d = Some w \<Longrightarrow> P w\<rbrakk> \<Longrightarrow> get j (pop_at k d) = Some w \<Longrightarrow> P w"
  by (auto simp: get_pop split: if_splits)

end

interpretation od: keyed_store od_get od_set od_pop
  by unfold_locales simp_all

end
