(* ===== verification/Lsp_Pool.thy ===== *)
theory Lsp_Pool
  imports Theory_Parsing Py_Effects Ordered_Dict
begin

text \<open>
  The file bindings and the scratch sessions of the MCP server for editors (\<open>mcp_lsp_server/pool.py\<close>). A binding
  ties a file to a leased session; every tool call reads the file again and loads it when it changed.

  Bindings are shared, mutated objects: a reference is an index into \<open>store\<close>, and the registry maps a path to
  a reference. The HTTP client, the file system and the paths are the parameter \<open>lsp_world\<close>, a function of the
  number of observations made so far. An \<open>httpx.HTTPStatusError\<close> is an \<open>HTTPError\<close> with its status.
  \<open>documents\<close> is the text last loaded into each session; a load that fails may have left another one
  (\<open>gym_left\<close>), since a client that gave up waiting does not stop the server.
\<close>

section \<open>Texts\<close>

definition header_imports :: "pystr \<Rightarrow> pystr list" where
  "header_imports txt = snd (parse_theory_header txt)"

definition attempt_prefix :: "pystr \<Rightarrow> int \<Rightarrow> pystr" where
  "attempt_prefix txt line = join [NL] (slice_to (line - 1) (splitlines txt)) @ [NL]"

fun is_not_found :: "exn \<Rightarrow> bool" where
  "is_not_found (HTTPError n d) = (n = 404)"
| "is_not_found (Exn c d) = False"

section \<open>Bindings\<close>

record binding =
  b_path :: pystr
  b_session :: pystr
  b_lease :: pystr
  b_group :: pystr
  b_heap :: "pystr option"
  b_text :: "pystr option"
  b_report :: "json option"

record acquire_args =
  aq_theories :: "pystr list option"
  aq_group :: pystr
  aq_heap :: "pystr option"
  aq_label :: pystr

text \<open>The client's methods on a session that the tools call.\<close>

datatype client_call =
    GoalsAtLine int
  | CommandAtLine int
  | GetProofState
  | GetSource
  | Diagnostic pystr
  | GetLocalFacts
  | GetGlobalFacts int
  | HoverAt int int
  | DefinitionAt int int
  | Sledgehammer int
  | SledgehammerAt int int int
  | SaveCheckpoint
  | RestoreCheckpoint int
  | Rollback
  | GetHistory
  | GetLastReport

text \<open>\<open>gym_acquire\<close> sees the sessions leased to this process. A missing file and one that is not a file are \<open>None\<close>.\<close>

record lsp_world =
  canonical_path :: "pystr \<Rightarrow> pystr"
  file_at :: "nat \<Rightarrow> pystr \<Rightarrow> pystr option"
  gym_acquire :: "nat \<Rightarrow> pystr set \<Rightarrow> acquire_args \<Rightarrow> exn + pystr \<times> pystr"
  gym_load :: "nat \<Rightarrow> pystr \<Rightarrow> pystr \<Rightarrow> pystr \<Rightarrow> exn + json"
  gym_left :: "nat \<Rightarrow> pystr \<Rightarrow> pystr \<Rightarrow> pystr option \<Rightarrow> pystr option"
  gym_call :: "nat \<Rightarrow> client_call \<Rightarrow> pystr \<Rightarrow> pystr \<Rightarrow> exn + json"
  gym_release :: "nat \<Rightarrow> pystr \<Rightarrow> pystr \<Rightarrow> exn + unit"
  gym_close :: "nat \<Rightarrow> pystr \<Rightarrow> pystr \<Rightarrow> exn + unit"
  default_group :: pystr
  default_field :: pystr
  close_destroys :: bool

record lsp_state =
  store :: "binding list"
  registry :: "(pystr, nat) od"
  documents :: "pystr \<Rightarrow> pystr option"
  seen :: nat

definition look :: "(nat \<Rightarrow> 'a) \<Rightarrow> (lsp_state, 'a) py" where
  "look f st = (Inr (f (seen st)), st\<lparr>seen := Suc (seen st)\<rparr>)"

definition attempt_call :: "(nat \<Rightarrow> exn + 'a) \<Rightarrow> (lsp_state, 'a) py" where
  "attempt_call f = andThen (look f) from_result"

definition binding_at :: "nat \<Rightarrow> lsp_state \<Rightarrow> binding" where
  "binding_at r st = store st ! r"

definition modify :: "nat \<Rightarrow> (binding \<Rightarrow> binding) \<Rightarrow> (lsp_state, unit) py" where
  "modify r f = change (\<lambda>st. st\<lparr>store := (store st)[r := f (store st ! r)]\<rparr>)"

definition held :: "lsp_state \<Rightarrow> pystr set" where
  "held st = (\<lambda>r. b_session (store st ! r)) ` snd ` set (registry st)"

definition safe_release :: "lsp_world \<Rightarrow> nat \<Rightarrow> (lsp_state, unit) py" where
  "safe_release w r =
     andThen (fetch (binding_at r)) (\<lambda>b.
     catch (attempt_call (\<lambda>k. gym_release w k (b_session b) (b_lease b))) (\<lambda>e. ret ()))"

definition safe_destroy :: "lsp_world \<Rightarrow> nat \<Rightarrow> (lsp_state, unit) py" where
  "safe_destroy w r =
     andThen (fetch (binding_at r)) (\<lambda>b.
     catch (attempt_call (\<lambda>k. gym_close w k (b_session b) (b_lease b))) (\<lambda>e. ret ()))"

definition acquire_for :: "lsp_world \<Rightarrow> acquire_args \<Rightarrow> (lsp_state, pystr \<times> pystr) py" where
  "acquire_for w args = andThen (fetch held) (\<lambda>h. attempt_call (\<lambda>k. gym_acquire w k h args))"

text \<open>\<open>self._bindings.pop(canon)\<close> and the new entry.\<close>

definition replace_binding :: "binding \<Rightarrow> (lsp_state, nat \<times> nat option) py" where
  "replace_binding b st =
     (let r = length (store st) in
      (Inr (r, od_get (b_path b) (registry st)),
       st\<lparr>store := store st @ [b], registry := od_set (b_path b) r (od_pop (b_path b) (registry st))\<rparr>))"

definition create_binding :: "lsp_world \<Rightarrow> pystr \<Rightarrow> pystr option \<Rightarrow> pystr option \<Rightarrow> pystr option \<Rightarrow> (lsp_state, nat) py" where
  "create_binding w canon task_group heap label =
     (let g = or_else task_group (default_group w) in
      andThen (look (\<lambda>k. file_at w k canon)) (\<lambda>content.
      andThen (acquire_for w \<lparr>aq_theories = (case content of None \<Rightarrow> None | Some txt \<Rightarrow> none_if_empty (header_imports txt)),
                 aq_group = g, aq_heap = heap, aq_label = or_else label canon\<rparr>) (\<lambda>(sid, lease).
      andThen (replace_binding \<lparr>b_path = canon, b_session = sid, b_lease = lease, b_group = g, b_heap = heap,
                 b_text = None, b_report = None\<rparr>) (\<lambda>(r, old).
      andThen (case old of None \<Rightarrow> ret () | Some prev \<Rightarrow> safe_release w prev) (\<lambda>_. ret r)))))"

definition get_binding :: "lsp_world \<Rightarrow> pystr \<Rightarrow> pystr option \<Rightarrow> pystr option \<Rightarrow> pystr option \<Rightarrow> (lsp_state, nat) py" where
  "get_binding w file_path task_group heap label =
     andThen (fetch (\<lambda>st. od_get (canonical_path w file_path) (registry st))) (\<lambda>b. case b of
       Some r \<Rightarrow> ret r
     | None \<Rightarrow> create_binding w (canonical_path w file_path) task_group heap label)"

section \<open>Synchronising a file\<close>

text \<open>\<open>load_document\<close> of the binding's session.\<close>

definition load_binding :: "lsp_world \<Rightarrow> nat \<Rightarrow> pystr \<Rightarrow> (lsp_state, json) py" where
  "load_binding w r txt st =
     (let b = store st ! r; k = seen st; sid = b_session b in
      case gym_load w k sid txt (b_lease b) of
        Inr result \<Rightarrow> (Inr result, st\<lparr>seen := Suc k, documents := (documents st)(sid := Some txt)\<rparr>)
      | Inl e \<Rightarrow> (Inl e, st\<lparr>seen := Suc k, documents := (documents st)(sid := gym_left w k sid txt (documents st sid))\<rparr>))"

text \<open>The new session, written into the binding the caller holds; the registry has another object for it.\<close>

definition rebind :: "lsp_world \<Rightarrow> nat \<Rightarrow> (lsp_state, unit) py" where
  "rebind w r =
     andThen (fetch (binding_at r)) (\<lambda>b.
     andThen (create_binding w (b_path b) (Some (b_group b)) (b_heap b) None) (\<lambda>n.
     andThen (fetch (binding_at n)) (\<lambda>fresh.
     modify r (\<lambda>b. b\<lparr>b_session := b_session fresh, b_lease := b_lease fresh, b_text := None\<rparr>))))"

definition record_load :: "nat \<Rightarrow> pystr \<Rightarrow> json \<Rightarrow> (lsp_state, bool) py" where
  "record_load r txt result =
     andThen (modify r (\<lambda>b. b\<lparr>b_text := Some txt\<rparr>)) (\<lambda>_.
     andThen (from_result (dict_get ''report'' result)) (\<lambda>rep.
     andThen (modify r (\<lambda>b. b\<lparr>b_report := Some (json_or rep (JObj []))\<rparr>)) (\<lambda>_. ret True)))"

definition load_or_rebind :: "lsp_world \<Rightarrow> nat \<Rightarrow> pystr \<Rightarrow> (lsp_state, json) py" where
  "load_or_rebind w r txt =
     catch (load_binding w r txt)
       (\<lambda>e. if \<not> is_not_found e then throw e else andThen (rebind w r) (\<lambda>_. load_binding w r txt))"

definition sync :: "lsp_world \<Rightarrow> nat \<Rightarrow> (lsp_state, bool) py" where
  "sync w r =
     andThen (fetch (binding_at r)) (\<lambda>b.
     andThen (look (\<lambda>k. file_at w k (b_path b))) (\<lambda>content. case content of
       None \<Rightarrow> throw (Exn C_FileNotFoundError (''file not found: '' @ b_path b))
     | Some txt \<Rightarrow>
         andThen (fetch (\<lambda>st. b_text (binding_at r st))) (\<lambda>cached.
         if cached = Some txt then ret False
         else andThen (load_or_rebind w r txt) (record_load r txt))))"

text \<open>\<open>get_binding\<close> and \<open>sync\<close>, the preamble of every tool on a file.\<close>

definition bound_synced :: "lsp_world \<Rightarrow> pystr \<Rightarrow> (lsp_state, nat \<times> bool) py" where
  "bound_synced w file_path =
     andThen (get_binding w file_path None None None) (\<lambda>r. andThen (sync w r) (\<lambda>reloaded. ret (r, reloaded)))"

definition call_once :: "lsp_world \<Rightarrow> nat \<Rightarrow> client_call \<Rightarrow> (lsp_state, json) py" where
  "call_once w r fn =
     andThen (fetch (binding_at r)) (\<lambda>b. attempt_call (\<lambda>k. gym_call w k fn (b_session b) (b_lease b)))"

definition call :: "lsp_world \<Rightarrow> nat \<Rightarrow> client_call \<Rightarrow> (lsp_state, json) py" where
  "call w r fn =
     catch (call_once w r fn)
       (\<lambda>e. if \<not> is_not_found e then throw e
            else andThen (rebind w r) (\<lambda>_. andThen (sync w r) (\<lambda>_. call_once w r fn)))"

definition close_binding :: "lsp_world \<Rightarrow> pystr \<Rightarrow> bool \<Rightarrow> (lsp_state, bool) py" where
  "close_binding w file_path destroy =
     andThen (fetch (\<lambda>st. od_get (canonical_path w file_path) (registry st))) (\<lambda>b.
     andThen (change (\<lambda>st. st\<lparr>registry := od_pop (canonical_path w file_path) (registry st)\<rparr>)) (\<lambda>_.
     case b of None \<Rightarrow> ret False
     | Some r \<Rightarrow> andThen (if destroy then safe_destroy w r else safe_release w r) (\<lambda>_. ret True)))"

section \<open>Scratch sessions\<close>

definition scratch_key :: "lsp_world \<Rightarrow> pystr option \<Rightarrow> pystr option \<Rightarrow> pystr list \<Rightarrow> pystr option
    \<Rightarrow> pystr \<times> pystr \<times> pystr list \<times> pystr" where
  "scratch_key w task_group heap imports fld =
     (or_else task_group (default_group w), or_else heap [], sort imports, or_else fld (default_field w))"

text \<open>The sessions of one key: the queue, the count, and the calls of \<open>acquire_scratch\<close> by where they are: past the
  empty queue, creating, or waiting for the queue. A cancelled tool call neither releases nor drops the session it
  has (\<open>lost\<close>): the tools give it back in \<open>except Exception\<close> only.\<close>

record scratch =
  idle :: "pystr list"
  scratch_count :: nat
  trying :: nat
  creating :: nat
  waiting :: nat
  in_hand :: "pystr list"
  lost :: nat

inductive scratch_step :: "nat \<Rightarrow> scratch \<Rightarrow> scratch \<Rightarrow> bool" for cap :: nat where
  take_idle: "idle s = x # xs \<Longrightarrow> scratch_step cap s (s\<lparr>idle := xs, in_hand := x # in_hand s\<rparr>)"
| find_empty: "idle s = [] \<Longrightarrow> scratch_step cap s (s\<lparr>trying := Suc (trying s)\<rparr>)"
| start_create: "trying s = Suc n \<Longrightarrow> scratch_count s < cap
    \<Longrightarrow> scratch_step cap s (s\<lparr>trying := n, scratch_count := Suc (scratch_count s), creating := Suc (creating s)\<rparr>)"
| start_wait: "trying s = Suc n \<Longrightarrow> cap \<le> scratch_count s
    \<Longrightarrow> scratch_step cap s (s\<lparr>trying := n, waiting := Suc (waiting s)\<rparr>)"
| created_one: "creating s = Suc n \<Longrightarrow> x \<notin> set (idle s) \<union> set (in_hand s)
    \<Longrightarrow> scratch_step cap s (s\<lparr>creating := n, in_hand := x # in_hand s\<rparr>)"
| create_failed: "creating s = Suc n
    \<Longrightarrow> scratch_step cap s (s\<lparr>creating := n, scratch_count := scratch_count s - 1\<rparr>)"
| wake: "waiting s = Suc n \<Longrightarrow> idle s = x # xs
    \<Longrightarrow> scratch_step cap s (s\<lparr>waiting := n, idle := xs, in_hand := x # in_hand s\<rparr>)"
| release_scratch: "x \<in> set (in_hand s)
    \<Longrightarrow> scratch_step cap s (s\<lparr>in_hand := remove1 x (in_hand s), idle := idle s @ [x]\<rparr>)"
| drop_scratch: "x \<in> set (in_hand s)
    \<Longrightarrow> scratch_step cap s (s\<lparr>in_hand := remove1 x (in_hand s), scratch_count := scratch_count s - 1\<rparr>)"
| cancel_trying: "trying s = Suc n \<Longrightarrow> scratch_step cap s (s\<lparr>trying := n\<rparr>)"
| cancel_waiting: "waiting s = Suc n \<Longrightarrow> scratch_step cap s (s\<lparr>waiting := n\<rparr>)"
| cancel_holder: "x \<in> set (in_hand s)
    \<Longrightarrow> scratch_step cap s (s\<lparr>in_hand := remove1 x (in_hand s), lost := Suc (lost s)\<rparr>)"

inductive scratch_reach :: "nat \<Rightarrow> scratch \<Rightarrow> bool" for cap :: nat where
  scratch_empty: "scratch_reach cap \<lparr>idle = [], scratch_count = 0, trying = 0, creating = 0, waiting = 0, in_hand = [], lost = 0\<rparr>"
| scratch_next: "scratch_reach cap s \<Longrightarrow> scratch_step cap s t \<Longrightarrow> scratch_reach cap t"

inductive_cases scratch_stepE: "scratch_step cap s t"

end
