(* ===== verification/Lsp_Tools.thy ===== *)
theory Lsp_Tools
  imports Lsp_Pool
begin

text \<open>
  The tools of the MCP server for editors (\<open>mcp_lsp_server/app.py\<close>): opening, closing and synchronising a file,
  the queries on a synchronised file, and the execution of candidates and snippets on scratch sessions. An answer
  is the JSON value the tool returns as text; a dash outside ASCII is written as a hyphen.
\<close>

section \<open>Reading a report\<close>

fun py_len :: "json \<Rightarrow> exn + int" where
  "py_len (JList xs) = Inr (int (length xs))"
| "py_len (JStr s) = Inr (int (length s))"
| "py_len (JObj kvs) = Inr (int (length kvs))"
| "py_len _ = Inl (Exn C_TypeError ''object has no len()'')"

fun each :: "('a \<Rightarrow> exn + 'b) \<Rightarrow> 'a list \<Rightarrow> exn + 'b list" where
  "each f [] = Inr []"
| "each f (x # xs) = onOk (f x) (\<lambda>y. onOk (each f xs) (\<lambda>ys. Inr (y # ys)))"

text \<open>\<open>for x in d.get(key) or []\<close>.\<close>

definition get_list :: "pystr \<Rightarrow> json \<Rightarrow> exn + json list" where
  "get_list key d = onOk (dict_get key d) (\<lambda>v. py_iter (json_or v (JList [])))"

definition get_dict :: "pystr \<Rightarrow> json \<Rightarrow> exn + json" where
  "get_dict key d = onOk (dict_get key d) (\<lambda>v. Inr (json_or v (JObj [])))"

text \<open>The object of the fields \<open>d.get(key)\<close>.\<close>

definition pick :: "pystr list \<Rightarrow> json \<Rightarrow> exn + (pystr \<times> json) list" where
  "pick keys d = each (\<lambda>key. onOk (dict_get key d) (\<lambda>v. Inr (key, v))) keys"

definition unsettled :: "json \<Rightarrow> bool" where
  "unsettled flag = (flag = JStr ''failed'' \<or> flag = JStr ''running'')"

text \<open>\<open>(m.get("text", "") or "")[:200]\<close>.\<close>

fun clip :: "json \<Rightarrow> exn + pystr" where
  "clip (JStr s) = Inr (take 200 s)"
| "clip _ = Inl (Exn C_TypeError ''not a string'')"

definition message_text :: "json \<Rightarrow> exn + pystr" where
  "message_text m = onOk (dict_get_or ''text'' (JStr []) m) (\<lambda>v. clip (json_or v (JStr [])))"

definition command_messages :: "json \<Rightarrow> exn + pystr" where
  "command_messages cmd =
     onOk (get_list ''messages'' cmd) (\<lambda>ms. onOk (each message_text ms) (\<lambda>ts. Inr (join ''; '' ts)))"

text \<open>The commands of a report that failed or still run, each by \<open>entry\<close>.\<close>

definition bad_commands :: "(json \<Rightarrow> exn + json) \<Rightarrow> json \<Rightarrow> exn + json list" where
  "bad_commands entry rep =
     onOk (get_list ''commands'' rep) (\<lambda>cmds.
     onOk (each (\<lambda>cmd. onOk (dict_get ''status'' cmd) (\<lambda>flag.
       if unsettled flag then onOk (entry cmd) (\<lambda>v. Inr [v]) else Inr [])) cmds) (\<lambda>vs. Inr (concat vs)))"

section \<open>Files\<close>

definition report_of :: "binding \<Rightarrow> json" where
  "report_of b = (case b_report b of None \<Rightarrow> JObj [] | Some rep \<Rightarrow> json_or rep (JObj []))"

definition optional :: "pystr option \<Rightarrow> json" where
  "optional v = (case v of None \<Rightarrow> JNull | Some s \<Rightarrow> JStr s)"

definition isabelle_open :: "lsp_world \<Rightarrow> pystr \<Rightarrow> pystr option \<Rightarrow> pystr option \<Rightarrow> pystr option \<Rightarrow> (lsp_state, json) py" where
  "isabelle_open w file_path task_group heap label =
     andThen (get_binding w file_path task_group heap label) (\<lambda>r.
     andThen (sync w r) (\<lambda>reloaded.
     andThen (fetch (binding_at r)) (\<lambda>b. from_result (
       onOk (pick [''success'', ''proof_open''] (report_of b)) (\<lambda>flags.
       onOk (dict_get ''commands'' (report_of b)) (\<lambda>cmds.
       onOk (py_len (json_or cmds (JList []))) (\<lambda>n.
       onOk (pick [''error''] (report_of b)) (\<lambda>err.
       Inr (JObj ([(''opened'', JStr (b_path b)), (''task_group'', JStr (b_group b)), (''heap_session'', optional (b_heap b)),
         (''synced'', JBool reloaded)] @ flags @ [(''commands'', JInt n)] @ err))))))))))"

definition isabelle_close :: "lsp_world \<Rightarrow> pystr \<Rightarrow> bool \<Rightarrow> (lsp_state, json) py" where
  "isabelle_close w file_path destroy =
     (let destroyed = destroy \<or> close_destroys w in
      andThen (close_binding w file_path destroyed) (\<lambda>closed.
      ret (JObj [(''closed'', JBool closed), (''destroyed'', JBool destroyed), (''file'', JStr file_path)])))"

text \<open>\<open>next((c.get("line") for c in ... if c.get("status") == "running"), None)\<close>.\<close>

fun first_running :: "json list \<Rightarrow> exn + json" where
  "first_running [] = Inr JNull"
| "first_running (c # cs) = onOk (dict_get ''status'' c) (\<lambda>flag.
     if flag = JStr ''running'' then dict_get ''line'' c else first_running cs)"

definition stuck_line :: "json \<Rightarrow> exn + json" where
  "stuck_line rep =
     onOk (dict_get ''timed_out'' rep) (\<lambda>timed_out.
     if \<not> py_bool timed_out then Inr timed_out
     else onOk (dict_get ''commands'' rep) (\<lambda>cmds.
       if \<not> py_bool cmds then Inr cmds else onOk (py_iter cmds) first_running))"

definition isabelle_sync :: "lsp_world \<Rightarrow> pystr \<Rightarrow> (lsp_state, json) py" where
  "isabelle_sync w file_path =
     andThen (bound_synced w file_path) (\<lambda>(r, reloaded).
     andThen (fetch (binding_at r)) (\<lambda>b. from_result (
       onOk (pick [''success'', ''proof_open'', ''error''] (report_of b)) (\<lambda>flags.
       onOk (stuck_line (report_of b)) (\<lambda>stuck.
       Inr (JObj ([(''synced'', JBool reloaded)] @ flags @ [(''stuck_line'', stuck)])))))))"

section \<open>Diagnostics\<close>

definition diagnostic_entry :: "json \<Rightarrow> json \<Rightarrow> json \<Rightarrow> json \<Rightarrow> json \<Rightarrow> exn + json" where
  "diagnostic_entry cmd start_pos end_pos severity msg =
     onOk (pick [''line'', ''node_line''] cmd) (\<lambda>lines.
     onOk (dict_get ''col'' start_pos) (\<lambda>col.
     onOk (dict_get ''line'' end_pos) (\<lambda>end_line.
     onOk (dict_get ''col'' end_pos) (\<lambda>end_col.
     onOk (pick [''kind'', ''status''] cmd) (\<lambda>kind.
     onOk (dict_get ''text'' msg) (\<lambda>body.
     Inr (JObj (lines @ [(''col'', col), (''end_line'', end_line), (''end_col'', end_col)] @ kind
       @ [(''severity'', severity), (''text'', body)]))))))))"

definition command_diagnostics :: "pystr option \<Rightarrow> json \<Rightarrow> exn + json list" where
  "command_diagnostics severity cmd =
     onOk (get_dict ''range'' cmd) (\<lambda>rng.
     onOk (get_dict ''start'' rng) (\<lambda>start_pos.
     onOk (get_dict ''end'' rng) (\<lambda>end_pos.
     onOk (get_list ''messages'' cmd) (\<lambda>msgs.
     onOk (each (\<lambda>msg. onOk (dict_get ''sev'' msg) (\<lambda>sev.
       if truthy severity \<and> sev \<noteq> optional severity then Inr []
       else onOk (diagnostic_entry cmd start_pos end_pos sev msg) (\<lambda>v. Inr [v]))) msgs) (\<lambda>vs. Inr (concat vs))))))"

definition diagnostics :: "pystr option \<Rightarrow> json \<Rightarrow> exn + json list" where
  "diagnostics severity rep =
     onOk (get_list ''commands'' rep) (\<lambda>cmds. onOk (each (command_diagnostics severity) cmds) (\<lambda>vs. Inr (concat vs)))"

definition isabelle_diagnostic_messages :: "lsp_world \<Rightarrow> pystr \<Rightarrow> pystr option \<Rightarrow> (lsp_state, json) py" where
  "isabelle_diagnostic_messages w file_path severity =
     andThen (bound_synced w file_path) (\<lambda>(r, reloaded).
     andThen (fetch (binding_at r)) (\<lambda>b. from_result (
       onOk (diagnostics severity (report_of b)) (\<lambda>msgs.
       onOk (pick [''success'', ''proof_open'', ''used_sorry''] (report_of b)) (\<lambda>flags.
       Inr (JObj ([(''messages'', JList msgs)] @ flags
         @ (if py_bool (report_of b) then [] else [(''note'', JStr ''no report yet - call isabelle_sync first'')]))))))))"

section \<open>Queries\<close>

datatype file_query =
    Goal int
  | CommandAt int
  | ProofState
  | Source
  | Query pystr
  | LocalFacts
  | GlobalFacts int
  | HoverInfo int int
  | Definition int int
  | SledgehammerQuery "int option" int int
  | Checkpoint

fun file_request :: "file_query \<Rightarrow> client_call" where
  "file_request (Goal line) = GoalsAtLine line"
| "file_request (CommandAt line) = CommandAtLine line"
| "file_request ProofState = GetProofState"
| "file_request Source = GetSource"
| "file_request (Query command) = Diagnostic command"
| "file_request LocalFacts = GetLocalFacts"
| "file_request (GlobalFacts limit) = GetGlobalFacts limit"
| "file_request (HoverInfo line column) = HoverAt line column"
| "file_request (Definition line column) = DefinitionAt line column"
| "file_request (SledgehammerQuery line subgoal timeout_s) =
     (case line of None \<Rightarrow> Sledgehammer timeout_s | Some l \<Rightarrow> SledgehammerAt l subgoal timeout_s)"
| "file_request Checkpoint = SaveCheckpoint"

definition file_tool :: "lsp_world \<Rightarrow> pystr \<Rightarrow> file_query \<Rightarrow> (lsp_state, json) py" where
  "file_tool w file_path q =
     andThen (bound_synced w file_path) (\<lambda>(r, reloaded). call w r (file_request q))"

text \<open>The tools on the session as it stands: the file is not read again.\<close>

datatype session_query = Restore int | RollbackLast | History | LastReport

fun standing_request :: "session_query \<Rightarrow> client_call" where
  "standing_request (Restore checkpoint) = RestoreCheckpoint checkpoint"
| "standing_request RollbackLast = Rollback"
| "standing_request History = GetHistory"
| "standing_request LastReport = GetLastReport"

definition session_tool :: "lsp_world \<Rightarrow> pystr \<Rightarrow> session_query \<Rightarrow> (lsp_state, json) py" where
  "session_tool w file_path q =
     andThen (get_binding w file_path None None None) (\<lambda>r.
     if q = RollbackLast
     then catch (call w r (standing_request q))
            (\<lambda>e. ret (JObj [(''success'', JBool False), (''error'', JStr (str_of e))]))
     else call w r (standing_request q))"

section \<open>Scratch execution\<close>

text \<open>What a call does with its scratch session, in order.\<close>

datatype scratch_action = Released | Dropped

definition give_back :: "exn \<Rightarrow> scratch_action" where
  "give_back e = (if is_not_found e then Dropped else Released)"

text \<open>\<open>f"{type(e).__name__}: {e}"\<close>.\<close>

definition exn_text :: "exn \<Rightarrow> pystr" where
  "exn_text e = (case e of HTTPError n m \<Rightarrow> ''HTTPStatusError'' | Exn c m \<Rightarrow> class_name c) @ '': '' @ str_of e"

text \<open>\<open>(cmd.get("line") or 0) - (line - 1)\<close>.\<close>

fun candidate_line :: "json \<Rightarrow> int \<Rightarrow> exn + json" where
  "candidate_line (JInt n) line = Inr (JInt (n - (line - 1)))"
| "candidate_line (JBool b) line = Inr (JInt ((if b then 1 else 0) - (line - 1)))"
| "candidate_line (JFloat x) line = Inr (JFloat (x - of_int (line - 1)))"
| "candidate_line v line =
     (if py_bool v then Inl (Exn C_TypeError ''unsupported operand'') else Inr (JInt (0 - (line - 1))))"

definition candidate_entry :: "int \<Rightarrow> json \<Rightarrow> exn + json" where
  "candidate_entry line cmd =
     onOk (command_messages cmd) (\<lambda>msgs.
     onOk (dict_get ''line'' cmd) (\<lambda>l.
     onOk (candidate_line (json_or l (JInt 0)) line) (\<lambda>cl.
     onOk (pick [''kind'', ''status''] cmd) (\<lambda>kind.
     Inr (JObj ([(''candidate_line'', cl)] @ kind @ [(''messages'', JStr msgs)]))))))"

definition candidate_answer :: "int \<Rightarrow> pystr \<Rightarrow> json \<Rightarrow> exn + json" where
  "candidate_answer line candidate result =
     onOk (get_dict ''report'' result) (\<lambda>rep.
     onOk (bad_commands (candidate_entry line) rep) (\<lambda>bad.
     onOk (pick [''success'', ''proof_open'', ''pending_qed'', ''used_sorry'', ''timed_out''] rep) (\<lambda>flags.
     Inr (JObj ([(''candidate'', JStr candidate)] @ flags @ [(''failed'', JList bad)])))))"

text \<open>\<open>try_one\<close> on the scratch session it gets; \<open>load\<close> is the client's \<open>load_document\<close> with the report.\<close>

definition try_one :: "exn + pystr \<times> pystr \<Rightarrow> (pystr \<Rightarrow> pystr \<Rightarrow> pystr \<Rightarrow> exn + json) \<Rightarrow> int \<Rightarrow> pystr \<Rightarrow> pystr
    \<Rightarrow> json \<times> scratch_action list" where
  "try_one acquired load line prefix candidate =
     (let failed = \<lambda>e. JObj [(''candidate'', JStr candidate), (''error'', JStr (exn_text e))] in
      case acquired of Inl e \<Rightarrow> (failed e, [])
      | Inr (sid, lease) \<Rightarrow>
          (case onOk (load sid lease (prefix @ candidate)) (candidate_answer line candidate) of
             Inl e \<Rightarrow> (failed e, [give_back e])
           | Inr ans \<Rightarrow> (ans, [Released])))"

definition multi_attempt_plan :: "lsp_world \<Rightarrow> pystr \<Rightarrow> int
    \<Rightarrow> (lsp_state, (pystr \<times> pystr \<times> pystr list \<times> pystr) \<times> pystr) py" where
  "multi_attempt_plan w file_path line =
     andThen (bound_synced w file_path) (\<lambda>(r, reloaded).
     andThen (fetch (binding_at r)) (\<lambda>b.
     let txt = or_else (b_text b) [] in
     ret (scratch_key w (Some (b_group b)) (b_heap b) (header_imports txt) None, attempt_prefix txt line)))"

definition isabelle_multi_attempt :: "lsp_world \<Rightarrow> (nat \<Rightarrow> exn + pystr \<times> pystr)
    \<Rightarrow> (pystr \<Rightarrow> pystr \<Rightarrow> pystr \<Rightarrow> exn + json) \<Rightarrow> pystr \<Rightarrow> int \<Rightarrow> pystr list \<Rightarrow> (lsp_state, json) py" where
  "isabelle_multi_attempt w acquired load file_path line candidates =
     andThen (multi_attempt_plan w file_path line) (\<lambda>(key, prefix).
     ret (JList (map (\<lambda>(i, cand). fst (try_one (acquired i) load line prefix cand)) (enumerate 0 candidates))))"

datatype load_request =
    WholeSource pystr
  | ScratchBody pystr "pystr list"

definition run_code_key :: "lsp_world \<Rightarrow> pystr \<Rightarrow> pystr list option \<Rightarrow> pystr option \<Rightarrow> pystr option
    \<Rightarrow> pystr \<times> pystr \<times> pystr list \<times> pystr" where
  "run_code_key w chunk imports task_group heap =
     scratch_key w task_group heap (or_else imports (or_else (Some (header_imports chunk)) [''Main''])) None"

definition run_code_request :: "pystr \<Rightarrow> pystr list option \<Rightarrow> load_request" where
  "run_code_request chunk imports =
     (if startswith (lstrip chunk) ''theory'' then WholeSource chunk else ScratchBody chunk (or_else imports [''Main'']))"

definition snippet_entry :: "json \<Rightarrow> exn + json" where
  "snippet_entry cmd =
     onOk (pick [''line'', ''kind'', ''status''] cmd) (\<lambda>kind.
     onOk (command_messages cmd) (\<lambda>msgs. Inr (JObj (kind @ [(''messages'', JStr msgs)]))))"

definition snippet_answer :: "json \<Rightarrow> exn + json" where
  "snippet_answer result =
     onOk (get_dict ''report'' result) (\<lambda>rep.
     onOk (bad_commands snippet_entry rep) (\<lambda>bad.
     onOk (pick [''success'', ''output'', ''error''] result) (\<lambda>flags.
     onOk (pick [''proof_open'', ''used_sorry''] rep) (\<lambda>more.
     Inr (JObj (flags @ more @ [(''failed'', JList bad)]))))))"

definition isabelle_run_code :: "exn + pystr \<times> pystr \<Rightarrow> (pystr \<Rightarrow> pystr \<Rightarrow> load_request \<Rightarrow> exn + json) \<Rightarrow> pystr
    \<Rightarrow> pystr list option \<Rightarrow> json \<times> scratch_action list" where
  "isabelle_run_code acquired load chunk imports =
     (let failed = \<lambda>e. JObj [(''success'', JBool False), (''error'', JStr (exn_text e))] in
      case acquired of Inl e \<Rightarrow> (failed e, [])
      | Inr (sid, lease) \<Rightarrow>
          (case load sid lease (run_code_request chunk imports) of
             Inl e \<Rightarrow> (failed e, [give_back e])
           | Inr result \<Rightarrow>
               (case snippet_answer result of
                  Inl e \<Rightarrow> (failed e, [Released, give_back e])
                | Inr ans \<Rightarrow> (ans, [Released]))))"

section \<open>The tools on files\<close>

datatype tool_call =
    OpenFile pystr "pystr option" "pystr option" "pystr option"
  | CloseFile pystr bool
  | SyncFile pystr
  | Diagnostics pystr "pystr option"
  | OnFile pystr file_query
  | OnSession pystr session_query
  | Attempts pystr int

fun run_tool :: "lsp_world \<Rightarrow> tool_call \<Rightarrow> (lsp_state, unit) py" where
  "run_tool w (OpenFile p g h l) = andThen (isabelle_open w p g h l) (\<lambda>_. ret ())"
| "run_tool w (CloseFile p destroy) = andThen (isabelle_close w p destroy) (\<lambda>_. ret ())"
| "run_tool w (SyncFile p) = andThen (isabelle_sync w p) (\<lambda>_. ret ())"
| "run_tool w (Diagnostics p severity) = andThen (isabelle_diagnostic_messages w p severity) (\<lambda>_. ret ())"
| "run_tool w (OnFile p q) = andThen (file_tool w p q) (\<lambda>_. ret ())"
| "run_tool w (OnSession p q) = andThen (session_tool w p q) (\<lambda>_. ret ())"
| "run_tool w (Attempts p line) = andThen (multi_attempt_plan w p line) (\<lambda>_. ret ())"

text \<open>The states between tool calls that run one after the other; a call may raise.\<close>

inductive lsp_reach :: "lsp_world \<Rightarrow> lsp_state \<Rightarrow> bool" for w :: lsp_world where
  lsp_start: "lsp_reach w \<lparr>store = [], registry = [], documents = d, seen = 0\<rparr>"
| lsp_next: "lsp_reach w st \<Longrightarrow> run_tool w t st = (x, st') \<Longrightarrow> lsp_reach w st'"

end
