(* ===== verification/Threaded_Backend.thy ===== *)
theory Threaded_Backend
  imports Py_Effects "HOL-Library.Sublist"
begin

text \<open>
  The worker thread of a session (\<open>server/app/services/threaded_backend.py\<close>) as a step relation.
  Three kinds of thread run it: callers of \<open>submit\<close>, the worker's \<open>_run\<close> loop and one caller of
  \<open>close\<close>. A step is what no other thread can interrupt: a test or a set of an event, a \<open>put\<close> or a
  \<open>get\<close> of the queue, the resolution of a future. \<open>submit\<close> is two steps, the test of
  \<open>_shutting_down\<close> and the \<open>put\<close>, so a close may run between them.

  \<open>tb_puts\<close>, \<open>tb_takes\<close>, \<open>tb_runs\<close> and \<open>tb_late\<close> are history: what was put on and taken off the
  queue, what the worker ran, and the calls that had passed the test but not yet put their job when
  the drain ended.
\<close>

section \<open>The state and its steps\<close>

datatype job = Call nat | Exit

datatype worker = LoopHead | Polling | Busy job | Stopped

datatype closer = NotClosing | Draining | Drained | AwaitExit | Joining | Closed

record 'r tb =
  tb_name :: pystr
  tb_queue :: "job list"
  tb_futs :: "job \<Rightarrow> (exn + 'r) option"
  tb_shutting_down :: bool
  tb_stop :: bool
  tb_worker :: worker
  tb_closer :: closer
  tb_submitted :: "nat set"
  tb_putting :: "nat set"
  tb_puts :: "job list"
  tb_takes :: "job list"
  tb_runs :: "job list"
  tb_late :: "nat set"

definition tb_init :: "pystr \<Rightarrow> 'r tb" where
  "tb_init name = \<lparr>tb_name = name, tb_queue = [], tb_futs = (\<lambda>_. None), tb_shutting_down = False,
     tb_stop = False, tb_worker = LoopHead, tb_closer = NotClosing, tb_submitted = {}, tb_putting = {},
     tb_puts = [], tb_takes = [], tb_runs = [], tb_late = {}\<rparr>"

definition rejected :: "pystr \<Rightarrow> exn" where
  "rejected name = Exn C_RuntimeError (''Backend '' @ name @ '' is shutting down'')"

definition cancelled :: "pystr \<Rightarrow> exn" where
  "cancelled name = Exn C_RuntimeError (''Backend '' @ name @ '' shut down before job executed'')"

definition set_fut :: "job \<Rightarrow> exn + 'r \<Rightarrow> 'r tb \<Rightarrow> 'r tb" where
  "set_fut j r s = s\<lparr>tb_futs := (tb_futs s)(j := Some r)\<rparr>"

text \<open>\<open>submit\<close> up to and including the test; \<open>_submit_unchecked\<close>.\<close>

definition submit_test :: "nat \<Rightarrow> 'r tb \<Rightarrow> 'r tb" where
  "submit_test n s =
     (let s = s\<lparr>tb_submitted := insert n (tb_submitted s)\<rparr> in
      if tb_shutting_down s then set_fut (Call n) (Inl (rejected (tb_name s))) s
      else s\<lparr>tb_putting := insert n (tb_putting s)\<rparr>)"

definition put_job :: "job \<Rightarrow> 'r tb \<Rightarrow> 'r tb" where
  "put_job j s = s\<lparr>tb_queue := tb_queue s @ [j], tb_puts := tb_puts s @ [j]\<rparr>"

definition take_job :: "'r tb \<Rightarrow> 'r tb" where
  "take_job s = s\<lparr>tb_queue := tl (tb_queue s), tb_takes := tb_takes s @ [hd (tb_queue s)]\<rparr>"

inductive tb_step :: "'r tb \<Rightarrow> 'r tb \<Rightarrow> bool" where
  submit_test: "n \<notin> tb_submitted s \<Longrightarrow> tb_step s (submit_test n s)"
| submit_put: "n \<in> tb_putting s \<Longrightarrow>
     tb_step s (put_job (Call n) (s\<lparr>tb_putting := tb_putting s - {n}\<rparr>))"
| run_test: "tb_worker s = LoopHead \<Longrightarrow>
     tb_step s (s\<lparr>tb_worker := if tb_stop s then Stopped else Polling\<rparr>)"
| run_get: "\<lbrakk>tb_worker s = Polling; tb_queue s = j # js\<rbrakk> \<Longrightarrow>
     tb_step s (take_job (s\<lparr>tb_worker := Busy j, tb_runs := tb_runs s @ [j]\<rparr>))"
| run_empty: "\<lbrakk>tb_worker s = Polling; tb_queue s = []\<rbrakk> \<Longrightarrow> tb_step s (s\<lparr>tb_worker := LoopHead\<rparr>)"
| run_done: "tb_worker s = Busy j \<Longrightarrow> tb_step s (set_fut j r (s\<lparr>tb_worker := LoopHead\<rparr>))"
| close_begin: "tb_closer s = NotClosing \<Longrightarrow>
     tb_step s (s\<lparr>tb_shutting_down := True, tb_closer := Draining\<rparr>)"
| close_drain: "\<lbrakk>tb_closer s = Draining; tb_queue s = j # js\<rbrakk> \<Longrightarrow>
     tb_step s (set_fut j (Inl (cancelled (tb_name s))) (take_job s))"
| close_drained: "\<lbrakk>tb_closer s = Draining; tb_queue s = []\<rbrakk> \<Longrightarrow>
     tb_step s (s\<lparr>tb_closer := Drained, tb_late := tb_putting s\<rparr>)"
| close_exit: "tb_closer s = Drained \<Longrightarrow> tb_step s (put_job Exit (s\<lparr>tb_closer := AwaitExit\<rparr>))"
| close_stop: "tb_closer s = AwaitExit \<Longrightarrow> tb_step s (s\<lparr>tb_stop := True, tb_closer := Joining\<rparr>)"
| close_join: "tb_closer s = Joining \<Longrightarrow> tb_step s (s\<lparr>tb_closer := Closed\<rparr>)"

text \<open>\<open>close_stop\<close> needs neither the exit job done nor failed, and \<open>close_join\<close> not the worker
  stopped: both waits are bounded by a timeout.\<close>

inductive tb_reach :: "'r tb \<Rightarrow> bool" where
  tb_init: "tb_reach (tb_init name)"
| tb_next: "\<lbrakk>tb_reach s; tb_step s t\<rbrakk> \<Longrightarrow> tb_reach t"

inductive_cases tb_stepE: "tb_step s t"

section \<open>The invariant\<close>

lemmas tb_ops = set_fut_def submit_test_def put_job_def take_job_def Let_def

definition past_drain :: "closer \<Rightarrow> bool" where
  "past_drain c = (c \<in> {Drained, AwaitExit, Joining, Closed})"

definition queue_inv :: "'r tb \<Rightarrow> bool" where
  "queue_inv s \<longleftrightarrow> tb_puts s = tb_takes s @ tb_queue s \<and> distinct (tb_puts s)
     \<and> subseq (tb_runs s) (tb_takes s)
     \<and> (\<forall>n \<in> tb_putting s. Call n \<notin> set (tb_puts s)) \<and> tb_putting s \<subseteq> tb_submitted s
     \<and> (\<forall>n. Call n \<in> set (tb_puts s) \<longrightarrow> n \<in> tb_submitted s)
     \<and> (\<forall>j. tb_worker s = Busy j \<longrightarrow> j \<in> set (tb_takes s))
     \<and> (Exit \<in> set (tb_puts s) \<longrightarrow> tb_closer s \<in> {AwaitExit, Joining, Closed})"

definition future_inv :: "'r tb \<Rightarrow> bool" where
  "future_inv s \<longleftrightarrow>
     (\<forall>j. j \<in> set (tb_queue s) \<or> tb_worker s = Busy j \<or> (\<exists>n \<in> tb_putting s. j = Call n)
        \<or> (\<exists>n. j = Call n \<and> n \<notin> tb_submitted s) \<or> j = Exit \<and> Exit \<notin> set (tb_puts s)
        \<longrightarrow> tb_futs s j = None)
     \<and> (\<forall>n \<in> tb_submitted s. tb_futs s (Call n) = None \<longrightarrow>
          n \<in> tb_putting s \<or> Call n \<in> set (tb_queue s) \<or> tb_worker s = Busy (Call n))"

definition close_inv :: "'r tb \<Rightarrow> bool" where
  "close_inv s \<longleftrightarrow> (tb_shutting_down s \<longleftrightarrow> tb_closer s \<noteq> NotClosing)
     \<and> (tb_stop s \<longleftrightarrow> tb_closer s \<in> {Joining, Closed})
     \<and> (tb_worker s = Stopped \<longrightarrow> tb_stop s)
     \<and> (past_drain (tb_closer s) \<longrightarrow> tb_putting s \<subseteq> tb_late s
          \<and> (\<forall>n. Call n \<in> set (tb_queue s) \<longrightarrow> n \<in> tb_late s))"

lemma queue_inv_step: "\<lbrakk>queue_inv s; tb_step s t\<rbrakk> \<Longrightarrow> queue_inv t"
  by (erule tb_stepE; auto simp: queue_inv_def tb_ops split: if_splits intro: list_emb_append_mono)

lemma future_inv_step: "\<lbrakk>queue_inv s; future_inv s; tb_step s t\<rbrakk> \<Longrightarrow> future_inv t"
  by (erule tb_stepE; auto simp: future_inv_def queue_inv_def tb_ops split: if_splits)

lemma close_inv_step: "\<lbrakk>close_inv s; tb_step s t\<rbrakk> \<Longrightarrow> close_inv t"
  by (erule tb_stepE; simp add: close_inv_def tb_ops past_drain_def split: if_splits; blast)

lemma tb_reach_inv: "tb_reach s \<Longrightarrow> queue_inv s \<and> future_inv s \<and> close_inv s"
proof (induction rule: tb_reach.induct)
  case (tb_init name)
  show ?case by (simp add: queue_inv_def future_inv_def close_inv_def tb_init_def past_drain_def)
next
  case (tb_next s t)
  then show ?case by (blast intro: queue_inv_step future_inv_step close_inv_step)
qed

section \<open>Progress and permanence\<close>

lemma subseq_distinctD: "subseq xs ys \<Longrightarrow> distinct ys \<Longrightarrow> distinct xs"
  by (induction rule: list_emb.induct) (auto dest: list_emb_set)

lemma future_stable: "\<lbrakk>future_inv s; tb_step s t; tb_futs s j = Some r\<rbrakk> \<Longrightarrow> tb_futs t j = Some r"
  by (erule tb_stepE; auto simp: future_inv_def tb_ops split: if_splits)

definition abandoned :: "nat \<Rightarrow> 'r tb \<Rightarrow> bool" where
  "abandoned n s \<longleftrightarrow> tb_worker s = Stopped \<and> tb_closer s = Closed \<and> n \<in> tb_submitted s
     \<and> tb_futs s (Call n) = None"

lemma abandoned_step: "\<lbrakk>abandoned n s; tb_step s t\<rbrakk> \<Longrightarrow> abandoned n t"
  by (erule tb_stepE; auto simp: abandoned_def tb_ops)

lemma abandoned_steps: "tb_step\<^sup>*\<^sup>* s t \<Longrightarrow> abandoned n s \<Longrightarrow> abandoned n t"
  by (induction rule: rtranclp_induct) (auto intro: abandoned_step)

text \<open>A trace is a list of states, each a step after the one before it.\<close>

fun trace :: "'r tb \<Rightarrow> 'r tb list \<Rightarrow> bool" where
  "trace s [] = True"
| "trace s (t # ts) = (tb_step s t \<and> trace t ts)"

lemma reach_trace: "\<lbrakk>tb_reach s; trace s ts\<rbrakk> \<Longrightarrow> tb_reach (last (s # ts))"
proof (induction ts arbitrary: s)
  case (Cons t ts)
  then have "tb_reach t" by (auto intro: tb_reach.tb_next)
  then have "tb_reach (last (t # ts))" using Cons.IH Cons.prems(2) by simp
  then show ?case by simp
qed simp

section \<open>Properties\<close>

text \<open>Property C5: the worker runs jobs in the order they were put on the queue, each at most once; the job it
  is running has no result yet, so its future is set exactly once, and a set future never changes.\<close>

theorem worker_runs_in_order:
  assumes "tb_reach s"
  shows "subseq (tb_runs s) (tb_puts s) \<and> distinct (tb_runs s)
    \<and> (\<forall>j. tb_worker s = Busy j \<longrightarrow> tb_futs s j = None)
    \<and> (\<forall>j r t. tb_futs s j = Some r \<and> tb_step s t \<longrightarrow> tb_futs t j = Some r)"
proof -
  have inv: "queue_inv s" "future_inv s" using tb_reach_inv [OF assms] by auto
  have sub: "subseq (tb_runs s) (tb_puts s)"
    using inv(1) by (auto simp: queue_inv_def intro: subseq_order.trans)
  moreover have "distinct (tb_runs s)"
    using sub inv(1) by (auto simp: queue_inv_def dest: subseq_distinctD)
  ultimately show ?thesis
    using inv(2) future_stable [OF inv(2)] by (auto simp: future_inv_def [of s])
qed

text \<open>Property C6: after a \<open>close\<close> the worker of which has stopped, every call that was ever submitted has an
  answer, provided no call was between its test and its \<open>put\<close> when the drain ended; and a call
  submitted after the start of a close is answered at once with a \<open>RuntimeError\<close>.\<close>

theorem close_answers_every_call:
  assumes "tb_reach s"
  shows "(tb_closer s = Closed \<and> tb_worker s = Stopped \<and> tb_late s = {} \<longrightarrow>
      (\<forall>n \<in> tb_submitted s. tb_futs s (Call n) \<noteq> None))
    \<and> (tb_closer s \<noteq> NotClosing \<longrightarrow>
      (\<forall>n. n \<notin> tb_submitted s \<longrightarrow>
         tb_futs (submit_test n s) (Call n) = Some (Inl (rejected (tb_name s)))))"
proof -
  have inv: "future_inv s" "close_inv s" using tb_reach_inv [OF assms] by auto
  then show ?thesis
    by (auto simp: future_inv_def close_inv_def past_drain_def submit_test_def set_fut_def Let_def)
qed

text \<open>A call that passes the test just before a close sets the flag, and puts its job after the
  drain, is put behind a worker that stops: it stays without an answer for ever.\<close>

definition lost_trace :: "pystr \<Rightarrow> 'r tb list" where
  "lost_trace name =
     (let s1 = submit_test 0 (tb_init name);
          s2 = s1\<lparr>tb_shutting_down := True, tb_closer := Draining\<rparr>;
          s3 = s2\<lparr>tb_closer := Drained, tb_late := tb_putting s2\<rparr>;
          s4 = put_job Exit (s3\<lparr>tb_closer := AwaitExit\<rparr>);
          s5 = put_job (Call 0) (s4\<lparr>tb_putting := tb_putting s4 - {0}\<rparr>);
          s6 = s5\<lparr>tb_stop := True, tb_closer := Joining\<rparr>;
          s7 = s6\<lparr>tb_worker := if tb_stop s6 then Stopped else Polling\<rparr>;
          s8 = s7\<lparr>tb_closer := Closed\<rparr>
      in [s1, s2, s3, s4, s5, s6, s7, s8])"

lemma lost_trace_steps: "trace (tb_init name) (lost_trace name)"
  unfolding lost_trace_def Let_def trace.simps
  by (intro conjI TrueI tb_step.submit_test tb_step.submit_put tb_step.close_begin
      tb_step.close_drained tb_step.close_exit tb_step.close_stop tb_step.run_test tb_step.close_join)
    (simp_all add: tb_init_def tb_ops)

theorem late_submit_never_answered:
  "\<exists>s. tb_reach s \<and> 0 \<in> tb_submitted s \<and> tb_closer s = Closed
     \<and> (\<forall>t. tb_step\<^sup>*\<^sup>* s t \<longrightarrow> tb_futs t (Call 0) = None)"
proof -
  let ?s = "last (tb_init name # lost_trace name)"
  have "tb_reach ?s" by (intro reach_trace tb_reach.tb_init lost_trace_steps)
  moreover have "abandoned 0 ?s"
    by (simp add: abandoned_def lost_trace_def tb_ops tb_init_def)
  then have "\<forall>t. tb_step\<^sup>*\<^sup>* ?s t \<longrightarrow> tb_futs t (Call 0) = None"
    using abandoned_steps unfolding abandoned_def by blast
  ultimately show ?thesis using \<open>abandoned 0 ?s\<close> unfolding abandoned_def by blast
qed

text \<open>The witnesses: one call, run and answered, then a close.\<close>

definition quiet_trace :: "nat tb list" where
  "quiet_trace =
     (let s1 = submit_test 0 (tb_init ''w'');
          s2 = put_job (Call 0) (s1\<lparr>tb_putting := tb_putting s1 - {0}\<rparr>);
          s3 = s2\<lparr>tb_worker := if tb_stop s2 then Stopped else Polling\<rparr>;
          s4 = take_job (s3\<lparr>tb_worker := Busy (Call 0), tb_runs := tb_runs s3 @ [Call 0]\<rparr>);
          s5 = set_fut (Call 0) (Inr 7) (s4\<lparr>tb_worker := LoopHead\<rparr>);
          s6 = s5\<lparr>tb_shutting_down := True, tb_closer := Draining\<rparr>;
          s7 = s6\<lparr>tb_closer := Drained, tb_late := tb_putting s6\<rparr>;
          s8 = put_job Exit (s7\<lparr>tb_closer := AwaitExit\<rparr>);
          s9 = s8\<lparr>tb_stop := True, tb_closer := Joining\<rparr>;
          s10 = s9\<lparr>tb_worker := if tb_stop s9 then Stopped else Polling\<rparr>;
          s11 = s10\<lparr>tb_closer := Closed\<rparr>
      in [s1, s2, s3, s4, s5, s6, s7, s8, s9, s10, s11])"

lemma quiet_trace_steps: "trace (tb_init ''w'') quiet_trace"
  unfolding quiet_trace_def Let_def trace.simps
  by (intro conjI TrueI tb_step.submit_test tb_step.submit_put tb_step.close_begin
      tb_step.close_drained tb_step.close_exit tb_step.close_stop tb_step.run_test tb_step.close_join
      tb_step.run_get [where js = "[]"] tb_step.run_done)
    (simp_all add: tb_init_def tb_ops)

lemma quiet_reach: "tb_reach (last (tb_init ''w'' # quiet_trace))"
  by (intro reach_trace tb_reach.tb_init quiet_trace_steps)

theorem worker_runs_in_order_witness:
  "distinct (tb_runs (last (tb_init ''w'' # quiet_trace)))
   \<and> tb_runs (last (tb_init ''w'' # quiet_trace)) = [Call 0]"
  using worker_runs_in_order [OF quiet_reach]
  by (simp add: quiet_trace_def tb_ops tb_init_def)

theorem close_answers_every_call_witness:
  "tb_futs (last (tb_init ''w'' # quiet_trace)) (Call 0) \<noteq> None"
  using close_answers_every_call [OF quiet_reach]
  by (simp add: quiet_trace_def tb_ops tb_init_def)

end
