(* ===== verification/Success_Checker.thy ===== *)
theory Success_Checker
  imports Server_Errors
begin

text \<open>
  Success of a prover command (\<open>server_gym/success_checker.py\<close>). A REPL result is seen through
  the calls the checker makes on it: \<open>separated_output().error()\<close>, \<open>separated_output().output()\<close>
  and \<open>total_output()\<close>, each of which may raise or return \<open>None\<close>, and through \<open>str\<close>. The session's \<open>step\<close> answers
  \<open>None\<close> for an empty command, on which every such call raises.

  The warning prefix written with an em dash (code point 8212) lies outside the characters of the
  model and so never matches modelled text.
\<close>

section \<open>Operations\<close>

record repl_result =
  rr_error :: "exn + pystr option"
  rr_output :: "exn + pystr option"
  rr_total :: "exn + pystr"
  rr_str :: "exn + pystr"

definition get_raw_error_output :: "repl_result option \<Rightarrow> pystr" where
  "get_raw_error_output result =
     (case result of None \<Rightarrow> []
      | Some r \<Rightarrow> (case rr_error r of Inl _ \<Rightarrow> [] | Inr None \<Rightarrow> [] | Inr (Some v) \<Rightarrow> strip v))"

definition get_raw_output :: "repl_result option \<Rightarrow> pystr" where
  "get_raw_output result =
     (case result of None \<Rightarrow> []
      | Some r \<Rightarrow> (case rr_output r of Inl _ \<Rightarrow> [] | Inr None \<Rightarrow> [] | Inr (Some v) \<Rightarrow> strip v))"

function drop_stars :: "pystr \<Rightarrow> pystr" where
  "drop_stars s = (if startswith s ''*'' then drop_stars (lstrip (tl s)) else s)"
  by pat_completeness auto
termination
proof (relation "measure length", goal_cases)
  case (2 s)
  then obtain r where "s = CHR ''*'' # r" by (auto simp: startswith_Cons)
  then show ?case by (simp add: lstrip_def le_imp_less_Suc length_dropWhile_le)
qed simp

declare drop_stars.simps [simp del]

definition normalized_prefix :: "pystr \<Rightarrow> pystr" where
  "normalized_prefix line = lower (drop_stars (strip line))"

definition warning_prefixes :: "pystr list" where
  "warning_prefixes =
     [''warning:'', ''warning -'', ''ml warning'', ''note:'', ''introduced fixed type variable(s):'']"

definition has_warning_prefix :: "pystr \<Rightarrow> bool" where
  "has_warning_prefix prefix = list_ex (startswith prefix) warning_prefixes"

definition is_warning_line :: "pystr \<Rightarrow> bool" where
  "is_warning_line line =
     (let prefix = normalized_prefix line in
      prefix = [] \<or> startswith prefix ''###'' \<or> has_warning_prefix prefix)"

definition significant_lines :: "pystr \<Rightarrow> pystr list" where
  "significant_lines raw =
     filter (\<lambda>ln. strip ln \<noteq> [] \<and> \<not> startswith (strip ln) ''###'') (splitlines raw)"

definition split_error_and_warning_output :: "repl_result option \<Rightarrow> pystr \<times> pystr" where
  "split_error_and_warning_output result =
     (let raw = get_raw_error_output result in
      if raw = [] then ([], [])
      else case significant_lines raw of
             [] \<Rightarrow> ([], [])
           | first # _ \<Rightarrow>
               if has_warning_prefix (normalized_prefix first) then ([], strip raw)
               else (strip (join [NL] (filter (\<lambda>l. \<not> is_warning_line l) (splitlines raw))),
                     strip (join [NL] (filter is_warning_line (splitlines raw)))))"

definition has_error_output :: "repl_result option \<Rightarrow> bool" where
  "has_error_output result = (0 < length (fst (split_error_and_warning_output result)))"

definition is_syntax_successful :: "repl_result option \<Rightarrow> bool" where
  "is_syntax_successful result = (\<not> has_error_output result)"

definition is_proof_progress :: "pystr list \<Rightarrow> pystr list \<Rightarrow> bool" where
  "is_proof_progress before_goals after_goals =
     (if length after_goals < length before_goals then True
      else if length after_goals = length before_goals then after_goals \<noteq> before_goals
      else if length before_goals < length after_goals then 0 < length before_goals
      else False)"

definition get_error_message :: "repl_result option \<Rightarrow> pystr" where
  "get_error_message result = fst (split_error_and_warning_output result)"

definition get_warning_message :: "repl_result option \<Rightarrow> pystr" where
  "get_warning_message result = snd (split_error_and_warning_output result)"

definition get_output_message :: "repl_result option \<Rightarrow> pystr" where
  "get_output_message result =
     (case result of None \<Rightarrow> []
      | Some r \<Rightarrow> (case rr_output r of Inl _ \<Rightarrow> [] | Inr None \<Rightarrow> [] | Inr (Some v) \<Rightarrow> strip v))"

section \<open>Lemmas\<close>

lemma no_result_successful [simp]: "is_syntax_successful None"
  by (simp add: is_syntax_successful_def has_error_output_def split_error_and_warning_output_def
      get_raw_error_output_def)

lemma blank_line_is_warning: "strip l = [] \<Longrightarrow> is_warning_line l"
  by (simp add: is_warning_line_def normalized_prefix_def drop_stars.simps startswith_Cons lower_def)

lemma in_set_join: "y \<in> set xs \<Longrightarrow> x \<in> set y \<Longrightarrow> x \<in> set (join sep xs)"
  by (induction xs rule: induct_list012) auto

lemma strip_join_empty:
  assumes "\<And>l. l \<in> set ls \<Longrightarrow> strip l \<noteq> []"
  shows "strip (join [NL] ls) = [] \<longleftrightarrow> ls = []"
proof (cases ls)
  case (Cons l ls')
  then obtain c where "c \<in> set l" "\<not> is_space c"
    using assms [of l] by (auto simp: strip_empty_iff)
  then have "c \<in> set (join [NL] ls)" using Cons by (auto intro: in_set_join)
  then show ?thesis using \<open>\<not> is_space c\<close> Cons by (auto simp: strip_empty_iff)
qed simp

lemma error_lines_empty:
  "strip (join [NL] (filter (\<lambda>l. \<not> is_warning_line l) ls)) = [] \<longleftrightarrow> (\<forall>l \<in> set ls. is_warning_line l)"
  by (subst strip_join_empty) (auto simp: filter_empty_conv dest: blank_line_is_warning)

section \<open>Properties\<close>

text \<open>A command counts as successful exactly when its error output has no significant line,
  or its first significant line is a warning (which masks every line after it), or every line is
  a warning; and the error message is empty exactly for a successful command.\<close>

theorem syntax_success_iff:
  "(is_syntax_successful result \<longleftrightarrow>
      (let raw = get_raw_error_output result in
       raw = [] \<or> significant_lines raw = []
       \<or> has_warning_prefix (normalized_prefix (hd (significant_lines raw)))
       \<or> list_all is_warning_line (splitlines raw)))
   \<and> (get_error_message result = [] \<longleftrightarrow> is_syntax_successful result)"
proof -
  let ?raw = "get_raw_error_output result"
  have "is_syntax_successful result \<longleftrightarrow> get_error_message result = []"
    by (simp add: is_syntax_successful_def has_error_output_def get_error_message_def)
  moreover have "get_error_message result = [] \<longleftrightarrow>
      ?raw = [] \<or> significant_lines ?raw = []
      \<or> has_warning_prefix (normalized_prefix (hd (significant_lines ?raw)))
      \<or> list_all is_warning_line (splitlines ?raw)"
    by (cases "significant_lines ?raw")
      (simp_all add: get_error_message_def split_error_and_warning_output_def Let_def
        error_lines_empty list_all_iff)
  ultimately show ?thesis by (simp add: Let_def)
qed

text \<open>A step is progress exactly when there were subgoals before it and they changed.\<close>

theorem proof_progress_iff:
  "is_proof_progress before_goals after_goals \<longleftrightarrow> before_goals \<noteq> [] \<and> after_goals \<noteq> before_goals"
  by (cases before_goals; cases after_goals) (auto simp: is_proof_progress_def)

end
