(* ===== verification/Theory_Chunks.thy ===== *)
theory Theory_Chunks
  imports Py_Regex
begin

text \<open>
  Splitting theory text (\<open>server/app/services/theory_chunks.py\<close>): the split of a theory into
  top-level blocks, of a block into chunks of bounded length, and the one-line preview for the log.
  The lemmas show that both splits lose, duplicate and reorder no line that is not blank, that
  chunks respect the line bound, and the length bound of the preview.
\<close>

section \<open>Operations\<close>

definition TOP_LEVEL_KEYWORDS :: "pystr list" where
  "TOP_LEVEL_KEYWORDS =
    [''lemma'', ''theorem'', ''corollary'', ''proposition'', ''schematic_goal'', ''definition'', ''fun'',
     ''function'', ''primrec'', ''inductive'', ''inductive_set'', ''coinductive'', ''abbreviation'',
     ''notation'', ''no_notation'', ''declare'', ''context'', ''locale'', ''interpretation'',
     ''instantiation'', ''lift_definition'', ''datatype'', ''codatatype'', ''record'', ''typedef'', ''class'',
     ''instance'', ''text'', ''text_raw'', ''ML'', ''ML_file'', ''SML_export'', ''setup'', ''method_setup'',
     ''termination'', ''end'']"

definition PROOF_OPENERS :: "pystr list" where
  "PROOF_OPENERS = [''proof'', ''proof -'', ''proof ('']"

definition PROOF_CLOSERS :: "pystr list" where
  "PROOF_CLOSERS = [''qed'', ''by'', ''done'', ''oops'', ''sorry'']"

text \<open>\<open>_normalize\<close>: \<open>\r\n\<close> and then \<open>\r\<close> become \<open>\n\<close>.\<close>

fun normalize_newlines :: "pystr \<Rightarrow> pystr" where
  "normalize_newlines (c # d # s) =
     (if c = CHR 0x0D \<and> d = NL then NL # normalize_newlines s
      else (if c = CHR 0x0D then NL else c) # normalize_newlines (d # s))"
| "normalize_newlines [c] = [if c = CHR 0x0D then NL else c]"
| "normalize_newlines [] = []"

definition keyword_re :: "pystr \<Rightarrow> re" where
  "keyword_re kw = seqs [TextStart, lit kw,
     alts [WordBoundary, Chr is_space, Chr (\<lambda>c. c = CHR ''(''), TextEnd]]"

definition starts_with_keyword :: "pystr \<Rightarrow> pystr list \<Rightarrow> bool" where
  "starts_with_keyword line kws = list_ex (\<lambda>kw. match_start (keyword_re kw) (strip line) \<noteq> None) kws"

text \<open>The loop of \<open>split_theory_into_blocks\<close>: finished blocks, lines of the current block, proof depth.
  The depth never goes below zero (\<open>max(0, proof_depth - 1)\<close>).\<close>

definition flush :: "pystr list \<Rightarrow> pystr list" where
  "flush current = (let block = strip (join [NL] current) in if block = [] then [] else [block])"

definition proof_depth_after :: "nat \<Rightarrow> pystr \<Rightarrow> nat" where
  "proof_depth_after depth stripped =
     (if starts_with_keyword stripped PROOF_OPENERS then depth + 1
      else if starts_with_keyword stripped PROOF_CLOSERS then depth - 1
      else depth)"

definition starts_new_block :: "pystr list \<Rightarrow> nat \<Rightarrow> pystr \<Rightarrow> bool" where
  "starts_new_block current depth stripped =
     (current \<noteq> [] \<and> depth = 0 \<and> stripped \<noteq> [] \<and> starts_with_keyword stripped TOP_LEVEL_KEYWORDS)"

fun split_lines :: "pystr list \<Rightarrow> nat \<Rightarrow> pystr list \<Rightarrow> pystr list" where
  "split_lines current depth [] = flush current"
| "split_lines current depth (raw_line # rest) =
     (let line = rstrip raw_line; stripped = strip line; depth' = proof_depth_after depth stripped in
      if starts_new_block current depth stripped
      then flush current @ split_lines [line] depth' rest
      else split_lines (current @ [line]) depth' rest)"

definition split_theory_into_blocks :: "pystr \<Rightarrow> pystr list" where
  "split_theory_into_blocks theory_text =
     (let t = strip (normalize_newlines theory_text) in
      if t = [] then [] else split_lines [] 0 (split_on NL t))"

text \<open>\<open>re.split(r"\n\s*\n", text)\<close>.\<close>

definition BLANK_LINES_RE :: re where
  "BLANK_LINES_RE = Seq (Chr (\<lambda>c. c = NL)) (Seq (Star (Chr is_space)) (Chr (\<lambda>c. c = NL)))"

fun re_split_from :: "nat \<Rightarrow> re \<Rightarrow> cursor \<Rightarrow> pystr list" where
  "re_split_from 0 r c = [snd c]"
| "re_split_from (Suc n) r c =
     (case search_from r c of None \<Rightarrow> [snd c]
      | Some (a, b, g) \<Rightarrow> between c a # re_split_from n r b)"

definition re_split :: "re \<Rightarrow> pystr \<Rightarrow> pystr list" where
  "re_split r s = re_split_from (Suc (length s)) r (start_of s)"

function groups_of :: "nat \<Rightarrow> 'a list \<Rightarrow> 'a list list" where
  "groups_of k xs = (if xs = [] \<or> k = 0 then [] else take k xs # groups_of k (drop k xs))"
  by pat_completeness auto
termination
  by (relation "measure (\<lambda>(k, xs). length xs)") auto

declare groups_of.simps [simp del]

text \<open>The chunks of one paragraph; \<open>range\<close> with step 0 raises, with a negative step it is empty.\<close>

definition paragraph_chunks :: "int \<Rightarrow> pystr \<Rightarrow> pystr list option" where
  "paragraph_chunks max_lines para =
     (let ls = split_on NL para in
      if int (length ls) \<le> max_lines then Some [para]
      else if max_lines = 0 then None
      else if max_lines < 0 then Some []
      else Some (filter (\<lambda>c. c \<noteq> []) (map (\<lambda>ls. strip (join [NL] ls)) (groups_of (nat max_lines) ls))))"

fun all_chunks :: "int \<Rightarrow> pystr list \<Rightarrow> pystr list option" where
  "all_chunks max_lines [] = Some []"
| "all_chunks max_lines (p # ps) =
     (case paragraph_chunks max_lines p of None \<Rightarrow> None
      | Some cs \<Rightarrow> (case all_chunks max_lines ps of None \<Rightarrow> None | Some ds \<Rightarrow> Some (cs @ ds)))"

text \<open>\<open>None\<close> is the \<open>ValueError\<close> of \<open>range\<close>.\<close>

definition split_block_into_chunks :: "pystr \<Rightarrow> int \<Rightarrow> pystr list option" where
  "split_block_into_chunks block_text max_lines =
     (let t = strip (normalize_newlines block_text) in
      if t = [] then Some []
      else (case all_chunks max_lines
                   (filter (\<lambda>p. p \<noteq> []) (map strip (re_split BLANK_LINES_RE t))) of
              None \<Rightarrow> None
            | Some chunks \<Rightarrow> Some (if chunks = [] then [t] else chunks)))"

definition preview_text :: "pystr \<Rightarrow> int \<Rightarrow> pystr" where
  "preview_text txt max_len =
     (let one_line = join '' '' (words_of (normalize_newlines txt)) in
      if int (length one_line) \<le> max_len then one_line
      else slice_to (max_len - 3) one_line @ ''...'')"

section \<open>The lines that are not blank\<close>

definition content :: "pystr \<Rightarrow> pystr list" where
  "content s = filter (\<lambda>l. l \<noteq> []) (map strip (split_on NL s))"

lemma split_on_append_sep: "split_on c (u @ c # v) = split_on c u @ split_on c v"
proof (induction u)
  case (Cons x u)
  then show ?case by (cases "split_on c u") auto
qed simp

lemma content_sep: "content (u @ NL # v) = content u @ content v"
  by (simp add: content_def split_on_append_sep)

lemma content_Nil [simp]: "content [] = []"
  by (simp add: content_def)

lemma strip_Cons_space: "is_space c \<Longrightarrow> strip (c # s) = strip s"
  by (simp add: strip_def lstrip_def)

lemma strip_snoc_space: "is_space c \<Longrightarrow> strip (s @ [c]) = strip s"
  by (cases "\<forall>x \<in> set s. is_space x")
    (auto simp: strip_def lstrip_def rstrip_def dropWhile_append dest: set_dropWhileD)

lemma content_Cons_space: "is_space c \<Longrightarrow> content (c # s) = content s"
proof (cases "c = NL")
  case True
  then show ?thesis using content_sep [of "[]" s] by simp
next
  case False
  assume c: "is_space c"
  obtain l ls where "split_on NL s = l # ls" by (cases "split_on NL s") auto
  then show ?thesis using False c by (simp add: content_def strip_Cons_space)
qed

lemma split_on_snoc:
  "x \<noteq> c \<Longrightarrow> split_on c (s @ [x]) = butlast (split_on c s) @ [last (split_on c s) @ [x]]"
proof (induction s)
  case (Cons y s)
  obtain l ls where "split_on c s = l # ls" by (cases "split_on c s") auto
  with Cons show ?case by (cases ls) auto
qed simp

lemma content_snoc_space: "is_space c \<Longrightarrow> content (s @ [c]) = content s"
proof (cases "c = NL")
  case True
  then show ?thesis using content_sep [of s "[]"] by simp
next
  case False
  assume c: "is_space c"
  have "map strip (split_on NL (s @ [c])) = map strip (split_on NL s)"
    using False c split_on_snoc [of c NL s]
    by (simp add: strip_snoc_space flip: map_butlast)
      (metis append_butlast_last_id map_append list.simps(8,9) split_on_not_Nil)
  then show ?thesis by (simp add: content_def)
qed

lemma content_space_append: "\<forall>c \<in> set u. is_space c \<Longrightarrow> content (u @ s) = content s"
  by (induction u) (auto simp: content_Cons_space)

lemma content_append_space: "\<forall>c \<in> set u. is_space c \<Longrightarrow> content (s @ u) = content s"
proof (induction u arbitrary: s)
  case (Cons c u)
  then have "content ((s @ [c]) @ u) = content (s @ [c])" by (intro Cons.IH) auto
  then show ?case using Cons.prems by (simp add: content_snoc_space)
qed simp

lemma content_strip [simp]: "content (strip s) = content s"
proof -
  obtain u v where s: "s = u @ strip s @ v" "\<forall>c \<in> set u. is_space c" "\<forall>c \<in> set v. is_space c"
    using strip_decomp by blast
  have "content s = content (u @ (strip s @ v))" using s(1) by simp
  also have "\<dots> = content (strip s @ v)" using s(2) by (rule content_space_append)
  also have "\<dots> = content (strip s)" using s(3) by (rule content_append_space)
  finally show ?thesis by simp
qed

lemma content_join:
  "(\<And>l. l \<in> set ls \<Longrightarrow> NL \<notin> set l) \<Longrightarrow> content (join [NL] ls) = filter (\<lambda>l. l \<noteq> []) (map strip ls)"
  by (cases "ls = []") (auto simp: content_def split_on_join)

lemma content_nonblank: "strip s = [] \<Longrightarrow> content s = []"
  using content_strip [of s] by simp

section \<open>Blocks\<close>

lemma set_rstrip: "set (rstrip s) \<subseteq> set s"
  using rstrip_prefix [of s] by (metis UnI1 set_append subsetI)

lemma strip_rstrip [simp]: "strip (rstrip s) = strip s"
proof -
  obtain w where w: "s = rstrip s @ w" "\<forall>c \<in> set w. is_space c" using rstrip_prefix by blast
  have "strip (t @ w) = strip t" for t using w(2)
  proof (induction w arbitrary: t)
    case (Cons c w)
    then have "strip ((t @ [c]) @ w) = strip (t @ [c])" by (intro Cons.IH) auto
    then show ?case using Cons.prems by (simp add: strip_snoc_space)
  qed simp
  then show ?thesis using w(1) by metis
qed

lemma content_flush:
  assumes "\<And>l. l \<in> set current \<Longrightarrow> NL \<notin> set l"
  shows "concat (map content (flush current)) = filter (\<lambda>l. l \<noteq> []) (map strip current)"
proof -
  have "content (join [NL] current) = filter (\<lambda>l. l \<noteq> []) (map strip current)"
    using assms by (rule content_join)
  then show ?thesis
    using content_nonblank [of "join [NL] current"] by (auto simp: flush_def Let_def)
qed

lemma content_split_lines:
  assumes "\<And>l. l \<in> set current \<Longrightarrow> NL \<notin> set l" and "\<And>l. l \<in> set ls \<Longrightarrow> NL \<notin> set l"
  shows "concat (map content (split_lines current depth ls))
       = filter (\<lambda>l. l \<noteq> []) (map strip (current @ ls))"
  using assms
proof (induction current depth ls rule: split_lines.induct)
  case (1 current depth)
  then show ?case by (simp add: content_flush)
next
  case (2 current depth raw_line rest)
  have nl: "NL \<notin> set (rstrip raw_line)" using 2(4) set_rstrip by fastforce
  show ?case
  proof (cases "starts_new_block current depth (strip (rstrip raw_line))")
    case True
    have "concat (map content (split_lines [rstrip raw_line]
        (proof_depth_after depth (strip (rstrip raw_line))) rest))
      = filter (\<lambda>l. l \<noteq> []) (map strip ([rstrip raw_line] @ rest))"
      using True nl 2(4) by (intro 2(1)) (auto simp: Let_def)
    then show ?thesis
      using True 2(3) by (simp add: Let_def content_flush)
  next
    case False
    have "concat (map content (split_lines (current @ [rstrip raw_line])
        (proof_depth_after depth (strip (rstrip raw_line))) rest))
      = filter (\<lambda>l. l \<noteq> []) (map strip ((current @ [rstrip raw_line]) @ rest))"
      using False nl 2(3,4) by (intro 2(2)) (auto simp: Let_def)
    then show ?thesis using False by (simp add: Let_def)
  qed
qed

lemma flush_blocks: "b \<in> set (flush c) \<Longrightarrow> b \<noteq> [] \<and> strip b = b"
  by (auto simp: flush_def Let_def split: if_splits)

lemma split_lines_blocks: "b \<in> set (split_lines c d ls) \<Longrightarrow> b \<noteq> [] \<and> strip b = b"
  by (induction c d ls rule: split_lines.induct) (auto simp: Let_def dest: flush_blocks split: if_splits)

section \<open>Chunks\<close>

lemma groups_of_concat: "0 < k \<Longrightarrow> concat (groups_of k xs) = xs"
  by (induction k xs rule: groups_of.induct) (subst groups_of.simps, auto)

lemma groups_of_length: "g \<in> set (groups_of k xs) \<Longrightarrow> length g \<le> k \<and> g \<noteq> [] \<and> set g \<subseteq> set xs"
proof (induction k xs rule: groups_of.induct)
  case (1 k xs)
  show ?case
  proof (cases "xs = [] \<or> k = 0")
    case True
    then show ?thesis using "1.prems" by (simp add: groups_of.simps)
  next
    case False
    then have "g = take k xs \<or> g \<in> set (groups_of k (drop k xs))"
      using "1.prems" by (subst (asm) groups_of.simps) auto
    then show ?thesis
      using False "1.IH" by (auto dest: in_set_takeD in_set_dropD)
  qed
qed

text \<open>What an expression built from character classes inside \<open>P\<close> reads lies in \<open>P\<close>.\<close>

fun over :: "(char \<Rightarrow> bool) \<Rightarrow> re \<Rightarrow> bool" where
  "over P (Chr Q) = (\<forall>c. Q c \<longrightarrow> P c)"
| "over P (Seq r q) = (over P r \<and> over P q)"
| "over P (Alt r q) = (over P r \<and> over P q)"
| "over P (Star r) = over P r"
| "over P (Lazy r) = over P r"
| "over P (Grp n r) = over P r"
| "over P _ = True"

definition reads_in :: "(char \<Rightarrow> bool) \<Rightarrow> cursor \<Rightarrow> cursor \<Rightarrow> bool" where
  "reads_in P c d = (\<exists>u. snd c = u @ snd d \<and> (\<forall>x \<in> set u. P x))"

lemma reads_in_refl [simp]: "reads_in P c c"
  by (simp add: reads_in_def)

lemma reads_in_trans:
  assumes "reads_in P c d" and "reads_in P d e"
  shows "reads_in P c e"
proof -
  obtain u where u: "snd c = u @ snd d" "\<forall>x \<in> set u. P x" using assms(1) by (auto simp: reads_in_def)
  obtain v where v: "snd d = v @ snd e" "\<forall>x \<in> set v. P x" using assms(2) by (auto simp: reads_in_def)
  have "snd c = (u @ v) @ snd e" "\<forall>x \<in> set (u @ v). P x" using u v by auto
  then show ?thesis unfolding reads_in_def by blast
qed

lemma iterate_reads_in:
  assumes "\<And>c g d h. (d, h) \<in> set (f c g) \<Longrightarrow> reads_in P c d"
  shows "(d, h) \<in> set (iterate n b f c g) \<Longrightarrow> reads_in P c d"
proof (induction n arbitrary: c g)
  case (Suc n)
  from Suc.prems consider "d = c" |
      d' h' where "(d', h') \<in> set (f c g)" "(d, h) \<in> set (iterate n b f d' h')"
    by (auto simp: Let_def split: if_splits)
  then show ?case
  proof cases
    case 2
    then show ?thesis using assms [OF 2(1)] Suc.IH [OF 2(2)] by (blast intro: reads_in_trans)
  qed simp
qed simp

lemma match_reads_in: "over P r \<Longrightarrow> (d, h) \<in> set (match_re r c g) \<Longrightarrow> reads_in P c d"
proof (induction r arbitrary: c g d h)
  case (Chr Q)
  then show ?case
    by (cases "snd c")
      (auto simp: next_is_def advance_def reads_in_def split: if_splits intro: exI [of _ "[_]"])
next
  case (Seq r q)
  then obtain d' h' where m: "(d', h') \<in> set (match_re r c g)" "(d, h) \<in> set (match_re q d' h')"
    by auto
  have "reads_in P c d'" by (rule Seq.IH(1) [OF _ m(1)]) (use Seq.prems in simp)
  moreover have "reads_in P d' d" by (rule Seq.IH(2) [OF _ m(2)]) (use Seq.prems in simp)
  ultimately show ?case by (rule reads_in_trans)
next
  case (Star r)
  then show ?case using iterate_reads_in [of "match_re r" P] by simp
next
  case (Lazy r)
  then show ?case using iterate_reads_in [of "match_re r" P] by simp
qed (auto split: if_splits)

lemma blank_lines_match:
  assumes "(b, g) \<in> set (match_re BLANK_LINES_RE a [])"
  shows "\<exists>w. snd a = NL # w @ snd b \<and> (\<forall>c \<in> set w. is_space c) \<and> length (snd b) < length (snd a)"
proof -
  let ?q = "Seq (Star (Chr is_space)) (Chr (\<lambda>c. c = NL))"
  define d where "d = advance a"
  have "next_is (\<lambda>c. c = NL) a"
    using assms by (cases "next_is (\<lambda>c. c = NL) a") (simp_all add: BLANK_LINES_RE_def)
  then have d: "snd a = NL # snd d" and eq: "match_re BLANK_LINES_RE a [] = match_re ?q d []"
    by (cases a; cases "snd a"; simp add: BLANK_LINES_RE_def d_def)+
  have "reads_in is_space d b"
    by (rule match_reads_in [where r = ?q and g = "[]"]) (use assms eq in \<open>auto simp: is_space_def\<close>)
  then obtain w where "snd d = w @ snd b" "\<forall>c \<in> set w. is_space c"
    by (auto simp: reads_in_def)
  then show ?thesis using d by auto
qed

lemma between_reads: "reads c d \<Longrightarrow> snd c = between c d @ snd d"
  by (auto simp: reads_def between_def)

lemma content_re_split_from:
  "length (snd c) < n \<Longrightarrow> concat (map content (re_split_from n BLANK_LINES_RE c)) = content (snd c)"
proof (induction n arbitrary: c)
  case (Suc n)
  show ?case
  proof (cases "search_from BLANK_LINES_RE c")
    case (Some x)
    then obtain a b g where hit: "search_from BLANK_LINES_RE c = Some (a, b, g)" by (cases x) auto
    have r: "reads c a" "reads a b" "(b, g) \<in> set (match_re BLANK_LINES_RE a [])"
      using search_from_reads [OF hit] by auto
    obtain w where w: "snd a = NL # w @ snd b" "\<forall>c \<in> set w. is_space c"
      and len: "length (snd b) < length (snd a)"
      using blank_lines_match [OF r(3)] by blast
    have ca: "snd c = between c a @ snd a" using r(1) by (rule between_reads)
    then have "length (snd a) \<le> length (snd c)" by (metis length_append le_add2)
    then have "concat (map content (re_split_from n BLANK_LINES_RE b)) = content (snd b)"
      using Suc len by simp
    then have "concat (map content (re_split_from (Suc n) BLANK_LINES_RE c))
        = content (between c a) @ content (snd b)"
      using hit by simp
    also have "\<dots> = content (between c a @ NL # (w @ snd b))"
      using w(2) by (simp add: content_sep content_space_append)
    also have "\<dots> = content (snd c)" using ca w(1) by metis
    finally show ?thesis .
  qed simp
qed simp

lemma content_filter_strip:
  "concat (map content (filter (\<lambda>p. p \<noteq> []) (map strip ps))) = concat (map content ps)"
  by (induction ps) (auto simp: content_nonblank)

lemma NL_split: "l \<in> set (split_on NL s) \<Longrightarrow> NL \<notin> set l"
  by (rule split_on_no_sep)

lemma content_groups:
  assumes "\<And>l. l \<in> set (concat gs) \<Longrightarrow> NL \<notin> set l"
  shows "concat (map content (filter (\<lambda>c. c \<noteq> []) (map (\<lambda>ls. strip (join [NL] ls)) gs)))
       = filter (\<lambda>l. l \<noteq> []) (map strip (concat gs))"
  using assms
proof (induction gs)
  case (Cons g gs)
  have "content (join [NL] g) = filter (\<lambda>l. l \<noteq> []) (map strip g)"
    using Cons.prems by (intro content_join) auto
  moreover have "strip (join [NL] g) = [] \<Longrightarrow> content (join [NL] g) = []"
    by (rule content_nonblank)
  ultimately show ?case using Cons by auto
qed simp

lemma content_paragraph_chunks:
  assumes "0 < max_lines" and "paragraph_chunks max_lines p = Some cs"
  shows "concat (map content cs) = content p"
proof (cases "int (length (split_on NL p)) \<le> max_lines")
  case False
  let ?gs = "groups_of (nat max_lines) (split_on NL p)"
  have gs: "concat ?gs = split_on NL p" using assms(1) by (simp add: groups_of_concat)
  have "cs = filter (\<lambda>c. c \<noteq> []) (map (\<lambda>ls. strip (join [NL] ls)) ?gs)"
    using False assms by (simp add: paragraph_chunks_def Let_def)
  then have "concat (map content cs) = filter (\<lambda>l. l \<noteq> []) (map strip (concat ?gs))"
    by (simp only:) (rule content_groups, simp only: gs, rule NL_split)
  then show ?thesis by (simp add: gs content_def)
next
  case True
  then have "cs = [p]" using assms by (simp add: paragraph_chunks_def)
  then show ?thesis by simp
qed

lemma all_chunks_total: "0 < max_lines \<Longrightarrow> \<exists>cs. all_chunks max_lines ps = Some cs"
  by (induction ps) (auto simp: paragraph_chunks_def Let_def)

lemma content_all_chunks:
  "0 < max_lines \<Longrightarrow> all_chunks max_lines ps = Some cs \<Longrightarrow> concat (map content cs) = concat (map content ps)"
  by (induction ps arbitrary: cs) (auto simp: content_paragraph_chunks split: option.splits)

text \<open>Joining and stripping a group of lines does not add a line.\<close>

lemma length_split_on_Cons: "length (split_on c s) \<le> length (split_on c (x # s))"
  by (cases "split_on c s") auto

lemma length_split_on_append: "length (split_on c s) \<le> length (split_on c (u @ s))"
proof (induction u)
  case (Cons x u)
  then show ?case using length_split_on_Cons [of c "u @ s" x] by simp
qed simp

lemma length_split_on_count: "length (split_on c s) = Suc (count_list s c)"
proof (induction s)
  case (Cons x s)
  then show ?case by (cases "split_on c s") auto
qed simp

lemma length_split_on_strip: "length (split_on c (strip s)) \<le> length (split_on c s)"
proof -
  obtain u v where "s = u @ strip s @ v" using strip_decomp by blast
  then have "count_list s c = count_list u c + count_list (strip s) c + count_list v c"
    by (metis add.assoc count_list_append)
  then show ?thesis by (simp add: length_split_on_count)
qed

lemma length_split_on_join:
  "ls \<noteq> [] \<Longrightarrow> (\<And>l. l \<in> set ls \<Longrightarrow> NL \<notin> set l) \<Longrightarrow> length (split_on NL (join [NL] ls)) = length ls"
  by (simp add: split_on_join)

lemma paragraph_chunks_bound:
  assumes "0 < max_lines" and "paragraph_chunks max_lines p = Some cs" and "c \<in> set cs"
  shows "int (length (split_on NL c)) \<le> max_lines"
proof (cases "int (length (split_on NL p)) \<le> max_lines")
  case False
  then obtain ls where ls: "ls \<in> set (groups_of (nat max_lines) (split_on NL p))"
    and c: "c = strip (join [NL] ls)"
    using assms by (auto simp: paragraph_chunks_def Let_def)
  have g: "length ls \<le> nat max_lines" "ls \<noteq> []" "set ls \<subseteq> set (split_on NL p)"
    using groups_of_length [OF ls] by auto
  have "length (split_on NL c) \<le> length (split_on NL (join [NL] ls))"
    using c by (simp add: length_split_on_strip)
  also have "\<dots> = length ls"
    using g by (intro length_split_on_join) (auto dest: NL_split)
  finally show ?thesis using g(1) assms(1) by linarith
next
  case True
  then have "cs = [p]" using assms by (simp add: paragraph_chunks_def)
  then show ?thesis using True assms(3) by simp
qed

lemma all_chunks_bound:
  "0 < max_lines \<Longrightarrow> all_chunks max_lines ps = Some cs \<Longrightarrow> c \<in> set cs
    \<Longrightarrow> int (length (split_on NL c)) \<le> max_lines"
proof (induction ps arbitrary: cs)
  case (Cons p ps)
  then show ?case by (auto split: option.splits dest: paragraph_chunks_bound)
qed simp

section \<open>Properties\<close>

text \<open>The blocks of a theory hold exactly its lines that are not blank, in order, up to
  indentation: splitting loses, duplicates and reorders nothing; and no block is empty.\<close>

theorem blocks_keep_lines:
  "concat (map content (split_theory_into_blocks txt)) = content (normalize_newlines txt)
   \<and> [] \<notin> set (split_theory_into_blocks txt)"
proof -
  let ?t = "strip (normalize_newlines txt)"
  have "concat (map content (split_lines [] 0 (split_on NL ?t)))
      = filter (\<lambda>l. l \<noteq> []) (map strip ([] @ split_on NL ?t))"
    by (rule content_split_lines) (auto dest: NL_split)
  then have "concat (map content (split_lines [] 0 (split_on NL ?t))) = content ?t"
    by (simp add: content_def)
  moreover have "[] \<notin> set (split_lines [] 0 (split_on NL ?t))"
    using split_lines_blocks by blast
  ultimately show ?thesis
    using content_nonblank [of "normalize_newlines txt"]
    by (auto simp: split_theory_into_blocks_def Let_def)
qed

text \<open>With a positive line bound, splitting a block returns chunks that each have at most
  that many lines and together hold exactly the block's lines that are not blank, in order.\<close>

theorem chunks_bounded_and_complete:
  assumes "0 < max_lines"
  shows "\<exists>chunks. split_block_into_chunks txt max_lines = Some chunks
    \<and> concat (map content chunks) = content (normalize_newlines txt)
    \<and> (\<forall>c \<in> set chunks. int (length (split_on NL c)) \<le> max_lines)"
proof -
  let ?t = "strip (normalize_newlines txt)"
  let ?ps = "filter (\<lambda>p. p \<noteq> []) (map strip (re_split BLANK_LINES_RE ?t))"
  obtain cs where cs: "all_chunks max_lines ?ps = Some cs" using all_chunks_total [OF assms] by blast
  have "concat (map content (re_split BLANK_LINES_RE ?t)) = content ?t"
    unfolding re_split_def start_of_def by (subst content_re_split_from) simp_all
  then have con: "concat (map content cs) = content (normalize_newlines txt)"
    using content_all_chunks [OF assms cs] by (simp add: content_filter_strip)
  show ?thesis
  proof (cases "?t = []")
    case True
    then show ?thesis using content_nonblank [of "normalize_newlines txt"]
      by (simp add: split_block_into_chunks_def Let_def)
  next
    case False
    have ne: "cs \<noteq> []"
    proof
      assume "cs = []"
      then have none: "content ?t = []" using con by simp
      obtain l where l: "l \<in> set (split_on NL ?t)" "strip l \<noteq> []"
      proof (rule ccontr)
        assume "\<not> thesis"
        then have "\<forall>l \<in> set (split_on NL ?t). \<forall>c \<in> set l. is_space c"
          using that by (auto simp flip: strip_empty_iff)
        moreover have "is_space NL" by (simp add: is_space_def)
        ultimately have "\<forall>c \<in> set (join [NL] (split_on NL ?t)). is_space c"
          using set_join [of _ "[NL]" "split_on NL ?t"] by fastforce
        then have "strip ?t = []" unfolding strip_empty_iff by simp
        then show False using False by simp
      qed
      then have "strip l \<in> set (content ?t)" by (auto simp: content_def)
      then show False using none by simp
    qed
    then show ?thesis using False cs con all_chunks_bound [OF assms cs]
      by (auto simp: split_block_into_chunks_def Let_def)
  qed
qed

theorem chunks_bounded_and_complete_witness:
  "\<exists>chunks. split_block_into_chunks (''a'' @ [NL] @ ''b'' @ [NL, NL] @ ''c'') 1 = Some chunks
     \<and> concat (map content chunks) = content (normalize_newlines (''a'' @ [NL] @ ''b'' @ [NL, NL] @ ''c''))"
  using chunks_bounded_and_complete [of 1 "''a'' @ [NL] @ ''b'' @ [NL, NL] @ ''c''"] by auto

text \<open>A preview with a bound of at least three characters is no longer than the bound and
  stays on one line.\<close>

theorem preview_bounded:
  assumes "3 \<le> max_len"
  shows "int (length (preview_text txt max_len)) \<le> max_len \<and> NL \<notin> set (preview_text txt max_len)"
proof -
  let ?l = "join '' '' (words_of (normalize_newlines txt))"
  have "NL \<notin> set ?l"
  proof
    assume "NL \<in> set ?l"
    then obtain w where w: "w \<in> set (words_of (normalize_newlines txt))" "NL \<in> set w"
      by (auto dest: set_join)
    show False using words_no_space [OF w] by (simp add: is_space_def)
  qed
  then show ?thesis
    using assms by (auto simp: preview_text_def Let_def slice_to_def dest: in_set_takeD)
qed

theorem preview_bounded_witness:
  "int (length (preview_text ''lemma foo: True by simp'' 10)) \<le> 10
   \<and> preview_text ''lemma foo: True by simp'' 10 = ''lemma f...''"
proof -
  have "preview_text ''lemma foo: True by simp'' 10 = ''lemma f...''" by code_simp
  then show ?thesis using preview_bounded [of 10 "''lemma foo: True by simp''"] by simp
qed

text \<open>Below three characters the bound does not hold: the slice then counts from the end.\<close>

lemma preview_small_bound: "preview_text ''abcdef'' 0 = ''abc...''"
  by code_simp

end
