(* ===== verification/Session_State.thy ===== *)
theory Session_State
  imports Threaded_Backend Success_Checker Theory_Parsing Theory_Chunks
begin

text \<open>
  A prover session (\<open>server/app/services/session.py\<close>, \<open>internal_models.py\<close>): its record, the call
  that reaches the prover through the worker thread, leases, the busy counter, the read-only
  queries and closing.

  The prover behind the Py4J gateway is not Python code: it is the parameter \<open>raw_api\<close>, one field
  per method the session calls. A method maps the prover's state to its outcome, the seconds until
  the worker has it, and the next state. When the caller waits less than that it gets a
  \<open>TimeoutError\<close>, and the job still runs to its end. \<open>clock\<close> gives the successive readings of
  \<open>time.time()\<close>. Logging is not modelled.
\<close>

section \<open>The prover and the session\<close>

type_synonym ('b, 'a) raw_fn = "'b \<Rightarrow> (exn + 'a) \<times> real \<times> 'b"

record 'b raw_api =
  clock :: "nat \<Rightarrow> real"
  command_default :: real
  py_repr :: "json \<Rightarrow> pystr"
  raw_step :: "pystr \<Rightarrow> ('b, repl_result option) raw_fn"
  raw_enter_thy :: "pystr \<Rightarrow> ('b, repl_result option) raw_fn"
  raw_reset :: "('b, repl_result option) raw_fn"
  raw_rollback :: "('b, repl_result option) raw_fn"
  raw_probe_transient :: "pystr \<Rightarrow> ('b, repl_result option) raw_fn"
  raw_get_source :: "('b, repl_result option) raw_fn"
  raw_open_subgoals :: "('b, pystr list) raw_fn"
  raw_local_facts :: "('b, pystr list) raw_fn"
  raw_global_facts :: "int \<Rightarrow> ('b, pystr list) raw_fn"
  raw_in_proof :: "('b, bool) raw_fn"
  raw_current_thy_name :: "('b, pystr) raw_fn"
  raw_save_state :: "('b, int) raw_fn"
  raw_restore_state :: "int \<Rightarrow> ('b, bool) raw_fn"
  raw_sledgehammer :: "int \<Rightarrow> ('b, pystr list option) raw_fn"
  raw_sledgehammer_at :: "int \<Rightarrow> int \<Rightarrow> int \<Rightarrow> ('b, reply) raw_fn"
  raw_command_at_line :: "int \<Rightarrow> ('b, reply) raw_fn"
  raw_goals_at_line :: "int \<Rightarrow> ('b, reply) raw_fn"
  raw_hover_at :: "int \<Rightarrow> int \<Rightarrow> ('b, reply) raw_fn"
  raw_definition_at :: "int \<Rightarrow> int \<Rightarrow> ('b, reply) raw_fn"
  raw_verify_chunk :: "pystr \<Rightarrow> int \<Rightarrow> ('b, reply) raw_fn"
  raw_step_chunk_report :: "pystr \<Rightarrow> int \<Rightarrow> bool \<Rightarrow> ('b, reply) raw_fn"
  raw_exit :: "('b, unit) raw_fn"

datatype session_status = ACTIVE | CLOSED

record history_entry =
  h_type :: "pystr option"
  h_command :: pystr
  h_timestamp :: real
  h_success :: bool
  h_subgoal_error :: "pystr option"
  h_subgoals_count :: nat

record chunk_report =
  cr_report :: json
  cr_execution_time :: real
  cr_timestamp :: real

record 'b session =
  session_id :: pystr
  theories :: "pystr list"
  loaded_theories :: "pystr list"
  dependency_key :: "pystr option"
  wrapper_theory :: "pystr option"
  session_field :: pystr
  created_at :: real
  last_activity :: real
  session_status :: session_status
  backend_name :: pystr
  backend_down :: bool
  raw :: 'b
  ticks :: nat
  command_history :: "history_entry list"
  checkpoints :: "int \<Rightarrow> real option"
  verified_theories :: "pystr list"
  last_chunk_report :: "chunk_report option"
  label :: "pystr option"
  task_group :: "pystr option"
  closed :: bool
  entered_thy :: pystr
  active_requests :: nat
  leased :: bool
  lease_id :: "pystr option"

text \<open>\<open>list(loaded_theories or session_theories)\<close>.\<close>

definition new_session :: "pystr \<Rightarrow> pystr list \<Rightarrow> pystr \<Rightarrow> pystr \<Rightarrow> 'b \<Rightarrow> pystr list option
    \<Rightarrow> pystr option \<Rightarrow> pystr option \<Rightarrow> pystr option \<Rightarrow> real \<Rightarrow> 'b session" where
  "new_session sid thys fld name b loaded key wrapper tgroup now =
     \<lparr>session_id = sid, theories = thys, loaded_theories = or_else loaded thys,
      dependency_key = key, wrapper_theory = wrapper, session_field = fld,
      created_at = now, last_activity = now, session_status = ACTIVE,
      backend_name = name, backend_down = False, raw = b, ticks = 0,
      command_history = [], checkpoints = (\<lambda>_. None), verified_theories = [],
      last_chunk_report = None, label = None, task_group = tgroup, closed = False,
      entered_thy = [], active_requests = 0, leased = False, lease_id = None\<rparr>"

section \<open>Calling the prover\<close>

type_synonym ('b, 'a) session_op = "('b session, 'a) py"

definition time_time :: "'b raw_api \<Rightarrow> ('b, real) session_op" where
  "time_time api s = (Inr (clock api (ticks s)), s\<lparr>ticks := Suc (ticks s)\<rparr>)"

text \<open>\<open>time.time() - start_time\<close>.\<close>

definition elapsed :: "'b raw_api \<Rightarrow> real \<Rightarrow> ('b, real) session_op" where
  "elapsed api start = andThen (time_time api) (\<lambda>t. ret (t - start))"

text \<open>\<open>self.backend.submit(fn)\<close> and \<open>fut.result(timeout=timeout)\<close>.\<close>

definition submit_and_wait :: "('b, 'a) raw_fn \<Rightarrow> real option \<Rightarrow> ('b, 'a) session_op" where
  "submit_and_wait fn timeout s =
     (if backend_down s then (Inl (rejected (backend_name s)), s)
      else case fn (raw s) of (r, seconds, b) \<Rightarrow>
        ((case timeout of
            None \<Rightarrow> r
          | Some t \<Rightarrow> if t < seconds then Inl (Exn C_TimeoutError []) else r),
         s\<lparr>raw := b\<rparr>))"

definition closed_in_flight :: "pystr \<Rightarrow> exn" where
  "closed_in_flight sid = session_error C_SessionNotFound
     (Some (''Session '' @ sid @ '' was closed while the request was in flight'')) None"

definition timed_out :: "real option \<Rightarrow> exn" where
  "timed_out timeout = (case timeout of
       Some t \<Rightarrow> Exn C_TimeoutError (''Backend call timed out after '' @ fmt_f1 t @ ''s'')
     | None \<Rightarrow> Exn C_TypeError ''unsupported format string passed to NoneType.__format__'')"

definition call_error :: "real option \<Rightarrow> pystr \<Rightarrow> exn \<Rightarrow> exn" where
  "call_error timeout sid e =
     (if isinstance e C_TimeoutError then timed_out timeout
      else if isinstance e C_RuntimeError
              \<and> (contains (str_of e) ''shutting down''
                 \<or> contains (str_of e) ''shut down before job executed'')
           then closed_in_flight sid
      else e)"

definition call_backend :: "('b, 'a) raw_fn \<Rightarrow> real option \<Rightarrow> ('b, 'a) session_op" where
  "call_backend fn timeout =
     catch (submit_and_wait fn timeout)
       (\<lambda>e. andThen (fetch session_id) (\<lambda>sid. throw (call_error timeout sid e)))"

section \<open>Activity, busy counter, leases\<close>

definition touch :: "real \<Rightarrow> 'b session \<Rightarrow> 'b session" where
  "touch now s = s\<lparr>last_activity := now\<rparr>"

definition update_activity :: "'b raw_api \<Rightarrow> ('b, unit) session_op" where
  "update_activity api = andThen (time_time api) (\<lambda>t. change (touch t))"

definition is_idle :: "real \<Rightarrow> real \<Rightarrow> 'b session \<Rightarrow> bool" where
  "is_idle timeout now s = (now - last_activity s > timeout)"

definition in_use :: "'b session \<Rightarrow> bool" where
  "in_use s = (0 < active_requests s)"

definition acquire_request :: "'b session \<Rightarrow> 'b session" where
  "acquire_request s = s\<lparr>active_requests := active_requests s + 1\<rparr>"

definition release_request :: "'b session \<Rightarrow> 'b session" where
  "release_request s = s\<lparr>active_requests := active_requests s - 1\<rparr>"

text \<open>The frame every busy operation shares: \<open>update_activity\<close>, \<open>_acquire_request\<close>, the start time, and
  \<open>_release_request\<close> in the \<open>finally\<close>.\<close>

definition with_request :: "'b raw_api \<Rightarrow> (real \<Rightarrow> ('b, 'a) session_op) \<Rightarrow> ('b, 'a) session_op" where
  "with_request api body =
     andThen (update_activity api) (\<lambda>_.
     andThen (change acquire_request) (\<lambda>_.
     ensure (andThen (time_time api) body) release_request))"

definition try_acquire_lease :: "real \<Rightarrow> pystr \<Rightarrow> 'b session \<Rightarrow> bool \<times> 'b session" where
  "try_acquire_lease now lid s =
     (if leased s then (False, s)
      else (True, touch now (s\<lparr>leased := True, lease_id := Some lid\<rparr>)))"

definition show_opt :: "pystr option \<Rightarrow> pystr" where
  "show_opt x = (case x of None \<Rightarrow> ''None'' | Some v \<Rightarrow> v)"

definition acquire_lease :: "real \<Rightarrow> pystr \<Rightarrow> ('b, unit) session_op" where
  "acquire_lease now lid s =
     (case try_acquire_lease now lid s of
        (True, s') \<Rightarrow> (Inr (), s')
      | (False, s') \<Rightarrow> (Inl (session_error C_SessionLeaseError (Some
          (''Session '' @ session_id s @ '' is already leased by '' @ show_opt (lease_id s))) None), s'))"

definition lease_error :: "pystr \<Rightarrow> exn" where
  "lease_error msg = session_error C_SessionLeaseError (Some msg) None"

definition require_lease :: "pystr option \<Rightarrow> 'b session \<Rightarrow> exn + unit" where
  "require_lease lid s =
     (if \<not> leased s \<or> \<not> truthy (lease_id s)
      then Inl (lease_error (''Session '' @ session_id s @ '' is not currently leased''))
      else if \<not> truthy lid then Inl (lease_error ''Missing lease token for leased session'')
      else if lease_id s \<noteq> lid
      then Inl (lease_error (''Invalid lease token for session '' @ session_id s))
      else Inr ())"

definition release_lease :: "real \<Rightarrow> 'b session \<Rightarrow> 'b session" where
  "release_lease now s = touch now (s\<lparr>leased := False, lease_id := None\<rparr>)"

section \<open>Steps and queries\<close>

definition step :: "'b raw_api \<Rightarrow> pystr \<Rightarrow> real option \<Rightarrow> ('b, repl_result option) session_op" where
  "step api command timeout =
     (if strip command = [] then ret None else call_backend (raw_step api command) timeout)"

definition open_subgoals :: "'b raw_api \<Rightarrow> real option \<Rightarrow> ('b, pystr list) session_op" where
  "open_subgoals api timeout =
     andThen (call_backend (raw_open_subgoals api) timeout) (\<lambda>gs. ret (map strip gs))"

definition local_facts :: "'b raw_api \<Rightarrow> real option \<Rightarrow> ('b, pystr list) session_op" where
  "local_facts api timeout = call_backend (raw_local_facts api) timeout"

definition global_facts :: "'b raw_api \<Rightarrow> int \<Rightarrow> real option \<Rightarrow> ('b, pystr list) session_op" where
  "global_facts api limit timeout = call_backend (raw_global_facts api limit) timeout"

definition in_proof :: "'b raw_api \<Rightarrow> real option \<Rightarrow> ('b, bool) session_op" where
  "in_proof api timeout = call_backend (raw_in_proof api) timeout"

definition proof_finished :: "'b raw_api \<Rightarrow> real option \<Rightarrow> ('b, bool) session_op" where
  "proof_finished api timeout = andThen (in_proof api timeout) (\<lambda>b. ret (\<not> b))"

definition get_source :: "'b raw_api \<Rightarrow> real option \<Rightarrow> ('b, repl_result option) session_op" where
  "get_source api timeout = call_backend (raw_get_source api) timeout"

definition not_found :: "pystr \<Rightarrow> json" where
  "not_found msg = JObj [(''found'', JBool False), (''error'', JStr msg)]"

definition tolerant_reply :: "reply \<Rightarrow> json" where
  "tolerant_reply r = (case r of
       NoReply \<Rightarrow> not_found ''empty backend reply''
     | BadReply \<Rightarrow> not_found ''unparseable backend reply''
     | Parsed j \<Rightarrow> j)"

definition tolerant_query :: "('b, reply) raw_fn \<Rightarrow> real option \<Rightarrow> ('b, json) session_op" where
  "tolerant_query fn timeout = andThen (call_backend fn timeout) (\<lambda>r. ret (tolerant_reply r))"

definition command_at_line :: "'b raw_api \<Rightarrow> int \<Rightarrow> real option \<Rightarrow> ('b, json) session_op" where
  "command_at_line api line timeout = tolerant_query (raw_command_at_line api line) timeout"

definition goals_at_line :: "'b raw_api \<Rightarrow> int \<Rightarrow> real option \<Rightarrow> ('b, json) session_op" where
  "goals_at_line api line timeout = tolerant_query (raw_goals_at_line api line) timeout"

definition hover_at :: "'b raw_api \<Rightarrow> int \<Rightarrow> int \<Rightarrow> real option \<Rightarrow> ('b, json) session_op" where
  "hover_at api line col timeout = tolerant_query (raw_hover_at api line col) timeout"

definition definition_at :: "'b raw_api \<Rightarrow> int \<Rightarrow> int \<Rightarrow> real option \<Rightarrow> ('b, json) session_op" where
  "definition_at api line col timeout = tolerant_query (raw_definition_at api line col) timeout"

text \<open>\<open>http_timeout or (timeout_s + grace)\<close>.\<close>

definition http_wait :: "real option \<Rightarrow> int \<Rightarrow> real \<Rightarrow> real option" where
  "http_wait http_timeout timeout_s grace =
     Some (case http_timeout of
             Some t \<Rightarrow> if t = 0 then of_int timeout_s + grace else t
           | None \<Rightarrow> of_int timeout_s + grace)"

definition sledgehammer_at :: "'b raw_api \<Rightarrow> int \<Rightarrow> int \<Rightarrow> int \<Rightarrow> real option
    \<Rightarrow> ('b, json) session_op" where
  "sledgehammer_at api line subgoal timeout_s http_timeout =
     andThen (update_activity api) (\<lambda>_.
     andThen (change acquire_request) (\<lambda>_.
     ensure (tolerant_query (raw_sledgehammer_at api line subgoal timeout_s)
               (http_wait http_timeout timeout_s 40))
       release_request))"

definition sledgehammer_methods :: "'b raw_api \<Rightarrow> int \<Rightarrow> real option \<Rightarrow> ('b, pystr list) session_op" where
  "sledgehammer_methods api timeout_s http_timeout =
     andThen (update_activity api) (\<lambda>_.
     andThen (change acquire_request) (\<lambda>_.
     ensure (andThen (call_backend (raw_sledgehammer api timeout_s) (http_wait http_timeout timeout_s 30))
               (\<lambda>r. ret (case r of None \<Rightarrow> [] | Some ms \<Rightarrow> ms)))
       release_request))"

definition current_thy :: "'b raw_api \<Rightarrow> ('b, pystr) session_op" where
  "current_thy api = call_backend (raw_current_thy_name api) None"

definition save_state :: "'b raw_api \<Rightarrow> real option \<Rightarrow> ('b, int) session_op" where
  "save_state api timeout = call_backend (raw_save_state api) timeout"

definition restore_state :: "'b raw_api \<Rightarrow> int \<Rightarrow> real option \<Rightarrow> ('b, bool) session_op" where
  "restore_state api state_id timeout = call_backend (raw_restore_state api state_id) timeout"

definition rollback :: "'b raw_api \<Rightarrow> real option \<Rightarrow> ('b, repl_result option) session_op" where
  "rollback api timeout = call_backend (raw_rollback api) timeout"

text \<open>\<open>ThreadedBackend.close\<close> as its session sees it: nothing is accepted any more, the prover has been
  asked to exit, and a failure of that call is only logged.\<close>

definition backend_close :: "'b raw_api \<Rightarrow> 'b session \<Rightarrow> 'b session" where
  "backend_close api s =
     (case raw_exit api (raw s) of (r, seconds, b) \<Rightarrow> s\<lparr>backend_down := True, raw := b\<rparr>)"

definition close :: "'b raw_api \<Rightarrow> 'b session \<Rightarrow> 'b session" where
  "close api s =
     (if closed s then s
      else (backend_close api s)\<lparr>closed := True, session_status := CLOSED\<rparr>)"

section \<open>Frames\<close>

lemma keeps_submit [frame]: "(\<And>s b. f (s\<lparr>raw := b\<rparr>) = f s) \<Longrightarrow> keeps f (submit_and_wait fn t)"
  by (simp add: keeps_def submit_and_wait_def split: prod.split)

lemma keeps_call [frame]: "(\<And>s b. f (s\<lparr>raw := b\<rparr>) = f s) \<Longrightarrow> keeps f (call_backend fn t)"
  unfolding call_backend_def by (intro frame)

lemma keeps_time [frame]: "(\<And>s n. f (s\<lparr>ticks := n\<rparr>) = f s) \<Longrightarrow> keeps f (time_time api)"
  by (simp add: keeps_def time_time_def)

lemma keeps_elapsed [frame]: "(\<And>s n. f (s\<lparr>ticks := n\<rparr>) = f s) \<Longrightarrow> keeps f (elapsed api t)"
  unfolding elapsed_def by (intro frame)

lemma keeps_step [frame]: "(\<And>s b. f (s\<lparr>raw := b\<rparr>) = f s) \<Longrightarrow> keeps f (step api c t)"
  unfolding step_def by (intro frame)

lemmas query_defs = open_subgoals_def local_facts_def global_facts_def in_proof_def proof_finished_def
  get_source_def tolerant_query_def command_at_line_def goals_at_line_def hover_at_def
  definition_at_def current_thy_def save_state_def restore_state_def rollback_def

lemma keeps_queries [frame]:
  assumes "\<And>s b. f (s\<lparr>raw := b\<rparr>) = f s"
  shows "keeps f (open_subgoals api t)" "keeps f (local_facts api t)" "keeps f (global_facts api n t)"
    "keeps f (in_proof api t)" "keeps f (proof_finished api t)" "keeps f (get_source api t)"
    "keeps f (tolerant_query fn t)" "keeps f (command_at_line api l t)" "keeps f (goals_at_line api l t)"
    "keeps f (hover_at api l c t)" "keeps f (definition_at api l c t)" "keeps f (current_thy api)"
    "keeps f (save_state api t)" "keeps f (restore_state api i t)" "keeps f (rollback api t)"
  unfolding query_defs by (auto intro!: frame assms)

lemma with_request_run:
  "with_request api body s =
     ensure (andThen (time_time api) body) release_request
       (acquire_request (touch (clock api (ticks s)) (s\<lparr>ticks := Suc (ticks s)\<rparr>)))"
  by (simp add: with_request_def andThen_def update_activity_def time_time_def)

lemma with_request_balanced [frame]:
  assumes "\<And>t. keeps active_requests (body t)"
  shows "keeps active_requests (with_request api body)"
  unfolding keeps_def
proof
  fix s
  have "keeps active_requests (andThen (time_time api) body)"
    by (intro frame assms) simp
  then show "active_requests (snd (with_request api body s)) = active_requests s"
    unfolding with_request_run
    by (subst ensure_restores [where f = active_requests and acq = acquire_request])
      (simp_all add: acquire_request_def release_request_def touch_def)
qed

definition busy_start :: "'b raw_api \<Rightarrow> 'b session \<Rightarrow> 'b session" where
  "busy_start api s =
     (acquire_request (touch (clock api (ticks s)) s))\<lparr>ticks := Suc (Suc (ticks s))\<rparr>"

lemma with_request_eq:
  "with_request api body s =
     (let (r, s') = body (clock api (Suc (ticks s))) (busy_start api s) in (r, release_request s'))"
  by (simp add: with_request_run busy_start_def ensure_def andThen_def time_time_def
      acquire_request_def touch_def)

lemma busy_frame [simp]:
  "command_history (busy_start api s) = command_history s"
  "checkpoints (busy_start api s) = checkpoints s"
  "verified_theories (busy_start api s) = verified_theories s"
  "last_chunk_report (busy_start api s) = last_chunk_report s"
  "entered_thy (busy_start api s) = entered_thy s"
  "raw (busy_start api s) = raw s"
  "backend_down (busy_start api s) = backend_down s"
  "session_id (busy_start api s) = session_id s"
  "command_history (release_request s) = command_history s"
  "checkpoints (release_request s) = checkpoints s"
  "verified_theories (release_request s) = verified_theories s"
  "last_chunk_report (release_request s) = last_chunk_report s"
  "entered_thy (release_request s) = entered_thy s"
  "raw (release_request s) = raw s"
  "backend_down (release_request s) = backend_down s"
  "session_id (release_request s) = session_id s"
  by (simp_all add: busy_start_def acquire_request_def release_request_def touch_def)

lemma busy_keeps [simp]:
  "command_history (touch t s) = command_history s" "checkpoints (touch t s) = checkpoints s"
  "verified_theories (touch t s) = verified_theories s"
  "last_chunk_report (touch t s) = last_chunk_report s" "entered_thy (touch t s) = entered_thy s"
  "raw (touch t s) = raw s" "active_requests (touch t s) = active_requests s"
  "leased (touch t s) = leased s" "lease_id (touch t s) = lease_id s"
  "command_history (acquire_request s) = command_history s"
  "checkpoints (acquire_request s) = checkpoints s"
  "verified_theories (acquire_request s) = verified_theories s"
  "last_chunk_report (acquire_request s) = last_chunk_report s"
  "entered_thy (acquire_request s) = entered_thy s" "raw (acquire_request s) = raw s"
  "leased (acquire_request s) = leased s" "lease_id (acquire_request s) = lease_id s"
  "leased (release_request s) = leased s" "lease_id (release_request s) = lease_id s"
  by (simp_all add: acquire_request_def release_request_def touch_def)

text \<open>What the frame of a busy operation changes on its own: activity, counter, clock readings.\<close>

lemma keeps_with_request [frame]:
  assumes "\<And>t. keeps f (body t)" and "\<And>s n. f (s\<lparr>ticks := n\<rparr>) = f s"
    and "\<And>s t. f (touch t s) = f s"
    and "\<And>s. f (acquire_request s) = f s" and "\<And>s. f (release_request s) = f s"
  shows "keeps f (with_request api body)"
  unfolding with_request_def update_activity_def by (intro frame assms)

lemma busy_sledgehammer [frame]:
  assumes "\<And>s b. f (s\<lparr>raw := b\<rparr>) = f s" and "\<And>s n. f (s\<lparr>ticks := n\<rparr>) = f s"
    and "\<And>s t. f (touch t s) = f s"
    and "\<And>s. f (acquire_request s) = f s" and "\<And>s. f (release_request s) = f s"
  shows "keeps f (sledgehammer_methods api n t)" "keeps f (sledgehammer_at api l g n t)"
  unfolding sledgehammer_methods_def sledgehammer_at_def update_activity_def tolerant_query_def
  by (intro frame assms)+

section \<open>A closed backend\<close>

lemma contains_mid: "contains (u @ w @ v) w"
  by (auto simp: contains_iff)

lemma rejected_is_closed:
  "call_error t sid (rejected name) = closed_in_flight sid"
  using contains_mid [of "''Backend '' @ name @ '' is ''" "''shutting down''" "[]"]
  by (simp add: call_error_def rejected_def mro_def)

lemma call_down: "backend_down s \<Longrightarrow> call_backend fn t s = (Inl (closed_in_flight (session_id s)), s)"
  by (simp add: call_backend_def catch_def submit_and_wait_def andThen_def rejected_is_closed)

lemma backend_down_close: "backend_down (close api s) \<longleftrightarrow> \<not> closed s \<or> backend_down s"
  by (simp add: close_def backend_close_def split: prod.split)

section \<open>Leases\<close>

text \<open>What a lease promises: while it is held nobody else gets it, only its token is permitted, and
  releasing it frees the session. \<open>'t\<close> is the time of the call.\<close>

locale leasable =
  fixes acquire :: "'t \<Rightarrow> pystr \<Rightarrow> 's \<Rightarrow> bool \<times> 's"
    and release :: "'t \<Rightarrow> 's \<Rightarrow> 's"
    and permits :: "pystr option \<Rightarrow> 's \<Rightarrow> bool"
  assumes acquire_permits: "acquire t l s = (True, s') \<Longrightarrow> permits x s' \<longleftrightarrow> x = Some l \<and> l \<noteq> []"
    and acquire_excludes: "acquire t l s = (True, s') \<Longrightarrow> \<not> fst (acquire u k s')"
    and refused_unchanged: "acquire t l s = (False, s') \<Longrightarrow> s' = s"
    and release_revokes: "\<not> permits x (release t s)"
    and release_frees: "fst (acquire t l (release u s))"
begin

primrec attempts :: "('t \<times> pystr) list \<Rightarrow> 's \<Rightarrow> 's" where
  "attempts [] s = s"
| "attempts (a # as) s = attempts as (snd (acquire (fst a) (snd a) s))"

lemma attempts_refused:
  assumes "acquire t l s = (True, s')"
  shows "attempts as s' = s'"
proof (induction as)
  case (Cons a as)
  obtain b r where r: "acquire (fst a) (snd a) s' = (b, r)" by force
  then have "\<not> b" using acquire_excludes [OF assms, of "fst a" "snd a"] by simp
  then have "r = s'" using refused_unchanged r by simp
  then show ?case using Cons r by simp
qed simp

lemma holder_keeps_lease:
  assumes "acquire t l s = (True, s')" and "l \<noteq> []"
  shows "permits x (attempts as s') \<longleftrightarrow> x = Some l"
  using assms acquire_permits attempts_refused by simp

end

lemma require_lease_ok: "require_lease lid s = Inr () \<longleftrightarrow> leased s \<and> truthy lid \<and> lease_id s = lid"
  by (auto simp: require_lease_def)

interpretation session_lease:
  leasable try_acquire_lease release_lease "\<lambda>lid s. require_lease lid s = Inr ()"
  by unfold_locales
    (auto simp: require_lease_ok try_acquire_lease_def release_lease_def touch_def split: if_splits)

section \<open>Properties\<close>

text \<open>Property C1: a lease is exclusive. Once a session is leased under a token, every later attempt to lease it
  is refused and changes nothing, whatever their number and times, and only that token is accepted; a
  released session accepts no token and can be leased again.\<close>

theorem lease_exclusive:
  assumes "\<not> leased s" and "lid \<noteq> []"
  shows "fst (try_acquire_lease now lid s)
    \<and> (let s' = snd (try_acquire_lease now lid s) in
       session_lease.attempts others s' = s'
       \<and> (require_lease token s' = Inr () \<longleftrightarrow> token = Some lid)
       \<and> (token \<noteq> Some lid \<longrightarrow> (\<exists>m. require_lease token s' = Inl (lease_error m)))
       \<and> require_lease token (release_lease later s') \<noteq> Inr ()
       \<and> fst (try_acquire_lease later lid' (release_lease later s')))"
proof -
  obtain s' where s': "try_acquire_lease now lid s = (True, s')"
    using assms(1) by (auto simp: try_acquire_lease_def)
  moreover have "token \<noteq> Some lid \<Longrightarrow> \<exists>m. require_lease token s' = Inl (lease_error m)"
    using s' by (auto simp: require_lease_def try_acquire_lease_def touch_def split: if_splits)
  ultimately show ?thesis
    using session_lease.attempts_refused [OF s'] session_lease.acquire_permits [OF s'] assms(2)
    by (simp add: Let_def session_lease.release_revokes session_lease.release_frees)
qed

text \<open>Property C7: a closed session never reaches the prover again. Closing asks the prover to exit once, closing
  twice changes nothing more, and afterwards every call answers \<open>SessionNotFound\<close> and leaves the
  session as it is; only an empty command, which asks nothing, still succeeds.\<close>

theorem closed_session_unreachable:
  assumes "\<not> closed s"
  shows "close api (close api s) = close api s
    \<and> raw (close api s) = snd (snd (raw_exit api (raw s)))
    \<and> call_backend fn timeout (close api s) = (Inl (closed_in_flight (session_id s)), close api s)
    \<and> step api command timeout (close api s) =
        ((if strip command = [] then Inr None else Inl (closed_in_flight (session_id s))), close api s)"
proof -
  have down: "backend_down (close api s)" using assms by (simp add: backend_down_close)
  have same: "session_id (close api s) = session_id s" "closed (close api s)"
    using assms by (simp_all add: close_def backend_close_def split: prod.split)
  have "raw (close api s) = snd (snd (raw_exit api (raw s)))"
    using assms by (simp add: close_def backend_close_def split: prod.split)
  moreover have "close api (close api s) = close api s"
    using same(2) by (simp add: close_def [of api "close api s"])
  ultimately show ?thesis
    using same by (simp add: step_def call_down [OF down])
qed

section \<open>Witnesses\<close>

text \<open>A prover that counts the calls it got and answers each at once.\<close>

definition quick :: "'a \<Rightarrow> (nat, 'a) raw_fn" where
  "quick v n = (Inr v, 0, n + 1)"

definition plain_result :: repl_result where
  "plain_result = \<lparr>rr_error = Inr None, rr_output = Inr (Some ''ok''), rr_total = Inr ''ok'', rr_str = Inr ''ok''\<rparr>"

definition demo_api :: "nat raw_api" where
  "demo_api = \<lparr>clock = of_nat, command_default = 30, py_repr = (\<lambda>_. []),
     raw_step = (\<lambda>_. quick (Some plain_result)), raw_enter_thy = (\<lambda>_. quick (Some plain_result)),
     raw_reset = quick (Some plain_result), raw_rollback = quick (Some plain_result),
     raw_probe_transient = (\<lambda>_. quick (Some plain_result)), raw_get_source = quick None,
     raw_open_subgoals = quick [], raw_local_facts = quick [], raw_global_facts = (\<lambda>_. quick []),
     raw_in_proof = quick False, raw_current_thy_name = quick ''Draft'', raw_save_state = quick 1,
     raw_restore_state = (\<lambda>_. quick True), raw_sledgehammer = (\<lambda>_. quick None),
     raw_sledgehammer_at = (\<lambda>_ _ _. quick NoReply), raw_command_at_line = (\<lambda>_. quick NoReply),
     raw_goals_at_line = (\<lambda>_. quick NoReply), raw_hover_at = (\<lambda>_ _. quick NoReply),
     raw_definition_at = (\<lambda>_ _. quick NoReply), raw_verify_chunk = (\<lambda>_ _. quick (Parsed (JObj []))),
     raw_step_chunk_report = (\<lambda>_ _ _. quick (Parsed (JObj [(''success'', JBool True)]))),
     raw_exit = quick ()\<rparr>"

definition demo_session :: "nat session" where
  "demo_session = new_session ''s1'' [''Main''] ''HOL'' ''w1'' 0 None None None None 0"

lemmas demo_defs = demo_api_def demo_session_def new_session_def quick_def plain_result_def

theorem lease_exclusive_witness:
  "fst (try_acquire_lease 1 ''t1'' demo_session)
   \<and> require_lease (Some ''t2'') (snd (try_acquire_lease 1 ''t1'' demo_session)) \<noteq> Inr ()"
proof -
  have "\<not> leased demo_session" by (simp add: demo_defs)
  from lease_exclusive [OF this, of "''t1''" 1 "[]" "Some ''t2''" 2 "''t3''"]
  show ?thesis by (simp add: Let_def)
qed

theorem closed_session_unreachable_witness:
  "raw (close demo_api demo_session) = 1
   \<and> fst (step demo_api ''lemma'' None (close demo_api demo_session))
       = Inl (closed_in_flight ''s1'')"
proof -
  have "\<not> closed demo_session" by (simp add: demo_defs)
  from closed_session_unreachable [OF this, of demo_api "raw_in_proof demo_api" None "''lemma''"]
  show ?thesis by (simp add: demo_defs strip_empty_iff is_space_def)
qed

end
