(* ===== verification/Session_Ops.thy ===== *)
theory Session_Ops
  imports Session_State
begin

text \<open>
  The operations of a session (\<open>server/app/services/session.py\<close>): entering a theory, loading a
  document, a command, a diagnostic, a chunk, the proof state and checkpoints. Each runs inside
  \<open>with_request\<close>, and its \<open>try\<close>/\<open>except\<close> blocks are the nested \<open>catch\<close>es.

  A result record that is built with a value of the wrong type (an error that is not text) is a
  validation error, a \<open>ValueError\<close>.
\<close>

section \<open>Results\<close>

record small_step_result =
  ss_success :: bool
  ss_output :: "pystr option"
  ss_error :: "pystr option"
  ss_subgoal_error :: "pystr option"
  ss_subgoals :: "pystr list"
  ss_execution_time :: real

record execution_error =
  ee_execution_time :: real
  ee_error :: pystr

record proof_state =
  ps_subgoals :: "pystr list"
  ps_proof_finished :: bool
  ps_pending_qed :: bool
  ps_current_theory :: pystr

record checkpoint_info =
  ci_checkpoint_id :: int
  ci_timestamp :: real

definition result_output :: "repl_result option \<Rightarrow> exn + pystr" where
  "result_output result =
     (case result of None \<Rightarrow> Inr []
      | Some r \<Rightarrow> (case rr_total r of Inr v \<Rightarrow> Inr v | Inl _ \<Rightarrow> rr_str r))"

text \<open>The outer \<open>except\<close> clauses of the operations: a typed error passes, any other exception becomes
  a \<open>SessionError\<close> with its class and text.\<close>

definition typed_errors :: "'b raw_api \<Rightarrow> real \<Rightarrow> ('b, 'a) session_op \<Rightarrow> ('b, 'a) session_op" where
  "typed_errors api start body =
     catch body (\<lambda>e.
       if isinstance e C_SessionError then throw e
       else andThen (elapsed api start)
         (\<lambda>_. throw (session_error C_SessionError None (Some (describe_exn e)))))"

definition preview_chars :: int where
  "preview_chars = 120"

section \<open>Entering a theory\<close>

definition enter_thy :: "'b raw_api \<Rightarrow> pystr \<Rightarrow> real option \<Rightarrow> pystr list option
    \<Rightarrow> ('b, repl_result option) session_op" where
  "enter_thy api thy_name timeout imports =
     andThen (change (\<lambda>s. s\<lparr>entered_thy := thy_name\<rparr>)) (\<lambda>_.
     andThen (call_backend (raw_enter_thy api thy_name) timeout) (\<lambda>result.
     if truthy imports then
       andThen (step api (build_theory_header thy_name imports) timeout) (\<lambda>hdr.
       if is_syntax_successful hdr then ret result
       else throw (session_error C_SessionError None
              (Some (''theory header failed: '' @ get_error_message hdr))))
     else ret result))"

definition reset_bookkeeping :: "'b session \<Rightarrow> 'b session" where
  "reset_bookkeeping s = s\<lparr>command_history := [], checkpoints := (\<lambda>_. None), verified_theories := [],
     entered_thy := [], last_chunk_report := None\<rparr>"

section \<open>A step with a report\<close>

definition ends_with_theory_end :: "pystr \<Rightarrow> bool" where
  "ends_with_theory_end txt =
     (let ls = filter (\<lambda>l. l \<noteq> []) (map strip (splitlines (strip txt))) in
      ls \<noteq> [] \<and> last ls = ''end'')"

text \<open>\<open>int(max(0.0, timeout) * 1000)\<close>.\<close>

definition budget_ms :: "real \<Rightarrow> int" where
  "budget_ms timeout = \<lfloor>max 0 timeout * 1000\<rfloor>"

definition parse_report :: "reply \<Rightarrow> json" where
  "parse_report r = (case r of
       NoReply \<Rightarrow> JObj []
     | BadReply \<Rightarrow> JObj [(''timed_out'', JBool False), (''commands'', JList []),
                       (''error'', JStr ''unparseable backend report'')]
     | Parsed j \<Rightarrow> j)"

text \<open>\<open>next((c.get("line") for c in commands if c.get("status") == "running"), None)\<close>.\<close>

fun running_line :: "json list \<Rightarrow> exn + json" where
  "running_line [] = Inr JNull"
| "running_line (c # cs) =
     onOk (dict_get ''status'' c) (\<lambda>st.
       if st = JStr ''running'' then dict_get ''line'' c else running_line cs)"

text \<open>\<open>next((m.get("text") for m in msgs if m.get("sev") == "error"), None)\<close>.\<close>

fun error_text :: "json list \<Rightarrow> exn + json" where
  "error_text [] = Inr JNull"
| "error_text (m # ms) =
     onOk (dict_get ''sev'' m) (\<lambda>sev.
       if sev = JStr ''error'' then dict_get ''text'' m else error_text ms)"

fun first_failure :: "(json \<Rightarrow> pystr) \<Rightarrow> json \<Rightarrow> json list \<Rightarrow> exn + json" where
  "first_failure rp dflt [] = Inr dflt"
| "first_failure rp dflt (c # cs) =
     onOk (dict_get ''messages'' c) (\<lambda>ms.
     onOk (py_iter (json_or ms (JList []))) (\<lambda>ms.
     onOk (error_text ms) (\<lambda>msg.
       if py_bool msg then
         onOk (dict_get ''line'' c)
           (\<lambda>line. Inr (JStr (''line '' @ show_json rp line @ '': '' @ show_json rp msg)))
       else first_failure rp dflt cs)))"

definition timeout_message :: "(json \<Rightarrow> pystr) \<Rightarrow> json list \<Rightarrow> exn + json" where
  "timeout_message rp cs =
     onOk (running_line cs) (\<lambda>stuck.
       Inr (JStr (if py_bool stuck
                  then ''timed out (still running at line '' @ show_json rp stuck @ '')''
                  else ''timed out'')))"

text \<open>What is read off a report: success and the error. The generators run only when their branch is
  reached.\<close>

definition judge_report :: "(json \<Rightarrow> pystr) \<Rightarrow> json \<Rightarrow> exn + bool \<times> json" where
  "judge_report rp report =
     onOk (dict_get_or ''commands'' (JList []) report) (\<lambda>cs.
     onOk (dict_get_or ''success'' (JBool False) report) (\<lambda>ok.
     onOk (dict_get ''error'' report) (\<lambda>err.
       if py_bool err \<or> py_bool ok then Inr (py_bool ok, err)
       else onOk (dict_get ''timed_out'' report) (\<lambda>late.
            onOk (py_iter (json_or cs (JList []))) (\<lambda>commands.
            onOk (if py_bool late then timeout_message rp commands
                  else first_failure rp err commands)
              (\<lambda>msg. Inr (False, msg)))))))"

definition step_with_report :: "'b raw_api \<Rightarrow> pystr \<Rightarrow> real \<Rightarrow> ('b, bool \<times> json \<times> pystr) session_op" where
  "step_with_report api txt timeout =
     andThen (time_time api) (\<lambda>start.
     andThen (call_backend (raw_step_chunk_report api txt (budget_ms timeout) (\<not> ends_with_theory_end txt))
                (Some (timeout + command_default api))) (\<lambda>reply.
     andThen (elapsed api start) (\<lambda>execution_time.
     andThen (change (\<lambda>s. s\<lparr>last_chunk_report := Some
        \<lparr>cr_report = parse_report reply, cr_execution_time = execution_time, cr_timestamp = start\<rparr>\<rparr>)) (\<lambda>_.
     andThen (from_result (judge_report (py_repr api) (parse_report reply)))
       (\<lambda>(success, err). ret (success, err, []))))))"

section \<open>Loading a document\<close>

definition document_name :: "pystr \<Rightarrow> pystr option \<Rightarrow> pystr list option \<Rightarrow> pystr option" where
  "document_name txt thy_name imports =
     (if \<not> truthy thy_name \<and> \<not> truthy imports
      then (case extract_theory_name txt of None \<Rightarrow> thy_name | Some n \<Rightarrow> Some n)
      else thy_name)"

text \<open>The em dash of the message is written as two hyphens.\<close>

definition no_theory_name :: exn where
  "no_theory_name = session_error C_SessionError None (Some
     (''load_document: could not determine theory name -- pass thy_name, or include a ''
      @ [CHR 0x27] @ ''theory ... imports ... begin'' @ [CHR 0x27] @ '' header in text''))"

text \<open>\<open>error=error_message if not success else None\<close>, checked by the result model.\<close>

definition as_error_text :: "json \<Rightarrow> exn + pystr option" where
  "as_error_text j = (case j of
       JNull \<Rightarrow> Inr None
     | JStr s \<Rightarrow> Inr (Some s)
     | _ \<Rightarrow> Inl (Exn C_ValueError ''validation error for SmallStepExecuteResult''))"

text \<open>The text as one edit, with or without a report.\<close>

definition issue_text :: "'b raw_api \<Rightarrow> pystr \<Rightarrow> real \<Rightarrow> bool \<Rightarrow> ('b, bool \<times> json \<times> pystr) session_op" where
  "issue_text api txt timeout report =
     (if report then step_with_report api txt timeout
      else andThen (step api txt (Some timeout)) (\<lambda>result.
           andThen (from_result (result_output result)) (\<lambda>out.
           ret (is_syntax_successful result, JStr (get_error_message result), out))))"

definition load_body :: "'b raw_api \<Rightarrow> pystr \<Rightarrow> pystr option \<Rightarrow> pystr list option \<Rightarrow> real \<Rightarrow> bool
    \<Rightarrow> real \<Rightarrow> ('b, bool \<times> json \<times> pystr \<times> real) session_op" where
  "load_body api txt thy_name imports timeout report start =
     typed_errors api start (
       andThen (call_backend (raw_reset api) (Some timeout)) (\<lambda>_.
       andThen (change reset_bookkeeping) (\<lambda>_.
       if \<not> truthy (document_name txt thy_name imports) then
         andThen (elapsed api start) (\<lambda>_. throw no_theory_name)
       else
         andThen (enter_thy api (or_else (document_name txt thy_name imports) []) (Some timeout) imports) (\<lambda>_.
         andThen (issue_text api txt timeout report) (\<lambda>(success, err, out).
         andThen (elapsed api start) (\<lambda>execution_time. ret (success, err, out, execution_time)))))))"

definition load_document :: "'b raw_api \<Rightarrow> pystr \<Rightarrow> pystr option \<Rightarrow> pystr list option \<Rightarrow> real \<Rightarrow> bool
    \<Rightarrow> ('b, small_step_result) session_op" where
  "load_document api txt thy_name imports timeout report =
     with_request api (\<lambda>start.
       andThen (load_body api txt thy_name imports timeout report start)
         (\<lambda>(success, err, out, execution_time).
       andThen (change (\<lambda>s. s\<lparr>command_history := command_history s @
         [\<lparr>h_type = Some ''document_load'', h_command = preview_text txt preview_chars,
           h_timestamp = start, h_success = success, h_subgoal_error = None, h_subgoals_count = 0\<rparr>]\<rparr>)) (\<lambda>_.
       andThen (from_result (as_error_text (if success then JNull else err))) (\<lambda>err.
       ret \<lparr>ss_success = success, ss_output = Some out, ss_error = err, ss_subgoal_error = None,
             ss_subgoals = [], ss_execution_time = execution_time\<rparr>))))"

section \<open>A command\<close>

definition THEORY_HEADER_RE :: re where
  "THEORY_HEADER_RE = seqs [word ''theory'', LazyPlus any_char, word ''imports'', LazyPlus any_char,
     word ''begin'']"

definition skips_subgoals :: "pystr \<Rightarrow> bool" where
  "skips_subgoals command =
     (command = ''end'' \<or> command = ''end'' @ [NL] \<or> search THEORY_HEADER_RE command \<noteq> None)"

text \<open>The subgoals after the command; a failed query is reported, not raised.\<close>

definition subgoals_after :: "'b raw_api \<Rightarrow> pystr \<Rightarrow> real
    \<Rightarrow> ('b, pystr list \<times> pystr option) session_op" where
  "subgoals_after api command timeout =
     (if skips_subgoals command then ret ([], None)
      else catch (andThen (open_subgoals api (Some timeout)) (\<lambda>gs. ret (gs, None)))
             (\<lambda>e. ret ([], Some (class_name (class_of e) @ '': '' @ str_of e))))"

definition run_command :: "'b raw_api \<Rightarrow> pystr \<Rightarrow> real \<Rightarrow> real
    \<Rightarrow> ('b, repl_result option \<times> real) session_op" where
  "run_command api command timeout start =
     typed_errors api start
       (andThen (step api command (Some timeout)) (\<lambda>result.
        andThen (elapsed api start) (\<lambda>execution_time. ret (result, execution_time))))"

definition execute_command :: "'b raw_api \<Rightarrow> pystr \<Rightarrow> real \<Rightarrow> ('b, small_step_result) session_op" where
  "execute_command api command timeout =
     with_request api (\<lambda>start.
       andThen (run_command api command timeout start) (\<lambda>(result, execution_time).
       catch
         (andThen (subgoals_after api command timeout) (\<lambda>(subgoals, subgoal_error).
          andThen (change (\<lambda>s. s\<lparr>command_history := command_history s @
            [\<lparr>h_type = Some ''small_step'', h_command = command, h_timestamp = start,
              h_success = is_syntax_successful result, h_subgoal_error = subgoal_error,
              h_subgoals_count = length subgoals\<rparr>]\<rparr>)) (\<lambda>_.
          andThen (from_result (result_output result)) (\<lambda>out.
          ret \<lparr>ss_success = is_syntax_successful result, ss_output = Some out,
                ss_error = (if is_syntax_successful result then None else Some (get_error_message result)),
                ss_subgoal_error = subgoal_error, ss_subgoals = subgoals,
                ss_execution_time = execution_time\<rparr>))))
         (\<lambda>e. andThen (elapsed api start)
            (\<lambda>_. throw (session_error C_SessionError None (Some (str_of e)))))))"

section \<open>Diagnostics and chunks\<close>

definition run_diagnostic :: "'b raw_api \<Rightarrow> pystr \<Rightarrow> real \<Rightarrow> ('b, small_step_result) session_op" where
  "run_diagnostic api command timeout =
     with_request api (\<lambda>start.
       andThen (typed_errors api start
         (andThen (call_backend (raw_probe_transient api command) (Some timeout)) (\<lambda>result.
          andThen (elapsed api start) (\<lambda>execution_time. ret (result, execution_time)))))
         (\<lambda>(result, execution_time).
       ret \<lparr>ss_success = is_syntax_successful result, ss_output = Some (get_output_message result),
             ss_error = (if is_syntax_successful result then None else Some (get_error_message result)),
             ss_subgoal_error = None, ss_subgoals = [], ss_execution_time = execution_time\<rparr>))"

text \<open>\<open>report.get\<close> in the final log line raises for a reply that is JSON but not an object.\<close>

definition verify_chunk :: "'b raw_api \<Rightarrow> pystr \<Rightarrow> real \<Rightarrow> ('b, json \<times> real) session_op" where
  "verify_chunk api chunk timeout =
     with_request api (\<lambda>start.
       andThen (typed_errors api start
         (andThen (call_backend (raw_verify_chunk api chunk (budget_ms timeout))
                     (Some (timeout + command_default api))) (\<lambda>reply.
          andThen (elapsed api start) (\<lambda>execution_time. ret (reply, execution_time)))))
         (\<lambda>(reply, execution_time).
       andThen (change (\<lambda>s. s\<lparr>last_chunk_report := Some
          \<lparr>cr_report = parse_report reply, cr_execution_time = execution_time, cr_timestamp = start\<rparr>\<rparr>)) (\<lambda>_.
       andThen (from_result (dict_get ''commands'' (parse_report reply))) (\<lambda>_.
       ret (parse_report reply, execution_time)))))"

section \<open>Proof state and checkpoints\<close>

definition get_proof_state :: "'b raw_api \<Rightarrow> real \<Rightarrow> ('b, execution_error + proof_state) session_op" where
  "get_proof_state api timeout =
     with_request api (\<lambda>start.
       catch
         (andThen (open_subgoals api (Some timeout)) (\<lambda>subgoals.
          andThen (in_proof api (Some timeout)) (\<lambda>block_open.
          andThen (current_thy api) (\<lambda>thy.
          ret (Inr \<lparr>ps_subgoals = subgoals, ps_proof_finished = (\<not> block_open),
                     ps_pending_qed = (block_open \<and> subgoals = []), ps_current_theory = thy\<rparr>)))))
         (\<lambda>e. andThen (elapsed api start) (\<lambda>t.
            ret (Inl \<lparr>ee_execution_time = t, ee_error = describe_exn e\<rparr>))))"

definition save_checkpoint :: "'b raw_api \<Rightarrow> real \<Rightarrow> ('b, execution_error + checkpoint_info) session_op" where
  "save_checkpoint api timeout =
     with_request api (\<lambda>start.
       catch
         (andThen (save_state api (Some timeout)) (\<lambda>cid.
          andThen (time_time api) (\<lambda>t.
          andThen (change (\<lambda>s. s\<lparr>checkpoints := (checkpoints s)(cid := Some t)\<rparr>)) (\<lambda>_.
          ret (Inr \<lparr>ci_checkpoint_id = cid, ci_timestamp = t\<rparr>)))))
         (\<lambda>e. andThen (elapsed api start) (\<lambda>t.
            ret (Inl \<lparr>ee_execution_time = t, ee_error = str_of e\<rparr>))))"

definition restore_checkpoint :: "'b raw_api \<Rightarrow> int \<Rightarrow> real \<Rightarrow> ('b, execution_error + bool) session_op" where
  "restore_checkpoint api cid timeout =
     with_request api (\<lambda>start.
       catch
         (andThen (fetch checkpoints) (\<lambda>saved.
          if saved cid = None then
            andThen (elapsed api start) (\<lambda>t.
              ret (Inl \<lparr>ee_execution_time = t,
                         ee_error = ''Checkpoint '' @ show_int cid @ '' not found''\<rparr>))
          else andThen (restore_state api cid (Some timeout)) (\<lambda>_. ret (Inr True))))
         (\<lambda>e. andThen (elapsed api start) (\<lambda>t.
            ret (Inl \<lparr>ee_execution_time = t, ee_error = str_of e\<rparr>))))"

section \<open>Frames of the operations\<close>

lemma keeps_typed_errors [frame]:
  "keeps f m \<Longrightarrow> (\<And>s n. f (s\<lparr>ticks := n\<rparr>) = f s) \<Longrightarrow> keeps f (typed_errors api start m)"
  unfolding typed_errors_def by (intro frame)

lemma typed_errors_raise [inv_intro]:
  "only_raises (\<lambda>e. isinstance e C_SessionError) (typed_errors api start m)"
  unfolding typed_errors_def
  by (intro inv_intro) (simp_all add: elapsed_def session_error_def mro_def only_raises_def
      time_time_def andThen_def)

lemma keeps_enter_thy [frame]:
  assumes "\<And>s b. f (s\<lparr>raw := b\<rparr>) = f s" and "\<And>s n. f (s\<lparr>entered_thy := n\<rparr>) = f s"
  shows "keeps f (enter_thy api nm t imps)"
  unfolding enter_thy_def by (intro frame assms)

lemma keeps_step_with_report [frame]:
  assumes "\<And>s b. f (s\<lparr>raw := b\<rparr>) = f s" and "\<And>s n. f (s\<lparr>ticks := n\<rparr>) = f s"
    and "\<And>s r. f (s\<lparr>last_chunk_report := r\<rparr>) = f s"
  shows "keeps f (step_with_report api txt t)"
  unfolding step_with_report_def by (intro frame assms)

lemma keeps_issue_text [frame]:
  assumes "\<And>s b. f (s\<lparr>raw := b\<rparr>) = f s" and "\<And>s n. f (s\<lparr>ticks := n\<rparr>) = f s"
    and "\<And>s r. f (s\<lparr>last_chunk_report := r\<rparr>) = f s"
  shows "keeps f (issue_text api txt t rp)"
  unfolding issue_text_def by (intro frame assms)

lemma keeps_subgoals_after [frame]:
  "(\<And>s b. f (s\<lparr>raw := b\<rparr>) = f s) \<Longrightarrow> keeps f (subgoals_after api c t)"
  unfolding subgoals_after_def by (intro frame)

lemma keeps_run_command [frame]:
  assumes "\<And>s b. f (s\<lparr>raw := b\<rparr>) = f s" and "\<And>s n. f (s\<lparr>ticks := n\<rparr>) = f s"
  shows "keeps f (run_command api c t start)"
  unfolding run_command_def by (intro frame assms)

lemma counter_of_reset [simp]: "active_requests (reset_bookkeeping s) = active_requests s"
  by (simp add: reset_bookkeeping_def)

lemma balanced_load [frame]: "keeps active_requests (load_document api txt nm imps t rp)"
  unfolding load_document_def load_body_def by (intro frame; simp)

lemma balanced_execute [frame]: "keeps active_requests (execute_command api c t)"
  unfolding execute_command_def by (intro frame; simp)

lemma balanced_others [frame]:
  "keeps active_requests (run_diagnostic api c t)" "keeps active_requests (verify_chunk api c t)"
  "keeps active_requests (get_proof_state api t)" "keeps active_requests (save_checkpoint api t)"
  "keeps active_requests (restore_checkpoint api i t)"
  unfolding run_diagnostic_def verify_chunk_def get_proof_state_def save_checkpoint_def
    restore_checkpoint_def
  by ((intro frame; simp)+)

lemma balanced_bracket:
  fixes m :: "('b, 'a) session_op" and api :: "'b raw_api"
  assumes "keeps active_requests m"
  shows "keeps active_requests (andThen (update_activity api) (\<lambda>_.
           andThen (change acquire_request) (\<lambda>_. ensure m release_request)))"
  unfolding keeps_def
proof
  fix s :: "'b session"
  let ?s = "touch (clock api (ticks s)) (s\<lparr>ticks := Suc (ticks s)\<rparr>)"
  have "active_requests (snd (ensure m release_request (acquire_request ?s))) = active_requests ?s"
    using assms by (rule ensure_restores) (simp add: acquire_request_def release_request_def)
  then show "active_requests (snd (andThen (update_activity api) (\<lambda>_.
      andThen (change acquire_request) (\<lambda>_. ensure m release_request)) s)) = active_requests s"
    by (simp add: andThen_def update_activity_def time_time_def)
qed

lemma balanced_sledgehammer [frame]:
  "keeps active_requests (sledgehammer_methods api n t)"
  "keeps active_requests (sledgehammer_at api l g n t)"
  unfolding sledgehammer_methods_def sledgehammer_at_def
  by (intro balanced_bracket frame; simp)+

section \<open>What a command does\<close>

lemma subgoals_after_ok: "\<exists>gs err. fst (subgoals_after api c t s) = Inr (gs, err)"
  by (auto simp: subgoals_after_def catch_def andThen_def split: prod.split sum.split)

lemma run_command_error:
  "run_command api c t start s = (Inl e, s') \<Longrightarrow> isinstance e C_SessionError"
  using typed_errors_raise [of api start] unfolding run_command_def only_raises_def by blast

definition command_entry :: "pystr \<Rightarrow> real \<Rightarrow> bool \<Rightarrow> pystr option \<Rightarrow> nat \<Rightarrow> history_entry" where
  "command_entry command start ok err n =
     \<lparr>h_type = Some ''small_step'', h_command = command, h_timestamp = start, h_success = ok,
      h_subgoal_error = err, h_subgoals_count = n\<rparr>"

lemma elapsed_run: "\<exists>t n. elapsed api start s = (Inr t, s\<lparr>ticks := n\<rparr>)"
  by (auto simp: elapsed_def andThen_def time_time_def)

lemma execute_command_outcome:
  assumes "execute_command api command timeout s = (r, s')"
  shows "(\<exists>v start. r = Inr v
      \<and> (ss_error v = None \<longleftrightarrow> ss_success v)
      \<and> command_history s' = command_history s
          @ [command_entry command start (ss_success v) (ss_subgoal_error v) (length (ss_subgoals v))])
    \<or> (\<exists>e. r = Inl e \<and> isinstance e C_SessionError
        \<and> (command_history s' = command_history s
           \<or> (\<exists>start ok err n. command_history s' = command_history s @ [command_entry command start ok err n])))"
proof -
  define start where "start = clock api (Suc (ticks s))"
  obtain r1 s1 where 1: "run_command api command timeout start (busy_start api s) = (r1, s1)" by force
  have h1: "command_history s1 = command_history s"
    using keepsD [OF keeps_run_command 1, of command_history] by simp
  show ?thesis
  proof (cases r1)
    case (Inl e)
    then have "r = Inl e" "s' = release_request s1"
      using assms 1 by (simp_all add: execute_command_def with_request_eq start_def andThen_def)
    then show ?thesis using h1 run_command_error 1 Inl by simp
  next
    case (Inr v1)
    obtain result et where v1: "v1 = (result, et)" by force
    obtain gs err s2 where 2: "subgoals_after api command timeout s1 = (Inr (gs, err), s2)"
      using subgoals_after_ok by (metis prod.collapse)
    have h2: "command_history s2 = command_history s"
      using keepsD [OF keeps_subgoals_after 2, of command_history] h1 by simp
    let ?entry = "command_entry command start (is_syntax_successful result) err (length gs)"
    let ?s3 = "s2\<lparr>command_history := command_history s2 @ [?entry]\<rparr>"
    obtain t n where t: "elapsed api start ?s3 = (Inr t, ?s3\<lparr>ticks := n\<rparr>)"
      using elapsed_run by blast
    note run = assms [unfolded execute_command_def with_request_eq start_def [symmetric]]
    show ?thesis
    proof (cases "result_output result")
      case (Inl e)
      then have "r = Inl (session_error C_SessionError None (Some (str_of e)))"
        and "s' = release_request (?s3\<lparr>ticks := n\<rparr>)"
        using run 1 2 t \<open>r1 = Inr v1\<close> v1
        by (simp_all add: andThen_def catch_def command_entry_def)
      then show ?thesis using h2 by (auto simp: session_error_def mro_def)
    next
      case (Inr out)
      then have "s' = release_request ?s3"
        and "r = Inr \<lparr>ss_success = is_syntax_successful result, ss_output = Some out,
               ss_error = (if is_syntax_successful result then None else Some (get_error_message result)),
               ss_subgoal_error = err, ss_subgoals = gs, ss_execution_time = et\<rparr>"
        using run 1 2 \<open>r1 = Inr v1\<close> v1 by (simp_all add: andThen_def catch_def command_entry_def)
      then show ?thesis using h2 by auto
    qed
  qed
qed

section \<open>What loading a document leaves\<close>

lemma yields_typed_errors: "yields P m Q \<Longrightarrow> yields P (typed_errors api start m) Q"
  by (fastforce simp: yields_def typed_errors_def catch_def andThen_def split: prod.splits sum.splits if_splits)

definition fresh :: "'b session \<Rightarrow> bool" where
  "fresh s \<longleftrightarrow> command_history s = [] \<and> checkpoints s = (\<lambda>_. None) \<and> verified_theories s = []
     \<and> last_chunk_report s = None"

definition loaded :: "pystr \<Rightarrow> bool \<Rightarrow> 'b session \<Rightarrow> bool" where
  "loaded nm rp s \<longleftrightarrow> checkpoints s = (\<lambda>_. None) \<and> verified_theories s = [] \<and> entered_thy s = nm
     \<and> (last_chunk_report s \<noteq> None \<longleftrightarrow> rp)"

lemma enter_thy_yields:
  "yields fresh (enter_thy api nm t imps) (\<lambda>_ s. fresh s \<and> entered_thy s = nm)"
  unfolding enter_thy_def
proof (rule yields_andThen)
  let ?P = "\<lambda>s. fresh s \<and> entered_thy s = nm"
  show "yields fresh (change (\<lambda>s. s\<lparr>entered_thy := nm\<rparr>)) (\<lambda>_. ?P)"
    by (rule yields_change) (simp add: fresh_def)
  show "yields ?P (andThen (call_backend (raw_enter_thy api nm) t) (\<lambda>result.
      if truthy imps then andThen (step api (build_theory_header nm imps) t) (\<lambda>hdr.
        if is_syntax_successful hdr then ret result
        else throw (session_error C_SessionError None
               (Some (''theory header failed: '' @ get_error_message hdr))))
      else ret result)) (\<lambda>_. ?P)"
    by (intro yields_of_preserves preserves_of_keeps frame; simp add: fresh_def)
qed

lemma step_with_report_yields:
  "yields (\<lambda>s. fresh s \<and> entered_thy s = nm) (step_with_report api txt t)
     (\<lambda>_ s. loaded nm True s \<and> command_history s = [])"
  unfolding step_with_report_def
  by (intro yields_andThen [where R = "\<lambda>_ s. fresh s \<and> entered_thy s = nm"]
        yields_andThen [where R = "\<lambda>_ s. loaded nm True s \<and> command_history s = []"]
        yields_prod yields_ret yields_change)
    ((intro yields_of_preserves preserves_of_keeps frame; simp add: fresh_def loaded_def)
      | simp add: fresh_def loaded_def)+

lemma issue_text_yields:
  "yields (\<lambda>s. fresh s \<and> entered_thy s = nm) (issue_text api txt t rp)
     (\<lambda>_ s. loaded nm rp s \<and> command_history s = [])"
proof (cases rp)
  case True
  then show ?thesis using step_with_report_yields by (simp add: issue_text_def)
next
  case False
  have "keeps (\<lambda>s. fresh s \<and> entered_thy s = nm) (issue_text api txt t False)"
    unfolding issue_text_def by (simp, intro frame; simp add: fresh_def)
  then have "yields (\<lambda>s. fresh s \<and> entered_thy s = nm) (issue_text api txt t False)
      (\<lambda>_ s. fresh s \<and> entered_thy s = nm)"
    by (intro yields_of_preserves preserves_of_keeps)
  then show ?thesis using False by (auto simp: fresh_def loaded_def elim: yields_weaken)
qed

lemma yields_elapsed:
  "(\<And>s n. P (s\<lparr>ticks := n\<rparr>) = P s) \<Longrightarrow> yields P (elapsed api start) (\<lambda>_. P)"
  by (intro yields_of_preserves preserves_of_keeps frame)

lemma enter_and_issue_yields:
  "yields fresh (andThen (enter_thy api nm (Some t) imps) (\<lambda>_.
      andThen (issue_text api txt t rp) (\<lambda>(success, err, out).
      andThen (elapsed api start) (\<lambda>execution_time. ret (success, err, out, execution_time)))))
     (\<lambda>_ s. loaded nm rp s \<and> command_history s = [])"
proof (rule yields_andThen [OF enter_thy_yields], rule yields_andThen [OF issue_text_yields],
    intro yields_prod)
  fix success :: bool and err :: json and out :: pystr
  show "yields (\<lambda>s. loaded nm rp s \<and> command_history s = [])
      (andThen (elapsed api start) (\<lambda>execution_time. ret (success, err, out, execution_time)))
      (\<lambda>_ s. loaded nm rp s \<and> command_history s = [])"
    by (rule yields_andThen [OF yields_elapsed]) (auto simp: loaded_def intro: yields_ret)
qed

lemma load_body_yields:
  "yields (\<lambda>_. True) (load_body api txt nm imps t rp start)
     (\<lambda>_ s. loaded (or_else (document_name txt nm imps) []) rp s \<and> command_history s = [])"
  unfolding load_body_def
proof (rule yields_typed_errors, rule yields_andThen [where R = "\<lambda>_ _. True"], simp add: yields_def,
    rule yields_andThen [where R = "\<lambda>_. fresh"])
  show "yields (\<lambda>_. True) (change reset_bookkeeping) (\<lambda>_. fresh)"
    by (rule yields_change) (simp add: reset_bookkeeping_def fresh_def)
qed (intro yields_if enter_and_issue_yields
      yields_andThen [where R = "\<lambda>_ _. True"] yields_throw, simp add: yields_def)

lemma load_document_yields:
  "yields (\<lambda>_. True) (load_document api txt nm imps t rp)
     (\<lambda>v s. loaded (or_else (document_name txt nm imps) []) rp s
        \<and> (\<exists>start. command_history s =
             [\<lparr>h_type = Some ''document_load'', h_command = preview_text txt preview_chars,
               h_timestamp = start, h_success = ss_success v, h_subgoal_error = None,
               h_subgoals_count = 0\<rparr>])
        \<and> (ss_success v \<longrightarrow> ss_error v = None))"
  unfolding yields_def
proof (intro allI impI, elim conjE)
  let ?nm = "or_else (document_name txt nm imps) []"
  fix s :: "'a session" and v s'
  define start where "start = clock api (Suc (ticks s))"
  assume run: "load_document api txt nm imps t rp s = (Inr v, s')"
  obtain r1 s1 where 1: "load_body api txt nm imps t rp start (busy_start api s) = (r1, s1)" by force
  then obtain ok err out et where r1: "r1 = Inr (ok, err, out, et)"
    using run by (cases r1) (auto simp: load_document_def with_request_eq andThen_def start_def)
  then have *: "loaded ?nm rp s1" "command_history s1 = []"
    using yieldsD [OF load_body_yields TrueI 1 [unfolded r1]] by auto
  obtain e where "as_error_text (if ok then JNull else err) = Inr e"
    and "v = \<lparr>ss_success = ok, ss_output = Some out, ss_error = e, ss_subgoal_error = None,
      ss_subgoals = [], ss_execution_time = et\<rparr>"
    and "s' = release_request (s1\<lparr>command_history := command_history s1 @
      [\<lparr>h_type = Some ''document_load'', h_command = preview_text txt preview_chars,
        h_timestamp = start, h_success = ok, h_subgoal_error = None, h_subgoals_count = 0\<rparr>]\<rparr>)"
    using run 1 r1
    by (cases "as_error_text (if ok then JNull else err)")
      (auto simp: load_document_def with_request_eq andThen_def start_def)
  then show "loaded ?nm rp s' \<and> (\<exists>start. command_history s' =
             [\<lparr>h_type = Some ''document_load'', h_command = preview_text txt preview_chars,
               h_timestamp = start, h_success = ss_success v, h_subgoal_error = None,
               h_subgoals_count = 0\<rparr>])
        \<and> (ss_success v \<longrightarrow> ss_error v = None)"
    using * by (auto simp: loaded_def as_error_text_def)
qed

lemma load_document_error:
  assumes "load_document api txt nm imps t rp s = (Inl e, s')"
  shows "isinstance e C_SessionError \<or> class_of e = C_ValueError"
proof -
  define start where "start = clock api (Suc (ticks s))"
  obtain r1 s1 where 1: "load_body api txt nm imps t rp start (busy_start api s) = (r1, s1)" by force
  have raises: "only_raises (\<lambda>e. isinstance e C_SessionError) (load_body api txt nm imps t rp start)"
    unfolding load_body_def by (rule typed_errors_raise)
  show ?thesis
  proof (cases r1)
    case (Inl e1)
    then have "e = e1" using assms 1 by (simp add: load_document_def with_request_eq andThen_def start_def)
    then show ?thesis using raises 1 Inl by (auto simp: only_raises_def)
  next
    case (Inr v)
    then show ?thesis using assms 1
      by (cases v; cases "as_error_text (if fst v then JNull else fst (snd v))")
        (auto simp: load_document_def with_request_eq andThen_def start_def as_error_text_def
          split: if_splits json.splits)
  qed
qed

section \<open>Checkpoints and read-only operations\<close>

definition bookkeeping :: "'b session \<Rightarrow> history_entry list \<times> (int \<Rightarrow> real option) \<times> pystr list
    \<times> chunk_report option \<times> pystr" where
  "bookkeeping s = (command_history s, checkpoints s, verified_theories s, last_chunk_report s, entered_thy s)"

lemma bookkeeping_frame [simp]:
  "bookkeeping (s\<lparr>raw := b\<rparr>) = bookkeeping s" "bookkeeping (s\<lparr>ticks := n\<rparr>) = bookkeeping s"
  "bookkeeping (touch now s) = bookkeeping s" "bookkeeping (acquire_request s) = bookkeeping s"
  "bookkeeping (release_request s) = bookkeeping s"
  by (simp_all add: bookkeeping_def)

lemma keeps_bookkeeping [frame]:
  "keeps bookkeeping (run_diagnostic api c t)" "keeps bookkeeping (get_proof_state api t)"
  "keeps bookkeeping (restore_checkpoint api i t)" "keeps bookkeeping (sledgehammer_methods api n ht)"
  "keeps bookkeeping (sledgehammer_at api l g n ht)"
  unfolding run_diagnostic_def get_proof_state_def restore_checkpoint_def
  by ((intro frame; simp)+)

lemma call_up:
  "\<not> backend_down s \<Longrightarrow> raw (snd (call_backend fn t s)) = snd (snd (fn (raw s)))"
  by (auto simp: call_backend_def catch_def submit_and_wait_def andThen_def
      split: prod.split sum.split option.split)

lemma restore_unsaved:
  "checkpoints s cid = None \<Longrightarrow>
     raw (final (restore_checkpoint api cid t) s) = raw s
     \<and> (\<exists>et. outcome (restore_checkpoint api cid t) s =
          Inr (Inl \<lparr>ee_execution_time = et, ee_error = ''Checkpoint '' @ show_int cid @ '' not found''\<rparr>))"
  by (simp add: restore_checkpoint_def with_request_eq final_def outcome_def catch_def andThen_def
      elapsed_def time_time_def)

lemma restore_saved:
  assumes "checkpoints s cid \<noteq> None" and "\<not> backend_down s"
  shows "raw (final (restore_checkpoint api cid t) s) = snd (snd (raw_restore_state api cid (raw s)))"
proof -
  obtain r s1 where 1: "call_backend (raw_restore_state api cid) (Some t) (busy_start api s) = (r, s1)"
    by force
  then have "raw s1 = snd (snd (raw_restore_state api cid (raw s)))"
    using call_up [of "busy_start api s" "raw_restore_state api cid" "Some t"] assms(2) by simp
  then show ?thesis
    using assms(1) 1
    by (auto simp: restore_checkpoint_def with_request_eq final_def catch_def andThen_def
        elapsed_def time_time_def restore_state_def split: sum.split)
qed

lemma save_checkpoint_yields:
  "case save_checkpoint api t s of
     (Inr (Inr ci), s') \<Rightarrow> checkpoints s' = (checkpoints s)(ci_checkpoint_id ci := Some (ci_timestamp ci))
   | (Inr (Inl ee), s') \<Rightarrow> checkpoints s' = checkpoints s
   | (Inl e, s') \<Rightarrow> False"
proof -
  obtain r s1 where 1: "call_backend (raw_save_state api) (Some t) (busy_start api s) = (r, s1)" by force
  then have "checkpoints s1 = checkpoints s"
    using keepsD [OF keeps_call 1, of checkpoints] by simp
  then show ?thesis
    using 1 by (auto simp: save_checkpoint_def with_request_eq catch_def andThen_def
        elapsed_def time_time_def save_state_def split: sum.split)
qed

lemma verify_chunk_outcome:
  assumes "verify_chunk api chunk t s = (r, s')"
  shows "command_history s' = command_history s \<and> checkpoints s' = checkpoints s
    \<and> verified_theories s' = verified_theories s \<and> entered_thy s' = entered_thy s
    \<and> (\<forall>report et. r = Inr (report, et) \<longrightarrow> (\<exists>start. last_chunk_report s' =
         Some \<lparr>cr_report = report, cr_execution_time = et, cr_timestamp = start\<rparr>))"
proof -
  have "keeps command_history (verify_chunk api chunk t)" "keeps checkpoints (verify_chunk api chunk t)"
    "keeps verified_theories (verify_chunk api chunk t)" "keeps entered_thy (verify_chunk api chunk t)"
    unfolding verify_chunk_def by ((intro frame; simp)+)
  then have kept: "command_history s' = command_history s \<and> checkpoints s' = checkpoints s
    \<and> verified_theories s' = verified_theories s \<and> entered_thy s' = entered_thy s"
    using assms by (auto dest: keepsD)
  define start where "start = clock api (Suc (ticks s))"
  define body where "body = typed_errors api start
    (andThen (call_backend (raw_verify_chunk api chunk (budget_ms t)) (Some (t + command_default api)))
      (\<lambda>reply. andThen (elapsed api start) (\<lambda>execution_time. ret (reply, execution_time))))"
  obtain r1 s1 where 1: "body (busy_start api s) = (r1, s1)" by force
  note run = assms [unfolded verify_chunk_def with_request_eq start_def [symmetric] body_def [symmetric]]
  have "last_chunk_report s' =
         Some \<lparr>cr_report = report, cr_execution_time = et, cr_timestamp = start\<rparr>"
    if "r = Inr (report, et)" for report et
    using run 1 that
    by (cases r1; cases "dict_get ''commands'' (parse_report (fst (projr r1)))")
      (auto simp: andThen_def split: prod.splits)
  with kept show ?thesis by blast
qed

section \<open>Properties\<close>

text \<open>Property C2: the busy counter of a session is the same after every operation as before it, whatever
  the prover answers, however long it takes and whether or not an exception leaves the operation, so a
  session never stays marked busy (unevictable) nor loses the mark of another request.\<close>

theorem busy_counter_restored:
  "active_requests (final (execute_command api c t) s) = active_requests s
   \<and> active_requests (final (load_document api txt nm imps t rp) s) = active_requests s
   \<and> active_requests (final (run_diagnostic api c t) s) = active_requests s
   \<and> active_requests (final (verify_chunk api c t) s) = active_requests s
   \<and> active_requests (final (get_proof_state api t) s) = active_requests s
   \<and> active_requests (final (save_checkpoint api t) s) = active_requests s
   \<and> active_requests (final (restore_checkpoint api i t) s) = active_requests s
   \<and> active_requests (final (sledgehammer_methods api n ht) s) = active_requests s
   \<and> active_requests (final (sledgehammer_at api l g n ht) s) = active_requests s"
  by (intro conjI keeps_final frame)

text \<open>A command that returns a result has appended exactly one history entry, which holds the
  command, its success and its subgoals as reported, and the result has an error exactly when it is not
  a success. What leaves the operation otherwise is a \<open>SessionError\<close>, with the history unchanged
  unless only the text of the result could not be read.\<close>

theorem execute_command_effect:
  "case execute_command api command timeout s of
     (Inr v, s') \<Rightarrow> (ss_error v = None \<longleftrightarrow> ss_success v)
       \<and> (\<exists>start. command_history s' = command_history s
            @ [command_entry command start (ss_success v) (ss_subgoal_error v) (length (ss_subgoals v))])
   | (Inl e, s') \<Rightarrow> isinstance e C_SessionError
       \<and> (command_history s' = command_history s
          \<or> (\<exists>start ok err n. command_history s' = command_history s @ [command_entry command start ok err n]))"
proof -
  obtain r s' where r: "execute_command api command timeout s = (r, s')" by force
  show ?thesis using execute_command_outcome [OF r] r by (auto split: sum.split)
qed

text \<open>Property C8: a document load that returns has replaced the whole session: no checkpoint, verified theory or
  older history survives, the entered theory is the requested one (or the one the header names), the
  history is the load's own entry, and a report is retained exactly when one was asked for. What leaves
  it otherwise is a \<open>SessionError\<close> or the validation error of a report whose error is not text.\<close>

theorem load_document_replaces:
  "case load_document api txt thy_name imports timeout report s of
     (Inr v, s') \<Rightarrow> checkpoints s' = (\<lambda>_. None) \<and> verified_theories s' = []
       \<and> entered_thy s' = or_else (document_name txt thy_name imports) []
       \<and> (last_chunk_report s' \<noteq> None \<longleftrightarrow> report)
       \<and> (\<exists>start. command_history s' =
            [\<lparr>h_type = Some ''document_load'', h_command = preview_text txt preview_chars,
              h_timestamp = start, h_success = ss_success v, h_subgoal_error = None,
              h_subgoals_count = 0\<rparr>])
   | (Inl e, s') \<Rightarrow> isinstance e C_SessionError \<or> class_of e = C_ValueError"
proof -
  obtain r s' where r: "load_document api txt thy_name imports timeout report s = (r, s')" by force
  show ?thesis
  proof (cases r)
    case (Inl e)
    then show ?thesis using r load_document_error by fastforce
  next
    case (Inr v)
    then show ?thesis
      using r yieldsD [OF load_document_yields TrueI r [unfolded Inr]] by (auto simp: loaded_def)
  qed
qed


text \<open>A diagnostic, a proof-state query and both sledgehammer calls leave history, checkpoints,
  verified theories, the retained report and the entered theory alone; a chunk verification replaces the
  retained report by its own and changes nothing else of them.\<close>

theorem queries_leave_no_trace:
  "bookkeeping (final (run_diagnostic api c t) s) = bookkeeping s
   \<and> bookkeeping (final (get_proof_state api t) s) = bookkeeping s
   \<and> bookkeeping (final (sledgehammer_methods api n ht) s) = bookkeeping s
   \<and> bookkeeping (final (sledgehammer_at api l g n ht) s) = bookkeeping s
   \<and> (case verify_chunk api chunk t s of (r, s') \<Rightarrow>
        (\<exists>rep. bookkeeping s' = (command_history s, checkpoints s, verified_theories s, rep, entered_thy s))
        \<and> (case r of
             Inr (report, et) \<Rightarrow> (\<exists>start. last_chunk_report s' =
               Some \<lparr>cr_report = report, cr_execution_time = et, cr_timestamp = start\<rparr>)
           | Inl e \<Rightarrow> True))"
proof -
  obtain r s' where r: "verify_chunk api chunk t s = (r, s')" by force
  have "bookkeeping (final (run_diagnostic api c t) s) = bookkeeping s"
    "bookkeeping (final (get_proof_state api t) s) = bookkeeping s"
    "bookkeeping (final (sledgehammer_methods api n ht) s) = bookkeeping s"
    "bookkeeping (final (sledgehammer_at api l g n ht) s) = bookkeeping s"
    by (intro keeps_final frame)+
  then show ?thesis
    using verify_chunk_outcome [OF r] r by (auto simp: bookkeeping_def split: sum.split)
qed

text \<open>The answer of the prover to a restore is dropped: a restore it refuses is reported as done, while a
  big step checks for it.\<close>

theorem refused_restore_reported_done:
  "\<exists>(api :: nat raw_api) s. raw_restore_state api 1 (raw s) = (Inr False, 0, raw s)
     \<and> outcome (restore_checkpoint api 1 30) s = Inr (Inr True)"
proof -
  let ?api = "demo_api\<lparr>raw_restore_state := (\<lambda>_ b. (Inr False, 0, b))\<rparr>"
  let ?s = "demo_session\<lparr>checkpoints := (\<lambda>i. if i = 1 then Some 0 else None)\<rparr>"
  have "outcome (restore_checkpoint ?api 1 30) ?s = Inr (Inr True)"
    by (simp add: demo_defs restore_checkpoint_def with_request_eq outcome_def catch_def andThen_def
        restore_state_def call_backend_def submit_and_wait_def busy_start_def acquire_request_def touch_def)
  then show ?thesis by (intro exI [of _ ?api] exI [of _ ?s]) simp
qed

section \<open>Witnesses\<close>


end
