(* ===== verification/Session_Keys.thy ===== *)
theory Session_Keys
  imports Server_Errors
begin

text \<open>
  The values that identify a pooled session (\<open>server/app/services/session_manager_helpers.py\<close>): the
  normalised field and theories, the dependency key under which a session is shared, and the
  session identifier of a request.

  SHA-256 is the parameter \<open>sha\<close>; nothing is assumed of it. \<open>uuid.UUID(text)\<close> is the canonical text of
  the parsed identifier.
\<close>

section \<open>Operations\<close>

definition where_in :: "pystr \<Rightarrow> pystr" where
  "where_in func_name = ''server.app.services.session_manager_helpers.SessionManager.'' @ func_name"

definition normalize_field :: "pystr \<Rightarrow> pystr option \<Rightarrow> pystr" where
  "normalize_field default_field fld =
     (case fld of None \<Rightarrow> default_field
      | Some f0 \<Rightarrow> (let f = strip f0 in
          if f = [] \<or> lower f \<in> {''null'', ''none'', ''default''} then default_field else f))"

definition normalize_theories :: "pystr option list option \<Rightarrow> pystr list" where
  "normalize_theories thys =
     (case thys of None \<Rightarrow> []
      | Some ts \<Rightarrow> sorted_set (filter (\<lambda>v. v \<noteq> []) (map strip (List.map_filter (\<lambda>t. t) ts))))"

definition dependency_base :: "pystr \<Rightarrow> pystr option list option \<Rightarrow> pystr option \<Rightarrow> pystr option \<Rightarrow> pystr" where
  "dependency_base default_field thys fld extra =
     normalize_field default_field fld @ ''::'' @ join ''|'' (normalize_theories thys)
     @ (if truthy extra then ''::'' @ or_else extra [] else [])"

definition build_dependency_key :: "(pystr \<Rightarrow> pystr) \<Rightarrow> pystr \<Rightarrow> pystr option list option \<Rightarrow> pystr option
    \<Rightarrow> pystr option \<Rightarrow> pystr" where
  "build_dependency_key sha default_field thys fld extra = sha (dependency_base default_field thys fld extra)"

definition build_wrapper_theory_name :: "(pystr \<Rightarrow> pystr) \<Rightarrow> pystr \<Rightarrow> pystr option list option
    \<Rightarrow> pystr option \<Rightarrow> pystr" where
  "build_wrapper_theory_name sha default_field thys fld =
     ''wrap_'' @ take 16 (build_dependency_key sha default_field thys fld None)"

subsection \<open>Session identifiers\<close>

definition hex_digit :: "char \<Rightarrow> nat option" where
  "hex_digit c = (let n = ord c in
     if 48 \<le> n \<and> n \<le> 57 then Some (n - 48)
     else if 97 \<le> n \<and> n \<le> 102 then Some (n - 87)
     else if 65 \<le> n \<and> n \<le> 70 then Some (n - 55) else None)"

text \<open>\<open>int(s, 16)\<close>: white space around, a sign, a prefix \<open>0x\<close>, digits with single underscores between.\<close>

fun hex_value :: "nat \<Rightarrow> pystr \<Rightarrow> nat option" where
  "hex_value acc [] = None"
| "hex_value acc (c # cs) =
     (case hex_digit c of None \<Rightarrow> None
      | Some d \<Rightarrow> (case cs of [] \<Rightarrow> Some (16 * acc + d)
          | c' # cs' \<Rightarrow> if c' = CHR ''_'' then hex_value (16 * acc + d) cs'
                       else hex_value (16 * acc + d) (c' # cs')))"

definition hex_body :: "pystr \<Rightarrow> nat option" where
  "hex_body s =
     (if startswith s ''0x_'' \<or> startswith s ''0X_'' then hex_value 0 (drop 3 s)
      else if startswith s ''0x'' \<or> startswith s ''0X'' then hex_value 0 (drop 2 s)
      else hex_value 0 s)"

definition int16 :: "pystr \<Rightarrow> int option" where
  "int16 s = (case strip s of
       [] \<Rightarrow> None
     | c # cs \<Rightarrow> if c = CHR ''-'' then map_option (\<lambda>n. - int n) (hex_body cs)
                 else if c = CHR ''+'' then map_option int (hex_body cs)
                 else map_option int (hex_body (c # cs)))"

definition show_hex_digit :: "nat \<Rightarrow> char" where
  "show_hex_digit d = (if d < 10 then char_of (d + 48) else char_of (d + 87))"

fun show_hex :: "nat \<Rightarrow> nat \<Rightarrow> pystr" where
  "show_hex 0 n = []"
| "show_hex (Suc k) n = show_hex k (n div 16) @ [show_hex_digit (n mod 16)]"

definition uuid_text :: "nat \<Rightarrow> pystr" where
  "uuid_text n = (let h = show_hex 32 n in
     take 8 h @ ''-'' @ take 4 (drop 8 h) @ ''-'' @ take 4 (drop 12 h) @ ''-''
     @ take 4 (drop 16 h) @ ''-'' @ drop 20 h)"

definition parse_uuid :: "pystr \<Rightarrow> pystr option" where
  "parse_uuid s =
     (let h = py_replace ''uuid:'' [] (py_replace ''urn:'' [] s);
          h = filter (\<lambda>c. c \<noteq> CHR ''-'') (strip_chars {CHR 0x7B, CHR 0x7D} h)
      in if length h \<noteq> 32 then None
         else case int16 h of None \<Rightarrow> None
              | Some n \<Rightarrow> if 0 \<le> n then Some (uuid_text (nat n)) else None)"

definition normalize_session_id :: "pystr \<Rightarrow> exn + pystr" where
  "normalize_session_id session_id =
     (case parse_uuid session_id of
        Some u \<Rightarrow> Inr u
      | None \<Rightarrow> Inl (session_error C_SessionError (Some (where_in ''_normalize_session_id''
          @ '': invalid session_id '' @ [CHR 0x27] @ session_id @ [CHR 0x27])) None))"

section \<open>Canonical values\<close>

lemma normalize_field_strip: "strip d = d \<Longrightarrow> strip (normalize_field d fld) = normalize_field d fld"
  by (auto simp: normalize_field_def Let_def split: option.split)

lemma normalize_field_idem [py_text]:
  "strip d = d \<Longrightarrow> normalize_field d (Some (normalize_field d fld)) = normalize_field d fld"
  by (auto simp: normalize_field_def Let_def split: option.split)

lemma normalize_theories_entry: "t \<in> set (normalize_theories thys) \<Longrightarrow> t \<noteq> [] \<and> strip t = t"
  by (cases thys) (auto simp: normalize_theories_def map_filter_def)

lemma normalize_theories_idem [py_text]:
  "normalize_theories (Some (map Some (normalize_theories thys))) = normalize_theories thys"
proof -
  let ?ts = "normalize_theories thys"
  have "List.map_filter (\<lambda>t. t) (map Some ?ts) = ?ts"
    by (simp add: map_filter_def comp_def)
  moreover have "map strip ?ts = ?ts"
    using normalize_theories_entry by (intro map_idI) blast
  moreover have "filter (\<lambda>v. v \<noteq> []) ?ts = ?ts"
    using normalize_theories_entry by (intro filter_True) blast
  moreover have "sorted_set ?ts = ?ts"
    by (cases thys) (simp_all add: normalize_theories_def sorted_set_id)
  ultimately show ?thesis by (simp add: normalize_theories_def)
qed

section \<open>Keys\<close>

definition key_plain :: "pystr \<Rightarrow> pystr option list option \<Rightarrow> pystr option \<Rightarrow> bool" where
  "key_plain d thys fld \<longleftrightarrow> CHR '':'' \<notin> set (normalize_field d fld)
     \<and> (\<forall>t \<in> set (normalize_theories thys). CHR '':'' \<notin> set t \<and> CHR ''|'' \<notin> set t)"

lemma join_bar_inj:
  assumes "join ''|'' xs = join ''|'' ys"
    and "\<And>x. x \<in> set xs \<Longrightarrow> x \<noteq> [] \<and> CHR ''|'' \<notin> set x"
    and "\<And>y. y \<in> set ys \<Longrightarrow> y \<noteq> [] \<and> CHR ''|'' \<notin> set y"
  shows "xs = ys"
proof -
  have empty: "join ''|'' zs = [] \<longleftrightarrow> zs = []" if "\<And>z. z \<in> set zs \<Longrightarrow> z \<noteq> []" for zs
    using that by (cases zs rule: list.exhaust; cases "tl zs") auto
  show ?thesis
  proof (cases "xs = [] \<or> ys = []")
    case True
    then show ?thesis using assms empty by (metis join.simps(1))
  next
    case False
    then show ?thesis
      using split_on_join [of xs "CHR ''|''"] split_on_join [of ys "CHR ''|''"] assms by metis
  qed
qed

lemma sep_unique:
  "\<lbrakk>CHR '':'' \<notin> set u; CHR '':'' \<notin> set u'; u @ '':'' @ v = u' @ '':'' @ v'\<rbrakk> \<Longrightarrow> u = u' \<and> v = v'"
proof (induction u arbitrary: u')
  case Nil
  then show ?case by (cases u') auto
next
  case (Cons c u)
  then show ?case by (cases u') auto
qed

lemma colon_not_in_join:
  "\<forall>t \<in> set ts. CHR '':'' \<notin> set t \<Longrightarrow> CHR '':'' \<notin> set (join ''|'' ts)"
  using set_join [of "CHR '':''" "''|''" ts] by auto

lemma tail_unique:
  assumes "CHR '':'' \<notin> set t" and "CHR '':'' \<notin> set t'"
    and "t @ (if truthy e then ''::'' @ or_else e [] else []) = t' @ (if truthy e' then ''::'' @ or_else e' [] else [])"
  shows "t = t' \<and> or_else e [] = or_else e' []"
proof (cases "truthy e"; cases "truthy e'")
  assume "truthy e" "truthy e'"
  then show ?thesis using assms sep_unique [of t t' "'':'' @ or_else e []" "'':'' @ or_else e' []"] by simp
next
  assume "truthy e" "\<not> truthy e'"
  then have "t' = t @ ''::'' @ or_else e []" using assms(3) by simp
  then have "CHR '':'' \<in> set t'" by simp
  then show ?thesis using assms(2) by simp
next
  assume "\<not> truthy e" "truthy e'"
  then have "t = t' @ ''::'' @ or_else e' []" using assms(3) by simp
  then have "CHR '':'' \<in> set t" by simp
  then show ?thesis using assms(1) by simp
next
  assume "\<not> truthy e" "\<not> truthy e'"
  then show ?thesis using assms(3) by (cases e; cases e') (auto simp: or_else_def)
qed

lemma dependency_base_inj:
  assumes "key_plain d thys fld" and "key_plain d thys' fld'"
    and "dependency_base d thys fld e = dependency_base d thys' fld' e'"
  shows "normalize_field d fld = normalize_field d fld'
    \<and> normalize_theories thys = normalize_theories thys' \<and> or_else e [] = or_else e' []"
proof -
  let ?F = "normalize_field d fld" and ?F' = "normalize_field d fld'"
  let ?T = "join ''|'' (normalize_theories thys)" and ?T' = "join ''|'' (normalize_theories thys')"
  let ?X = "if truthy e then ''::'' @ or_else e [] else []"
  let ?X' = "if truthy e' then ''::'' @ or_else e' [] else []"
  have F: "?F = ?F'" "'':'' @ ?T @ ?X = '':'' @ ?T' @ ?X'"
    using sep_unique [of ?F ?F' "'':'' @ ?T @ ?X" "'':'' @ ?T' @ ?X'"] assms
    by (simp_all add: key_plain_def dependency_base_def)
  then have "?T @ ?X = ?T' @ ?X'" by simp
  moreover have "CHR '':'' \<notin> set ?T" "CHR '':'' \<notin> set ?T'"
    using assms(1,2) colon_not_in_join by (simp_all add: key_plain_def)
  ultimately have T: "?T = ?T'" "or_else e [] = or_else e' []" using tail_unique by blast+
  have "normalize_theories thys = normalize_theories thys'"
    using T(1) assms(1,2) normalize_theories_entry
    by (intro join_bar_inj) (auto simp: key_plain_def)
  then show ?thesis using F(1) T(2) by blast
qed

lemma dependency_base_cong:
  "\<lbrakk>normalize_field d fld = normalize_field d fld'; normalize_theories thys = normalize_theories thys';
     or_else e [] = or_else e' []\<rbrakk> \<Longrightarrow> dependency_base d thys fld e = dependency_base d thys' fld' e'"
  by (cases e; cases e') (auto simp: dependency_base_def or_else_def truthy_def split: if_splits)

section \<open>Property\<close>

text \<open>For a field without a colon and theory names without a colon or a bar, two requests hash the
  same text, and so share pooled sessions, exactly when their fields agree after normalisation, their
  theories are the same set of names (order, repetition, blanks and missing entries do not matter), and
  their heap suffix is the same; normalising a request first changes nothing.\<close>

theorem same_key_iff:
  assumes "strip d = d" and "key_plain d thys fld" and "key_plain d thys' fld'"
  shows "(dependency_base d thys fld e = dependency_base d thys' fld' e' \<longleftrightarrow>
      normalize_field d fld = normalize_field d fld'
      \<and> set (normalize_theories thys) = set (normalize_theories thys') \<and> or_else e [] = or_else e' [])
    \<and> build_dependency_key sha d (Some (map Some (normalize_theories thys))) (Some (normalize_field d fld)) e
        = build_dependency_key sha d thys fld e"
proof -
  have sorted: "sorted (normalize_theories ts)" "distinct (normalize_theories ts)" for ts
    by (cases ts; simp add: normalize_theories_def)+
  have same: "set (normalize_theories thys) = set (normalize_theories thys') \<longleftrightarrow>
      normalize_theories thys = normalize_theories thys'"
    using sorted sorted_distinct_set_unique by metis
  have "dependency_base d (Some (map Some (normalize_theories thys))) (Some (normalize_field d fld)) e
      = dependency_base d thys fld e"
    using assms(1) by (intro dependency_base_cong) (simp_all add: normalize_field_idem normalize_theories_idem)
  then have key: "build_dependency_key sha d (Some (map Some (normalize_theories thys)))
      (Some (normalize_field d fld)) e = build_dependency_key sha d thys fld e"
    by (simp add: build_dependency_key_def)
  have "dependency_base d thys fld e = dependency_base d thys' fld' e' \<longleftrightarrow>
      normalize_field d fld = normalize_field d fld'
      \<and> normalize_theories thys = normalize_theories thys' \<and> or_else e [] = or_else e' []"
    using dependency_base_inj [OF assms(2,3)] dependency_base_cong by blast
  then show ?thesis using same key by simp
qed

theorem same_key_iff_witness:
  "dependency_base ''HOL'' (Some [Some ''B'', None, Some '' A '', Some ''B'']) (Some '' none '') None
     = dependency_base ''HOL'' (Some [Some ''A'', Some ''B'']) None (Some [])"
proof -
  have d: "strip ''HOL'' = ''HOL''" by code_simp
  have thys: "normalize_theories (Some [Some ''B'', None, Some '' A '', Some ''B'']) = [''A'', ''B'']"
    "normalize_theories (Some [Some ''A'', Some ''B'']) = [''A'', ''B'']" by code_simp+
  have fld: "normalize_field ''HOL'' (Some '' none '') = ''HOL''" "normalize_field ''HOL'' None = ''HOL''"
    by code_simp+
  show ?thesis
    using same_key_iff [OF d, of "Some [Some ''B'', None, Some '' A '', Some ''B'']" "Some '' none ''"
        "Some [Some ''A'', Some ''B'']" None None "Some []" id]
    by (simp add: key_plain_def thys fld)
qed

end
