(* ===== verification/Session_Pool.thy ===== *)
theory Session_Pool
  imports Session_Ops Session_Keys Ordered_Dict
begin

text \<open>
  The session pool (\<open>server/app/services/session_manager.py\<close>, the part under the manager's lock):
  registration with eviction, lookup and leasing, release, access, closing, the memory relief and the
  idle sweep. The pool is the \<open>OrderedDict\<close> \<open>_lru\<close>, oldest first, and \<open>closed_sessions\<close> keeps every
  session object the manager has closed. A function here is what runs under one hold of the lock,
  together with the closing that follows it.
\<close>

section \<open>The pool\<close>

type_synonym 'b lru = "(pystr, 'b session) od"

record manager_config =
  idle_timeout :: real
  max_lease_age :: real
  pool_size :: int
  initial_sessions :: int
  memory_management_enabled :: bool
  default_field :: pystr
  admission_retries :: nat
  session_create_timeout :: real

record 'b pool =
  lru :: "'b lru"
  closed_sessions :: "'b session list"

definition evictable :: "'b session \<Rightarrow> bool" where
  "evictable s = (\<not> in_use s \<and> \<not> leased s)"

text \<open>\<open>self._lru.pop(id)\<close> and the \<open>close()\<close> of the session.\<close>

definition bury :: "'b raw_api \<Rightarrow> 'b session list \<Rightarrow> 'b pool \<Rightarrow> 'b pool" where
  "bury api ss p = p\<lparr>closed_sessions := closed_sessions p @ map (close api) ss\<rparr>"

section \<open>Registration and eviction\<close>

text \<open>The loop of \<open>_create_session\<close>: pop the oldest session that is idle and not the new one until the
  pool fits; when there is none, undo the insertion. The result says whether the pool was full.\<close>

function evict_excess :: "int \<Rightarrow> pystr \<Rightarrow> 'b lru \<Rightarrow> 'b session list \<Rightarrow> bool \<times> 'b lru \<times> 'b session list" where
  "evict_excess cap new_id l popped =
     (if int (length l) \<le> cap then (False, l, popped)
      else case find (\<lambda>(sid, s). sid \<noteq> new_id \<and> evictable s) l of
             None \<Rightarrow> (True, od_pop new_id l, popped)
           | Some (sid, s) \<Rightarrow> evict_excess cap new_id (od_pop sid l) (popped @ [s]))"
  by pat_completeness auto
termination
  by (relation "measure (\<lambda>(cap, new_id, l, popped). length l)")
    (auto simp: find_Some_iff od_pop_def intro!: length_filter_less nth_mem)

declare evict_excess.simps [simp del]

definition pool_full_error :: "int \<Rightarrow> exn" where
  "pool_full_error cap = session_error C_PoolExhausted (Some (''Session pool is full ('' @ show_int cap
     @ '' sessions) and all sessions are actively processing requests or leased. ''
     @ ''Try again later or increase ISABELLE_POOL_SIZE.'')) None"

definition add_error :: "pystr \<Rightarrow> exn \<Rightarrow> exn" where
  "add_error sid e = Exn C_RuntimeError (where_in ''_create_session'' @ '': failed to add session '' @ sid
     @ '' to session manager: '' @ str_of e)"

definition register_session :: "'b raw_api \<Rightarrow> int \<Rightarrow> real \<Rightarrow> pystr option \<Rightarrow> 'b session
    \<Rightarrow> ('b pool, 'b session) py" where
  "register_session api cap now lid s p =
     (let sid = session_id s in
      case (case lid of None \<Rightarrow> (Inr (), s) | Some l \<Rightarrow> acquire_lease now l s) of
        (Inl e, s1) \<Rightarrow> (Inl (add_error sid e), bury api [s1] (p\<lparr>lru := od_set sid (close api s1) (lru p)\<rparr>))
      | (Inr _, s1) \<Rightarrow>
          (case evict_excess cap sid (od_to_end sid (od_set sid s1 (lru p))) [] of
             (True, l, popped) \<Rightarrow> (Inl (pool_full_error cap), bury api [s1] (p\<lparr>lru := l\<rparr>))
           | (False, l, popped) \<Rightarrow> (Inr s1, bury api popped (p\<lparr>lru := l\<rparr>))))"

section \<open>Lookup and leasing\<close>

definition reusable :: "pystr \<Rightarrow> bool \<Rightarrow> 'b session \<Rightarrow> bool" where
  "reusable target_key reuse_dirty s =
     (session_status s = ACTIVE \<and> \<not> leased s \<and> dependency_key s = Some target_key
      \<and> (reuse_dirty \<or> command_history s = []))"

text \<open>\<open>_find_and_lease_session_locked\<close>: newest first; a lease that fails would go on to the next.\<close>

definition find_and_lease :: "real \<Rightarrow> pystr \<Rightarrow> pystr \<Rightarrow> bool \<Rightarrow> 'b pool \<Rightarrow> 'b session option \<times> 'b pool" where
  "find_and_lease now lid target_key reuse_dirty p =
     (case find (\<lambda>(sid, s). reusable target_key reuse_dirty s \<and> fst (try_acquire_lease now lid s))
             (rev (lru p)) of
        None \<Rightarrow> (None, p)
      | Some (sid, s) \<Rightarrow>
          (let s1 = snd (try_acquire_lease now lid s) in
           (Some s1, p\<lparr>lru := od_to_end sid (od_set sid s1 (lru p))\<rparr>)))"

definition find_session :: "pystr \<Rightarrow> bool \<Rightarrow> 'b pool \<Rightarrow> 'b session option \<times> 'b pool" where
  "find_session target_key reuse_dirty p =
     (case find (\<lambda>(sid, s). reusable target_key reuse_dirty s) (rev (lru p)) of
        None \<Rightarrow> (None, p)
      | Some (sid, s) \<Rightarrow> (Some s, p\<lparr>lru := od_to_end sid (lru p)\<rparr>))"

section \<open>Access, release, closing\<close>

definition no_session :: "pystr \<Rightarrow> exn" where
  "no_session sid = session_error C_SessionNotFound (Some (''Session '' @ sid @ '' not found'')) None"

definition session_closed :: "pystr \<Rightarrow> exn" where
  "session_closed sid = session_error C_SessionNotFound (Some (''Session '' @ sid @ '' is closed'')) None"

definition busy_error :: "pystr \<Rightarrow> pystr \<Rightarrow> exn" where
  "busy_error sid what = session_error C_SessionBusyError (Some (''Session '' @ sid @ what)) None"

definition live_session :: "pystr \<Rightarrow> 'b pool \<Rightarrow> exn + 'b session" where
  "live_session sid p = (case od_get sid (lru p) of
       None \<Rightarrow> Inl (no_session sid)
     | Some s \<Rightarrow> if session_status s = CLOSED then Inl (session_closed sid) else Inr s)"

definition release_session :: "real \<Rightarrow> pystr \<Rightarrow> pystr option \<Rightarrow> ('b pool, bool) py" where
  "release_session now req_id lid p =
     (case onOk (normalize_session_id req_id) (\<lambda>sid.
           onOk (live_session sid p) (\<lambda>s.
           onOk (require_lease lid s) (\<lambda>_.
           if in_use s then Inl (busy_error sid '' is busy and cannot be released'') else Inr (sid, s)))) of
        Inl e \<Rightarrow> (Inl e, p)
      | Inr (sid, s) \<Rightarrow>
          (Inr True, p\<lparr>lru := od_to_end sid (od_set sid (release_lease now s) (lru p))\<rparr>))"

definition get_session :: "pystr \<Rightarrow> pystr option \<Rightarrow> bool \<Rightarrow> ('b pool, 'b session) py" where
  "get_session req_id lid need_lease p =
     (case onOk (normalize_session_id req_id) (\<lambda>sid.
           onOk (live_session sid p) (\<lambda>s.
           onOk (if need_lease then require_lease lid s else Inr ()) (\<lambda>_. Inr (sid, s)))) of
        Inl e \<Rightarrow> (Inl e, p)
      | Inr (sid, s) \<Rightarrow> (Inr s, p\<lparr>lru := od_to_end sid (lru p)\<rparr>))"

text \<open>\<open>raced\<close>: a request began between the test of \<open>in_use\<close> and the second test after the pop (the busy
  counter is not under the manager's lock); the session is then put back, at the end.\<close>

definition close_by_id :: "'b raw_api \<Rightarrow> real \<Rightarrow> bool \<Rightarrow> pystr \<Rightarrow> pystr option \<Rightarrow> bool
    \<Rightarrow> ('b pool, bool) py" where
  "close_by_id api now raced sid lid need_lease p =
     (case onOk (live_session sid p) (\<lambda>s.
           onOk (if need_lease then require_lease lid s else Inr ()) (\<lambda>_.
           if in_use s then Inl (busy_error sid '' is busy and cannot be closed'') else Inr s)) of
        Inl e \<Rightarrow> (Inl e, p)
      | Inr s \<Rightarrow>
          (let s1 = (if raced then acquire_request s else s);
               l = od_pop sid (lru p) in
           if in_use s1 then
             (Inl (busy_error sid '' became busy between in_use check and pop''),
              p\<lparr>lru := od_to_end sid (od_set sid s1 l)\<rparr>)
           else
             (let s2 = (if leased s1 then release_lease now s1 else s1) in
              (Inr True, bury api [s2] (p\<lparr>lru := l\<rparr>)))))"

definition close_session :: "'b raw_api \<Rightarrow> real \<Rightarrow> bool \<Rightarrow> pystr \<Rightarrow> pystr option \<Rightarrow> bool
    \<Rightarrow> ('b pool, bool) py" where
  "close_session api now raced req_id lid need_lease p =
     (case normalize_session_id req_id of
        Inl e \<Rightarrow> (Inl e, p)
      | Inr sid \<Rightarrow> close_by_id api now raced sid lid need_lease p)"

section \<open>Reclaiming\<close>

definition oldest_idle :: "'b lru \<Rightarrow> (pystr \<times> 'b session) option" where
  "oldest_idle l = find (\<lambda>(sid, s). evictable s) l"

text \<open>\<open>_relieve_memory_pressure\<close>: \<open>can k\<close> is \<open>can_admit\<close> of the \<open>k\<close>-th reading of the memory files. The
  result is the index of the last reading.\<close>

function relieve :: "'b raw_api \<Rightarrow> (nat \<Rightarrow> bool) \<Rightarrow> nat \<Rightarrow> 'b pool \<Rightarrow> nat \<times> 'b pool" where
  "relieve api can k p =
     (if can k then (k, p)
      else case oldest_idle (lru p) of
             None \<Rightarrow> (k, p)
           | Some (sid, s) \<Rightarrow> relieve api can (Suc k) (bury api [s] (p\<lparr>lru := od_pop sid (lru p)\<rparr>)))"
  by pat_completeness auto
termination
  by (relation "measure (\<lambda>(api, can, k, p). length (lru p))")
    (auto simp: oldest_idle_def find_Some_iff od_pop_def bury_def intro!: length_filter_less nth_mem)

declare relieve.simps [simp del]

text \<open>One round of \<open>cleanup_idle_sessions\<close>: which sessions are due, then closing each, errors logged.\<close>

definition due :: "manager_config \<Rightarrow> real \<Rightarrow> 'b session \<Rightarrow> bool" where
  "due cfg now s =
     (if session_status s = CLOSED then False
      else if leased s then is_idle (max_lease_age cfg) now s
      else is_idle (idle_timeout cfg) now s)"

definition sweep_targets :: "manager_config \<Rightarrow> real \<Rightarrow> 'b pool \<Rightarrow> pystr list" where
  "sweep_targets cfg now p = map fst (filter (\<lambda>(sid, s). due cfg now s) (lru p))"

definition sweep :: "'b raw_api \<Rightarrow> manager_config \<Rightarrow> real \<Rightarrow> 'b pool \<Rightarrow> 'b pool" where
  "sweep api cfg now p =
     fold (\<lambda>sid p. snd (close_by_id api now False sid None False p)) (sweep_targets cfg now p) p"

text \<open>\<open>_recover_gateway_locked\<close> and \<open>shutdown\<close>: every session goes.\<close>

definition purge :: "'b raw_api \<Rightarrow> 'b pool \<Rightarrow> 'b pool" where
  "purge api p = bury api (map snd (lru p)) (p\<lparr>lru := []\<rparr>)"

section \<open>Reporting\<close>

record session_entry =
  e_session_id :: pystr
  e_created_at :: real
  e_last_activity :: real
  e_status :: session_status
  e_theories :: "pystr list"
  e_loaded_theories :: "pystr list"
  e_wrapper_theory :: "pystr option"
  e_dependency_key :: "pystr option"
  e_field :: pystr
  e_commands_executed :: nat
  e_verified_theories :: "pystr list"
  e_in_use :: bool
  e_active_requests :: nat
  e_leased :: bool
  e_label :: "pystr option"
  e_task_group :: "pystr option"
  e_lease_id :: "pystr option option"

definition list_entry :: "bool \<Rightarrow> pystr \<times> 'b session \<Rightarrow> session_entry" where
  "list_entry include_lease e = (case e of (sid, s) \<Rightarrow>
     \<lparr>e_session_id = sid, e_created_at = created_at s, e_last_activity = last_activity s,
      e_status = session_status s, e_theories = theories s, e_loaded_theories = loaded_theories s,
      e_wrapper_theory = wrapper_theory s, e_dependency_key = dependency_key s,
      e_field = session_field s, e_commands_executed = length (command_history s),
      e_verified_theories = verified_theories s, e_in_use = in_use s,
      e_active_requests = active_requests s, e_leased = leased s, e_label = label s,
      e_task_group = task_group s, e_lease_id = (if include_lease then Some (lease_id s) else None)\<rparr>)"

definition list_sessions :: "bool \<Rightarrow> 'b pool \<Rightarrow> session_entry list" where
  "list_sessions include_lease p = map (list_entry include_lease) (lru p)"

record lru_info =
  active_sessions :: nat
  max_pool_size :: int
  busy_sessions :: nat
  leased_sessions :: nat

definition get_lru_info :: "manager_config \<Rightarrow> 'b pool \<Rightarrow> lru_info" where
  "get_lru_info cfg p =
     \<lparr>active_sessions = length (lru p), max_pool_size = pool_size cfg,
      busy_sessions = length (filter (\<lambda>(sid, s). in_use s) (lru p)),
      leased_sessions = length (filter (\<lambda>(sid, s). leased s) (lru p))\<rparr>"

section \<open>The invariant\<close>

definition live :: "'b session \<Rightarrow> bool" where
  "live s \<longleftrightarrow> \<not> closed s \<and> session_status s = ACTIVE \<and> (leased s \<longleftrightarrow> lease_id s \<noteq> None)"

definition entries_ok :: "'b lru \<Rightarrow> bool" where
  "entries_ok l \<longleftrightarrow> (\<forall>(sid, s) \<in> set l. session_id s = sid \<and> live s)"

definition pool_inv :: "int \<Rightarrow> 'b pool \<Rightarrow> bool" where
  "pool_inv cap p \<longleftrightarrow> od_ok (lru p) \<and> entries_ok (lru p) \<and> int (length (lru p)) \<le> max 0 cap
     \<and> (\<forall>s \<in> set (closed_sessions p). closed s)"

lemma entries_okD: "\<lbrakk>entries_ok l; (sid, s) \<in> set l\<rbrakk> \<Longrightarrow> session_id s = sid \<and> live s"
  by (auto simp: entries_ok_def)

lemma entries_ok_pop [simp]: "entries_ok l \<Longrightarrow> entries_ok (od_pop sid l)"
  by (auto simp: entries_ok_def set_od_pop)

lemma entries_ok_set: "\<lbrakk>entries_ok l; session_id s = sid; live s\<rbrakk> \<Longrightarrow> entries_ok (od_set sid s l)"
  by (auto simp: entries_ok_def dest!: set_od_set)

lemma entries_ok_to_end [simp]: "\<lbrakk>od_ok l; entries_ok l\<rbrakk> \<Longrightarrow> entries_ok (od_to_end sid l)"
  by (simp add: entries_ok_def set_od_to_end)

lemma close_closed [simp]: "closed (close api s)"
  by (simp add: close_def)

lemma bury_simps [simp]:
  "lru (bury api ss p) = lru p"
  "closed_sessions (bury api ss p) = closed_sessions p @ map (close api) ss"
  by (simp_all add: bury_def)

lemma pool_inv_bury [simp]: "pool_inv cap (bury api ss p) = pool_inv cap p"
  by (auto simp: pool_inv_def)

lemma get_of_mem: "\<lbrakk>od_ok l; (sid, s) \<in> set l\<rbrakk> \<Longrightarrow> od_get sid l = Some s"
  by (simp add: od_get_Some_iff)

lemma pool_inv_pop [inv_intro]:
  "pool_inv cap p \<Longrightarrow> pool_inv cap (p\<lparr>lru := od_pop sid (lru p)\<rparr>)"
  using length_od_pop_le [of sid "lru p"] by (auto simp: pool_inv_def)

lemma pool_inv_to_end [inv_intro]:
  "pool_inv cap p \<Longrightarrow> pool_inv cap (p\<lparr>lru := od_to_end sid (lru p)\<rparr>)"
  by (auto simp: pool_inv_def length_od_to_end)

text \<open>An entry replaced by another state of the same session.\<close>

lemma pool_inv_update [inv_intro]:
  assumes "pool_inv cap p" and "od_get sid (lru p) = Some s" and "session_id s' = session_id s" and "live s'"
  shows "pool_inv cap (p\<lparr>lru := od_set sid s' (lru p)\<rparr>)"
proof -
  have "session_id s = sid" using assms(1,2) by (auto simp: pool_inv_def dest: od_get_mem entries_okD)
  moreover have "sid \<in> set (od_keys (lru p))" using assms(2) od_get_None_iff [of sid "lru p"] by auto
  ultimately show ?thesis
    using assms by (auto simp: pool_inv_def length_od_set intro: entries_ok_set)
qed

lemma live_get: "\<lbrakk>pool_inv cap p; od_get sid (lru p) = Some s\<rbrakk> \<Longrightarrow> session_id s = sid \<and> live s"
  by (auto simp: pool_inv_def dest: od_get_mem entries_okD)

lemma live_lease [simp]: "live s \<Longrightarrow> live (snd (try_acquire_lease now lid s))"
  by (simp add: live_def try_acquire_lease_def touch_def)

lemma id_lease [simp]: "session_id (snd (try_acquire_lease now lid s)) = session_id s"
  by (simp add: try_acquire_lease_def touch_def)

lemma live_release [simp]: "live s \<Longrightarrow> live (release_lease now s)" "session_id (release_lease now s) = session_id s"
  by (simp_all add: live_def release_lease_def touch_def)

lemma live_requests [simp]:
  "live (acquire_request s) = live s" "live (release_request s) = live s"
  "session_id (acquire_request s) = session_id s" "session_id (release_request s) = session_id s"
  by (simp_all add: live_def acquire_request_def release_request_def)

section \<open>Registration\<close>

lemma find_append_none: "\<lbrakk>\<And>x. x \<in> set ys \<Longrightarrow> \<not> P x\<rbrakk> \<Longrightarrow> find P (xs @ ys) = find P xs"
  by (induction xs) (auto simp: find_None_iff)

lemma od_pop_append: "od_pop k (l @ [(j, v)]) = od_pop k l @ (if j = k then [] else [(j, v)])"
  by (simp add: od_pop_def)

lemma od_new_end: "sid \<notin> set (od_keys l) \<Longrightarrow> od_to_end sid (od_set sid s l) = l @ [(sid, s)]"
proof -
  assume new: "sid \<notin> set (od_keys l)"
  then have "od_set sid s l = l @ [(sid, s)]" by (auto simp: od_set_def od_keys_def)
  moreover have "od_get sid (od_set sid s l) = Some s" by simp
  ultimately show ?thesis using new by (simp add: od_to_end_def od_pop_append od_pop_absent)
qed

lemma find_old: "sid \<notin> set (od_keys l) \<Longrightarrow>
    find (\<lambda>(k, s). k \<noteq> sid \<and> evictable s) (l @ [(sid, s0)]) = oldest_idle l"
proof -
  assume new: "sid \<notin> set (od_keys l)"
  have "find (\<lambda>(k, s). k \<noteq> sid \<and> evictable s) (l @ [(sid, s0)]) = find (\<lambda>(k, s). k \<noteq> sid \<and> evictable s) l"
    by (rule find_append_none) auto
  also have "\<dots> = find (\<lambda>(k, s). evictable s) l"
    using new by (induction l) (auto simp: od_keys_def)
  finally show ?thesis by (simp add: oldest_idle_def)
qed

lemma oldest_idle_mem: "oldest_idle l = Some (sid, s) \<Longrightarrow> (sid, s) \<in> set l \<and> evictable s"
  by (auto simp: oldest_idle_def find_Some_iff) (metis nth_mem)

lemma oldest_idle_None: "oldest_idle l = None \<longleftrightarrow> (\<forall>(sid, s) \<in> set l. \<not> evictable s)"
  by (auto simp: oldest_idle_def find_None_iff)

text \<open>One insertion into a pool that fits needs at most one eviction.\<close>

lemma evict_one:
  assumes "od_ok l" and "sid \<notin> set (od_keys l)" and "int (length l) \<le> max 0 cap"
  shows "evict_excess cap sid (l @ [(sid, s)]) [] =
    (if int (length l) < cap then (False, l @ [(sid, s)], [])
     else case oldest_idle l of
            None \<Rightarrow> (True, l, [])
          | Some (vid, v) \<Rightarrow> (False, od_pop vid l @ [(sid, s)], [v]))"
proof (cases "int (length l) < cap")
  case True
  then show ?thesis by (subst evict_excess.simps) simp
next
  case False
  show ?thesis
  proof (cases "oldest_idle l")
    case None
    then show ?thesis using False assms(2)
      by (subst evict_excess.simps) (simp add: find_old od_pop_append od_pop_absent)
  next
    case (Some e)
    obtain vid v where e: "e = (vid, v)" by force
    then have mem: "(vid, v) \<in> set l" using Some oldest_idle_mem by blast
    then have vid: "vid \<in> set (od_keys l)" by (force simp: od_keys_def)
    then have "vid \<noteq> sid" using assms(2) by blast
    have "l \<noteq> []" using mem by auto
    then have "int (length l) = cap" using False assms(3) by (cases l) auto
    moreover have "length (od_pop vid l) = length l - 1" using length_od_pop [OF assms(1) vid] .
    ultimately have "int (length (od_pop vid l @ [(sid, s)])) \<le> cap" using \<open>l \<noteq> []\<close> by (cases l) auto
    then have "evict_excess cap sid (od_pop vid l @ [(sid, s)]) [v] = (False, od_pop vid l @ [(sid, s)], [v])"
      by (subst evict_excess.simps) simp
    then show ?thesis using False Some e assms(2) \<open>vid \<noteq> sid\<close>
      by (subst evict_excess.simps) (simp add: find_old od_pop_append)
  qed
qed

text \<open>The session as registered: leased when a lease was asked for.\<close>

definition leased_as :: "real \<Rightarrow> pystr option \<Rightarrow> 'b session \<Rightarrow> 'b session" where
  "leased_as now lid s = (case lid of None \<Rightarrow> s | Some l \<Rightarrow> snd (try_acquire_lease now l s))"

lemma leased_as_simps [simp]:
  "session_id (leased_as now lid s) = session_id s" "live s \<Longrightarrow> live (leased_as now lid s)"
  by (simp_all add: leased_as_def split: option.split)

lemma acquire_new: "\<not> leased s \<Longrightarrow> acquire_lease now l s = (Inr (), snd (try_acquire_lease now l s))"
  by (simp add: acquire_lease_def try_acquire_lease_def)

lemma register_cases:
  assumes "pool_inv cap p" and "session_id s \<notin> set (od_keys (lru p))" and "\<not> leased s"
  shows "register_session api cap now lid s p =
    (if int (length (lru p)) < cap
     then (Inr (leased_as now lid s), p\<lparr>lru := lru p @ [(session_id s, leased_as now lid s)]\<rparr>)
     else case oldest_idle (lru p) of
            None \<Rightarrow> (Inl (pool_full_error cap), bury api [leased_as now lid s] p)
          | Some (vid, v) \<Rightarrow> (Inr (leased_as now lid s),
              bury api [v] (p\<lparr>lru := od_pop vid (lru p) @ [(session_id s, leased_as now lid s)]\<rparr>)))"
proof -
  let ?s = "leased_as now lid s"
  have acq: "(case lid of None \<Rightarrow> (Inr (), s) | Some l \<Rightarrow> acquire_lease now l s) = (Inr (), ?s)"
    using assms(3) by (auto simp: acquire_new leased_as_def split: option.split)
  have "od_ok (lru p)" "int (length (lru p)) \<le> max 0 cap" using assms(1) by (simp_all add: pool_inv_def)
  then have ev: "evict_excess cap (session_id s) (od_to_end (session_id s) (od_set (session_id s) ?s (lru p))) [] =
    (if int (length (lru p)) < cap then (False, lru p @ [(session_id s, ?s)], [])
     else case oldest_idle (lru p) of
            None \<Rightarrow> (True, lru p, [])
          | Some (vid, v) \<Rightarrow> (False, od_pop vid (lru p) @ [(session_id s, ?s)], [v]))"
    using assms(2) by (simp add: od_new_end evict_one)
  have noop: "bury api [] (p\<lparr>lru := l\<rparr>) = p\<lparr>lru := l\<rparr>" "p\<lparr>lru := lru p\<rparr> = p" for l
    by (simp_all add: bury_def)
  note run = register_session_def [unfolded Let_def, of api cap now lid s p, unfolded acq]
  show ?thesis
  proof (cases "int (length (lru p)) < cap")
    case True
    then show ?thesis by (simp add: run ev noop)
  next
    case False
    show ?thesis
    proof (cases "oldest_idle (lru p)")
      case None
      then show ?thesis using False by (simp add: run ev noop)
    next
      case (Some e)
      then show ?thesis using False by (cases e) (simp add: run ev)
    qed
  qed
qed

lemma pool_inv_add:
  assumes "pool_inv cap p" and "sid \<notin> set (od_keys (lru p))" and "session_id s = sid" and "live s"
    and "int (length (lru p)) < cap"
  shows "pool_inv cap (p\<lparr>lru := lru p @ [(sid, s)]\<rparr>)"
  using assms by (auto simp: pool_inv_def od_ok_def od_keys_def entries_ok_def)

lemma register_inv:
  assumes inv: "pool_inv cap p" and new: "session_id s \<notin> set (od_keys (lru p))"
    and "\<not> leased s" and "live s"
  shows "pool_inv cap (snd (register_session api cap now lid s p))"
proof (cases "int (length (lru p)) < cap")
  case True
  then show ?thesis using assms by (simp add: register_cases pool_inv_add)
next
  case False
  show ?thesis
  proof (cases "oldest_idle (lru p)")
    case None
    then show ?thesis using assms False by (simp add: register_cases)
  next
    case (Some e)
    obtain vid v where e: "e = (vid, v)" by force
    let ?p = "p\<lparr>lru := od_pop vid (lru p)\<rparr>"
    have "(vid, v) \<in> set (lru p)" using Some e oldest_idle_mem by blast
    then have vid: "vid \<in> set (od_keys (lru p))" by (force simp: od_keys_def)
    have "od_ok (lru p)" using inv by (simp add: pool_inv_def)
    then have "length (od_pop vid (lru p)) = length (lru p) - 1" by (rule length_od_pop) (rule vid)
    moreover have "lru p \<noteq> []" using vid by (auto simp: od_keys_def)
    then have "0 < length (lru p)" by simp
    moreover have "int (length (lru p)) \<le> max 0 cap" using inv by (simp add: pool_inv_def)
    ultimately have "int (length (lru ?p)) < cap"
      by (cases "length (lru p)") (auto simp: max_def split: if_splits)
    moreover have "pool_inv cap ?p" using inv by (rule pool_inv_pop)
    ultimately have "pool_inv cap (?p\<lparr>lru := lru ?p @ [(session_id s, leased_as now lid s)]\<rparr>)"
      using new \<open>live s\<close> by (intro pool_inv_add) auto
    moreover have "register_session api cap now lid s p = (Inr (leased_as now lid s),
        bury api [v] (?p\<lparr>lru := lru ?p @ [(session_id s, leased_as now lid s)]\<rparr>))"
      using register_cases [OF inv new \<open>\<not> leased s\<close>] False Some e by simp
    ultimately show ?thesis by (simp only: snd_conv pool_inv_bury)
  qed
qed

section \<open>Reclaiming the oldest first\<close>

text \<open>A loop that pops one candidate after the other until a test holds or none is left. What a
  provider promises: the candidates of a good state in the order they are popped, and that a pop
  takes the first and leaves a good state.\<close>

locale reclaimer =
  fixes good :: "'s \<Rightarrow> bool"
    and victims :: "'s \<Rightarrow> 'e list"
    and pop :: "'s \<Rightarrow> 's option"
    and stop :: "nat \<Rightarrow> bool"
    and loop :: "nat \<Rightarrow> 's \<Rightarrow> nat \<times> 's"
  assumes pop_None: "good s \<Longrightarrow> pop s = None \<longleftrightarrow> victims s = []"
    and pop_Some: "\<lbrakk>good s; pop s = Some t\<rbrakk> \<Longrightarrow> good t \<and> victims t = tl (victims s)"
    and loop_eq: "loop k s = (if stop k then (k, s)
                    else case pop s of None \<Rightarrow> (k, s) | Some t \<Rightarrow> loop (Suc k) t)"
begin

primrec after_pops :: "nat \<Rightarrow> 's \<Rightarrow> 's" where
  "after_pops 0 s = s"
| "after_pops (Suc n) s = (case pop s of None \<Rightarrow> s | Some t \<Rightarrow> after_pops n t)"

lemma after_pops_good:
  "good s \<Longrightarrow> good (after_pops n s) \<and> victims (after_pops n s) = drop n (victims s)"
proof (induction n arbitrary: s)
  case (Suc n)
  show ?case
  proof (cases "pop s")
    case None
    then have "victims s = []" using pop_None Suc.prems by blast
    then show ?thesis using None Suc.prems by simp
  next
    case (Some t)
    then have "good t" "victims t = tl (victims s)" using pop_Some Suc.prems by blast+
    then show ?thesis using Some Suc.IH by (simp add: drop_Suc)
  qed
qed simp

text \<open>The loop stops after the least number of pops that satisfies the test, or when all are gone.\<close>

lemma loop_pops:
  "good s \<Longrightarrow> \<exists>n \<le> length (victims s). loop k s = (k + n, after_pops n s)
     \<and> (\<forall>i < n. \<not> stop (k + i)) \<and> (stop (k + n) \<or> victims (after_pops n s) = [])"
proof (induction "length (victims s)" arbitrary: s k)
  case 0
  then show ?case using loop_eq [of k s] pop_None [of s] by (intro exI [of _ 0]) auto
next
  case (Suc m)
  show ?case
  proof (cases "stop k")
    case True
    then show ?thesis using loop_eq [of k s] by (intro exI [of _ 0]) auto
  next
    case False
    have "pop s \<noteq> None" using Suc.hyps(2) pop_None [OF Suc.prems] by auto
    then obtain t where t: "pop s = Some t" by blast
    then have good: "good t" "victims t = tl (victims s)" using pop_Some Suc.prems by auto
    then have "m = length (victims t)" using Suc.hyps(2) by simp
    from Suc.hyps(1) [OF this good(1), of "Suc k"]
    obtain n where n: "n \<le> length (victims t)" "loop (Suc k) t = (Suc k + n, after_pops n t)"
      "\<forall>i < n. \<not> stop (Suc k + i)" "stop (Suc k + n) \<or> victims (after_pops n t) = []" by blast
    have "\<not> stop (k + i)" if "i < Suc n" for i
      using that False n(3) by (cases i) auto
    then show ?thesis
      using n t False loop_eq [of k s] Suc.hyps(2) good(2)
      by (intro exI [of _ "Suc n"]) auto
  qed
qed

end

text \<open>A contract that also keeps an invariant of the provider.\<close>

locale safe_reclaimer = reclaimer good victims pop stop loop
  for good :: "'s \<Rightarrow> bool" and victims :: "'s \<Rightarrow> 'e list" and pop :: "'s \<Rightarrow> 's option"
    and stop :: "nat \<Rightarrow> bool" and loop :: "nat \<Rightarrow> 's \<Rightarrow> nat \<times> 's" +
  fixes inv :: "'s \<Rightarrow> bool"
  assumes inv_pop: "\<lbrakk>inv s; pop s = Some t\<rbrakk> \<Longrightarrow> inv t"
begin

lemma inv_after_pops: "inv s \<Longrightarrow> inv (after_pops n s)"
  by (induction n arbitrary: s) (auto split: option.split intro: inv_pop)

lemma inv_loop: "\<lbrakk>good s; inv s\<rbrakk> \<Longrightarrow> inv (snd (loop k s))"
  using loop_pops [of s k] inv_after_pops by fastforce

end

definition reclaim_one :: "'b raw_api \<Rightarrow> 'b pool \<Rightarrow> 'b pool option" where
  "reclaim_one api p = (case oldest_idle (lru p) of None \<Rightarrow> None
     | Some (sid, s) \<Rightarrow> Some (bury api [s] (p\<lparr>lru := od_pop sid (lru p)\<rparr>)))"

definition idle_entries :: "'b pool \<Rightarrow> (pystr \<times> 'b session) list" where
  "idle_entries p = filter (\<lambda>(sid, s). evictable s) (lru p)"

lemma oldest_idle_split:
  assumes "od_ok l" and "oldest_idle l = Some (sid, s)"
  shows "\<exists>u v. l = u @ (sid, s) # v \<and> (\<forall>(k, x) \<in> set u. \<not> evictable x) \<and> evictable s
    \<and> od_pop sid l = u @ v"
proof -
  obtain i where i: "i < length l" "l ! i = (sid, s)" "evictable s"
    "\<forall>j < i. \<not> (case l ! j of (k, x) \<Rightarrow> evictable x)"
    using assms(2) by (auto simp: oldest_idle_def find_Some_iff)
  let ?u = "take i l" and ?v = "drop (Suc i) l"
  have l: "l = ?u @ (sid, s) # ?v" using i(1,2) by (metis id_take_nth_drop)
  have "\<forall>(k, x) \<in> set ?u. \<not> evictable x"
    using i(1,4) by (fastforce simp: in_set_conv_nth)
  moreover have "od_pop sid l = ?u @ ?v"
    using assms(1) l od_pop_split [of ?u sid s ?v] by metis
  ultimately show ?thesis using l i(3) by blast
qed

lemma reclaim_one_None: "reclaim_one api p = None \<longleftrightarrow> idle_entries p = []"
proof -
  have "reclaim_one api p = None \<longleftrightarrow> oldest_idle (lru p) = None"
    by (auto simp: reclaim_one_def split: option.split)
  then show ?thesis by (auto simp: oldest_idle_None idle_entries_def filter_empty_conv)
qed

lemma reclaim_one_Some:
  assumes "od_ok (lru p)" and "reclaim_one api p = Some q"
  shows "od_ok (lru q) \<and> idle_entries q = tl (idle_entries p)
    \<and> closed_sessions q = closed_sessions p @ [close api (snd (hd (idle_entries p)))]
    \<and> filter (\<lambda>(k, s). \<not> evictable s) (lru q) = filter (\<lambda>(k, s). \<not> evictable s) (lru p)"
proof -
  obtain sid s where o: "oldest_idle (lru p) = Some (sid, s)"
    and q: "q = bury api [s] (p\<lparr>lru := od_pop sid (lru p)\<rparr>)"
    using assms(2) by (auto simp: reclaim_one_def split: option.splits)
  obtain u v where uv: "lru p = u @ (sid, s) # v" "\<forall>(k, x) \<in> set u. \<not> evictable x" "evictable s"
    "od_pop sid (lru p) = u @ v" using oldest_idle_split [OF assms(1) o] by blast
  have "filter (\<lambda>(k, x). evictable x) u = []" using uv(2) by (auto simp: filter_empty_conv)
  moreover have "od_ok (u @ v)" using assms(1) uv(4) by (metis od_ok_pop)
  ultimately show ?thesis
    using uv(3,4) unfolding q idle_entries_def by (simp add: uv(1))
qed

lemma relieve_loop:
  "relieve api can k p = (if can k then (k, p)
     else case reclaim_one api p of None \<Rightarrow> (k, p) | Some q \<Rightarrow> relieve api can (Suc k) q)"
  by (subst relieve.simps) (auto simp: reclaim_one_def split: option.split)

lemma pool_inv_reclaim: "\<lbrakk>pool_inv cap p; reclaim_one api p = Some q\<rbrakk> \<Longrightarrow> pool_inv cap q"
  by (auto simp: reclaim_one_def intro: pool_inv_pop split: option.splits)

interpretation relief: safe_reclaimer "\<lambda>p. od_ok (lru p)" "idle_entries :: 'b pool \<Rightarrow> _" "reclaim_one api" can "relieve api can"
    "pool_inv cap"
  for api :: "'b raw_api" and can cap
  by unfold_locales
    (rule relieve_loop | (auto simp: reclaim_one_None dest: reclaim_one_Some pool_inv_reclaim)[1])+

text \<open>What \<open>n\<close> rounds of the relief take and leave.\<close>

lemma relief_pops:
  "od_ok (lru p) \<Longrightarrow> n \<le> length (idle_entries p) \<Longrightarrow>
     closed_sessions (relief.after_pops api n p)
        = closed_sessions p @ map (close api) (map snd (take n (idle_entries p)))
     \<and> filter (\<lambda>(k, s). \<not> evictable s) (lru (relief.after_pops api n p))
        = filter (\<lambda>(k, s). \<not> evictable s) (lru p)"
proof (induction n arbitrary: p)
  case (Suc n)
  then have "reclaim_one api p \<noteq> None" by (auto simp: reclaim_one_None)
  then obtain q where q: "reclaim_one api p = Some q" by blast
  note one = reclaim_one_Some [OF Suc.prems(1) q]
  then have "n \<le> length (idle_entries q)" using Suc.prems(2) by auto
  moreover have "take (Suc n) (idle_entries p) = hd (idle_entries p) # take n (tl (idle_entries p))"
    using Suc.prems(2) by (cases "idle_entries p") auto
  ultimately show ?case using Suc.IH [of q] one q by simp
qed simp

end
