(* ===== verification/Pool_Machine.thy ===== *)
theory Pool_Machine
  imports Pool_Properties "HOL-Library.Multiset"
begin

text \<open>
  The pool as a state machine: one step is one operation of the manager under its lock, or the begin,
  the work and the end of a request on a pooled session (the busy counter and the session's own data
  change without the manager's lock, so requests interleave with everything). \<open>pool_reach\<close> relates the
  identifiers registered so far to the pool. The ledger of a pool is the multiset of the identifiers
  it accounts for, pooled or closed.
\<close>

section \<open>Steps\<close>

text \<open>What a request in progress may change: anything but identity, life cycle, counter and lease.\<close>

definition same_life :: "'b session \<Rightarrow> 'b session \<Rightarrow> bool" where
  "same_life s s' \<longleftrightarrow> session_id s' = session_id s \<and> closed s' = closed s
     \<and> session_status s' = session_status s \<and> active_requests s' = active_requests s
     \<and> leased s' = leased s \<and> lease_id s' = lease_id s"

text \<open>What \<open>_create_session\<close> hands to the registration.\<close>

definition fresh_session :: "'b session \<Rightarrow> bool" where
  "fresh_session s \<longleftrightarrow> live s \<and> \<not> leased s \<and> \<not> in_use s"

inductive pool_step :: "'b raw_api \<Rightarrow> manager_config \<Rightarrow> 'b pool \<Rightarrow> 'b pool \<Rightarrow> bool"
  for api :: "'b raw_api" and cfg :: manager_config where
  step_lease: "pool_step api cfg p (snd (find_and_lease now lid key dirty p))"
| step_find: "pool_step api cfg p (snd (find_session key dirty p))"
| step_release: "pool_step api cfg p (snd (release_session now req lid p))"
| step_get: "pool_step api cfg p (snd (get_session req lid need p))"
| step_close: "pool_step api cfg p (snd (close_session api now raced req lid need p))"
| step_relieve: "pool_step api cfg p (snd (relieve api can k p))"
| step_sweep: "pool_step api cfg p (sweep api cfg now p)"
| step_begin: "od_get sid (lru p) = Some s
    \<Longrightarrow> pool_step api cfg p (p\<lparr>lru := od_set sid (acquire_request s) (lru p)\<rparr>)"
| step_work: "od_get sid (lru p) = Some s \<Longrightarrow> same_life s s'
    \<Longrightarrow> pool_step api cfg p (p\<lparr>lru := od_set sid s' (lru p)\<rparr>)"
| step_end: "od_get sid (lru p) = Some s \<Longrightarrow> in_use s
    \<Longrightarrow> pool_step api cfg p (p\<lparr>lru := od_set sid (release_request s) (lru p)\<rparr>)"

inductive pool_reach :: "'b raw_api \<Rightarrow> manager_config \<Rightarrow> pystr list \<Rightarrow> 'b pool \<Rightarrow> bool"
  for api :: "'b raw_api" and cfg :: manager_config where
  reach_start: "pool_reach api cfg [] \<lparr>lru = [], closed_sessions = []\<rparr>"
| reach_register: "pool_reach api cfg ids p \<Longrightarrow> fresh_session s \<Longrightarrow> session_id s \<notin> set ids
    \<Longrightarrow> pool_reach api cfg (session_id s # ids)
          (snd (register_session api (pool_size cfg) now lid s p))"
| reach_step: "pool_reach api cfg ids p \<Longrightarrow> pool_step api cfg p q \<Longrightarrow> pool_reach api cfg ids q"
| reach_purge: "pool_reach api cfg ids p \<Longrightarrow> pool_reach api cfg ids (purge api p)"

inductive_cases pool_stepE: "pool_step api cfg p q"

section \<open>The ledger\<close>

definition ledger :: "'b pool \<Rightarrow> pystr multiset" where
  "ledger p = mset (od_keys (lru p)) + mset (map session_id (closed_sessions p))"

lemma mset_keys_pop:
  assumes "od_ok d" and "od_get k d = Some v"
  shows "mset (od_keys d) = add_mset k (mset (od_keys (od_pop k d)))"
proof -
  obtain a b where ab: "d = a @ (k, v) # b" using od_get_mem [OF assms(2)] by (meson split_list)
  then have "od_pop k d = a @ b" using assms(1) od_pop_split by metis
  then show ?thesis using ab by (simp add: od_keys_def)
qed

lemma mset_keys_to_end: "od_ok d \<Longrightarrow> mset (od_keys (od_to_end k d)) = mset (od_keys d)"
  using mset_keys_pop [of d k] by (auto simp: od_to_end_def od_keys_def split: option.split)

lemma keys_set_present: "od_get k d = Some w \<Longrightarrow> od_keys (od_set k v d) = od_keys d"
  using od_get_None_iff [of k d] by (auto simp: od_keys_set)

lemma close_id [simp]: "session_id (close api s) = session_id s"
  by (simp add: close_def backend_close_def split: prod.split)

lemma ledger_update: "od_get sid (lru p) = Some s \<Longrightarrow> ledger (p\<lparr>lru := od_set sid s' (lru p)\<rparr>) = ledger p"
  by (simp add: ledger_def keys_set_present)

lemma ledger_to_end: "od_ok (lru p) \<Longrightarrow> ledger (p\<lparr>lru := od_to_end sid (lru p)\<rparr>) = ledger p"
  by (simp add: ledger_def mset_keys_to_end)

lemma ledger_bury:
  assumes "od_ok (lru p)" and "od_get sid (lru p) = Some s" and "session_id s' = sid"
  shows "ledger (bury api [s'] (p\<lparr>lru := od_pop sid (lru p)\<rparr>)) = ledger p"
  using mset_keys_pop [OF assms(1,2)] assms(3) by (simp add: ledger_def)

lemma ledger_get_update:
  assumes "pool_inv cap p" and "od_get sid (lru p) = Some s"
  shows "ledger (p\<lparr>lru := od_to_end sid (od_set sid s' (lru p))\<rparr>) = ledger p"
  using ledger_to_end [of "p\<lparr>lru := od_set sid s' (lru p)\<rparr>" sid] ledger_update [OF assms(2), of s'] assms(1)
  by (simp add: pool_inv_def)

lemma ledger_lease: "pool_inv cap p \<Longrightarrow> ledger (snd (find_and_lease now lid key dirty p)) = ledger p"
proof (cases "find (\<lambda>(sid, s). reusable key dirty s \<and> fst (try_acquire_lease now lid s)) (rev (lru p))")
  case (Some e)
  assume inv: "pool_inv cap p"
  obtain sid s where e: "e = (sid, s)" by force
  then have "(sid, s) \<in> set (lru p)" using find_rev_split [OF Some] by auto
  then have "od_get sid (lru p) = Some s" using inv by (simp add: pool_inv_def get_of_mem)
  from ledger_get_update [OF inv this] show ?thesis
    using Some e by (simp add: find_and_lease_def Let_def)
qed (simp add: find_and_lease_def)

lemma ledger_find: "pool_inv cap p \<Longrightarrow> ledger (snd (find_session key dirty p)) = ledger p"
  by (auto simp: find_session_def pool_inv_def intro: ledger_to_end split: option.split prod.split)

lemma ledger_release: "pool_inv cap p \<Longrightarrow> ledger (snd (release_session now req lid p)) = ledger p"
  by (auto simp: release_session_cases split: sum.split dest: access_ok intro: ledger_get_update)

lemma ledger_get: "pool_inv cap p \<Longrightarrow> ledger (snd (get_session req lid need p)) = ledger p"
  by (auto simp: get_session_def pool_inv_def intro: ledger_to_end split: sum.split)

lemma ledger_close_by_id:
  assumes inv: "pool_inv cap p"
  shows "ledger (snd (close_by_id api now raced sid lid need p)) = ledger p"
proof -
  have ok: "od_ok (lru p)" using inv by (simp add: pool_inv_def)
  have again: "ledger (p\<lparr>lru := od_to_end sid (od_set sid s' (od_pop sid (lru p)))\<rparr>) = ledger p"
    if "od_get sid (lru p) = Some s" for s s'
  proof -
    have "od_keys (od_pop sid (lru p) @ [(sid, s')]) = od_keys (od_pop sid (lru p)) @ [sid]"
      by (simp add: od_keys_def)
    then show ?thesis using mset_keys_pop [OF ok that] pop_put_back [OF ok that, of s']
      by (simp add: ledger_def del: od_keys_pop)
  qed
  have gone: "ledger (bury api [s'] (p\<lparr>lru := od_pop sid (lru p)\<rparr>)) = ledger p"
    if "od_get sid (lru p) = Some s" "session_id s' = session_id s" for s s'
    using ledger_bury [OF ok that(1), of s'] live_get [OF inv that(1)] that(2) by simp
  show ?thesis
    by (auto simp: close_by_id_def onOk_def Let_def dest!: live_session_ok split: sum.splits if_splits
        intro: again gone)
qed

lemma ledger_close: "pool_inv cap p \<Longrightarrow> ledger (snd (close_session api now raced req lid need p)) = ledger p"
  by (auto simp: close_session_def ledger_close_by_id split: sum.split)

lemma ledger_reclaim:
  assumes "pool_inv cap p" and "reclaim_one api p = Some q"
  shows "ledger q = ledger p"
proof -
  obtain sid s where o: "oldest_idle (lru p) = Some (sid, s)"
    and q: "q = bury api [s] (p\<lparr>lru := od_pop sid (lru p)\<rparr>)"
    using assms(2) by (auto simp: reclaim_one_def split: option.splits)
  have get: "od_get sid (lru p) = Some s"
    using oldest_idle_mem [OF o] assms(1) by (simp add: pool_inv_def get_of_mem)
  then show ?thesis
    using assms(1) live_get [OF assms(1) get] unfolding q
    by (intro ledger_bury) (simp_all add: pool_inv_def)
qed

lemma ledger_relieve: "pool_inv cap p \<Longrightarrow> ledger (snd (relieve api can k p)) = ledger p"
proof (induction "length (lru p)" arbitrary: p k rule: less_induct)
  case less
  show ?case
  proof (cases "can k \<or> reclaim_one api p = None")
    case True
    then show ?thesis by (subst relieve_loop) auto
  next
    case False
    then obtain q where q: "reclaim_one api p = Some q" by auto
    then obtain sid s where "oldest_idle (lru p) = Some (sid, s)" "lru q = od_pop sid (lru p)"
      by (auto simp: reclaim_one_def split: option.splits)
    moreover have ok: "od_ok (lru p)" using less.prems by (simp add: pool_inv_def)
    ultimately have "length (lru q) < length (lru p)"
      using oldest_idle_split [OF ok] by fastforce
    then show ?thesis
      using less.hyps [of q "Suc k"] pool_inv_reclaim [OF less.prems q] ledger_reclaim [OF less.prems q]
        False q by (subst relieve_loop) simp
  qed
qed

lemma ledger_sweep: "pool_inv cap p \<Longrightarrow> ledger (sweep api cfg now p) = ledger p"
proof -
  have "pool_inv cap q \<Longrightarrow> ledger
      (fold (\<lambda>sid p. snd (close_by_id api now False sid None False p)) sids q) = ledger q" for sids and q :: "'a pool"
    by (induction sids arbitrary: q) (simp_all add: close_by_id_inv ledger_close_by_id)
  then show "pool_inv cap p \<Longrightarrow> ledger (sweep api cfg now p) = ledger p" by (simp add: sweep_def)
qed

lemma ledger_purge: "pool_inv cap p \<Longrightarrow> ledger (purge api p) = ledger p"
proof -
  assume inv: "pool_inv cap p"
  have "map session_id (map snd (lru p)) = od_keys (lru p)"
    using inv unfolding od_keys_def map_map by (intro map_cong) (auto simp: pool_inv_def entries_ok_def)
  moreover have "ledger (purge api p) = mset (map session_id (map snd (lru p)))
      + mset (map session_id (closed_sessions p))"
    by (simp add: ledger_def purge_def od_keys_def comp_def)
  ultimately show ?thesis by (simp only: ledger_def add.commute)
qed

lemma ledger_register:
  assumes inv: "pool_inv cap p" and new: "session_id s \<notin> set (od_keys (lru p))" and "\<not> leased s"
  shows "ledger (snd (register_session api cap now lid s p)) = add_mset (session_id s) (ledger p)"
proof -
  have "mset (od_keys (lru p)) = add_mset (session_id v) (mset (od_keys (od_pop vid (lru p))))"
    if "oldest_idle (lru p) = Some (vid, v)" for vid v
  proof -
    have get: "od_get vid (lru p) = Some v"
      using oldest_idle_mem [OF that] inv by (simp add: pool_inv_def get_of_mem)
    then show ?thesis using live_get [OF inv get] inv mset_keys_pop by (auto simp: pool_inv_def)
  qed
  then show ?thesis
    unfolding register_cases [OF assms]
    by (auto simp: ledger_def od_keys_def split: option.split)
qed

lemmas ledger_steps = ledger_lease ledger_find ledger_release ledger_get ledger_close ledger_relieve
  ledger_sweep ledger_update

section \<open>Invariant of the machine\<close>

lemma same_life_live: "same_life s s' \<Longrightarrow> live s \<Longrightarrow> live s' \<and> session_id s' = session_id s"
  by (simp add: same_life_def live_def)

lemma pool_step_inv:
  "pool_step api cfg p q \<Longrightarrow> pool_inv cap p \<Longrightarrow> pool_inv cap q \<and> ledger q = ledger p"
  by (erule pool_step.cases)
    (auto intro!: inv_intro dest: live_get same_life_live simp: ledger_steps)

lemma reach_inv:
  "pool_reach api cfg ids p \<Longrightarrow> pool_inv (pool_size cfg) p \<and> ledger p = mset ids \<and> distinct ids"
proof (induction rule: pool_reach.induct)
  case reach_start
  then show ?case by (simp add: pool_inv_def od_ok_def od_keys_def entries_ok_def ledger_def)
next
  case (reach_register ids p s now lid)
  then have inv: "pool_inv (pool_size cfg) p" and led: "ledger p = mset ids" and "distinct ids" by auto
  have "set (od_keys (lru p)) \<subseteq> set ids" using led set_mset_mset [of ids]
    by (metis ledger_def mset_subset_eq_add_left set_mset_mono set_mset_mset)
  then have new: "session_id s \<notin> set (od_keys (lru p))" using reach_register by blast
  then show ?case
    using register_inv [OF inv new] ledger_register [OF inv new] led reach_register \<open>distinct ids\<close>
    by (simp add: fresh_session_def)
next
  case (reach_step ids p q)
  then show ?case using pool_step_inv [OF reach_step.hyps(2), of "pool_size cfg"] by simp
next
  case (reach_purge ids p)
  then show ?case using purge_inv ledger_purge by metis
qed

end
