(* ===== verification/Pool_Guarantees.thy ===== *)
theory Pool_Guarantees
  imports Pool_Machine
begin

text \<open>
  The properties of the session pool, over the reachable pools of \<open>Pool_Machine\<close>: every session is
  accounted for exactly once, busy sessions are never closed, and what a registration, a lease request,
  a release, the memory relief and the idle sweep do exactly.
\<close>

section \<open>Helper lemmas\<close>

lemma get_to_end_set: "od_get k (od_to_end j (od_set j v d)) = (if k = j then Some v else od_get k d)"
  by simp

lemma lease_keeps_keys:
  "od_get sid (lru p) = Some s \<Longrightarrow> \<exists>y. od_get sid (lru (snd (find_and_lease now lid key dirty p))) = Some y"
  by (auto simp: find_and_lease_def Let_def split: option.split)

lemma find_keeps_keys: "od_get sid (lru (snd (find_session key dirty p))) = od_get sid (lru p)"
  by (simp add: find_session_def split: option.split prod.split)

lemma release_keeps_keys:
  "od_get sid (lru p) = Some s \<Longrightarrow> \<exists>y. od_get sid (lru (snd (release_session now req lid p))) = Some y"
  by (auto simp: release_session_cases split: sum.split)

lemma get_keeps_keys: "od_get sid (lru (snd (get_session req lid need p))) = od_get sid (lru p)"
  by (simp add: get_session_def split: sum.split prod.split)

lemma close_by_id_busy:
  assumes "od_get sid (lru p) = Some s" and "in_use s"
  shows "\<exists>s'. od_get sid (lru (snd (close_by_id api now raced tid lid need p))) = Some s' \<and> (sid \<noteq> tid \<or> \<not> raced \<longrightarrow> in_use s')"
proof (cases "sid = tid")
  case True
  then show ?thesis using assms
    by (auto simp: close_by_id_def onOk_def Let_def dest!: live_session_ok split: sum.splits)
next
  case False
  then show ?thesis using assms
    by (auto simp: close_by_id_def onOk_def Let_def dest!: live_session_ok split: sum.splits)
qed

lemma close_busy:
  assumes "od_get sid (lru p) = Some s" and "in_use s"
  shows "od_get sid (lru (snd (close_session api now raced req lid need p))) \<noteq> None"
  using close_by_id_busy [OF assms, of api now raced _ lid need]
  by (auto simp: close_session_def assms(1) split: sum.split)

lemma sweep_busy:
  assumes "od_get sid (lru p) = Some s" and "in_use s"
  shows "od_get sid (lru (sweep api cfg now p)) \<noteq> None"
proof -
  have "\<exists>s'. od_get sid (lru (fold (\<lambda>sid p. snd (close_by_id api now False sid None False p)) sids q)) = Some s'"
    if "od_get sid (lru q) = Some t" "in_use t" for sids and q :: "'a pool" and t
    using that
  proof (induction sids arbitrary: q t)
    case (Cons a sids)
    show ?case using close_by_id_busy [OF Cons.prems, of api now False a None False] Cons.IH by auto
  qed simp
  then show ?thesis using assms unfolding sweep_def by fastforce
qed

text \<open>Reclaiming takes idle sessions only, so what is not evictable stays as it is, in its order.\<close>

lemma spared_get:
  assumes "od_ok l" and "od_ok l'" and "filter (\<lambda>(k, s). \<not> evictable s) l = filter (\<lambda>(k, s). \<not> evictable s) l'"
    and "od_get sid l = Some s" and "\<not> evictable s"
  shows "od_get sid l' = Some s"
proof -
  have "(sid, s) \<in> set (filter (\<lambda>(k, s). \<not> evictable s) l)" using od_get_mem [OF assms(4)] assms(5) by simp
  then have "(sid, s) \<in> set l'" unfolding assms(3) by simp
  then show ?thesis using assms(2) by (simp add: od_get_Some_iff)
qed

lemma relieve_exact:
  assumes "od_ok (lru p)"
  shows "\<exists>n \<le> length (idle_entries p).
     fst (relieve api can k p) = k + n
     \<and> closed_sessions (snd (relieve api can k p))
         = closed_sessions p @ map (close api) (map snd (take n (idle_entries p)))
     \<and> idle_entries (snd (relieve api can k p)) = drop n (idle_entries p)
     \<and> filter (\<lambda>(k, s). \<not> evictable s) (lru (snd (relieve api can k p)))
         = filter (\<lambda>(k, s). \<not> evictable s) (lru p)
     \<and> (\<forall>i < n. \<not> can (k + i)) \<and> (can (k + n) \<or> n = length (idle_entries p))"
proof -
  obtain n where n: "n \<le> length (idle_entries p)" "relieve api can k p = (k + n, relief.after_pops api n p)"
    "\<forall>i < n. \<not> can (k + i)" "can (k + n) \<or> idle_entries (relief.after_pops api n p) = []"
    using relief.loop_pops [where api = api and can = can and k = k, OF assms] by blast
  moreover have "idle_entries (relief.after_pops api n p) = drop n (idle_entries p)"
    using relief.after_pops_good [OF assms] by simp
  ultimately show ?thesis
    using relief_pops [OF assms n(1), of api] by (intro exI [of _ n]) auto
qed

lemma relieve_busy:
  assumes inv: "pool_inv cap p" and "od_get sid (lru p) = Some s" and "in_use s"
  shows "od_get sid (lru (snd (relieve api can k p))) = Some s"
proof (rule spared_get)
  show "od_ok (lru p)" "od_ok (lru (snd (relieve api can k p)))"
    using inv relieve_inv [OF inv, of api can k] by (simp_all add: pool_inv_def)
  then show "filter (\<lambda>(k, s). \<not> evictable s) (lru p) = filter (\<lambda>(k, s). \<not> evictable s) (lru (snd (relieve api can k p)))"
    using relieve_exact [where p = p and api = api and can = can and k = k] by metis
qed (use assms in \<open>simp_all add: evictable_def\<close>)

lemma step_keeps_busy:
  assumes "pool_step api cfg p q" and "pool_inv cap p" and "od_get sid (lru p) = Some s" and "in_use s"
  shows "od_get sid (lru q) \<noteq> None"
  using assms
proof cases
  case (step_relieve can k)
  then show ?thesis using relieve_busy assms(2-4) by fastforce
qed (use assms(3,4) in \<open>auto dest: close_busy sweep_busy intro: lease_keeps_keys release_keeps_keys
      simp: find_keeps_keys get_keeps_keys\<close>)

lemma find_filter: "find P xs = (case filter P xs of [] \<Rightarrow> None | y # ys \<Rightarrow> Some y)"
  by (induction xs) auto

lemma reach_new:
  assumes "pool_reach api cfg ids p" and "sid \<notin> set ids"
  shows "sid \<notin> set (od_keys (lru p))"
proof -
  have "set (od_keys (lru p)) \<subseteq> set ids"
    using reach_inv [OF assms(1)] by (metis ledger_def mset_subset_eq_add_left set_mset_mono set_mset_mset)
  then show ?thesis using assms(2) by blast
qed

text \<open>Closing a list of sessions one by one, as the sweep does.\<close>

definition swept :: "real \<Rightarrow> 'b session \<Rightarrow> 'b session" where
  "swept now s = (if leased s then release_lease now s else s)"

lemma close_idle_run:
  assumes "pool_inv cap p" and "od_get sid (lru p) = Some s"
  shows "snd (close_by_id api now False sid None False p) =
    (if in_use s then p else bury api [swept now s] (p\<lparr>lru := od_pop sid (lru p)\<rparr>))"
  using assms live_session_inv [OF assms(1), of sid]
  by (simp add: close_by_id_def Let_def swept_def)

lemma pop_filter: "filter P (od_pop k d) = filter (\<lambda>e. P e \<and> fst e \<noteq> k) d"
  unfolding od_pop_def filter_filter by (rule filter_cong) auto

lemma close_all:
  assumes "pool_inv cap p" and "distinct sids" and "set sids \<subseteq> set (od_keys (lru p))"
  shows "let q = fold (\<lambda>sid p. snd (close_by_id api now False sid None False p)) sids p in
    lru q = filter (\<lambda>(k, s). \<not> (k \<in> set sids \<and> \<not> in_use s)) (lru p)
    \<and> closed_sessions q = closed_sessions p
        @ map (\<lambda>s. close api (swept now s)) (filter (\<lambda>s. \<not> in_use s) (map (\<lambda>sid. the (od_get sid (lru p))) sids))"
  using assms
proof (induction sids arbitrary: p)
  case (Cons sid sids)
  let ?p1 = "snd (close_by_id api now False sid None False p)"
  obtain s where s: "od_get sid (lru p) = Some s"
    using Cons.prems(3) od_get_None_iff [of sid "lru p"] by fastforce
  have inv: "pool_inv cap ?p1" using Cons.prems(1) by (rule close_by_id_inv)
  have keys: "set sids \<subseteq> set (od_keys (lru ?p1))"
    using Cons.prems(2,3) by (auto simp: close_idle_run [OF Cons.prems(1) s])
  have look: "map (\<lambda>sid. the (od_get sid (lru ?p1))) sids = map (\<lambda>sid. the (od_get sid (lru p))) sids"
    using Cons.prems(2) by (auto simp: close_idle_run [OF Cons.prems(1) s])
  have only: "(k, x) \<in> set (lru p) \<Longrightarrow> k = sid \<Longrightarrow> x = s" for k x
    using s Cons.prems(1) by (simp add: pool_inv_def od_get_Some_iff [symmetric])
  note IH = Cons.IH [OF inv _ keys, unfolded look Let_def]
  have "lru (fold (\<lambda>sid p. snd (close_by_id api now False sid None False p)) (sid # sids) p)
      = filter (\<lambda>(k, s). \<not> (k \<in> set (sid # sids) \<and> \<not> in_use s)) (lru p)"
    using IH Cons.prems(2)
    by (auto simp: close_idle_run [OF Cons.prems(1) s] pop_filter intro!: filter_cong dest: only)
  moreover have "closed_sessions (fold (\<lambda>sid p. snd (close_by_id api now False sid None False p)) (sid # sids) p)
      = closed_sessions p @ map (\<lambda>s. close api (swept now s))
          (filter (\<lambda>s. \<not> in_use s) (map (\<lambda>sid. the (od_get sid (lru p))) (sid # sids)))"
    using IH Cons.prems(2) s by (auto simp: close_idle_run [OF Cons.prems(1) s])
  ultimately show ?case by (simp only: Let_def simp_thms)
qed simp

section \<open>Properties\<close>

text \<open>Property C13: no session is lost. In every pool the manager can reach, whatever requests, leases, closings,
  reliefs, sweeps and gateway losses came before, each session that was ever registered is either in the
  pool or closed, exactly once; the pool has at most \<open>pool_size\<close> entries under distinct identifiers, each
  entry is alive, and each session taken out has been closed.\<close>

theorem every_session_accounted:
  assumes "pool_reach api cfg ids p"
  shows "set (od_keys (lru p)) \<union> session_id ` set (closed_sessions p) = set ids
    \<and> set (od_keys (lru p)) \<inter> session_id ` set (closed_sessions p) = {}
    \<and> distinct (od_keys (lru p)) \<and> distinct (map session_id (closed_sessions p))
    \<and> int (length (lru p)) \<le> max 0 (pool_size cfg)
    \<and> (\<forall>(sid, s) \<in> set (lru p). session_id s = sid \<and> live s)
    \<and> (\<forall>s \<in> set (closed_sessions p). closed s)"
proof -
  let ?all = "od_keys (lru p) @ map session_id (closed_sessions p)"
  have inv: "pool_inv (pool_size cfg) p" and led: "mset ?all = mset ids" and "distinct ids"
    using reach_inv [OF assms] by (simp_all add: ledger_def)
  have "set ?all = set ids" using led by (rule mset_eq_setD)
  moreover have "distinct ?all" using \<open>distinct ids\<close> mset_eq_imp_distinct_iff [OF led] by blast
  ultimately show ?thesis using inv by (auto simp: pool_inv_def entries_ok_def)
qed

text \<open>Property C14: a busy session stays in the pool. No operation of the manager, no other request, no
  registration with its eviction, no memory relief and no idle sweep takes out a session that is
  processing a request; only the loss of the gateway does.\<close>

theorem busy_session_stays:
  assumes "pool_reach api cfg ids p" and "od_get sid (lru p) = Some s" and "in_use s"
    and "fresh_session n" and "session_id n \<notin> set ids"
  shows "(pool_step api cfg p q \<longrightarrow> od_get sid (lru q) \<noteq> None)
    \<and> od_get sid (lru (snd (register_session api (pool_size cfg) now lid n p))) = Some s"
proof
  have inv: "pool_inv (pool_size cfg) p" using reach_inv [OF assms(1)] by simp
  then show "pool_step api cfg p q \<longrightarrow> od_get sid (lru q) \<noteq> None"
    using step_keeps_busy assms(2,3) by blast
  have new: "session_id n \<notin> set (od_keys (lru p))" using assms(1,5) by (rule reach_new)
  then have "sid \<noteq> session_id n" using assms(2) od_get_None_iff [of "session_id n" "lru p"] by auto
  then have add: "od_get sid (d @ [(session_id n, x)]) = od_get sid d" for d and x :: "'a session"
    by (simp add: od_get_def map_add_def split: option.split)
  have spare: "vid \<noteq> sid" if "oldest_idle (lru p) = Some (vid, v)" for vid v
    using oldest_idle_mem [OF that] inv assms(2,3)
    by (auto simp: pool_inv_def od_get_Some_iff [symmetric] evictable_def)
  have unleased: "\<not> leased n" using assms(4) by (simp add: fresh_session_def)
  show "od_get sid (lru (snd (register_session api (pool_size cfg) now lid n p))) = Some s"
    unfolding register_cases [OF inv new unleased]
    using assms(2) spare by (auto simp: add split: option.split)
qed

text \<open>What a registration does. In a pool with room the new session is appended, leased if a lease was
  asked for; in a full pool the oldest session that is neither busy nor leased makes room and is closed;
  when there is none the answer is \<open>PoolExhausted\<close>, the pool is as before and the new session is closed.\<close>

theorem register_decides:
  assumes "pool_reach api cfg ids p" and "fresh_session n" and "session_id n \<notin> set ids"
    and "register_session api (pool_size cfg) now lid n p = (r, q)"
  shows "if int (length (lru p)) < pool_size cfg
    then r = Inr (leased_as now lid n) \<and> closed_sessions q = closed_sessions p
      \<and> lru q = lru p @ [(session_id n, leased_as now lid n)]
    else if idle_entries p \<noteq> []
    then r = Inr (leased_as now lid n)
      \<and> closed_sessions q = closed_sessions p @ [close api (snd (hd (idle_entries p)))]
      \<and> lru q = od_pop (fst (hd (idle_entries p))) (lru p) @ [(session_id n, leased_as now lid n)]
    else (\<exists>e. r = Inl e \<and> class_of e = C_PoolExhausted) \<and> lru q = lru p
      \<and> closed_sessions q = closed_sessions p @ [close api (leased_as now lid n)]"
proof -
  have inv: "pool_inv (pool_size cfg) p" using reach_inv [OF assms(1)] by simp
  have new: "session_id n \<notin> set (od_keys (lru p))" using assms(1,3) by (rule reach_new)
  have "\<not> leased n" using assms(2) by (simp add: fresh_session_def)
  note run = register_cases [OF inv new this, of api now lid, unfolded assms(4)]
  have hd: "oldest_idle (lru p) = (case idle_entries p of [] \<Rightarrow> None | e # es \<Rightarrow> Some e)"
    unfolding oldest_idle_def idle_entries_def by (rule find_filter)
  show ?thesis
    using run by (cases "idle_entries p") (auto simp: hd pool_full_error_def session_error_def split: if_splits)
qed

text \<open>A lease request gets the newest session it may have, and nobody else gets that one. The session
  found is unleased, has the requested key (and no history when a clean one is asked for), every newer
  session in the pool is unsuitable; it comes back leased under the request's token at the end of the
  order, all other entries untouched, and a second request is never given it. With no suitable session
  nothing changes.\<close>

theorem lease_newest:
  assumes "pool_reach api cfg ids p" and "find_and_lease now lid key dirty p = (r, q)"
  shows "case r of
     None \<Rightarrow> q = p \<and> (\<forall>(sid, s) \<in> set (lru p). \<not> reusable key dirty s)
   | Some s1 \<Rightarrow> (\<exists>u s v. lru p = u @ (session_id s1, s) # v \<and> reusable key dirty s
        \<and> (\<forall>(k, x) \<in> set v. \<not> reusable key dirty x)
        \<and> lru q = u @ v @ [(session_id s1, s1)] \<and> closed_sessions q = closed_sessions p
        \<and> leased s1 \<and> lease_id s1 = Some lid \<and> dependency_key s1 = Some key)
      \<and> (\<forall>s2. fst (find_and_lease now' lid' key' dirty' q) = Some s2 \<longrightarrow> session_id s2 \<noteq> session_id s1)"
proof -
  have inv: "pool_inv (pool_size cfg) p" using reach_inv [OF assms(1)] by simp
  have invq: "pool_inv (pool_size cfg) q"
    using find_and_lease_inv [OF inv, of now lid key dirty] assms(2) by simp
  note one = find_and_lease_cases [OF inv assms(2)]
  show ?thesis
  proof (cases r)
    case None
    then show ?thesis using one by simp
  next
    case (Some s1)
    then obtain u s v where s: "lru p = u @ (session_id s1, s) # v" "reusable key dirty s"
      "\<forall>(k, x) \<in> set v. \<not> reusable key dirty x" "s1 = snd (try_acquire_lease now lid s)"
      "q = p\<lparr>lru := u @ v @ [(session_id s1, s1)]\<rparr>" using one by auto
    have got: "leased s1" "lease_id s1 = Some lid" "dependency_key s1 = Some key"
      using s(2) unfolding s(4) by (simp_all add: reusable_def try_acquire_lease_def touch_def)
    have "session_id s2 \<noteq> session_id s1"
      if two: "fst (find_and_lease now' lid' key' dirty' q) = Some s2" for s2
    proof
      assume same: "session_id s2 = session_id s1"
      obtain q' where "find_and_lease now' lid' key' dirty' q = (Some s2, q')"
        using two by (metis prod.collapse)
      from find_and_lease_cases [OF invq this]
      obtain a t b where t: "lru q = a @ (session_id s2, t) # b" "reusable key' dirty' t" by auto
      have "(session_id s1, s1) \<in> set (lru q)" using s(5) by simp
      moreover have "(session_id s1, t) \<in> set (lru q)" using t(1) same by simp
      moreover have "od_ok (lru q)" using invq by (simp add: pool_inv_def)
      ultimately have "s1 = t" by (metis get_of_mem option.inject)
      then show False using got(1) t(2) by (simp add: reusable_def)
    qed
    then show ?thesis using Some s got
      by (simp, intro exI [of _ u] exI [of _ s] exI [of _ v]) auto
  qed
qed

text \<open>The idle sweep closes exactly what is due. A round takes out every session that is not busy
  and has been inactive for longer than its limit (the lease limit when it is leased, the idle limit
  otherwise), closes each in the order of the pool after releasing its lease, and leaves every other
  entry as it is, in its order.\<close>

theorem sweep_exact:
  assumes "pool_reach api cfg ids p"
  shows "lru (sweep api cfg now p) = filter (\<lambda>(sid, s). in_use s \<or> \<not> due cfg now s) (lru p)
    \<and> closed_sessions (sweep api cfg now p) = closed_sessions p
        @ map (\<lambda>s. close api (swept now s)) (filter (\<lambda>s. due cfg now s \<and> \<not> in_use s) (map snd (lru p)))
    \<and> (\<forall>(sid, s) \<in> set (lru p). due cfg now s \<longleftrightarrow>
          (if leased s then max_lease_age cfg else idle_timeout cfg) < now - last_activity s)"
proof -
  have inv: "pool_inv (pool_size cfg) p" using reach_inv [OF assms] by simp
  then have ok: "od_ok (lru p)" by (simp add: pool_inv_def)
  let ?due = "filter (\<lambda>(sid, s). due cfg now s) (lru p)"
  have targets: "sweep_targets cfg now p = map fst ?due" by (simp add: sweep_targets_def)
  have "distinct (sweep_targets cfg now p)" "set (sweep_targets cfg now p) \<subseteq> set (od_keys (lru p))"
    using ok unfolding targets od_ok_def od_keys_def by (simp_all add: distinct_map_filter) auto
  note all = close_all [OF inv this, of api now, folded sweep_def, unfolded Let_def]
  have mem: "k \<in> set (sweep_targets cfg now p) \<longleftrightarrow> due cfg now s" if "(k, s) \<in> set (lru p)" for k s
  proof -
    have one: "(k, s') \<in> set (lru p) \<longleftrightarrow> s' = s" for s'
      using ok that by (metis get_of_mem option.inject)
    have "k \<in> set (sweep_targets cfg now p) \<longleftrightarrow> (\<exists>s'. (k, s') \<in> set (lru p) \<and> due cfg now s')"
      unfolding targets by (simp add: image_iff)
    then show ?thesis by (simp add: one)
  qed
  have "lru (sweep api cfg now p) = filter (\<lambda>(sid, s). in_use s \<or> \<not> due cfg now s) (lru p)"
    unfolding conjunct1 [OF all] by (rule filter_cong) (auto simp: mem)
  moreover have "map (\<lambda>sid. the (od_get sid (lru p))) (sweep_targets cfg now p) = map snd ?due"
    using ok unfolding targets map_map by (intro map_cong) (auto dest: get_of_mem)
  moreover have "filter (\<lambda>s. \<not> in_use s) (map snd ?due)
      = filter (\<lambda>s. due cfg now s \<and> \<not> in_use s) (map snd (lru p))"
    by (auto simp: filter_map comp_def case_prod_beta' intro: filter_cong)
  moreover have "\<forall>(sid, s) \<in> set (lru p). due cfg now s \<longleftrightarrow>
      (if leased s then max_lease_age cfg else idle_timeout cfg) < now - last_activity s"
    using inv by (auto simp: due_def is_idle_def pool_inv_def entries_ok_def live_def)
  ultimately show ?thesis using conjunct2 [OF all] by simp
qed

text \<open>The memory relief ends and evicts no more than it must. It reads the memory files at most once
  more than there are idle sessions; with \<open>n\<close> evictions exactly the \<open>n\<close> oldest idle sessions are closed,
  oldest first, each reading before the last refused, the last one admits or nothing idle is left, and
  every busy or leased session stays as it is, in its order.\<close>

theorem relief_minimal:
  assumes "pool_reach api cfg ids p"
  shows "\<exists>n \<le> length (idle_entries p).
     fst (relieve api can 0 p) = n
     \<and> closed_sessions (snd (relieve api can 0 p))
         = closed_sessions p @ map (close api) (map snd (take n (idle_entries p)))
     \<and> idle_entries (snd (relieve api can 0 p)) = drop n (idle_entries p)
     \<and> filter (\<lambda>(k, s). \<not> evictable s) (lru (snd (relieve api can 0 p)))
         = filter (\<lambda>(k, s). \<not> evictable s) (lru p)
     \<and> (\<forall>i < n. \<not> can i) \<and> (can n \<or> n = length (idle_entries p))"
  using relieve_exact [where k = 0 and p = p and api = api and can = can] reach_inv [OF assms]
  by (simp add: pool_inv_def)

text \<open>Releasing returns the session to the pool. A session released with its lease token, while no request
  runs on it, is unleased at the newest end; the next lease request for its key that accepts a used
  session is given this session, under the new token.\<close>

theorem release_then_reuse:
  assumes "pool_reach api cfg ids p" and "normalize_session_id req = Inr sid"
    and "od_get sid (lru p) = Some s" and "leased s" and "lease_id s = lid" and "truthy lid"
    and "\<not> in_use s" and "dependency_key s = Some key"
  shows "fst (release_session now req lid p) = Inr True
    \<and> lru (snd (release_session now req lid p)) = od_pop sid (lru p) @ [(sid, release_lease now s)]
    \<and> (\<exists>s1. fst (find_and_lease now' lid' key True (snd (release_session now req lid p))) = Some s1
          \<and> session_id s1 = sid \<and> leased s1 \<and> lease_id s1 = Some lid')"
proof -
  have inv: "pool_inv (pool_size cfg) p" using reach_inv [OF assms(1)] by simp
  have live: "live s" "session_id s = sid" using live_get [OF inv assms(3)] by auto
  have "access True lid sid p = Inr s"
    using assms(3-6) live_session_inv [OF inv, of sid] by (simp add: access_def require_lease_def)
  then have run: "release_session now req lid p =
      (Inr True, p\<lparr>lru := od_pop sid (lru p) @ [(sid, release_lease now s)]\<rparr>)"
    using assms(2,7) by (simp add: release_session_cases od_to_end_set)
  have reuse: "reusable key True (release_lease now s)"
    using live assms(8) by (simp add: reusable_def release_lease_def touch_def live_def)
  then have "find (\<lambda>(sid, s). reusable key True s \<and> fst (try_acquire_lease now' lid' s))
      (rev (od_pop sid (lru p) @ [(sid, release_lease now s)])) = Some (sid, release_lease now s)"
    by (simp add: reusable_leasable [OF reuse])
  then show ?thesis using run live(2)
    by (auto simp: find_and_lease_def Let_def try_acquire_lease_def release_lease_def touch_def)
qed

section \<open>Witnesses\<close>

text \<open>A pool of one place whose only session was registered under a lease, and the same pool while a request
  runs.\<close>

definition demo_config :: manager_config where
  "demo_config = \<lparr>idle_timeout = 60, max_lease_age = 600, pool_size = 1, initial_sessions = 0,
     memory_management_enabled = True, default_field = ''HOL'', admission_retries = 2,
     session_create_timeout = 120\<rparr>"

definition demo_id :: pystr where
  "demo_id = ''00000000-0000-0000-0000-000000000001''"

definition demo_entry :: "nat session" where
  "demo_entry = demo_session\<lparr>session_id := demo_id, dependency_key := Some ''k''\<rparr>"

definition demo_leased :: "nat session" where
  "demo_leased = demo_entry\<lparr>leased := True, lease_id := Some ''t1'', last_activity := 5\<rparr>"

definition demo_pool :: "nat pool" where
  "demo_pool = \<lparr>lru = [(demo_id, demo_leased)], closed_sessions = []\<rparr>"

definition demo_busy_pool :: "nat pool" where
  "demo_busy_pool = \<lparr>lru = [(demo_id, acquire_request demo_leased)], closed_sessions = []\<rparr>"

lemmas demo_pool_defs = demo_config_def demo_entry_def demo_leased_def demo_pool_def demo_busy_pool_def

lemma demo_entry_fresh: "fresh_session demo_entry" "session_id demo_entry = demo_id"
  by (simp_all add: fresh_session_def live_def in_use_def demo_entry_def demo_defs)

lemma demo_reach: "pool_reach demo_api demo_config [demo_id] demo_pool"
proof -
  have "snd (register_session demo_api (pool_size demo_config) 5 (Some ''t1'') demo_entry
      \<lparr>lru = [], closed_sessions = []\<rparr>) = demo_pool"
    by (subst register_cases)
      (simp_all add: pool_inv_def od_ok_def od_keys_def entries_ok_def demo_pool_defs leased_as_def
        try_acquire_lease_def touch_def demo_defs)
  then show ?thesis
    using reach_register [OF reach_start demo_entry_fresh(1), of demo_api demo_config 5 "Some ''t1''"]
    by (simp add: demo_entry_fresh(2))
qed

lemma demo_busy_reach: "pool_reach demo_api demo_config [demo_id] demo_busy_pool"
proof -
  have "pool_step demo_api demo_config demo_pool
      (demo_pool\<lparr>lru := od_set demo_id (acquire_request demo_leased) (lru demo_pool)\<rparr>)"
    by (rule step_begin) (simp add: demo_pool_def od_get_def)
  then show ?thesis
    using reach_step [OF demo_reach] by (simp add: demo_pool_def demo_busy_pool_def od_set_def)
qed

theorem every_session_accounted_witness:
  "set (od_keys (lru demo_pool)) \<union> session_id ` set (closed_sessions demo_pool) = {demo_id}"
  using every_session_accounted [OF demo_reach] by simp

theorem busy_session_stays_witness:
  "od_get demo_id (lru (snd (register_session demo_api 1 6 None (demo_entry\<lparr>session_id := ''n''\<rparr>) demo_busy_pool)))
     = Some (acquire_request demo_leased)"
proof -
  have "fresh_session (demo_entry\<lparr>session_id := ''n''\<rparr>)"
    by (simp add: fresh_session_def live_def in_use_def demo_entry_def demo_defs)
  then show ?thesis
    using busy_session_stays [OF demo_busy_reach, of demo_id "acquire_request demo_leased"
        "demo_entry\<lparr>session_id := ''n''\<rparr>" demo_busy_pool 6 None]
    by (simp add: demo_pool_defs od_get_def in_use_def acquire_request_def demo_id_def)
qed

theorem register_decides_witness:
  "lru (snd (register_session demo_api 1 6 None (demo_entry\<lparr>session_id := ''n''\<rparr>) demo_busy_pool)) = lru demo_busy_pool"
proof -
  let ?n = "demo_entry\<lparr>session_id := ''n''\<rparr>"
  have "fresh_session ?n" by (simp add: fresh_session_def live_def in_use_def demo_entry_def demo_defs)
  moreover have "session_id ?n \<notin> set [demo_id]" by (simp add: demo_id_def)
  moreover obtain r q where "register_session demo_api (pool_size demo_config) 6 None ?n demo_busy_pool = (r, q)"
    by force
  ultimately show ?thesis
    using register_decides [OF demo_busy_reach, of ?n 6 None r q]
    by (simp add: demo_pool_defs idle_entries_def evictable_def acquire_request_def in_use_def)
qed

theorem lease_newest_witness:
  "snd (find_and_lease 7 ''t2'' ''k'' True demo_pool) = demo_pool"
proof -
  obtain r q where rq: "find_and_lease 7 ''t2'' ''k'' True demo_pool = (r, q)" by force
  have no: "\<not> reusable ''k'' True demo_leased" by (simp add: reusable_def demo_leased_def)
  have "r = None"
    using lease_newest [OF demo_reach rq, of 7 "''t2''" "''k''" True] no
    by (auto simp: demo_pool_def Cons_eq_append_conv split: option.splits)
  then show ?thesis using lease_newest [OF demo_reach rq] rq by simp
qed

theorem sweep_exact_witness:
  "lru (sweep demo_api demo_config 700 demo_pool) = []
   \<and> lru (sweep demo_api demo_config 700 demo_busy_pool) = lru demo_busy_pool"
  using sweep_exact [OF demo_reach, of 700] sweep_exact [OF demo_busy_reach, of 700]
  by (simp add: demo_pool_defs due_def is_idle_def in_use_def acquire_request_def demo_defs)

theorem relief_minimal_witness:
  "fst (relieve demo_api (\<lambda>_. False) 0 demo_pool) = 0"
  using relief_minimal [OF demo_reach, of "\<lambda>_. False"]
  by (simp add: demo_pool_defs idle_entries_def evictable_def)

theorem release_then_reuse_witness:
  "fst (release_session 9 demo_id (Some ''t1'') demo_pool) = Inr True"
proof -
  have "normalize_session_id demo_id = Inr demo_id" by code_simp
  moreover have "od_get demo_id (lru demo_pool) = Some demo_leased"
    by (simp add: demo_pool_def od_get_def)
  ultimately show ?thesis
    using release_then_reuse [OF demo_reach, of demo_id demo_id demo_leased "Some ''t1''" "''k''" 9]
    by (simp add: demo_leased_def demo_entry_def in_use_def demo_defs truthy_def)
qed

end
