(* ===== verification/Memory_Monitor.thy ===== *)
theory Memory_Monitor
  imports Py_Prelude
begin

text \<open>
  Memory admission (\<open>server/app/services/memory_monitor.py\<close>). The files read are an environment: a
  path maps to the text a read returns, or to \<open>None\<close> for an \<open>OSError\<close>. The settings of
  \<open>core/config.py\<close> are the fields of \<open>memory_config\<close>. Percentages are exact real numbers.
\<close>

section \<open>Reading numbers\<close>

type_synonym file_env = "pystr \<Rightarrow> pystr option"

text \<open>\<open>int(s)\<close>: a sign, then decimal digits with single underscores between digits.\<close>

fun digits_value :: "int \<Rightarrow> pystr \<Rightarrow> int option" where
  "digits_value acc [] = None"
| "digits_value acc (c # cs) =
     (if \<not> is_digit_ascii c then None
      else (let acc' = 10 * acc + (int (ord c) - 48) in
        case cs of [] \<Rightarrow> Some acc'
        | d # ds \<Rightarrow> if d = CHR ''_'' then digits_value acc' ds else digits_value acc' (d # ds)))"

definition py_int :: "pystr \<Rightarrow> int option" where
  "py_int s = (case strip s of
       [] \<Rightarrow> None
     | c # cs \<Rightarrow> if c = CHR ''-'' then map_option uminus (digits_value 0 cs)
                 else if c = CHR ''+'' then digits_value 0 cs
                 else digits_value 0 (c # cs))"

text \<open>Iterating over an open text file: lines with their newline.\<close>

definition file_lines :: "pystr \<Rightarrow> pystr list" where
  "file_lines s = (let ls = split_on NL s in
     map (\<lambda>l. l @ [NL]) (butlast ls) @ (if last ls = [] then [] else [last ls]))"

definition read_int_file :: "file_env \<Rightarrow> pystr \<Rightarrow> int option" where
  "read_int_file fs path = (case fs path of None \<Rightarrow> None | Some txt \<Rightarrow> py_int (strip txt))"

definition read_cgroup_max :: "file_env \<Rightarrow> pystr \<Rightarrow> int option" where
  "read_cgroup_max fs path =
     (case fs path of None \<Rightarrow> None
      | Some txt \<Rightarrow> (let raw = strip txt in if raw = ''max'' then None else py_int raw))"

text \<open>The result of the loop over the lines: it went on to the end, or it returned or raised.\<close>

fun scan_mem_total :: "pystr list \<Rightarrow> int option" where
  "scan_mem_total [] = None"
| "scan_mem_total (line # lines) =
     (if startswith line ''MemTotal:'' \<and> 2 \<le> length (words_of line)
      then map_option (\<lambda>k. k * 1024) (py_int (words_of line ! 1))
      else scan_mem_total lines)"

definition host_mem_total_bytes :: "file_env \<Rightarrow> int option" where
  "host_mem_total_bytes fs =
     (case fs ''/proc/meminfo'' of None \<Rightarrow> None | Some txt \<Rightarrow> scan_mem_total (file_lines txt))"

datatype 'a scan = NotFound | Failed | Found 'a

fun scan_stat :: "pystr \<Rightarrow> pystr list \<Rightarrow> int scan" where
  "scan_stat key [] = NotFound"
| "scan_stat key (line # lines) =
     (if startswith line (key @ '' '') then
        (if length (words_of line) \<le> 1 then Failed
         else case py_int (words_of line ! 1) of None \<Rightarrow> Failed | Some k \<Rightarrow> Found k)
      else scan_stat key lines)"

fun read_inactive_from :: "file_env \<Rightarrow> (pystr \<times> pystr) list \<Rightarrow> int" where
  "read_inactive_from fs [] = 0"
| "read_inactive_from fs ((path, key) # rest) =
     (case fs path of None \<Rightarrow> read_inactive_from fs rest
      | Some txt \<Rightarrow> (case scan_stat key (file_lines txt) of
            Found k \<Rightarrow> k | _ \<Rightarrow> read_inactive_from fs rest))"

definition CG_V2_CURRENT :: pystr where "CG_V2_CURRENT = ''/sys/fs/cgroup/memory.current''"
definition CG_V2_MAX :: pystr where "CG_V2_MAX = ''/sys/fs/cgroup/memory.max''"
definition CG_V2_STAT :: pystr where "CG_V2_STAT = ''/sys/fs/cgroup/memory.stat''"
definition CG_V1_USAGE :: pystr where "CG_V1_USAGE = ''/sys/fs/cgroup/memory/memory.usage_in_bytes''"
definition CG_V1_LIMIT :: pystr where "CG_V1_LIMIT = ''/sys/fs/cgroup/memory/memory.limit_in_bytes''"
definition CG_V1_STAT :: pystr where "CG_V1_STAT = ''/sys/fs/cgroup/memory/memory.stat''"

definition V1_UNLIMITED_FLOOR :: int where
  "V1_UNLIMITED_FLOOR = 2 ^ 62"

section \<open>The monitor\<close>

record memory_config =
  pressure_threshold :: real
  min_available_mb :: int
  fallback_system_mb :: int

record memory_snapshot =
  used_bytes :: int
  limit_bytes :: int

definition available_bytes :: "memory_snapshot \<Rightarrow> int" where
  "available_bytes snap = max 0 (limit_bytes snap - used_bytes snap)"

definition pressure_pct :: "memory_snapshot \<Rightarrow> real" where
  "pressure_pct snap =
     (if limit_bytes snap \<le> 0 then 0 else of_int (used_bytes snap) / of_int (limit_bytes snap) * 100)"

definition mb :: "int \<Rightarrow> real" where
  "mb n = of_int n / (1024 * 1024)"

definition read_inactive_file :: "file_env \<Rightarrow> int" where
  "read_inactive_file fs =
     read_inactive_from fs [(CG_V2_STAT, ''inactive_file''), (CG_V1_STAT, ''total_inactive_file'')]"

definition read_used :: "file_env \<Rightarrow> int" where
  "read_used fs =
     (let used = (case read_int_file fs CG_V2_CURRENT of None \<Rightarrow> read_int_file fs CG_V1_USAGE | Some u \<Rightarrow> Some u)
      in case used of None \<Rightarrow> 0 | Some u \<Rightarrow> max 0 (u - read_inactive_file fs))"

definition read_limit :: "memory_config \<Rightarrow> file_env \<Rightarrow> int" where
  "read_limit cfg fs =
     (let limit = read_cgroup_max fs CG_V2_MAX;
          limit = (case limit of Some l \<Rightarrow> Some l
            | None \<Rightarrow> (case read_int_file fs CG_V1_LIMIT of
                None \<Rightarrow> None | Some v1 \<Rightarrow> if v1 < V1_UNLIMITED_FLOOR then Some v1 else None));
          limit = (case limit of Some l \<Rightarrow> Some l | None \<Rightarrow> host_mem_total_bytes fs)
      in case limit of
           None \<Rightarrow> fallback_system_mb cfg * 1024 * 1024
         | Some l \<Rightarrow> if l \<le> 0 then fallback_system_mb cfg * 1024 * 1024 else l)"

definition read_memory :: "memory_config \<Rightarrow> file_env \<Rightarrow> memory_snapshot" where
  "read_memory cfg fs = \<lparr>used_bytes = read_used fs, limit_bytes = read_limit cfg fs\<rparr>"

definition can_admit :: "memory_config \<Rightarrow> memory_snapshot \<Rightarrow> bool" where
  "can_admit cfg snap =
     (pressure_pct snap < pressure_threshold cfg
      \<and> available_bytes snap > min_available_mb cfg * 1024 * 1024)"

record memory_status =
  memory_used_mb :: real
  memory_limit_mb :: real
  memory_available_mb :: real
  memory_pressure_pct :: real

definition status_dict :: "memory_snapshot \<Rightarrow> memory_status" where
  "status_dict snap =
     \<lparr>memory_used_mb = round1 (mb (used_bytes snap)),
      memory_limit_mb = round1 (mb (limit_bytes snap)),
      memory_available_mb = round1 (mb (available_bytes snap)),
      memory_pressure_pct = round1 (pressure_pct snap)\<rparr>"

section \<open>Lemmas\<close>

lemma available_nonneg: "0 \<le> available_bytes snap"
  by (simp add: available_bytes_def)

lemma read_used_nonneg: "0 \<le> read_used fs"
  by (simp add: read_used_def Let_def split: option.split)

lemma read_limit_pos: "0 < fallback_system_mb cfg \<Longrightarrow> 0 < read_limit cfg fs"
  by (auto simp: read_limit_def Let_def split: option.split)

lemma pressure_linear:
  "0 < limit_bytes snap \<Longrightarrow>
     pressure_pct snap < t \<longleftrightarrow> 100 * of_int (used_bytes snap) < t * of_int (limit_bytes snap)"
  by (simp add: pressure_pct_def field_simps)

section \<open>Properties\<close>

text \<open>A snapshot is always sane: use is never negative and the limit is positive, whatever the
  files hold, so the pressure is the plain quotient and admission is decided by two linear
  comparisons.\<close>

theorem admission_linear:
  assumes "0 < fallback_system_mb cfg" and "0 \<le> min_available_mb cfg"
  shows "0 \<le> used_bytes (read_memory cfg fs) \<and> 0 < limit_bytes (read_memory cfg fs)
    \<and> (can_admit cfg (read_memory cfg fs) \<longleftrightarrow>
         100 * of_int (read_used fs) < pressure_threshold cfg * of_int (read_limit cfg fs)
         \<and> min_available_mb cfg * 1024 * 1024 < read_limit cfg fs - read_used fs)"
proof -
  have pos: "0 < limit_bytes (read_memory cfg fs)"
    using read_limit_pos [OF assms(1)] by (simp add: read_memory_def)
  have "max 0 x > m \<longleftrightarrow> x > m" if "0 \<le> m" for x m :: int using that by auto
  then have avail: "available_bytes (read_memory cfg fs) > min_available_mb cfg * 1024 * 1024
      \<longleftrightarrow> read_limit cfg fs - read_used fs > min_available_mb cfg * 1024 * 1024"
    using assms(2) by (simp add: available_bytes_def read_memory_def)
  show ?thesis
    using pos avail pressure_linear [OF pos, of "pressure_threshold cfg"] read_used_nonneg [of fs]
    by (simp add: can_admit_def read_memory_def)
qed

theorem admission_linear_witness:
  "\<not> can_admit \<lparr>pressure_threshold = 85, min_available_mb = 256, fallback_system_mb = 4096\<rparr>
     (read_memory \<lparr>pressure_threshold = 85, min_available_mb = 256, fallback_system_mb = 4096\<rparr>
        [CG_V2_CURRENT \<mapsto> ''900'', CG_V2_MAX \<mapsto> ''1000''])"
proof -
  let ?cfg = "\<lparr>pressure_threshold = 85, min_available_mb = 256, fallback_system_mb = 4096\<rparr>"
  let ?fs = "[CG_V2_CURRENT \<mapsto> ''900'', CG_V2_MAX \<mapsto> ''1000'']"
  have "read_used ?fs = 900" "read_limit ?cfg ?fs = 1000" by code_simp+
  then show ?thesis using admission_linear [of ?cfg ?fs] by simp
qed

text \<open>Admission is monotone: with the same limit, a session that is admitted at some use is
  admitted at any lower use.\<close>

theorem can_admit_antitone:
  assumes "can_admit cfg \<lparr>used_bytes = u, limit_bytes = l\<rparr>" and "u' \<le> u"
  shows "can_admit cfg \<lparr>used_bytes = u', limit_bytes = l\<rparr>"
proof -
  have "pressure_pct \<lparr>used_bytes = u', limit_bytes = l\<rparr> \<le> pressure_pct \<lparr>used_bytes = u, limit_bytes = l\<rparr>"
    using assms(2) by (simp add: pressure_pct_def divide_right_mono)
  moreover have "available_bytes \<lparr>used_bytes = u, limit_bytes = l\<rparr> \<le> available_bytes \<lparr>used_bytes = u', limit_bytes = l\<rparr>"
    using assms(2) by (simp add: available_bytes_def)
  ultimately show ?thesis using assms(1) by (simp add: can_admit_def)
qed

theorem can_admit_antitone_witness:
  "can_admit \<lparr>pressure_threshold = 85, min_available_mb = 0, fallback_system_mb = 1\<rparr> \<lparr>used_bytes = 10, limit_bytes = 100\<rparr>"
  by (rule can_admit_antitone [of _ 20])
    (simp_all add: can_admit_def pressure_pct_def available_bytes_def)

text \<open>The limit is taken from the first source that has one: the cgroup v2 number, else the
  cgroup v1 number below the unlimited sentinel, else the host's \<open>MemTotal\<close>, else the configured
  fallback; a number that is not positive falls back too.\<close>

theorem limit_source_order:
  "read_limit cfg fs =
     (let fallback = fallback_system_mb cfg * 1024 * 1024;
          positive = (\<lambda>l. if l \<le> 0 then fallback else l)
      in case read_cgroup_max fs CG_V2_MAX of
           Some l \<Rightarrow> positive l
         | None \<Rightarrow> (case read_int_file fs CG_V1_LIMIT of
             Some l \<Rightarrow> if l < 2 ^ 62 then positive l
                      else (case host_mem_total_bytes fs of Some h \<Rightarrow> positive h | None \<Rightarrow> fallback)
           | None \<Rightarrow> (case host_mem_total_bytes fs of Some h \<Rightarrow> positive h | None \<Rightarrow> fallback)))"
  by (simp add: read_limit_def V1_UNLIMITED_FLOOR_def Let_def split: option.split)

end
