(* ===== verification/Py_Hoare.thy ===== *)
theory Py_Hoare
  imports Py_Effects
begin

text \<open>
  A triple for operations that may raise: from a state with \<open>P\<close> the operation ends in \<open>Q v\<close> with the
  value \<open>v\<close>, or in \<open>E e\<close> with the exception \<open>e\<close>. One rule per statement, in the collection
  \<open>triple\<close>, reduces a triple of a whole operation to triples of its steps.
\<close>

named_theorems triple

definition triple :: "('s \<Rightarrow> bool) \<Rightarrow> ('s, 'a) py \<Rightarrow> ('a \<Rightarrow> 's \<Rightarrow> bool) \<Rightarrow> (exn \<Rightarrow> 's \<Rightarrow> bool) \<Rightarrow> bool" where
  "triple P m Q E \<longleftrightarrow> (\<forall>s. P s \<longrightarrow> (case m s of (Inr v, s') \<Rightarrow> Q v s' | (Inl e, s') \<Rightarrow> E e s'))"

lemma tripleI:
  "(\<And>s. P s \<Longrightarrow> case m s of (Inr v, s') \<Rightarrow> Q v s' | (Inl e, s') \<Rightarrow> E e s') \<Longrightarrow> triple P m Q E"
  by (simp add: triple_def)

lemma triple_value: "\<lbrakk>triple P m Q E; P s; m s = (Inr v, s')\<rbrakk> \<Longrightarrow> Q v s'"
  by (fastforce simp: triple_def)

lemma triple_error: "\<lbrakk>triple P m Q E; P s; m s = (Inl e, s')\<rbrakk> \<Longrightarrow> E e s'"
  by (fastforce simp: triple_def)

lemma triple_weaken:
  assumes "triple P m Q E" and "\<And>s. P' s \<Longrightarrow> P s" and "\<And>v s. Q v s \<Longrightarrow> Q' v s" and "\<And>e s. E e s \<Longrightarrow> E' e s"
  shows "triple P' m Q' E'"
  using assms unfolding triple_def by (fastforce split: prod.splits sum.splits)

lemma triple_ret [triple]: "(\<And>s. P s \<Longrightarrow> Q v s) \<Longrightarrow> triple P (ret v) Q E"
  by (simp add: triple_def)

lemma triple_throw [triple]: "(\<And>s. P s \<Longrightarrow> E e s) \<Longrightarrow> triple P (throw e) Q E"
  by (simp add: triple_def)

lemma triple_fetch [triple]: "(\<And>s. P s \<Longrightarrow> Q (g s) s) \<Longrightarrow> triple P (fetch g) Q E"
  by (simp add: triple_def)

lemma triple_change [triple]: "(\<And>s. P s \<Longrightarrow> Q () (f s)) \<Longrightarrow> triple P (change f) Q E"
  by (simp add: triple_def)

lemma triple_from_result [triple]:
  "\<lbrakk>\<And>v s. r = Inr v \<Longrightarrow> P s \<Longrightarrow> Q v s; \<And>e s. r = Inl e \<Longrightarrow> P s \<Longrightarrow> E e s\<rbrakk> \<Longrightarrow> triple P (from_result r) Q E"
  by (simp add: triple_def split: sum.split)

lemma triple_andThen [triple]:
  assumes "triple P m R E" and "\<And>v. triple (R v) (k v) Q E"
  shows "triple P (andThen m k) Q E"
proof (rule tripleI)
  fix s assume "P s"
  obtain r s' where r: "m s = (r, s')" by force
  show "case andThen m k s of (Inr v, s') \<Rightarrow> Q v s' | (Inl e, s') \<Rightarrow> E e s'"
  proof (cases r)
    case (Inl e)
    then show ?thesis using r triple_error [OF assms(1) \<open>P s\<close>] by (simp add: andThen_def)
  next
    case (Inr v)
    then have "R v s'" using r triple_value [OF assms(1) \<open>P s\<close>] by simp
    then show ?thesis using r Inr assms(2) [of v] by (simp add: andThen_def triple_def)
  qed
qed

lemma triple_catch [triple]:
  assumes "triple P m Q R" and "\<And>e. triple (R e) (h e) Q E"
  shows "triple P (catch m h) Q E"
proof (rule tripleI)
  fix s assume "P s"
  obtain r s' where r: "m s = (r, s')" by force
  show "case catch m h s of (Inr v, s') \<Rightarrow> Q v s' | (Inl e, s') \<Rightarrow> E e s'"
  proof (cases r)
    case (Inr v)
    then show ?thesis using r triple_value [OF assms(1) \<open>P s\<close>] by (simp add: catch_def)
  next
    case (Inl e)
    then have "R e s'" using r triple_error [OF assms(1) \<open>P s\<close>] by simp
    then show ?thesis using r Inl assms(2) [of e] by (simp add: catch_def triple_def)
  qed
qed

lemma triple_if [triple]: "\<lbrakk>b \<Longrightarrow> triple P m Q E; \<not> b \<Longrightarrow> triple P n Q E\<rbrakk> \<Longrightarrow> triple P (if b then m else n) Q E"
  by simp

lemma triple_prod [triple]: "(\<And>a b. x = (a, b) \<Longrightarrow> triple P (k a b) Q E) \<Longrightarrow> triple P (case x of (a, b) \<Rightarrow> k a b) Q E"
  by (cases x) simp

lemma triple_option [triple]:
  "\<lbrakk>x = None \<Longrightarrow> triple P n Q E; \<And>v. x = Some v \<Longrightarrow> triple P (k v) Q E\<rbrakk>
    \<Longrightarrow> triple P (case x of None \<Rightarrow> n | Some v \<Rightarrow> k v) Q E"
  by (cases x) simp_all

lemma triple_sum [triple]:
  "\<lbrakk>\<And>e. x = Inl e \<Longrightarrow> triple P (h e) Q E; \<And>v. x = Inr v \<Longrightarrow> triple P (k v) Q E\<rbrakk>
    \<Longrightarrow> triple P (case x of Inl e \<Rightarrow> h e | Inr v \<Rightarrow> k v) Q E"
  by (cases x) simp_all

lemma triple_false: "triple (\<lambda>_. False) m Q E"
  by (simp add: triple_def)

text \<open>An invariant with any outcome.\<close>

lemma triple_of_preserves: "preserves I m \<Longrightarrow> triple I m (\<lambda>_. I) (\<lambda>_. I)"
  by (fastforce simp: triple_def preserves_def split: prod.split sum.split)

lemma triple_with:
  assumes "triple P m Q E" and "preserves I m"
  shows "triple (\<lambda>s. P s \<and> I s) m (\<lambda>v s. Q v s \<and> I s) (\<lambda>e s. E e s \<and> I s)"
proof (rule tripleI)
  fix s assume pre: "P s \<and> I s"
  obtain r s' where r: "m s = (r, s')" by force
  then have "I s'" using assms(2) pre unfolding preserves_def by (metis snd_conv)
  then show "case m s of (Inr v, s') \<Rightarrow> Q v s' \<and> I s' | (Inl e, s') \<Rightarrow> E e s' \<and> I s'"
    using r pre triple_value [OF assms(1), of s] triple_error [OF assms(1), of s] by (cases r) simp_all
qed

lemma preserves_of_triple: "triple I m (\<lambda>_. I) (\<lambda>_. I) \<Longrightarrow> preserves I m"
  unfolding triple_def preserves_def by (fastforce split: prod.splits sum.splits)

end
