(* ===== verification/Session_Manager.thy ===== *)
theory Session_Manager
  imports Pool_Guarantees Memory_Monitor Py_Hoare
begin

text \<open>
  The session manager around its pool (\<open>server/app/services/session_manager.py\<close>,
  \<open>session_manager_helpers.py\<close>) and the generator of wrapper theories (\<open>repl/src/python/thy_init.py\<close>):
  starting and recovering the gateway, creating, leasing and acquiring sessions, start-up, shutdown and
  one round of the clean-up task.

  What lies outside is the parameter \<open>site\<close>: each observation (starting or probing the gateway, a clock,
  a memory reading, a file operation, a new identifier, a new prover) is a function of a counter that
  grows with every observation, so two observations are free to differ. An operation runs from its
  call to its return; between its suspensions other operations may run, and what those do to the pool
  are the steps of \<open>Pool_Machine\<close>.
\<close>

section \<open>The outside and the state\<close>

record 'b site =
  prover :: "'b raw_api"
  sha256 :: "pystr \<Rightarrow> pystr"
  settings :: manager_config
  memory_settings :: memory_config
  gateway_start :: "nat \<Rightarrow> exn + unit"
  gateway_probe :: "nat \<Rightarrow> exn + bool"
  gateway_stop :: "nat \<Rightarrow> exn + unit"
  monotonic :: "nat \<Rightarrow> real"
  wall_clock :: "nat \<Rightarrow> real"
  memory_at :: "nat \<Rightarrow> memory_snapshot"
  init_thy :: "nat \<Rightarrow> exn + pystr"
  write_file :: "nat \<Rightarrow> exn + unit"
  unlink_file :: "nat \<Rightarrow> exn + unit"
  uuid4 :: "nat \<Rightarrow> pystr"
  new_backend :: "nat \<Rightarrow> pystr list \<Rightarrow> pystr \<Rightarrow> pystr list \<Rightarrow> (exn + 'b) \<times> real"
  start_thread :: "nat \<Rightarrow> exn + unit"
  thys_path :: pystr

record thy_init =
  template :: pystr
  created_files :: "pystr list"

record 'b manager =
  mpool :: "'b pool"
  gateway_up :: bool
  thy_gen :: "thy_init option"
  thys_dir :: "(pystr, pystr) od"
  alive_probe :: bool
  alive_probe_ts :: real
  observed :: nat

definition observe :: "(nat \<Rightarrow> 'a) \<Rightarrow> ('b manager, 'a) py" where
  "observe f m = (Inr (f (observed m)), m\<lparr>observed := Suc (observed m)\<rparr>)"

definition attempt_at :: "(nat \<Rightarrow> exn + 'a) \<Rightarrow> ('b manager, 'a) py" where
  "attempt_at f = andThen (observe f) from_result"

definition on_pool :: "('b pool, 'a) py \<Rightarrow> ('b manager, 'a) py" where
  "on_pool f m = (case f (mpool m) of (r, p) \<Rightarrow> (r, m\<lparr>mpool := p\<rparr>))"

definition change_pool :: "('b pool \<Rightarrow> 'b pool) \<Rightarrow> ('b manager, unit) py" where
  "change_pool f = change (\<lambda>m. m\<lparr>mpool := f (mpool m)\<rparr>)"

definition quietly :: "('b manager, unit) py \<Rightarrow> ('b manager, unit) py" where
  "quietly op = catch op (\<lambda>e. ret ())"

definition runtime_error :: "pystr \<Rightarrow> pystr \<Rightarrow> exn" where
  "runtime_error func msg = Exn C_RuntimeError (where_in func @ '': '' @ msg)"

definition session_exn :: "exn_class \<Rightarrow> pystr \<Rightarrow> pystr \<Rightarrow> exn" where
  "session_exn c func msg = session_error c (Some (where_in func @ '': '' @ msg)) None"

section \<open>Wrapper theories\<close>

definition thys_pool :: "pystr list" where
  "thys_pool = [''Analysis_init'', ''Complex_Main_init'', ''Pure_init'']"

text \<open>The constructor of \<open>ThyInit\<close>: reading the template.\<close>

definition load_template :: "'b site \<Rightarrow> ('b manager, thy_init) py" where
  "load_template w =
     andThen (catch (attempt_at (init_thy w))
       (\<lambda>e. throw (if isinstance e C_FileNotFoundError then Exn C_RuntimeError (''init.thy file not found at '' @ thys_path w @ ''/init.thy'')
                   else if isinstance e C_OSError
                   then Exn C_RuntimeError (''Error reading init.thy file at '' @ thys_path w @ ''/init.thy: '' @ str_of e) else e)))
       (\<lambda>s. ret \<lparr>template = s, created_files = []\<rparr>)"

definition format_thys :: "pystr list \<Rightarrow> pystr" where
  "format_thys thys = join '' '' (map (\<lambda>t. [CHR 0x22] @ t @ [CHR 0x22]) thys)"

definition generate_thy_file :: "pystr \<Rightarrow> pystr list \<Rightarrow> pystr \<Rightarrow> pystr" where
  "generate_thy_file tmpl thys filename =
     py_replace ''[filename]'' filename (py_replace ''[thys]'' (format_thys thys) tmpl)"

datatype gen_result = Success pystr | Failure pystr

definition gen_file :: "'b site \<Rightarrow> pystr \<Rightarrow> pystr list \<Rightarrow> thy_init \<Rightarrow> ('b manager, gen_result) py" where
  "gen_file w filename thys gen =
     (if filename \<in> set thys_pool then ret (Success filename)
      else andThen (observe (write_file w)) (\<lambda>r. case r of
        Inr _ \<Rightarrow>
          andThen (change (\<lambda>m. m\<lparr>thys_dir := od_set filename (generate_thy_file (template gen) thys filename) (thys_dir m),
             thy_gen := Some (gen\<lparr>created_files := List.insert filename (created_files gen)\<rparr>)\<rparr>))
            (\<lambda>_. ret (Success filename))
      | Inl e \<Rightarrow> if isinstance e C_OSError
                 then ret (Failure (''Failed to write to '' @ thys_path w @ ''/'' @ filename @ ''.thy: '' @ str_of e)) else throw e))"

definition cleanup_file :: "'b site \<Rightarrow> pystr \<Rightarrow> thy_init \<Rightarrow> ('b manager, thy_init) py" where
  "cleanup_file w filename gen =
     (if filename \<notin> set (created_files gen) \<or> filename \<in> set thys_pool then ret gen
      else andThen (observe (unlink_file w)) (\<lambda>r. case r of
        Inr _ \<Rightarrow> andThen (change (\<lambda>m. m\<lparr>thys_dir := od_pop filename (thys_dir m)\<rparr>))
          (\<lambda>_. ret (gen\<lparr>created_files := removeAll filename (created_files gen)\<rparr>))
      | Inl e \<Rightarrow> if isinstance e C_OSError then ret gen else throw e))"

section \<open>The gateway\<close>

definition recover_gateway :: "'b site \<Rightarrow> ('b manager, unit) py" where
  "recover_gateway w =
     andThen (change_pool (purge (prover w))) (\<lambda>_.
     andThen (change (\<lambda>m. m\<lparr>gateway_up := False, thy_gen := None\<rparr>)) (\<lambda>_.
     quietly (attempt_at (gateway_stop w))))"

definition ensure_gateway :: "'b site \<Rightarrow> ('b manager, unit) py" where
  "ensure_gateway w =
     catch
       (andThen (fetch gateway_up) (\<lambda>up.
        andThen (if up then andThen (attempt_at (gateway_probe w))
                   (\<lambda>alive. if alive then ret () else recover_gateway w) else ret ()) (\<lambda>_.
        andThen (fetch gateway_up) (\<lambda>up.
        if up then ret ()
        else andThen (attempt_at (gateway_start w)) (\<lambda>_. change (\<lambda>m. m\<lparr>gateway_up := True\<rparr>))))))
       (\<lambda>e. throw (session_exn C_GatewayUnavailable ''_ensure_gateway''
          (''failed to start REPL gateway: '' @ str_of e)))"

definition ALIVE_PROBE_CACHE_S :: real where
  "ALIVE_PROBE_CACHE_S = 5"

definition gateway_alive :: "'b site \<Rightarrow> ('b manager, bool) py" where
  "gateway_alive w =
     andThen (fetch gateway_up) (\<lambda>up.
     if \<not> up then ret False
     else andThen (observe (monotonic w)) (\<lambda>now.
       andThen (fetch alive_probe_ts) (\<lambda>ts.
       if now - ts < ALIVE_PROBE_CACHE_S then fetch alive_probe
       else andThen (catch (attempt_at (gateway_probe w)) (\<lambda>e. ret False)) (\<lambda>alive.
         andThen (change (\<lambda>m. m\<lparr>alive_probe := alive, alive_probe_ts := now\<rparr>)) (\<lambda>_. ret alive)))))"

section \<open>Creating a session\<close>

definition default_theory :: pystr where
  "default_theory = ''$ISABELLE_REPL_HOME/thys/IsabelleREPL''"

definition need_thy_init :: "'b site \<Rightarrow> ('b manager, unit) py" where
  "need_thy_init w =
     andThen (fetch thy_gen) (\<lambda>g. case g of
       Some _ \<Rightarrow> ret ()
     | None \<Rightarrow> andThen (load_template w) (\<lambda>t. change (\<lambda>m. m\<lparr>thy_gen := Some t\<rparr>)))"

definition use_thy_gen :: "(thy_init \<Rightarrow> ('b manager, 'a) py) \<Rightarrow> ('b manager, 'a) py" where
  "use_thy_gen k = andThen (fetch thy_gen) (\<lambda>g. case g of
       Some t \<Rightarrow> k t | None \<Rightarrow> throw (Exn C_AttributeError ''NoneType has no attribute gen_file''))"

text \<open>The wrapper theory and the theories the prover loads.\<close>

definition prepare_theories :: "'b site \<Rightarrow> pystr \<Rightarrow> pystr list
    \<Rightarrow> ('b manager, pystr option \<times> pystr list) py" where
  "prepare_theories w fld deps =
     (if deps = [] then ret (None, [default_theory])
      else catch
        (andThen (use_thy_gen (gen_file w
            (build_wrapper_theory_name (sha256 w) (default_field (settings w)) (Some (map Some deps)) (Some fld)) deps))
          (\<lambda>r. case r of
             Failure err \<Rightarrow> throw (Exn C_RuntimeError err)
           | Success name \<Rightarrow> (let t = ''$ISABELLE_REPL_HOME/thys/'' @ name in ret (Some t, [t]))))
        (\<lambda>e. throw (runtime_error ''_create_session'' (''failed to generate initial theory file: '' @ str_of e))))"

definition admits_at :: "'b site \<Rightarrow> nat \<Rightarrow> bool" where
  "admits_at w k = can_admit (memory_settings w) (memory_at w k)"

text \<open>\<open>_relieve_memory_pressure\<close>: the snapshot returned is the last one read.\<close>

definition relieve_memory :: "'b site \<Rightarrow> ('b manager, memory_snapshot) py" where
  "relieve_memory w m =
     (case relieve (prover w) (admits_at w) (observed m) (mpool m) of
        (k, p) \<Rightarrow> (Inr (memory_at w k), m\<lparr>mpool := p, observed := Suc k\<rparr>))"

fun retry_admission :: "'b site \<Rightarrow> nat \<Rightarrow> memory_snapshot \<Rightarrow> ('b manager, memory_snapshot) py" where
  "retry_admission w 0 snap = ret snap"
| "retry_admission w (Suc retries) snap =
     (if can_admit (memory_settings w) snap then ret snap
      else andThen (relieve_memory w) (retry_admission w retries))"

definition memory_error :: "memory_snapshot \<Rightarrow> exn" where
  "memory_error snap = session_exn C_PoolExhausted ''_create_session''
     (''cannot create session: memory pressure too high ('' @ fmt_f0 (pressure_pct snap) @ ''%, ''
      @ fmt_f0 (mb (available_bytes snap)) @ ''MB available) and no idle sessions to evict. ''
      @ ''Try again later or raise the container memory limit / ISABELLE_MEMORY_PRESSURE_THRESHOLD.'')"

definition admit_memory :: "'b site \<Rightarrow> ('b manager, unit) py" where
  "admit_memory w =
     (if \<not> memory_management_enabled (settings w) then ret ()
      else andThen (relieve_memory w) (\<lambda>snap.
        andThen (retry_admission w (admission_retries (settings w)) snap) (\<lambda>snap.
        if can_admit (memory_settings w) snap then ret () else throw (memory_error snap))))"

definition create_timed_out :: "'b site \<Rightarrow> exn" where
  "create_timed_out w = session_exn C_GatewayUnavailable ''_create_session''
     (''session creation timed out after '' @ fmt_f0 (session_create_timeout (settings w))
      @ ''s - gateway unresponsive'')"

text \<open>The dash of the message is written with an ASCII character here. \<open>asyncio.wait_for\<close> around the worker thread; a \<open>TimeoutError\<close> of the call itself reads the same.\<close>

definition make_backend :: "'b site \<Rightarrow> pystr \<Rightarrow> pystr list \<Rightarrow> pystr \<Rightarrow> pystr list \<Rightarrow> ('b manager, 'b) py" where
  "make_backend w sid start_thys fld dirs =
     andThen (observe (\<lambda>k. new_backend w k start_thys fld dirs)) (\<lambda>(r, seconds).
       if session_create_timeout (settings w) < seconds then throw (create_timed_out w)
       else case r of
         Inr b \<Rightarrow> ret b
       | Inl e \<Rightarrow> if isinstance e C_TimeoutError then throw (create_timed_out w)
                  else throw (runtime_error ''_create_session''
                    (''failed to create raw backend for session '' @ sid @ '': '' @ str_of e)))"

definition make_worker :: "'b site \<Rightarrow> pystr \<Rightarrow> ('b manager, unit) py" where
  "make_worker w sid =
     catch (attempt_at (start_thread w))
       (\<lambda>e. throw (runtime_error ''_create_session''
          (''failed to create threaded backend for session '' @ sid @ '': '' @ str_of e)))"

record create_request =
  cr_theories :: "pystr option list option"
  cr_field :: "pystr option"
  cr_lease :: "pystr option"
  cr_dirs :: "pystr list option"
  cr_group :: "pystr option"
  cr_extra :: "pystr option"

definition request_fld :: "'b site \<Rightarrow> create_request \<Rightarrow> pystr" where
  "request_fld w rq = normalize_field (default_field (settings w)) (cr_field rq)"

definition request_deps :: "create_request \<Rightarrow> pystr list" where
  "request_deps rq = normalize_theories (cr_theories rq)"

definition session_key :: "'b site \<Rightarrow> create_request \<Rightarrow> pystr" where
  "session_key w rq = build_dependency_key (sha256 w) (default_field (settings w))
     (Some (map Some (request_deps rq))) (Some (request_fld w rq)) (cr_extra rq)"

text \<open>The manager's part of \<open>_create_session\<close> once the theories are ready: memory, prover, worker, session,
  registration. The worker's name carries the first eight digits of the identifier.\<close>

definition open_session :: "'b site \<Rightarrow> create_request \<Rightarrow> pystr option \<times> pystr list
    \<Rightarrow> ('b manager, 'b session) py" where
  "open_session w rq = (\<lambda>(wrapper, start_thys).
     andThen (admit_memory w) (\<lambda>_.
     andThen (observe (uuid4 w)) (\<lambda>sid.
     andThen (make_backend w sid start_thys (request_fld w rq) (or_else (cr_dirs rq) [])) (\<lambda>b.
     andThen (make_worker w sid) (\<lambda>_.
     andThen (observe (wall_clock w)) (\<lambda>now.
     andThen (observe (wall_clock w)) (\<lambda>lease_now.
     on_pool (register_session (prover w) (pool_size (settings w)) lease_now (cr_lease rq)
       (new_session sid (request_deps rq) (request_fld w rq) (''isabelle-'' @ take 8 sid) b (Some start_thys)
          (Some (session_key w rq)) wrapper (cr_group rq) now)))))))))"

definition create_session_raw :: "'b site \<Rightarrow> create_request \<Rightarrow> ('b manager, 'b session) py" where
  "create_session_raw w rq =
     andThen (ensure_gateway w) (\<lambda>_.
     andThen (need_thy_init w) (\<lambda>_.
     andThen (prepare_theories w (request_fld w rq) (request_deps rq)) (open_session w rq)))"

text \<open>\<open>except PoolExhausted: raise\<close>, then \<open>except Exception\<close>.\<close>

definition as_start_error :: "pystr \<Rightarrow> pystr \<Rightarrow> ('b manager, 'a) py \<Rightarrow> ('b manager, 'a) py" where
  "as_start_error func what op =
     catch op (\<lambda>e. if isinstance e C_PoolExhausted then throw e
                   else throw (session_exn C_SessionStartError func (what @ str_of e)))"

definition create_session :: "'b site \<Rightarrow> pystr option list option \<Rightarrow> pystr option \<Rightarrow> ('b manager, 'b session) py" where
  "create_session w thys fld =
     as_start_error ''create_session'' ''Failed to create session: ''
       (create_session_raw w \<lparr>cr_theories = thys, cr_field = fld, cr_lease = None, cr_dirs = None,
          cr_group = None, cr_extra = None\<rparr>)"

definition new_lease_id :: "'b site \<Rightarrow> ('b manager, pystr) py" where
  "new_lease_id w = andThen (observe (uuid4 w)) (\<lambda>u. ret (take 12 (filter (\<lambda>c. c \<noteq> CHR ''-'') u)))"

definition create_leased_session :: "'b site \<Rightarrow> create_request \<Rightarrow> ('b manager, 'b session \<times> pystr) py" where
  "create_leased_session w rq =
     andThen (new_lease_id w) (\<lambda>lid.
     as_start_error ''create_leased_session'' ''Failed to create leased session: ''
       (andThen (create_session_raw w (rq\<lparr>cr_lease := Some lid\<rparr>)) (\<lambda>s. ret (s, lid))))"

definition acquire_session :: "'b site \<Rightarrow> create_request \<Rightarrow> bool \<Rightarrow> ('b manager, 'b session \<times> bool \<times> pystr) py" where
  "acquire_session w rq reuse_dirty =
     andThen (new_lease_id w) (\<lambda>lid.
     andThen (observe (wall_clock w)) (\<lambda>now.
     andThen (on_pool (\<lambda>p. case find_and_lease now lid
           (build_dependency_key (sha256 w) (default_field (settings w)) (cr_theories rq) (cr_field rq) (cr_extra rq))
           reuse_dirty p of (r, q) \<Rightarrow> (Inr r, q))) (\<lambda>found.
     case found of
       Some s \<Rightarrow> ret (s, True, lid)
     | None \<Rightarrow> andThen (create_session_raw w (rq\<lparr>cr_lease := Some lid\<rparr>)) (\<lambda>s. ret (s, False, lid)))))"

section \<open>Start-up, shutdown, clean-up\<close>

definition default_initial :: int where
  "default_initial = 3"

fun prewarm :: "'b site \<Rightarrow> nat \<Rightarrow> nat \<Rightarrow> ('b manager, unit) py" where
  "prewarm w i 0 = ret ()"
| "prewarm w i (Suc n) =
     andThen (catch (andThen (create_session_raw w
           \<lparr>cr_theories = None, cr_field = Some (default_field (settings w)), cr_lease = None, cr_dirs = None,
            cr_group = None, cr_extra = None\<rparr>) (\<lambda>_. ret ()))
         (\<lambda>e. throw (session_exn C_SessionStartError ''startup''
           (''failed to pre-start session '' @ show_int (int i) @ '': '' @ str_of e))))
       (\<lambda>_. prewarm w (Suc i) n)"

definition startup :: "'b site \<Rightarrow> ('b manager, unit) py" where
  "startup w =
     (let n = initial_sessions (settings w);
          n = (if n < 0 then default_initial else n) in
      andThen (catch (ensure_gateway w) (\<lambda>e. if isinstance e C_GatewayUnavailable then throw e
          else throw (session_exn C_GatewayUnavailable ''startup'' (''gateway startup failed: '' @ str_of e)))) (\<lambda>_.
      andThen (catch (need_thy_init w) (\<lambda>e. throw (session_exn C_SessionStartError ''startup''
          (''failed to initialize ThyInit: '' @ str_of e)))) (\<lambda>_.
      prewarm w 0 (nat n))))"

fun cleanup_files :: "'b site \<Rightarrow> thy_init \<Rightarrow> pystr list \<Rightarrow> ('b manager, unit) py" where
  "cleanup_files w gen [] = ret ()"
| "cleanup_files w gen (f # fs) =
     andThen (catch (cleanup_file w f gen) (\<lambda>e. ret gen)) (\<lambda>g. cleanup_files w g fs)"

definition shutdown :: "'b site \<Rightarrow> ('b manager, unit) py" where
  "shutdown w =
     andThen (change_pool (purge (prover w))) (\<lambda>_.
     andThen (fetch gateway_up) (\<lambda>up.
     andThen (if up then andThen (quietly (attempt_at (gateway_stop w)))
                  (\<lambda>_. change (\<lambda>m. m\<lparr>gateway_up := False\<rparr>)) else ret ()) (\<lambda>_.
     andThen (fetch thy_gen) (\<lambda>g. case g of
       None \<Rightarrow> ret ()
     | Some t \<Rightarrow> andThen (cleanup_files w t (created_files t)) (\<lambda>_. change (\<lambda>m. m\<lparr>thy_gen := None\<rparr>))))))"

definition cleanup_round :: "'b site \<Rightarrow> ('b manager, unit) py" where
  "cleanup_round w =
     andThen (observe (wall_clock w)) (\<lambda>now.
     andThen (change_pool (sweep (prover w) (settings w) now)) (\<lambda>_.
     andThen (if memory_management_enabled (settings w)
              then andThen (observe (admits_at w))
                (\<lambda>fits. if fits then ret () else andThen (relieve_memory w) (\<lambda>_. ret ()))
              else ret ()) (\<lambda>_.
     andThen (fetch gateway_up) (\<lambda>up.
     if \<not> up then ret ()
     else andThen (gateway_alive w) (\<lambda>alive. if alive then ret () else quietly (ensure_gateway w))))))"

definition lru_report :: "'b site \<Rightarrow> ('b manager, lru_info \<times> bool \<times> memory_status \<times> bool) py" where
  "lru_report w =
     andThen (fetch (\<lambda>m. get_lru_info (settings w) (mpool m))) (\<lambda>info.
     andThen (observe (memory_at w)) (\<lambda>snap.
     andThen (gateway_alive w) (\<lambda>alive.
     ret (info, memory_management_enabled (settings w), status_dict snap, alive))))"

end
