(* ===== verification/Manager_Properties.thy ===== *)
theory Manager_Properties
  imports Session_Manager
begin

text \<open>
  What the session manager guarantees: every operation keeps the pool invariant and never registers an
  identifier twice, what a caller of \<open>create_session\<close> and \<open>acquire_session\<close> gets, how a dead gateway is
  replaced, and what a shutdown leaves.
\<close>

section \<open>The invariant of the manager\<close>

text \<open>The pool is in order, and the identifiers still to come are new to it.\<close>

definition mgr_ok :: "'b site \<Rightarrow> 'b manager \<Rightarrow> bool" where
  "mgr_ok w m \<longleftrightarrow> pool_inv (pool_size (settings w)) (mpool m)
     \<and> (\<forall>k \<ge> observed m. uuid4 w k \<notin># ledger (mpool m))"

definition based :: "'b site \<Rightarrow> nat \<Rightarrow> 'b manager \<Rightarrow> bool" where
  "based w n m \<longleftrightarrow> mgr_ok w m \<and> n \<le> observed m \<and> gateway_up m"

definition admitted :: "'b site \<Rightarrow> nat \<Rightarrow> 'b manager \<Rightarrow> bool" where
  "admitted w n m \<longleftrightarrow> (memory_management_enabled (settings w)
     \<longrightarrow> (\<exists>k. n \<le> k \<and> k < observed m \<and> admits_at w k))"

text \<open>An identifier was drawn and is not registered yet.\<close>

definition pending :: "'b site \<Rightarrow> nat \<Rightarrow> pystr \<Rightarrow> 'b manager \<Rightarrow> bool" where
  "pending w n sid m \<longleftrightarrow> based w n m \<and> admitted w n m \<and> sid \<notin># ledger (mpool m)
     \<and> (\<forall>k \<ge> observed m. uuid4 w k \<noteq> sid)"

lemma preserves_observe [inv_intro]: "(\<And>m. P m \<Longrightarrow> P (m\<lparr>observed := Suc (observed m)\<rparr>)) \<Longrightarrow> preserves P (observe f)"
  by (simp add: preserves_def observe_def)

lemma preserves_attempt_at [inv_intro]:
  "(\<And>m. P m \<Longrightarrow> P (m\<lparr>observed := Suc (observed m)\<rparr>)) \<Longrightarrow> preserves P (attempt_at f)"
  unfolding attempt_at_def by (intro inv_intro)

lemma preserves_quietly [inv_intro]: "preserves P op \<Longrightarrow> preserves P (quietly op)"
  unfolding quietly_def by (intro inv_intro)

lemma preserves_sum [inv_intro]:
  "\<lbrakk>\<And>e. preserves P (h e); \<And>v. preserves P (k v)\<rbrakk> \<Longrightarrow> preserves P (case x of Inl e \<Rightarrow> h e | Inr v \<Rightarrow> k v)"
  by (cases x) simp_all

lemma preserves_gen [inv_intro]:
  "\<lbrakk>\<And>s. preserves P (h s); \<And>e. preserves P (k e)\<rbrakk> \<Longrightarrow> preserves P (case x of Success s \<Rightarrow> h s | Failure e \<Rightarrow> k e)"
  by (cases x) simp_all

lemma observed_ok [simp]:
  "mgr_ok w m \<Longrightarrow> mgr_ok w (m\<lparr>observed := Suc (observed m)\<rparr>)"
  "based w n m \<Longrightarrow> based w n (m\<lparr>observed := Suc (observed m)\<rparr>)"
  "admitted w n m \<Longrightarrow> admitted w n (m\<lparr>observed := Suc (observed m)\<rparr>)"
  "pending w n sid m \<Longrightarrow> pending w n sid (m\<lparr>observed := Suc (observed m)\<rparr>)"
  by (auto simp: mgr_ok_def based_def admitted_def pending_def less_Suc_eq)

lemma other_fields [simp]:
  "mgr_ok w (m\<lparr>gateway_up := b\<rparr>) = mgr_ok w m" "mgr_ok w (m\<lparr>thy_gen := g\<rparr>) = mgr_ok w m"
  "mgr_ok w (m\<lparr>thys_dir := d\<rparr>) = mgr_ok w m" "mgr_ok w (m\<lparr>alive_probe := b\<rparr>) = mgr_ok w m"
  "mgr_ok w (m\<lparr>alive_probe_ts := t\<rparr>) = mgr_ok w m"
  "based w n (m\<lparr>thy_gen := g\<rparr>) = based w n m" "based w n (m\<lparr>thys_dir := d\<rparr>) = based w n m"
  by (simp_all add: mgr_ok_def based_def)

lemma pool_change_ok:
  assumes "mgr_ok w m" and "pool_inv (pool_size (settings w)) p" and "ledger p = ledger (mpool m)"
  shows "mgr_ok w (m\<lparr>mpool := p\<rparr>)"
  using assms by (simp add: mgr_ok_def)

lemma purge_ok [simp]: "mgr_ok w m \<Longrightarrow> mgr_ok w (m\<lparr>mpool := purge api (mpool m)\<rparr>)"
  by (rule pool_change_ok) (auto simp: mgr_ok_def purge_inv ledger_purge)

lemma sweep_ok [simp]: "mgr_ok w m \<Longrightarrow> mgr_ok w (m\<lparr>mpool := sweep api cfg now (mpool m)\<rparr>)"
  by (rule pool_change_ok) (auto simp: mgr_ok_def sweep_inv ledger_sweep)

lemma relieve_reads: "pool_inv cap p \<Longrightarrow> k \<le> fst (relieve api can k p)"
  using relieve_exact [where api = api and can = can and k = k and p = p] by (auto simp: pool_inv_def)

lemma relieve_memory_ok:
  assumes "mgr_ok w m"
  shows "\<exists>k p. relieve_memory w m = (Inr (memory_at w k), m\<lparr>mpool := p, observed := Suc k\<rparr>)
    \<and> observed m \<le> k \<and> mgr_ok w (m\<lparr>mpool := p, observed := Suc k\<rparr>)"
proof -
  obtain k p where kp: "relieve (prover w) (admits_at w) (observed m) (mpool m) = (k, p)" by force
  have inv: "pool_inv (pool_size (settings w)) (mpool m)" using assms by (simp add: mgr_ok_def)
  have "observed m \<le> k" "pool_inv (pool_size (settings w)) p" "ledger p = ledger (mpool m)"
    using relieve_reads [OF inv, of "observed m" "prover w" "admits_at w"]
      relieve_inv [OF inv, of "prover w" "admits_at w" "observed m"]
      ledger_relieve [OF inv, of "prover w" "admits_at w" "observed m"] by (simp_all add: kp)
  then show ?thesis using assms kp
    by (intro exI [of _ k] exI [of _ p]) (simp add: relieve_memory_def mgr_ok_def)
qed

lemma relieve_memory_triple:
  "triple (based w n) (relieve_memory w)
     (\<lambda>snap m. based w n m \<and> (\<exists>k. n \<le> k \<and> k < observed m \<and> snap = memory_at w k)) E"
proof (rule tripleI)
  fix m assume b: "based w n m"
  then obtain k p where "relieve_memory w m = (Inr (memory_at w k), m\<lparr>mpool := p, observed := Suc k\<rparr>)"
    "observed m \<le> k" "mgr_ok w (m\<lparr>mpool := p, observed := Suc k\<rparr>)"
    using relieve_memory_ok [of w m] by (auto simp: based_def)
  then show "case relieve_memory w m of (Inl e, s') \<Rightarrow> E e s'
      | (Inr snap, m) \<Rightarrow> based w n m \<and> (\<exists>k. n \<le> k \<and> k < observed m \<and> snap = memory_at w k)"
    using b by (auto simp: based_def intro: exI [of _ k])
qed

lemma preserves_relieve_memory [inv_intro]: "preserves (mgr_ok w) (relieve_memory w)"
  using relieve_memory_ok by (fastforce simp: preserves_def)

section \<open>Operations that keep it\<close>

lemma preserves_load_template [inv_intro]: "preserves (mgr_ok w) (load_template v)" "preserves (based w n) (load_template v)"
  unfolding load_template_def by (intro inv_intro; simp)+

lemma preserves_need_thy [inv_intro]: "preserves (mgr_ok w) (need_thy_init v)" "preserves (based w n) (need_thy_init v)"
  unfolding need_thy_init_def by (intro inv_intro; simp)+

lemma preserves_gen_file [inv_intro]: "preserves (mgr_ok w) (gen_file v f ts g)" "preserves (based w n) (gen_file v f ts g)"
  unfolding gen_file_def by (intro inv_intro; simp)+

lemma preserves_use_thy_gen [inv_intro]: "(\<And>t. preserves P (k t)) \<Longrightarrow> preserves P (use_thy_gen k)"
  unfolding use_thy_gen_def by (intro inv_intro)

lemma preserves_prepare [inv_intro]:
  "preserves (mgr_ok w) (prepare_theories v f ds)" "preserves (based w n) (prepare_theories v f ds)"
  unfolding prepare_theories_def Let_def by (intro inv_intro; simp)+

lemma preserves_recover [inv_intro]: "preserves (mgr_ok w) (recover_gateway v)"
  unfolding recover_gateway_def change_pool_def by (intro inv_intro; simp)

lemma preserves_ensure_gateway [inv_intro]: "preserves (mgr_ok w) (ensure_gateway v)"
  unfolding ensure_gateway_def by (intro inv_intro; simp)

lemma preserves_gateway_alive [inv_intro]: "preserves (mgr_ok w) (gateway_alive v)"
  unfolding gateway_alive_def by (intro inv_intro; simp)

lemma preserves_cleanup_file [inv_intro]: "preserves (mgr_ok w) (cleanup_file v f g)"
  unfolding cleanup_file_def by (intro inv_intro; simp)

lemma preserves_cleanup_files [inv_intro]: "preserves (mgr_ok w) (cleanup_files v g fs)"
  by (induction fs arbitrary: g) (auto intro!: inv_intro)

lemma preserves_cleanup_round [inv_intro]: "preserves (mgr_ok w) (cleanup_round w)"
  unfolding cleanup_round_def change_pool_def by (intro inv_intro; simp)

lemma preserves_shutdown [inv_intro]: "preserves (mgr_ok w) (shutdown w)"
  unfolding shutdown_def change_pool_def by (intro inv_intro; simp)

lemma ensure_gateway_triple:
  "triple (mgr_ok w) (ensure_gateway w) (\<lambda>_ m. mgr_ok w m \<and> gateway_up m)
     (\<lambda>e m. mgr_ok w m \<and> class_of e = C_GatewayUnavailable)"
proof -
  let ?probe = "\<lambda>up. if up then andThen (attempt_at (gateway_probe w))
      (\<lambda>alive. if alive then ret () else recover_gateway w) else ret ()"
  let ?start = "andThen (attempt_at (gateway_start w)) (\<lambda>_. change (\<lambda>m. m\<lparr>gateway_up := True\<rparr>))"
  have probe: "triple (mgr_ok w) (?probe up) (\<lambda>_. mgr_ok w) (\<lambda>_. mgr_ok w)" for up
    by (intro triple_of_preserves inv_intro; simp)
  have "triple (mgr_ok w) (attempt_at (gateway_start w)) (\<lambda>_. mgr_ok w) (\<lambda>_. mgr_ok w)"
    by (intro triple_of_preserves inv_intro; simp)
  then have start: "triple (mgr_ok w) ?start (\<lambda>_ m. mgr_ok w m \<and> gateway_up m) (\<lambda>_. mgr_ok w)"
    by (rule triple_andThen) (intro triple; simp)
  have last: "triple (mgr_ok w) (andThen (fetch gateway_up) (\<lambda>up. if up then ret () else ?start))
      (\<lambda>_ m. mgr_ok w m \<and> gateway_up m) (\<lambda>_. mgr_ok w)"
  proof (rule triple_andThen [where R = "\<lambda>up m. mgr_ok w m \<and> gateway_up m = up"])
    show "triple (mgr_ok w) (fetch gateway_up) (\<lambda>up m. mgr_ok w m \<and> gateway_up m = up) (\<lambda>_. mgr_ok w)"
      by (intro triple) simp
    show "triple (\<lambda>m. mgr_ok w m \<and> gateway_up m = up) (if up then ret () else ?start)
        (\<lambda>_ m. mgr_ok w m \<and> gateway_up m) (\<lambda>_. mgr_ok w)" for up
      using start by (intro triple_if triple_ret) (auto elim: triple_weaken)
  qed
  have "triple (mgr_ok w) (andThen (fetch gateway_up) (\<lambda>up. andThen (?probe up)
      (\<lambda>_. andThen (fetch gateway_up) (\<lambda>up. if up then ret () else ?start))))
      (\<lambda>_ m. mgr_ok w m \<and> gateway_up m) (\<lambda>_. mgr_ok w)"
    by (rule triple_andThen [where R = "\<lambda>_. mgr_ok w"], intro triple, assumption, rule triple_andThen [OF probe last])
  then show ?thesis unfolding ensure_gateway_def
    by (rule triple_catch) (intro triple; simp add: session_exn_def session_error_def)
qed

section \<open>Creating\<close>

text \<open>The session a creation hands out, for the theories it loaded.\<close>

definition created :: "'b site \<Rightarrow> create_request \<Rightarrow> 'b session \<Rightarrow> 'b manager \<Rightarrow> bool" where
  "created w rq s m \<longleftrightarrow> lru (mpool m) \<noteq> [] \<and> last (lru (mpool m)) = (session_id s, s) \<and> live s
     \<and> theories s = request_deps rq \<and> session_field s = request_fld w rq
     \<and> dependency_key s = Some (session_key w rq) \<and> task_group s = cr_group rq
     \<and> leased s = (cr_lease rq \<noteq> None) \<and> lease_id s = cr_lease rq \<and> command_history s = []
     \<and> active_requests s = 0"

definition creation_error :: "exn \<Rightarrow> bool" where
  "creation_error e \<longleftrightarrow> class_of e \<in> {C_PoolExhausted, C_GatewayUnavailable, C_RuntimeError}"

lemma register_triple:
  assumes s: "session_id s = sid" "live s" "\<not> leased s"
  shows "triple (pending w n sid)
    (on_pool (register_session (prover w) (pool_size (settings w)) now lid s))
    (\<lambda>s' m. based w n m \<and> admitted w n m \<and> s' = leased_as now lid s \<and> lru (mpool m) \<noteq> []
        \<and> last (lru (mpool m)) = (sid, s'))
    (\<lambda>e m. mgr_ok w m \<and> creation_error e)"
proof (rule tripleI)
  fix m assume p: "pending w n sid m"
  let ?reg = "register_session (prover w) (pool_size (settings w)) now lid s (mpool m)"
  have inv: "pool_inv (pool_size (settings w)) (mpool m)" and new: "sid \<notin># ledger (mpool m)"
    using p by (simp_all add: pending_def based_def mgr_ok_def)
  have fresh: "session_id s \<notin> set (od_keys (lru (mpool m)))" using new s(1) by (auto simp: ledger_def)
  have "pool_inv (pool_size (settings w)) (snd ?reg)" using register_inv [OF inv fresh s(3,2)] .
  moreover have "ledger (snd ?reg) = add_mset sid (ledger (mpool m))"
    using ledger_register [OF inv fresh s(3)] s(1) by simp
  ultimately have ok: "mgr_ok w (m\<lparr>mpool := snd ?reg\<rparr>)" "based w n (m\<lparr>mpool := snd ?reg\<rparr>)"
    "admitted w n (m\<lparr>mpool := snd ?reg\<rparr>)"
    using p by (auto simp: pending_def based_def mgr_ok_def admitted_def)
  show "case on_pool (register_session (prover w) (pool_size (settings w)) now lid s) m of
      (Inl e, m) \<Rightarrow> mgr_ok w m \<and> creation_error e
    | (Inr s', m) \<Rightarrow> based w n m \<and> admitted w n m \<and> s' = leased_as now lid s \<and> lru (mpool m) \<noteq> []
        \<and> last (lru (mpool m)) = (sid, s')"
    using ok s(1) unfolding on_pool_def register_cases [OF inv fresh s(3)]
    by (auto simp: creation_error_def pool_full_error_def session_error_def split: option.splits prod.splits if_splits)
qed

lemma new_session_simps [simp]:
  "session_id (new_session sid ts f nm b l k wr g t) = sid" "live (new_session sid ts f nm b l k wr g t)"
  "\<not> leased (new_session sid ts f nm b l k wr g t)"
  by (simp_all add: new_session_def live_def)

lemma created_new:
  assumes "lru (mpool m) \<noteq> []" and "last (lru (mpool m)) = (sid, s)"
    and "s = leased_as t (cr_lease rq) (new_session sid (request_deps rq) (request_fld w rq) nm b l
      (Some (session_key w rq)) wr (cr_group rq) now)"
  shows "created w rq s m"
proof -
  have "session_id s = sid" "live s" using assms(3) by simp_all
  then show ?thesis using assms
    by (auto simp: created_def leased_as_def new_session_def try_acquire_lease_def touch_def split: option.split)
qed

lemma admit_memory_triple:
  "triple (based w n) (admit_memory w) (\<lambda>_ m. based w n m \<and> admitted w n m)
     (\<lambda>e m. mgr_ok w m \<and> creation_error e)"
proof -
  let ?seen = "\<lambda>snap m. based w n m \<and> (\<exists>k. n \<le> k \<and> k < observed m \<and> snap = memory_at w k)"
  have retry: "triple (?seen snap) (retry_admission w r snap) ?seen E" for r snap E
  proof (induction r arbitrary: snap)
    case (Suc r)
    have "triple (?seen snap) (andThen (relieve_memory w) (retry_admission w r)) ?seen E"
      by (rule triple_andThen [OF triple_weaken [OF relieve_memory_triple] Suc]) auto
    then show ?case by (simp add: triple_ret)
  qed (simp add: triple_ret)
  have judge: "triple (?seen snap) (if can_admit (memory_settings w) snap then ret () else throw (memory_error snap))
      (\<lambda>_ m. based w n m \<and> admitted w n m) (\<lambda>e m. mgr_ok w m \<and> creation_error e)" for snap
    by (intro triple) (auto simp: admitted_def admits_at_def based_def creation_error_def memory_error_def session_exn_def session_error_def)
  show ?thesis
    unfolding admit_memory_def
    by (intro triple_if triple_ret triple_andThen [OF relieve_memory_triple] triple_andThen [OF retry judge])
      (simp add: admitted_def)
qed

lemma pending_keeps: "preserves (pending w n sid) (observe f)" by (intro inv_intro) simp

lemma observe_triple: "preserves P (observe f) \<Longrightarrow> triple P (observe f) (\<lambda>_. P) E"
  by (simp add: triple_def preserves_def observe_def)

lemma make_backend_triple:
  "triple (pending w n sid) (make_backend w sid' ths fld dirs) (\<lambda>_. pending w n sid)
     (\<lambda>e m. mgr_ok w m \<and> creation_error e)"
  unfolding make_backend_def
  by (rule triple_andThen [OF observe_triple [OF pending_keeps]], rule triple_prod, intro triple)
    (auto simp: pending_def based_def creation_error_def create_timed_out_def runtime_error_def session_exn_def session_error_def)

lemma make_worker_triple:
  "triple (pending w n sid) (make_worker w sid') (\<lambda>_. pending w n sid)
     (\<lambda>e m. mgr_ok w m \<and> creation_error e)"
  unfolding make_worker_def attempt_at_def
  by (intro triple_catch [where R = "\<lambda>_. pending w n sid"] triple_andThen [OF observe_triple [OF pending_keeps]] triple)
    (auto simp: pending_def based_def creation_error_def runtime_error_def)

lemma open_session_triple:
  assumes "inj (uuid4 w)"
  shows "triple (based w n) (open_session w rq wt)
    (\<lambda>s m. mgr_ok w m \<and> gateway_up m \<and> admitted w n m \<and> created w rq s m) (\<lambda>e m. mgr_ok w m \<and> creation_error e)"
proof -
  obtain wrapper ths where wt: "wt = (wrapper, ths)" by force
  have draw: "triple (\<lambda>m. based w n m \<and> admitted w n m) (observe (uuid4 w)) (\<lambda>sid. pending w n sid) E" for E
    using assms by (auto simp: triple_def observe_def pending_def based_def mgr_ok_def admitted_def
        inj_eq less_Suc_eq)
  show ?thesis
    unfolding open_session_def wt prod.case
    by (rule triple_andThen [OF admit_memory_triple] triple_andThen [OF draw]
        triple_andThen [OF make_backend_triple] triple_andThen [OF make_worker_triple]
        triple_andThen [OF observe_triple [OF pending_keeps]])+
      (rule triple_weaken [OF register_triple], auto simp: based_def intro: created_new)
qed

lemma create_raw_triple:
  assumes "inj (uuid4 w)"
  shows "triple (\<lambda>m. mgr_ok w m \<and> n \<le> observed m) (create_session_raw w rq)
    (\<lambda>s m. mgr_ok w m \<and> gateway_up m \<and> admitted w n m \<and> created w rq s m) (\<lambda>e. mgr_ok w)"
proof -
  have "preserves (\<lambda>m. n \<le> observed m) (attempt_at f)" for f :: "nat \<Rightarrow> exn + 'x"
    by (intro inv_intro) simp
  then have grow: "preserves (\<lambda>m. n \<le> observed m) (ensure_gateway w)"
    unfolding ensure_gateway_def recover_gateway_def change_pool_def by (intro inv_intro; simp)
  have "triple (\<lambda>m. mgr_ok w m \<and> n \<le> observed m) (ensure_gateway w) (\<lambda>_. based w n) (\<lambda>_. mgr_ok w)"
    by (rule triple_weaken [OF triple_with [OF ensure_gateway_triple grow]]) (auto simp: based_def)
  moreover have "triple (based w n) (need_thy_init w) (\<lambda>_. based w n) (\<lambda>_. mgr_ok w)"
    by (rule triple_weaken [OF triple_of_preserves [where I = "based w n"]]) (auto intro: inv_intro simp: based_def)
  moreover have "triple (based w n) (prepare_theories w f ds) (\<lambda>_. based w n) (\<lambda>_. mgr_ok w)" for f ds
    by (rule triple_weaken [OF triple_of_preserves [where I = "based w n"]]) (auto intro: inv_intro simp: based_def)
  ultimately show ?thesis
    unfolding create_session_raw_def
    by (auto intro!: triple_andThen [where R = "\<lambda>_. based w n"] triple_weaken [OF open_session_triple [OF assms]])
qed

lemma is_pool_exhausted [simp]: "isinstance e C_PoolExhausted \<longleftrightarrow> class_of e = C_PoolExhausted"
  by (cases "class_of e") (simp_all add: isinstance_def mro_def)

lemma as_start_error_class:
  assumes "as_start_error func what op m = (Inl e, m')"
  shows "class_of e \<in> {C_PoolExhausted, C_SessionStartError}"
proof -
  obtain r m1 where r: "op m = (r, m1)" by force
  show ?thesis
  proof (cases r)
    case (Inl x)
    then show ?thesis using assms r
      by (cases "class_of x = C_PoolExhausted")
        (auto simp: as_start_error_def catch_def session_exn_def session_error_def)
  next
    case (Inr v)
    then show ?thesis using assms r by (simp add: as_start_error_def catch_def)
  qed
qed

lemma as_start_error_state: "snd (as_start_error func what op m) = snd (op m)"
  by (auto simp: as_start_error_def catch_def split: prod.splits sum.splits)

lemma as_start_error_value: "as_start_error func what op m = (Inr v, m') \<longleftrightarrow> op m = (Inr v, m')"
  by (auto simp: as_start_error_def catch_def split: prod.splits sum.splits if_splits)

lemma session_key_request:
  assumes "strip (default_field (settings w)) = default_field (settings w)"
  shows "session_key w rq = build_dependency_key (sha256 w) (default_field (settings w)) (cr_theories rq)
    (cr_field rq) (cr_extra rq)"
  unfolding session_key_def build_dependency_key_def request_deps_def request_fld_def
  using assms by (intro arg_cong [where f = "sha256 w"] dependency_base_cong)
    (simp_all add: normalize_field_idem normalize_theories_idem)

section \<open>Properties\<close>

text \<open>What \<open>create_session\<close> gives. It keeps the pool in order however it ends. A session it returns is the
  newest entry of the pool, alive, unleased, idle and without history, over the normalised field and
  theories and under their key; the gateway is up, and when memory management is on, a memory reading
  made during this call admitted it. An exception is \<open>PoolExhausted\<close> or \<open>SessionStartError\<close>.\<close>

theorem create_session_outcome:
  assumes "inj (uuid4 w)" and "mgr_ok w m" and "create_session w thys fld m = (r, m')"
    and "rq = \<lparr>cr_theories = thys, cr_field = fld, cr_lease = None, cr_dirs = None, cr_group = None, cr_extra = None\<rparr>"
  shows "mgr_ok w m' \<and> (case r of
      Inr s \<Rightarrow> gateway_up m' \<and> admitted w (observed m) m' \<and> created w rq s m'
    | Inl e \<Rightarrow> class_of e \<in> {C_PoolExhausted, C_SessionStartError})"
proof -
  note raw = create_raw_triple [OF assms(1), of "observed m" rq]
  have ok: "mgr_ok w m \<and> observed m \<le> observed m" using assms(2) by simp
  have run: "as_start_error ''create_session'' ''Failed to create session: '' (create_session_raw w rq) m = (r, m')"
    using assms(3) by (simp only: create_session_def assms(4))
  obtain r1 m1 where r1: "create_session_raw w rq m = (r1, m1)" by force
  then have "m' = m1" using as_start_error_state run by (metis snd_conv)
  show ?thesis
  proof (cases r)
    case (Inl e)
    then have "class_of e \<in> {C_PoolExhausted, C_SessionStartError}"
      using run as_start_error_class by simp
    moreover have "mgr_ok w m1"
      using triple_value [OF raw ok] triple_error [OF raw ok] r1 by (cases r1) auto
    ultimately show ?thesis using Inl \<open>m' = m1\<close> by simp
  next
    case (Inr s)
    then have "create_session_raw w rq m = (Inr s, m')"
      using run by (simp add: as_start_error_value)
    then show ?thesis using triple_value [OF raw ok] Inr by simp
  qed
qed

text \<open>Property C15: what \<open>acquire_session\<close> gives. The session returned is the newest entry of the pool, alive and
  leased under the token returned, and its dependency key is the key of the request, so the same request
  finds it again. It is a session the pool had when the call says so, and otherwise a new one, created
  only because no session of the pool was suitable, with the gateway up and memory admitted.\<close>

theorem acquire_session_outcome:
  assumes "inj (uuid4 w)" and "mgr_ok w m" and "strip (default_field (settings w)) = default_field (settings w)"
    and "acquire_session w rq reuse_dirty m = (Inr (s, reused, lid), m')"
    and "key = build_dependency_key (sha256 w) (default_field (settings w)) (cr_theories rq) (cr_field rq) (cr_extra rq)"
  shows "mgr_ok w m' \<and> lru (mpool m') \<noteq> [] \<and> last (lru (mpool m')) = (session_id s, s)
    \<and> live s \<and> leased s \<and> lease_id s = Some lid \<and> dependency_key s = Some key
    \<and> (if reused then od_get (session_id s) (lru (mpool m)) \<noteq> None
       else (\<forall>(sid, x) \<in> set (lru (mpool m)). \<not> reusable key reuse_dirty x)
         \<and> gateway_up m' \<and> admitted w (observed m) m')"
proof -
  let ?m1 = "m\<lparr>observed := Suc (Suc (observed m))\<rparr>"
  let ?now = "wall_clock w (Suc (observed m))"
  let ?lid = "take 12 (filter (\<lambda>c. c \<noteq> CHR ''-'') (uuid4 w (observed m)))"
  obtain f p where fp: "find_and_lease ?now ?lid key reuse_dirty (mpool m) = (f, p)" by force
  have run: "(case f of Some s \<Rightarrow> ret (s, True, ?lid)
      | None \<Rightarrow> andThen (create_session_raw w (rq\<lparr>cr_lease := Some ?lid\<rparr>)) (\<lambda>s. ret (s, False, ?lid)))
      (?m1\<lparr>mpool := p\<rparr>) = (Inr (s, reused, lid), m')"
    using assms(4,5) fp
    by (simp add: acquire_session_def new_lease_id_def andThen_def observe_def on_pool_def)
  have inv: "pool_inv (pool_size (settings w)) (mpool m)" using assms(2) by (simp add: mgr_ok_def)
  have inv': "pool_inv (pool_size (settings w)) p" "ledger p = ledger (mpool m)"
    using find_and_lease_inv [OF inv, of ?now ?lid key reuse_dirty]
      ledger_lease [OF inv, of ?now ?lid key reuse_dirty] fp by simp_all
  have ok: "mgr_ok w (?m1\<lparr>mpool := p\<rparr>)" using assms(2) inv' by (auto simp: mgr_ok_def)
  note one = find_and_lease_cases [OF inv fp]
  show ?thesis
  proof (cases f)
    case (Some s0)
    then have eqs: "s = s0" "reused" "lid = ?lid" "m' = ?m1\<lparr>mpool := p\<rparr>" using run by auto
    obtain u x v where x: "lru (mpool m) = u @ (session_id s0, x) # v" "reusable key reuse_dirty x"
      "s0 = snd (try_acquire_lease ?now ?lid x)" "p = (mpool m)\<lparr>lru := u @ v @ [(session_id s0, s0)]\<rparr>"
      using one Some by auto
    have got: "leased s0" "lease_id s0 = Some ?lid" "dependency_key s0 = Some key"
      using x(2) unfolding x(3) by (simp_all add: reusable_def try_acquire_lease_def touch_def)
    have "(session_id s0, s0) \<in> set (lru p)" unfolding x(4) by simp
    then have "live s0" using inv'(1) by (auto simp: pool_inv_def dest: entries_okD)
    moreover have "lru p \<noteq> [] \<and> last (lru p) = (session_id s0, s0)" unfolding x(4) by simp
    moreover have "od_get (session_id s0) (lru (mpool m)) \<noteq> None"
      unfolding od_get_None_iff x(1) by (simp add: od_keys_def)
    ultimately show ?thesis using got ok eqs by simp
  next
    case None
    then have raw: "create_session_raw w (rq\<lparr>cr_lease := Some ?lid\<rparr>) (?m1\<lparr>mpool := p\<rparr>) = (Inr s, m')"
      "\<not> reused" "lid = ?lid"
      using run by (auto simp: andThen_def split: prod.splits sum.splits)
    have "mgr_ok w m' \<and> gateway_up m' \<and> admitted w (observed m) m' \<and> created w (rq\<lparr>cr_lease := Some ?lid\<rparr>) s m'"
      by (rule triple_value [OF create_raw_triple [OF assms(1)] _ raw(1)]) (use ok in simp)
    moreover have "session_key w (rq\<lparr>cr_lease := Some ?lid\<rparr>) = key"
      using session_key_request [OF assms(3)] assms(5) by simp
    ultimately show ?thesis using one None raw by (simp add: created_def)
  qed
qed

text \<open>A dead gateway is replaced and takes its sessions along. When the probe of a running gateway answers
  that it is alive, nothing changes; when it answers that it is dead, every session of the pool is
  closed and taken out, the theory generator is dropped, and the call succeeds exactly when a new gateway
  starts; otherwise it raises \<open>GatewayUnavailable\<close> and no gateway is recorded.\<close>

theorem dead_gateway_replaced:
  assumes "gateway_up m" and "gateway_probe w (observed m) = Inr alive" and "ensure_gateway w m = (r, m')"
  shows "if alive then r = Inr () \<and> m' = m\<lparr>observed := Suc (observed m)\<rparr>
    else lru (mpool m') = [] \<and> thy_gen m' = None
      \<and> closed_sessions (mpool m') = closed_sessions (mpool m) @ map (close (prover w)) (map snd (lru (mpool m)))
      \<and> gateway_up m' = (r = Inr ())
      \<and> (r = Inr () \<longleftrightarrow> gateway_start w (Suc (Suc (observed m))) = Inr ())
      \<and> (\<forall>e. r = Inl e \<longrightarrow> class_of e = C_GatewayUnavailable)"
proof (cases alive)
  case True
  then show ?thesis using assms
    by (simp add: ensure_gateway_def catch_def andThen_def attempt_at_def observe_def)
next
  case False
  let ?m = "m\<lparr>mpool := purge (prover w) (mpool m), gateway_up := False, thy_gen := None,
      observed := Suc (Suc (observed m))\<rparr>"
  have "ensure_gateway w m = (case gateway_start w (Suc (Suc (observed m))) of
      Inl e \<Rightarrow> (Inl (session_exn C_GatewayUnavailable ''_ensure_gateway'' (''failed to start REPL gateway: '' @ str_of e)),
          ?m\<lparr>observed := Suc (Suc (Suc (observed m)))\<rparr>)
    | Inr u \<Rightarrow> (Inr (), ?m\<lparr>observed := Suc (Suc (Suc (observed m))), gateway_up := True\<rparr>))"
    using assms(1,2) False
    by (simp add: ensure_gateway_def recover_gateway_def quietly_def change_pool_def catch_def andThen_def
        attempt_at_def observe_def split: sum.split)
  then show ?thesis using assms(3) False
    by (auto simp: purge_def session_exn_def session_error_def split: sum.splits)
qed

text \<open>\<open>create_session\<close> hides a gateway failure behind \<open>SessionStartError\<close>.\<close>

theorem gateway_failure_becomes_start_error:
  assumes "ensure_gateway w m = (Inl e, m1)" and "class_of e = C_GatewayUnavailable"
  shows "\<exists>d. fst (create_session w thys fld m) = Inl d \<and> class_of d = C_SessionStartError"
proof -
  have "\<not> isinstance e C_PoolExhausted" using assms(2) by (simp add: isinstance_def mro_def)
  then show ?thesis using assms(1)
    by (simp add: create_session_def as_start_error_def create_session_raw_def catch_def andThen_def
        session_exn_def session_error_def)
qed

section \<open>Witnesses\<close>

text \<open>A site where everything works, memory is free and the prover counts its calls; its gateway answers the
  probe that it is dead.\<close>

definition demo_site :: "nat site" where
  "demo_site = \<lparr>prover = demo_api, sha256 = id, settings = demo_config,
     memory_settings = \<lparr>pressure_threshold = 85, min_available_mb = 256, fallback_system_mb = 4096\<rparr>,
     gateway_start = (\<lambda>_. Inr ()), gateway_probe = (\<lambda>_. Inr False), gateway_stop = (\<lambda>_. Inr ()),
     monotonic = of_nat, wall_clock = of_nat, memory_at = (\<lambda>_. \<lparr>used_bytes = 0, limit_bytes = 1073741824\<rparr>),
     init_thy = (\<lambda>_. Inr ''theory [filename] imports [thys] begin end''), write_file = (\<lambda>_. Inr ()),
     unlink_file = (\<lambda>_. Inr ()), uuid4 = (\<lambda>k. replicate k CHR ''a''), new_backend = (\<lambda>_ _ _ _. (Inr 0, 2)),
     start_thread = (\<lambda>_. Inr ()), thys_path = ''/thys''\<rparr>"

definition demo_manager :: "bool \<Rightarrow> nat manager" where
  "demo_manager up = \<lparr>mpool = \<lparr>lru = [], closed_sessions = []\<rparr>, gateway_up = up, thy_gen = None, thys_dir = [],
     alive_probe = False, alive_probe_ts = 0, observed = 0\<rparr>"

lemma demo_inj: "inj (uuid4 demo_site)"
  by (auto simp: demo_site_def inj_def dest: arg_cong [where f = length])

lemma demo_ok: "mgr_ok demo_site (demo_manager up)"
  by (simp add: mgr_ok_def demo_manager_def pool_inv_def od_ok_def od_keys_def entries_ok_def ledger_def)

lemma demo_admits: "can_admit (memory_settings demo_site) (memory_at demo_site k)"
  by (simp add: demo_site_def can_admit_def pressure_pct_def available_bytes_def)

text \<open>A creation at this site, step by step.\<close>

lemma demo_relieve: "relieve_memory demo_site m = (Inr (memory_at demo_site (observed m)), m\<lparr>observed := Suc (observed m)\<rparr>)"
proof -
  have "relieve (prover demo_site) (admits_at demo_site) (observed m) (mpool m) = (observed m, mpool m)"
    by (subst relieve.simps) (simp add: admits_at_def demo_admits)
  then show ?thesis by (simp add: relieve_memory_def)
qed

lemma demo_admit: "\<exists>m'. admit_memory demo_site m = (Inr (), m') \<and> mpool m' = mpool m"
proof -
  have "retry_admission demo_site n (memory_at demo_site k) = ret (memory_at demo_site k)" for n k
    by (cases n) (simp_all add: demo_admits)
  then show ?thesis by (simp add: admit_memory_def andThen_def demo_relieve demo_admits)
qed

lemma demo_register:
  assumes "lru (mpool m) = []"
  shows "\<exists>s' m'. on_pool (register_session demo_api 1 t l (new_session a b c d e f g h i j)) m = (Inr s', m')"
  using assms by (cases l; subst on_pool_def; subst register_session_def)
    (auto simp: Let_def od_to_end_def od_set_def od_get_def od_pop_def evict_excess.simps acquire_new)

lemma demo_parts [simp]:
  "settings demo_site = demo_config" "prover demo_site = demo_api" "pool_size demo_config = 1"
  "session_create_timeout demo_config = 120" "new_backend demo_site k ts f ds = (Inr 0, 2)"
  "start_thread demo_site k = Inr ()"
  by (simp_all add: demo_site_def demo_config_def)

lemma demo_open:
  assumes "lru (mpool m) = []"
  shows "\<exists>s m'. open_session demo_site rq wt m = (Inr s, m')"
proof -
  obtain wrapper ths where wt: "wt = (wrapper, ths)" by force
  obtain m1 where m1: "admit_memory demo_site m = (Inr (), m1)" "mpool m1 = mpool m" using demo_admit by blast
  show ?thesis
    unfolding open_session_def wt prod.case using m1
    by (simp add: andThen_def observe_def make_backend_def make_worker_def attempt_at_def catch_def)
      (rule demo_register, simp add: assms)
qed

lemma demo_create:
  assumes "request_deps rq = []" and "gateway_up m = False" and "lru (mpool m) = []"
  shows "\<exists>s m'. create_session_raw demo_site rq m = (Inr s, m')"
proof -
  have "ensure_gateway demo_site m = (Inr (), m\<lparr>observed := Suc (observed m), gateway_up := True\<rparr>)"
    using assms(2) by (simp add: ensure_gateway_def catch_def andThen_def attempt_at_def observe_def demo_site_def)
  moreover have "\<exists>m2. need_thy_init demo_site m1 = (Inr (), m2) \<and> mpool m2 = mpool m1" for m1
    by (simp add: need_thy_init_def load_template_def catch_def andThen_def attempt_at_def observe_def demo_site_def
        split: option.split)
  then obtain m2 where "need_thy_init demo_site (m\<lparr>observed := Suc (observed m), gateway_up := True\<rparr>) = (Inr (), m2)"
    "mpool m2 = mpool m" by fastforce
  ultimately show ?thesis
    using demo_open [of m2] assms(1,3) by (simp add: create_session_raw_def andThen_def prepare_theories_def)
qed

theorem create_session_outcome_witness:
  "\<exists>s m'. create_session demo_site None None (demo_manager False) = (Inr s, m') \<and> gateway_up m'
     \<and> session_field s = ''HOL'' \<and> \<not> leased s"
proof -
  let ?rq = "\<lparr>cr_theories = None, cr_field = None, cr_lease = None, cr_dirs = None, cr_group = None, cr_extra = None\<rparr>"
  obtain s m' where run: "create_session_raw demo_site ?rq (demo_manager False) = (Inr s, m')"
    using demo_create [of ?rq "demo_manager False"]
    by (auto simp: request_deps_def normalize_theories_def demo_manager_def)
  then have "create_session demo_site None None (demo_manager False) = (Inr s, m')"
    unfolding create_session_def by (simp add: as_start_error_value)
  then show ?thesis
    using create_session_outcome [OF demo_inj demo_ok, of None None False "Inr s" m' ?rq]
    by (auto simp: created_def request_fld_def normalize_field_def demo_config_def)
qed

theorem acquire_session_outcome_witness:
  "\<exists>s lid m'. acquire_session demo_site \<lparr>cr_theories = None, cr_field = None, cr_lease = None, cr_dirs = None,
        cr_group = None, cr_extra = None\<rparr> True (demo_manager False) = (Inr (s, False, lid), m')
     \<and> leased s \<and> lease_id s = Some lid"
proof -
  let ?rq = "\<lparr>cr_theories = None, cr_field = None, cr_lease = None, cr_dirs = None, cr_group = None, cr_extra = None\<rparr>"
  let ?lid = "take 12 (filter (\<lambda>c. c \<noteq> CHR ''-'') (uuid4 demo_site 0))"
  let ?m = "(demo_manager False)\<lparr>observed := 2\<rparr>"
  obtain s m' where run: "create_session_raw demo_site (?rq\<lparr>cr_lease := Some ?lid\<rparr>) ?m = (Inr s, m')"
    using demo_create [of "?rq\<lparr>cr_lease := Some ?lid\<rparr>" ?m]
    by (auto simp: request_deps_def normalize_theories_def demo_manager_def)
  have "acquire_session demo_site ?rq True (demo_manager False) = (Inr (s, False, ?lid), m')"
    using run by (simp add: acquire_session_def new_lease_id_def andThen_def observe_def on_pool_def
        find_and_lease_def demo_manager_def numeral_2_eq_2)
  moreover have "strip (default_field (settings demo_site)) = default_field (settings demo_site)"
    by (simp add: demo_config_def) code_simp
  ultimately show ?thesis
    using acquire_session_outcome [OF demo_inj demo_ok, of ?rq True False s False ?lid m'] by auto
qed

theorem dead_gateway_replaced_witness:
  "fst (ensure_gateway demo_site ((demo_manager True)\<lparr>mpool := demo_pool\<rparr>)) = Inr ()
   \<and> lru (mpool (snd (ensure_gateway demo_site ((demo_manager True)\<lparr>mpool := demo_pool\<rparr>)))) = []"
proof -
  let ?m = "(demo_manager True)\<lparr>mpool := demo_pool\<rparr>"
  obtain r m' where run: "ensure_gateway demo_site ?m = (r, m')" by force
  have "gateway_up ?m" by (simp add: demo_manager_def)
  moreover have "gateway_probe demo_site (observed ?m) = Inr False" "gateway_start demo_site k = Inr ()" for k
    by (simp_all add: demo_site_def)
  ultimately show ?thesis using dead_gateway_replaced [OF _ _ run, of False] run by auto
qed

end
