(* ===== verification/Heap_Pool.thy ===== *)
theory Heap_Pool
  imports Py_Regex Py_Effects Ordered_Dict "HOL-Library.Product_Lexorder"
begin

text \<open>
  The heap pool (\<open>server/app/services/heap_pool.py\<close>): the registry of built heaps by task group and
  project, its persisted manifests, a build in its two halves around the \<open>isabelle build\<close> process,
  staleness, the gate for session creation, and deletion.

  The project directories, the hash and \<open>repr\<close> are the parameter \<open>heap_env\<close>; SHA-256 is any function. A
  manifest on disk is the entry it was written from, or \<open>None\<close> when it cannot be read. Removing and
  listing heap images is in \<open>Heap_Images\<close>.
\<close>

section \<open>Entries and state\<close>

datatype heap_status = HS_Building | HS_Ready | HS_Stale | HS_Failed

record theory_file =
  tf_path :: pystr
  tf_sha256 :: pystr
  tf_mtime :: real

record heap_entry =
  he_group :: pystr
  he_project :: pystr
  he_session :: pystr
  he_root_dir :: pystr
  he_root_text :: pystr
  he_files :: "theory_file list"
  he_fingerprint :: pystr
  he_status :: heap_status
  he_log :: pystr
  he_built_at :: "real option"
  he_built_by :: "pystr option"

type_synonym heap_key = "pystr \<times> pystr"

text \<open>\<open>manifests\<close> are the files \<open><group>/<hash>.json\<close>; \<open>scratch_roots\<close> the generated ROOT directories;
  \<open>locked\<close> the keys whose build lock is held.\<close>

record heap_state =
  entries :: "(heap_key, heap_entry) od"
  manifests :: "(heap_key, heap_entry option) od"
  scratch_roots :: "(pystr, pystr) od"
  locked :: "heap_key list"

text \<open>A theory file of a project: its name, its bytes and its modification time.\<close>

record heap_env =
  hash :: "pystr \<Rightarrow> pystr"
  repr :: "pystr \<Rightarrow> pystr"
  state_dir :: pystr
  dir_exists :: "pystr \<Rightarrow> bool"
  user_root :: "pystr \<Rightarrow> pystr option"
  thy_sources :: "pystr \<Rightarrow> exn + (pystr \<times> pystr \<times> real) list"
  build_timeout :: real
  build_timeout_text :: pystr

definition project_hash :: "heap_env \<Rightarrow> pystr \<Rightarrow> pystr" where
  "project_hash env project = take 16 (hash env project)"

definition manifest_key :: "heap_env \<Rightarrow> pystr \<Rightarrow> pystr \<Rightarrow> heap_key" where
  "manifest_key env g project = (g, project_hash env project)"

definition persist :: "heap_env \<Rightarrow> heap_entry \<Rightarrow> heap_state \<Rightarrow> heap_state" where
  "persist env e st = st\<lparr>manifests := od_set (manifest_key env (he_group e) (he_project e)) (Some e) (manifests st)\<rparr>"

section \<open>Reading the manifests back\<close>

definition interrupted :: "heap_entry \<Rightarrow> heap_entry" where
  "interrupted e =
     (if he_status e = HS_Building
      then e\<lparr>he_status := HS_Failed,
             he_log := strip (he_log e @ [NL] @ ''[heap_pool] build interrupted by server restart'')\<rparr>
      else e)"

fun load_from :: "heap_entry option list \<Rightarrow> (heap_key, heap_entry) od \<Rightarrow> (heap_key, heap_entry) od" where
  "load_from [] d = d"
| "load_from (None # ms) d = load_from ms d"
| "load_from (Some e # ms) d = load_from ms (od_set (he_group e, he_project e) (interrupted e) d)"

definition load_manifests :: "heap_state \<Rightarrow> (heap_key, heap_entry) od" where
  "load_manifests st = load_from (map snd (sort_key fst (manifests st))) []"

text \<open>A restart: the registry comes from the manifests, and no lock is held.\<close>

definition restart :: "heap_state \<Rightarrow> heap_state" where
  "restart st = st\<lparr>entries := load_manifests st, locked := []\<rparr>"

section \<open>Lookups\<close>

definition get_heap :: "pystr \<Rightarrow> pystr \<Rightarrow> heap_state \<Rightarrow> heap_entry option" where
  "get_heap g project st = od_get (g, project) (entries st)"

definition find_by_session :: "pystr \<Rightarrow> pystr \<Rightarrow> heap_state \<Rightarrow> heap_entry option" where
  "find_by_session g name st =
     (let matches = map snd (filter (\<lambda>((g', p), e). g' = g \<and> he_session e = name) (entries st))
      in if length matches = 1 then Some (hd matches) else None)"

definition exists_elsewhere :: "pystr \<Rightarrow> pystr option \<Rightarrow> pystr option \<Rightarrow> heap_state \<Rightarrow> bool" where
  "exists_elsewhere g name project st =
     (\<exists>((g', p), e) \<in> set (entries st). g' \<noteq> g \<and> (project = Some p \<or> name = Some (he_session e)))"

definition list_heaps :: "pystr option \<Rightarrow> heap_state \<Rightarrow> heap_entry list" where
  "list_heaps g st = sort_key (\<lambda>e. (he_group e, he_project e))
     (map snd (filter (\<lambda>((g', p), e). g = None \<or> Some g' = g) (entries st)))"

definition heap_groups :: "heap_state \<Rightarrow> (pystr \<times> nat \<times> nat) list" where
  "heap_groups st = map (\<lambda>g. let es = map snd (filter (\<lambda>((g', p), e). g' = g) (entries st)) in
       (g, length es, length (filter (\<lambda>e. he_status e = HS_Ready) es)))
     (sorted_set (map (\<lambda>((g, p), e). g) (entries st)))"

section \<open>Building\<close>

text \<open>\<open>str(Path(p))\<close> and \<open>Path(p).name\<close> of an absolute path.\<close>

definition path_parts :: "pystr \<Rightarrow> pystr list" where
  "path_parts p = filter (\<lambda>c. c \<noteq> [] \<and> c \<noteq> ''.'') (split_on CHR ''/'' p)"

definition path_str :: "pystr \<Rightarrow> pystr" where
  "path_str p = ''/'' @ join ''/'' (path_parts p)"

definition path_name :: "pystr \<Rightarrow> pystr" where
  "path_name p = (if path_parts p = [] then [] else last (path_parts p))"

definition stem :: "pystr \<Rightarrow> pystr" where
  "stem name = (if name = ''.thy'' then name else take (length name - 4) name)"

definition is_ident_char :: "char \<Rightarrow> bool" where
  "is_ident_char c = (is_alpha_ascii c \<or> is_digit_ascii c \<or> c = CHR ''_'')"

definition SESSION_NAME_RE :: re where
  "SESSION_NAME_RE = seqs [LineStart, Chr is_alpha_ascii, Star (Chr is_ident_char), TextEnd]"

definition ROOT_SESSION_RE :: re where
  "ROOT_SESSION_RE =
     seqs [LineStart, Star (Chr is_space), lit ''session'', Plus (Chr is_space),
           Alt (Chr (\<lambda>c. c = CHR 0x22)) Eps, Grp 1 (Seq (Chr is_alpha_ascii) (Star (Chr is_ident_char))),
           Alt (Chr (\<lambda>c. c = CHR 0x22)) Eps]"

definition default_session_name :: "pystr \<Rightarrow> pystr" where
  "default_session_name project =
     (let base = map (\<lambda>c. if is_ident_char c then c else CHR ''_'') (path_name project)
      in if base = [] \<or> \<not> is_alpha (hd base) then ''Heap_'' @ base else base)"

definition theory_files :: "heap_env \<Rightarrow> pystr \<Rightarrow> exn + (pystr \<times> pystr \<times> real) list" where
  "theory_files env project = onOk (thy_sources env project) (\<lambda>fs. Inr (sort_key fst fs))"

definition scan_sources :: "heap_env \<Rightarrow> pystr \<Rightarrow> exn + theory_file list" where
  "scan_sources env project = onOk (theory_files env project) (\<lambda>fs. Inr (map (\<lambda>(name, bytes, mtime).
     \<lparr>tf_path = path_str project @ ''/'' @ name, tf_sha256 = hash env bytes, tf_mtime = mtime\<rparr>) fs))"

definition fingerprint :: "heap_env \<Rightarrow> pystr \<Rightarrow> theory_file list \<Rightarrow> pystr" where
  "fingerprint env txt files = hash env (txt @ concat (map (\<lambda>f. tf_path f @ tf_sha256 f) files))"

definition heap_error :: "pystr \<Rightarrow> exn" where
  "heap_error msg = Exn C_HeapPoolError msg"

definition scratch_text :: "pystr \<Rightarrow> pystr \<Rightarrow> pystr list \<Rightarrow> pystr" where
  "scratch_text name project thys =
     ''session '' @ name @ '' = HOL +'' @ [NL]
     @ ''  directories '' @ [CHR 0x22] @ path_str project @ [CHR 0x22] @ [NL]
     @ ''  theories'' @ [NL] @ concat (map (\<lambda>t. ''    '' @ t @ [NL]) thys)"

definition root_and_session :: "heap_env \<Rightarrow> pystr \<Rightarrow> pystr \<Rightarrow> pystr option \<Rightarrow> exn + (pystr \<times> pystr \<times> pystr)" where
  "root_and_session env g project session_name =
     (case user_root env project of
        Some txt \<Rightarrow>
          (if truthy session_name then Inr (path_str project, or_else session_name [], txt)
           else case search ROOT_SESSION_RE txt of
             None \<Rightarrow> Inl (heap_error (path_str project @ ''/ROOT: could not parse session name; pass session_name''))
           | Some (a, b, gs) \<Rightarrow> Inr (path_str project, (case group 1 gs of Some n \<Rightarrow> n | None \<Rightarrow> []), txt))
      | None \<Rightarrow>
          (let name = or_else session_name (default_session_name project) in
           if match_start SESSION_NAME_RE name = None
           then Inl (heap_error (''invalid session name: '' @ repr env name))
           else onOk (theory_files env project) (\<lambda>fs.
             if fs = [] then Inl (heap_error (path_str project @ '': no .thy files found''))
             else Inr (state_dir env @ ''/_roots/'' @ g @ ''/'' @ project_hash env (path_str project), name,
                       scratch_text name project (map (\<lambda>(n, b, t). stem n) fs)))))"

text \<open>\<open>build\<close> up to the wait for the semaphore, and the part of \<open>_build_locked\<close> before the process starts. An
  exception there leaves \<open>async with lock\<close>.\<close>

definition lock_build :: "pystr \<Rightarrow> pystr \<Rightarrow> (heap_state, unit) py" where
  "lock_build g project st =
     (if (g, project) \<in> set (locked st)
      then (Inl (Exn C_HeapBuildInProgress (''build already in progress for '' @ g @ '':'' @ project)), st)
      else (Inr (), st\<lparr>locked := (g, project) # locked st\<rparr>))"

definition unlock_build :: "heap_key \<Rightarrow> heap_state \<Rightarrow> heap_state" where
  "unlock_build key st = st\<lparr>locked := removeAll key (locked st)\<rparr>"

definition new_entry :: "heap_env \<Rightarrow> pystr \<Rightarrow> pystr \<Rightarrow> pystr option \<Rightarrow> pystr \<times> pystr \<times> pystr
    \<Rightarrow> theory_file list \<Rightarrow> heap_entry" where
  "new_entry env g project built_by parts files = (case parts of (root_dir, name, txt) \<Rightarrow>
     \<lparr>he_group = g, he_project = project, he_session = name, he_root_dir = root_dir,
      he_root_text = txt, he_files = files, he_fingerprint = fingerprint env txt files,
      he_status = HS_Building, he_log = [], he_built_at = None, he_built_by = built_by\<rparr>)"

definition wanted_session :: "pystr \<Rightarrow> pystr \<Rightarrow> pystr option \<Rightarrow> heap_state \<Rightarrow> pystr option" where
  "wanted_session g project session_name st = (case session_name of
       Some n \<Rightarrow> Some n
     | None \<Rightarrow> map_option he_session (od_get (g, project) (entries st)))"

definition place_root :: "pystr \<Rightarrow> pystr \<times> pystr \<times> pystr \<Rightarrow> heap_state \<Rightarrow> heap_state" where
  "place_root project parts st = (case parts of (root_dir, name, txt) \<Rightarrow>
     if root_dir \<noteq> path_str project then st\<lparr>scratch_roots := od_set root_dir txt (scratch_roots st)\<rparr> else st)"

definition start_build :: "heap_env \<Rightarrow> pystr \<Rightarrow> pystr \<Rightarrow> pystr option \<Rightarrow> pystr option \<Rightarrow> (heap_state, heap_entry) py" where
  "start_build env g project session_name built_by st =
     (if \<not> dir_exists env project
      then (Inl (Exn C_HeapNotFound (''project dir not found: '' @ project)), unlock_build (g, project) st)
      else case root_and_session env g project (wanted_session g project session_name st) of
        Inl e \<Rightarrow> (Inl e, unlock_build (g, project) st)
      | Inr parts \<Rightarrow>
          (let st1 = place_root project parts st in
           case scan_sources env project of
             Inl e \<Rightarrow> (Inl e, unlock_build (g, project) st1)
           | Inr files \<Rightarrow>
               (let e = new_entry env g project built_by parts files in
                (Inr e, (persist env e st1)\<lparr>entries := od_set (g, project) e (entries st1)\<rparr>))))"

text \<open>What the process did: how long it ran, its exit code and its output, or the exception.\<close>

type_synonym build_process = "exn + real \<times> int \<times> pystr"

definition build_outcome :: "heap_env \<Rightarrow> build_process \<Rightarrow> bool \<times> pystr" where
  "build_outcome env run = (case run of
       Inl e \<Rightarrow> if isinstance e C_TimeoutError
                then (False, ''isabelle build timed out after '' @ build_timeout_text env @ ''s'')
                else (False, ''failed to run isabelle build: '' @ str_of e)
     | Inr (seconds, code, out) \<Rightarrow>
         if build_timeout env < seconds
         then (False, ''isabelle build timed out after '' @ build_timeout_text env @ ''s'')
         else (code = 0, out))"

definition finished :: "heap_env \<Rightarrow> real \<Rightarrow> build_process \<Rightarrow> heap_entry \<Rightarrow> heap_entry" where
  "finished env now run e = (case build_outcome env run of (good, out) \<Rightarrow>
     e\<lparr>he_log := slice_from (-4000) out, he_built_at := (if good then Some now else None),
       he_status := (if good then HS_Ready else HS_Failed)\<rparr>)"

text \<open>The rest of \<open>_build_locked\<close>. The entry is the object the registry holds, unless it was deleted in the
  meantime; the manifest is written either way.\<close>

definition end_build :: "heap_env \<Rightarrow> real \<Rightarrow> build_process \<Rightarrow> heap_entry \<Rightarrow> (heap_state, heap_entry) py" where
  "end_build env now run e st =
     (let key = (he_group e, he_project e); e1 = finished env now run e;
          st1 = (unlock_build key (persist env e1 st))\<lparr>entries := (if od_get key (entries st) = None then entries st
                               else od_set key e1 (entries st))\<rparr> in
      (if he_status e1 = HS_Ready then Inr e1
       else Inl (Exn C_HeapBuildFailed (''isabelle build failed for '' @ he_group e @ '':'' @ he_project e
              @ '' (session '' @ he_session e @ ''): '' @ slice_from (-1000) (he_log e1))), st1))"

section \<open>Staleness and the session gate\<close>

definition check_stale :: "heap_env \<Rightarrow> heap_entry \<Rightarrow> (heap_state, bool) py" where
  "check_stale env e st =
     (if he_status e \<noteq> HS_Ready then (Inr False, st)
      else case (case scan_sources env (he_project e) of
             Inl x \<Rightarrow> if isinstance x C_OSError then Inr ''<unreadable>'' else Inl x
           | Inr files \<Rightarrow> Inr (fingerprint env (he_root_text e) files)) of
        Inl x \<Rightarrow> (Inl x, st)
      | Inr current \<Rightarrow>
          (if current \<noteq> he_fingerprint e
           then (let e1 = e\<lparr>he_status := HS_Stale\<rparr> in
                 (Inr True, (persist env e1 st)\<lparr>entries := od_set (he_group e, he_project e) e1 (entries st)\<rparr>))
           else (Inr False, st)))"

definition no_entry :: "heap_env \<Rightarrow> pystr \<Rightarrow> pystr option \<Rightarrow> pystr option \<Rightarrow> heap_state \<Rightarrow> exn" where
  "no_entry env g name project st =
     (if exists_elsewhere g name project st
      then Exn C_HeapCrossGroup (''heap '' @ (if truthy name then or_else name [] else case project of None \<Rightarrow> ''None'' | Some p \<Rightarrow> p)
        @ '' belongs to another task group; sessions may only use their own group's heaps'')
      else Exn C_HeapNotFound (''no heap for group '' @ repr env g @ '' (heap_session=''
        @ (case name of None \<Rightarrow> ''None'' | Some n \<Rightarrow> repr env n) @ '', project=''
        @ (case project of None \<Rightarrow> ''None'' | Some p \<Rightarrow> repr env p)
        @ ''); build it first with POST /api/v1/heaps/build''))"

definition stale_error :: "heap_env \<Rightarrow> pystr \<Rightarrow> heap_entry \<Rightarrow> exn" where
  "stale_error env g e = Exn C_HeapNotReady (''heap '' @ he_session e
     @ '' is stale (sources changed since build); rebuild with POST /api/v1/heaps/build {task_group=''
     @ repr env g @ '', project='' @ repr env (he_project e) @ ''}'')"

definition candidate :: "pystr \<Rightarrow> pystr option \<Rightarrow> pystr option \<Rightarrow> heap_state \<Rightarrow> heap_entry option" where
  "candidate g name project st =
     (case (case project of None \<Rightarrow> None | Some p \<Rightarrow> get_heap g p st) of
        Some e \<Rightarrow> Some e
      | None \<Rightarrow> (case name of None \<Rightarrow> None | Some n \<Rightarrow> find_by_session g n st))"

definition resolve_for_session :: "heap_env \<Rightarrow> pystr \<Rightarrow> pystr option \<Rightarrow> pystr option \<Rightarrow> (heap_state, heap_entry) py" where
  "resolve_for_session env g name project st =
     (case candidate g name project st of
        None \<Rightarrow> (Inl (no_entry env g name project st), st)
      | Some e \<Rightarrow> (case he_status e of
          HS_Building \<Rightarrow> (Inl (Exn C_HeapNotReady (''heap '' @ he_session e @ '' is still building'')), st)
        | HS_Failed \<Rightarrow> (Inl (Exn C_HeapNotReady (''heap '' @ he_session e @ '' failed to build: ''
              @ slice_from (-500) (he_log e))), st)
        | HS_Stale \<Rightarrow> (Inl (stale_error env g e), st)
        | HS_Ready \<Rightarrow> (case check_stale env e st of
              (Inl x, st1) \<Rightarrow> (Inl x, st1)
            | (Inr True, st1) \<Rightarrow> (Inl (stale_error env g e), st1)
            | (Inr False, st1) \<Rightarrow> (Inr e, st1))))"

section \<open>Deletion\<close>

definition delete_heap :: "heap_env \<Rightarrow> pystr \<Rightarrow> pystr \<Rightarrow> heap_state \<Rightarrow> bool \<times> heap_state" where
  "delete_heap env g project st =
     (case od_get (g, project) (entries st) of
        None \<Rightarrow> (False, st)
      | Some e \<Rightarrow> (True, st\<lparr>entries := od_pop (g, project) (entries st),
            manifests := od_pop (manifest_key env g project) (manifests st),
            scratch_roots := (if he_root_dir e \<noteq> path_str project
                              then od_pop (he_root_dir e) (scratch_roots st) else scratch_roots st)\<rparr>))"

definition delete_group :: "heap_env \<Rightarrow> pystr \<Rightarrow> heap_state \<Rightarrow> nat \<times> heap_state" where
  "delete_group env g st =
     (let projects = map (\<lambda>((g', p), e). p) (filter (\<lambda>((g', p), e). g' = g) (entries st)) in
      (length projects, fold (\<lambda>p st. snd (delete_heap env g p st)) projects st))"

end
