(* ===== verification/Heap_Properties.thy ===== *)
theory Heap_Properties
  imports Heap_Pool Server_Errors
begin

text \<open>
  What the heap pool guarantees: the gate for session creation, and that the manifests on disk mirror the
  registry through every step, so that a restart brings the registry back.
\<close>

section \<open>The gate\<close>

text \<open>The fingerprint of the sources as they are now.\<close>

definition current_print :: "heap_env \<Rightarrow> heap_entry \<Rightarrow> exn + pystr" where
  "current_print env e = (case scan_sources env (he_project e) of
       Inl x \<Rightarrow> if isinstance x C_OSError then Inr ''<unreadable>'' else Inl x
     | Inr files \<Rightarrow> Inr (fingerprint env (he_root_text e) files))"

definition marked_stale :: "heap_env \<Rightarrow> heap_entry \<Rightarrow> heap_state \<Rightarrow> heap_state" where
  "marked_stale env e st = (let e1 = e\<lparr>he_status := HS_Stale\<rparr> in
     (persist env e1 st)\<lparr>entries := od_set (he_group e, he_project e) e1 (entries st)\<rparr>)"

lemma check_stale_eq: "check_stale env e st =
    (if he_status e \<noteq> HS_Ready then (Inr False, st)
     else case current_print env e of Inl x \<Rightarrow> (Inl x, st)
       | Inr p \<Rightarrow> if p = he_fingerprint e then (Inr False, st) else (Inr True, marked_stale env e st))"
  by (simp add: check_stale_def current_print_def marked_stale_def Let_def split: sum.split)

section \<open>Steps\<close>

text \<open>The pool while the server runs, for the projects in \<open>P\<close>. The sources of the projects change freely between
  the steps; the hash does not. A heap is not deleted while its build holds the lock.\<close>

inductive heap_step :: "pystr set \<Rightarrow> (pystr \<Rightarrow> pystr) \<Rightarrow> heap_state \<Rightarrow> heap_state \<Rightarrow> bool"
  for P :: "pystr set" and h :: "pystr \<Rightarrow> pystr" where
  h_lock: "project \<in> P \<Longrightarrow> heap_step P h st (snd (lock_build g project st))"
| h_start: "hash env = h \<Longrightarrow> project \<in> P \<Longrightarrow> (g, project) \<in> set (locked st)
    \<Longrightarrow> heap_step P h st (snd (start_build env g project name built_by st))"
| h_end: "hash env = h \<Longrightarrow> od_get (g, project) (entries st) = Some e \<Longrightarrow> he_status e = HS_Building
    \<Longrightarrow> heap_step P h st (snd (end_build env now run e st))"
| h_resolve: "hash env = h \<Longrightarrow> heap_step P h st (snd (resolve_for_session env g name project st))"
| h_delete: "hash env = h \<Longrightarrow> project \<in> P \<Longrightarrow> (g, project) \<notin> set (locked st)
    \<Longrightarrow> heap_step P h st (snd (delete_heap env g project st))"

inductive heap_reach :: "pystr set \<Rightarrow> (pystr \<Rightarrow> pystr) \<Rightarrow> heap_state \<Rightarrow> bool"
  for P :: "pystr set" and h :: "pystr \<Rightarrow> pystr" where
  h_empty: "heap_reach P h \<lparr>entries = [], manifests = [], scratch_roots = [], locked = []\<rparr>"
| h_next: "heap_reach P h st \<Longrightarrow> heap_step P h st st' \<Longrightarrow> heap_reach P h st'"

definition mkey :: "(pystr \<Rightarrow> pystr) \<Rightarrow> heap_key \<Rightarrow> heap_key" where
  "mkey h k = (fst k, take 16 (h (snd k)))"

lemma manifest_key_mkey: "manifest_key env g project = mkey (hash env) (g, project)"
  by (simp add: manifest_key_def project_hash_def mkey_def)

definition entry_key :: "heap_entry \<Rightarrow> heap_key" where
  "entry_key e = (he_group e, he_project e)"

text \<open>The manifests mirror the registry.\<close>

definition mirror :: "pystr set \<Rightarrow> (pystr \<Rightarrow> pystr) \<Rightarrow> heap_state \<Rightarrow> bool" where
  "mirror P h st \<longleftrightarrow> od_ok (entries st) \<and> od_ok (manifests st)
     \<and> (\<forall>k e. od_get k (entries st) = Some e \<longrightarrow> entry_key e = k \<and> snd k \<in> P
          \<and> od_get (mkey h k) (manifests st) = Some (Some e))
     \<and> (\<forall>mk m. od_get mk (manifests st) = Some m \<longrightarrow>
          (\<exists>e. m = Some e \<and> mk = mkey h (entry_key e) \<and> od_get (entry_key e) (entries st) = Some e))"

lemma mkey_inj: "inj_on (\<lambda>p. take 16 (h p)) P \<Longrightarrow> snd k \<in> P \<Longrightarrow> snd k' \<in> P \<Longrightarrow> mkey h k = mkey h k' \<Longrightarrow> k = k'"
  by (cases k; cases k') (auto simp: mkey_def dest: inj_onD)

lemma mirror_entry: "mirror P h st \<Longrightarrow> od_get k (entries st) = Some e
    \<Longrightarrow> entry_key e = k \<and> snd k \<in> P \<and> od_get (mkey h k) (manifests st) = Some (Some e)"
  unfolding mirror_def by blast

lemma mirror_manifest: "mirror P h st \<Longrightarrow> od_get mk (manifests st) = Some m
    \<Longrightarrow> \<exists>e. m = Some e \<and> mk = mkey h (entry_key e) \<and> od_get (entry_key e) (entries st) = Some e"
  unfolding mirror_def by blast

text \<open>Writing an entry to the registry and to its manifest.\<close>

lemma mirror_put:
  assumes inj: "inj_on (\<lambda>p. take 16 (h p)) P" and m: "mirror P h st" and "entry_key e = k" and "snd k \<in> P"
    and ent: "entries st' = od_set k e (entries st)" and man: "manifests st' = od_set (mkey h k) (Some e) (manifests st)"
  shows "mirror P h st'"
  unfolding mirror_def
proof (intro conjI allI impI)
  show "od_ok (entries st')" "od_ok (manifests st')" using m by (simp_all add: mirror_def ent man)
next
  fix k' e' assume a: "od_get k' (entries st') = Some e'"
  have "k' = k \<and> e' = e \<or> k' \<noteq> k \<and> od_get k' (entries st) = Some e'" using a by (auto simp: ent split: if_splits)
  moreover have "mkey h k' \<noteq> mkey h k" if "k' \<noteq> k" "od_get k' (entries st) = Some e'"
    using mkey_inj [OF inj _ assms(4), of k'] mirror_entry [OF m that(2)] that(1) by blast
  ultimately show "entry_key e' = k'" "snd k' \<in> P" "od_get (mkey h k') (manifests st') = Some (Some e')"
    using assms(3,4) mirror_entry [OF m, of k' e'] by (auto simp: man)
next
  fix mk x assume a: "od_get mk (manifests st') = Some x"
  show "\<exists>e. x = Some e \<and> mk = mkey h (entry_key e) \<and> od_get (entry_key e) (entries st') = Some e"
  proof (cases "mk = mkey h k")
    case True
    then show ?thesis using a assms(3) by (auto simp: man ent)
  next
    case False
    then obtain e' where e': "x = Some e'" "mk = mkey h (entry_key e')" "od_get (entry_key e') (entries st) = Some e'"
      using mirror_manifest [OF m, of mk x] a by (auto simp: man)
    then have "entry_key e' \<noteq> k" using False by auto
    then show ?thesis using e' by (auto simp: ent)
  qed
qed

lemma mirror_drop:
  assumes inj: "inj_on (\<lambda>p. take 16 (h p)) P" and m: "mirror P h st" and "snd k \<in> P"
    and ent: "entries st' = od_pop k (entries st)" and man: "manifests st' = od_pop (mkey h k) (manifests st)"
  shows "mirror P h st'"
  unfolding mirror_def
proof (intro conjI allI impI)
  show "od_ok (entries st')" "od_ok (manifests st')" using m by (simp_all add: mirror_def ent man)
next
  fix k' e' assume a: "od_get k' (entries st') = Some e'"
  then have b: "k' \<noteq> k" "od_get k' (entries st) = Some e'" by (auto simp: ent split: if_splits)
  then have "mkey h k' \<noteq> mkey h k"
    using mkey_inj [OF inj _ assms(3), of k'] mirror_entry [OF m b(2)] by blast
  then show "entry_key e' = k'" "snd k' \<in> P" "od_get (mkey h k') (manifests st') = Some (Some e')"
    using mirror_entry [OF m b(2)] by (simp_all add: man)
next
  fix mk x assume a: "od_get mk (manifests st') = Some x"
  then have b: "mk \<noteq> mkey h k" "od_get mk (manifests st) = Some x" by (auto simp: man split: if_splits)
  obtain e' where e': "x = Some e'" "mk = mkey h (entry_key e')" "od_get (entry_key e') (entries st) = Some e'"
    using mirror_manifest [OF m b(2)] by blast
  then have "entry_key e' \<noteq> k" using b(1) by auto
  then show "\<exists>e. x = Some e \<and> mk = mkey h (entry_key e) \<and> od_get (entry_key e) (entries st') = Some e"
    using e' by (auto simp: ent)
qed

lemma mirror_same: "mirror P h st \<Longrightarrow> entries st' = entries st \<Longrightarrow> manifests st' = manifests st \<Longrightarrow> mirror P h st'"
  by (simp add: mirror_def)

lemma persist_simps [simp]:
  "entries (persist env e st) = entries st" "locked (persist env e st) = locked st"
  "manifests (persist env e st) = od_set (mkey (hash env) (entry_key e)) (Some e) (manifests st)"
  by (simp_all add: persist_def manifest_key_mkey entry_key_def)

lemma unlock_simps [simp]:
  "entries (unlock_build k st) = entries st" "manifests (unlock_build k st) = manifests st"
  by (simp_all add: unlock_build_def)

lemma place_root_simps [simp]:
  "entries (place_root p parts st) = entries st" "manifests (place_root p parts st) = manifests st"
  by (simp_all add: place_root_def split: prod.split)

lemma entry_key_updates [simp]:
  "entry_key (new_entry env g project b parts files) = (g, project)"
  "entry_key (finished env now run e) = entry_key e" "entry_key (e\<lparr>he_status := s\<rparr>) = entry_key e"
  by (simp_all add: entry_key_def new_entry_def finished_def split: prod.split)

lemma find_by_session_mem:
  assumes "find_by_session g n st = Some e"
  shows "\<exists>k. (k, e) \<in> set (entries st) \<and> fst k = g"
proof -
  let ?ms = "map snd (filter (\<lambda>((g', p), e). g' = g \<and> he_session e = n) (entries st))"
  have "length ?ms = 1" "e = hd ?ms" using assms by (auto simp: find_by_session_def Let_def split: if_splits)
  then have "e \<in> set ?ms" by (cases ?ms) auto
  then show ?thesis by auto
qed

lemma candidate_entry:
  assumes "candidate g name project st = Some e" and "od_ok (entries st)"
  shows "\<exists>k. od_get k (entries st) = Some e \<and> fst k = g"
proof (cases "case project of None \<Rightarrow> None | Some p \<Rightarrow> get_heap g p st")
  case (Some e')
  then show ?thesis using assms(1) by (auto simp: candidate_def get_heap_def split: option.splits)
next
  case None
  then obtain n where "find_by_session g n st = Some e"
    using assms(1) by (auto simp: candidate_def split: option.splits)
  then show ?thesis using find_by_session_mem assms(2) by (auto simp: od_get_Some_iff)
qed

lemma mirror_resolve:
  assumes inj: "inj_on (\<lambda>p. take 16 (h p)) P" and m: "mirror P h st" and h: "hash env = h"
  shows "mirror P h (snd (resolve_for_session env g name project st))"
proof -
  have flip: "mirror P h (marked_stale env e st)" if c: "candidate g name project st = Some e" for e
  proof -
    obtain k where k: "od_get k (entries st) = Some e"
      using candidate_entry [OF c] m by (auto simp: mirror_def)
    then have key: "entry_key e = k" "snd k \<in> P" using mirror_entry [OF m k] by auto
    show ?thesis
      by (rule mirror_put [OF inj m, of "e\<lparr>he_status := HS_Stale\<rparr>" k])
        (use key h in \<open>simp_all add: marked_stale_def Let_def, simp add: entry_key_def\<close>)
  qed
  show ?thesis
  proof (cases "candidate g name project st")
    case (Some e)
    then show ?thesis using m flip [OF Some]
      by (simp add: resolve_for_session_def check_stale_eq split: heap_status.split sum.split)
  qed (simp add: resolve_for_session_def m)
qed

lemma heap_step_mirror:
  assumes "heap_step P h st st'" and inj: "inj_on (\<lambda>p. take 16 (h p)) P" and m: "mirror P h st"
  shows "mirror P h st'"
  using assms(1)
proof cases
  case (h_lock project g)
  then show ?thesis using m by (auto simp: lock_build_def intro: mirror_same)
next
  case (h_start env project g name built_by)
  have new: "mirror P h ((persist env (new_entry env g project built_by parts files) (place_root project parts st))
      \<lparr>entries := od_set (g, project) (new_entry env g project built_by parts files) (entries st)\<rparr>)" for parts files
    by (rule mirror_put [OF inj m, of "new_entry env g project built_by parts files" "(g, project)"])
      (use h_start in simp_all)
  show ?thesis unfolding h_start(1)
    by (auto simp: start_build_def Let_def new split: sum.split intro: mirror_same [OF m])
next
  case (h_end env g project e now run)
  have key: "entry_key e = (g, project)" "project \<in> P" using mirror_entry [OF m h_end(3)] by auto
  then have fields: "he_group e = g" "he_project e = project" by (simp_all add: entry_key_def)
  show ?thesis unfolding h_end(1)
    by (rule mirror_put [OF inj m, of "finished env now run e" "(g, project)"])
      (use key fields h_end(2,3) in \<open>simp_all add: end_build_def Let_def\<close>)
next
  case (h_resolve env g name project)
  then show ?thesis using mirror_resolve [OF inj m] by simp
next
  case (h_delete env project g)
  show ?thesis
  proof (cases "od_get (g, project) (entries st)")
    case None
    then show ?thesis using m h_delete(1) by (simp add: delete_heap_def)
  next
    case (Some e)
    show ?thesis unfolding h_delete(1)
      by (rule mirror_drop [OF inj m, of "(g, project)"])
        (use Some h_delete in \<open>simp_all add: delete_heap_def manifest_key_mkey\<close>)
  qed
qed

lemma heap_reach_mirror:
  assumes "heap_reach P h st" and "inj_on (\<lambda>p. take 16 (h p)) P"
  shows "mirror P h st"
  using assms(1)
proof induction
  case h_empty
  show ?case by (simp add: mirror_def od_ok_def od_keys_def)
next
  case (h_next st st')
  then show ?case using heap_step_mirror assms(2) by blast
qed

section \<open>Reading back\<close>

lemma load_from_get:
  assumes "distinct (map entry_key es)"
  shows "od_get k (load_from (map Some es) d) =
    (case find (\<lambda>e. entry_key e = k) es of Some e \<Rightarrow> Some (interrupted e) | None \<Rightarrow> od_get k d)"
  using assms
proof (induction es arbitrary: d)
  case (Cons e es)
  have none: "find (\<lambda>x. entry_key x = entry_key e) es = None"
    using Cons.prems by (auto simp: find_None_iff image_iff)
  have "od_get k (load_from (map Some (e # es)) d) =
      (case find (\<lambda>x. entry_key x = k) es of Some x \<Rightarrow> Some (interrupted x)
       | None \<Rightarrow> od_get k (od_set (entry_key e) (interrupted e) d))"
    using Cons by (simp only: load_from.simps list.map entry_key_def [symmetric] distinct.simps)
  then show ?case using none by (auto split: option.split)
qed simp

lemma find_unique: "distinct (map f xs) \<Longrightarrow> x \<in> set xs \<Longrightarrow> find (\<lambda>y. f y = f x) xs = Some x"
  by (induction xs) auto

lemma interrupted_key [simp]: "entry_key (interrupted e) = entry_key e"
  by (simp add: interrupted_def entry_key_def)

lemma interrupted_status [simp]: "he_status (interrupted e) \<noteq> HS_Building"
  by (simp add: interrupted_def)

lemma interrupted_done: "he_status e \<noteq> HS_Building \<Longrightarrow> interrupted e = e"
  by (simp add: interrupted_def)

lemma load_mirror:
  assumes "mirror P h st"
  shows "od_get k (load_manifests st) = map_option interrupted (od_get k (entries st))"
proof -
  let ?ms = "sort_key fst (manifests st)"
  define es where "es = map (\<lambda>x. the (snd x)) ?ms"
  have ok: "od_ok (manifests st)" using assms by (simp add: mirror_def)
  have each: "\<exists>e. snd x = Some e \<and> fst x = mkey h (entry_key e) \<and> od_get (entry_key e) (entries st) = Some e"
    if "x \<in> set ?ms" for x
  proof -
    have "od_get (fst x) (manifests st) = Some (snd x)" using that ok by (simp add: od_get_Some_iff)
    then show ?thesis using mirror_manifest [OF assms] by blast
  qed
  then have ms: "map snd ?ms = map Some es" unfolding es_def map_map
    by (intro map_cong) (auto, metis option.sel)
  have "fst x = mkey h (entry_key (the (snd x)))" if "x \<in> set ?ms" for x
    using each [OF that] by auto
  then have "map fst ?ms = map (mkey h) (map entry_key es)" unfolding es_def map_map
    by (intro map_cong) simp_all
  moreover have "distinct (map fst ?ms)"
    using ok by (simp add: od_ok_def od_keys_def distinct_map)
  ultimately have dist: "distinct (map entry_key es)" using distinct_map [of "mkey h" "map entry_key es"] by metis
  have load: "od_get k (load_manifests st) = (case find (\<lambda>e. entry_key e = k) es of Some e \<Rightarrow> Some (interrupted e) | None \<Rightarrow> None)"
    unfolding load_manifests_def ms load_from_get [OF dist] by (simp add: od_get_Nil split: option.split)
  show ?thesis
  proof (cases "od_get k (entries st)")
    case None
    have "entry_key e \<noteq> k" if "e \<in> set es" for e
    proof -
      have "e \<in> (\<lambda>x. the (snd x)) ` set ?ms" using that by (simp only: es_def set_map)
      then obtain x where "e = the (snd x)" "x \<in> set ?ms" by (rule imageE)
      then show ?thesis using each [of x] None by auto
    qed
    then have "find (\<lambda>e. entry_key e = k) es = None" by (simp add: find_None_iff)
    then show ?thesis using None load by simp
  next
    case (Some e)
    then have key: "entry_key e = k" "od_get (mkey h k) (manifests st) = Some (Some e)"
      using mirror_entry [OF assms Some] by auto
    then have "(mkey h k, Some e) \<in> set ?ms" using od_get_mem by force
    then have "e \<in> set es" unfolding es_def by force
    then show ?thesis using find_unique [OF dist] Some key(1) load by auto
  qed
qed

section \<open>A project\<close>

text \<open>One project with a ROOT of its own and one theory, whose build has been started for the group \<open>g\<close>.\<close>

definition demo_heap_env :: heap_env where
  "demo_heap_env = \<lparr>hash = (\<lambda>s. s), repr = (\<lambda>s. s), state_dir = ''/heaps'', dir_exists = (\<lambda>p. p = ''/p''),
     user_root = (\<lambda>p. Some ''session S = HOL +''),
     thy_sources = (\<lambda>p. Inr [(''A.thy'', ''theory A'', 1)]), build_timeout = 600, build_timeout_text = ''600''\<rparr>"

definition demo_building :: heap_state where
  "demo_building = snd (start_build demo_heap_env ''g'' ''/p'' (Some ''S'') None
     (snd (lock_build ''g'' ''/p'' \<lparr>entries = [], manifests = [], scratch_roots = [], locked = []\<rparr>)))"

definition demo_heap_entry :: heap_entry where
  "demo_heap_entry = new_entry demo_heap_env ''g'' ''/p'' None (path_str ''/p'', ''S'', ''session S = HOL +'')
     [\<lparr>tf_path = path_str ''/p'' @ ''/'' @ ''A.thy'', tf_sha256 = ''theory A'', tf_mtime = 1\<rparr>]"

definition demo_ready :: heap_state where
  "demo_ready = snd (end_build demo_heap_env 100 (Inr (20, 0, ''Finished S'')) demo_heap_entry demo_building)"

lemma demo_building_eq: "od_get (''g'', ''/p'') (entries demo_building) = Some demo_heap_entry"
  by (simp add: demo_building_def demo_heap_entry_def demo_heap_env_def lock_build_def start_build_def Let_def
      wanted_session_def root_and_session_def truthy_def or_else_def scan_sources_def theory_files_def onOk_def)

lemma demo_heap_entry_status: "he_status demo_heap_entry = HS_Building" "he_group demo_heap_entry = ''g''" "he_project demo_heap_entry = ''/p''"
  by (simp_all add: demo_heap_entry_def new_entry_def)

lemma demo_locked: "(''g'', ''/p'') \<in> set (locked (snd (lock_build ''g'' ''/p'' \<lparr>entries = [], manifests = [], scratch_roots = [], locked = []\<rparr>)))"
  by (simp add: lock_build_def)

lemma demo_building_reach: "heap_reach {''/p''} (\<lambda>s. s) demo_building"
  unfolding demo_building_def
  by (rule h_next [OF h_next [OF h_empty h_lock]], simp, rule h_start)
    (simp_all add: demo_locked, simp add: demo_heap_env_def)

lemma demo_ready_reach: "heap_reach {''/p''} (\<lambda>s. s) demo_ready"
  unfolding demo_ready_def
  by (rule h_next [OF demo_building_reach], rule h_end [OF _ demo_building_eq])
    (simp_all add: demo_heap_entry_status, simp add: demo_heap_env_def)

section \<open>Properties\<close>



text \<open>Property C20: the gate for sessions on a heap. A request gets an entry exactly when its own group has the heap it
  names (by project, else by a session name that is unique in the group), the heap is ready, and the
  sources still have the fingerprint it was built from; the entry belongs to the group and nothing
  changes. Otherwise: 403 when only another group has it, 404 when nobody has it, and 422 when it is
  building, failed or stale; a ready heap whose sources changed is marked stale, in the registry and on
  disk, so that later requests are refused without looking at the sources.\<close>

theorem heap_gate:
  assumes "heap_reach P (hash env) st" and "inj_on (\<lambda>p. take 16 (hash env p)) P"
    and "resolve_for_session env g name project st = (r, st')"
  shows "case candidate g name project st of
      None \<Rightarrow> st' = st \<and> (\<exists>x. r = Inl x \<and> heap_status_code (class_of x) = (if exists_elsewhere g name project st then 403 else 404))
    | Some e \<Rightarrow> he_group e = g \<and>
        (if he_status e \<noteq> HS_Ready then st' = st \<and> (\<exists>x. r = Inl x \<and> heap_status_code (class_of x) = 422)
         else case current_print env e of
           Inl x \<Rightarrow> r = Inl x \<and> st' = st
         | Inr p \<Rightarrow> if p = he_fingerprint e then r = Inr e \<and> st' = st
             else (\<exists>x. r = Inl x \<and> heap_status_code (class_of x) = 422)
               \<and> od_get (g, he_project e) (entries st') = Some (e\<lparr>he_status := HS_Stale\<rparr>)
               \<and> od_get (manifest_key env g (he_project e)) (manifests st') = Some (Some (e\<lparr>he_status := HS_Stale\<rparr>)))"
proof (cases "candidate g name project st")
  case None
  then show ?thesis using assms(3) by (auto simp: resolve_for_session_def no_entry_def)
next
  case (Some e)
  have m: "mirror P (hash env) st" using assms(1,2) by (rule heap_reach_mirror)
  then obtain k where "od_get k (entries st) = Some e" "fst k = g"
    using candidate_entry [OF Some] by (auto simp: mirror_def)
  then have "entry_key e = k" using mirror_entry [OF m] by blast
  then have g: "he_group e = g" using \<open>fst k = g\<close> by (auto simp: entry_key_def)
  show ?thesis
  proof (cases "he_status e = HS_Ready")
    case False
    then show ?thesis using assms(3) Some g
      by (cases "he_status e") (auto simp: resolve_for_session_def stale_error_def)
  next
    case True
    show ?thesis
    proof (cases "current_print env e")
      case (Inl x)
      then show ?thesis using assms(3) Some True g by (simp add: resolve_for_session_def check_stale_eq)
    next
      case (Inr p)
      show ?thesis
      proof (cases "p = he_fingerprint e")
        case True
        then show ?thesis using assms(3) Some Inr \<open>he_status e = HS_Ready\<close> g
          by (simp add: resolve_for_session_def check_stale_eq)
      next
        case False
        then have "r = Inl (stale_error env g e)" "st' = marked_stale env e st"
          using assms(3) Some Inr \<open>he_status e = HS_Ready\<close>
          by (simp_all add: resolve_for_session_def check_stale_eq)
        then show ?thesis using Some Inr \<open>he_status e = HS_Ready\<close> g False
          by (simp add: stale_error_def marked_stale_def Let_def manifest_key_mkey entry_key_def)
      qed
    qed
  qed
qed

theorem heap_gate_witness:
  "resolve_for_session demo_heap_env ''g'' None (Some ''/p'') demo_ready
     = (Inr (finished demo_heap_env 100 (Inr (20, 0, ''Finished S'')) demo_heap_entry), demo_ready)"
proof -
  let ?e = "finished demo_heap_env 100 (Inr (20, 0, ''Finished S'')) demo_heap_entry"
  obtain r st' where r: "resolve_for_session demo_heap_env ''g'' None (Some ''/p'') demo_ready = (r, st')" by fastforce
  have c: "candidate ''g'' None (Some ''/p'') demo_ready = Some ?e"
    using demo_building_eq by (simp add: candidate_def get_heap_def demo_ready_def end_build_def Let_def demo_heap_entry_status)
  have ready: "he_status ?e = HS_Ready" by (simp add: finished_def build_outcome_def demo_heap_env_def)
  have "current_print demo_heap_env ?e = Inr (he_fingerprint ?e)"
    by (simp add: current_print_def scan_sources_def theory_files_def onOk_def finished_def build_outcome_def
        demo_heap_entry_def new_entry_def demo_heap_env_def fingerprint_def)
  moreover have "heap_reach {''/p''} (hash demo_heap_env) demo_ready" using demo_ready_reach by (simp add: demo_heap_env_def)
  ultimately show ?thesis using heap_gate [OF _ _ r, of "{''/p''}"] c ready r by simp
qed

text \<open>Deleting a heap while it is being built brings it back: the end of the build writes the manifest of the
  deleted entry, and the next restart reads it.\<close>

theorem deleted_heap_returns:
  assumes "he_group e = g" and "he_project e = project" and "od_get (g, project) (entries st) = Some e"
    and "st1 = snd (delete_heap env g project st)" and "st2 = snd (end_build env now run e st1)"
  shows "od_get (g, project) (entries st2) = None \<and> od_get (g, project) (entries (restart st2)) \<noteq> None"
proof -
  have gone: "od_get (g, project) (entries st1) = None" using assms(3,4) by (simp add: delete_heap_def)
  then have "od_get (g, project) (entries st2) = None" using assms(1,2,5) by (simp add: end_build_def Let_def)
  moreover have "od_get (mkey (hash env) (g, project)) (manifests st2) = Some (Some (finished env now run e))"
    using assms(1,2,5) gone by (simp add: end_build_def Let_def entry_key_def [of "finished _ _ _ e"] entry_key_def [of e])
  then have "Some (finished env now run e) \<in> set (map snd (sort_key fst (manifests st2)))"
    using od_get_mem by force
  moreover have "entry_key (finished env now run e) = (g, project)" using assms(1,2) by (simp add: entry_key_def [of e])
  moreover have "Some x \<in> set ms \<Longrightarrow> od_get (entry_key x) (load_from ms d) \<noteq> None" for x ms d
  proof (induction ms arbitrary: d)
    case (Cons y ms)
    have keep: "od_get k d \<noteq> None \<Longrightarrow> od_get k (load_from zs d) \<noteq> None" for k zs d
    proof (induction zs arbitrary: d)
      case (Cons z zs)
      then show ?case by (cases z) auto
    qed simp
    show ?case
    proof (cases "y = Some x")
      case True
      then show ?thesis using keep [of "entry_key x" "od_set (entry_key x) (interrupted x) d" ms]
        by (simp add: entry_key_def)
    next
      case False
      then show ?thesis using Cons by (cases y) auto
    qed
  qed simp
  ultimately have "od_get (g, project) (load_manifests st2) \<noteq> None"
    unfolding load_manifests_def by metis
  then show ?thesis using \<open>od_get (g, project) (entries st2) = None\<close> by (simp add: restart_def)
qed

end
