(* ===== verification/Big_Step.thy ===== *)
theory Big_Step
  imports Session_Ops
begin

text \<open>
  Whole-theory verification inside a session (\<open>server/app/services/session_bigstep.py\<close>). The text is
  split into header, body and final \<open>end\<close>, which are stepped in order after a checkpoint; the first
  failure restores the checkpoint and re-enters the previous theory.

  The locals of the \<open>try\<close> block that its \<open>except\<close> clause reads, the checkpoint and the outputs so
  far, are arguments: \<open>attempt m h k\<close> runs \<open>m\<close> and goes to the handler \<open>h\<close>, with their values at that
  point, or on to \<open>k\<close>.
\<close>

section \<open>Splitting a theory text\<close>

definition BIGSTEP_HEADER_RE :: re where
  "BIGSTEP_HEADER_RE = seqs [word ''theory'', Lazy any_char, word ''begin'']"

definition BIGSTEP_END_RE :: re where
  "BIGSTEP_END_RE = seqs [WordBoundary, lit ''end'', Star (Chr is_space), TextEnd]"

definition split_error :: "pystr \<Rightarrow> exn" where
  "split_error msg = Exn C_ValueError msg"

definition split_complete_theory :: "pystr \<Rightarrow> exn + (pystr \<times> pystr \<times> pystr)" where
  "split_complete_theory theory_text =
     (let txt = strip theory_text in
      if txt = [] then Inl (split_error ''Theory text is empty.'')
      else case search BIGSTEP_HEADER_RE txt of
        None \<Rightarrow> Inl (split_error (''Big-step verification requires a complete theory file containing ''
                 @ ''a theory header with imports and a '' @ [CHR 0x27] @ ''begin'' @ [CHR 0x27] @ '' keyword.''))
      | Some (_, he, _) \<Rightarrow>
      (case search BIGSTEP_END_RE txt of
        None \<Rightarrow> Inl (split_error (''Big-step verification requires a complete theory file ending with a final ''
                 @ [CHR 0x27] @ ''end'' @ [CHR 0x27] @ ''.''))
      | Some (es, ee, _) \<Rightarrow>
        if length (snd he) < length (snd es)
        then Inl (split_error (''Theory body is malformed: final '' @ [CHR 0x27] @ ''end'' @ [CHR 0x27]
                    @ '' appears before the end of the header.''))
        else Inr (strip (between (start_of txt) he) @ [NL], strip (between he es), strip (between es ee))))"

section \<open>Failure and restoring\<close>

record big_step_result =
  bs_success :: bool
  bs_output :: "pystr option"
  bs_error :: "pystr option"
  bs_execution_time :: real
  bs_subgoals :: "pystr list"
  bs_mode :: pystr
  bs_theory_verified :: bool

definition joined_output :: "pystr list \<Rightarrow> pystr option" where
  "joined_output parts = none_if_empty (strip (join [NL] (filter (\<lambda>p. p \<noteq> []) parts)))"

definition make_big_step_failure :: "pystr \<Rightarrow> repl_result option \<Rightarrow> pystr option \<Rightarrow> real \<Rightarrow> pystr list
    \<Rightarrow> big_step_result" where
  "make_big_step_failure stage result fallback_error execution_time output_parts =
     (let message = (if result \<noteq> None \<and> fallback_error = None then Some (get_error_message result)
                     else fallback_error);
          message = (if \<not> truthy message then ''Big-step verification failed during '' @ stage @ ''.''
                     else ''Big-step verification failed during '' @ stage @ '': '' @ or_else message [])
      in \<lparr>bs_success = False, bs_output = joined_output output_parts, bs_error = Some message,
          bs_execution_time = execution_time, bs_subgoals = [], bs_mode = ''strict_full'',
          bs_theory_verified = False\<rparr>)"

definition restore_big_step_state :: "'b raw_api \<Rightarrow> int option \<Rightarrow> pystr \<Rightarrow> real
    \<Rightarrow> ('b, pystr option) session_op" where
  "restore_big_step_state api checkpoint_id previous_theory timeout =
     andThen
       (case checkpoint_id of None \<Rightarrow> ret []
        | Some cid \<Rightarrow>
            catch (andThen (restore_state api cid (Some timeout))
                     (\<lambda>restored. ret (if restored then [] else [''restore_state returned false''])))
              (\<lambda>e. ret [''restore_state error: '' @ str_of e])) (\<lambda>errs1.
     andThen (fetch entered_thy) (\<lambda>entered.
     andThen
       (if previous_theory \<noteq> [] \<and> previous_theory \<noteq> entered then
          catch (andThen (enter_thy api previous_theory (Some timeout) None) (\<lambda>_. ret []))
            (\<lambda>e. ret [''failed to re-enter previous theory '' @ [CHR 0x27] @ previous_theory @ [CHR 0x27]
                        @ '': '' @ str_of e])
        else ret []) (\<lambda>errs2.
     ret (if errs1 @ errs2 = [] then None else Some (join ''; '' (errs1 @ errs2))))))"

definition with_note :: "pystr option \<Rightarrow> big_step_result \<Rightarrow> big_step_result" where
  "with_note note failure =
     (if truthy note
      then failure\<lparr>bs_error := Some (show_opt (bs_error failure) @ '' Restore note: '' @ or_else note [])\<rparr>
      else failure)"

text \<open>Restore, then the failure of the stage with the note of the restore.\<close>

definition fail_stage :: "'b raw_api \<Rightarrow> int option \<Rightarrow> pystr \<Rightarrow> real \<Rightarrow> real \<Rightarrow> pystr \<Rightarrow> repl_result option
    \<Rightarrow> pystr option \<Rightarrow> pystr list \<Rightarrow> ('b, big_step_result) session_op" where
  "fail_stage api cid previous_theory timeout start stage result fallback parts =
     andThen (restore_big_step_state api cid previous_theory timeout) (\<lambda>note.
     andThen (elapsed api start) (\<lambda>t.
     ret (with_note note (make_big_step_failure stage result fallback t parts))))"

definition attempt :: "('s, 'a) py \<Rightarrow> (exn \<Rightarrow> ('s, 'c) py) \<Rightarrow> ('a \<Rightarrow> ('s, 'c) py) \<Rightarrow> ('s, 'c) py" where
  "attempt m h k s = (case m s of (Inl e, s') \<Rightarrow> h e s' | (Inr v, s') \<Rightarrow> k v s')"

section \<open>big_step\<close>

text \<open>The \<open>except\<close> clause.\<close>

definition crash :: "'b raw_api \<Rightarrow> pystr \<Rightarrow> real \<Rightarrow> real \<Rightarrow> int option \<Rightarrow> pystr list \<Rightarrow> exn
    \<Rightarrow> ('b, big_step_result) session_op" where
  "crash api previous_theory timeout start cid parts e =
     fail_stage api cid previous_theory timeout start ''big-step execution'' None (Some (str_of e)) parts"

definition big_step_done :: "'b raw_api \<Rightarrow> pystr \<Rightarrow> real \<Rightarrow> pystr list \<Rightarrow> ('b, big_step_result) session_op" where
  "big_step_done api theory_name start parts =
     andThen (elapsed api start) (\<lambda>t.
     andThen (change (\<lambda>s. s\<lparr>command_history := command_history s @
        [\<lparr>h_type = None, h_command = ''[BIGSTEP] '' @ theory_name, h_timestamp = start, h_success = True,
          h_subgoal_error = None, h_subgoals_count = 0\<rparr>],
        verified_theories := verified_theories s @ [theory_name]\<rparr>)) (\<lambda>_.
     ret \<lparr>bs_success = True, bs_output = joined_output parts, bs_error = None, bs_execution_time = t,
           bs_subgoals = [], bs_mode = ''strict_full'', bs_theory_verified = False\<rparr>))"

text \<open>The steps of the theory, each with the name its failure is reported under.\<close>

definition stages :: "pystr \<times> pystr \<times> pystr \<Rightarrow> (pystr \<times> pystr) list" where
  "stages parts = (case parts of (header_text, body_text, end_text) \<Rightarrow>
     [(''theory header/import processing'', header_text)]
     @ (if strip body_text \<noteq> [] then [(''theory body processing'', strip body_text @ [NL])] else [])
     @ [(''final end verification'', end_text)])"

fun run_stages :: "'b raw_api \<Rightarrow> pystr \<Rightarrow> pystr \<Rightarrow> real \<Rightarrow> real \<Rightarrow> int \<Rightarrow> pystr list
    \<Rightarrow> (pystr \<times> pystr) list \<Rightarrow> ('b, big_step_result) session_op" where
  "run_stages api theory_name previous timeout start cid parts [] =
     big_step_done api theory_name start parts"
| "run_stages api theory_name previous timeout start cid parts ((stage, txt) # rest) =
     attempt (step api txt (Some timeout)) (crash api previous timeout start (Some cid) parts) (\<lambda>result.
     attempt (from_result (result_output result)) (crash api previous timeout start (Some cid) parts) (\<lambda>out.
     if \<not> is_syntax_successful result
     then fail_stage api (Some cid) previous timeout start stage result None (parts @ [out])
     else run_stages api theory_name previous timeout start cid (parts @ [out]) rest))"

definition invalid :: "'b raw_api \<Rightarrow> real \<Rightarrow> pystr \<Rightarrow> pystr \<Rightarrow> ('b, big_step_result) session_op" where
  "invalid api start stage msg =
     andThen (elapsed api start) (\<lambda>t. ret (make_big_step_failure stage None (Some msg) t []))"

definition verify_theory :: "'b raw_api \<Rightarrow> pystr \<Rightarrow> pystr \<Rightarrow> real \<Rightarrow> real \<Rightarrow> pystr
    \<Rightarrow> ('b, big_step_result) session_op" where
  "verify_theory api theory_name proof_text timeout start previous =
     (case split_complete_theory proof_text of
        Inl e \<Rightarrow> crash api previous timeout start None [] e
      | Inr parts \<Rightarrow>
          attempt (save_state api (Some timeout)) (crash api previous timeout start None []) (\<lambda>cid.
          attempt (enter_thy api theory_name (Some timeout) None)
            (crash api previous timeout start (Some cid) []) (\<lambda>_.
          run_stages api theory_name previous timeout start cid [] (stages parts))))"

definition big_step :: "'b raw_api \<Rightarrow> pystr \<Rightarrow> pystr \<Rightarrow> real \<Rightarrow> ('b, big_step_result) session_op" where
  "big_step api theory_name proof_text timeout =
     with_request api (\<lambda>start.
       andThen (catch (current_thy api) (\<lambda>_. ret [])) (\<lambda>previous.
       case extract_theory_name proof_text of
         None \<Rightarrow> invalid api start ''theory-header validation''
                   (''Theory text must start with a valid '' @ [CHR 0x27] @ ''theory <Name>'' @ [CHR 0x27]
                    @ '' declaration.'')
       | Some declared_name \<Rightarrow>
           if declared_name \<noteq> theory_name
           then invalid api start ''theory-name validation''
                  (''Declared theory name '' @ [CHR 0x27] @ declared_name @ [CHR 0x27]
                   @ '' does not match request theory_name '' @ [CHR 0x27] @ theory_name @ [CHR 0x27] @ ''.'')
           else verify_theory api theory_name proof_text timeout start previous))"

section \<open>What a big step leaves\<close>

definition ledger :: "'b session \<Rightarrow> history_entry list \<times> pystr list \<times> (int \<Rightarrow> real option) \<times> chunk_report option"
where
  "ledger s = (command_history s, verified_theories s, checkpoints s, last_chunk_report s)"

lemma ledger_frame [simp]:
  "ledger (s\<lparr>raw := b\<rparr>) = ledger s" "ledger (s\<lparr>ticks := n\<rparr>) = ledger s"
  "ledger (s\<lparr>entered_thy := nm\<rparr>) = ledger s" "ledger (busy_start api s) = ledger s"
  "ledger (release_request s) = ledger s"
  by (simp_all add: ledger_def)

lemma keeps_attempt [frame]:
  assumes "keeps f m" and "\<And>e. keeps f (h e)" and "\<And>v. keeps f (k v)"
  shows "keeps f (attempt m h k)"
  unfolding keeps_def
proof
  fix s
  show "f (snd (attempt m h k s)) = f s"
    using assms(2,3) keepsD [OF assms(1), of s]
    by (auto simp: attempt_def keeps_def split: prod.split sum.split)
qed

lemma keeps_restore [frame]:
  assumes "\<And>s b. f (s\<lparr>raw := b\<rparr>) = f s" and "\<And>s n. f (s\<lparr>entered_thy := n\<rparr>) = f s"
  shows "keeps f (restore_big_step_state api cid prev t)"
  unfolding restore_big_step_state_def by (intro frame assms)

lemma keeps_fail [frame]:
  assumes "\<And>s b. f (s\<lparr>raw := b\<rparr>) = f s" and "\<And>s n. f (s\<lparr>entered_thy := n\<rparr>) = f s"
    and "\<And>s n. f (s\<lparr>ticks := n\<rparr>) = f s"
  shows "keeps f (fail_stage api cid prev t start stg r fb parts)"
    "keeps f (crash api prev t start cid parts e)" "keeps f (invalid api start stg msg)"
  unfolding crash_def fail_stage_def invalid_def by (intro frame assms)+

lemma calm [inv_intro]:
  "only_raises (\<lambda>_. False) (fetch g)" "only_raises (\<lambda>_. False) (elapsed api t)"
  by (simp_all add: only_raises_def elapsed_def andThen_def time_time_def)

lemma restore_never_raises [inv_intro]:
  "only_raises (\<lambda>_. False) (restore_big_step_state api cid prev t)"
  unfolding restore_big_step_state_def by (intro inv_intro)

lemma fail_never_raises [inv_intro]:
  "only_raises (\<lambda>_. False) (fail_stage api cid prev t start stg r fb parts)"
  "only_raises (\<lambda>_. False) (crash api prev t start cid parts e)"
  "only_raises (\<lambda>_. False) (invalid api start stg msg)"
  unfolding crash_def fail_stage_def invalid_def by (intro inv_intro)+

lemma failure_error: "\<not> bs_success (make_big_step_failure stg r fb t parts)
    \<and> bs_error (make_big_step_failure stg r fb t parts) \<noteq> None"
  by (simp add: make_big_step_failure_def Let_def)

text \<open>A total operation whose result is a failure with the records as they were, or a success that
  has added the theory to them.\<close>

definition settled :: "pystr \<Rightarrow> 'b session \<Rightarrow> big_step_result \<Rightarrow> 'b session \<Rightarrow> bool" where
  "settled nm s v s' \<longleftrightarrow> (bs_error v = None \<longleftrightarrow> bs_success v)
     \<and> checkpoints s' = checkpoints s \<and> last_chunk_report s' = last_chunk_report s
     \<and> (if bs_success v
        then verified_theories s' = verified_theories s @ [nm]
          \<and> (\<exists>start. command_history s' = command_history s @
               [\<lparr>h_type = None, h_command = ''[BIGSTEP] '' @ nm, h_timestamp = start, h_success = True,
                 h_subgoal_error = None, h_subgoals_count = 0\<rparr>])
        else verified_theories s' = verified_theories s \<and> command_history s' = command_history s)"

definition settles :: "pystr \<Rightarrow> ('b, big_step_result) session_op \<Rightarrow> bool" where
  "settles nm m \<longleftrightarrow> (\<forall>s. \<exists>v s'. m s = (Inr v, s') \<and> settled nm s v s')"

lemma settled_ledger: "ledger s1 = ledger s \<Longrightarrow> settled nm s1 v s' = settled nm s v s'"
  by (simp add: settled_def ledger_def)

lemma settled_ledger': "ledger s1 = ledger s' \<Longrightarrow> settled nm s v s1 = settled nm s v s'"
  by (simp add: settled_def ledger_def)

lemma settled_same:
  "\<lbrakk>ledger s' = ledger s; \<not> bs_success v; bs_error v \<noteq> None\<rbrakk> \<Longrightarrow> settled nm s v s'"
  by (simp add: settled_def ledger_def)

lemma settles_failure:
  assumes "keeps ledger m" and "only_raises (\<lambda>_. False) m"
    and "yields (\<lambda>_. True) m (\<lambda>v _. \<not> bs_success v \<and> bs_error v \<noteq> None)"
  shows "settles nm m"
  unfolding settles_def
proof
  fix s
  obtain r s' where r: "m s = (r, s')" by force
  moreover obtain v where v: "r = Inr v" using assms(2) r by (cases r) (auto simp: only_raises_def)
  moreover have "settled nm s v s'"
    using keepsD [OF assms(1) r] yieldsD [OF assms(3) TrueI r [unfolded v]] by (intro settled_same) auto
  ultimately show "\<exists>v s'. m s = (Inr v, s') \<and> settled nm s v s'" by blast
qed

lemma with_note_failure:
  "\<lbrakk>\<not> bs_success f; bs_error f \<noteq> None\<rbrakk>
    \<Longrightarrow> \<not> bs_success (with_note note f) \<and> bs_error (with_note note f) \<noteq> None"
  by (simp add: with_note_def)

lemma fail_yields:
  "yields (\<lambda>_. True) (fail_stage api cid prev t start stg r fb parts)
     (\<lambda>v _. \<not> bs_success v \<and> bs_error v \<noteq> None)"
  unfolding fail_stage_def
  by (intro yields_andThen [where R = "\<lambda>_ _. True"] yields_ret with_note_failure)
    (simp_all add: yields_def failure_error)

lemma settles_fail: "settles nm (fail_stage api cid prev t start stg r fb parts)"
  by (rule settles_failure) (intro frame fail_never_raises fail_yields; simp)+

lemma settles_crash: "settles nm (crash api prev t start cid parts e)"
  unfolding crash_def by (rule settles_fail)

lemma settles_invalid: "settles nm (invalid api start stg msg)"
proof (rule settles_failure)
  show "yields (\<lambda>_. True) (invalid api start stg msg) (\<lambda>v _. \<not> bs_success v \<and> bs_error v \<noteq> None)"
    unfolding invalid_def
    by (intro yields_andThen [where R = "\<lambda>_ _. True"] yields_ret)
      (simp_all add: yields_def failure_error)
qed (intro frame fail_never_raises; simp)+

lemma settles_attempt:
  assumes "keeps ledger m" and "\<And>e. settles nm (h e)" and "\<And>v. settles nm (k v)"
  shows "settles nm (attempt m h k)"
  unfolding settles_def
proof
  fix s
  obtain r s1 where 1: "m s = (r, s1)" by force
  obtain n where n: "settles nm n" "attempt m h k s = n s1"
    using 1 assms(2,3) by (cases r) (auto simp: attempt_def)
  then obtain v s' where "n s1 = (Inr v, s')" "settled nm s1 v s'"
    unfolding settles_def by blast
  then show "\<exists>v s'. attempt m h k s = (Inr v, s') \<and> settled nm s v s'"
    using n(2) settled_ledger [OF keepsD [OF assms(1) 1]] by auto
qed

lemma settles_done: "settles nm (big_step_done api nm start parts)"
  by (auto simp: settles_def settled_def big_step_done_def andThen_def elapsed_def time_time_def)

lemma settles_stages: "settles nm (run_stages api nm prev t start cid parts sts)"
proof (induction sts arbitrary: parts)
  case (Cons st sts)
  obtain stg "txt" where "st = (stg, txt)" by force
  then show ?case
    using Cons by (auto intro!: settles_attempt frame settles_crash settles_fail)
qed (simp add: settles_done)

lemma settles_verify: "settles nm (verify_theory api nm txt t start prev)"
  unfolding verify_theory_def
  by (auto intro!: settles_attempt frame settles_crash settles_stages split: sum.split)

lemma settles_with_request:
  fixes api :: "'b raw_api"
  assumes "\<And>start. settles nm (body start)"
  shows "settles nm (with_request api body)"
  unfolding settles_def
proof
  fix s :: "'b session"
  let ?start = "clock api (Suc (ticks s))"
  obtain v s1 where "body ?start (busy_start api s) = (Inr v, s1)" "settled nm (busy_start api s) v s1"
    using assms unfolding settles_def by blast
  then show "\<exists>v s'. with_request api body s = (Inr v, s') \<and> settled nm s v s'"
    using settled_ledger [of "busy_start api s" s] settled_ledger' [of "release_request s1" s1]
    by (simp add: with_request_eq)
qed

lemma settles_big_step: "settles nm (big_step api nm txt t)"
  unfolding big_step_def
proof (rule settles_with_request)
  fix start
  let ?k = "\<lambda>previous. case extract_theory_name txt of
      None \<Rightarrow> invalid api start ''theory-header validation''
                (''Theory text must start with a valid '' @ [CHR 0x27] @ ''theory <Name>'' @ [CHR 0x27]
                 @ '' declaration.'')
    | Some declared_name \<Rightarrow>
        if declared_name \<noteq> nm
        then invalid api start ''theory-name validation''
               (''Declared theory name '' @ [CHR 0x27] @ declared_name @ [CHR 0x27]
                @ '' does not match request theory_name '' @ [CHR 0x27] @ nm @ [CHR 0x27] @ ''.'')
        else verify_theory api nm txt t start previous"
  have "andThen (catch (current_thy api) (\<lambda>_. ret [])) ?k = attempt (current_thy api) (\<lambda>_. ?k []) ?k"
    by (auto simp: fun_eq_iff andThen_def catch_def attempt_def split: prod.split sum.split)
  then show "settles nm (andThen (catch (current_thy api) (\<lambda>_. ret [])) ?k)"
    by (simp, intro settles_attempt frame)
      (auto intro!: settles_invalid settles_verify split: option.split)
qed

lemma balanced_big_step: "keeps active_requests (big_step api nm txt t)"
proof -
  have finish: "keeps active_requests (big_step_done api nm start parts)" for start parts
    unfolding big_step_done_def by (intro frame; simp)
  have stages: "keeps active_requests (run_stages api nm prev t start cid parts sts)"
    for prev start cid parts sts
  proof (induction sts arbitrary: parts)
    case (Cons st sts)
    obtain stg "txt" where "st = (stg, txt)" by force
    then show ?case using Cons by (auto intro!: frame)
  qed (simp add: finish)
  have verify: "keeps active_requests (verify_theory api nm txt t start prev)" for start prev
    unfolding verify_theory_def by (auto intro!: frame stages split: sum.split)
  show ?thesis
    unfolding big_step_def
    by (auto intro!: frame verify split: option.split)
qed

text \<open>A result that can only be a failure.\<close>

lemma fail_is_failure:
  "fail_stage api cid prev t start stg r fb parts s = (Inr v, s') \<Longrightarrow> \<not> bs_success v"
  using fail_yields by (fastforce simp: yields_def)

lemma big_step_success_valid:
  assumes "big_step api nm txt t s = (Inr v, s')" and "bs_success v"
  shows "extract_theory_name txt = Some nm \<and> (\<exists>parts. split_complete_theory txt = Inr parts)"
proof -
  define start where "start = clock api (Suc (ticks s))"
  obtain r1 s1 where 1: "catch (current_thy api) (\<lambda>_. ret []) (busy_start api s) = (r1, s1)" by force
  then obtain prev where "r1 = Inr prev" by (cases r1) (auto simp: catch_def split: prod.splits sum.splits)
  note run = assms(1) [unfolded big_step_def with_request_eq start_def [symmetric]]
  show ?thesis
  proof (cases "extract_theory_name txt = Some nm")
    case True
    obtain r2 s2 where 2: "verify_theory api nm txt t start prev s1 = (r2, s2)" by force
    then have "r2 = Inr v" using run 1 True \<open>r1 = Inr prev\<close> by (simp add: andThen_def)
    then show ?thesis using 2 True assms(2)
      by (cases "split_complete_theory txt")
        (auto simp: verify_theory_def crash_def dest: fail_is_failure)
  next
    case False
    then show ?thesis
      using run 1 \<open>r1 = Inr prev\<close> assms(2) failure_error
      by (auto simp: andThen_def invalid_def elapsed_def time_time_def split: option.splits if_splits)
  qed
qed

section \<open>Failures restore the checkpoint\<close>

definition restored :: "'b raw_api \<Rightarrow> int \<Rightarrow> pystr \<Rightarrow> real \<Rightarrow> 'b session \<Rightarrow> bool" where
  "restored api cid prev t s' \<longleftrightarrow>
     (\<exists>s1. raw s' = raw (final (restore_big_step_state api (Some cid) prev t) s1))"

lemma fail_restored:
  "fail_stage api (Some cid) prev t start stg r fb parts s = (v, s') \<Longrightarrow> restored api cid prev t s'"
proof -
  assume run: "fail_stage api (Some cid) prev t start stg r fb parts s = (v, s')"
  obtain r1 s1 where 1: "restore_big_step_state api (Some cid) prev t s = (r1, s1)" by force
  then obtain n where "r1 = Inr n"
    using restore_never_raises [of api "Some cid" prev t] by (cases r1) (auto simp: only_raises_def)
  then have "raw s' = raw s1"
    using run 1 by (auto simp: fail_stage_def andThen_def elapsed_def time_time_def)
  then show ?thesis using 1 unfolding restored_def final_def by (metis snd_conv)
qed

lemma done_success: "big_step_done api nm start parts s = (Inr v, s') \<Longrightarrow> bs_success v"
  by (auto simp: big_step_done_def andThen_def elapsed_def time_time_def)

lemma run_stages_restored:
  "\<lbrakk>run_stages api nm prev t start cid parts sts s = (Inr v, s'); \<not> bs_success v\<rbrakk>
    \<Longrightarrow> restored api cid prev t s'"
proof (induction sts arbitrary: parts s)
  case Nil
  then show ?case using done_success by fastforce
next
  case (Cons st sts)
  obtain stg "txt" where "st = (stg, txt)" by force
  then show ?case using Cons
    by (auto simp: attempt_def crash_def split: prod.splits sum.splits if_splits intro: fail_restored)
qed

lemma verify_restored:
  assumes "verify_theory api nm txt t start prev s0 = (Inr v, s')" and "\<not> bs_success v"
    and "split_complete_theory txt = Inr parts"
    and "save_state api (Some t) s0 = (Inr cid, s1)"
  shows "restored api cid prev t s'"
  using assms
  by (auto simp: verify_theory_def attempt_def crash_def split: prod.splits sum.splits
      intro: fail_restored run_stages_restored)

section \<open>Properties\<close>

text \<open>Property C3: a big step always returns a result, never an exception, and leaves the busy counter, the
  checkpoints and the retained report as they were. It is a success exactly when it has no error, only
  for a complete theory text whose declared name is the requested one, and then, and only then, the
  name is recorded as verified and the run enters the history.\<close>

theorem big_step_total:
  "\<exists>v s'. big_step api theory_name proof_text timeout s = (Inr v, s')
     \<and> active_requests s' = active_requests s \<and> checkpoints s' = checkpoints s
     \<and> last_chunk_report s' = last_chunk_report s \<and> (bs_error v = None \<longleftrightarrow> bs_success v)
     \<and> (if bs_success v
        then extract_theory_name proof_text = Some theory_name
          \<and> (\<exists>parts. split_complete_theory proof_text = Inr parts)
          \<and> verified_theories s' = verified_theories s @ [theory_name]
          \<and> (\<exists>start. command_history s' = command_history s @
               [\<lparr>h_type = None, h_command = ''[BIGSTEP] '' @ theory_name, h_timestamp = start,
                 h_success = True, h_subgoal_error = None, h_subgoals_count = 0\<rparr>])
        else verified_theories s' = verified_theories s \<and> command_history s' = command_history s)"
proof -
  obtain v s' where run: "big_step api theory_name proof_text timeout s = (Inr v, s')"
    and st: "settled theory_name s v s'"
    using settles_big_step unfolding settles_def by blast
  have "active_requests s' = active_requests s" using keepsD [OF balanced_big_step run] .
  then show ?thesis using run st big_step_success_valid [OF run] by (auto simp: settled_def)
qed


section \<open>Witness\<close>

text \<open>A prover that rejects every step, and a complete theory text.\<close>

definition rejecting_api :: "nat raw_api" where
  "rejecting_api = demo_api\<lparr>raw_step := (\<lambda>_. quick (Some (plain_result\<lparr>rr_error := Inr (Some ''bad'')\<rparr>)))\<rparr>"

definition small_theory :: pystr where
  "small_theory = ''theory A imports Main begin end''"

lemma small_theory_name: "extract_theory_name small_theory = Some ''A''"
  by code_simp

lemma small_theory_parts:
  "split_complete_theory small_theory = Inr (''theory A imports Main begin'' @ [NL], [], ''end'')"
  by code_simp

lemma rejected_step: "\<not> is_syntax_successful (Some (plain_result\<lparr>rr_error := Inr (Some ''bad'')\<rparr>))"
  by code_simp

lemma header_not_blank: "strip (''theory A imports Main begin'' @ [NL]) \<noteq> []"
  by (simp add: strip_empty_iff is_space_def)

lemmas run_defs = with_request_eq andThen_def catch_def attempt_def call_backend_def submit_and_wait_def
  elapsed_def time_time_def

lemma rejected_run:
  "\<exists>v s'. big_step rejecting_api ''A'' small_theory 300 demo_session = (Inr v, s') \<and> \<not> bs_success v"
proof -
  obtain v s' where run: "big_step rejecting_api ''A'' small_theory 300 demo_session = (Inr v, s')"
    using settles_big_step [of "''A''" rejecting_api small_theory 300] unfolding settles_def by blast
  have "\<not> bs_success v"
    using run header_not_blank rejected_step
    by (simp add: big_step_def run_defs small_theory_name verify_theory_def small_theory_parts
        stages_def current_thy_def save_state_def enter_thy_def step_def result_output_def
        rejecting_api_def demo_defs busy_start_def acquire_request_def touch_def
        is_syntax_successful_def split: prod.splits)
      (auto dest: fail_is_failure)
  with run show ?thesis by blast
qed


end
