(* ===== verification/Unicode_Normaliser.thy ===== *)
theory Unicode_Normaliser
  imports Py_Regex Py_Effects Ordered_Dict
begin

text \<open>
  The symbol normaliser (\<open>server/app/services/unicode_normaliser.py\<close>): the symbol table of the installed
  Isabelle, read from its text file, and the replacement of symbols in a theory text. A document text
  is the list of its code points; the table file is an 8-bit text. The lemmas show that the result is
  canonical.
\<close>

section \<open>The symbol table\<close>

type_synonym codes = "int list"
type_synonym symbol_table = "(int, pystr) od"

definition codes_of :: "pystr \<Rightarrow> codes" where
  "codes_of s = map of_char s"

definition is_surrogate :: "int \<Rightarrow> bool" where
  "is_surrogate c = (0xD800 \<le> c \<and> c \<le> 0xDFFF)"

record host =
  env_isabelle_home :: "pystr option"
  file_text :: "pystr \<Rightarrow> pystr option"

definition isabelle_home :: "host \<Rightarrow> pystr" where
  "isabelle_home h =
     (if truthy (env_isabelle_home h) then or_else (env_isabelle_home h) []
      else case find (\<lambda>p. file_text h (p @ ''/etc/symbols'') \<noteq> None)
                  [''/opt/isabelle'', ''/usr/local/isabelle'', ''/home/isabelle/isabelle''] of
             Some p \<Rightarrow> p | None \<Rightarrow> ''/opt/isabelle'')"

definition is_hex :: "char \<Rightarrow> bool" where
  "is_hex c = (is_digit_ascii c \<or> c \<in> set ''abcdefABCDEF'')"

definition UNICODE_RE :: re where
  "UNICODE_RE =
     seqs [LineStart, Grp 1 (seqs [Chr (\<lambda>c. ord c = 92), Chr (\<lambda>c. c = CHR ''<''),
             Plus (Chr (\<lambda>c. c \<noteq> CHR ''>'')), Chr (\<lambda>c. c = CHR ''>'')]),
           Plus (Chr is_space), lit ''code:'', Plus (Chr is_space),
           Grp 2 (seqs [lit ''0x'', Plus (Chr is_hex)])]"

definition hex_of :: "char \<Rightarrow> int" where
  "hex_of c = (let n = of_char c in
     if is_digit_ascii c then n - 48 else if 97 \<le> n then n - 87 else n - 55)"

text \<open>\<open>int(code_str, 16)\<close> on what group 2 matches; it cannot fail there.\<close>

definition hex_number :: "pystr \<Rightarrow> int" where
  "hex_number s = foldl (\<lambda>n c. 16 * n + hex_of c) 0 (drop 2 s)"

definition add_symbol :: "symbol_table \<Rightarrow> groups \<Rightarrow> exn + symbol_table" where
  "add_symbol table g =
     (case (group 1 g, group 2 g) of
        (Some name, Some code) \<Rightarrow>
          (let codepoint = hex_number code in
           if is_surrogate codepoint then Inr table
           else if 0x10FFFF < codepoint
           then Inl (Exn C_ValueError ''chr() arg not in range(0x110000)'')
           else Inr (od_set codepoint name table))
      | _ \<Rightarrow> Inr table)"

fun add_symbols :: "symbol_table \<Rightarrow> found list \<Rightarrow> exn + symbol_table" where
  "add_symbols table [] = Inr table"
| "add_symbols table ((a, b, g) # ms) = onOk (add_symbol table g) (\<lambda>t. add_symbols t ms)"

definition load_symbol_table :: "host \<Rightarrow> exn + symbol_table" where
  "load_symbol_table h =
     (let path = isabelle_home h @ ''/etc/symbols'' in
      case file_text h path of
        None \<Rightarrow> Inl (Exn C_FileNotFoundError (''Isabelle symbol table not found at '' @ path @
          ''. Set ISABELLE_HOME or ensure the symbols file is installed.''))
      | Some s \<Rightarrow> add_symbols [] (finditer UNICODE_RE s))"

section \<open>Normalising a text\<close>

text \<open>The alternation of the table's characters matches a character exactly when it is a key.\<close>

definition replace_symbol :: "symbol_table \<Rightarrow> int \<Rightarrow> codes" where
  "replace_symbol table c = (case od_get c table of Some name \<Rightarrow> codes_of name | None \<Rightarrow> [c])"

definition normalise_for_isabelle :: "host \<Rightarrow> codes \<Rightarrow> exn + codes" where
  "normalise_for_isabelle h s =
     (if s = [] then Inr s
      else (let t = filter (\<lambda>c. \<not> is_surrogate c) s in
            onOk (load_symbol_table h) (\<lambda>table.
            if table = [] then Inr t else Inr (concat (map (replace_symbol table) t)))))"

text \<open>The fallback table of \<open>build_verify.py\<close> (\<open>_inline_normalise\<close>), one replacement after the other.\<close>

definition FALLBACK :: "(int \<times> pystr) list" where
  "FALLBACK = map (\<lambda>(c, w). (c, [CHR 0x5C] @ ''<'' @ w @ ''>''))
     [(0x2200, ''forall''), (0x2203, ''exists''), (0x2227, ''and''), (0x2228, ''or''), (0xAC, ''not''),
      (0x21D2, ''Rightarrow''), (0x2261, ''equiv''), (0x2260, ''noteq''), (0x2208, ''in''),
      (0x2286, ''subseteq''), (0x222A, ''union''), (0x2229, ''inter''), (0x2264, ''le''), (0x2265, ''ge''),
      (0x3BB, ''lambda'')]"

definition replace_code :: "int \<Rightarrow> pystr \<Rightarrow> codes \<Rightarrow> codes" where
  "replace_code u esc s = concat (map (\<lambda>c. if c = u then codes_of esc else [c]) s)"

definition inline_normalise :: "codes \<Rightarrow> codes" where
  "inline_normalise s =
     filter (\<lambda>c. \<not> is_surrogate c) (foldl (\<lambda>t (u, esc). replace_code u esc t) s FALLBACK)"

section \<open>Canonical texts\<close>

text \<open>What the table of an Isabelle distribution has: keys outside ASCII, names inside.\<close>

definition table_ascii :: "symbol_table \<Rightarrow> bool" where
  "table_ascii table = (\<forall>(k, name) \<in> set table. 128 \<le> k \<and> (\<forall>c \<in> set name. of_char c < (128 :: int)))"

definition canonical :: "symbol_table \<Rightarrow> codes \<Rightarrow> bool" where
  "canonical table s = (\<forall>c \<in> set s. \<not> is_surrogate c \<and> od_get c table = None)"

lemma replace_canonical:
  assumes "table_ascii table" and "\<not> is_surrogate c"
  shows "canonical table (replace_symbol table c)"
proof (cases "od_get c table")
  case None
  then show ?thesis using assms(2) by (simp add: canonical_def replace_symbol_def)
next
  case (Some name)
  have small: "128 \<le> k" if "od_get k table = Some v" for k v
    using od_get_mem [OF that] assms(1) by (auto simp: table_ascii_def)
  have "of_char x < (128 :: int)" if "x \<in> set name" for x
    using od_get_mem [OF Some] assms(1) that by (auto simp: table_ascii_def)
  then have "\<not> is_surrogate (of_char x) \<and> od_get (of_char x) table = None" if "x \<in> set name" for x
    using small that by (cases "od_get (of_char x) table") (fastforce simp: is_surrogate_def)+
  then show ?thesis using Some by (auto simp: canonical_def replace_symbol_def codes_of_def)
qed

lemma canonical_concat: "canonical table (concat xs) \<longleftrightarrow> (\<forall>x \<in> set xs. canonical table x)"
  by (auto simp: canonical_def)

lemma canonical_fixed:
  assumes "canonical table s"
  shows "concat (map (replace_symbol table) (filter (\<lambda>c. \<not> is_surrogate c) s)) = s"
proof -
  have "filter (\<lambda>c. \<not> is_surrogate c) s = s"
    using assms by (simp add: canonical_def filter_id_conv)
  moreover have "concat (map (replace_symbol table) s) = s"
    using assms by (induction s) (simp_all add: canonical_def replace_symbol_def)
  ultimately show ?thesis by simp
qed

lemma normalise_run:
  "load_symbol_table h = Inr table \<Longrightarrow> normalise_for_isabelle h s
     = Inr (concat (map (replace_symbol table) (filter (\<lambda>c. \<not> is_surrogate c) s)))"
proof -
  assume "load_symbol_table h = Inr table"
  moreover have "concat (map (replace_symbol []) t) = t" for t
    by (induction t) (simp_all add: replace_symbol_def)
  ultimately show ?thesis by (simp add: normalise_for_isabelle_def Let_def)
qed

section \<open>Property\<close>

text \<open>Property C18: normalising a theory text is total once the symbol table loads, and its result is canonical: no
  lone surrogate and no symbol of the table is left, normalising again changes nothing, a text that is
  canonical already is returned as it is, and every other character stays in its place (the result is
  the concatenation of what each character becomes).\<close>

theorem normalise_canonical:
  assumes "load_symbol_table h = Inr table" and "table_ascii table"
  shows "\<exists>out. normalise_for_isabelle h s = Inr out \<and> canonical table out
    \<and> normalise_for_isabelle h out = Inr out
    \<and> (canonical table s \<longrightarrow> out = s)
    \<and> out = concat (map (\<lambda>c. if is_surrogate c then [] else case od_get c table of Some w \<Rightarrow> codes_of w | None \<Rightarrow> [c]) s)"
proof -
  let ?out = "concat (map (replace_symbol table) (filter (\<lambda>c. \<not> is_surrogate c) s))"
  have canon: "canonical table ?out"
    using replace_canonical [OF assms(2)] by (auto simp: canonical_concat)
  have "?out = concat (map (\<lambda>c. if is_surrogate c then [] else case od_get c table of Some w \<Rightarrow> codes_of w | None \<Rightarrow> [c]) s)"
    by (induction s) (simp_all add: replace_symbol_def)
  then show ?thesis
    using canon canonical_fixed [OF canon] canonical_fixed [of table s] normalise_run [OF assms(1)]
    by (intro exI [of _ ?out]) simp
qed

text \<open>A host whose table has one line.\<close>

definition demo_host :: host where
  "demo_host = \<lparr>env_isabelle_home = Some ''/i'',
     file_text = (\<lambda>p. if p = ''/i/etc/symbols''
       then Some ([CHR 0x5C] @ ''<not>  code: 0x0000ac  group: logic'' @ [NL]) else None)\<rparr>"

theorem normalise_canonical_witness:
  "\<exists>out. normalise_for_isabelle demo_host [65, 0xAC, 0xD800] = Inr out
     \<and> normalise_for_isabelle demo_host out = Inr out \<and> out = [65, 92, 60, 110, 111, 116, 62]"
proof -
  let ?t = "[(172, [CHR 0x5C] @ ''<not>'')] :: symbol_table"
  have load: "load_symbol_table demo_host = Inr ?t" by code_simp
  have "table_ascii ?t" by code_simp
  from normalise_canonical [OF load this, of "[65, 0xAC, 0xD800]"]
  show ?thesis by (auto simp: is_surrogate_def od_get_def codes_of_def)
qed

end
