(* ===== verification/Build_Verify.thy ===== *)
theory Build_Verify
  imports Big_Step Session_Keys Unicode_Normaliser
begin

text \<open>
  The strict build verifier (\<open>server/app/services/build_verify.py\<close>): its cache keys, one build in a
  temporary directory, and \<open>verify\<close> with its cache, its lock per text and its bound on concurrent builds.

  \<open>isabelle build\<close>, the file system and the clock are the parameter \<open>build_env\<close>; SHA-256 is the
  parameter \<open>sha\<close>. A request is the step relation \<open>bv_step\<close>, one rule for each stretch of \<open>verify\<close>
  between two suspensions, so that requests interleave; \<open>verify\<close> is one request run alone.
\<close>

section \<open>Keys\<close>

definition build_theories :: "pystr option list option \<Rightarrow> pystr list" where
  "build_theories thys =
     (case thys of None \<Rightarrow> []
      | Some ts \<Rightarrow> if ts = [] then []
          else sorted_set (filter (\<lambda>v. v \<noteq> []) (map strip (List.map_filter (\<lambda>t. t) ts))))"

definition build_key :: "(pystr \<Rightarrow> pystr) \<Rightarrow> pystr \<Rightarrow> pystr option list option \<Rightarrow> pystr" where
  "build_key sha fld thys = sha (fld @ ''::'' @ join ''|'' (build_theories thys))"

definition stable_theory_hash :: "(pystr \<Rightarrow> pystr) \<Rightarrow> pystr \<Rightarrow> pystr \<Rightarrow> pystr \<Rightarrow> pystr" where
  "stable_theory_hash sha fld key theory_text = sha (fld @ ''::'' @ key @ ''::'' @ theory_text)"

definition MLVAL_RE :: re where
  "MLVAL_RE = seqs [LineStart, lit ''ML_val'', WordBoundary, Star (Chr (\<lambda>c. c \<noteq> NL)), Alt (Chr (\<lambda>c. c = NL)) Eps]"

definition strip_mlval :: "pystr \<Rightarrow> pystr" where
  "strip_mlval s = sub_re MLVAL_RE (\<lambda>_. []) s"

definition extract_imports :: "pystr \<Rightarrow> pystr list" where
  "extract_imports s = (let is = sorted_set (snd (parse_theory_header s)) in if is = [] then [''Main''] else is)"

definition root_text :: "pystr \<Rightarrow> pystr \<Rightarrow> pystr \<Rightarrow> pystr" where
  "root_text session_name parent_session theory_name =
     ''session '' @ [DQ] @ session_name @ [DQ] @ '' = '' @ [DQ] @ parent_session @ [DQ] @ '' +'' @ [NL]
     @ ''  options [document = false, browser_info = false]'' @ [NL]
     @ ''  theories'' @ [NL] @ ''    '' @ [DQ] @ theory_name @ [DQ] @ [NL]"

section \<open>One build\<close>

record build_request =
  rq_theory_name :: pystr
  rq_theory_text :: pystr
  rq_dependencies :: "pystr option list option"
  rq_field :: "pystr option"
  rq_timeout :: real

record build_run =
  run_seconds :: real
  run_stdout :: pystr
  run_stderr :: pystr
  run_returncode :: int

text \<open>\<open>b_exec cmd files\<close> is what the process answers when it finds these files in the directory.\<close>

record build_env =
  b_host :: host
  b_mktemp :: "exn + pystr"
  b_write :: "pystr \<Rightarrow> pystr \<Rightarrow> exn + unit"
  b_exec :: "pystr list \<Rightarrow> (pystr \<times> pystr) list \<Rightarrow> exn + build_run"
  b_elapsed :: real

definition isabelle_bin :: pystr where
  "isabelle_bin = ''isabelle''"

definition build_jobs :: int where
  "build_jobs = 1"

definition parent_session :: "pystr option \<Rightarrow> pystr" where
  "parent_session fld = (let p = strip (or_else fld ''HOL'') in if p = [] then ''HOL'' else p)"

definition rejected_build :: "pystr \<Rightarrow> big_step_result" where
  "rejected_build msg = \<lparr>bs_success = False, bs_output = None, bs_error = Some msg, bs_execution_time = 0,
     bs_subgoals = [], bs_mode = ''build_strict'', bs_theory_verified = False\<rparr>"

definition name_error :: "build_request \<Rightarrow> pystr option" where
  "name_error rq = (case extract_theory_name (rq_theory_text rq) of
       None \<Rightarrow> Some ''Could not extract theory name from submitted theory text.''
     | Some declared \<Rightarrow> if declared \<noteq> rq_theory_name rq
         then Some (''Declared theory name '' @ [CHR 0x27] @ declared @ [CHR 0x27]
                @ '' does not match request theory_name '' @ [CHR 0x27] @ rq_theory_name rq @ [CHR 0x27] @ ''.'')
         else None)"

text \<open>The text on disk: probes removed, symbols normalised; a failing normaliser leaves the text alone.\<close>

definition normalised_text :: "host \<Rightarrow> pystr \<Rightarrow> pystr" where
  "normalised_text h theory_text =
     (case normalise_for_isabelle h (codes_of (strip_mlval theory_text)) of
        Inl e \<Rightarrow> strip_mlval theory_text
      | Inr cs \<Rightarrow> map char_of cs)"

definition build_session_name :: "(pystr \<Rightarrow> pystr) \<Rightarrow> pystr \<Rightarrow> pystr \<Rightarrow> pystr" where
  "build_session_name sha key theory_text = ''Build_'' @ take 10 key @ ''_'' @ take 10 (sha theory_text)"

definition build_files :: "(pystr \<Rightarrow> pystr) \<Rightarrow> host \<Rightarrow> pystr \<Rightarrow> build_request \<Rightarrow> (pystr \<times> pystr) list" where
  "build_files sha h key rq =
     [(rq_theory_name rq @ ''.thy'', normalised_text h (rq_theory_text rq)),
      (''ROOT'', root_text (build_session_name sha key (rq_theory_text rq))
                   (parent_session (rq_field rq)) (rq_theory_name rq))]"

definition build_cmd :: "pystr \<Rightarrow> pystr \<Rightarrow> pystr list" where
  "build_cmd temp_dir session_name =
     [isabelle_bin, ''build'', ''-D'', temp_dir, ''-j'', show_int build_jobs, ''-o'', ''document=false'',
      ''-o'', ''browser_info=false'', session_name]"

fun write_all :: "build_env \<Rightarrow> pystr \<Rightarrow> (pystr \<times> pystr) list \<Rightarrow> exn + unit" where
  "write_all env d [] = Inr ()"
| "write_all env d ((f, s) # fs) = onOk (b_write env (d @ ''/'' @ f) s) (\<lambda>_. write_all env d fs)"

definition judge_build :: "real \<Rightarrow> real \<Rightarrow> build_run \<Rightarrow> big_step_result" where
  "judge_build timeout seconds run =
     (if timeout < run_seconds run then
        \<lparr>bs_success = False, bs_output = None,
         bs_error = Some (''isabelle build timed out after '' @ fmt_f1 timeout @ ''s''),
         bs_execution_time = seconds, bs_subgoals = [], bs_mode = ''build_strict'', bs_theory_verified = False\<rparr>
      else (let good = (run_returncode run = 0);
                out = slice_from (-4000) (run_stdout run); err = slice_from (-4000) (run_stderr run) in
        \<lparr>bs_success = good, bs_output = none_if_empty out,
         bs_error = (if good then None
                     else if err \<noteq> [] then Some err else if out \<noteq> [] then Some out
                     else Some (''isabelle build failed with exit code '' @ show_int (run_returncode run))),
         bs_execution_time = seconds, bs_subgoals = [], bs_mode = ''build_strict'', bs_theory_verified = good\<rparr>))"

text \<open>The state is the list of temporary directories that exist.\<close>

definition run_build :: "(pystr \<Rightarrow> pystr) \<Rightarrow> build_env \<Rightarrow> pystr \<Rightarrow> build_request
    \<Rightarrow> (pystr list, big_step_result) py" where
  "run_build sha env key rq =
     (case name_error rq of
        Some msg \<Rightarrow> ret (rejected_build msg)
      | None \<Rightarrow>
          andThen (from_result (b_mktemp env)) (\<lambda>d.
          andThen (change (\<lambda>dirs. d # dirs)) (\<lambda>_.
          ensure
            (andThen (from_result (write_all env d (build_files sha (b_host env) key rq))) (\<lambda>_.
             andThen (from_result (b_exec env
                 (build_cmd d (build_session_name sha key (rq_theory_text rq)))
                 (build_files sha (b_host env) key rq))) (\<lambda>run.
             ret (judge_build (rq_timeout rq) (b_elapsed env) run))))
            (\<lambda>dirs. remove1 d dirs))))"

section \<open>The cache\<close>

type_synonym build_cache = "(pystr, big_step_result) od"

definition request_theories :: "build_request \<Rightarrow> pystr list" where
  "request_theories rq =
     (if truthy (rq_dependencies rq) then build_theories (rq_dependencies rq)
      else build_theories (Some (map Some (extract_imports (rq_theory_text rq)))))"

definition request_key :: "(pystr \<Rightarrow> pystr) \<Rightarrow> build_request \<Rightarrow> pystr" where
  "request_key sha rq = build_key sha (parent_session (rq_field rq)) (Some (map Some (request_theories rq)))"

definition request_hash :: "(pystr \<Rightarrow> pystr) \<Rightarrow> build_request \<Rightarrow> pystr" where
  "request_hash sha rq =
     stable_theory_hash sha (parent_session (rq_field rq)) (request_key sha rq) (rq_theory_text rq)"

definition cached_answer :: "build_cache \<Rightarrow> pystr \<Rightarrow> big_step_result option" where
  "cached_answer cache h = map_option (\<lambda>r. r\<lparr>bs_execution_time := 0\<rparr>) (od_get h cache)"

definition remember :: "pystr \<Rightarrow> big_step_result \<Rightarrow> build_cache \<Rightarrow> build_cache" where
  "remember h r cache = (if bs_success r then od_set h r cache else cache)"

text \<open>A request that meets no other: both cache tests, the build, the store.\<close>

definition verify :: "(pystr \<Rightarrow> pystr) \<Rightarrow> build_env \<Rightarrow> build_request
    \<Rightarrow> (build_cache \<times> pystr list, big_step_result) py" where
  "verify sha env rq = (\<lambda>(cache, dirs).
     (let h = request_hash sha rq in
      case cached_answer cache h of
        Some r \<Rightarrow> (Inr r, (cache, dirs))
      | None \<Rightarrow> (case run_build sha env (request_key sha rq) rq dirs of
            (Inl e, dirs') \<Rightarrow> (Inl e, (cache, dirs'))
          | (Inr r, dirs') \<Rightarrow> (Inr r, (remember h r cache, dirs')))))"

section \<open>Requests side by side\<close>

datatype phase =
    Queued
  | Admitted
  | Building
  | Answered big_step_result
  | Crashed exn

text \<open>\<open>Queued\<close> waits for the lock of its hash, \<open>Admitted\<close> holds it and waits for the semaphore. \<open>bv_log\<close>
  lists the builds that ended, oldest first: the hash and whether the result was a success.\<close>

record build_verifier =
  bv_cache :: build_cache
  bv_requests :: "(nat, pystr \<times> phase) od"
  bv_log :: "(pystr \<times> bool) list"

definition holds_lock :: "phase \<Rightarrow> bool" where
  "holds_lock ph = (ph = Admitted \<or> ph = Building)"

definition lock_free :: "pystr \<Rightarrow> build_verifier \<Rightarrow> bool" where
  "lock_free h v = (\<forall>(i, k, ph) \<in> set (bv_requests v). k = h \<longrightarrow> \<not> holds_lock ph)"

definition builds_running :: "build_verifier \<Rightarrow> nat" where
  "builds_running v = length (filter (\<lambda>(i, k, ph). ph = Building) (bv_requests v))"

definition set_phase :: "nat \<Rightarrow> pystr \<Rightarrow> phase \<Rightarrow> build_verifier \<Rightarrow> build_verifier" where
  "set_phase i h ph v = v\<lparr>bv_requests := od_set i (h, ph) (bv_requests v)\<rparr>"

definition look_up :: "pystr \<Rightarrow> phase \<Rightarrow> build_verifier \<Rightarrow> phase" where
  "look_up h next_phase v =
     (case cached_answer (bv_cache v) h of Some r \<Rightarrow> Answered r | None \<Rightarrow> next_phase)"

inductive bv_step :: "nat \<Rightarrow> build_verifier \<Rightarrow> build_verifier \<Rightarrow> bool" for max_builds :: nat where
  bv_arrive: "od_get i (bv_requests v) = None
    \<Longrightarrow> bv_step max_builds v (set_phase i h (look_up h Queued v) v)"
| bv_lock: "od_get i (bv_requests v) = Some (h, Queued) \<Longrightarrow> lock_free h v
    \<Longrightarrow> bv_step max_builds v (set_phase i h (look_up h Admitted v) v)"
| bv_start: "od_get i (bv_requests v) = Some (h, Admitted) \<Longrightarrow> builds_running v < max_builds
    \<Longrightarrow> bv_step max_builds v (set_phase i h Building v)"
| bv_finish: "od_get i (bv_requests v) = Some (h, Building)
    \<Longrightarrow> bv_step max_builds v ((set_phase i h (Answered r) v)
          \<lparr>bv_cache := remember h r (bv_cache v), bv_log := bv_log v @ [(h, bs_success r)]\<rparr>)"
| bv_crash: "od_get i (bv_requests v) = Some (h, Building)
    \<Longrightarrow> bv_step max_builds v ((set_phase i h (Crashed e) v)\<lparr>bv_log := bv_log v @ [(h, False)]\<rparr>)"

inductive bv_reach :: "nat \<Rightarrow> build_verifier \<Rightarrow> bool" for max_builds :: nat where
  bv_init: "bv_reach max_builds \<lparr>bv_cache = [], bv_requests = [], bv_log = []\<rparr>"
| bv_next: "bv_reach max_builds v \<Longrightarrow> bv_step max_builds v w \<Longrightarrow> bv_reach max_builds w"

section \<open>Interleaving\<close>

lemma od_set_split: "od_ok (u @ (k, w) # v) \<Longrightarrow> od_set k x (u @ (k, w) # v) = u @ (k, x) # v"
proof -
  assume "od_ok (u @ (k, w) # v)"
  then have "k \<notin> fst ` set u" "k \<notin> fst ` set v" by (auto simp: od_ok_def od_keys_def)
  then have "map (\<lambda>(j, y). (j, if j = k then x else y)) u = u" "map (\<lambda>(j, y). (j, if j = k then x else y)) v = v"
    by (force intro!: map_idI)+
  then show ?thesis by (simp add: od_set_def)
qed

definition running :: "(nat, pystr \<times> phase) od \<Rightarrow> nat" where
  "running d = length (filter (\<lambda>(i, k, ph). ph = Building) d)"

lemma running_replace:
  assumes "od_ok d" and "od_get i d = Some (h, ph)"
  shows "running (od_set i (h', ph') d) + (if ph = Building then 1 else 0)
    = running d + (if ph' = Building then 1 else 0)"
proof -
  obtain u v where uv: "d = u @ (i, h, ph) # v" using od_get_mem [OF assms(2)] by (meson split_list)
  then show ?thesis using assms(1) od_set_split [of u i "(h, ph)" v "(h', ph')"] by (simp add: running_def)
qed

lemma running_new:
  assumes "od_get i d = None"
  shows "running (od_set i (h, ph) d) = running d + (if ph = Building then 1 else 0)"
proof -
  have "i \<notin> fst ` set d" using assms od_get_None_iff [of i d] by (simp add: od_keys_def)
  then show ?thesis by (simp add: od_set_def running_def)
qed

definition locker :: "build_verifier \<Rightarrow> nat \<Rightarrow> pystr \<Rightarrow> bool" where
  "locker v i h \<longleftrightarrow> (\<exists>ph. od_get i (bv_requests v) = Some (h, ph) \<and> holds_lock ph)"

definition bv_inv :: "nat \<Rightarrow> build_verifier \<Rightarrow> bool" where
  "bv_inv n v \<longleftrightarrow> od_ok (bv_requests v) \<and> running (bv_requests v) \<le> n
     \<and> (\<forall>i j h. locker v i h \<and> locker v j h \<longrightarrow> i = j)
     \<and> (\<forall>i h. locker v i h \<longrightarrow> od_get h (bv_cache v) = None)"

definition same_verdict :: "big_step_result \<Rightarrow> big_step_result \<Rightarrow> bool" where
  "same_verdict r c \<longleftrightarrow> r = c \<or> r = c\<lparr>bs_execution_time := 0\<rparr>"

definition log_ok :: "build_cache \<Rightarrow> (pystr \<times> bool) list \<Rightarrow> bool" where
  "log_ok cache lg \<longleftrightarrow> (\<forall>h. (h, True) \<in> set lg \<longleftrightarrow> od_get h cache \<noteq> None)
     \<and> (\<forall>a h b. lg = a @ (h, True) # b \<longrightarrow> h \<notin> fst ` set b)
     \<and> (\<forall>h r. od_get h cache = Some r \<longrightarrow> bs_success r)"

definition answers_ok :: "build_verifier \<Rightarrow> bool" where
  "answers_ok v \<longleftrightarrow> (\<forall>i h r. od_get i (bv_requests v) = Some (h, Answered r) \<longrightarrow> bs_success r
     \<longrightarrow> (\<exists>c. od_get h (bv_cache v) = Some c \<and> same_verdict r c))"

lemma set_phase_simps [simp]:
  "bv_requests (set_phase i h ph v) = od_set i (h, ph) (bv_requests v)"
  "bv_cache (set_phase i h ph v) = bv_cache v" "bv_log (set_phase i h ph v) = bv_log v"
  by (simp_all add: set_phase_def)

lemma holds_lock_simps [simp]:
  "holds_lock Admitted" "holds_lock Building" "\<not> holds_lock Queued" "\<not> holds_lock (Answered r)" "\<not> holds_lock (Crashed e)"
  by (simp_all add: holds_lock_def)

lemma locker_set [simp]:
  "locker (set_phase i h ph v) j k \<longleftrightarrow> (if j = i then k = h \<and> holds_lock ph else locker v j k)"
  by (auto simp: locker_def)

lemma locker_other [simp]:
  "locker (v\<lparr>bv_cache := c\<rparr>) i h = locker v i h" "locker (v\<lparr>bv_log := l\<rparr>) i h = locker v i h"
  by (simp_all add: locker_def)

lemma lock_free_get: "od_ok (bv_requests v) \<Longrightarrow> lock_free h v \<longleftrightarrow> (\<forall>i. \<not> locker v i h)"
  unfolding lock_free_def locker_def by (auto simp: od_get_Some_iff)

lemma building_locks: "od_get i (bv_requests v) = Some (h, Building) \<Longrightarrow> locker v i h"
  by (simp add: locker_def)

lemma look_up_cases:
  "look_up h ph v = (case od_get h (bv_cache v) of None \<Rightarrow> ph | Some r \<Rightarrow> Answered (r\<lparr>bs_execution_time := 0\<rparr>))"
  by (simp add: look_up_def cached_answer_def split: option.split)

lemma remember_get: "od_get k (remember h r cache) = (if bs_success r \<and> k = h then Some r else od_get k cache)"
  by (simp add: remember_def)

text \<open>A request moves on without a build ending: the cache and the log stay.\<close>

lemma move_inv:
  assumes inv: "bv_inv n v" and get: "od_get i (bv_requests v) = Some (h, old)" and "old \<noteq> Building"
    and "ph = Building \<longrightarrow> running (bv_requests v) < n"
    and lock: "holds_lock ph \<longrightarrow> holds_lock old \<or> lock_free h v \<and> od_get h (bv_cache v) = None"
  shows "bv_inv n (set_phase i h ph v)"
proof -
  have ok: "od_ok (bv_requests v)" using inv by (simp add: bv_inv_def)
  have "running (od_set i (h, ph) (bv_requests v)) \<le> n"
    using running_replace [OF ok get, of h ph] inv assms(3,4) by (auto simp: bv_inv_def split: if_splits)
  moreover have "od_get h (bv_cache v) = None \<and> (\<forall>j. locker v j h \<longrightarrow> j = i)" if "holds_lock ph"
  proof (cases "holds_lock old")
    case True
    then have "locker v i h" using get by (simp add: locker_def)
    then show ?thesis using inv by (auto simp: bv_inv_def)
  next
    case False
    then show ?thesis using lock that lock_free_get [OF ok, of h] by simp
  qed
  ultimately show ?thesis using inv ok unfolding bv_inv_def set_phase_simps locker_set
    by (metis od_ok_set)
qed

lemma move_answers:
  assumes "answers_ok v"
    and "\<And>r. ph = Answered r \<Longrightarrow> bs_success r \<Longrightarrow> \<exists>c. od_get h (bv_cache v) = Some c \<and> same_verdict r c"
  shows "answers_ok (set_phase i h ph v)"
  unfolding answers_ok_def
proof (intro allI impI)
  fix j k r
  assume "od_get j (bv_requests (set_phase i h ph v)) = Some (k, Answered r)" and "bs_success r"
  then show "\<exists>c. od_get k (bv_cache (set_phase i h ph v)) = Some c \<and> same_verdict r c"
    using assms by (cases "j = i") (simp_all add: answers_ok_def)
qed

lemma last_entry:
  assumes "xs @ [(h, b)] = a @ (k, True) # c" and "\<And>a c. xs = a @ (k, True) # c \<Longrightarrow> k \<notin> fst ` set c"
    and "(h, True) \<notin> set xs"
  shows "k \<notin> fst ` set c"
proof (cases c rule: rev_cases)
  case (snoc c' y)
  then have "xs = a @ (k, True) # c'" "y = (h, b)" using assms(1) by auto
  then show ?thesis using assms(2) [of a c'] assms(3) snoc by auto
qed simp

text \<open>A build ends, with a result or an exception: its hash was not in the cache.\<close>

lemma finish_log:
  assumes "log_ok cache lg" and "od_get h cache = None"
  shows "log_ok (remember h r cache) (lg @ [(h, bs_success r)])" "log_ok cache (lg @ [(h, False)])"
proof -
  have new: "(h, True) \<notin> set lg" using assms by (simp add: log_ok_def)
  have split: "lg @ [(h, b)] = a @ (k, True) # c \<Longrightarrow> k \<notin> fst ` set c" for a k b c
    using last_entry [of lg h b a k c] new assms(1) by (simp add: log_ok_def)
  show "log_ok (remember h r cache) (lg @ [(h, bs_success r)])"
    unfolding log_ok_def
  proof (intro conjI allI)
    show "((k, True) \<in> set (lg @ [(h, bs_success r)])) = (od_get k (remember h r cache) \<noteq> None)" for k
      using assms by (auto simp: log_ok_def remember_get)
    show "lg @ [(h, bs_success r)] = a @ (k, True) # c \<longrightarrow> k \<notin> fst ` set c" for a k c
      using split by blast
    show "od_get k (remember h r cache) = Some q \<longrightarrow> bs_success q" for k q
      using assms by (auto simp: log_ok_def remember_get)
  qed
  show "log_ok cache (lg @ [(h, False)])"
    unfolding log_ok_def
  proof (intro conjI allI)
    show "((k, True) \<in> set (lg @ [(h, False)])) = (od_get k cache \<noteq> None)" for k
      using assms by (auto simp: log_ok_def)
    show "lg @ [(h, False)] = a @ (k, True) # c \<longrightarrow> k \<notin> fst ` set c" for a k c
      using split by blast
    show "od_get k cache = Some q \<longrightarrow> bs_success q" for k q
      using assms by (auto simp: log_ok_def)
  qed
qed

lemma bv_step_inv:
  assumes "bv_step n v w" and "bv_inv n v"
  shows "bv_inv n w"
  using assms
proof cases
  case (bv_arrive i h)
  have ph: "\<not> holds_lock (look_up h Queued v)" "look_up h Queued v \<noteq> Building"
    by (auto simp: look_up_cases split: option.split)
  then have "running (od_set i (h, look_up h Queued v) (bv_requests v)) \<le> n"
    using assms(2) running_new [OF bv_arrive(2), of h "look_up h Queued v"] by (simp add: bv_inv_def)
  then show ?thesis using assms(2) ph unfolding bv_arrive(1) by (auto simp: bv_inv_def)
next
  case (bv_lock i h)
  show ?thesis unfolding bv_lock(1)
    by (rule move_inv [OF assms(2) bv_lock(2)])
      (use bv_lock(3) in \<open>auto simp: look_up_cases split: option.splits\<close>)
next
  case (bv_start i h)
  then show ?thesis unfolding bv_start(1)
    by (intro move_inv [OF assms(2) bv_start(2)]) (simp_all add: builds_running_def running_def)
next
  case (bv_finish i h r)
  have "running (od_set i (h, Answered r) (bv_requests v)) \<le> n"
    using running_replace [OF _ bv_finish(2), of h "Answered r"] assms(2) by (simp add: bv_inv_def)
  then show ?thesis using assms(2) building_locks [OF bv_finish(2)] unfolding bv_finish(1)
    by (auto simp: bv_inv_def remember_get)
next
  case (bv_crash i h e)
  have "running (od_set i (h, Crashed e) (bv_requests v)) \<le> n"
    using running_replace [OF _ bv_crash(2), of h "Crashed e"] assms(2) by (simp add: bv_inv_def)
  then show ?thesis using assms(2) unfolding bv_crash(1) by (auto simp: bv_inv_def)
qed

lemma bv_step_log:
  assumes "bv_step n v w" and "bv_inv n v" and "log_ok (bv_cache v) (bv_log v)" and "answers_ok v"
  shows "log_ok (bv_cache w) (bv_log w) \<and> answers_ok w"
  using assms(1)
proof cases
  case (bv_arrive i h)
  have "answers_ok w" unfolding bv_arrive(1)
    by (rule move_answers [OF assms(4)]) (auto simp: look_up_cases same_verdict_def split: option.splits)
  then show ?thesis using assms(3) bv_arrive(1) by simp
next
  case (bv_lock i h)
  have "answers_ok w" unfolding bv_lock(1)
    by (rule move_answers [OF assms(4)]) (auto simp: look_up_cases same_verdict_def split: option.splits)
  then show ?thesis using assms(3) bv_lock(1) by simp
next
  case (bv_start i h)
  have "answers_ok w" unfolding bv_start(1) by (rule move_answers [OF assms(4)]) auto
  then show ?thesis using assms(3) bv_start(1) by simp
next
  case (bv_finish i h r)
  have none: "od_get h (bv_cache v) = None"
    using building_locks [OF bv_finish(2)] assms(2) by (auto simp: bv_inv_def)
  have "answers_ok w"
    unfolding answers_ok_def
  proof (intro allI impI)
    fix j k q
    assume a: "od_get j (bv_requests w) = Some (k, Answered q)" and q: "bs_success q"
    have reqs: "bv_requests w = od_set i (h, Answered r) (bv_requests v)"
      "bv_cache w = remember h r (bv_cache v)" by (simp_all add: bv_finish(1))
    show "\<exists>c. od_get k (bv_cache w) = Some c \<and> same_verdict q c"
    proof (cases "j = i")
      case True
      then have "k = h" "q = r" using a reqs by simp_all
      then show ?thesis using q reqs by (simp add: remember_get same_verdict_def)
    next
      case False
      then have "od_get j (bv_requests v) = Some (k, Answered q)" using a reqs by simp
      then obtain c where c: "od_get k (bv_cache v) = Some c" "same_verdict q c"
        using assms(4) q unfolding answers_ok_def by blast
      then have "k \<noteq> h" using none by auto
      then show ?thesis using c reqs by (simp add: remember_get)
    qed
  qed
  then show ?thesis using finish_log(1) [OF assms(3) none] bv_finish(1) by simp
next
  case (bv_crash i h e)
  have "od_get h (bv_cache v) = None"
    using building_locks [OF bv_crash(2)] assms(2) by (auto simp: bv_inv_def)
  moreover have "answers_ok (set_phase i h (Crashed e) v)" by (rule move_answers [OF assms(4)]) auto
  ultimately show ?thesis using finish_log(2) [OF assms(3)] bv_crash(1) by (simp add: answers_ok_def)
qed

lemma bv_reach_inv: "bv_reach n v \<Longrightarrow> bv_inv n v \<and> log_ok (bv_cache v) (bv_log v) \<and> answers_ok v"
proof (induction rule: bv_reach.induct)
  case bv_init
  then show ?case by (simp add: bv_inv_def log_ok_def answers_ok_def od_ok_def od_keys_def running_def locker_def)
next
  case (bv_next v w)
  then show ?case using bv_step_inv bv_step_log by blast
qed

section \<open>One request alone\<close>

lemma build_theories_eq: "build_theories thys = normalize_theories thys"
  by (simp add: build_theories_def normalize_theories_def map_filter_simps sorted_set_id split: option.split)

text \<open>The two modules that build a dependency key agree on a normalised field.\<close>

lemma build_key_is_session_key:
  assumes "normalize_field d (Some fld) = fld"
  shows "build_key sha fld thys = build_dependency_key sha d thys (Some fld) None"
  using assms by (simp add: build_key_def build_dependency_key_def dependency_base_def build_theories_eq)

lemma judge_success: "bs_success (judge_build t e run) \<longleftrightarrow> \<not> t < run_seconds run \<and> run_returncode run = 0"
  by (simp add: judge_build_def Let_def)

lemma judge_verified: "bs_theory_verified (judge_build t e run) = bs_success (judge_build t e run)"
  "bs_error (judge_build t e run) = None \<longleftrightarrow> bs_success (judge_build t e run)"
  by (auto simp: judge_build_def Let_def)

definition the_build :: "(pystr \<Rightarrow> pystr) \<Rightarrow> build_env \<Rightarrow> pystr \<Rightarrow> build_request \<Rightarrow> exn + build_run" where
  "the_build sha env key rq = onOk (b_mktemp env) (\<lambda>d.
     onOk (write_all env d (build_files sha (b_host env) key rq)) (\<lambda>_.
     b_exec env (build_cmd d (build_session_name sha key (rq_theory_text rq)))
       (build_files sha (b_host env) key rq)))"

lemma run_build_eq:
  "run_build sha env key rq dirs =
     ((case name_error rq of Some msg \<Rightarrow> Inr (rejected_build msg)
       | None \<Rightarrow> onOk (the_build sha env key rq) (\<lambda>run. Inr (judge_build (rq_timeout rq) (b_elapsed env) run))), dirs)"
proof (cases "name_error rq")
  case None
  show ?thesis
  proof (cases "b_mktemp env")
    case (Inr d)
    show ?thesis
    proof (cases "write_all env d (build_files sha (b_host env) key rq)")
      case (Inr u)
      then show ?thesis using None \<open>b_mktemp env = Inr d\<close>
        by (cases "b_exec env (build_cmd d (build_session_name sha key (rq_theory_text rq)))
            (build_files sha (b_host env) key rq)")
          (simp_all add: run_build_def the_build_def andThen_def ensure_def)
    qed (simp add: run_build_def the_build_def andThen_def ensure_def None \<open>b_mktemp env = Inr d\<close>)
  qed (simp add: run_build_def the_build_def andThen_def None)
qed (simp add: run_build_def)

section \<open>Properties\<close>

text \<open>Property C16: a build verdict is the prover's. \<open>verify\<close> on a text that is not cached answers success exactly
  when the text declares the requested theory name and \<open>isabelle build\<close>, run on the normalised text and
  the generated ROOT in a fresh directory, ends within the time limit with exit code 0; the answer is
  marked verified exactly then, and has an error text exactly otherwise. The directory is gone
  afterwards on every path, exceptions included. Only a success is remembered, and asking again
  answers the same verdict, with execution time 0, without a build.\<close>

theorem build_verdict:
  assumes "od_get (request_hash sha rq) cache = None" and "verify sha env rq (cache, dirs) = (out, (cache', dirs'))"
  shows "dirs' = dirs
    \<and> ((\<exists>r. out = Inr r \<and> bs_success r) \<longleftrightarrow> name_error rq = None
        \<and> (\<exists>run. the_build sha env (request_key sha rq) rq = Inr run
             \<and> run_seconds run \<le> rq_timeout rq \<and> run_returncode run = 0))
    \<and> (\<forall>r. out = Inr r \<longrightarrow> bs_theory_verified r = bs_success r \<and> (bs_error r = None) = bs_success r)
    \<and> (case out of Inr r \<Rightarrow> if bs_success r then
             cache' = od_set (request_hash sha rq) r cache
             \<and> verify sha env' rq (cache', dirs) = (Inr (r\<lparr>bs_execution_time := 0\<rparr>), (cache', dirs))
           else cache' = cache
        | Inl e \<Rightarrow> cache' = cache)"
proof -
  have run: "verify sha env rq (cache, dirs) = (case run_build sha env (request_key sha rq) rq dirs of
            (Inl e, dirs') \<Rightarrow> (Inl e, (cache, dirs'))
          | (Inr r, dirs') \<Rightarrow> (Inr r, (remember (request_hash sha rq) r cache, dirs')))"
    using assms(1) by (simp add: verify_def cached_answer_def)
  have hit: "verify sha env' rq (od_set (request_hash sha rq) r cache, dirs)
      = (Inr (r\<lparr>bs_execution_time := 0\<rparr>), (od_set (request_hash sha rq) r cache, dirs))" for r
    by (simp add: verify_def cached_answer_def)
  show ?thesis
  proof (cases "name_error rq")
    case (Some msg)
    then show ?thesis using assms(2) run
      by (auto simp: run_build_eq rejected_build_def remember_def)
  next
    case None
    show ?thesis
    proof (cases "the_build sha env (request_key sha rq) rq")
      case (Inl e)
      then show ?thesis using assms(2) run None by (auto simp: run_build_eq)
    next
      case (Inr b)
      let ?r = "judge_build (rq_timeout rq) (b_elapsed env) b"
      have "out = Inr ?r" "dirs' = dirs" "cache' = remember (request_hash sha rq) ?r cache"
        using assms(2) run None Inr by (auto simp: run_build_eq)
      then show ?thesis using None Inr hit [of ?r]
        by (simp add: judge_verified remember_def) (auto simp: judge_success)
    qed
  qed
qed

text \<open>Property C17: concurrent build requests are serialised per text. However requests interleave, at most the
  configured number of builds runs at once, at most one request of a text holds its lock, after a
  build of a text succeeded no build of that text is ever run again, and every request answered with
  success carries the verdict of that one build.\<close>

theorem builds_once:
  assumes "bv_reach n v"
  shows "builds_running v \<le> n
    \<and> (\<forall>i j h. locker v i h \<and> locker v j h \<longrightarrow> i = j)
    \<and> (\<forall>a h b. bv_log v = a @ (h, True) # b \<longrightarrow> h \<notin> fst ` set b \<and> (\<forall>i. \<not> locker v i h))
    \<and> (\<forall>i h r. od_get i (bv_requests v) = Some (h, Answered r) \<longrightarrow> bs_success r
        \<longrightarrow> (h, True) \<in> set (bv_log v) \<and> (\<exists>c. od_get h (bv_cache v) = Some c \<and> same_verdict r c))"
proof -
  have inv: "bv_inv n v" "log_ok (bv_cache v) (bv_log v)" "answers_ok v" using bv_reach_inv [OF assms] by auto
  have "builds_running v \<le> n" using inv(1) by (simp add: bv_inv_def builds_running_def running_def)
  moreover have "\<not> locker v i h" if "bv_log v = a @ (h, True) # b" for a h b i
  proof
    assume "locker v i h"
    then have "od_get h (bv_cache v) = None" using inv(1) by (auto simp: bv_inv_def)
    moreover have "(h, True) \<in> set (bv_log v)" using that by simp
    ultimately show False using inv(2) by (simp add: log_ok_def)
  qed
  moreover have "(h, True) \<in> set (bv_log v) \<and> (\<exists>c. od_get h (bv_cache v) = Some c \<and> same_verdict r c)"
    if "od_get i (bv_requests v) = Some (h, Answered r)" "bs_success r" for i h r
    using inv(2,3) that unfolding answers_ok_def log_ok_def by (metis option.distinct(1))
  moreover have "locker v i h \<and> locker v j h \<longrightarrow> i = j" for i j h using inv(1) unfolding bv_inv_def by blast
  moreover have "bv_log v = a @ (h, True) # b \<longrightarrow> h \<notin> fst ` set b" for a h b using inv(2) by (simp add: log_ok_def)
  ultimately show ?thesis by metis
qed

text \<open>The hash of a request does not look at its theory name, so a cached success answers a request whose name
  does not match the text, which a build rejects.\<close>

theorem cached_success_ignores_name:
  assumes "od_get (request_hash sha rq) cache = Some r"
  shows "verify sha env (rq\<lparr>rq_theory_name := n\<rparr>) (cache, dirs)
      = (Inr (r\<lparr>bs_execution_time := 0\<rparr>), (cache, dirs))
    \<and> (name_error (rq\<lparr>rq_theory_name := n\<rparr>) \<noteq> None \<longrightarrow>
        (\<exists>q. fst (verify sha env (rq\<lparr>rq_theory_name := n\<rparr>) ([], dirs)) = Inr q \<and> \<not> bs_success q))"
proof -
  have "request_hash sha (rq\<lparr>rq_theory_name := n\<rparr>) = request_hash sha rq"
    by (simp add: request_hash_def request_key_def request_theories_def)
  then have "verify sha env (rq\<lparr>rq_theory_name := n\<rparr>) (cache, dirs)
      = (Inr (r\<lparr>bs_execution_time := 0\<rparr>), (cache, dirs))"
    using assms by (simp add: verify_def cached_answer_def)
  moreover have "\<exists>q. fst (verify sha env rq' ([], dirs)) = Inr q \<and> \<not> bs_success q"
    if "name_error rq' = Some msg" for rq' msg
    using that by (simp add: verify_def cached_answer_def run_build_eq rejected_build_def)
  ultimately show ?thesis by blast
qed

section \<open>Witnesses\<close>

definition demo_env :: build_env where
  "demo_env = \<lparr>b_host = demo_host, b_mktemp = Inr ''/tmp/x'', b_write = (\<lambda>_ _. Inr ()),
     b_exec = (\<lambda>_ _. Inr \<lparr>run_seconds = 3, run_stdout = ''Finished'', run_stderr = [], run_returncode = 0\<rparr>),
     b_elapsed = 4\<rparr>"

definition demo_request :: build_request where
  "demo_request = \<lparr>rq_theory_name = ''T'', rq_theory_text = ''theory T imports Main begin end'',
     rq_dependencies = None, rq_field = None, rq_timeout = 60\<rparr>"

lemma demo_timeout: "rq_timeout demo_request = 60"
  by (simp add: demo_request_def)

lemma demo_request_name: "name_error demo_request = None"
  by code_simp

theorem build_verdict_witness:
  "\<exists>r. fst (verify id demo_env demo_request ([], [])) = Inr r \<and> bs_success r"
proof -
  obtain out cache' dirs' where v: "verify id demo_env demo_request ([], []) = (out, (cache', dirs'))"
    by (metis prod.collapse)
  have "the_build id demo_env (request_key id demo_request) demo_request =
      Inr \<lparr>run_seconds = 3, run_stdout = ''Finished'', run_stderr = [], run_returncode = 0\<rparr>"
    by (simp add: the_build_def demo_env_def build_files_def)
  then show ?thesis
    using build_verdict [OF _ v] v demo_request_name demo_timeout by simp
qed

theorem builds_once_witness:
  "\<exists>v. bv_reach 1 v \<and> bv_log v = [(''h'', True)] \<and> (\<forall>i. \<not> locker v i ''h'')"
proof -
  let ?r = "(rejected_build [])\<lparr>bs_success := True\<rparr>"
  let ?v0 = "\<lparr>bv_cache = [], bv_requests = [], bv_log = []\<rparr> :: build_verifier"
  let ?v1 = "set_phase 0 ''h'' (look_up ''h'' Queued ?v0) ?v0"
  let ?v2 = "set_phase 0 ''h'' (look_up ''h'' Admitted ?v1) ?v1"
  let ?v3 = "set_phase 0 ''h'' Building ?v2"
  let ?v4 = "(set_phase 0 ''h'' (Answered ?r) ?v3)\<lparr>bv_cache := remember ''h'' ?r (bv_cache ?v3),
      bv_log := bv_log ?v3 @ [(''h'', bs_success ?r)]\<rparr>"
  note phases = look_up_cases
  have "bv_reach 1 ?v1" by (rule bv_next [OF bv_init bv_arrive]) simp
  then have "bv_reach 1 ?v2"
    by (rule bv_next [OF _ bv_lock]) (simp_all add: phases lock_free_def od_set_def od_get_def)
  then have "bv_reach 1 ?v3"
    by (rule bv_next [OF _ bv_start]) (simp_all add: phases builds_running_def od_set_def od_get_def)
  then have reach: "bv_reach 1 ?v4" by (rule bv_next [OF _ bv_finish]) simp
  have lg: "bv_log ?v4 = [] @ (''h'', True) # []" by simp
  then have "\<forall>i. \<not> locker ?v4 i ''h''" using builds_once [OF reach] by blast
  then show ?thesis using reach lg by (intro exI [of _ ?v4]) simp
qed

end
