(* ===== verification/Diagnostic_Guard.thy ===== *)
theory Diagnostic_Guard
  imports Server_Errors Py_Regex
begin

text \<open>
  The gate of the diagnostic endpoint (\<open>server/app/core/diagnostic_guard.py\<close>): a command passes
  only if its first keyword is an allowed inspector and no keyword of the denylist stands anywhere
  in it as a token. \<open>MAX_LEN\<close>, read from the environment, is a parameter. The request model
  hands over a \<open>str\<close>, so the type test at the start always passes.
\<close>

section \<open>Policy\<close>

definition is_ident_char :: "char \<Rightarrow> bool" where
  "is_ident_char c = (is_alpha_ascii c \<or> is_digit_ascii c \<or> c = CHR ''_'' \<or> ord c = 39)"

definition is_head_char :: "char \<Rightarrow> bool" where
  "is_head_char c = (is_alpha_ascii c \<or> is_digit_ascii c \<or> c = CHR ''_'')"

definition ALLOWED_PREFIX_RE :: re where
  "ALLOWED_PREFIX_RE = seqs [TextStart, Alt (lit ''print'') (lit ''find''), lit ''_'',
     Plus (Chr is_head_char), TextEnd]"

definition ALLOWED_EXPLICIT :: "pystr list" where
  "ALLOWED_EXPLICIT =
    [''thm'', ''prf'', ''full_prf'', ''prop'', ''term'', ''typ'', ''help'', ''welcome'',
     ''thy_deps'', ''class_deps'', ''locale_deps'', ''thm_deps'', ''thm_oracles'', ''unused_thms'']"

definition debug_suffix :: re where
  "debug_suffix = Alt (lit ''_debug'') (Alt (lit ''_no_debug'') Eps)"

definition dangerous_alternatives :: "re list" where
  "dangerous_alternatives =
    [lit ''ML'', lit ''ML_val'', lit ''ML_command'', lit ''ML_prf'', Seq (lit ''ML_file'') debug_suffix,
     lit ''ML_export'', Seq (lit ''SML_file'') debug_suffix, lit ''SML_export'', lit ''SML_import'',
     lit ''setup'', lit ''local_setup'', lit ''declaration'', lit ''syntax_declaration'',
     lit ''attribute_setup'', lit ''method_setup'', lit ''simproc_setup'', lit ''oracle'',
     lit ''parse_translation'', lit ''print_translation'', lit ''typed_print_translation'',
     lit ''parse_ast_translation'', lit ''print_ast_translation'', lit ''external_file'',
     lit ''generate_file'', lit ''compile_generated_files'', lit ''export_generated_files'',
     lit ''scala_build_generated_files'']"

definition DANGEROUS_RE :: re where
  "DANGEROUS_RE = Seq (NotAfter is_ident_char) (Seq (alts dangerous_alternatives) (NotBefore is_ident_char))"

definition HEAD_RE :: re where
  "HEAD_RE = seqs [TextStart, Star (Chr is_space), Grp 1 (Seq (Chr is_alpha_ascii) (Star (Chr is_head_char)))]"

definition is_control :: "char \<Rightarrow> bool" where
  "is_control c = (let n = ord c in n \<le> 8 \<or> n = 11 \<or> n = 12 \<or> (14 \<le> n \<and> n \<le> 31))"

definition CONTROL_RE :: re where
  "CONTROL_RE = Chr is_control"

definition value_error :: "pystr \<Rightarrow> exn + 'a" where
  "value_error m = Inl (Exn C_ValueError m)"

definition allowed_head :: "pystr \<Rightarrow> bool" where
  "allowed_head kw = (kw \<in> set ALLOWED_EXPLICIT \<or> match_start ALLOWED_PREFIX_RE kw \<noteq> None)"

definition validate_diagnostic_command :: "nat \<Rightarrow> pystr \<Rightarrow> exn + pystr" where
  "validate_diagnostic_command MAX_LEN command =
     (let cmd = strip command in
      if cmd = [] then value_error ''command must not be empty''
      else if MAX_LEN < length cmd then
        value_error (''command too long (> '' @ show_nat MAX_LEN @ '' chars)'')
      else if search CONTROL_RE cmd \<noteq> None then
        value_error ''command contains disallowed control characters''
      else case match_start HEAD_RE cmd of
        None \<Rightarrow> value_error ''command must start with a diagnostic keyword''
      | Some (_, g) \<Rightarrow>
          (let kw = or_else (group 1 g) [] in
           if \<not> allowed_head kw then
             value_error ([CHR 0x27] @ kw @ [CHR 0x27] @ '' is not an allowed diagnostic command '' @
               ''(expected thm/term/prop/typ/prf, or a print_*/find_* inspector)'')
           else case search DANGEROUS_RE cmd of
             Some (a, b, _) \<Rightarrow>
               value_error (''command contains a disallowed keyword '' @ [CHR 0x27] @ between a b @ [CHR 0x27] @
                 '' (code-execution / IO commands are not permitted)'')
           | None \<Rightarrow> Inr cmd))"

section \<open>What the denylist pattern finds\<close>

text \<open>The keywords of the denylist, with the optional suffixes written out.\<close>

definition dangerous_words :: "pystr list" where
  "dangerous_words =
    [''ML'', ''ML_val'', ''ML_command'', ''ML_prf'', ''ML_file'', ''ML_file_debug'', ''ML_file_no_debug'',
     ''ML_export'', ''SML_file'', ''SML_file_debug'', ''SML_file_no_debug'', ''SML_export'', ''SML_import'',
     ''setup'', ''local_setup'', ''declaration'', ''syntax_declaration'', ''attribute_setup'',
     ''method_setup'', ''simproc_setup'', ''oracle'', ''parse_translation'', ''print_translation'',
     ''typed_print_translation'', ''parse_ast_translation'', ''print_ast_translation'', ''external_file'',
     ''generate_file'', ''compile_generated_files'', ''export_generated_files'',
     ''scala_build_generated_files'']"

lemma match_alts:
  "r \<in> set rs \<Longrightarrow> x \<in> set (match_re r c g) \<Longrightarrow> x \<in> set (match_re (alts rs) c g)"
  by (induction rs) auto

lemma match_debug_suffix:
  assumes "s = [] \<or> s = ''_debug'' \<or> s = ''_no_debug''"
  shows "((after p (w @ s), v), g) \<in> set (match_re (Seq (lit w) debug_suffix) (p, w @ s @ v) g)"
proof -
  let ?c = "(after p w, s @ v)"
  have "((after (after p w) s, v), g) \<in> set (match_re (lit s) ?c g)" by simp
  moreover have "set (match_re debug_suffix ?c g)
      = set (match_re (lit ''_debug'') ?c g) \<union> (set (match_re (lit ''_no_debug'') ?c g) \<union> set (match_re (lit []) ?c g))"
    unfolding debug_suffix_def match_re.simps(4) set_append lit.simps(1) ..
  ultimately have "((after (after p w) s, v), g) \<in> set (match_re debug_suffix ?c g)"
    using assms by blast
  then show ?thesis by simp
qed

lemma dangerous_word_matches:
  assumes "kw \<in> set dangerous_words"
  shows "((after p kw, v), g) \<in> set (match_re (alts dangerous_alternatives) (p, kw @ v) g)"
proof -
  have "lit kw \<in> set dangerous_alternatives
      \<or> (\<exists>w s. kw = w @ s \<and> (s = [] \<or> s = ''_debug'' \<or> s = ''_no_debug'')
           \<and> Seq (lit w) debug_suffix \<in> set dangerous_alternatives)"
  proof (cases "kw \<in> {''ML_file'', ''ML_file_debug'', ''ML_file_no_debug'', ''SML_file'', ''SML_file_debug'', ''SML_file_no_debug''}")
    case True
    have m: "Seq (lit ''ML_file'') debug_suffix \<in> set dangerous_alternatives"
      "Seq (lit ''SML_file'') debug_suffix \<in> set dangerous_alternatives"
      unfolding dangerous_alternatives_def by (simp_all only: list.set insert_iff simp_thms)
    have "kw = ''ML_file'' @ [] \<or> kw = ''ML_file'' @ ''_debug'' \<or> kw = ''ML_file'' @ ''_no_debug''
        \<or> kw = ''SML_file'' @ [] \<or> kw = ''SML_file'' @ ''_debug'' \<or> kw = ''SML_file'' @ ''_no_debug''"
      using True by simp
    then show ?thesis using m by blast
  next
    case False
    have "kw \<in> set dangerous_words \<longrightarrow> kw \<in> {''ML_file'', ''ML_file_debug'', ''ML_file_no_debug'', ''SML_file'', ''SML_file_debug'', ''SML_file_no_debug''}
        \<or> lit kw \<in> set dangerous_alternatives"
      unfolding dangerous_words_def dangerous_alternatives_def list.set insert_iff empty_iff
      by (elim disjE | intro impI)+ (simp_all only: simp_thms)
    then show ?thesis using False assms by blast
  qed
  then show ?thesis
  proof
    assume "lit kw \<in> set dangerous_alternatives"
    then show ?thesis by (rule match_alts) simp
  next
    assume "\<exists>w s. kw = w @ s \<and> (s = [] \<or> s = ''_debug'' \<or> s = ''_no_debug'')
        \<and> Seq (lit w) debug_suffix \<in> set dangerous_alternatives"
    then obtain w s where kw: "kw = w @ s" and s: "s = [] \<or> s = ''_debug'' \<or> s = ''_no_debug''"
      and m: "Seq (lit w) debug_suffix \<in> set dangerous_alternatives" by blast
    show ?thesis
      using match_debug_suffix [OF s, of p w v g] kw by (auto intro: match_alts [OF m])
  qed
qed

lemma no_dangerous_token:
  assumes none: "search DANGEROUS_RE cmd = None" and kw: "kw \<in> set dangerous_words"
    and cmd: "cmd = u @ kw @ v"
  shows "(u \<noteq> [] \<and> is_ident_char (last u)) \<or> (v \<noteq> [] \<and> is_ident_char (hd v))"
proof (rule ccontr)
  assume free: "\<not> ?thesis"
  let ?c = "(after None u, kw @ v)"
  have "match_re DANGEROUS_RE ?c [] = []"
    using none cmd by (auto simp: search_def start_of_def search_from_None)
  moreover have "\<not> prev_is is_ident_char ?c"
    using free by (auto simp: prev_is_def after_def)
  ultimately have "\<forall>x \<in> set (match_re (alts dangerous_alternatives) ?c []).
      match_re (NotBefore is_ident_char) (fst x) (snd x) = []"
    unfolding DANGEROUS_RE_def by (auto simp del: match_re.simps(13))
  then have "match_re (NotBefore is_ident_char) (after (after None u) kw, v) [] = []"
    using dangerous_word_matches [OF kw, of "after None u" v "[]"] by fastforce
  then show False using free by (cases v) auto
qed

lemma validated:
  assumes "validate_diagnostic_command MAX_LEN command = Inr cmd"
  shows "cmd = strip command" "cmd \<noteq> []" "length cmd \<le> MAX_LEN" "search CONTROL_RE cmd = None"
    "\<exists>d g. match_start HEAD_RE cmd = Some (d, g) \<and> allowed_head (or_else (group 1 g) [])"
    "search DANGEROUS_RE cmd = None"
  using assms
  by (auto simp: validate_diagnostic_command_def value_error_def Let_def not_less
      simp del: not_None_eq split: if_splits option.splits)

lemma no_control:
  assumes "search CONTROL_RE cmd = None" and "c \<in> set cmd"
  shows "\<not> is_control c"
proof -
  obtain u v where "cmd = u @ c # v" using assms(2) by (meson split_list)
  then have "match_re CONTROL_RE (after None u, c # v) [] = []"
    using assms(1) by (auto simp: search_def start_of_def search_from_None)
  then show ?thesis by (auto simp: CONTROL_RE_def split: if_splits)
qed

section \<open>Properties\<close>

text \<open>Property C10: an accepted command is the stripped input, within the length bound and free of control
  characters; its first keyword is an allowed inspector, and no keyword of the denylist occurs in
  it as a token of its own, wherever one would stand.\<close>

theorem accepted_command_is_safe:
  assumes "validate_diagnostic_command MAX_LEN command = Inr cmd"
  shows "cmd = strip command \<and> length cmd \<le> MAX_LEN \<and> list_all (\<lambda>c. \<not> is_control c) cmd
    \<and> (\<exists>d g. match_start HEAD_RE cmd = Some (d, g) \<and> allowed_head (or_else (group 1 g) []))
    \<and> (\<forall>kw u v. kw \<in> set dangerous_words \<and> cmd = u @ kw @ v \<longrightarrow>
         (u \<noteq> [] \<and> is_ident_char (last u)) \<or> (v \<noteq> [] \<and> is_ident_char (hd v)))"
proof (intro conjI)
  note v = validated [OF assms]
  show "cmd = strip command" "length cmd \<le> MAX_LEN"
    "\<exists>d g. match_start HEAD_RE cmd = Some (d, g) \<and> allowed_head (or_else (group 1 g) [])"
    using v by simp_all
  show "list_all (\<lambda>c. \<not> is_control c) cmd"
    using no_control [OF v(4)] by (simp add: list_all_iff)
  show "\<forall>kw u w. kw \<in> set dangerous_words \<and> cmd = u @ kw @ w \<longrightarrow>
      (u \<noteq> [] \<and> is_ident_char (last u)) \<or> (w \<noteq> [] \<and> is_ident_char (hd w))"
    using no_dangerous_token [OF v(6)] by blast
qed

theorem accepted_command_is_safe_witness:
  "validate_diagnostic_command 40 '' thm conjI '' = Inr ''thm conjI'' \<and> strip '' thm conjI '' = ''thm conjI''"
proof -
  have v: "validate_diagnostic_command 40 '' thm conjI '' = Inr ''thm conjI''" by code_simp
  then show ?thesis using accepted_command_is_safe [OF v] by simp
qed

text \<open>Validation is idempotent: an accepted command is accepted again, unchanged.\<close>

theorem validate_idempotent:
  assumes "validate_diagnostic_command MAX_LEN command = Inr cmd"
  shows "validate_diagnostic_command MAX_LEN cmd = Inr cmd"
proof -
  have "strip cmd = strip command" using validated(1) [OF assms] by simp
  then have "validate_diagnostic_command MAX_LEN cmd = validate_diagnostic_command MAX_LEN command"
    by (simp add: validate_diagnostic_command_def)
  with assms show ?thesis by simp
qed

theorem validate_idempotent_witness:
  "validate_diagnostic_command 40 ''term x'' = Inr ''term x''"
proof -
  have "validate_diagnostic_command 40 ''term x '' = Inr ''term x''" by code_simp
  then show ?thesis by (rule validate_idempotent)
qed

end
