(* ===== verification/Router.thy ===== *)
theory Router
  imports Manager_Properties Heap_Properties Build_Verify Diagnostic_Guard Unicode_Normaliser
begin

text \<open>
  The HTTP endpoints (\<open>server/app/api/v1/router.py\<close>) and the request models that check their input
  (\<open>schemas/API_models.py\<close>): the endpoints of one session as a dispatch on the request, the lease header
  in front of all of them, creation and acquisition of sessions on the heap pool, the listings, the heap
  endpoints and the probes.

  An endpoint runs from its call to its return. Routing, the decoding of the request and the coercions
  pydantic applies to integers and to a definition target are parameters; a request whose timeout is
  \<open>null\<close> is not modelled, nor are logging and metrics; the semaphore that bounds sledgehammer runs is in \<open>Sledgehammer_Gate\<close>.
\<close>

section \<open>The server\<close>

record 'b server =
  web_site :: "'b site"
  heap_world :: heap_env
  symbol_host :: host
  ascii_output :: bool
  admin_token :: pystr
  validate_int :: "json \<Rightarrow> exn + int option"
  validate_target :: "(pystr \<times> json) list \<Rightarrow> exn + (pystr \<times> json) list"
  diagnostic_max :: nat
  proof_state_timeout :: real
  save_timeout :: real
  restore_timeout :: real

abbreviation api_of :: "'b server \<Rightarrow> 'b raw_api" where
  "api_of srv \<equiv> prover (web_site srv)"

definition DEFAULT_TASK_GROUP :: pystr where
  "DEFAULT_TASK_GROUP = ''default''"

section \<open>Helpers\<close>

definition require_lease_id :: "pystr option \<Rightarrow> exn + pystr" where
  "require_lease_id x_lease_id =
     (if truthy x_lease_id then Inr (or_else x_lease_id [])
      else Inl (session_error C_SessionLeaseError (Some ''Missing X-Lease-Id header'') None))"

text \<open>\<open>_ascii\<close>; a text is 8-bit here, so its code points fit back into it.\<close>

definition ascii_text :: "'b server \<Rightarrow> pystr \<Rightarrow> exn + pystr" where
  "ascii_text srv s =
     (if \<not> ascii_output srv then Inr s
      else case normalise_for_isabelle (symbol_host srv) (codes_of s) of
        Inr c \<Rightarrow> Inr (map char_of c)
      | Inl e \<Rightarrow> if isinstance e C_FileNotFoundError then Inr s else Inl e)"

fun each_ok :: "('a \<Rightarrow> exn + 'c) \<Rightarrow> 'a list \<Rightarrow> exn + 'c list" where
  "each_ok f [] = Inr []"
| "each_ok f (x # xs) = onOk (f x) (\<lambda>y. onOk (each_ok f xs) (\<lambda>ys. Inr (y # ys)))"

text \<open>\<open>raw[key]\<close>, and \<open>int(x)\<close>.\<close>

definition dict_index :: "pystr \<Rightarrow> json \<Rightarrow> exn + json" where
  "dict_index k j = (case j of
       JObj kvs \<Rightarrow> (case map_of kvs k of Some v \<Rightarrow> Inr v | None \<Rightarrow> Inl (Exn C_KeyError k))
     | _ \<Rightarrow> Inl (Exn C_TypeError ''object is not subscriptable by a string''))"

definition json_int :: "json \<Rightarrow> exn + int" where
  "json_int j = (case j of
       JInt n \<Rightarrow> Inr n
     | JBool b \<Rightarrow> Inr (if b then 1 else 0)
     | JFloat x \<Rightarrow> Inr (if 0 \<le> x then \<lfloor>x\<rfloor> else \<lceil>x\<rceil>)
     | JStr s \<Rightarrow> (case py_int s of Some n \<Rightarrow> Inr n
                  | None \<Rightarrow> Inl (Exn C_ValueError ''invalid literal for int() with base 10''))
     | _ \<Rightarrow> Inl (Exn C_TypeError ''int() argument must be a string or a number''))"

record command_range =
  start_line :: int
  start_col :: int
  end_line :: int
  end_col :: int

definition position :: "pystr \<Rightarrow> json \<Rightarrow> exn + int \<times> int" where
  "position k j = onOk (dict_index k j) (\<lambda>p.
     onOk (onOk (dict_index ''line'' p) json_int) (\<lambda>l.
     onOk (onOk (dict_index ''col'' p) json_int) (\<lambda>c. Inr (l, c))))"

text \<open>\<open>_parse_command_range\<close>: both subscripts come before the conversions, and any of their errors is \<open>None\<close>.\<close>

definition parse_command_range :: "json \<Rightarrow> command_range option" where
  "parse_command_range j =
     (case onOk (position ''start'' j) (\<lambda>(l, c). onOk (position ''end'' j) (\<lambda>(l', c').
             Inr \<lparr>start_line = l, start_col = c, end_line = l', end_col = c'\<rparr>)) of
        Inr r \<Rightarrow> Some r | Inl e \<Rightarrow> None)"

section \<open>Responses\<close>

record command_response =
  cmd_success :: bool
  cmd_output :: "pystr option"
  cmd_error :: "pystr option"
  cmd_subgoal_error :: "pystr option"
  cmd_subgoals :: "pystr list"
  cmd_time :: real
  cmd_mode :: "pystr option"
  cmd_theory_verified :: bool

record command_status =
  st_index :: int
  st_line :: int
  st_node_line :: "int option"
  st_kind :: pystr
  st_status :: pystr
  st_range :: "command_range option"
  st_messages :: "(pystr \<times> pystr) list"

record chunk_response =
  ck_success :: bool
  ck_proof_open :: bool
  ck_pending_qed :: bool
  ck_used_sorry :: bool
  ck_timed_out :: bool
  ck_stuck_line :: "int option"
  ck_commands :: "command_status list"
  ck_time :: real
  ck_error :: "pystr option"

definition command_answer :: "small_step_result \<Rightarrow> command_response" where
  "command_answer r = \<lparr>cmd_success = ss_success r, cmd_output = ss_output r, cmd_error = ss_error r,
     cmd_subgoal_error = ss_subgoal_error r, cmd_subgoals = ss_subgoals r, cmd_time = ss_execution_time r,
     cmd_mode = None, cmd_theory_verified = False\<rparr>"

definition big_step_answer :: "big_step_result \<Rightarrow> command_response" where
  "big_step_answer r = \<lparr>cmd_success = bs_success r, cmd_output = bs_output r, cmd_error = bs_error r,
     cmd_subgoal_error = None, cmd_subgoals = bs_subgoals r, cmd_time = bs_execution_time r,
     cmd_mode = Some (bs_mode r), cmd_theory_verified = bs_theory_verified r\<rparr>"

section \<open>The report of a chunk\<close>

definition text_field :: "'b server \<Rightarrow> pystr \<Rightarrow> pystr \<Rightarrow> json \<Rightarrow> exn + pystr" where
  "text_field srv k d j = onOk (dict_get_or k (JStr d) j) (\<lambda>v. Inr (show_json (py_repr (api_of srv)) v))"

definition list_field :: "pystr \<Rightarrow> json \<Rightarrow> exn + json list" where
  "list_field k j = onOk (dict_get_or k (JList []) j) (\<lambda>v. py_iter (json_or v (JList [])))"

definition flag_field :: "pystr \<Rightarrow> json \<Rightarrow> exn + bool" where
  "flag_field k j = onOk (dict_get_or k (JBool False) j) (\<lambda>v. Inr (py_bool v))"

definition command_status_of :: "'b server \<Rightarrow> json \<Rightarrow> exn + command_status" where
  "command_status_of srv c =
     onOk (onOk (dict_get_or ''i'' (JInt 0) c) json_int) (\<lambda>i.
     onOk (onOk (dict_get_or ''line'' (JInt 0) c) json_int) (\<lambda>line.
     onOk (dict_get ''node_line'' c) (\<lambda>nl.
     onOk (text_field srv ''kind'' [] c) (\<lambda>kind.
     onOk (text_field srv ''status'' ''unprocessed'' c) (\<lambda>stat.
     onOk (dict_get ''range'' c) (\<lambda>rng.
     onOk (list_field ''messages'' c) (\<lambda>ms.
     onOk (each_ok (\<lambda>m. onOk (text_field srv ''sev'' [] m) (\<lambda>sev.
             onOk (text_field srv ''text'' [] m) (\<lambda>t. Inr (sev, t)))) ms) (\<lambda>msgs.
     onOk (validate_int srv nl) (\<lambda>node_line.
     Inr \<lparr>st_index = i, st_line = line, st_node_line = node_line, st_kind = kind, st_status = stat,
           st_range = parse_command_range rng, st_messages = msgs\<rparr>)))))))))"

definition stuck_line_of :: "command_status list \<Rightarrow> int option" where
  "stuck_line_of cs = map_option st_line (find (\<lambda>c. st_status c = ''running'') cs)"

definition chunk_passed :: "bool \<Rightarrow> command_status list \<Rightarrow> bool" where
  "chunk_passed timed cs = (\<not> timed \<and> 0 < length cs \<and> list_all (\<lambda>c. st_status c = ''ok'') cs)"

definition chunk_answer :: "'b server \<Rightarrow> json \<times> real \<Rightarrow> exn + chunk_response" where
  "chunk_answer srv = (\<lambda>(rep, t). let report = json_or rep (JObj []) in
     onOk (onOk (list_field ''commands'' report) (each_ok (command_status_of srv))) (\<lambda>cs.
     onOk (flag_field ''timed_out'' report) (\<lambda>timed.
     onOk (flag_field ''proof_open'' report) (\<lambda>po.
     onOk (flag_field ''pending_qed'' report) (\<lambda>pq.
     onOk (flag_field ''used_sorry'' report) (\<lambda>us.
     onOk (onOk (dict_get ''error'' report) as_error_text) (\<lambda>err.
     Inr \<lparr>ck_success = chunk_passed timed cs, ck_proof_open = po, ck_pending_qed = pq, ck_used_sorry = us,
           ck_timed_out = timed, ck_stuck_line = stuck_line_of cs, ck_commands = cs, ck_time = t,
           ck_error = err\<rparr>)))))))"

section \<open>Running an operation on a session of the pool\<close>

text \<open>The session stays the object the pool holds; after \<open>get_session\<close> it is there.\<close>

definition run_on :: "pystr \<Rightarrow> ('b, 'a) session_op \<Rightarrow> ('b pool, 'a) py" where
  "run_on sid op p = (case od_get sid (lru p) of
       None \<Rightarrow> (Inl (no_session sid), p)
     | Some s \<Rightarrow> (case op s of (r, s1) \<Rightarrow> (r, p\<lparr>lru := od_set sid s1 (lru p)\<rparr>)))"

text \<open>What every session endpoint begins with: the header, then \<open>get_session(..., require_lease=True)\<close>.\<close>

definition leased_session :: "pystr \<Rightarrow> pystr option \<Rightarrow> ('b manager, 'b session) py" where
  "leased_session req_id x_lease_id =
     andThen (from_result (require_lease_id x_lease_id)) (\<lambda>lid. on_pool (get_session req_id (Some lid) True))"

definition with_session :: "pystr \<Rightarrow> pystr option \<Rightarrow> ('b, 'a) session_op \<Rightarrow> ('b manager, 'a) py" where
  "with_session req_id x_lease_id op =
     andThen (leased_session req_id x_lease_id) (\<lambda>s. on_pool (run_on (session_id s) op))"

section \<open>Endpoints of a session\<close>

record load_response =
  ld_success :: bool
  ld_theory :: pystr
  ld_output :: "pystr option"
  ld_error :: "pystr option"
  ld_time :: real
  ld_report :: "json option"

record located_command =
  lc_kind :: pystr
  lc_source :: pystr
  lc_range :: "command_range option"

record session_info =
  in_session :: pystr
  in_created :: real
  in_last_activity :: real
  in_status :: session_status
  in_theories :: "pystr list"
  in_loaded :: "pystr list"
  in_wrapper :: "pystr option"
  in_key :: "pystr option"
  in_commands :: nat
  in_checkpoints :: nat
  in_verified :: "pystr list"
  in_busy :: bool
  in_requests :: nat
  in_label :: "pystr option"
  in_group :: "pystr option"

record session_stats =
  sx_created :: real
  sx_duration :: real
  sx_last_activity :: real
  sx_total :: nat
  sx_successful :: nat
  sx_failed :: nat
  sx_rate :: real
  sx_checkpoints :: nat

datatype page =
    A_Command command_response
  | A_Chunk chunk_response
  | A_Load load_response
  | A_Report chunk_report
  | A_State "pystr list" bool bool pystr
  | A_Subgoals "pystr list" nat bool
  | A_Facts "pystr list" nat
  | A_Command_At bool "pystr option" "pystr option" "command_range option" "pystr option"
  | A_Goals bool "located_command option" "pystr list" "pystr list" "pystr option"
  | A_Hover bool "command_range option" "pystr list" "pystr option"
  | A_Targets bool "(pystr \<times> json) list list" "pystr option"
  | A_Methods bool "pystr list" pystr real
  | A_Hammer bool "pystr list" "pystr option" real
  | A_Source pystr pystr
  | A_Checkpoint int real
  | A_Restored bool int
  | A_Rolled_Back pystr
  | A_Entered pystr "pystr list option"
  | A_History nat "history_entry list"
  | A_Stats session_stats
  | A_Info session_info
  | A_Released pystr
  | A_Closed
  | A_Failed nat pystr

text \<open>A \<open>JSONResponse\<close> with a status of its own is \<open>A_Failed\<close>; every other page is a 200.\<close>

definition page_status :: "page \<Rightarrow> nat" where
  "page_status a = (case a of A_Failed n d \<Rightarrow> n | _ \<Rightarrow> 200)"

definition optional_text :: "pystr \<Rightarrow> json \<Rightarrow> exn + pystr option" where
  "optional_text k j = onOk (dict_get k j) as_error_text"

definition rendered_list :: "'b server \<Rightarrow> pystr \<Rightarrow> json \<Rightarrow> exn + pystr list" where
  "rendered_list srv k j =
     onOk (dict_get k j) (\<lambda>v. onOk (py_iter (json_or v (JList []))) (\<lambda>xs.
       each_ok (\<lambda>x. ascii_text srv (show_json (py_repr (api_of srv)) x)) xs))"

definition total_output :: "pystr \<Rightarrow> repl_result option \<Rightarrow> exn + pystr" where
  "total_output d result = (case result of None \<Rightarrow> Inr d
     | Some r \<Rightarrow> (case rr_total r of Inr v \<Rightarrow> Inr v
                | Inl e \<Rightarrow> if class_of e = C_AttributeError then Inr d else Inl e))"

definition NO_EDITS :: pystr where
  "NO_EDITS = ''No text edits have been made to rollback''"

definition execute_page :: "'b server \<Rightarrow> pystr \<Rightarrow> real \<Rightarrow> ('b, page) session_op" where
  "execute_page srv command timeout =
     andThen (execute_command (api_of srv) command timeout) (\<lambda>r. ret (A_Command (command_answer r)))"

definition chunk_page :: "'b server \<Rightarrow> pystr \<Rightarrow> real \<Rightarrow> ('b, page) session_op" where
  "chunk_page srv chunk timeout =
     andThen (verify_chunk (api_of srv) chunk timeout) (\<lambda>r.
     andThen (from_result (chunk_answer srv r)) (\<lambda>a. ret (A_Chunk a)))"

definition load_page :: "'b server \<Rightarrow> pystr \<Rightarrow> pystr option \<Rightarrow> pystr list option \<Rightarrow> real \<Rightarrow> bool
    \<Rightarrow> ('b, page) session_op" where
  "load_page srv txt nm imports timeout report =
     andThen (load_document (api_of srv) txt nm imports timeout report) (\<lambda>r.
     andThen (fetch entered_thy) (\<lambda>thy.
     andThen (fetch last_chunk_report) (\<lambda>rep.
     andThen (from_result (case (if report then map_option cr_report rep else None) of
         None \<Rightarrow> Inr None | Some JNull \<Rightarrow> Inr None | Some (JObj kvs) \<Rightarrow> Inr (Some (JObj kvs))
       | Some _ \<Rightarrow> Inl (Exn C_ValueError ''validation error for DocumentLoadResponse''))) (\<lambda>rj.
     ret (A_Load \<lparr>ld_success = ss_success r, ld_theory = thy, ld_output = ss_output r, ld_error = ss_error r,
       ld_time = ss_execution_time r, ld_report = rj\<rparr>)))))"

definition last_report_page :: "('b, page) session_op" where
  "last_report_page =
     andThen (fetch last_chunk_report) (\<lambda>rep. case rep of
       None \<Rightarrow> throw (HTTPError 404 ''no verify_chunk report yet for this session'')
     | Some r \<Rightarrow> ret (A_Report r))"

definition diagnostic_page :: "'b server \<Rightarrow> pystr \<Rightarrow> real \<Rightarrow> ('b, page) session_op" where
  "diagnostic_page srv command timeout =
     andThen (run_diagnostic (api_of srv) command timeout) (\<lambda>r.
     andThen (from_result (case ss_output r of None \<Rightarrow> Inr None
       | Some t \<Rightarrow> onOk (ascii_text srv t) (\<lambda>u. Inr (Some u)))) (\<lambda>out.
     ret (A_Command ((command_answer r)\<lparr>cmd_output := out\<rparr>))))"

definition proof_state_page :: "'b server \<Rightarrow> (proof_state \<Rightarrow> pystr list \<Rightarrow> page) \<Rightarrow> ('b, page) session_op" where
  "proof_state_page srv show_state =
     andThen (get_proof_state (api_of srv) (proof_state_timeout srv)) (\<lambda>state. case state of
       Inl err \<Rightarrow> ret (A_Failed 500 (ee_error err))
     | Inr ps \<Rightarrow> andThen (from_result (each_ok (ascii_text srv) (ps_subgoals ps))) (\<lambda>gs. ret (show_state ps gs)))"

definition state_page :: "'b server \<Rightarrow> ('b, page) session_op" where
  "state_page srv = proof_state_page srv
     (\<lambda>ps gs. A_State gs (ps_proof_finished ps) (ps_pending_qed ps) (ps_current_theory ps))"

definition subgoals_page :: "'b server \<Rightarrow> ('b, page) session_op" where
  "subgoals_page srv = proof_state_page srv (\<lambda>ps gs. A_Subgoals gs (length gs) (ps_proof_finished ps))"

definition facts_page :: "'b server \<Rightarrow> ('b, pystr list) session_op \<Rightarrow> ('b, page) session_op" where
  "facts_page srv op = andThen op (\<lambda>fs.
     andThen (from_result (each_ok (ascii_text srv) fs)) (\<lambda>gs. ret (A_Facts gs (length gs))))"

definition command_at_page :: "'b server \<Rightarrow> int \<Rightarrow> ('b, page) session_op" where
  "command_at_page srv line =
     andThen (command_at_line (api_of srv) line None) (\<lambda>r.
     from_result (onOk (flag_field ''found'' r) (\<lambda>found.
       onOk (dict_get ''range'' r) (\<lambda>rng.
       onOk (optional_text ''kind'' r) (\<lambda>kind.
       onOk (optional_text ''source'' r) (\<lambda>src.
       onOk (optional_text ''error'' r) (\<lambda>err.
       Inr (A_Command_At found kind src (parse_command_range rng) err))))))))"

definition parse_located_command :: "'b server \<Rightarrow> json \<Rightarrow> located_command option" where
  "parse_located_command srv j =
     (case onOk (text_field srv ''kind'' [] j) (\<lambda>k. onOk (text_field srv ''source'' [] j) (\<lambda>src.
           onOk (dict_get ''range'' j) (\<lambda>rng.
           Inr \<lparr>lc_kind = k, lc_source = src, lc_range = parse_command_range rng\<rparr>))) of
        Inr c \<Rightarrow> Some c | Inl e \<Rightarrow> None)"

definition goals_page :: "'b server \<Rightarrow> int \<Rightarrow> ('b, page) session_op" where
  "goals_page srv line =
     andThen (goals_at_line (api_of srv) line None) (\<lambda>r.
     from_result (onOk (flag_field ''found'' r) (\<lambda>found.
       onOk (dict_get ''command'' r) (\<lambda>c.
       onOk (rendered_list srv ''goals_before'' r) (\<lambda>gb.
       onOk (rendered_list srv ''goals_after'' r) (\<lambda>ga.
       onOk (optional_text ''error'' r) (\<lambda>err.
       Inr (A_Goals found (parse_located_command srv c) gb ga err))))))))"

definition hover_page :: "'b server \<Rightarrow> int \<Rightarrow> int \<Rightarrow> ('b, page) session_op" where
  "hover_page srv line col =
     andThen (hover_at (api_of srv) line col None) (\<lambda>r.
     from_result (onOk (flag_field ''found'' r) (\<lambda>found.
       onOk (dict_get ''range'' r) (\<lambda>rng.
       onOk (rendered_list srv ''contents'' r) (\<lambda>contents.
       onOk (optional_text ''error'' r) (\<lambda>err.
       Inr (A_Hover found (parse_command_range rng) contents err)))))))"

definition TARGET_FIELDS :: "pystr list" where
  "TARGET_FIELDS = [''kind'', ''file'', ''line'', ''col'', ''end_line'', ''end_col'', ''node'', ''start_line'', ''id'']"

definition targets_of :: "'b server \<Rightarrow> json list \<Rightarrow> exn + (pystr \<times> json) list list" where
  "targets_of srv ts = each_ok (validate_target srv)
     (List.map_filter (\<lambda>t. case t of JObj kvs \<Rightarrow> Some (filter (\<lambda>(k, v). k \<in> set TARGET_FIELDS) kvs) | _ \<Rightarrow> None) ts)"

definition definition_page :: "'b server \<Rightarrow> int \<Rightarrow> int \<Rightarrow> ('b, page) session_op" where
  "definition_page srv line col =
     andThen (definition_at (api_of srv) line col None) (\<lambda>r.
     from_result (onOk (dict_get ''targets'' r) (\<lambda>v.
       onOk (py_iter (json_or v (JList []))) (\<lambda>ts.
       onOk (targets_of srv ts) (\<lambda>targets.
       onOk (flag_field ''found'' r) (\<lambda>found.
       onOk (optional_text ''error'' r) (\<lambda>err.
       Inr (A_Targets found targets err))))))))"

definition hammer_at_page :: "'b server \<Rightarrow> int \<Rightarrow> int \<Rightarrow> int \<Rightarrow> ('b, page) session_op" where
  "hammer_at_page srv line subgoal timeout_s =
     andThen (time_time (api_of srv)) (\<lambda>start.
     andThen (sledgehammer_at (api_of srv) line subgoal timeout_s None) (\<lambda>r.
     andThen (from_result (flag_field ''found'' r)) (\<lambda>found.
     andThen (from_result (rendered_list srv ''results'' r)) (\<lambda>results.
     andThen (from_result (optional_text ''error'' r)) (\<lambda>err.
     andThen (elapsed (api_of srv) start) (\<lambda>t. ret (A_Hammer found results err t)))))))"

definition hammer_page :: "'b server \<Rightarrow> int \<Rightarrow> ('b, page) session_op" where
  "hammer_page srv timeout_s =
     andThen (time_time (api_of srv)) (\<lambda>start.
     andThen (sledgehammer_methods (api_of srv) timeout_s None) (\<lambda>suggestions.
     andThen (elapsed (api_of srv) start) (\<lambda>t.
     andThen (from_result (each_ok (ascii_text srv) suggestions)) (\<lambda>out.
     ret (A_Methods (suggestions \<noteq> []) out (join [NL] out) t)))))"

definition source_page :: "'b server \<Rightarrow> ('b, page) session_op" where
  "source_page srv =
     andThen (get_source (api_of srv) None) (\<lambda>result.
     andThen (current_thy (api_of srv)) (\<lambda>thy.
     andThen (from_result (case result of None \<Rightarrow> Inr ''None''
       | Some r \<Rightarrow> (case rr_total r of Inr v \<Rightarrow> Inr v
                  | Inl e \<Rightarrow> if class_of e = C_AttributeError then rr_str r else Inl e))) (\<lambda>src.
     ret (A_Source src thy))))"

text \<open>The page is built from the attributes of the result; a failed save has none of them.\<close>

definition save_page :: "'b server \<Rightarrow> ('b, page) session_op" where
  "save_page srv =
     andThen (save_checkpoint (api_of srv) (save_timeout srv)) (\<lambda>cp. case cp of
       Inr ci \<Rightarrow> ret (A_Checkpoint (ci_checkpoint_id ci) (ci_timestamp ci))
     | Inl err \<Rightarrow> throw (Exn C_AttributeError
         ([CHR 0x27] @ ''SessionExecutionError'' @ [CHR 0x27] @ '' object has no attribute ''
          @ [CHR 0x27] @ ''checkpoint_id'' @ [CHR 0x27])))"

definition restore_page :: "'b server \<Rightarrow> int \<Rightarrow> ('b, page) session_op" where
  "restore_page srv cid =
     andThen (restore_checkpoint (api_of srv) cid (restore_timeout srv)) (\<lambda>r.
     ret (A_Restored (case r of Inr b \<Rightarrow> b | Inl err \<Rightarrow> False) cid))"

definition rollback_page :: "'b server \<Rightarrow> ('b, page) session_op" where
  "rollback_page srv =
     andThen (rollback (api_of srv) None) (\<lambda>result.
     andThen (from_result (total_output [] result)) (\<lambda>out.
     if contains out NO_EDITS then ret (A_Failed 409 ''no edits to roll back'') else ret (A_Rolled_Back out)))"

definition enter_page :: "'b server \<Rightarrow> pystr \<Rightarrow> pystr list option \<Rightarrow> ('b, page) session_op" where
  "enter_page srv nm imports =
     andThen (enter_thy (api_of srv) nm None imports) (\<lambda>r. ret (A_Entered nm imports))"

definition history_page :: "int \<Rightarrow> ('b, page) session_op" where
  "history_page limit =
     andThen (fetch command_history) (\<lambda>hs. ret (A_History (length hs) (slice_from (- limit) hs)))"

definition saved_count :: "'b session \<Rightarrow> nat" where
  "saved_count s = card (dom (checkpoints s))"

definition stats_of :: "real \<Rightarrow> 'b session \<Rightarrow> session_stats" where
  "stats_of now s =
     (let total = length (command_history s); good = length (filter h_success (command_history s)) in
      \<lparr>sx_created = created_at s, sx_duration = now - created_at s, sx_last_activity = last_activity s,
       sx_total = total, sx_successful = good, sx_failed = total - good,
       sx_rate = (if total = 0 then 0 else real good / real total), sx_checkpoints = saved_count s\<rparr>)"

definition stats_page :: "'b server \<Rightarrow> ('b, page) session_op" where
  "stats_page srv = andThen (time_time (api_of srv)) (\<lambda>now. andThen (fetch (stats_of now)) (\<lambda>x. ret (A_Stats x)))"

definition info_of :: "'b session \<Rightarrow> session_info" where
  "info_of s =
     \<lparr>in_session = session_id s, in_created = created_at s, in_last_activity = last_activity s,
      in_status = session_status s, in_theories = theories s, in_loaded = loaded_theories s,
      in_wrapper = wrapper_theory s, in_key = dependency_key s, in_commands = length (command_history s),
      in_checkpoints = saved_count s, in_verified = verified_theories s, in_busy = in_use s,
      in_requests = active_requests s, in_label = label s, in_group = task_group s\<rparr>"

definition info_page :: "('b, page) session_op" where
  "info_page = andThen (fetch info_of) (\<lambda>x. ret (A_Info x))"

section \<open>The dispatch\<close>

datatype route =
    Execute pystr real
  | Verify_Chunk pystr real
  | Load_Document pystr "pystr option" "pystr list option" real bool
  | Last_Report
  | Diagnostic pystr real
  | Proof_State
  | Subgoals
  | Local_Facts
  | Global_Facts int
  | Command_At int
  | Goals_At int
  | Hover_At int int
  | Definition_At int int
  | Sledgehammer_At int int int
  | Sledgehammer int
  | Source
  | Save_Checkpoint
  | Restore_Checkpoint int
  | Rollback
  | Enter_Theory pystr "pystr list option"
  | History int
  | Stats
  | Info

definition unprocessable :: "pystr \<Rightarrow> exn" where
  "unprocessable msg = HTTPError 422 msg"

text \<open>The checks of the request models and of the query parameters; they come before the endpoint.\<close>

fun check_request :: "'b server \<Rightarrow> route \<Rightarrow> exn + route" where
  "check_request srv (Verify_Chunk chunk t) =
     (if strip chunk = [] then Inl (unprocessable ''chunk must contain at least one Isar command'')
      else Inr (Verify_Chunk chunk t))"
| "check_request srv (Load_Document txt nm imports t rep) =
     (if txt = [] then Inl (unprocessable ''String should have at least 1 character'')
      else if truthy imports \<and> \<not> truthy nm then Inl (unprocessable ''thy_name is required when imports are given'')
      else Inr (Load_Document txt nm imports t rep))"
| "check_request srv (Diagnostic command t) =
     (case validate_diagnostic_command (diagnostic_max srv) command of
        Inl e \<Rightarrow> Inl (unprocessable (str_of e)) | Inr cmd \<Rightarrow> Inr (Diagnostic cmd t))"
| "check_request srv (Global_Facts n) =
     (if 1 \<le> n \<and> n \<le> 1000 then Inr (Global_Facts n) else Inl (unprocessable ''limit''))"
| "check_request srv (Command_At l) = (if 1 \<le> l then Inr (Command_At l) else Inl (unprocessable ''line''))"
| "check_request srv (Goals_At l) = (if 1 \<le> l then Inr (Goals_At l) else Inl (unprocessable ''line''))"
| "check_request srv (Hover_At l c) =
     (if 1 \<le> l \<and> 1 \<le> c then Inr (Hover_At l c) else Inl (unprocessable ''line, col''))"
| "check_request srv (Definition_At l c) =
     (if 1 \<le> l \<and> 1 \<le> c then Inr (Definition_At l c) else Inl (unprocessable ''line, col''))"
| "check_request srv (Sledgehammer_At l g t) =
     (if 1 \<le> l \<and> 1 \<le> g \<and> 1 \<le> t \<and> t \<le> 300 then Inr (Sledgehammer_At l g t) else Inl (unprocessable ''line, subgoal, timeout_s''))"
| "check_request srv (Sledgehammer t) =
     (if 1 \<le> t \<and> t \<le> 300 then Inr (Sledgehammer t) else Inl (unprocessable ''timeout_s''))"
| "check_request srv rt = Inr rt"

fun page_of :: "'b server \<Rightarrow> route \<Rightarrow> ('b, page) session_op" where
  "page_of srv (Execute c t) = execute_page srv c t"
| "page_of srv (Verify_Chunk c t) = chunk_page srv c t"
| "page_of srv (Load_Document txt nm imports t rep) = load_page srv txt nm imports t rep"
| "page_of srv Last_Report = last_report_page"
| "page_of srv (Diagnostic c t) = diagnostic_page srv c t"
| "page_of srv Proof_State = state_page srv"
| "page_of srv Subgoals = subgoals_page srv"
| "page_of srv Local_Facts = facts_page srv (local_facts (api_of srv) None)"
| "page_of srv (Global_Facts n) = facts_page srv (global_facts (api_of srv) n None)"
| "page_of srv (Command_At l) = command_at_page srv l"
| "page_of srv (Goals_At l) = goals_page srv l"
| "page_of srv (Hover_At l c) = hover_page srv l c"
| "page_of srv (Definition_At l c) = definition_page srv l c"
| "page_of srv (Sledgehammer_At l g t) = hammer_at_page srv l g t"
| "page_of srv (Sledgehammer t) = hammer_page srv t"
| "page_of srv Source = source_page srv"
| "page_of srv Save_Checkpoint = save_page srv"
| "page_of srv (Restore_Checkpoint i) = restore_page srv i"
| "page_of srv Rollback = rollback_page srv"
| "page_of srv (Enter_Theory nm imports) = enter_page srv nm imports"
| "page_of srv (History n) = history_page n"
| "page_of srv Stats = stats_page srv"
| "page_of srv Info = info_page"

definition serve :: "'b server \<Rightarrow> route \<Rightarrow> pystr \<Rightarrow> pystr option \<Rightarrow> ('b manager, page) py" where
  "serve srv rt req_id x_lease_id =
     andThen (from_result (check_request srv rt)) (\<lambda>rt. with_session req_id x_lease_id (page_of srv rt))"

section \<open>Releasing and closing\<close>

definition release_page :: "'b server \<Rightarrow> pystr \<Rightarrow> pystr option \<Rightarrow> ('b manager, page) py" where
  "release_page srv req_id x_lease_id =
     andThen (from_result (require_lease_id x_lease_id)) (\<lambda>lid.
     andThen (observe (wall_clock (web_site srv))) (\<lambda>now.
     andThen (on_pool (release_session now req_id (Some lid))) (\<lambda>r. ret (A_Released req_id))))"

text \<open>Without a lease header, closing is for the administrator, and then no lease is asked for.\<close>

definition close_page :: "'b server \<Rightarrow> bool \<Rightarrow> pystr \<Rightarrow> pystr option \<Rightarrow> pystr option \<Rightarrow> ('b manager, page) py" where
  "close_page srv raced req_id x_lease_id x_admin_token =
     andThen
       (if truthy x_lease_id then
          andThen (observe (wall_clock (web_site srv))) (\<lambda>now.
          on_pool (close_session (api_of srv) now raced req_id x_lease_id True))
        else if \<not> (admin_token srv \<noteq> [] \<and> x_admin_token = Some (admin_token srv))
        then throw (HTTPError 400 ''Missing X-Lease-Id header (or X-Admin-Token for unleased sessions)'')
        else
          andThen (observe (wall_clock (web_site srv))) (\<lambda>now.
          on_pool (close_session (api_of srv) now raced req_id None False)))
       (\<lambda>r. ret A_Closed)"

section \<open>Listings and probes\<close>

definition list_public :: "('b manager, session_entry list) py" where
  "list_public = fetch (\<lambda>m. list_sessions False (mpool m))"

definition list_admin :: "'b server \<Rightarrow> pystr option \<Rightarrow> ('b manager, session_entry list) py" where
  "list_admin srv x_admin_token =
     (if admin_token srv = [] \<or> x_admin_token \<noteq> Some (admin_token srv)
      then throw (HTTPError 403 ''admin token required'')
      else fetch (\<lambda>m. list_sessions True (mpool m)))"

definition readyz :: "'b server \<Rightarrow> bool \<Rightarrow> ('b manager, nat \<times> bool) py" where
  "readyz srv managed =
     andThen (if managed then gateway_alive (web_site srv) else ret False) (\<lambda>alive.
     ret (if alive then (200, True) else (503, alive)))"

definition root_status :: "'b server \<Rightarrow> ('b manager, pystr \<times> bool \<times> lru_info \<times> bool \<times> memory_status) py" where
  "root_status srv =
     andThen (lru_report (web_site srv)) (\<lambda>(info, managed, mem, alive).
     ret (if alive then ''healthy'' else ''degraded'', alive, info, managed, mem))"

section \<open>Creating sessions on heaps\<close>

record 'b app =
  app_manager :: "'b manager"
  app_heaps :: heap_state

definition on_manager :: "('b manager, 'a) py \<Rightarrow> ('b app, 'a) py" where
  "on_manager op a = (case op (app_manager a) of (r, m) \<Rightarrow> (r, a\<lparr>app_manager := m\<rparr>))"

definition on_heaps :: "(heap_state, 'a) py \<Rightarrow> ('b app, 'a) py" where
  "on_heaps op a = (case op (app_heaps a) of (r, h) \<Rightarrow> (r, a\<lparr>app_heaps := h\<rparr>))"

record session_request =
  sr_theories :: "pystr list option"
  sr_field :: "pystr option"
  sr_label :: "pystr option"
  sr_group :: "pystr option"
  sr_heap :: "pystr option"
  sr_project :: "pystr option"

definition request_field :: "pystr option \<Rightarrow> pystr option" where
  "request_field fld = (case fld of None \<Rightarrow> None
     | Some f \<Rightarrow> if strip f = [] \<or> lower f \<in> {''null'', ''none'', ''default''} then None else Some f)"

definition request_group :: "session_request \<Rightarrow> pystr" where
  "request_group rq = or_else (sr_group rq) DEFAULT_TASK_GROUP"

definition heap_theories :: "heap_entry \<Rightarrow> pystr list" where
  "heap_theories e = map (\<lambda>f. he_session e @ ''.'' @ stem (path_name (tf_path f))) (he_files e)"

definition resolve_heap :: "'b server \<Rightarrow> pystr \<Rightarrow> pystr option \<Rightarrow> pystr option
    \<Rightarrow> (heap_state, pystr list \<times> pystr \<times> pystr list \<times> pystr) py" where
  "resolve_heap srv g heap project =
     andThen (resolve_for_session (heap_world srv) g heap project) (\<lambda>e.
     ret (heap_theories e, he_session e, [he_root_dir e], g @ '':'' @ he_fingerprint e))"

text \<open>What the two endpoints hand to the manager.\<close>

definition prepare_request :: "'b server \<Rightarrow> session_request \<Rightarrow> ('b app, create_request) py" where
  "prepare_request srv rq =
     (let thys = (if truthy (sr_theories rq) then sr_theories rq else None); g = request_group rq in
      if truthy (sr_heap rq) \<or> truthy (sr_project rq) then
        andThen (on_heaps (resolve_heap srv g (sr_heap rq) (sr_project rq))) (\<lambda>(hts, fld, dirs, extra).
        ret \<lparr>cr_theories = Some (map Some (sorted_set (or_else thys [] @ hts))), cr_field = Some fld, cr_lease = None,
              cr_dirs = Some dirs, cr_group = Some g, cr_extra = Some extra\<rparr>)
      else ret \<lparr>cr_theories = map_option (map Some) thys, cr_field = request_field (sr_field rq), cr_lease = None,
                 cr_dirs = None, cr_group = Some g, cr_extra = None\<rparr>)"

text \<open>\<open>session.label = request.label\<close>.\<close>

definition set_label :: "pystr option \<Rightarrow> pystr \<Rightarrow> 'b manager \<Rightarrow> 'b manager" where
  "set_label l sid m = (case od_get sid (lru (mpool m)) of
       None \<Rightarrow> m
     | Some s \<Rightarrow> m\<lparr>mpool := (mpool m)\<lparr>lru := od_set sid (s\<lparr>label := l\<rparr>) (lru (mpool m))\<rparr>\<rparr>)"

record session_answer =
  sa_id :: pystr
  sa_created :: real
  sa_theories :: "pystr list"
  sa_status :: session_status
  sa_lease :: pystr
  sa_group :: pystr

definition session_answer_of :: "'b session \<Rightarrow> pystr \<Rightarrow> session_request \<Rightarrow> session_answer" where
  "session_answer_of s lid rq =
     \<lparr>sa_id = session_id s, sa_created = created_at s, sa_theories = theories s, sa_status = session_status s,
      sa_lease = lid, sa_group = request_group rq\<rparr>"

definition create_page :: "'b server \<Rightarrow> session_request \<Rightarrow> ('b app, session_answer \<times> pystr option) py" where
  "create_page srv rq =
     andThen (prepare_request srv rq) (\<lambda>cr.
     andThen (on_manager (create_leased_session (web_site srv) cr)) (\<lambda>(s, lid).
     andThen (on_manager (change (set_label (sr_label rq) (session_id s)))) (\<lambda>_.
     ret (session_answer_of s lid rq, sr_label rq))))"

definition acquire_page :: "'b server \<Rightarrow> session_request \<Rightarrow> bool \<Rightarrow> ('b app, session_answer \<times> bool) py" where
  "acquire_page srv rq reuse_dirty =
     andThen (prepare_request srv rq) (\<lambda>cr.
     andThen (on_manager (acquire_session (web_site srv) cr reuse_dirty)) (\<lambda>(s, reused, lid).
     andThen (on_manager (change (set_label (sr_label rq) (session_id s)))) (\<lambda>_.
     ret (session_answer_of s lid rq, reused))))"

section \<open>Heap endpoints\<close>

record heap_answer =
  ha_group :: pystr
  ha_project :: pystr
  ha_session :: pystr
  ha_root_dir :: pystr
  ha_fingerprint :: pystr
  ha_status :: heap_status
  ha_built_at :: "real option"
  ha_built_by :: "pystr option"
  ha_log :: pystr

definition heap_entry_response :: "heap_entry \<Rightarrow> heap_answer" where
  "heap_entry_response e =
     \<lparr>ha_group = he_group e, ha_project = he_project e, ha_session = he_session e, ha_root_dir = he_root_dir e,
      ha_fingerprint = he_fingerprint e, ha_status = he_status e, ha_built_at = he_built_at e,
      ha_built_by = he_built_by e, ha_log = he_log e\<rparr>"

text \<open>A build that no other request interrupts: \<open>run\<close> is what the build process does, \<open>now\<close> its end.\<close>

definition build_page :: "'b server \<Rightarrow> real \<Rightarrow> build_process \<Rightarrow> pystr \<Rightarrow> pystr \<Rightarrow> pystr option
    \<Rightarrow> (heap_state, heap_answer) py" where
  "build_page srv now run g project name =
     andThen (lock_build g project) (\<lambda>_.
     andThen (start_build (heap_world srv) g project name (Some g)) (\<lambda>e.
     andThen (end_build (heap_world srv) now run e) (\<lambda>e1. ret (heap_entry_response e1))))"

definition heap_missing :: "'b server \<Rightarrow> pystr \<Rightarrow> pystr \<Rightarrow> exn" where
  "heap_missing srv g project = HTTPError 404
     (''no heap for group '' @ repr (heap_world srv) g @ '' project '' @ repr (heap_world srv) project)"

definition list_heaps_page :: "pystr option \<Rightarrow> (heap_state, heap_answer list) py" where
  "list_heaps_page g = fetch (\<lambda>st. map heap_entry_response (list_heaps g st))"

definition manifest_page :: "'b server \<Rightarrow> pystr \<Rightarrow> pystr
    \<Rightarrow> (heap_state, heap_answer \<times> pystr \<times> theory_file list) py" where
  "manifest_page srv g project =
     andThen (fetch (get_heap g project)) (\<lambda>x. case x of
       None \<Rightarrow> throw (heap_missing srv g project)
     | Some e \<Rightarrow> ret (heap_entry_response e, he_root_text e, he_files e))"

definition delete_heap_page :: "'b server \<Rightarrow> pystr \<Rightarrow> pystr \<Rightarrow> (heap_state, pystr \<times> pystr) py" where
  "delete_heap_page srv g project st =
     (case delete_heap (heap_world srv) g project st of
        (True, st1) \<Rightarrow> (Inr (g, project), st1)
      | (False, st1) \<Rightarrow> (Inl (heap_missing srv g project), st1))"

definition delete_group_page :: "'b server \<Rightarrow> pystr \<Rightarrow> (heap_state, nat \<times> pystr) py" where
  "delete_group_page srv g st = (case delete_group (heap_world srv) g st of (n, st1) \<Rightarrow> (Inr (n, g), st1))"

definition heap_groups_page :: "(heap_state, (pystr \<times> nat \<times> nat) list) py" where
  "heap_groups_page = fetch heap_groups"

definition parse_header_page :: "pystr \<Rightarrow> pystr option \<times> pystr list \<times> pystr option" where
  "parse_header_page txt = (case parse_theory_header txt of (name, imports) \<Rightarrow> (name, imports, suggested_field imports))"

section \<open>The batch build\<close>

definition verify_big_step_build :: "'b server \<Rightarrow> (pystr \<Rightarrow> pystr) \<Rightarrow> build_env \<Rightarrow> build_request
    \<Rightarrow> (build_cache \<times> pystr list, big_step_result) py" where
  "verify_big_step_build srv sha env rq =
     verify sha env (rq\<lparr>rq_field := Some (normalize_field (default_field (settings (web_site srv))) (rq_field rq))\<rparr>)"

definition big_step_page :: "'b server \<Rightarrow> (pystr \<Rightarrow> pystr) \<Rightarrow> build_env \<Rightarrow> build_request
    \<Rightarrow> (build_cache \<times> pystr list, command_response) py" where
  "big_step_page srv sha env rq = andThen (verify_big_step_build srv sha env rq) (\<lambda>r. ret (big_step_answer r))"

end
