(* ===== verification/Http_Routes.thy ===== *)
theory Http_Routes
  imports Router
begin

text \<open>
  What the server makes of a request on the wire: the routes of \<open>api/v1/router.py\<close> with their path patterns, and the
  fields of the request models (\<open>schemas/API_models.py\<close>) with their types and defaults. A body is checked against
  its model and a path against the routes in the order of their declaration.

  FastAPI and pydantic are the parameter \<open>stack\<close>: how a URL is quoted and unquoted, how a value is coerced to a
  declared type, and how a number is read from a URL; the two default timeouts are configured.
\<close>

section \<open>Typed bodies\<close>

datatype field_type =
    T_Str
  | T_Int
  | T_Float
  | T_Bool
  | T_List field_type
  | T_Opt field_type

fun conforms :: "field_type \<Rightarrow> json \<Rightarrow> bool" where
  "conforms T_Str v = (case v of JStr s \<Rightarrow> True | _ \<Rightarrow> False)"
| "conforms T_Int v = (case v of JInt n \<Rightarrow> True | _ \<Rightarrow> False)"
| "conforms T_Float v = (case v of JInt n \<Rightarrow> True | JFloat x \<Rightarrow> True | _ \<Rightarrow> False)"
| "conforms T_Bool v = (case v of JBool b \<Rightarrow> True | _ \<Rightarrow> False)"
| "conforms (T_List t) v = (case v of JList vs \<Rightarrow> list_all (conforms t) vs | _ \<Rightarrow> False)"
| "conforms (T_Opt t) v = (v = JNull \<or> conforms t v)"

text \<open>The value in its declared type: an integer given for a float becomes one.\<close>

fun canonical :: "field_type \<Rightarrow> json \<Rightarrow> json" where
  "canonical T_Float v = (case v of JInt n \<Rightarrow> JFloat (of_int n) | _ \<Rightarrow> v)"
| "canonical (T_List t) v = (case v of JList vs \<Rightarrow> JList (map (canonical t) vs) | _ \<Rightarrow> v)"
| "canonical (T_Opt t) v = (if v = JNull then JNull else canonical t v)"
| "canonical t v = v"

record stack =
  quote_url :: "pystr \<Rightarrow> pystr"
  unquote :: "pystr \<Rightarrow> pystr"
  coerce :: "field_type \<Rightarrow> json \<Rightarrow> json option"
  read_int :: "pystr \<Rightarrow> int option"
  command_default :: real
  bigstep_default :: real

text \<open>A field: its name, type and default.\<close>

type_synonym model = "(pystr \<times> field_type \<times> json option) list"

fun check_fields :: "stack \<Rightarrow> model \<Rightarrow> (pystr \<times> json) list \<Rightarrow> (pystr \<times> json) list option" where
  "check_fields w [] kvs = Some []"
| "check_fields w ((name, t, dflt) # fs) kvs =
     (case (case map_of kvs name of None \<Rightarrow> dflt | Some v \<Rightarrow> coerce w t v) of
        None \<Rightarrow> None
      | Some v \<Rightarrow> map_option (\<lambda>vs. (name, v) # vs) (check_fields w fs kvs))"

definition check_body :: "stack \<Rightarrow> model \<Rightarrow> json option \<Rightarrow> (pystr \<times> json) list option" where
  "check_body w m body = (case body of Some (JObj kvs) \<Rightarrow> check_fields w m kvs | _ \<Rightarrow> None)"

subsection \<open>The request models\<close>

definition optional_str :: "pystr \<Rightarrow> pystr \<times> field_type \<times> json option" where
  "optional_str name = (name, T_Opt T_Str, Some JNull)"

definition SessionCreateRequest :: model where
  "SessionCreateRequest = (''theories'', T_Opt (T_List T_Str), Some JNull) #
     map optional_str [''field'', ''label'', ''task_group'', ''heap_session'', ''project'']"

definition SessionAcquireRequest :: model where
  "SessionAcquireRequest = [(''theories'', T_List T_Str, Some (JList [])), optional_str ''field'',
     (''reuse_dirty'', T_Bool, Some (JBool True)), optional_str ''task_group'', optional_str ''heap_session'',
     optional_str ''project'', optional_str ''label'']"

definition CommandRequest :: "stack \<Rightarrow> model" where
  "CommandRequest w = [(''command'', T_Str, None), (''timeout'', T_Opt T_Float, Some (JFloat (command_default w)))]"

definition EnterTheoryRequest :: model where
  "EnterTheoryRequest = [(''imports'', T_Opt (T_List T_Str), Some JNull)]"

definition DocumentLoadRequest :: "stack \<Rightarrow> model" where
  "DocumentLoadRequest w = [(''text'', T_Str, None), optional_str ''thy_name'',
     (''imports'', T_Opt (T_List T_Str), Some JNull), (''timeout'', T_Opt T_Float, Some (JFloat (command_default w))),
     (''report'', T_Bool, Some (JBool False))]"

definition BigStepTheoryRequest :: "stack \<Rightarrow> model" where
  "BigStepTheoryRequest w = [(''theory_name'', T_Str, None), (''dependencies'', T_List T_Str, Some (JList [])),
     optional_str ''field'', (''theory'', T_Str, None), (''timeout'', T_Float, Some (JFloat (bigstep_default w)))]"

definition SledgehammerRequest :: model where
  "SledgehammerRequest = [(''timeout_s'', T_Int, Some (JInt 30))]"

definition DiagnosticRequest :: "stack \<Rightarrow> model" where
  "DiagnosticRequest w = [(''command'', T_Str, None), (''timeout'', T_Opt T_Float, Some (JFloat (command_default w)))]"

definition SledgehammerAtRequest :: model where
  "SledgehammerAtRequest = [(''line'', T_Int, None), (''subgoal'', T_Int, Some (JInt 1)), (''timeout_s'', T_Int, Some (JInt 30))]"

definition ChunkVerifyRequest :: "stack \<Rightarrow> model" where
  "ChunkVerifyRequest w = [(''chunk'', T_Str, None), (''timeout'', T_Float, Some (JFloat (command_default w)))]"

definition HeapBuildRequest :: model where
  "HeapBuildRequest = [(''task_group'', T_Str, None), (''project'', T_Str, None), optional_str ''session_name'']"

definition ParseTheoryHeaderRequest :: model where
  "ParseTheoryHeaderRequest = [(''text'', T_Str, None)]"

subsection \<open>Reading a checked body\<close>

definition field_of :: "(pystr \<times> json) list \<Rightarrow> pystr \<Rightarrow> json" where
  "field_of vals name = (case map_of vals name of None \<Rightarrow> JNull | Some v \<Rightarrow> v)"

fun as_str :: "json \<Rightarrow> pystr" where
  "as_str (JStr s) = s"
| "as_str v = []"

fun as_opt_str :: "json \<Rightarrow> pystr option" where
  "as_opt_str (JStr s) = Some s"
| "as_opt_str v = None"

fun as_int :: "json \<Rightarrow> int" where
  "as_int (JInt n) = n"
| "as_int v = 0"

fun as_bool :: "json \<Rightarrow> bool" where
  "as_bool (JBool b) = b"
| "as_bool v = False"

fun as_strs :: "json \<Rightarrow> pystr list option" where
  "as_strs (JList vs) = Some (map as_str vs)"
| "as_strs v = None"

fun as_time :: "json \<Rightarrow> real option" where
  "as_time (JFloat x) = Some x"
| "as_time v = None"

section \<open>Routes\<close>

datatype endpoint =
    EP_Root | EP_Healthz | EP_Readyz
  | EP_Create | EP_List | EP_List_Admin | EP_Acquire | EP_Release | EP_Info | EP_Close
  | EP_Execute | EP_Verify_Chunk | EP_Load | EP_Last_Report | EP_Diagnostic | EP_State | EP_Subgoals
  | EP_Local_Facts | EP_Global_Facts | EP_Command_At | EP_Goals | EP_Hover | EP_Definition | EP_Sledgehammer_At
  | EP_Source | EP_Save | EP_Restore | EP_Rollback | EP_Sledgehammer | EP_Enter | EP_History | EP_Big_Step | EP_Stats
  | EP_Heap_Build | EP_Heaps | EP_Heaps_Available | EP_Parse_Header | EP_Manifest | EP_Delete_Image | EP_Delete_Heap
  | EP_Heap_Groups | EP_Delete_Group

text \<open>A piece of a pattern: a fixed segment, \<open>{name}\<close>, or \<open>{name:path}\<close>, which takes the rest of the path.\<close>

datatype piece = Lit pystr | Seg | Rest

fun match_path :: "piece list \<Rightarrow> pystr list \<Rightarrow> pystr list option" where
  "match_path [] [] = Some []"
| "match_path [Rest] (s # ss) = Some [join ''/'' (s # ss)]"
| "match_path (Lit l # ps) (s # ss) = (if s = l then match_path ps ss else None)"
| "match_path (Seg # ps) (s # ss) = (if s = [] then None else map_option ((#) s) (match_path ps ss))"
| "match_path ps ss = None"

definition api :: "piece list \<Rightarrow> piece list" where
  "api ps = Lit [] # Lit ''api'' # Lit ''v1'' # ps"

definition of_session :: "piece list \<Rightarrow> piece list" where
  "of_session ps = api (Lit ''sessions'' # Seg # ps)"

definition ROUTES :: "(pystr \<times> piece list \<times> endpoint) list" where
  "ROUTES = [
     (''GET'', [Lit [], Lit []], EP_Root),
     (''GET'', [Lit [], Lit ''healthz''], EP_Healthz),
     (''GET'', [Lit [], Lit ''readyz''], EP_Readyz),
     (''POST'', api [Lit ''sessions''], EP_Create),
     (''GET'', api [Lit ''sessions''], EP_List),
     (''GET'', api [Lit ''admin'', Lit ''sessions''], EP_List_Admin),
     (''POST'', api [Lit ''sessions'', Lit ''acquire''], EP_Acquire),
     (''POST'', of_session [Lit ''release''], EP_Release),
     (''GET'', of_session [], EP_Info),
     (''DELETE'', of_session [], EP_Close),
     (''POST'', of_session [Lit ''commands''], EP_Execute),
     (''POST'', of_session [Lit ''verify_chunk''], EP_Verify_Chunk),
     (''PUT'', of_session [Lit ''document''], EP_Load),
     (''GET'', of_session [Lit ''last_report''], EP_Last_Report),
     (''POST'', of_session [Lit ''diagnostic''], EP_Diagnostic),
     (''GET'', of_session [Lit ''state''], EP_State),
     (''GET'', of_session [Lit ''subgoals''], EP_Subgoals),
     (''GET'', of_session [Lit ''facts'', Lit ''local''], EP_Local_Facts),
     (''GET'', of_session [Lit ''facts'', Lit ''global''], EP_Global_Facts),
     (''GET'', of_session [Lit ''command_at_line''], EP_Command_At),
     (''GET'', of_session [Lit ''goals''], EP_Goals),
     (''GET'', of_session [Lit ''hover''], EP_Hover),
     (''GET'', of_session [Lit ''definition''], EP_Definition),
     (''POST'', of_session [Lit ''sledgehammer_at''], EP_Sledgehammer_At),
     (''GET'', of_session [Lit ''source''], EP_Source),
     (''POST'', of_session [Lit ''checkpoints''], EP_Save),
     (''POST'', of_session [Lit ''checkpoints'', Seg, Lit ''restore''], EP_Restore),
     (''POST'', of_session [Lit ''rollback''], EP_Rollback),
     (''POST'', of_session [Lit ''sledgehammer''], EP_Sledgehammer),
     (''POST'', of_session [Lit ''enter_theory'', Seg], EP_Enter),
     (''GET'', of_session [Lit ''history''], EP_History),
     (''POST'', api [Lit ''sessions'', Lit ''bigstep''], EP_Big_Step),
     (''GET'', of_session [Lit ''stats''], EP_Stats),
     (''POST'', api [Lit ''heaps'', Lit ''build''], EP_Heap_Build),
     (''GET'', api [Lit ''heaps''], EP_Heaps),
     (''GET'', api [Lit ''heaps'', Lit ''available''], EP_Heaps_Available),
     (''POST'', api [Lit ''parse_theory_header''], EP_Parse_Header),
     (''GET'', api [Lit ''heaps'', Seg, Rest], EP_Manifest),
     (''DELETE'', api [Lit ''heaps'', Lit ''images'', Seg], EP_Delete_Image),
     (''DELETE'', api [Lit ''heaps'', Seg, Rest], EP_Delete_Heap),
     (''GET'', api [Lit ''heap_groups''], EP_Heap_Groups),
     (''DELETE'', api [Lit ''heap_groups'', Seg], EP_Delete_Group)]"

datatype routed = Found endpoint "pystr list" | Other_Methods | No_Route

text \<open>The first route with the method and the path; 405 when the path has routes for other methods only.\<close>

fun route_in :: "(pystr \<times> piece list \<times> endpoint) list \<Rightarrow> pystr \<Rightarrow> pystr list \<Rightarrow> routed" where
  "route_in [] m segs = No_Route"
| "route_in ((m', ps, ep) # rs) m segs =
     (case match_path ps segs of
        Some args \<Rightarrow> if m' = m then Found ep args
                     else (case route_in rs m segs of No_Route \<Rightarrow> Other_Methods | r \<Rightarrow> r)
      | None \<Rightarrow> route_in rs m segs)"

section \<open>Receiving a request\<close>

record http_request =
  hr_method :: pystr
  hr_url :: pystr
  hr_body :: "json option"
  hr_lease :: "pystr option"
  hr_timeout :: real

definition query_of :: "stack \<Rightarrow> pystr \<Rightarrow> (pystr \<times> pystr) list" where
  "query_of w q = map (\<lambda>kv. (unquote w (before (CHR ''='') kv), unquote w (drop (Suc (length (before (CHR ''='') kv))) kv)))
     (split_on (CHR ''&'') q)"

definition query_int :: "stack \<Rightarrow> (pystr \<times> pystr) list \<Rightarrow> pystr \<Rightarrow> int option \<Rightarrow> int option" where
  "query_int w q name dflt = (case map_of q name of None \<Rightarrow> dflt | Some s \<Rightarrow> read_int w s)"

datatype request =
    Ask endpoint "pystr list"
  | Ask_Create session_request
  | Ask_Acquire session_request bool
  | Ask_Release pystr
  | Ask_Close pystr
  | On_Session route pystr
  | Ask_Big_Step pystr pystr "pystr list" "pystr option" real
  | Ask_Build pystr pystr "pystr option"
  | Ask_Heaps "pystr option"
  | Ask_Parse pystr
  | Ask_Delete_Image pystr "pystr option"
  | No_Time_Limit endpoint
  | Refused nat

definition requested_session :: "(pystr \<times> json) list \<Rightarrow> session_request" where
  "requested_session v = \<lparr>sr_theories = as_strs (field_of v ''theories''), sr_field = as_opt_str (field_of v ''field''),
     sr_label = as_opt_str (field_of v ''label''), sr_group = as_opt_str (field_of v ''task_group''),
     sr_heap = as_opt_str (field_of v ''heap_session''), sr_project = as_opt_str (field_of v ''project'')\<rparr>"

definition with_body :: "stack \<Rightarrow> model \<Rightarrow> json option \<Rightarrow> ((pystr \<times> json) list \<Rightarrow> request) \<Rightarrow> request" where
  "with_body w m body f = (case check_body w m body of None \<Rightarrow> Refused 422 | Some v \<Rightarrow> f v)"

definition timed :: "endpoint \<Rightarrow> (pystr \<times> json) list \<Rightarrow> (real \<Rightarrow> request) \<Rightarrow> request" where
  "timed ep v f = (case as_time (field_of v ''timeout'') of None \<Rightarrow> No_Time_Limit ep | Some t \<Rightarrow> f t)"

definition with_int :: "int option \<Rightarrow> (int \<Rightarrow> request) \<Rightarrow> request" where
  "with_int n f = (case n of None \<Rightarrow> Refused 422 | Some k \<Rightarrow> f k)"

text \<open>The parameters of an endpoint under \<open>/sessions/{session_id}\<close>, from the rest of the path, the query and the body.\<close>

fun session_params :: "stack \<Rightarrow> endpoint \<Rightarrow> pystr \<Rightarrow> pystr list \<Rightarrow> (pystr \<times> pystr) list \<Rightarrow> json option \<Rightarrow> request" where
  "session_params w EP_Release sid extra q body = Ask_Release sid"
| "session_params w EP_Info sid extra q body = On_Session Info sid"
| "session_params w EP_Close sid extra q body = Ask_Close sid"
| "session_params w EP_Execute sid extra q body =
     with_body w (CommandRequest w) body (\<lambda>v. timed EP_Execute v (\<lambda>t.
       On_Session (Execute (as_str (field_of v ''command'')) t) sid))"
| "session_params w EP_Verify_Chunk sid extra q body =
     with_body w (ChunkVerifyRequest w) body (\<lambda>v. timed EP_Verify_Chunk v (\<lambda>t.
       On_Session (Verify_Chunk (as_str (field_of v ''chunk'')) t) sid))"
| "session_params w EP_Load sid extra q body =
     with_body w (DocumentLoadRequest w) body (\<lambda>v. timed EP_Load v (\<lambda>t.
       On_Session (Load_Document (as_str (field_of v ''text'')) (as_opt_str (field_of v ''thy_name''))
         (as_strs (field_of v ''imports'')) t (as_bool (field_of v ''report''))) sid))"
| "session_params w EP_Last_Report sid extra q body = On_Session Last_Report sid"
| "session_params w EP_Diagnostic sid extra q body =
     with_body w (DiagnosticRequest w) body (\<lambda>v. timed EP_Diagnostic v (\<lambda>t.
       On_Session (Diagnostic (as_str (field_of v ''command'')) t) sid))"
| "session_params w EP_State sid extra q body = On_Session Proof_State sid"
| "session_params w EP_Subgoals sid extra q body = On_Session Subgoals sid"
| "session_params w EP_Local_Facts sid extra q body = On_Session Local_Facts sid"
| "session_params w EP_Global_Facts sid extra q body =
     with_int (query_int w q ''limit'' (Some 100)) (\<lambda>n. On_Session (Global_Facts n) sid)"
| "session_params w EP_Command_At sid extra q body =
     with_int (query_int w q ''line'' None) (\<lambda>l. On_Session (Command_At l) sid)"
| "session_params w EP_Goals sid extra q body =
     with_int (query_int w q ''line'' None) (\<lambda>l. On_Session (Goals_At l) sid)"
| "session_params w EP_Hover sid extra q body =
     with_int (query_int w q ''line'' None) (\<lambda>l. with_int (query_int w q ''col'' None) (\<lambda>c. On_Session (Hover_At l c) sid))"
| "session_params w EP_Definition sid extra q body =
     with_int (query_int w q ''line'' None) (\<lambda>l. with_int (query_int w q ''col'' None) (\<lambda>c. On_Session (Definition_At l c) sid))"
| "session_params w EP_Sledgehammer_At sid extra q body =
     with_body w SledgehammerAtRequest body (\<lambda>v. On_Session (Sledgehammer_At (as_int (field_of v ''line''))
       (as_int (field_of v ''subgoal'')) (as_int (field_of v ''timeout_s''))) sid)"
| "session_params w EP_Source sid extra q body = On_Session Source sid"
| "session_params w EP_Save sid extra q body = On_Session Save_Checkpoint sid"
| "session_params w EP_Restore sid extra q body =
     with_int (case extra of [] \<Rightarrow> None | i # _ \<Rightarrow> read_int w i) (\<lambda>i. On_Session (Restore_Checkpoint i) sid)"
| "session_params w EP_Rollback sid extra q body = On_Session Rollback sid"
| "session_params w EP_Sledgehammer sid extra q body =
     with_body w SledgehammerRequest body (\<lambda>v. On_Session (Sledgehammer (as_int (field_of v ''timeout_s''))) sid)"
| "session_params w EP_Enter sid extra q body =
     (case extra of [] \<Rightarrow> Refused 422 | name # _ \<Rightarrow>
        if body = None \<or> body = Some JNull then On_Session (Enter_Theory name None) sid
        else with_body w EnterTheoryRequest body (\<lambda>v. On_Session (Enter_Theory name (as_strs (field_of v ''imports''))) sid))"
| "session_params w EP_History sid extra q body =
     with_int (query_int w q ''limit'' (Some 50)) (\<lambda>n. On_Session (History n) sid)"
| "session_params w EP_Stats sid extra q body = On_Session Stats sid"
| "session_params w ep sid extra q body = Ask ep (sid # extra)"

fun endpoint_params :: "stack \<Rightarrow> endpoint \<Rightarrow> pystr list \<Rightarrow> (pystr \<times> pystr) list \<Rightarrow> json option \<Rightarrow> request" where
  "endpoint_params w EP_Create args q body = with_body w SessionCreateRequest body (\<lambda>v. Ask_Create (requested_session v))"
| "endpoint_params w EP_Acquire args q body =
     with_body w SessionAcquireRequest body (\<lambda>v. Ask_Acquire (requested_session v) (as_bool (field_of v ''reuse_dirty'')))"
| "endpoint_params w EP_Big_Step args q body =
     with_body w (BigStepTheoryRequest w) body (\<lambda>v. timed EP_Big_Step v (\<lambda>t.
       Ask_Big_Step (as_str (field_of v ''theory_name'')) (as_str (field_of v ''theory''))
         (case as_strs (field_of v ''dependencies'') of None \<Rightarrow> [] | Some ds \<Rightarrow> ds) (as_opt_str (field_of v ''field'')) t))"
| "endpoint_params w EP_Heap_Build args q body =
     with_body w HeapBuildRequest body (\<lambda>v. Ask_Build (as_str (field_of v ''task_group'')) (as_str (field_of v ''project''))
       (as_opt_str (field_of v ''session_name'')))"
| "endpoint_params w EP_Heaps args q body = Ask_Heaps (map_of q ''task_group'')"
| "endpoint_params w EP_Parse_Header args q body =
     with_body w ParseTheoryHeaderRequest body (\<lambda>v. Ask_Parse (as_str (field_of v ''text'')))"
| "endpoint_params w EP_Delete_Image args q body = Ask_Delete_Image (join ''/'' args) (map_of q ''platform'')"
| "endpoint_params w ep args q body =
     (case args of [] \<Rightarrow> Ask ep [] | sid # extra \<Rightarrow> session_params w ep sid extra q body)"

definition receive :: "stack \<Rightarrow> http_request \<Rightarrow> request" where
  "receive w rq =
     (let path = before (CHR ''?'') (hr_url rq);
          q = query_of w (drop (Suc (length path)) (hr_url rq)) in
      case route_in ROUTES (hr_method rq) (split_on (CHR ''/'') (unquote w path)) of
        No_Route \<Rightarrow> Refused 404
      | Other_Methods \<Rightarrow> Refused 405
      | Found ep args \<Rightarrow> endpoint_params w ep args q (hr_body rq))"

end
