(* ===== verification/Http_Client.thy ===== *)
theory Http_Client
  imports Http_Routes
begin

text \<open>
  The asynchronous client of the server (\<open>client/async_client.py\<close>): each method as the request it sends, the reading
  of the answer, and the rendering of a report. httpx is in the parameter \<open>stack\<close>; a connection error is an exception
  of the transport and not modelled.
\<close>

section \<open>The methods\<close>

text \<open>On one session, under its lease.\<close>

datatype session_call =
    Call_Close
  | Call_Release
  | Call_Enter_Theory pystr "pystr list option"
  | Call_Execute pystr "real option"
  | Call_Diagnostic pystr "real option"
  | Call_Verify_Chunk pystr "real option"
  | Call_Last_Report
  | Call_Load pystr "pystr option" "pystr list option" "real option" bool
  | Call_Sledgehammer int
  | Call_Proof_State
  | Call_Subgoals
  | Call_Source
  | Call_Local_Facts
  | Call_Global_Facts int
  | Call_Command_At int
  | Call_Goals_At int
  | Call_Hover_At int int
  | Call_Definition_At int int
  | Call_Sledgehammer_At int int int
  | Call_Save_Checkpoint
  | Call_Restore_Checkpoint int
  | Call_Rollback
  | Call_History int
  | Call_Stats

text \<open>On the server.\<close>

datatype server_call =
    Call_Health
  | Call_Create "pystr list option" "pystr option" "pystr option" "pystr option" "pystr option" "pystr option"
  | Call_Acquire "pystr list option" "pystr option" bool "pystr option" "pystr option" "pystr option" "pystr option"
  | Call_Heap_Build pystr pystr "pystr option"
  | Call_List_Heaps "pystr option"
  | Call_List_Available
  | Call_Parse_Header pystr
  | Call_Get_Heap pystr pystr
  | Call_Delete_Heap pystr pystr
  | Call_Heap_Groups
  | Call_Delete_Group pystr
  | Call_Big_Step pystr pystr "pystr option" "pystr list option" real
  | Call_List_Sessions

definition BASE_URL :: pystr where "BASE_URL = ''/api/v1/sessions''"

definition HEAPS_URL :: pystr where "HEAPS_URL = ''/api/v1/heaps''"

definition HEAP_GROUPS_URL :: pystr where "HEAP_GROUPS_URL = ''/api/v1/heap_groups''"

definition session_url :: "pystr \<Rightarrow> pystr \<Rightarrow> pystr" where
  "session_url sid rest = BASE_URL @ ''/'' @ sid @ rest"

definition lease_headers :: "pystr option \<Rightarrow> pystr option" where
  "lease_headers lid = (if truthy lid then lid else None)"

text \<open>\<open>_request\<close>, with the client's own timeout.\<close>

definition send :: "real \<Rightarrow> pystr \<Rightarrow> pystr \<Rightarrow> json option \<Rightarrow> pystr option \<Rightarrow> real option \<Rightarrow> http_request" where
  "send own m url body lid timeout =
     \<lparr>hr_method = m, hr_url = url, hr_body = body, hr_lease = lid,
      hr_timeout = (case timeout of None \<Rightarrow> own | Some t \<Rightarrow> t)\<rparr>"

definition budget :: "real \<Rightarrow> real option \<Rightarrow> real" where
  "budget own timeout = (case timeout of None \<Rightarrow> own | Some t \<Rightarrow> t)"

definition json_strs :: "pystr list \<Rightarrow> json" where
  "json_strs xs = JList (map JStr xs)"

definition json_opt :: "('a \<Rightarrow> json) \<Rightarrow> 'a option \<Rightarrow> json" where
  "json_opt f x = (case x of None \<Rightarrow> JNull | Some v \<Rightarrow> f v)"

text \<open>\<open>if x is not None: payload[key] = x\<close>.\<close>

definition given :: "pystr \<Rightarrow> ('a \<Rightarrow> json) \<Rightarrow> 'a option \<Rightarrow> (pystr \<times> json) list" where
  "given key f x = (case x of None \<Rightarrow> [] | Some v \<Rightarrow> [(key, f v)])"

definition line_query :: "pystr \<Rightarrow> int \<Rightarrow> pystr" where
  "line_query what line = what @ ''?line='' @ show_int line"

subsection \<open>One definition per method: the request it sends\<close>

definition cl_close_session :: "real \<Rightarrow> pystr \<Rightarrow> pystr option \<Rightarrow> http_request" where
  "cl_close_session own sid lid =
    send own ''DELETE'' (session_url sid []) None (lease_headers lid) None"

definition cl_release_session :: "real \<Rightarrow> pystr \<Rightarrow> pystr option \<Rightarrow> http_request" where
  "cl_release_session own sid lid =
    send own ''POST'' (session_url sid ''/release'') None (lease_headers lid) None"

definition cl_enter_theory :: "real \<Rightarrow> pystr \<Rightarrow> pystr option \<Rightarrow> pystr \<Rightarrow> pystr list option \<Rightarrow> http_request" where
  "cl_enter_theory own sid lid name imports =
    send own ''POST'' (session_url sid (''/enter_theory/'' @ name)) (map_option (\<lambda>xs. JObj [(''imports'',
      json_strs xs)]) imports) (lease_headers lid) None"

definition cl_execute_command :: "real \<Rightarrow> pystr \<Rightarrow> pystr option \<Rightarrow> pystr \<Rightarrow> real option \<Rightarrow> http_request" where
  "cl_execute_command own sid lid command timeout =
    send own ''POST'' (session_url sid ''/commands'') (Some (JObj [(''command'', JStr command), (''timeout'', JFloat
      (budget own timeout))])) (lease_headers lid) (Some (budget own timeout + 30))"

definition cl_diagnostic :: "real \<Rightarrow> pystr \<Rightarrow> pystr option \<Rightarrow> pystr \<Rightarrow> real option \<Rightarrow> http_request" where
  "cl_diagnostic own sid lid command timeout =
    send own ''POST'' (session_url sid ''/diagnostic'') (Some (JObj [(''command'', JStr command), (''timeout'', JFloat
      (budget own timeout))])) (lease_headers lid) (Some (budget own timeout + 30))"

definition cl_verify_chunk :: "real \<Rightarrow> pystr \<Rightarrow> pystr option \<Rightarrow> pystr \<Rightarrow> real option \<Rightarrow> http_request" where
  "cl_verify_chunk own sid lid chunk timeout =
    send own ''POST'' (session_url sid ''/verify_chunk'') (Some (JObj [(''chunk'', JStr chunk), (''timeout'', JFloat
      (budget own timeout))])) (lease_headers lid) (Some (budget own timeout + 60))"

definition cl_get_last_report :: "real \<Rightarrow> pystr \<Rightarrow> pystr option \<Rightarrow> http_request" where
  "cl_get_last_report own sid lid =
    send own ''GET'' (session_url sid ''/last_report'') None (lease_headers lid) None"

definition cl_load_document :: "real \<Rightarrow> pystr \<Rightarrow> pystr option \<Rightarrow> pystr \<Rightarrow> pystr option \<Rightarrow> pystr list option \<Rightarrow> real option \<Rightarrow> bool \<Rightarrow> http_request" where
  "cl_load_document own sid lid txt thy_name imports timeout report =
    send own ''PUT'' (session_url sid ''/document'') (Some (JObj [(''text'', JStr txt), (''thy_name'', json_opt JStr
      thy_name), (''imports'', json_opt json_strs imports), (''timeout'', JFloat (budget own timeout)), (''report'',
      JBool report)])) (lease_headers lid) (Some (budget own timeout + 60))"

definition cl_sledgehammer :: "real \<Rightarrow> pystr \<Rightarrow> pystr option \<Rightarrow> int \<Rightarrow> http_request" where
  "cl_sledgehammer own sid lid timeout_s =
    send own ''POST'' (session_url sid ''/sledgehammer'') (Some (JObj [(''timeout_s'', JInt timeout_s)]))
      (lease_headers lid) (Some (of_int timeout_s + 120))"

definition cl_get_proof_state :: "real \<Rightarrow> pystr \<Rightarrow> pystr option \<Rightarrow> http_request" where
  "cl_get_proof_state own sid lid =
    send own ''GET'' (session_url sid ''/state'') None (lease_headers lid) None"

definition cl_get_subgoals :: "real \<Rightarrow> pystr \<Rightarrow> pystr option \<Rightarrow> http_request" where
  "cl_get_subgoals own sid lid =
    send own ''GET'' (session_url sid ''/subgoals'') None (lease_headers lid) None"

definition cl_get_source :: "real \<Rightarrow> pystr \<Rightarrow> pystr option \<Rightarrow> http_request" where
  "cl_get_source own sid lid =
    send own ''GET'' (session_url sid ''/source'') None (lease_headers lid) None"

definition cl_get_local_facts :: "real \<Rightarrow> pystr \<Rightarrow> pystr option \<Rightarrow> http_request" where
  "cl_get_local_facts own sid lid =
    send own ''GET'' (session_url sid ''/facts/local'') None (lease_headers lid) None"

definition cl_get_global_facts :: "real \<Rightarrow> pystr \<Rightarrow> pystr option \<Rightarrow> int \<Rightarrow> http_request" where
  "cl_get_global_facts own sid lid limit =
    send own ''GET'' (session_url sid (''/facts/global?limit='' @ show_int limit)) None (lease_headers lid) None"

definition cl_command_at_line :: "real \<Rightarrow> pystr \<Rightarrow> pystr option \<Rightarrow> int \<Rightarrow> http_request" where
  "cl_command_at_line own sid lid line =
    send own ''GET'' (session_url sid (line_query ''/command_at_line'' line)) None (lease_headers lid) None"

definition cl_goals_at_line :: "real \<Rightarrow> pystr \<Rightarrow> pystr option \<Rightarrow> int \<Rightarrow> http_request" where
  "cl_goals_at_line own sid lid line =
    send own ''GET'' (session_url sid (line_query ''/goals'' line)) None (lease_headers lid) None"

definition cl_hover_at :: "real \<Rightarrow> pystr \<Rightarrow> pystr option \<Rightarrow> int \<Rightarrow> int \<Rightarrow> http_request" where
  "cl_hover_at own sid lid line col =
    send own ''GET'' (session_url sid (line_query ''/hover'' line @ ''&col='' @ show_int col)) None (lease_headers
      lid) None"

definition cl_definition_at :: "real \<Rightarrow> pystr \<Rightarrow> pystr option \<Rightarrow> int \<Rightarrow> int \<Rightarrow> http_request" where
  "cl_definition_at own sid lid line col =
    send own ''GET'' (session_url sid (line_query ''/definition'' line @ ''&col='' @ show_int col)) None
      (lease_headers lid) None"

definition cl_sledgehammer_at :: "real \<Rightarrow> pystr \<Rightarrow> pystr option \<Rightarrow> int \<Rightarrow> int \<Rightarrow> int \<Rightarrow> http_request" where
  "cl_sledgehammer_at own sid lid line subgoal timeout_s =
    send own ''POST'' (session_url sid ''/sledgehammer_at'') (Some (JObj [(''line'', JInt line), (''subgoal'', JInt
      subgoal), (''timeout_s'', JInt timeout_s)])) (lease_headers lid) None"

definition cl_save_checkpoint :: "real \<Rightarrow> pystr \<Rightarrow> pystr option \<Rightarrow> http_request" where
  "cl_save_checkpoint own sid lid =
    send own ''POST'' (session_url sid ''/checkpoints'') None (lease_headers lid) None"

definition cl_restore_checkpoint :: "real \<Rightarrow> pystr \<Rightarrow> pystr option \<Rightarrow> int \<Rightarrow> http_request" where
  "cl_restore_checkpoint own sid lid i =
    send own ''POST'' (session_url sid (''/checkpoints/'' @ show_int i @ ''/restore'')) None (lease_headers lid) None"

definition cl_rollback :: "real \<Rightarrow> pystr \<Rightarrow> pystr option \<Rightarrow> http_request" where
  "cl_rollback own sid lid =
    send own ''POST'' (session_url sid ''/rollback'') None (lease_headers lid) None"

definition cl_get_history :: "real \<Rightarrow> pystr \<Rightarrow> pystr option \<Rightarrow> int \<Rightarrow> http_request" where
  "cl_get_history own sid lid limit =
    send own ''GET'' (session_url sid (''/history?limit='' @ show_int limit)) None (lease_headers lid) None"

definition cl_get_stats :: "real \<Rightarrow> pystr \<Rightarrow> pystr option \<Rightarrow> http_request" where
  "cl_get_stats own sid lid =
    send own ''GET'' (session_url sid ''/stats'') None (lease_headers lid) None"

definition cl_health :: "real \<Rightarrow> http_request" where
  "cl_health own =
    send own ''GET'' ''/'' None None None"

definition cl_create_session :: "real \<Rightarrow> pystr list option \<Rightarrow> pystr option \<Rightarrow> pystr option \<Rightarrow> pystr option \<Rightarrow> pystr option \<Rightarrow> pystr option \<Rightarrow> http_request" where
  "cl_create_session own thys fld lbl grp heap project =
    send own ''POST'' BASE_URL (Some (JObj (given ''theories'' json_strs thys @ given ''field'' JStr fld @ given
      ''label'' JStr lbl @ given ''task_group'' JStr grp @ given ''heap_session'' JStr heap @ given ''project'' JStr
      project))) None None"

definition cl_acquire_session :: "real \<Rightarrow> pystr list option \<Rightarrow> pystr option \<Rightarrow> bool \<Rightarrow> pystr option \<Rightarrow> pystr option \<Rightarrow> pystr option \<Rightarrow> pystr option \<Rightarrow> http_request" where
  "cl_acquire_session own thys fld reuse_dirty grp heap project lbl =
    send own ''POST'' (BASE_URL @ ''/acquire'') (Some (JObj ([(''reuse_dirty'', JBool reuse_dirty)] @ given
      ''theories'' json_strs thys @ given ''field'' JStr fld @ given ''task_group'' JStr grp @ given ''heap_session''
      JStr heap @ given ''project'' JStr project @ given ''label'' JStr lbl))) None None"

definition cl_heap_build :: "real \<Rightarrow> pystr \<Rightarrow> pystr \<Rightarrow> pystr option \<Rightarrow> http_request" where
  "cl_heap_build own grp project name =
    send own ''POST'' (HEAPS_URL @ ''/build'') (Some (JObj ([(''task_group'', JStr grp), (''project'', JStr project)]
      @ given ''session_name'' JStr name))) None None"

definition cl_list_heaps :: "real \<Rightarrow> pystr option \<Rightarrow> http_request" where
  "cl_list_heaps own grp =
    send own ''GET'' (if truthy grp then HEAPS_URL @ ''?task_group='' @ or_else grp [] else HEAPS_URL) None None None"

definition cl_list_available_heaps :: "real \<Rightarrow> http_request" where
  "cl_list_available_heaps own =
    send own ''GET'' (HEAPS_URL @ ''/available'') None None None"

definition cl_parse_theory_header :: "real \<Rightarrow> pystr \<Rightarrow> http_request" where
  "cl_parse_theory_header own txt =
    send own ''POST'' (BASE_URL @ ''/parse_theory_header'') (Some (JObj [(''text'', JStr txt)])) None None"

definition cl_get_heap :: "real \<Rightarrow> pystr \<Rightarrow> pystr \<Rightarrow> http_request" where
  "cl_get_heap own grp project =
    send own ''GET'' (HEAPS_URL @ ''/'' @ grp @ ''/'' @ project) None None None"

definition cl_delete_heap :: "real \<Rightarrow> pystr \<Rightarrow> pystr \<Rightarrow> http_request" where
  "cl_delete_heap own grp project =
    send own ''DELETE'' (HEAPS_URL @ ''/'' @ grp @ ''/'' @ project) None None None"

definition cl_list_heap_groups :: "real \<Rightarrow> http_request" where
  "cl_list_heap_groups own =
    send own ''GET'' HEAP_GROUPS_URL None None None"

definition cl_delete_heap_group :: "real \<Rightarrow> pystr \<Rightarrow> http_request" where
  "cl_delete_heap_group own grp =
    send own ''DELETE'' (HEAP_GROUPS_URL @ ''/'' @ grp) None None None"

definition cl_verify_bigstep_text :: "real \<Rightarrow> pystr \<Rightarrow> pystr \<Rightarrow> pystr option \<Rightarrow> pystr list option \<Rightarrow> real \<Rightarrow> http_request" where
  "cl_verify_bigstep_text own name txt fld deps timeout =
    send own ''POST'' (BASE_URL @ ''/bigstep'') (Some (JObj ([(''theory_name'', JStr name), (''field'', json_opt JStr
      fld), (''theory'', JStr txt), (''timeout'', JFloat timeout)] @ (if truthy deps then [(''dependencies'',
      json_strs (or_else deps []))] else []))) ) None (Some timeout)"

definition cl_list_sessions :: "real \<Rightarrow> http_request" where
  "cl_list_sessions own =
    send own ''GET'' BASE_URL None None None"

lemmas client_methods [simp] =
  cl_close_session_def cl_release_session_def cl_enter_theory_def cl_execute_command_def cl_diagnostic_def
  cl_verify_chunk_def cl_get_last_report_def cl_load_document_def cl_sledgehammer_def cl_get_proof_state_def
  cl_get_subgoals_def cl_get_source_def cl_get_local_facts_def cl_get_global_facts_def cl_command_at_line_def
  cl_goals_at_line_def cl_hover_at_def cl_definition_at_def cl_sledgehammer_at_def cl_save_checkpoint_def
  cl_restore_checkpoint_def cl_rollback_def cl_get_history_def cl_get_stats_def cl_health_def
  cl_create_session_def cl_acquire_session_def cl_heap_build_def cl_list_heaps_def cl_list_available_heaps_def
  cl_parse_theory_header_def cl_get_heap_def cl_delete_heap_def cl_list_heap_groups_def cl_delete_heap_group_def
  cl_verify_bigstep_text_def cl_list_sessions_def

subsection \<open>The method behind a call\<close>

fun session_request_for :: "real \<Rightarrow> pystr \<Rightarrow> pystr option \<Rightarrow> session_call \<Rightarrow> http_request" where
  "session_request_for own sid lid Call_Close = cl_close_session own sid lid"
| "session_request_for own sid lid Call_Release = cl_release_session own sid lid"
| "session_request_for own sid lid (Call_Enter_Theory name imports) = cl_enter_theory own sid lid name imports"
| "session_request_for own sid lid (Call_Execute command timeout) = cl_execute_command own sid lid command timeout"
| "session_request_for own sid lid (Call_Diagnostic command timeout) = cl_diagnostic own sid lid command timeout"
| "session_request_for own sid lid (Call_Verify_Chunk chunk timeout) = cl_verify_chunk own sid lid chunk timeout"
| "session_request_for own sid lid Call_Last_Report = cl_get_last_report own sid lid"
| "session_request_for own sid lid (Call_Load txt thy_name imports timeout report) = cl_load_document own sid lid txt thy_name imports timeout report"
| "session_request_for own sid lid (Call_Sledgehammer timeout_s) = cl_sledgehammer own sid lid timeout_s"
| "session_request_for own sid lid Call_Proof_State = cl_get_proof_state own sid lid"
| "session_request_for own sid lid Call_Subgoals = cl_get_subgoals own sid lid"
| "session_request_for own sid lid Call_Source = cl_get_source own sid lid"
| "session_request_for own sid lid Call_Local_Facts = cl_get_local_facts own sid lid"
| "session_request_for own sid lid (Call_Global_Facts limit) = cl_get_global_facts own sid lid limit"
| "session_request_for own sid lid (Call_Command_At line) = cl_command_at_line own sid lid line"
| "session_request_for own sid lid (Call_Goals_At line) = cl_goals_at_line own sid lid line"
| "session_request_for own sid lid (Call_Hover_At line col) = cl_hover_at own sid lid line col"
| "session_request_for own sid lid (Call_Definition_At line col) = cl_definition_at own sid lid line col"
| "session_request_for own sid lid (Call_Sledgehammer_At line subgoal timeout_s) = cl_sledgehammer_at own sid lid line subgoal timeout_s"
| "session_request_for own sid lid Call_Save_Checkpoint = cl_save_checkpoint own sid lid"
| "session_request_for own sid lid (Call_Restore_Checkpoint i) = cl_restore_checkpoint own sid lid i"
| "session_request_for own sid lid Call_Rollback = cl_rollback own sid lid"
| "session_request_for own sid lid (Call_History limit) = cl_get_history own sid lid limit"
| "session_request_for own sid lid Call_Stats = cl_get_stats own sid lid"

fun server_request_for :: "real \<Rightarrow> server_call \<Rightarrow> http_request" where
  "server_request_for own Call_Health = cl_health own"
| "server_request_for own (Call_Create thys fld lbl grp heap project) = cl_create_session own thys fld lbl grp heap project"
| "server_request_for own (Call_Acquire thys fld reuse_dirty grp heap project lbl) = cl_acquire_session own thys fld reuse_dirty grp heap project lbl"
| "server_request_for own (Call_Heap_Build grp project name) = cl_heap_build own grp project name"
| "server_request_for own (Call_List_Heaps grp) = cl_list_heaps own grp"
| "server_request_for own Call_List_Available = cl_list_available_heaps own"
| "server_request_for own (Call_Parse_Header txt) = cl_parse_theory_header own txt"
| "server_request_for own (Call_Get_Heap grp project) = cl_get_heap own grp project"
| "server_request_for own (Call_Delete_Heap grp project) = cl_delete_heap own grp project"
| "server_request_for own Call_Heap_Groups = cl_list_heap_groups own"
| "server_request_for own (Call_Delete_Group grp) = cl_delete_heap_group own grp"
| "server_request_for own (Call_Big_Step name txt fld deps timeout) = cl_verify_bigstep_text own name txt fld deps timeout"
| "server_request_for own Call_List_Sessions = cl_list_sessions own"

definition transmit :: "stack \<Rightarrow> http_request \<Rightarrow> http_request" where
  "transmit w rq = rq\<lparr>hr_url := quote_url w (hr_url rq)\<rparr>"

section \<open>The answers\<close>

record client_response =
  rs_status :: nat
  rs_content :: "json option"

definition raise_for_status :: "client_response \<Rightarrow> exn + client_response" where
  "raise_for_status r = (if 200 \<le> rs_status r \<and> rs_status r < 300 then Inr r else Inl (HTTPError (rs_status r) []))"

definition read_json :: "client_response \<Rightarrow> exn + json" where
  "read_json r = (case rs_content r of None \<Rightarrow> Inl (Exn C_ValueError ''Expecting value'') | Some v \<Rightarrow> Inr v)"

text \<open>Closing, releasing and entering allow an empty answer; a big step hands the response on.\<close>

definition allows_empty :: "session_call \<Rightarrow> bool" where
  "allows_empty c = (case c of Call_Close \<Rightarrow> True | Call_Release \<Rightarrow> True | Call_Enter_Theory _ _ \<Rightarrow> True | _ \<Rightarrow> False)"

definition read_answer :: "session_call \<Rightarrow> client_response \<Rightarrow> exn + json" where
  "read_answer c r = onOk (raise_for_status r) (\<lambda>r.
     if allows_empty c \<and> rs_content r = None then Inr (JObj []) else read_json r)"

text \<open>A whole method: the request over the network, then the answer.\<close>

definition call_session :: "stack \<Rightarrow> (http_request \<Rightarrow> client_response) \<Rightarrow> real \<Rightarrow> pystr \<Rightarrow> pystr option \<Rightarrow> session_call \<Rightarrow> exn + json" where
  "call_session w server own sid lid c = read_answer c (server (transmit w (session_request_for own sid lid c)))"

text \<open>\<open>verify_bigstep_file\<close>: the file's text, or no file, and the stem of its name.\<close>

definition verify_bigstep_file :: "real \<Rightarrow> pystr \<Rightarrow> pystr option \<Rightarrow> pystr \<Rightarrow> pystr option \<Rightarrow> real \<Rightarrow> exn + http_request" where
  "verify_bigstep_file own file_path src file_stem fld timeout =
     (case src of
        None \<Rightarrow> Inl (Exn C_FileNotFoundError (''Theory file '' @ file_path @ '' not found.''))
      | Some txt \<Rightarrow> Inr (server_request_for own
          (Call_Big_Step (or_else (extract_theory_name txt) file_stem) txt fld None timeout)))"

end
