(* ===== verification/Lsp_Heap_Tools.thy ===== *)
theory Lsp_Heap_Tools
  imports Lsp_Tools Http_Client
begin

text \<open>
  The two heap tools of the MCP server for editors (\<open>isabelle_build_heap\<close> and \<open>isabelle_heap_status\<close> of
  \<open>mcp_lsp_server/app.py\<close>), over the requests of the client. The network is a function from a request to a
  response or to an exception of the transport, and \<open>says\<close> is the message httpx gives a refused response.
\<close>

section \<open>The tools\<close>

record heap_link =
  hl_stack :: stack
  hl_server :: "http_request \<Rightarrow> exn + client_response"
  hl_timeout :: real
  says :: "nat \<Rightarrow> pystr"

definition call_server :: "heap_link \<Rightarrow> server_call \<Rightarrow> exn + client_response" where
  "call_server l c = hl_server l (transmit (hl_stack l) (server_request_for (hl_timeout l) c))"

definition read_server_json :: "heap_link \<Rightarrow> server_call \<Rightarrow> exn + json" where
  "read_server_json l c = onOk (call_server l c) (\<lambda>r. onOk (raise_for_status r) read_json)"

text \<open>The \<open>detail\<close> of a refused response; the message of the exception when the body has none to give.\<close>

definition refusal_detail :: "heap_link \<Rightarrow> client_response \<Rightarrow> json" where
  "refusal_detail l r = (case onOk (read_json r) (dict_get_or ''detail'' (JStr [])) of
     Inr d \<Rightarrow> d | Inl _ \<Rightarrow> JStr (says l (rs_status r)))"

definition build_error :: "json \<Rightarrow> json \<Rightarrow> json" where
  "build_error d s = JObj [(''error'', d), (''status_code'', s)]"

definition isabelle_build_heap :: "heap_link \<Rightarrow> pystr \<Rightarrow> pystr \<Rightarrow> pystr option \<Rightarrow> json" where
  "isabelle_build_heap l grp project name =
     (case call_server l (Call_Heap_Build grp project name) of
        Inl e \<Rightarrow> build_error (JStr (str_of e)) JNull
      | Inr r \<Rightarrow> (case raise_for_status r of
          Inl _ \<Rightarrow> build_error (refusal_detail l r) (JInt (int (rs_status r)))
        | Inr _ \<Rightarrow> (case read_json r of
            Inl e \<Rightarrow> build_error (JStr (str_of e)) JNull
          | Inr v \<Rightarrow> v)))"

text \<open>\<open>d[key] = v\<close>.\<close>

fun json_put :: "pystr \<Rightarrow> json \<Rightarrow> json \<Rightarrow> exn + json" where
  "json_put k v (JObj kvs) = Inr (JObj (od_set k v kvs))"
| "json_put k v _ = Inl (Exn C_TypeError ''object does not support item assignment'')"

definition available_heaps :: "heap_link \<Rightarrow> exn + json" where
  "available_heaps l = onOk (read_server_json l Call_List_Available) (dict_get_or ''heaps'' (JList []))"

text \<open>Also the first assignment is inside the handler, so a listing that is no dictionary raises in the second.\<close>

definition isabelle_heap_status :: "heap_link \<Rightarrow> pystr option \<Rightarrow> pystr option \<Rightarrow> exn + json" where
  "isabelle_heap_status l grp project =
     (case (project, grp) of
        (Some p, Some g) \<Rightarrow> read_server_json l (Call_Get_Heap g p)
      | _ \<Rightarrow> onOk (read_server_json l (Call_List_Heaps grp)) (\<lambda>listing.
          (case onOk (available_heaps l) (\<lambda>hs. json_put ''available_heaps'' hs listing) of
             Inr full \<Rightarrow> Inr full
           | Inl _ \<Rightarrow> json_put ''available_heaps'' JNull listing)))"

section \<open>Properties\<close>

text \<open>The server answers a build with the response of its exception handlers.\<close>

definition refuses :: "heap_link \<Rightarrow> server_call \<Rightarrow> exn \<Rightarrow> bool" where
  "refuses l c e = (call_server l c = Inr \<lparr>rs_status = status (handle_exception e),
     rs_content = Some (JObj [(''detail'', JStr (detail (handle_exception e)))])\<rparr>)"

lemma status_range: "status_of_class c \<in> {404, 403, 409, 422, 503, 500}"
  by (auto simp: status_of_class_def)

text \<open>A refused build tells why. When the heap pool refuses the build with one of its errors, or the session layer with one
  of its own, the tool answers with the message of that error and the status of its class, and never raises.\<close>

theorem build_refusal_reaches_tool:
  assumes "refuses l (Call_Heap_Build g p name) (Exn c m)" and "m \<noteq> []"
    and "isinstance (Exn c m) C_SessionError \<or> isinstance (Exn c m) C_HeapPoolError"
  shows "isabelle_build_heap l g p name
    = JObj [(''error'', JStr m), (''status_code'', JInt (int (status_of_class c)))]"
  using assms(1) status_range [of c] detail_handle_exception [OF assms(2,3)]
  by (auto simp: isabelle_build_heap_def refuses_def raise_for_status_def status_handle_exception build_error_def
      refusal_detail_def read_json_def dict_get_or_def onOk_def)

text \<open>A client that gives up waiting gets no status and, since httpx gives a read timeout an empty message, no text either:
  the answer does not say that the build may still be running.\<close>

theorem build_timeout_says_nothing:
  assumes "call_server l (Call_Heap_Build g p name) = Inl (Exn (C_Foreign ''ReadTimeout'') '''')"
  shows "isabelle_build_heap l g p name = JObj [(''error'', JStr ''''), (''status_code'', JNull)]"
  using assms by (simp add: isabelle_build_heap_def build_error_def)

text \<open>The status tool raises only when the listing (or the heap asked for) itself cannot be read: whatever happens to the
  second request, the entries of the listing are in the answer, and the images are those the server names or null.\<close>

theorem heap_status_keeps_listing:
  assumes "read_server_json l (Call_List_Heaps g) = Inr (JObj kvs)" and "p = None \<or> g = None"
  shows "\<exists>hs. isabelle_heap_status l g p = Inr (JObj hs)
    \<and> (\<forall>k. k \<noteq> ''available_heaps'' \<longrightarrow> od_get k hs = od_get k kvs)
    \<and> od_get ''available_heaps'' hs = Some (case available_heaps l of Inr v \<Rightarrow> v | Inl _ \<Rightarrow> JNull)"
proof -
  let ?v = "case available_heaps l of Inr v \<Rightarrow> v | Inl _ \<Rightarrow> JNull"
  have "isabelle_heap_status l g p = Inr (JObj (od_set ''available_heaps'' ?v kvs))"
    using assms by (cases p; cases g; cases "available_heaps l") (simp_all add: isabelle_heap_status_def onOk_def)
  then show ?thesis by (auto simp: od_get_set)
qed

section \<open>Witnesses\<close>

definition demo_quoting :: stack where
  "demo_quoting = \<lparr>quote_url = (\<lambda>u. u), unquote = (\<lambda>u. u), coerce = (\<lambda>_ v. Some v), read_int = (\<lambda>_. None),
     command_default = 30, bigstep_default = 300\<rparr>"

definition demo_heap_link :: "exn + client_response \<Rightarrow> heap_link" where
  "demo_heap_link r = \<lparr>hl_stack = demo_quoting, hl_server = (\<lambda>_. r), hl_timeout = 30, says = (\<lambda>_. [])\<rparr>"

theorem build_refusal_reaches_tool_witness:
  "isabelle_build_heap (demo_heap_link (Inr \<lparr>rs_status = 409,
      rs_content = Some (JObj [(''detail'', JStr ''building'')])\<rparr>)) ''g'' ''p'' None
   = JObj [(''error'', JStr ''building''), (''status_code'', JInt 409)]"
proof -
  let ?l = "demo_heap_link (Inr \<lparr>rs_status = 409, rs_content = Some (JObj [(''detail'', JStr ''building'')])\<rparr>)"
  have "refuses ?l (Call_Heap_Build ''g'' ''p'' None) (Exn C_HeapBuildInProgress ''building'')"
    by (simp add: refuses_def call_server_def demo_heap_link_def status_handle_exception detail_handle_exception
        status_of_class_def mro_def)
  from build_refusal_reaches_tool [OF this] show ?thesis by (simp add: mro_def status_of_class_def)
qed

theorem build_timeout_says_nothing_witness:
  "isabelle_build_heap (demo_heap_link (Inl (Exn (C_Foreign ''ReadTimeout'') ''''))) ''g'' ''p'' None
   = JObj [(''error'', JStr ''''), (''status_code'', JNull)]"
  by (rule build_timeout_says_nothing) (simp add: call_server_def demo_heap_link_def)

theorem heap_status_keeps_listing_witness:
  "isabelle_heap_status (demo_heap_link (Inr \<lparr>rs_status = 200, rs_content = Some (JObj [(''heaps'', JList [])])\<rparr>)) None None
   = Inr (JObj [(''heaps'', JList []), (''available_heaps'', JList [])])"
proof -
  let ?l = "demo_heap_link (Inr \<lparr>rs_status = 200, rs_content = Some (JObj [(''heaps'', JList [])])\<rparr>)"
  have "read_server_json ?l (Call_List_Heaps None) = Inr (JObj [(''heaps'', JList [])])"
    by (simp add: read_server_json_def call_server_def demo_heap_link_def raise_for_status_def read_json_def onOk_def)
  from heap_status_keeps_listing [OF this, of None]
  have "\<exists>hs. isabelle_heap_status ?l None None = Inr (JObj hs)" by auto
  then show ?thesis
    by (simp add: isabelle_heap_status_def available_heaps_def read_server_json_def call_server_def demo_heap_link_def
        raise_for_status_def read_json_def onOk_def dict_get_or_def od_set_def)
qed

end
