(* ===== verification/Theory_Splitter.thy ===== *)
theory Theory_Splitter
  imports Theory_Chunks Theory_Parsing Py_Effects "HOL-Library.Product_Lexorder"
begin

text \<open>
  The splitter of the evaluation scripts (\<open>evaluation/scripts/theory_splitter.py\<close>): header, body and end of a theory, its
  imports, and its commands, cut at lines that begin a command outside comments, strings and cartouches.

  The two quotation marks U+2039 and U+203A, which are not 8-bit characters, are the parameters \<open>marks\<close> of the lexer.
\<close>

section \<open>Header, body and end\<close>

definition HEADER_RE :: re where
  "HEADER_RE = seqs [word ''theory'', Lazy any_char, word ''begin'']"

definition END_RE :: re where
  "END_RE = seqs [WordBoundary, lit ''end'', Star (Chr is_space), TextEnd]"

definition IMPORTS_RE :: re where
  "IMPORTS_RE = seqs [word ''imports'', Grp 1 (Lazy any_char), word ''begin'']"

text \<open>The name in the header, or the stem of the file.\<close>

definition determine_theory_name :: "pystr \<Rightarrow> pystr \<Rightarrow> pystr" where
  "determine_theory_name file_stem txt = or_else (extract_theory_name txt) file_stem"

text \<open>\<open>s[:m.end()]\<close>, \<open>s[m.end():n.start()]\<close> and \<open>s[n.start():n.end()]\<close>, from how much text is left at each position.\<close>

definition split_theory :: "pystr \<Rightarrow> exn + pystr \<times> pystr \<times> pystr" where
  "split_theory txt =
     (let s = strip txt in
      case (search HEADER_RE s, search END_RE s) of
        (Some (a, b, g), Some (a', b', g')) \<Rightarrow>
          (let m = length s - length (snd b); n = length s - length (snd a'); k = length s - length (snd b') in
           Inr (strip (take m s) @ [NL], strip (drop m (take n s)), strip (drop n (take k s))))
      | _ \<Rightarrow> Inl (Exn C_ValueError ''Could not split theory into header/body/end''))"

definition split_imports :: "pystr \<Rightarrow> pystr list" where
  "split_imports txt =
     (case search IMPORTS_RE txt of
        None \<Rightarrow> [''Main'']
      | Some (a, b, g) \<Rightarrow>
          (let out = filter (\<lambda>t. t \<noteq> [] \<and> t \<notin> set NOISE)
                (map (\<lambda>t. strip_quotes (strip t)) (findall IMPORT_TOKEN_RE (or_else (group 1 g) []))) in
           if out = [] then [''Main''] else sorted_set out))"

section \<open>The lexer\<close>

record lex_state =
  comment_depth :: nat
  in_string :: bool
  cartouche_depth :: nat
  mark_depth :: nat

definition LexState :: lex_state where
  "LexState = \<lparr>comment_depth = 0, in_string = False, cartouche_depth = 0, mark_depth = 0\<rparr>"

definition clear :: "lex_state \<Rightarrow> bool" where
  "clear st = (comment_depth st = 0 \<and> \<not> in_string st \<and> cartouche_depth st = 0 \<and> mark_depth st = 0)"

abbreviation BS :: char where
  "BS \<equiv> CHR 0x5C"

abbreviation OPEN :: pystr where
  "OPEN \<equiv> BS # ''<open>''"

abbreviation CLOSE :: pystr where
  "CLOSE \<equiv> BS # ''<close>''"

text \<open>The characters before the position, the nearest first.\<close>

definition escaped_quote :: "pystr \<Rightarrow> bool" where
  "escaped_quote bef = odd (length (takeWhile (\<lambda>c. c = BS) bef))"

text \<open>One round of the loop: the new state and how many characters it takes.\<close>

definition lex_step :: "char \<times> char \<Rightarrow> lex_state \<Rightarrow> pystr \<Rightarrow> pystr \<Rightarrow> lex_state \<times> nat" where
  "lex_step marks st bef rest =
     (if comment_depth st > 0 then
        if startswith rest ''(*'' then (st\<lparr>comment_depth := comment_depth st + 1\<rparr>, 2)
        else if startswith rest ''*)'' then (st\<lparr>comment_depth := comment_depth st - 1\<rparr>, 2)
        else (st, 1)
      else if in_string st then
        (if hd rest = DQ \<and> \<not> escaped_quote bef then st\<lparr>in_string := False\<rparr> else st, 1)
      else if cartouche_depth st > 0 then
        if startswith rest OPEN then (st\<lparr>cartouche_depth := cartouche_depth st + 1\<rparr>, length OPEN)
        else if startswith rest CLOSE then (st\<lparr>cartouche_depth := cartouche_depth st - 1\<rparr>, length CLOSE)
        else (st, 1)
      else if mark_depth st > 0 then
        (if hd rest = fst marks then st\<lparr>mark_depth := mark_depth st + 1\<rparr>
         else if hd rest = snd marks then st\<lparr>mark_depth := mark_depth st - 1\<rparr> else st, 1)
      else if startswith rest ''(*'' then (st\<lparr>comment_depth := comment_depth st + 1\<rparr>, 2)
      else if startswith rest OPEN then (st\<lparr>cartouche_depth := cartouche_depth st + 1\<rparr>, length OPEN)
      else if hd rest = fst marks then (st\<lparr>mark_depth := mark_depth st + 1\<rparr>, 1)
      else if hd rest = DQ then (st\<lparr>in_string := True\<rparr>, 1)
      else (st, 1))"

lemma lex_step_moves: "snd (lex_step marks st bef rest) > 0"
  by (simp add: lex_step_def)

function lex_from :: "char \<times> char \<Rightarrow> lex_state \<Rightarrow> pystr \<Rightarrow> pystr \<Rightarrow> lex_state" where
  "lex_from marks st bef rest =
     (if rest = [] then st
      else let (st', k) = lex_step marks st bef rest in lex_from marks st' (rev (take k rest) @ bef) (drop k rest))"
  by pat_completeness auto

termination
  by (relation "measure (\<lambda>(marks, st, bef, rest). length rest)") (auto simp: lex_step_def split: if_splits)

declare lex_from.simps [simp del]

definition advance_lex_state :: "char \<times> char \<Rightarrow> lex_state \<Rightarrow> pystr \<Rightarrow> lex_state" where
  "advance_lex_state marks st txt = lex_from marks st [] txt"

section \<open>Commands\<close>

definition COMMAND_STARTERS :: "pystr list" where
  "COMMAND_STARTERS = sort_key (\<lambda>s. (- int (length s), s))
    [''chapter'', ''section'', ''subsection'', ''subsubsection'', ''subsubsubsection'', ''paragraph'',
     ''subparagraph'', ''text'', ''text_raw'', ''context'', ''locale'', ''interpretation'', ''sublocale'',
     ''experiment'', ''bundle'', ''unbundle'', ''include'', ''including'', ''notepad'', ''named_theorems'', ''lemma'',
     ''theorem'', ''corollary'', ''proposition'', ''schematic_goal'', ''definition'', ''abbreviation'', ''lemmas'',
     ''fun'', ''function'', ''primrec'', ''inductive'', ''inductive_set'', ''coinductive'', ''datatype'',
     ''codatatype'', ''record'', ''typedef'', ''class'', ''instantiation'', ''instance'', ''lift_definition'',
     ''termination'', ''consts'', ''axiomatization'', ''notation'', ''no_notation'', ''adhoc_overloading'',
     ''no_adhoc_overloading'', ''declare'', ''syntax'', ''no_syntax'', ''translations'', ''no_translations'',
     ''typed_print_translation'', ''print_translation'', ''parse_translation'', ''print_ast_translation'',
     ''parse_ast_translation'', ''hide_const'', ''hide_fact'', ''hide_type'', ''hide_class'', ''term'', ''typ'',
     ''thm'', ''prop'', ''value'', ''values'', ''print_statement'', ''find_theorems'', ''print_theorems'',
     ''print_record'', ''ML'', ''ML_file'', ''SML_export'', ''setup'', ''method_setup'', ''oracle'', ''proof'',
     ''qed'', ''by'', ''done'', ''oops'', ''sorry'', ''next'', ''fix'', ''assume'', ''presume'', ''case'', ''note'',
     ''let'', ''write'', ''have'', ''show'', ''thus'', ''hence'', ''obtain'', ''guess'', ''define'', ''then'',
     ''from'', ''with'', ''using'', ''unfolding'', ''supply'', ''moreover'', ''ultimately'', ''also'', ''finally'',
     ''apply'', ''apply_end'', ''subgoal'', ''defer'', ''prefer'', ''back'', ''end'']"

text \<open>The pattern of a keyword is the one of \<open>theory_chunks.py\<close>.\<close>

definition line_starter_keyword :: "pystr \<Rightarrow> pystr option" where
  "line_starter_keyword stripped =
     (if stripped \<in> set [''.'', ''..'', ''...''] then Some stripped
      else find (\<lambda>kw. match_start (keyword_re kw) stripped \<noteq> None) COMMAND_STARTERS)"

fun split_command_lines :: "char \<times> char \<Rightarrow> lex_state \<Rightarrow> pystr list \<Rightarrow> pystr list \<Rightarrow> pystr list" where
  "split_command_lines marks st current [] = flush current"
| "split_command_lines marks st current (raw_line # rest) =
     (let line = rstrip raw_line; stripped = strip line;
          starter = (if clear st \<and> stripped \<noteq> [] then line_starter_keyword stripped else None);
          st' = advance_lex_state marks (advance_lex_state marks st raw_line) [NL] in
      if current \<noteq> [] \<and> starter \<noteq> None
      then flush current @ split_command_lines marks st' [line] rest
      else split_command_lines marks st' (current @ [line]) rest)"

definition split_commands :: "char \<times> char \<Rightarrow> pystr \<Rightarrow> pystr list" where
  "split_commands marks body_text =
     (let t = strip (normalize_newlines body_text) in
      if t = [] then [] else split_command_lines marks LexState [] (split_on NL t))"

definition split_top_level_blocks :: "pystr \<Rightarrow> pystr list" where
  "split_top_level_blocks body_text =
     (let t = strip (normalize_newlines body_text) in
      if t = [] then [] else split_lines [] 0 (split_on NL t))"

section \<open>Lexing line by line\<close>

lemma startswith_before_line_end: "NL \<notin> set t \<Longrightarrow> startswith (u @ NL # v) t \<longleftrightarrow> startswith u t"
proof (induction t arbitrary: u)
  case (Cons c t)
  then show ?case by (cases u) (auto simp: startswith_def)
qed simp

lemma lex_step_context: "lex_step marks st (w @ NL # b) rest = lex_step marks st w rest"
proof -
  have "takeWhile (\<lambda>c. c = BS) (w @ NL # b) = takeWhile (\<lambda>c. c = BS) w" by (induction w) auto
  then show ?thesis by (simp add: lex_step_def escaped_quote_def)
qed

lemma lex_from_context: "lex_from marks st (w @ NL # b) rest = lex_from marks st w rest"
proof (induction "length rest" arbitrary: st w rest rule: less_induct)
  case less
  show ?case
  proof (cases "rest = []")
    case False
    obtain st' k where step: "lex_step marks st w rest = (st', k)" by fastforce
    then have "0 < k" using lex_step_moves [of marks st w rest] by simp
    then have "lex_from marks st' (rev (take k rest) @ w @ NL # b) (drop k rest) = lex_from marks st' (rev (take k rest) @ w) (drop k rest)"
      using less(1) [of "drop k rest" st' "rev (take k rest) @ w"] False by simp
    then show ?thesis
      using False step lex_step_context [of marks st w b rest] by (simp add: lex_from.simps [of marks st _ rest])
  qed (simp add: lex_from.simps)
qed

lemma lex_step_line:
  assumes "u \<noteq> []"
  shows "lex_step marks st bef (u @ NL # v) = lex_step marks st bef u"
proof -
  have "startswith (u @ NL # v) t \<longleftrightarrow> startswith u t" if "t \<in> {''(*'', ''*)'', OPEN, CLOSE}" for t
    using that startswith_before_line_end [of t u v] by auto
  then show ?thesis using assms by (simp add: lex_step_def)
qed

lemma lex_step_within: "u \<noteq> [] \<Longrightarrow> snd (lex_step marks st bef u) \<le> length u"
proof -
  assume "u \<noteq> []"
  then have "1 \<le> length u" by (simp add: Suc_le_eq)
  moreover have "startswith u t \<Longrightarrow> length t \<le> length u" for t by (auto simp: startswith_iff)
  from this [of "''(*''"] this [of "''*)''"] this [of OPEN] this [of CLOSE] calculation show ?thesis
    by (simp add: lex_step_def numeral_2_eq_2)
qed

text \<open>No token crosses the end of a line, and what stands before it does not matter after it.\<close>

lemma lex_line:
  "lex_from marks st bef (u @ NL # v) = lex_from marks (lex_from marks (lex_from marks st bef u) [] [NL]) [] v"
proof (induction "length u" arbitrary: st bef u rule: less_induct)
  case less
  show ?case
  proof (cases "u = []")
    case True
    have none: "\<not> startswith (NL # z) t" if "t \<in> {''(*'', ''*)'', OPEN, CLOSE}" for z t
      using that by (auto simp: startswith_def)
    have one: "lex_step marks st b (NL # z) = (fst (lex_step marks st [] [NL]), 1)" for b z
      using none by (simp add: lex_step_def)
    have "lex_from marks st bef (NL # v) = lex_from marks (fst (lex_step marks st [] [NL])) ([] @ NL # bef) v"
      using one [of bef v] by (simp add: lex_from.simps [of marks st bef "NL # v"])
    also have "\<dots> = lex_from marks (fst (lex_step marks st [] [NL])) [] v" by (rule lex_from_context)
    also have "fst (lex_step marks st [] [NL]) = lex_from marks st [] [NL]"
    proof -
      obtain a where "lex_step marks st [] [NL] = (a, Suc 0)" using one [of "[]" "[]"] by simp
      then show ?thesis by (simp add: lex_from.simps [of marks st "[]" "[NL]"] lex_from.simps [of marks a _ "[]"])
    qed
    finally show ?thesis using True by (simp add: lex_from.simps [of marks st bef "[]"])
  next
    case False
    obtain st' k where step: "lex_step marks st bef u = (st', k)" by fastforce
    then have k: "0 < k" "k \<le> length u"
      using lex_step_moves [of marks st bef u] lex_step_within [OF False, of marks st bef] by auto
    have "lex_from marks st bef (u @ NL # v) = lex_from marks st' (rev (take k u) @ bef) (drop k u @ NL # v)"
      using step lex_step_line [OF False] k by (simp add: lex_from.simps [of marks st bef "u @ NL # v"])
    also have "\<dots> = lex_from marks (lex_from marks (lex_from marks st' (rev (take k u) @ bef) (drop k u)) [] [NL]) [] v"
      using k False by (intro less) simp
    also have "lex_from marks st' (rev (take k u) @ bef) (drop k u) = lex_from marks st bef u"
      using step False by (simp add: lex_from.simps [of marks st bef u])
    finally show ?thesis .
  qed
qed

definition with_line_ends :: "pystr list \<Rightarrow> pystr" where
  "with_line_ends ls = concat (map (\<lambda>l. l @ [NL]) ls)"

abbreviation next_line :: "char \<times> char \<Rightarrow> lex_state \<Rightarrow> pystr \<Rightarrow> lex_state" where
  "next_line marks st l \<equiv> advance_lex_state marks (advance_lex_state marks st l) [NL]"

lemma lex_lines: "foldl (next_line marks) st ls = advance_lex_state marks st (with_line_ends ls)"
proof (induction ls arbitrary: st)
  case Nil
  then show ?case by (simp add: advance_lex_state_def with_line_ends_def lex_from.simps)
next
  case (Cons l ls)
  then show ?case using lex_line [of marks st "[]" l "with_line_ends ls"]
    by (simp add: advance_lex_state_def with_line_ends_def)
qed

section \<open>Where commands are cut\<close>

text \<open>Line \<open>i\<close> begins a command: a keyword at a place where the text before it, read as a whole, is outside comments,
  strings and cartouches.\<close>

definition begins_command :: "char \<times> char \<Rightarrow> pystr list \<Rightarrow> nat \<Rightarrow> bool" where
  "begins_command marks ls i \<longleftrightarrow>
     clear (advance_lex_state marks LexState (with_line_ends (take i ls)))
     \<and> strip (ls ! i) \<noteq> [] \<and> line_starter_keyword (strip (ls ! i)) \<noteq> None"

text \<open>The reference: neighbours stay together unless the second begins a command.\<close>

fun cut_at :: "(nat \<Rightarrow> bool) \<Rightarrow> nat \<Rightarrow> 'a list \<Rightarrow> 'a list list" where
  "cut_at P i [] = []"
| "cut_at P i (x # xs) =
     (case cut_at P (Suc i) xs of
        [] \<Rightarrow> [[x]]
      | g # gs \<Rightarrow> if P (Suc i) then [x] # g # gs else (x # g) # gs)"

lemma cut_at_ne: "xs \<noteq> [] \<Longrightarrow> cut_at P i xs \<noteq> []"
  by (cases xs) (auto split: list.splits)

lemma concat_cut_at: "concat (cut_at P i xs) = xs"
proof (induction xs arbitrary: i)
  case (Cons x xs)
  from Cons [of "Suc i"] show ?case by (auto split: list.splits)
qed simp

lemma split_command_lines_cut:
  assumes "cur \<noteq> []"
  shows "split_command_lines marks (foldl (next_line marks) LexState past) (map rstrip cur) rest =
    concat (map (\<lambda>g. flush (map rstrip g))
      (case cut_at (begins_command marks (past @ rest)) (length past) rest of
         [] \<Rightarrow> [cur]
       | g # gs \<Rightarrow> if begins_command marks (past @ rest) (length past) then cur # g # gs else (cur @ g) # gs))"
  using assms
proof (induction rest arbitrary: cur past)
  case Nil
  then show ?case by simp
next
  case (Cons x rest)
  let ?P = "begins_command marks (past @ x # rest)"
  have here: "?P (length past) \<longleftrightarrow> clear (foldl (next_line marks) LexState past) \<and> strip (rstrip x) \<noteq> []
      \<and> line_starter_keyword (strip (rstrip x)) \<noteq> None"
    by (simp add: begins_command_def lex_lines strip_rstrip)
  have state: "next_line marks (foldl (next_line marks) LexState past) x = foldl (next_line marks) LexState (past @ [x])"
    by simp
  show ?case
  proof (cases "?P (length past)")
    case True
    then have "split_command_lines marks (foldl (next_line marks) LexState past) (map rstrip cur) (x # rest)
        = flush (map rstrip cur) @ split_command_lines marks (foldl (next_line marks) LexState (past @ [x])) (map rstrip [x]) rest"
      using here Cons.prems by (simp add: Let_def)
    then show ?thesis using Cons.IH [of "[x]" "past @ [x]"] True by (simp split: list.splits)
  next
    case False
    then have "split_command_lines marks (foldl (next_line marks) LexState past) (map rstrip cur) (x # rest)
        = split_command_lines marks (foldl (next_line marks) LexState (past @ [x])) (map rstrip (cur @ [x])) rest"
      using here by (auto simp: Let_def)
    then show ?thesis using Cons.IH [of "cur @ [x]" "past @ [x]"] False by (simp split: list.splits)
  qed
qed

lemma content_flushed:
  assumes "\<And>l. l \<in> set (concat gs) \<Longrightarrow> NL \<notin> set l"
  shows "concat (map content (concat (map (\<lambda>g. flush (map rstrip g)) gs))) = filter (\<lambda>l. l \<noteq> []) (map strip (concat gs))"
  using assms
proof (induction gs)
  case (Cons g gs)
  have "concat (map content (flush (map rstrip g))) = filter (\<lambda>l. l \<noteq> []) (map strip (map rstrip g))"
    using Cons.prems set_rstrip by (intro content_flush) fastforce
  then show ?case using Cons by (simp add: comp_def)
qed simp

text \<open>Property C32: commands are cut where they begin. The commands of a text are its lines, without the blanks around
  them, cut exactly before each line that begins with a command keyword outside the comments, strings and cartouches of
  the whole text before it; and no line that is not blank is lost, repeated or moved.\<close>

theorem commands_cut_exactly:
  "let t = strip (normalize_newlines body_text) in
     split_commands marks body_text =
       filter (\<lambda>c. c \<noteq> []) (map (\<lambda>g. strip (join [NL] (map rstrip g)))
         (if t = [] then [] else cut_at (begins_command marks (split_on NL t)) 0 (split_on NL t)))
     \<and> concat (map content (split_commands marks body_text)) = content t"
proof -
  define t where t_def: "t = strip (normalize_newlines body_text)"
  have "split_commands marks body_text =
       filter (\<lambda>c. c \<noteq> []) (map (\<lambda>g. strip (join [NL] (map rstrip g)))
         (if t = [] then [] else cut_at (begins_command marks (split_on NL t)) 0 (split_on NL t)))
     \<and> concat (map content (split_commands marks body_text)) = content t"
  proof (cases "t = []")
    case True
    then show ?thesis using t_def by (simp add: split_commands_def)
  next
    case False
    obtain l ls where ls: "split_on NL t = l # ls" using split_on_not_Nil by (metis neq_Nil_conv)
    let ?gs = "cut_at (begins_command marks (split_on NL t)) 0 (split_on NL t)"
    have flushed: "concat (map (\<lambda>g. flush (map rstrip g)) gs) = filter (\<lambda>c. c \<noteq> []) (map (\<lambda>g. strip (join [NL] (map rstrip g))) gs)" for gs
      by (induction gs) (auto simp: flush_def Let_def)
    have "split_commands marks body_text = split_command_lines marks LexState [] (l # ls)"
      using False ls t_def by (simp add: split_commands_def)
    also have "\<dots> = split_command_lines marks (foldl (next_line marks) LexState [l]) (map rstrip [l]) ls"
      by (simp add: Let_def)
    also have "\<dots> = concat (map (\<lambda>g. flush (map rstrip g)) ?gs)"
      using split_command_lines_cut [of "[l]" marks "[l]" ls] ls by (simp split: list.splits)
    finally have cut: "split_commands marks body_text = concat (map (\<lambda>g. flush (map rstrip g)) ?gs)" .
    have lines: "NL \<notin> set x" if "x \<in> set (concat ?gs)" for x
      using that split_on_no_sep by (simp add: concat_cut_at)
    have "concat (map content (split_commands marks body_text)) = content t"
      unfolding cut using content_flushed [of ?gs] lines by (simp add: concat_cut_at content_def)
    then show ?thesis using cut flushed False by simp
  qed
  then show ?thesis unfolding t_def Let_def .
qed

end
