(* ===== verification/Eval_Stats.thy ===== *)
theory Eval_Stats
  imports Py_Effects
begin

text \<open>
  The statistics of the benchmark scripts (\<open>evaluation/scripts/eval_stats.py\<close>): means, medians, percentiles by linear
  interpolation, the reading of an execution time, the test for a warning, and previews. Numbers are exact real
  numbers; \<open>statistics.mean\<close> and \<open>statistics.median\<close> are written out.
\<close>

section \<open>Numbers\<close>

definition safe_mean :: "real list \<Rightarrow> real option" where
  "safe_mean values = (if values = [] then None else Some (sum_list values / real (length values)))"

definition safe_median :: "real list \<Rightarrow> real option" where
  "safe_median values = (let xs = sort values; n = length xs in
     if values = [] then None
     else if odd n then Some (xs ! (n div 2))
     else Some ((xs ! (n div 2 - 1) + xs ! (n div 2)) / 2))"

definition interpolate :: "real list \<Rightarrow> real \<Rightarrow> real" where
  "interpolate xs rank =
     (let lo = nat \<lfloor>rank\<rfloor>; hi = nat \<lceil>rank\<rceil> in
      if lo = hi then xs ! lo
      else (let weight = rank - real lo in xs ! lo * (1 - weight) + xs ! hi * weight))"

definition percentile :: "real list \<Rightarrow> real \<Rightarrow> real option" where
  "percentile values p =
     (if values = [] then None
      else if length values = 1 then Some (values ! 0)
      else if p \<le> 0 then Some (Min (set values))
      else if 100 \<le> p then Some (Max (set values))
      else Some (interpolate (sort values) (real (length values - 1) * (p / 100))))"

record metric_summary =
  ms_count :: nat
  ms_min :: "real option"
  ms_max :: "real option"
  ms_mean :: "real option"
  ms_median :: "real option"
  ms_p90 :: "real option"
  ms_p95 :: "real option"

definition summarize_metric :: "real list \<Rightarrow> metric_summary" where
  "summarize_metric values =
     (if values = [] then
        \<lparr>ms_count = 0, ms_min = None, ms_max = None, ms_mean = None, ms_median = None, ms_p90 = None, ms_p95 = None\<rparr>
      else \<lparr>ms_count = length values, ms_min = Some (Min (set values)), ms_max = Some (Max (set values)),
        ms_mean = safe_mean values, ms_median = safe_median values,
        ms_p90 = percentile values 90, ms_p95 = percentile values 95\<rparr>)"

section \<open>Answers of the server\<close>

text \<open>A truth value is an integer to Python.\<close>

fun normalize_execution_time :: "json \<Rightarrow> real option" where
  "normalize_execution_time (JBool b) = Some (if b then 1 else 0)"
| "normalize_execution_time (JInt n) = Some (real_of_int n)"
| "normalize_execution_time (JFloat x) = Some x"
| "normalize_execution_time _ = None"

definition text_is_warning :: "pystr \<Rightarrow> exn + bool" where
  "text_is_warning msg =
     (let stripped = strip msg in
      case splitlines stripped of
        [] \<Rightarrow> Inl (Exn (C_Foreign ''IndexError'') ''list index out of range'')
      | l # ls \<Rightarrow>
          (let first = lower (strip l); lowered = lower stripped in
           Inr (if startswith first ''warning'' \<or> startswith first ''ml warning'' then True
                else if contains lowered ''warning'' \<and> \<not> contains lowered ''error'' \<and> \<not> contains lowered ''failed'' then True
                else if \<not> contains lowered ''error'' then True
                else False)))"

definition is_warning_message :: "json \<Rightarrow> exn + bool" where
  "is_warning_message msg =
     (if \<not> py_bool msg then Inr False
      else case msg of JStr s \<Rightarrow> text_is_warning s
      | _ \<Rightarrow> Inl (Exn C_AttributeError ''object has no attribute strip''))"

definition step_preview :: "pystr \<Rightarrow> int \<Rightarrow> pystr" where
  "step_preview txt n = (let s = join '' '' (words_of txt) in
     if int (length s) \<le> n then s else slice_to (n - 3) s @ ''...'')"

section \<open>The percentiles\<close>

lemma floor_ceil: "nat \<lfloor>r\<rfloor> \<noteq> nat \<lceil>r\<rceil> \<Longrightarrow> 0 \<le> r \<Longrightarrow> nat \<lceil>r\<rceil> = Suc (nat \<lfloor>r\<rfloor>)" for r :: real
  by (cases "r = of_int \<lfloor>r\<rfloor>") (linarith, simp add: ceiling_altdef nat_add_distrib)

lemma interpolate_between:
  assumes xs: "sorted xs" and r: "0 \<le> r" "nat \<lceil>r\<rceil> < length xs"
  shows "xs ! nat \<lfloor>r\<rfloor> \<le> interpolate xs r" "interpolate xs r \<le> xs ! nat \<lceil>r\<rceil>"
proof -
  let ?a = "xs ! nat \<lfloor>r\<rfloor>" and ?b = "xs ! nat \<lceil>r\<rceil>" and ?w = "r - real (nat \<lfloor>r\<rfloor>)"
  have "nat \<lfloor>r\<rfloor> \<le> nat \<lceil>r\<rceil>" by linarith
  then have ab: "?a \<le> ?b" using xs r by (intro sorted_nth_mono) auto
  have w: "0 \<le> ?w" "?w \<le> 1" using r(1) by linarith+
  have mid: "?a * (1 - ?w) + ?b * ?w = ?a + (?b - ?a) * ?w" by (simp add: algebra_simps)
  have "0 \<le> (?b - ?a) * ?w" "(?b - ?a) * ?w \<le> (?b - ?a) * 1"
    using ab w by (intro mult_nonneg_nonneg mult_left_mono; simp)+
  then show "?a \<le> interpolate xs r" "interpolate xs r \<le> ?b"
    using mid ab by (auto simp: interpolate_def Let_def)
qed

lemma line_mono: "a \<le> b \<Longrightarrow> r \<le> r' \<Longrightarrow> a * (1 - (r - l)) + b * (r - l) \<le> a * (1 - (r' - l)) + b * (r' - l)"
  for a b r r' l :: real
  using mult_nonneg_nonneg [of "b - a" "r' - r"] by (simp add: algebra_simps)

lemma interpolate_mono:
  assumes xs: "sorted xs" and r: "0 \<le> r" "r \<le> r'" "nat \<lceil>r'\<rceil> < length xs"
  shows "interpolate xs r \<le> interpolate xs r'"
proof (cases "nat \<lfloor>r\<rfloor> = nat \<lfloor>r'\<rfloor>")
  case True
  let ?a = "xs ! nat \<lfloor>r\<rfloor>" and ?b = "xs ! nat \<lceil>r'\<rceil>"
  have le: "nat \<lceil>r\<rceil> \<le> nat \<lceil>r'\<rceil>" using r by linarith
  show ?thesis
  proof (cases "nat \<lfloor>r\<rfloor> = nat \<lceil>r\<rceil>")
    case eq: True
    then show ?thesis using interpolate_between(1) [OF xs _ r(3)] r True by (simp add: interpolate_def)
  next
    case ne: False
    then have hi: "nat \<lceil>r\<rceil> = nat \<lceil>r'\<rceil>" "nat \<lfloor>r'\<rfloor> \<noteq> nat \<lceil>r'\<rceil>"
      using floor_ceil [OF ne r(1)] floor_ceil [of r'] le True r by auto
    have "?a \<le> ?b" using xs r True by (intro sorted_nth_mono) linarith+
    from line_mono [OF this r(2), of "real (nat \<lfloor>r\<rfloor>)"] show ?thesis
      using hi ne True by (simp only: interpolate_def Let_def if_False)
  qed
next
  case False
  then have up: "nat \<lceil>r\<rceil> \<le> nat \<lfloor>r'\<rfloor>" using r by linarith
  have "nat \<lfloor>r'\<rfloor> < length xs" using r by linarith
  then have "xs ! nat \<lceil>r\<rceil> \<le> xs ! nat \<lfloor>r'\<rfloor>" using xs up by (intro sorted_nth_mono)
  moreover have "nat \<lceil>r\<rceil> < length xs" using r by linarith
  ultimately have "interpolate xs r \<le> xs ! nat \<lfloor>r'\<rfloor>" using interpolate_between(2) [OF xs r(1)] by linarith
  also have "\<dots> \<le> interpolate xs r'" using interpolate_between(1) [OF xs _ r(3)] r by linarith
  finally show ?thesis .
qed

lemma Min_is_first:
  fixes xs :: "real list"
  assumes "xs \<noteq> []"
  shows "Min (set xs) = sort xs ! 0"
proof (rule Min_eqI)
  fix y assume "y \<in> set xs"
  then obtain i where "i < length xs" "sort xs ! i = y" by (metis in_set_conv_nth length_sort set_sort)
  then show "sort xs ! 0 \<le> y" using sorted_nth_mono [of "sort xs" 0 i] by simp
qed (use assms nth_mem [of 0 "sort xs"] in simp_all)

lemma Max_is_last:
  fixes xs :: "real list"
  assumes "xs \<noteq> []"
  shows "Max (set xs) = sort xs ! (length xs - 1)"
proof (rule Max_eqI)
  fix y assume "y \<in> set xs"
  then obtain i where "i < length xs" "sort xs ! i = y" by (metis in_set_conv_nth length_sort set_sort)
  then show "y \<le> sort xs ! (length xs - 1)" using sorted_nth_mono [of "sort xs" i "length xs - 1"] by simp
qed (use assms nth_mem [of "length xs - 1" "sort xs"] in simp_all)

text \<open>The percentile of a list in which the rank lies inside.\<close>

lemma percentile_rank:
  assumes "values \<noteq> []" "0 \<le> p" "p \<le> 100"
  shows "percentile values p = Some (interpolate (sort values) (real (length values - 1) * (p / 100)))"
proof -
  consider "length values = 1" | "p = 0" "length values \<noteq> 1" | "p = 100" "length values \<noteq> 1"
    | "0 < p" "p < 100" "length values \<noteq> 1" using assms by linarith
  then show ?thesis
  proof cases
    case 1
    then obtain x where "values = [x]" by (auto simp: length_Suc_conv)
    then show ?thesis by (simp add: percentile_def interpolate_def)
  next
    case 2
    have "Min (set values) = sort values ! 0" by (rule Min_is_first [OF assms(1)])
    then show ?thesis using 2 assms(1) by (simp add: percentile_def interpolate_def)
  next
    case 3
    have "Max (set values) = sort values ! (length values - 1)" by (rule Max_is_last [OF assms(1)])
    then show ?thesis using 3 assms(1) by (simp add: percentile_def interpolate_def)
  next
    case 4
    then show ?thesis using assms(1) by (simp add: percentile_def)
  qed
qed

text \<open>The percentiles are those of the sorted list: the 0th is the minimum, the 50th the median, the 100th the maximum, and a
  higher percentage never gives a lower value.\<close>

theorem percentiles_are_quantiles:
  assumes "values \<noteq> []"
  shows "percentile values 0 = Some (Min (set values)) \<and> percentile values 100 = Some (Max (set values))
    \<and> percentile values 50 = safe_median values
    \<and> (\<forall>p q x y. 0 \<le> p \<longrightarrow> p \<le> q \<longrightarrow> q \<le> 100 \<longrightarrow> percentile values p = Some x \<longrightarrow> percentile values q = Some y \<longrightarrow> x \<le> y)"
proof -
  have ends: "percentile values 0 = Some (Min (set values))" "percentile values 100 = Some (Max (set values))"
    using assms by (cases "values"; simp add: percentile_def)+
  have med: "percentile values 50 = safe_median values"
  proof (cases "odd (length values)")
    case True
    then obtain k where "length values = 2 * k + 1" by (elim oddE)
    then show ?thesis using assms by (auto simp: percentile_rank safe_median_def interpolate_def)
  next
    case False
    then obtain k where k: "length values = 2 * k" by (auto elim: evenE)
    then have pos: "0 < k" using assms by (cases k) auto
    have rank: "real (length values - 1) * (50 / 100) = real k - 1 / 2" using k pos by (simp add: of_nat_diff)
    have "\<lfloor>real k - 1 / 2\<rfloor> = int k - 1" "\<lceil>real k - 1 / 2\<rceil> = int k" by linarith+
    then have "nat \<lfloor>real k - 1 / 2\<rfloor> = k - 1" "nat \<lceil>real k - 1 / 2\<rceil> = k" by simp_all
    then have "interpolate xs (real k - 1 / 2) = xs ! (k - 1) * (1 - 1 / 2) + xs ! k * (1 / 2)" for xs
      using pos by (simp add: interpolate_def Let_def of_nat_diff)
    moreover have "percentile values 50 = Some (interpolate (sort values) (real k - 1 / 2))"
      using percentile_rank [OF assms, of 50] by (simp only: rank)
    ultimately show ?thesis using assms k by (simp add: safe_median_def Let_def add_divide_distrib)
  qed
  have mono: "x \<le> y" if p: "0 \<le> p" "p \<le> q" "q \<le> 100"
    and xy: "percentile values p = Some x" "percentile values q = Some y" for p q x y
  proof -
    let ?r = "\<lambda>p. real (length values - 1) * (p / 100)"
    have le: "?r p \<le> ?r q" and pos: "0 \<le> ?r p" using p by (auto intro: mult_left_mono)
    have "?r q \<le> real (length values - 1) * 1" using p by (intro mult_left_mono) auto
    then have "\<lceil>?r q\<rceil> \<le> int (length values - 1)" by (simp only: ceiling_le_iff)
    moreover have "0 < length values" using assms by simp
    ultimately have top: "nat \<lceil>?r q\<rceil> < length (sort values)" unfolding length_sort by linarith
    have "interpolate (sort values) (?r p) \<le> interpolate (sort values) (?r q)"
      by (rule interpolate_mono [OF sorted_sort pos le top])
    moreover have "interpolate (sort values) (?r p) = x"
      using percentile_rank [OF assms, of p] xy(1) p by (simp only: option.inject)
    moreover have "interpolate (sort values) (?r q) = y"
      using percentile_rank [OF assms, of q] xy(2) p by (simp only: option.inject)
    ultimately show ?thesis by simp
  qed
  show ?thesis using ends med mono by blast
qed

theorem percentiles_are_quantiles_witness: "percentile [4, 1, 3, 2] 50 = safe_median [4, 1, 3, 2]"
  using percentiles_are_quantiles [of "[4, 1, 3, 2]"] by blast

section \<open>The test for a warning\<close>

lemma splitlines_from_not_Nil: "acc \<noteq> [] \<or> s \<noteq> [] \<Longrightarrow> splitlines_from acc s \<noteq> []"
  by (induction acc s rule: splitlines_from.induct) auto

lemma splitlines_not_Nil: "s \<noteq> [] \<Longrightarrow> splitlines s \<noteq> []"
  by (simp add: splitlines_def splitlines_from_not_Nil)

text \<open>A message is a warning as soon as the word error is not in it: the two tests before decide nothing that
  the last one does not, but for a first line that begins with the word warning. So a message of a failed proof that
  does not use the word counts as a warning.\<close>

theorem warning_unless_error:
  assumes "strip msg \<noteq> []"
  shows "text_is_warning msg = Inr (\<not> contains (lower (strip msg)) ''error''
    \<or> startswith (lower (strip (hd (splitlines (strip msg))))) ''warning''
    \<or> startswith (lower (strip (hd (splitlines (strip msg))))) ''ml warning'')"
proof -
  have "splitlines (strip msg) \<noteq> []" using assms by (rule splitlines_not_Nil)
  then show ?thesis by (auto simp: text_is_warning_def Let_def split: list.split)
qed

theorem warning_unless_error_witness:
  "text_is_warning ''Failed to finish proof'' = Inr True"
proof -
  have s: "strip ''Failed to finish proof'' = ''Failed to finish proof''" by code_simp
  have c: "\<not> contains (lower ''Failed to finish proof'') ''error''" by code_simp
  show ?thesis using warning_unless_error [of "''Failed to finish proof''"] s c by simp
qed

end
