(* ===== verification/Smallstep_Eval.thy ===== *)
theory Smallstep_Eval
  imports Theory_Splitter Eval_Stats Router
begin

text \<open>
  The small-step benchmarks over the client of the server: a theory is cut into header, commands and end, and sent to a
  session command by command (\<open>run_theory\<close> of \<open>eval_smallstep_server_client_with_reuse.py\<close> and of
  \<open>eval_smallstep_server_client_1_worker_no_reuse.py\<close> in \<open>evaluation/scripts\<close>); with reuse, workers take the theories
  from a queue. The client's answers are the parameter \<open>bench_api\<close>; the wall clock and the environment are left out.
\<close>

section \<open>One theory\<close>

text \<open>The client: \<open>acquire_session\<close> or \<open>create_session\<close>, \<open>enter_theory\<close>, the command of a step, and
  \<open>release_session\<close> or \<open>close_session\<close>, of which the answer is not read. A refused response is an \<open>HTTPError\<close> with its
  status and text.\<close>

record bench_api =
  ba_open :: "pystr list \<Rightarrow> exn + json"
  ba_enter :: "json \<Rightarrow> json \<Rightarrow> pystr \<Rightarrow> exn + json"
  ba_execute :: "nat \<Rightarrow> json \<Rightarrow> json \<Rightarrow> pystr \<Rightarrow> exn + json"

record step_result =
  step_kind :: pystr
  step_command :: pystr
  step_text :: pystr
  accepted :: bool
  step_time :: "real option"
  step_goals :: "json list"
  step_error :: json
  step_warning :: json
  warning_ignored :: bool
  status_code :: "int option"
  exception_class :: "pystr option"
  step_index :: int

record theory_result =
  tr_file :: pystr
  tr_name :: pystr
  tr_imports :: "pystr list"
  tr_api_time :: "real option"
  tr_ok :: bool
  tr_total :: nat
  tr_accepted :: nat
  tr_expected :: nat
  tr_completed :: bool
  tr_reached_end :: bool
  tr_ignored :: nat
  tr_last_kind :: "pystr option"
  tr_last_text :: "pystr option"
  tr_worker :: nat
  tr_reused :: json
  tr_startup_error :: "pystr option"
  tr_steps :: "step_result list"

text \<open>The variables of the loop.\<close>

record bench =
  rows :: "step_result list"
  api_time :: "real option"
  completed :: bool
  reached_end :: bool

definition status_of :: "exn \<Rightarrow> int option" where
  "status_of e = (case e of HTTPError n d \<Rightarrow> Some (int n) | Exn c m \<Rightarrow> None)"

definition exception_name :: "exn \<Rightarrow> pystr" where
  "exception_name e = (case e of HTTPError n d \<Rightarrow> ''HTTPStatusError'' | Exn c m \<Rightarrow> class_name c)"

text \<open>The time an answer adds to the total, which is read before anything else may raise.\<close>

definition answer_time :: "exn + json \<Rightarrow> real option" where
  "answer_time r = (case onOk r (dict_get ''execution_time'') of Inl e \<Rightarrow> None | Inr t \<Rightarrow> normalize_execution_time t)"

text \<open>Whether the answer was accepted, the error, the ignored warning, and the subgoals.\<close>

definition judge_step :: "json \<Rightarrow> exn + bool \<times> json \<times> json \<times> json list" where
  "judge_step data =
     onOk (dict_get ''execution_time'' data) (\<lambda>_.
     onOk (dict_get_or ''success'' (JBool False) data) (\<lambda>success.
     onOk (dict_get ''error'' data) (\<lambda>raw_error.
     onOk (dict_get_or ''subgoals'' (JList []) data) (\<lambda>gs.
     onOk (py_iter (json_or gs (JList []))) (\<lambda>goals.
     if py_bool success then Inr (True, raw_error, JNull, goals)
     else onOk (is_warning_message raw_error) (\<lambda>ignored.
       Inr (if ignored then (True, JNull, raw_error, goals) else (False, raw_error, JNull, goals))))))))"

definition rstrip_newlines :: "pystr \<Rightarrow> pystr" where
  "rstrip_newlines s = rev (dropWhile (\<lambda>c. c = NL) (rev s))"

definition record_step :: "int \<Rightarrow> pystr \<Rightarrow> pystr \<Rightarrow> exn + json \<Rightarrow> step_result" where
  "record_step i kind command r =
     (let base = \<lparr>step_kind = kind, step_command = rstrip_newlines command, step_text = step_preview command 100,
        accepted = False, step_time = None, step_goals = [], step_error = JNull, step_warning = JNull,
        warning_ignored = False, status_code = Some 200, exception_class = None, step_index = i\<rparr> in
      case onOk r judge_step of
        Inl e \<Rightarrow> base\<lparr>step_error := JStr (str_of e), status_code := status_of e,
                  exception_class := Some (exception_name e)\<rparr>
      | Inr (acc, err, warn, goals) \<Rightarrow> base\<lparr>accepted := acc, step_time := answer_time r, step_goals := goals,
          step_error := err, step_warning := warn, warning_ignored := acc \<and> warn \<noteq> JNull\<rparr>)"

text \<open>With \<open>print_steps\<close>, an error that is not a text has no lines to print.\<close>

definition unprintable :: "bool \<Rightarrow> step_result \<Rightarrow> bool" where
  "unprintable print_steps s = (print_steps \<and> py_bool (step_error s) \<and> (\<nexists>t. step_error s = JStr t))"

definition no_lines :: exn where
  "no_lines = Exn C_AttributeError ''object has no attribute splitlines''"

definition add_time :: "real option \<Rightarrow> real option \<Rightarrow> real option" where
  "add_time acc t = (case t of None \<Rightarrow> acc | Some x \<Rightarrow> Some ((case acc of None \<Rightarrow> 0 | Some y \<Rightarrow> y) + x))"

text \<open>The loop over the commands. With reuse \<open>completed\<close> is set after every accepted command, without it after the
  last one.\<close>

fun run_stream :: "bool \<Rightarrow> bool \<Rightarrow> (nat \<Rightarrow> pystr \<Rightarrow> exn + json) \<Rightarrow> nat \<Rightarrow> (pystr \<times> pystr) list \<Rightarrow> bench \<Rightarrow> bench \<times> exn option" where
  "run_stream reuse print_steps execute i [] b = (if reuse then b else b\<lparr>completed := True\<rparr>, None)"
| "run_stream reuse print_steps execute i ((kind, command) # rest) b =
     (let r = execute i command; s = record_step (int i) kind command r;
          b1 = b\<lparr>reached_end := reached_end b \<or> kind = ''end'', rows := rows b @ [s],
                 api_time := add_time (api_time b) (answer_time r)\<rparr> in
      if unprintable print_steps s then (b1, Some no_lines)
      else if \<not> accepted s then (b1, None)
      else run_stream reuse print_steps execute (Suc i) rest (if reuse then b1\<lparr>completed := True\<rparr> else b1))"

definition startup_row :: "pystr \<Rightarrow> exn \<Rightarrow> step_result" where
  "startup_row name e = \<lparr>step_kind = ''startup'', step_command = name, step_text = step_preview name 100, accepted = False,
     step_time = None, step_goals = [], step_error = JStr (str_of e), step_warning = JNull, warning_ignored = False,
     status_code = None, exception_class = Some (exception_name e), step_index = -1\<rparr>"

definition command_stream :: "char \<times> char \<Rightarrow> pystr \<times> pystr \<times> pystr \<Rightarrow> (pystr \<times> pystr) list" where
  "command_stream marks parts = (case parts of (header, body, end_kw) \<Rightarrow>
     (''header'', header) # map (\<lambda>c. (''body'', c @ [NL])) (split_commands marks body) @ [(''end'', end_kw)])"

text \<open>What becomes of the session: opened, and given back (released or closed).\<close>

datatype bench_event = Opened json | Given_Back json json

text \<open>The part within \<open>try\<close>: the state of the loop, the error that ends it, whether the session was in use before, and the
  events. A session whose payload has no identifier is not given back.\<close>

definition run_session :: "bench_api \<Rightarrow> bool \<Rightarrow> bool \<Rightarrow> pystr \<Rightarrow> pystr list \<Rightarrow> (pystr \<times> pystr) list
    \<Rightarrow> (bench \<times> exn option) \<times> json \<times> bench_event list" where
  "run_session api reuse print_steps name imports stream =
     (let b0 = \<lparr>rows = [], api_time = None, completed = False, reached_end = False\<rparr> in
      case onOk (ba_open api imports) (\<lambda>payload. onOk (dict_index ''session_id'' payload) (\<lambda>sid.
           onOk (dict_get_or ''reused'' (JBool False) payload) (\<lambda>reused.
           onOk (dict_get ''lease_id'' payload) (\<lambda>lease. Inr (sid, reused, lease))))) of
        Inl e \<Rightarrow> ((b0, Some e), JBool False,
                 (case ba_open api imports of Inl _ \<Rightarrow> [] | Inr payload \<Rightarrow> [Opened payload]))
      | Inr (sid, reused, lease) \<Rightarrow>
          (let out = (case ba_enter api sid lease name of
                 Inl e \<Rightarrow> (b0, Some e)
               | Inr _ \<Rightarrow> run_stream reuse print_steps (\<lambda>i. ba_execute api i sid lease) 0 stream b0)
           in (out, if reuse then reused else JBool False,
               Opened sid # (if sid = JNull then [] else [Given_Back sid lease]))))"

definition conclude :: "pystr \<Rightarrow> pystr \<Rightarrow> pystr list \<Rightarrow> nat \<Rightarrow> nat \<Rightarrow> (bench \<times> exn option) \<times> json \<Rightarrow> theory_result" where
  "conclude file name imports expected worker_id res =
     (case res of ((b, err), reused) \<Rightarrow>
      (let steps = (case err of Some e \<Rightarrow> if rows b = [] then [startup_row name e] else rows b | None \<Rightarrow> rows b) in
       \<lparr>tr_file = file, tr_name = name, tr_imports = imports, tr_api_time = api_time b,
        tr_ok = (completed b \<and> list_all accepted steps), tr_total = length steps,
        tr_accepted = length (filter accepted steps), tr_expected = expected, tr_completed = completed b,
        tr_reached_end = reached_end b, tr_ignored = length (filter warning_ignored steps),
        tr_last_kind = (if steps = [] then None else Some (step_kind (last steps))),
        tr_last_text = (if steps = [] then None else Some (step_text (last steps))),
        tr_worker = worker_id, tr_reused = reused, tr_startup_error = map_option str_of err, tr_steps = steps\<rparr>))"

text \<open>A file: its name, its stem, and what reading it gives. Reading and splitting come before \<open>try\<close>.\<close>

record bench_file =
  sf_path :: pystr
  sf_stem :: pystr
  sf_text :: "exn + pystr"

definition run_theory :: "bench_api \<Rightarrow> char \<times> char \<Rightarrow> bool \<Rightarrow> bool \<Rightarrow> nat \<Rightarrow> bench_file \<Rightarrow> exn + theory_result \<times> bench_event list" where
  "run_theory api marks reuse print_steps worker_id f =
     onOk (sf_text f) (\<lambda>txt.
       (let name = determine_theory_name (sf_stem f) txt; imports = split_imports txt in
        onOk (split_theory txt) (\<lambda>parts.
          (let stream = command_stream marks parts in
           case run_session api reuse print_steps name imports stream of
             (out, reused, events) \<Rightarrow>
               Inr (conclude (sf_path f) name imports (length stream) worker_id (out, reused), events)))))"

end
