(* ===== verification/Smallstep_Properties.thy ===== *)
theory Smallstep_Properties
  imports Smallstep_Eval "HOL-Library.Multiset" "HOL-Library.List_Lexorder" "HOL-Library.Char_ord"
begin

text \<open>
  The workers of the small-step benchmark with reuse (\<open>worker\<close> and \<open>amain\<close> of
  \<open>eval_smallstep_server_client_with_reuse.py\<close>) as interleaved steps, and what the results of the benchmarks mean.
\<close>

section \<open>The workers\<close>

datatype worker_phase = Fetching | Working bench_file | Drained | Crashed bench_file exn

record bench_pool =
  corpus_queue :: "bench_file list"
  workers :: "worker_phase list"
  gathered :: "theory_result list"

definition bench_start :: "bench_file list \<Rightarrow> nat \<Rightarrow> bench_pool" where
  "bench_start files n = \<lparr>corpus_queue = files, workers = replicate (min n (length files)) Fetching, gathered = []\<rparr>"

text \<open>The client of worker \<open>i\<close> on a file; the server it talks to is shared, so its answers are its own.\<close>

definition bench_outcome :: "(nat \<Rightarrow> bench_file \<Rightarrow> bench_api) \<Rightarrow> char \<times> char \<Rightarrow> bool \<Rightarrow> nat \<Rightarrow> bench_file \<Rightarrow> exn + theory_result" where
  "bench_outcome api marks print_steps i f =
     onOk (run_theory (api i f) marks True print_steps i f) (\<lambda>(r, events). Inr r)"

text \<open>A worker that raises is over, and \<open>gather\<close> raises its exception.\<close>

inductive bench_step :: "(nat \<Rightarrow> bench_file \<Rightarrow> exn + theory_result) \<Rightarrow> bench_pool \<Rightarrow> bench_pool \<Rightarrow> bool"
  for result_of :: "nat \<Rightarrow> bench_file \<Rightarrow> exn + theory_result" where
  fetches: "i < length (workers s) \<Longrightarrow> workers s ! i = Fetching \<Longrightarrow> corpus_queue s = f # fs \<Longrightarrow>
    bench_step result_of s (s\<lparr>corpus_queue := fs, workers := (workers s)[i := Working f]\<rparr>)"
| stops: "i < length (workers s) \<Longrightarrow> workers s ! i = Fetching \<Longrightarrow> corpus_queue s = [] \<Longrightarrow>
    bench_step result_of s (s\<lparr>workers := (workers s)[i := Drained]\<rparr>)"
| finishes: "i < length (workers s) \<Longrightarrow> workers s ! i = Working f \<Longrightarrow> result_of i f = Inr r \<Longrightarrow>
    bench_step result_of s (s\<lparr>workers := (workers s)[i := Fetching], gathered := gathered s @ [r]\<rparr>)"
| fails: "i < length (workers s) \<Longrightarrow> workers s ! i = Working f \<Longrightarrow> result_of i f = Inl e \<Longrightarrow>
    bench_step result_of s (s\<lparr>workers := (workers s)[i := Crashed f e]\<rparr>)"

inductive_cases bench_stepE: "bench_step result_of s t"

inductive bench_reach :: "(nat \<Rightarrow> bench_file \<Rightarrow> exn + theory_result) \<Rightarrow> bench_file list \<Rightarrow> nat \<Rightarrow> bench_pool \<Rightarrow> bool"
  for result_of :: "nat \<Rightarrow> bench_file \<Rightarrow> exn + theory_result" and files :: "bench_file list" and n :: nat where
  launched: "bench_reach result_of files n (bench_start files n)"
| worked: "bench_reach result_of files n s \<Longrightarrow> bench_step result_of s t \<Longrightarrow> bench_reach result_of files n t"

text \<open>The summary: none when a worker raised, and otherwise the results by file name.\<close>

definition bench_summary :: "bench_pool \<Rightarrow> theory_result list option" where
  "bench_summary s = (if \<exists>p \<in> set (workers s). p \<noteq> Drained then None else Some (sort_key tr_file (gathered s)))"

section \<open>The rows of a theory\<close>

text \<open>The rows the loop writes: up to the first that is not accepted.\<close>

fun stream_rows :: "(nat \<Rightarrow> pystr \<Rightarrow> exn + json) \<Rightarrow> nat \<Rightarrow> (pystr \<times> pystr) list \<Rightarrow> step_result list" where
  "stream_rows execute i [] = []"
| "stream_rows execute i ((kind, command) # rest) =
     (let s = record_step (int i) kind command (execute i command) in
      s # (if accepted s then stream_rows execute (Suc i) rest else []))"

lemma unprintable_off [simp]: "unprintable False s = False"
  by (simp add: unprintable_def)

lemma step_command_record [simp]: "step_command (record_step i k c r) = rstrip_newlines c"
  by (simp add: record_step_def Let_def split: sum.split prod.split)

lemma run_stream_rows:
  "snd (run_stream reuse False execute i stream b) = None
   \<and> rows (fst (run_stream reuse False execute i stream b)) = rows b @ stream_rows execute i stream"
  by (induction stream arbitrary: i b) (auto simp: Let_def)

lemma run_stream_completed:
  "completed (fst (run_stream reuse False execute i stream b)) \<longleftrightarrow> completed b
    \<or> (if reuse then stream_rows execute i stream \<noteq> [] \<and> accepted (hd (stream_rows execute i stream))
       else list_all accepted (stream_rows execute i stream))"
  by (induction stream arbitrary: i b) (auto simp: Let_def split: if_splits)

lemma reached_end_stays: "reached_end b \<Longrightarrow> reached_end (fst (run_stream reuse p execute i stream b))"
  by (induction reuse p execute i stream b rule: run_stream.induct) (auto simp: Let_def)

lemma run_stream_end:
  "list_all accepted (stream_rows execute i stream) \<Longrightarrow> (''end'', c) \<in> set stream
    \<Longrightarrow> reached_end (fst (run_stream reuse False execute i stream b))"
  by (induction stream arbitrary: i b) (auto simp: Let_def reached_end_stays)

lemma stream_rows_bound: "length (stream_rows execute i stream) \<le> length stream"
  by (induction execute i stream rule: stream_rows.induct) (auto simp: Let_def)

lemma stream_rows_accepted:
  "list_all accepted (stream_rows execute i stream)
    \<longleftrightarrow> length (filter accepted (stream_rows execute i stream)) = length stream"
  by (induction execute i stream rule: stream_rows.induct) (auto simp: Let_def)

lemma stream_rows_commands:
  "list_all accepted (stream_rows execute i stream)
    \<Longrightarrow> map step_command (stream_rows execute i stream) = map (rstrip_newlines \<circ> snd) stream"
  by (induction execute i stream rule: stream_rows.induct) (auto simp: Let_def)

section \<open>Properties\<close>

text \<open>How a theory may end: before its first command, or with the rows of the loop.\<close>

lemma run_theory_cases:
  assumes "sf_text f = Inr txt" and "split_theory txt = Inr parts"
    and "run_theory api marks reuse False worker_id f = Inr (r, events)"
  obtains (startup) e where "tr_steps r = [startup_row (determine_theory_name (sf_stem f) txt) e]" "\<not> tr_ok r"
      "\<not> tr_completed r" "tr_total r = 1" "tr_accepted r = 0" "tr_expected r = length (command_stream marks parts)"
      "tr_file r = sf_path f"
  | (loop) execute where "tr_steps r = stream_rows execute 0 (command_stream marks parts)"
      "tr_ok r \<longleftrightarrow> list_all accepted (tr_steps r)"
      "tr_completed r \<longleftrightarrow> (if reuse then accepted (hd (tr_steps r)) else tr_ok r)"
      "tr_ok r \<longrightarrow> tr_reached_end r" "tr_startup_error r = None" "tr_steps r \<noteq> []" "tr_total r = length (tr_steps r)"
      "tr_accepted r = length (filter accepted (tr_steps r))" "tr_expected r = length (command_stream marks parts)"
      "tr_file r = sf_path f"
proof -
  let ?stream = "command_stream marks parts"
  let ?start = "\<lparr>rows = [], api_time = None, completed = False, reached_end = False\<rparr>"
  obtain header body end_kw where parts: "parts = (header, body, end_kw)" by (cases parts) auto
  have final: "(''end'', end_kw) \<in> set ?stream" and ne: "?stream \<noteq> []" by (auto simp: command_stream_def parts)
  obtain b err reused where out: "run_session api reuse False (determine_theory_name (sf_stem f) txt) (split_imports txt) ?stream
      = ((b, err), reused, events)"
    and r: "r = conclude (sf_path f) (determine_theory_name (sf_stem f) txt) (split_imports txt) (length ?stream) worker_id ((b, err), reused)"
    using assms by (auto simp: run_theory_def Let_def split: prod.splits)
  show thesis
  proof (cases err)
    case (Some e)
    then have "rows b = [] \<and> \<not> completed b"
      using out by (auto simp: run_session_def Let_def split: sum.splits prod.splits)
        (metis run_stream_rows fst_conv snd_conv option.distinct(1))+
    then show thesis using startup [of e] Some r by (auto simp: conclude_def startup_row_def)
  next
    case None
    then obtain execute where run: "b = fst (run_stream reuse False execute 0 ?stream ?start)"
      using out by (auto simp: run_session_def Let_def split: sum.splits prod.splits) (metis fst_conv)+
    let ?rs = "stream_rows execute 0 ?stream"
    have rows: "rows b = ?rs" using run run_stream_rows [of reuse execute 0 ?stream] by simp
    have nonempty: "?rs \<noteq> []" using ne by (cases ?stream) (auto simp: Let_def)
    then have flag: "completed b \<longleftrightarrow> (if reuse then accepted (hd ?rs) else list_all accepted ?rs)"
      using run by (auto simp: run_stream_completed)
    have hd: "list_all accepted ?rs \<Longrightarrow> accepted (hd ?rs)" using nonempty by (cases ?rs) auto
    show thesis
      by (rule loop [of execute])
        (use None r rows nonempty flag hd run_stream_end [OF _ final] run in \<open>auto simp: conclude_def Let_def\<close>)
  qed
qed

text \<open>A theory that can be read and cut always has a result.\<close>

lemma run_theory_total:
  assumes "sf_text f = Inr txt" and "split_theory txt = Inr parts"
  shows "\<exists>r events. run_theory api marks reuse print_steps worker_id f = Inr (r, events)"
  using assms by (auto simp: run_theory_def Let_def split: prod.split)

text \<open>A theory is ok exactly when all its commands were accepted. The result of a theory that could be read and cut is
  ok exactly when the number of accepted rows is the number of its commands, the header and the end among them; then
  the rows are the commands of the text in order, the end was reached and nothing raised. In every case there are no
  more rows than commands, and at least one.\<close>

theorem bench_ok_iff_accepted:
  assumes "sf_text f = Inr txt" and "split_theory txt = Inr parts"
    and "run_theory api marks reuse False worker_id f = Inr (r, events)"
  shows "(tr_ok r \<longleftrightarrow> tr_accepted r = tr_expected r)
    \<and> tr_expected r = length (command_stream marks parts) \<and> 0 < tr_total r \<and> tr_total r \<le> tr_expected r
    \<and> (tr_ok r \<longrightarrow> map step_command (tr_steps r) = map (rstrip_newlines \<circ> snd) (command_stream marks parts)
         \<and> tr_reached_end r \<and> tr_startup_error r = None)"
  using assms
proof (cases rule: run_theory_cases)
  case (startup e)
  moreover have "command_stream marks parts \<noteq> []" by (cases parts) (simp add: command_stream_def)
  ultimately show ?thesis by (simp add: Suc_le_eq)
next
  case (loop execute)
  then show ?thesis
    using stream_rows_accepted [of execute 0 "command_stream marks parts"] stream_rows_bound [of execute 0 "command_stream marks parts"]
      stream_rows_commands [of execute 0 "command_stream marks parts"] by auto
qed

text \<open>The flag for a complete run means that only in the script without reuse: with reuse it says that the first
  command was accepted.\<close>

theorem completed_flag:
  assumes "sf_text f = Inr txt" and "split_theory txt = Inr parts"
    and "run_theory api marks reuse False worker_id f = Inr (r, events)"
  shows "tr_completed r \<longleftrightarrow> (if reuse then accepted (hd (tr_steps r)) else tr_ok r)"
  using assms by (cases rule: run_theory_cases) (auto simp: startup_row_def)

text \<open>A session that was opened under an identifier is given back exactly once, under its lease, whatever happened in
  between.\<close>

theorem bench_session_given_back:
  assumes "run_theory api marks reuse print_steps worker_id f = Inr (r, events)"
    and "sf_text f = Inr txt" and "ba_open api (split_imports txt) = Inr (JObj kvs)"
    and "map_of kvs ''session_id'' = Some sid" and "sid \<noteq> JNull"
  shows "events = [Opened sid, Given_Back sid (case map_of kvs ''lease_id'' of None \<Rightarrow> JNull | Some l \<Rightarrow> l)]"
  using assms by (cases "split_theory txt")
    (auto simp: run_theory_def run_session_def Let_def dict_index_def dict_get_or_def split: prod.splits)

text \<open>A prover that refuses every command is reported as a success when its messages do not use the word error: all
  commands are accepted as warnings.\<close>

theorem refused_theory_ok:
  assumes "sf_text f = Inr txt" and "split_theory txt = Inr parts"
    and "ba_open api (split_imports txt) = Inr (JObj kvs)" and "map_of kvs ''session_id'' = Some sid"
    and "\<forall>lease name. \<exists>v. ba_enter api sid lease name = Inr v"
    and "\<forall>i lease c. ba_execute api i sid lease c = Inr (JObj [(''success'', JBool False), (''error'', JStr m)])"
    and "strip m \<noteq> []" and "\<not> contains (lower (strip m)) ''error''"
  shows "\<exists>r events. run_theory api marks reuse False worker_id f = Inr (r, events) \<and> tr_ok r \<and> tr_ignored r = tr_expected r"
proof -
  have "m \<noteq> []" using assms(7) by (auto simp: strip_def lstrip_def rstrip_def)
  moreover have "text_is_warning m = Inr True" using warning_unless_error [OF assms(7)] assms(8) by simp
  ultimately have row: "accepted (record_step i k c (ba_execute api j sid lease c))"
    "warning_ignored (record_step i k c (ba_execute api j sid lease c))" for i k c j lease
    using assms(6)
    by (simp_all add: record_step_def judge_step_def dict_get_or_def is_warning_message_def json_or_def Let_def)
  have rows: "list_all (\<lambda>s. accepted s \<and> warning_ignored s) (stream_rows (\<lambda>i. ba_execute api i sid lease) j stream)
      \<and> length (stream_rows (\<lambda>i. ba_execute api i sid lease) j stream) = length stream" for lease j stream
    by (induction stream arbitrary: j) (auto simp: Let_def row)
  let ?stream = "command_stream marks parts"
  let ?lease = "case map_of kvs ''lease_id'' of None \<Rightarrow> JNull | Some l \<Rightarrow> l"
  let ?run = "\<lambda>b. run_stream reuse False (\<lambda>i. ba_execute api i sid ?lease) 0 ?stream b"
  let ?start = "\<lparr>rows = [], api_time = None, completed = False, reached_end = False\<rparr>"
  obtain b where b: "?run ?start = (b, None)" "rows b = stream_rows (\<lambda>i. ba_execute api i sid ?lease) 0 ?stream"
    using run_stream_rows [of reuse "\<lambda>i. ba_execute api i sid ?lease" 0 ?stream ?start] by (cases "?run ?start") auto
  obtain v where v: "ba_enter api sid ?lease (determine_theory_name (sf_stem f) txt) = Inr v" using assms(5) by blast
  obtain r events where run: "run_theory api marks reuse False worker_id f = Inr (r, events)" "tr_steps r = rows b"
    "tr_ignored r = length (filter warning_ignored (rows b))" "tr_accepted r = length (filter accepted (rows b))"
    using assms(1-4) b v
    by (auto simp: run_theory_def run_session_def Let_def dict_index_def dict_get_or_def conclude_def split: prod.splits)
  have all: "list_all accepted (rows b)" "filter accepted (rows b) = rows b" "filter warning_ignored (rows b) = rows b"
    using rows [of ?lease 0 ?stream] b(2) by (auto simp: list_all_iff filter_id_conv)
  have "length (rows b) = length ?stream" using rows [of ?lease 0 ?stream] b(2) by simp
  then show ?thesis using bench_ok_iff_accepted [OF assms(1,2) run(1)] run all by auto
qed

section \<open>The workers gather every theory\<close>

fun files_in_hand :: "worker_phase \<Rightarrow> bench_file list" where
  "files_in_hand (Working f) = [f]"
| "files_in_hand (Crashed f e) = [f]"
| "files_in_hand _ = []"

definition files_held :: "bench_pool \<Rightarrow> bench_file list" where
  "files_held s = corpus_queue s @ concat (map files_in_hand (workers s))"

lemma split_update:
  assumes "i < length ps"
  obtains us vs where "ps = us @ ps ! i # vs" "ps[i := p] = us @ p # vs"
  using assms id_take_nth_drop [OF assms] upd_conv_take_nth_drop [OF assms] by metis

lemma mset_concat_update:
  assumes "i < length ps"
  shows "mset (concat (map h (ps[i := p]))) + mset (h (ps ! i)) = mset (concat (map h ps)) + mset (h p)"
proof -
  obtain us vs where u: "ps = us @ ps ! i # vs" "ps[i := p] = us @ p # vs" using split_update [OF assms] .
  show ?thesis unfolding u(2) using arg_cong [OF u(1), of "\<lambda>xs. mset (concat (map h xs))"] by simp
qed

lemma sum_list_map_update:
  fixes h :: "'a \<Rightarrow> nat"
  assumes "i < length ps"
  shows "sum_list (map h (ps[i := p])) + h (ps ! i) = sum_list (map h ps) + h p"
proof -
  obtain us vs where u: "ps = us @ ps ! i # vs" "ps[i := p] = us @ p # vs" using split_update [OF assms] .
  show ?thesis unfolding u(2) using arg_cong [OF u(1), of "\<lambda>xs. sum_list (map h xs)"] by simp
qed

definition bench_ok :: "(nat \<Rightarrow> bench_file \<Rightarrow> exn + theory_result) \<Rightarrow> bench_file list \<Rightarrow> nat \<Rightarrow> bench_pool \<Rightarrow> bool" where
  "bench_ok result_of files n s \<longleftrightarrow>
     mset (map sf_path (files_held s)) + mset (map tr_file (gathered s)) = mset (map sf_path files)
     \<and> set (files_held s) \<subseteq> set files \<and> (\<forall>r \<in> set (gathered s). \<exists>i f. f \<in> set files \<and> result_of i f = Inr r)
     \<and> length (workers s) = min n (length files) \<and> (Drained \<in> set (workers s) \<longrightarrow> corpus_queue s = [])"

text \<open>A result carries the name of its file.\<close>

definition names_its_file :: "(nat \<Rightarrow> bench_file \<Rightarrow> exn + theory_result) \<Rightarrow> bool" where
  "names_its_file result_of \<longleftrightarrow> (\<forall>i f r. result_of i f = Inr r \<longrightarrow> tr_file r = sf_path f)"

lemma bench_outcome_names: "names_its_file (bench_outcome api marks print_steps)"
  by (auto simp: names_its_file_def bench_outcome_def run_theory_def conclude_def onOk_def Let_def
      split: sum.splits prod.splits)

lemma held_update:
  assumes "i < length (workers s)"
  shows "mset (concat (map files_in_hand ((workers s)[i := p]))) + mset (files_in_hand (workers s ! i))
    = mset (concat (map files_in_hand (workers s))) + mset (files_in_hand p)"
  using assms by (rule mset_concat_update)

lemma bench_ok_step:
  assumes "bench_step result_of s t" and "names_its_file result_of" and ok: "bench_ok result_of files n s"
  shows "bench_ok result_of files n t"
  using assms(1)
proof cases
  case (fetches i f fs)
  have h: "mset (files_held t) = mset (files_held s)"
    using held_update [OF fetches(2), of "Working f"] fetches by (simp add: files_held_def)
  then show ?thesis using ok fetches arg_cong [OF h, of "image_mset sf_path"] mset_eq_setD [OF h] set_update_subset_insert [of "workers s" i "Working f"]
    by (auto simp: bench_ok_def)
next
  case (stops i)
  have h: "mset (files_held t) = mset (files_held s)"
    using held_update [OF stops(2), of Drained] stops by (simp add: files_held_def)
  then show ?thesis using ok stops arg_cong [OF h, of "image_mset sf_path"] mset_eq_setD [OF h]
    by (auto simp: bench_ok_def)
next
  case (finishes i f r)
  have h: "mset (files_held t) + {#f#} = mset (files_held s)"
    using held_update [OF finishes(2), of Fetching] finishes by (simp add: files_held_def)
  have r: "tr_file r = sf_path f" using assms(2) finishes by (auto simp: names_its_file_def)
  have f: "f \<in> set (files_held s)" "set (files_held t) \<subseteq> set (files_held s)"
    using arg_cong [OF h, of set_mset] by auto
  have held: "image_mset sf_path (mset (files_held s)) = add_mset (sf_path f) (image_mset sf_path (mset (files_held t)))"
    using arg_cong [OF h, of "image_mset sf_path"] by simp
  have new: "gathered t = gathered s @ [r]" "corpus_queue t = corpus_queue s" "length (workers t) = length (workers s)"
    "set (workers t) \<subseteq> insert Fetching (set (workers s))"
    using finishes set_update_subset_insert [of "workers s" i Fetching] by auto
  have "f \<in> set files" using f(1) ok by (auto simp: bench_ok_def)
  then have "\<exists>i f. f \<in> set files \<and> result_of i f = Inr r" using finishes(4) by blast
  moreover have "mset (map sf_path (files_held t)) + mset (map tr_file (gathered t)) = mset (map sf_path files)"
    using ok r held by (simp add: bench_ok_def new(1))
  ultimately show ?thesis using ok f(2) new by (auto simp: bench_ok_def)
next
  case (fails i f e)
  have h: "mset (files_held t) = mset (files_held s)"
    using held_update [OF fails(2), of "Crashed f e"] fails by (simp add: files_held_def)
  then show ?thesis using ok fails arg_cong [OF h, of "image_mset sf_path"] mset_eq_setD [OF h] set_update_subset_insert [of "workers s" i "Crashed f e"]
    by (auto simp: bench_ok_def)
qed

lemma bench_ok_start: "bench_ok result_of files n (bench_start files n)"
  by (simp add: bench_ok_def bench_start_def files_held_def)

lemma bench_ok_reach:
  assumes "bench_reach result_of files n s" and "names_its_file result_of"
  shows "bench_ok result_of files n s"
  using assms(1) by (induction rule: bench_reach.induct) (blast intro: bench_ok_start bench_ok_step assms(2))+

text \<open>The benchmark reports every theory. However the workers interleave, when all have stopped the summary has
  exactly one result for each file of the corpus, in the order of the names, and each result is that of a run on one
  of them; and a worker that has neither stopped nor raised can go on.\<close>

theorem bench_covers_corpus:
  assumes "bench_reach (bench_outcome api marks print_steps) files n s" and "0 < n" and "sorted (map sf_path files)"
  shows "(set (workers s) \<subseteq> {Drained} \<longrightarrow> (\<exists>rs. bench_summary s = Some rs \<and> map tr_file rs = map sf_path files
      \<and> (\<forall>r \<in> set rs. \<exists>i f. f \<in> set files \<and> bench_outcome api marks print_steps i f = Inr r)))
    \<and> (\<forall>p \<in> set (workers s). p = Fetching \<or> (\<exists>f. p = Working f) \<longrightarrow> (\<exists>t. bench_step (bench_outcome api marks print_steps) s t))"
proof -
  have ok: "bench_ok (bench_outcome api marks print_steps) files n s"
    using bench_ok_reach [OF assms(1) bench_outcome_names] .
  have ends: "\<exists>rs. bench_summary s = Some rs \<and> map tr_file rs = map sf_path files
      \<and> (\<forall>r \<in> set rs. \<exists>i f. f \<in> set files \<and> bench_outcome api marks print_steps i f = Inr r)" if stopped: "set (workers s) \<subseteq> {Drained}"
  proof -
    have "corpus_queue s = []"
    proof (cases "files = []")
      case True
      then show ?thesis using ok by (simp add: bench_ok_def files_held_def)
    next
      case False
      then have "workers s \<noteq> []" using ok assms(2) by (auto simp: bench_ok_def min_def split: if_splits)
      then have "Drained \<in> set (workers s)" using stopped by (cases "workers s") auto
      then show ?thesis using ok by (simp add: bench_ok_def)
    qed
    moreover have "concat (map files_in_hand (workers s)) = []" using stopped by auto
    ultimately have "files_held s = []" by (simp add: files_held_def)
    then have "mset (map tr_file (gathered s)) = mset (map sf_path files)"
      using ok by (simp add: bench_ok_def)
    then have "mset (map tr_file (sort_key tr_file (gathered s))) = mset (map sf_path files)" by simp
    then have "map tr_file (sort_key tr_file (gathered s)) = map sf_path files"
      using assms(3) properties_for_sort by (metis sorted_sort_key sort_key_id_if_sorted sorted_sort_id)
    then show ?thesis using stopped ok by (auto simp: bench_summary_def bench_ok_def)
  qed
  have go: "\<exists>t. bench_step (bench_outcome api marks print_steps) s t"
    if p: "p \<in> set (workers s)" "p = Fetching \<or> (\<exists>f. p = Working f)" for p
  proof -
    obtain i where i: "i < length (workers s)" "workers s ! i = p" using p(1) by (auto simp: in_set_conv_nth)
    show ?thesis
    proof (cases p)
      case Fetching
      then show ?thesis using i bench_step.fetches [of i s] bench_step.stops [of i s] by (cases "corpus_queue s") blast+
    next
      case (Working f)
      then show ?thesis using i bench_step.finishes [of i s f] bench_step.fails [of i s f]
        by (cases "bench_outcome api marks print_steps i f") blast+
    qed (use p(2) in auto)
  qed
  show ?thesis using ends go by blast
qed

text \<open>The measure: three for each file in the queue, two for a theory at work, one for a worker that looks for the next.\<close>

fun moves_left :: "worker_phase \<Rightarrow> nat" where
  "moves_left Fetching = 1"
| "moves_left (Working f) = 2"
| "moves_left _ = 0"

definition bench_measure :: "bench_pool \<Rightarrow> nat" where
  "bench_measure s = 3 * length (corpus_queue s) + sum_list (map moves_left (workers s))"

theorem bench_measure_decreases:
  assumes "bench_step result_of s t"
  shows "bench_measure t < bench_measure s"
proof -
  note upd = sum_list_map_update [of _ "workers s" moves_left]
  from assms show ?thesis
  proof cases
    case (fetches i f fs)
    then show ?thesis using upd [OF fetches(2), of "Working f"] by (simp add: bench_measure_def)
  next
    case (stops i)
    then show ?thesis using upd [OF stops(2), of Drained] by (simp add: bench_measure_def)
  next
    case (finishes i f r)
    then show ?thesis using upd [OF finishes(2), of Fetching] by (simp add: bench_measure_def)
  next
    case (fails i f e)
    then show ?thesis using upd [OF fails(2), of "Crashed f e"] by (simp add: bench_measure_def)
  qed
qed

text \<open>A file that cannot be read or cut stops the benchmark: its worker raises, and there is no summary at all, for reading and
  cutting come before the handler.\<close>

theorem unsplit_file_loses_summary:
  assumes "bench_reach (bench_outcome api marks print_steps) files n s" and "i < length (workers s)"
    and "workers s ! i = Working f" and "sf_text f = Inr txt" and "split_theory txt = Inl e"
    and "bench_step (bench_outcome api marks print_steps) s t" and "workers t ! i \<noteq> Working f"
  shows "workers t ! i = Crashed f e \<and> bench_summary t = None"
proof -
  have bad: "bench_outcome api marks print_steps j f = Inl e" for j
    using assms(4,5) by (simp add: bench_outcome_def run_theory_def Let_def)
  have i: "workers t ! i = Crashed f e" "i < length (workers t)"
    using assms(6) assms(2,3,7) bad by (auto elim!: bench_stepE simp: nth_list_update split: if_splits)
  then have "Crashed f e \<in> set (workers t)" by (metis nth_mem)
  then show ?thesis using i by (auto simp: bench_summary_def)
qed

section \<open>Witnesses\<close>

text \<open>An empty theory, and a server that refuses every command without the word error.\<close>

definition demo_bench_file :: bench_file where
  "demo_bench_file = \<lparr>sf_path = ''A.thy'', sf_stem = ''A'', sf_text = Inr ''theory A imports Main begin end''\<rparr>"

definition refusing_api :: bench_api where
  "refusing_api = \<lparr>ba_open = (\<lambda>_. Inr (JObj [(''session_id'', JStr ''s'')])), ba_enter = (\<lambda>_ _ _. Inr JNull),
     ba_execute = (\<lambda>_ _ _ _. Inr (JObj [(''success'', JBool False), (''error'', JStr ''Failed to finish proof'')]))\<rparr>"

lemma demo_bench_file_parts: "split_theory ''theory A imports Main begin end''
    = Inr (''theory A imports Main begin'' @ [NL], '''', ''end'')"
  by code_simp

theorem refused_theory_ok_witness:
  "\<exists>r events. run_theory refusing_api marks True False 0 demo_bench_file = Inr (r, events) \<and> tr_ok r \<and> tr_ignored r = tr_expected r"
proof -
  have m: "strip ''Failed to finish proof'' \<noteq> []" "\<not> contains (lower (strip ''Failed to finish proof'')) ''error''"
    by code_simp+
  show ?thesis
    by (rule refused_theory_ok [OF _ demo_bench_file_parts _ _ _ _ m, of _ _ "[(''session_id'', JStr ''s'')]" "JStr ''s''"])
      (simp_all add: demo_bench_file_def refusing_api_def)
qed

lemma demo_bench_file_text: "sf_text demo_bench_file = Inr ''theory A imports Main begin end''"
  by (simp add: demo_bench_file_def)

lemma demo_bench_file_run:
  obtains r events where "run_theory refusing_api marks True False 0 demo_bench_file = Inr (r, events)"
  using run_theory_total [OF demo_bench_file_text demo_bench_file_parts] that by metis

theorem bench_ok_iff_accepted_witness:
  "\<exists>r events. run_theory refusing_api (CHR ''<'', CHR ''>'') True False 0 demo_bench_file = Inr (r, events)
    \<and> tr_expected r = 2 \<and> 0 < tr_total r"
proof -
  obtain r events where r: "run_theory refusing_api (CHR ''<'', CHR ''>'') True False 0 demo_bench_file = Inr (r, events)"
    using demo_bench_file_run .
  have "split_commands (CHR ''<'', CHR ''>'') '''' = []" by code_simp
  then show ?thesis using bench_ok_iff_accepted [OF demo_bench_file_text demo_bench_file_parts r] r by (simp add: command_stream_def)
qed

text \<open>One worker on one theory.\<close>

theorem bench_covers_corpus_witness:
  "\<exists>s rs. bench_reach (bench_outcome (\<lambda>_ _. refusing_api) (CHR ''<'', CHR ''>'') False) [demo_bench_file] 4 s
    \<and> bench_summary s = Some rs \<and> map tr_file rs = [''A.thy'']"
proof -
  let ?o = "bench_outcome (\<lambda>_ _. refusing_api) (CHR ''<'', CHR ''>'') False"
  obtain r events where "run_theory refusing_api (CHR ''<'', CHR ''>'') True False 0 demo_bench_file = Inr (r, events)"
    using demo_bench_file_run .
  then have o: "?o 0 demo_bench_file = Inr r" by (simp add: bench_outcome_def)
  let ?s = "\<lambda>q p g. \<lparr>corpus_queue = q, workers = [p], gathered = g\<rparr>"
  have "bench_reach ?o [demo_bench_file] 4 (?s [demo_bench_file] Fetching [])"
    using bench_reach.launched [of ?o "[demo_bench_file]" 4] by (simp add: bench_start_def)
  moreover have "bench_step ?o (?s [demo_bench_file] Fetching []) (?s [] (Working demo_bench_file) [])"
    using bench_step.fetches [of 0 "?s [demo_bench_file] Fetching []" demo_bench_file "[]" ?o] by simp
  moreover have "bench_step ?o (?s [] (Working demo_bench_file) []) (?s [] Fetching [r])"
    using bench_step.finishes [of 0 "?s [] (Working demo_bench_file) []" demo_bench_file ?o r] o by simp
  moreover have "bench_step ?o (?s [] Fetching [r]) (?s [] Drained [r])"
    using bench_step.stops [of 0 "?s [] Fetching [r]" ?o] by simp
  ultimately have reach: "bench_reach ?o [demo_bench_file] 4 (?s [] Drained [r])" by (meson bench_reach.worked)
  have "set (workers (?s [] Drained [r])) \<subseteq> {Drained}" "sorted (map sf_path [demo_bench_file])" by simp_all
  then obtain rs where "bench_summary (?s [] Drained [r]) = Some rs" "map tr_file rs = [''A.thy'']"
    using bench_covers_corpus [OF reach] by (auto simp: demo_bench_file_def)
  then show ?thesis using reach by (intro exI conjI)
qed

end
