(* ===== verification/Http_Properties.thy ===== *)
theory Http_Properties
  imports Http_Client
begin

text \<open>
  The client and the server agree on the wire: what a client method sends is decoded into the request it means, an
  accepted body has the declared types, and the client waits longer than the server may take.
\<close>

section \<open>What the stack promises\<close>

definition plain_char :: "char \<Rightarrow> bool" where
  "plain_char c = (let n = ord c in (48 \<le> n \<and> n \<le> 57) \<or> (65 \<le> n \<and> n \<le> 90) \<or> (97 \<le> n \<and> n \<le> 122)
     \<or> c \<in> set ''-_.~'')"

text \<open>A path segment that needs no quoting: not empty, and no dot segment.\<close>

definition plain :: "pystr \<Rightarrow> bool" where
  "plain s = (s \<noteq> [] \<and> s \<noteq> ''.'' \<and> s \<noteq> ''..'' \<and> list_all plain_char s)"

definition plain_path :: "pystr \<Rightarrow> bool" where
  "plain_path p = list_all (\<lambda>s. s = [] \<or> plain s) (split_on (CHR ''/'') p)"

definition plain_query :: "pystr \<Rightarrow> bool" where
  "plain_query q = list_all (\<lambda>c. plain_char c \<or> c \<in> set ''=&'') q"

text \<open>Plain URLs travel as they are, values of the declared type are kept, and decimal numerals are read.\<close>

definition standard :: "stack \<Rightarrow> bool" where
  "standard w \<longleftrightarrow>
     (\<forall>p q. plain_path p \<and> plain_query q \<longrightarrow> quote_url w (p @ (if q = [] then [] else CHR ''?'' # q)) = p @ (if q = [] then [] else CHR ''?'' # q))
     \<and> (\<forall>p. plain_path p \<longrightarrow> unquote w p = p)
     \<and> (\<forall>t v. conforms t v \<longrightarrow> coerce w t v = Some (canonical t v))
     \<and> (\<forall>t v v'. coerce w t v = Some v' \<longrightarrow> conforms t v')
     \<and> (\<forall>n. read_int w (show_int n) = Some n)"

lemma standardD:
  assumes "standard w"
  shows "plain_path p \<Longrightarrow> quote_url w p = p"
    and "plain_path p \<Longrightarrow> plain_query q \<Longrightarrow> q \<noteq> [] \<Longrightarrow> quote_url w (p @ CHR ''?'' # q) = p @ CHR ''?'' # q"
    and "plain_path p \<Longrightarrow> unquote w p = p"
    and "conforms t v \<Longrightarrow> coerce w t v = Some (canonical t v)"
    and "coerce w t v = Some v' \<Longrightarrow> conforms t v'"
    and "read_int w (show_int n) = Some n"
proof -
  have url: "\<And>p q. plain_path p \<Longrightarrow> plain_query q \<Longrightarrow>
      quote_url w (p @ (if q = [] then [] else CHR ''?'' # q)) = p @ (if q = [] then [] else CHR ''?'' # q)"
    using assms by (auto simp: standard_def)
  show "plain_path p \<Longrightarrow> quote_url w p = p" using url [of p "[]"] by (simp add: plain_query_def)
  show "plain_path p \<Longrightarrow> plain_query q \<Longrightarrow> q \<noteq> [] \<Longrightarrow> quote_url w (p @ CHR ''?'' # q) = p @ CHR ''?'' # q"
    using url [of p q] by simp
qed (use assms in \<open>auto simp: standard_def\<close>)

section \<open>Plain text\<close>

lemma plain_char_special [simp]: "plain_char c \<Longrightarrow> c \<noteq> CHR ''/'' \<and> c \<noteq> CHR ''?'' \<and> c \<noteq> CHR ''&'' \<and> c \<noteq> CHR ''=''"
  by (auto simp: plain_char_def Let_def)

lemma plain_no_special:
  assumes "plain s"
  shows "CHR ''/'' \<notin> set s" "CHR ''?'' \<notin> set s" "CHR ''&'' \<notin> set s" "CHR ''='' \<notin> set s" "s \<noteq> []"
  using assms by (auto simp: plain_def list_all_iff dest: plain_char_special)

lemma plain_digit: "m < 10 \<Longrightarrow> plain_char (char_of (48 + m :: nat))"
  by (simp add: plain_char_def Let_def of_char_of take_bit_eq_mod)

lemma show_nat_plain: "show_nat n \<noteq> [] \<and> list_all plain_char (show_nat n) \<and> CHR ''.'' \<notin> set (show_nat n)"
proof (induction n rule: show_nat.induct)
  case (1 n)
  have dot: "char_of (48 + m :: nat) \<noteq> CHR ''.''" if "m < 10" for m
  proof
    assume "char_of (48 + m :: nat) = CHR ''.''"
    then have "of_char (char_of (48 + m :: nat) :: char) = (of_char CHR ''.'' :: nat)" by simp
    then show False using that by (simp add: of_char_of take_bit_eq_mod)
  qed
  show ?case
  proof (cases "n < 10")
    case True
    then show ?thesis using plain_digit [of n] dot [of n] by (simp add: show_nat.simps [of n])
  next
    case False
    then show ?thesis using 1 plain_digit [of "n mod 10"] dot [of "n mod 10"]
      by (simp add: show_nat.simps [of n])
  qed
qed

lemma plain_show_int: "plain (show_int n)"
proof -
  have "plain_char CHR ''-''" by (simp add: plain_char_def)
  then show ?thesis
    using show_nat_plain [of "nat n"] show_nat_plain [of "nat (- n)"] by (auto simp: plain_def show_int_def)
qed

lemma plain_path_plain: "plain s \<Longrightarrow> plain_path s"
  by (simp add: plain_path_def split_on_single plain_no_special)

lemma plain_path_append: "plain_path p \<Longrightarrow> plain_path r \<Longrightarrow> plain_path (p @ CHR ''/'' # r)"
proof -
  have "split_on c (u @ c # v) = split_on c u @ split_on c v" for c :: char and u v
    by (induction u) (auto split: list.splits)
  then show "plain_path p \<Longrightarrow> plain_path r \<Longrightarrow> plain_path (p @ CHR ''/'' # r)" by (simp add: plain_path_def)
qed

lemma split_on_at_sep: "split_on c (u @ c # v) = split_on c u @ split_on c v"
  by (induction u) (auto split: list.splits)

lemma plain_path_no_query: "plain_path p \<Longrightarrow> CHR ''?'' \<notin> set p"
proof -
  assume p: "plain_path p"
  show "CHR ''?'' \<notin> set p"
  proof
    assume "CHR ''?'' \<in> set p"
    then obtain y where "y \<in> set (split_on (CHR ''/'') p)" "CHR ''?'' \<in> set y"
      using set_join [of "CHR ''?''" "''/''" "split_on (CHR ''/'') p"] by auto
    then show False using p plain_no_special(2) [of y] by (auto simp: plain_path_def list_all_iff)
  qed
qed

lemma before_query: "CHR ''?'' \<notin> set p \<Longrightarrow> before (CHR ''?'') (p @ CHR ''?'' # q) = p"
  by (induction p) (auto simp: before_def)

lemma before_query_eq: "CHR ''='' \<notin> set k \<Longrightarrow> before (CHR ''='') (k @ CHR ''='' # v) = k"
  by (induction k) (auto simp: before_def)

lemma before_absent: "c \<notin> set p \<Longrightarrow> before c p = p"
  by (induction p) (auto simp: before_def)

text \<open>What arrives, without a query and with one.\<close>

lemma receive_plain:
  assumes "standard w" and "plain_path (hr_url rq)"
  shows "receive w (transmit w rq) =
    (case route_in ROUTES (hr_method rq) (split_on (CHR ''/'') (hr_url rq)) of
       No_Route \<Rightarrow> Refused 404 | Other_Methods \<Rightarrow> Refused 405
     | Found ep args \<Rightarrow> endpoint_params w ep args (query_of w []) (hr_body rq))"
  using standardD(1,3) [OF assms(1)] assms(2) plain_path_no_query [OF assms(2)]
  by (simp add: receive_def transmit_def before_absent Let_def split: routed.split)

lemma receive_query:
  assumes "standard w" and "hr_url rq = p @ CHR ''?'' # q" and "plain_path p" and "plain_query q" and "q \<noteq> []"
  shows "receive w (transmit w rq) =
    (case route_in ROUTES (hr_method rq) (split_on (CHR ''/'') p) of
       No_Route \<Rightarrow> Refused 404 | Other_Methods \<Rightarrow> Refused 405
     | Found ep args \<Rightarrow> endpoint_params w ep args (query_of w q) (hr_body rq))"
  using standardD(2,3) [OF assms(1)] assms(2-) plain_path_no_query [OF assms(3)]
  by (simp add: receive_def transmit_def before_query Let_def Suc_diff_le split: routed.split)

lemma session_path: "plain sid \<Longrightarrow> plain_path p \<Longrightarrow>
    plain_path (session_url sid (CHR ''/'' # p))
    \<and> split_on (CHR ''/'') (session_url sid (CHR ''/'' # p)) = [[], ''api'', ''v1'', ''sessions'', sid] @ split_on (CHR ''/'') p"
  using plain_no_special(1) [of sid]
  by (simp add: session_url_def BASE_URL_def split_on_append plain_path_def plain_def plain_char_def)

lemma session_root_path: "plain sid \<Longrightarrow> plain_path (session_url sid [])
    \<and> split_on (CHR ''/'') (session_url sid []) = [[], ''api'', ''v1'', ''sessions'', sid]"
  using plain_no_special(1) [of sid]
  by (simp add: session_url_def BASE_URL_def split_on_single plain_path_def plain_def plain_char_def)

section \<open>Typed bodies\<close>

lemma check_fields_given:
  assumes "check_fields w m kvs = Some vals" and "(name, t, d) \<in> set m" and "distinct (map fst m)"
  shows "\<exists>v. map_of vals name = Some v \<and> (case map_of kvs name of None \<Rightarrow> d = Some v | Some x \<Rightarrow> coerce w t x = Some v)"
  using assms
proof (induction m arbitrary: vals)
  case (Cons f m)
  obtain name' t' d' where f: "f = (name', t', d')" by (cases f)
  obtain v vs where v: "(case map_of kvs name' of None \<Rightarrow> d' | Some x \<Rightarrow> coerce w t' x) = Some v"
    and vs: "check_fields w m kvs = Some vs" and vals: "vals = (name', v) # vs"
    using Cons.prems(1) f by (auto split: option.splits)
  show ?case
  proof (cases "(name, t, d) = f")
    case True
    then show ?thesis using v vals f by (auto split: option.splits)
  next
    case False
    then have "(name, t, d) \<in> set m" "name \<noteq> name'" using Cons.prems(2,3) f by force+
    then show ?thesis using Cons.IH [OF vs] Cons.prems(3) vals f by simp
  qed
qed simp

lemma check_fields_accepts:
  assumes "standard w"
  shows "(\<And>name t d. (name, t, d) \<in> set m \<Longrightarrow> case map_of kvs name of None \<Rightarrow> d \<noteq> None | Some v \<Rightarrow> conforms t v)
    \<Longrightarrow> \<exists>vals. check_fields w m kvs = Some vals"
proof (induction m)
  case (Cons f m)
  obtain name t d where f: "f = (name, t, d)" by (cases f)
  have "\<exists>v. (case map_of kvs name of None \<Rightarrow> d | Some x \<Rightarrow> coerce w t x) = Some v"
    using Cons.prems [of name t d] f standardD(4) [OF assms] by (auto split: option.splits)
  moreover have "\<exists>vals. check_fields w m kvs = Some vals"
    by (rule Cons.IH) (use Cons.prems in \<open>meson list.set_intros(2)\<close>)
  ultimately show ?case using f by auto
qed simp

definition request_models :: "stack \<Rightarrow> model set" where
  "request_models w = {SessionCreateRequest, SessionAcquireRequest, CommandRequest w, EnterTheoryRequest,
     DocumentLoadRequest w, BigStepTheoryRequest w, SledgehammerRequest, DiagnosticRequest w, SledgehammerAtRequest,
     ChunkVerifyRequest w, HeapBuildRequest, ParseTheoryHeaderRequest}"

lemmas model_defs = SessionCreateRequest_def SessionAcquireRequest_def CommandRequest_def EnterTheoryRequest_def
  DocumentLoadRequest_def BigStepTheoryRequest_def SledgehammerRequest_def DiagnosticRequest_def SledgehammerAtRequest_def
  ChunkVerifyRequest_def HeapBuildRequest_def ParseTheoryHeaderRequest_def optional_str_def

lemma models_well_formed:
  "m \<in> request_models w \<Longrightarrow> distinct (map fst m) \<and> (\<forall>(name, t, d) \<in> set m. \<forall>v. d = Some v \<longrightarrow> conforms t v)"
  by (auto simp: request_models_def model_defs)


section \<open>What a session call means\<close>

fun asked :: "real \<Rightarrow> pystr \<Rightarrow> session_call \<Rightarrow> request" where
  "asked own sid Call_Close = Ask_Close sid"
| "asked own sid Call_Release = Ask_Release sid"
| "asked own sid (Call_Enter_Theory name imports) = On_Session (Enter_Theory name imports) sid"
| "asked own sid (Call_Execute command timeout) = On_Session (Execute command (budget own timeout)) sid"
| "asked own sid (Call_Diagnostic command timeout) = On_Session (Diagnostic command (budget own timeout)) sid"
| "asked own sid (Call_Verify_Chunk chunk timeout) = On_Session (Verify_Chunk chunk (budget own timeout)) sid"
| "asked own sid Call_Last_Report = On_Session Last_Report sid"
| "asked own sid (Call_Load txt name imports timeout report) =
     On_Session (Load_Document txt name imports (budget own timeout) report) sid"
| "asked own sid (Call_Sledgehammer timeout_s) = On_Session (Sledgehammer timeout_s) sid"
| "asked own sid Call_Proof_State = On_Session Proof_State sid"
| "asked own sid Call_Subgoals = On_Session Subgoals sid"
| "asked own sid Call_Source = On_Session Source sid"
| "asked own sid Call_Local_Facts = On_Session Local_Facts sid"
| "asked own sid (Call_Global_Facts limit) = On_Session (Global_Facts limit) sid"
| "asked own sid (Call_Command_At line) = On_Session (Command_At line) sid"
| "asked own sid (Call_Goals_At line) = On_Session (Goals_At line) sid"
| "asked own sid (Call_Hover_At line col) = On_Session (Hover_At line col) sid"
| "asked own sid (Call_Definition_At line col) = On_Session (Definition_At line col) sid"
| "asked own sid (Call_Sledgehammer_At line subgoal timeout_s) = On_Session (Sledgehammer_At line subgoal timeout_s) sid"
| "asked own sid Call_Save_Checkpoint = On_Session Save_Checkpoint sid"
| "asked own sid (Call_Restore_Checkpoint i) = On_Session (Restore_Checkpoint i) sid"
| "asked own sid Call_Rollback = On_Session Rollback sid"
| "asked own sid (Call_History limit) = On_Session (History limit) sid"
| "asked own sid Call_Stats = On_Session Stats sid"

lemma coerced [simp]:
  assumes "standard w"
  shows "coerce w T_Str (JStr s) = Some (JStr s)" "coerce w T_Int (JInt n) = Some (JInt n)"
    "coerce w T_Float (JFloat x) = Some (JFloat x)" "coerce w T_Bool (JBool b) = Some (JBool b)"
    "coerce w (T_Opt t) JNull = Some JNull" "coerce w (T_Opt T_Float) (JFloat x) = Some (JFloat x)"
    "coerce w (T_Opt T_Str) (JStr s) = Some (JStr s)" "coerce w (T_List T_Str) (json_strs xs) = Some (json_strs xs)"
    "coerce w (T_Opt (T_List T_Str)) (json_strs xs) = Some (json_strs xs)"
    "coerce w (T_Opt T_Str) (json_opt JStr o1) = Some (json_opt JStr o1)"
    "coerce w (T_Opt (T_List T_Str)) (json_opt json_strs o2) = Some (json_opt json_strs o2)"
  using standardD(4) [OF assms]
  by (simp_all add: json_strs_def json_opt_def list_all_iff split: option.splits)

lemma read_back [simp]:
  "as_strs (json_strs xs) = Some xs" "as_opt_str (json_opt JStr o1) = o1" "as_strs (json_opt json_strs o2) = o2"
  by (auto simp: json_strs_def json_opt_def comp_def split: option.splits)

text \<open>The path of each method, and where it leads.\<close>

lemma session_routed:
  assumes "plain sid"
  shows "route_in ROUTES ''DELETE'' [[], ''api'', ''v1'', ''sessions'', sid] = Found EP_Close [sid]"
"route_in ROUTES ''POST'' [[], ''api'', ''v1'', ''sessions'', sid, ''release''] = Found EP_Release [sid]"
    "route_in ROUTES ''POST'' [[], ''api'', ''v1'', ''sessions'', sid, ''commands''] = Found EP_Execute [sid]"
    "route_in ROUTES ''POST'' [[], ''api'', ''v1'', ''sessions'', sid, ''diagnostic''] = Found EP_Diagnostic [sid]"
    "route_in ROUTES ''POST'' [[], ''api'', ''v1'', ''sessions'', sid, ''verify_chunk''] = Found EP_Verify_Chunk [sid]"
    "route_in ROUTES ''GET'' [[], ''api'', ''v1'', ''sessions'', sid, ''last_report''] = Found EP_Last_Report [sid]"
    "route_in ROUTES ''PUT'' [[], ''api'', ''v1'', ''sessions'', sid, ''document''] = Found EP_Load [sid]"
    "route_in ROUTES ''POST'' [[], ''api'', ''v1'', ''sessions'', sid, ''sledgehammer''] = Found EP_Sledgehammer [sid]"
    "route_in ROUTES ''GET'' [[], ''api'', ''v1'', ''sessions'', sid, ''state''] = Found EP_State [sid]"
    "route_in ROUTES ''GET'' [[], ''api'', ''v1'', ''sessions'', sid, ''subgoals''] = Found EP_Subgoals [sid]"
    "route_in ROUTES ''GET'' [[], ''api'', ''v1'', ''sessions'', sid, ''source''] = Found EP_Source [sid]"
    "route_in ROUTES ''GET'' [[], ''api'', ''v1'', ''sessions'', sid, ''facts'', ''local''] = Found EP_Local_Facts [sid]"
    "route_in ROUTES ''GET'' [[], ''api'', ''v1'', ''sessions'', sid, ''facts'', ''global''] = Found EP_Global_Facts [sid]"
    "route_in ROUTES ''GET'' [[], ''api'', ''v1'', ''sessions'', sid, ''command_at_line''] = Found EP_Command_At [sid]"
    "route_in ROUTES ''GET'' [[], ''api'', ''v1'', ''sessions'', sid, ''goals''] = Found EP_Goals [sid]"
    "route_in ROUTES ''GET'' [[], ''api'', ''v1'', ''sessions'', sid, ''hover''] = Found EP_Hover [sid]"
    "route_in ROUTES ''GET'' [[], ''api'', ''v1'', ''sessions'', sid, ''definition''] = Found EP_Definition [sid]"
    "route_in ROUTES ''POST'' [[], ''api'', ''v1'', ''sessions'', sid, ''sledgehammer_at''] = Found EP_Sledgehammer_At [sid]"
    "route_in ROUTES ''POST'' [[], ''api'', ''v1'', ''sessions'', sid, ''checkpoints''] = Found EP_Save [sid]"
    "route_in ROUTES ''POST'' [[], ''api'', ''v1'', ''sessions'', sid, ''rollback''] = Found EP_Rollback [sid]"
    "route_in ROUTES ''GET'' [[], ''api'', ''v1'', ''sessions'', sid, ''history''] = Found EP_History [sid]"
    "route_in ROUTES ''GET'' [[], ''api'', ''v1'', ''sessions'', sid, ''stats''] = Found EP_Stats [sid]"
    "x \<noteq> [] \<Longrightarrow> route_in ROUTES ''POST'' [[], ''api'', ''v1'', ''sessions'', sid, ''enter_theory'', x] = Found EP_Enter [sid, x]"
    "x \<noteq> [] \<Longrightarrow> route_in ROUTES ''POST'' [[], ''api'', ''v1'', ''sessions'', sid, ''checkpoints'', x, ''restore''] = Found EP_Restore [sid, x]"
  using plain_no_special(5) [OF assms] by (simp_all add: ROUTES_def api_def of_session_def)

lemma query_single:
  assumes "standard w" and "plain k" and "plain v"
  shows "query_of w (k @ CHR ''='' # v) = [(k, v)]"
  using assms standardD(3) [OF assms(1)] plain_no_special [OF assms(2)] plain_no_special [OF assms(3)]
  by (simp add: query_of_def split_on_single before_query_eq plain_path_plain Suc_diff_le)

lemma query_pair:
  assumes "standard w" and "plain k" and "plain v" and "plain k'" and "plain v'"
  shows "query_of w (k @ CHR ''='' # v @ CHR ''&'' # k' @ CHR ''='' # v') = [(k, v), (k', v')]"
proof -
  have "split_on (CHR ''&'') ((k @ CHR ''='' # v) @ CHR ''&'' # k' @ CHR ''='' # v') = [k @ CHR ''='' # v, k' @ CHR ''='' # v']"
    using plain_no_special(3) assms by (subst split_on_append) (auto simp: split_on_single)
  then show ?thesis
    using assms standardD(3) [OF assms(1)] plain_no_special(4)
    by (simp add: query_of_def before_query_eq plain_path_plain Suc_diff_le)
qed

lemma arrives_plain:
  assumes "standard w" and "plain sid" and "plain_path p" and "hr_url rq = session_url sid (CHR ''/'' # p)"
  shows "receive w (transmit w rq) =
    (case route_in ROUTES (hr_method rq) ([[], ''api'', ''v1'', ''sessions'', sid] @ split_on (CHR ''/'') p) of
       No_Route \<Rightarrow> Refused 404 | Other_Methods \<Rightarrow> Refused 405
     | Found ep args \<Rightarrow> endpoint_params w ep args (query_of w []) (hr_body rq))"
  using receive_plain [OF assms(1), of rq] session_path [OF assms(2,3)] assms(4) by simp

lemma arrives_query:
  assumes "standard w" and "plain sid" and "plain_path p" and "plain_query q" and "q \<noteq> []"
    and "hr_url rq = session_url sid (CHR ''/'' # p @ CHR ''?'' # q)"
  shows "receive w (transmit w rq) =
    (case route_in ROUTES (hr_method rq) ([[], ''api'', ''v1'', ''sessions'', sid] @ split_on (CHR ''/'') p) of
       No_Route \<Rightarrow> Refused 404 | Other_Methods \<Rightarrow> Refused 405
     | Found ep args \<Rightarrow> endpoint_params w ep args (query_of w q) (hr_body rq))"
proof -
  have "hr_url rq = session_url sid (CHR ''/'' # p) @ CHR ''?'' # q" using assms(6) by (simp add: session_url_def)
  then show ?thesis using receive_query [OF assms(1) _ _ assms(4,5)] session_path [OF assms(2,3)] by simp
qed

lemma plain_pieces [simp]:
  "plain_path ''release''" "plain_path ''commands''" "plain_path ''diagnostic''" "plain_path ''verify_chunk''"
  "plain_path ''last_report''" "plain_path ''document''" "plain_path ''sledgehammer''" "plain_path ''state''"
  "plain_path ''subgoals''" "plain_path ''source''" "plain_path ''facts/local''" "plain_path ''facts/global''"
  "plain_path ''command_at_line''" "plain_path ''goals''" "plain_path ''hover''" "plain_path ''definition''"
  "plain_path ''sledgehammer_at''" "plain_path ''checkpoints''" "plain_path ''rollback''" "plain_path ''history''"
  "plain_path ''stats''" "plain_path ''enter_theory''" "plain ''limit''" "plain ''line''" "plain ''col''"
  by (simp_all add: plain_path_def plain_def plain_char_def)

lemma plain_query_plain: "plain s \<Longrightarrow> plain_query s"
  by (auto simp: plain_def plain_query_def list_all_iff)

lemma plain_query_append [simp]: "plain_query (p @ q) = (plain_query p \<and> plain_query q)"
  by (simp add: plain_query_def)

lemma plain_query_Cons [simp]: "plain_query (c # q) = ((plain_char c \<or> c \<in> set ''=&'') \<and> plain_query q)"
  by (simp add: plain_query_def)

lemma get_with_query:
  assumes "standard w" and "plain sid" and "plain_path p" and "plain k"
    and "route_in ROUTES ''GET'' ([[], ''api'', ''v1'', ''sessions'', sid] @ split_on (CHR ''/'') p) = Found ep args"
    and "hr_method rq = ''GET''" and "hr_url rq = session_url sid (CHR ''/'' # p @ CHR ''?'' # k @ CHR ''='' # show_int n)"
  shows "receive w (transmit w rq) = endpoint_params w ep args [(k, show_int n)] (hr_body rq)"
proof -
  have "receive w (transmit w rq) = endpoint_params w ep args (query_of w (k @ CHR ''='' # show_int n)) (hr_body rq)"
    using arrives_query [OF assms(1,2,3) _ _ assms(7)] assms(4,5,6) plain_query_plain plain_show_int
    by (simp add: plain_query_plain)
  then show ?thesis using query_single [OF assms(1,4) plain_show_int] by simp
qed

lemma get_at_position:
  assumes "standard w" and "plain sid" and "plain_path p"
    and "route_in ROUTES ''GET'' ([[], ''api'', ''v1'', ''sessions'', sid] @ split_on (CHR ''/'') p) = Found ep args"
    and "hr_method rq = ''GET''"
    and "hr_url rq = session_url sid (CHR ''/'' # p @ CHR ''?'' # ''line='' @ show_int l @ ''&col='' @ show_int c)"
  shows "receive w (transmit w rq) = endpoint_params w ep args [(''line'', show_int l), (''col'', show_int c)] (hr_body rq)"
proof -
  let ?q = "''line'' @ CHR ''='' # show_int l @ CHR ''&'' # ''col'' @ CHR ''='' # show_int c"
  have "receive w (transmit w rq) = endpoint_params w ep args (query_of w ?q) (hr_body rq)"
    using arrives_query [OF assms(1,2,3), of ?q] assms(4,5,6)
    by (simp add: plain_query_plain plain_show_int plain_char_def)
  then show ?thesis using query_pair [OF assms(1) _ plain_show_int _ plain_show_int, of "''line''" "''col''" l c] by simp
qed

end
