(* ===== verification/Client_Properties.thy ===== *)
theory Client_Properties
  imports Http_Properties Lsp_Pool
begin

text \<open>
  The methods of the client reach the endpoints they are meant for, with the parameters they were called with, and the
  client waits longer than the server may take.
\<close>

section \<open>Calls on a session\<close>

text \<open>What a call puts into the path.\<close>

fun plain_call :: "session_call \<Rightarrow> bool" where
  "plain_call (Call_Enter_Theory name imports) = plain name"
| "plain_call c = True"

lemmas call_defs = send_def check_body_def with_body_def timed_def field_of_def with_int_def query_int_def
  model_defs

lemma session_call_received:
  assumes "standard w" and "plain sid" and "plain_call c"
  shows "receive w (transmit w (session_request_for own sid lid c)) = asked own sid c
    \<and> hr_lease (session_request_for own sid lid c) = (if truthy lid then lid else None)"
proof
  show "hr_lease (session_request_for own sid lid c) = (if truthy lid then lid else None)"
    by (cases c) (simp_all add: send_def lease_headers_def)
next
  note std = assms(1) and coerced [OF assms(1), simp] and session_routed [OF assms(2), simp]
    and standardD(6) [OF assms(1), simp]
  note at = arrives_plain [OF assms(1,2)]
  have root: "receive w (transmit w rq) = (case route_in ROUTES (hr_method rq) [[], ''api'', ''v1'', ''sessions'', sid] of
       No_Route \<Rightarrow> Refused 404 | Other_Methods \<Rightarrow> Refused 405
     | Found ep args \<Rightarrow> endpoint_params w ep args (query_of w []) (hr_body rq))"
    if "hr_url rq = session_url sid []" for rq
    using receive_plain [OF std, of rq] session_root_path [OF assms(2)] that by simp
  show "receive w (transmit w (session_request_for own sid lid c)) = asked own sid c"
  proof (cases c)
    case Call_Close
    then show ?thesis by (simp add: root send_def)
  next
    case Call_Release
    then show ?thesis by (simp add: at [of "''release''"] send_def)
  next
    case (Call_Enter_Theory name thys)
    have "plain name" using assms(3) Call_Enter_Theory by simp
    then have "plain_path (''enter_theory'' @ CHR ''/'' # name)" "name \<noteq> []" "CHR ''/'' \<notin> set name"
      using plain_path_append [of "''enter_theory''" name] plain_path_plain plain_no_special by auto
    then show ?thesis using Call_Enter_Theory
      by (cases thys)
        (simp_all add: at [of "''enter_theory/'' @ name"] send_def split_on_single call_defs)
  next
    case (Call_Execute command timeout)
    then show ?thesis by (simp add: at [of "''commands''"] call_defs)
  next
    case (Call_Diagnostic command timeout)
    then show ?thesis by (simp add: at [of "''diagnostic''"] call_defs)
  next
    case (Call_Verify_Chunk chunk timeout)
    then show ?thesis by (simp add: at [of "''verify_chunk''"] call_defs)
  next
    case Call_Last_Report
    then show ?thesis by (simp add: at [of "''last_report''"] send_def)
  next
    case (Call_Load x name thys timeout rep)
    then show ?thesis by (simp add: at [of "''document''"] call_defs)
  next
    case (Call_Sledgehammer timeout_s)
    then show ?thesis by (simp add: at [of "''sledgehammer''"] call_defs)
  next
    case Call_Proof_State
    then show ?thesis by (simp add: at [of "''state''"] send_def)
  next
    case Call_Subgoals
    then show ?thesis by (simp add: at [of "''subgoals''"] send_def)
  next
    case Call_Source
    then show ?thesis by (simp add: at [of "''source''"] send_def)
  next
    case Call_Local_Facts
    then show ?thesis by (simp add: at [of "''facts/local''"] send_def)
  next
    case (Call_Sledgehammer_At l g t)
    then show ?thesis by (simp add: at [of "''sledgehammer_at''"] call_defs)
  next
    case Call_Save_Checkpoint
    then show ?thesis by (simp add: at [of "''checkpoints''"] send_def)
  next
    case Call_Rollback
    then show ?thesis by (simp add: at [of "''rollback''"] send_def)
  next
    case Call_Stats
    then show ?thesis by (simp add: at [of "''stats''"] send_def)
  next
    case (Call_Global_Facts n)
    then show ?thesis by (simp add: get_with_query [OF std assms(2), of "''facts/global''" "''limit''"] call_defs)
  next
    case (Call_Command_At n)
    then show ?thesis
      by (simp add: get_with_query [OF std assms(2), of "''command_at_line''" "''line''"] call_defs line_query_def)
  next
    case (Call_Goals_At n)
    then show ?thesis by (simp add: get_with_query [OF std assms(2), of "''goals''" "''line''"] call_defs line_query_def)
  next
    case (Call_History n)
    then show ?thesis by (simp add: get_with_query [OF std assms(2), of "''history''" "''limit''"] call_defs)
  next
    case (Call_Hover_At l k)
    then show ?thesis by (simp add: get_at_position [OF std assms(2), of "''hover''"] call_defs line_query_def)
  next
    case (Call_Definition_At l k)
    then show ?thesis by (simp add: get_at_position [OF std assms(2), of "''definition''"] call_defs line_query_def)
  next
    case (Call_Restore_Checkpoint i)
    have "plain_path (''checkpoints'' @ CHR ''/'' # show_int i @ CHR ''/'' # ''restore'')"
      by (intro plain_path_append plain_path_plain [OF plain_show_int])
        (simp_all add: plain_path_def plain_def plain_char_def)
    then show ?thesis using Call_Restore_Checkpoint plain_no_special [OF plain_show_int, of i]
      by (simp add: at [of "''checkpoints/'' @ show_int i @ ''/restore''"] send_def split_on_append with_int_def)
  qed
qed


section \<open>Calls on the server\<close>

fun server_asked :: "server_call \<Rightarrow> request" where
  "server_asked Call_Health = Ask EP_Root []"
| "server_asked (Call_Create thys fld lbl grp heap project) =
     Ask_Create \<lparr>sr_theories = thys, sr_field = fld, sr_label = lbl, sr_group = grp, sr_heap = heap, sr_project = project\<rparr>"
| "server_asked (Call_Acquire thys fld reuse grp heap project lbl) =
     Ask_Acquire \<lparr>sr_theories = Some (or_else thys []), sr_field = fld, sr_label = lbl, sr_group = grp, sr_heap = heap,
       sr_project = project\<rparr> reuse"
| "server_asked (Call_Heap_Build grp project name) = Ask_Build grp project name"
| "server_asked (Call_List_Heaps grp) = Ask_Heaps (if truthy grp then grp else None)"
| "server_asked Call_List_Available = Ask EP_Heaps_Available []"
| "server_asked (Call_Parse_Header x) = Ask_Parse x"
| "server_asked (Call_Get_Heap grp project) = Ask EP_Manifest [grp, project]"
| "server_asked (Call_Delete_Heap grp project) = Ask EP_Delete_Heap [grp, project]"
| "server_asked Call_Heap_Groups = Ask EP_Heap_Groups []"
| "server_asked (Call_Delete_Group grp) = Ask EP_Delete_Group [grp]"
| "server_asked (Call_Big_Step name x fld deps t) = Ask_Big_Step name x (or_else deps []) fld t"
| "server_asked Call_List_Sessions = Ask EP_List []"

fun plain_server_call :: "server_call \<Rightarrow> bool" where
  "plain_server_call (Call_List_Heaps grp) = (truthy grp \<longrightarrow> plain (or_else grp []))"
| "plain_server_call (Call_Get_Heap grp project) = (plain grp \<and> plain_path project)"
| "plain_server_call (Call_Delete_Heap grp project) =
     (plain grp \<and> plain_path project \<and> (grp \<noteq> ''images'' \<or> CHR ''/'' \<in> set project))"
| "plain_server_call (Call_Delete_Group grp) = plain grp"
| "plain_server_call (Call_Parse_Header x) = False"
| "plain_server_call c = True"

lemma map_of_given [simp]:
  "map_of (given k f x @ kvs) j = (if j = k \<and> x \<noteq> None then map_option f x else map_of kvs j)"
  "map_of (given k f x) j = (if j = k then map_option f x else None)"
  by (auto simp: given_def split: option.split)

lemma query_none: "standard w \<Longrightarrow> query_of w [] = [([], [])]"
  using standardD(3) [of w "[]"] by (simp add: query_of_def before_def plain_path_def)

lemma json_strs_Nil: "json_strs [] = JList []"
  by (simp add: json_strs_def)

lemma url_plain:
  "plain_path BASE_URL" "plain_path HEAPS_URL" "plain_path HEAP_GROUPS_URL" "plain_path (BASE_URL @ ''/acquire'')"
  "plain_path (BASE_URL @ ''/bigstep'')" "plain_path (HEAPS_URL @ ''/build'')" "plain_path (HEAPS_URL @ ''/available'')"
  "plain_path (BASE_URL @ ''/parse_theory_header'')" "plain_path ''/''"
  by (simp_all add: BASE_URL_def HEAPS_URL_def HEAP_GROUPS_URL_def plain_path_def plain_def plain_char_def)

lemma url_segments:
  "split_on (CHR ''/'') BASE_URL = [[], ''api'', ''v1'', ''sessions'']"
  "split_on (CHR ''/'') HEAPS_URL = [[], ''api'', ''v1'', ''heaps'']"
  "split_on (CHR ''/'') HEAP_GROUPS_URL = [[], ''api'', ''v1'', ''heap_groups'']"
  "split_on (CHR ''/'') (BASE_URL @ ''/acquire'') = [[], ''api'', ''v1'', ''sessions'', ''acquire'']"
  "split_on (CHR ''/'') (BASE_URL @ ''/bigstep'') = [[], ''api'', ''v1'', ''sessions'', ''bigstep'']"
  "split_on (CHR ''/'') (BASE_URL @ ''/parse_theory_header'') = [[], ''api'', ''v1'', ''sessions'', ''parse_theory_header'']"
  "split_on (CHR ''/'') (HEAPS_URL @ ''/build'') = [[], ''api'', ''v1'', ''heaps'', ''build'']"
  "split_on (CHR ''/'') (HEAPS_URL @ ''/available'') = [[], ''api'', ''v1'', ''heaps'', ''available'']"
  by (simp_all add: BASE_URL_def HEAPS_URL_def HEAP_GROUPS_URL_def)

lemma heap_path:
  "plain g \<Longrightarrow> plain_path p \<Longrightarrow> plain_path (HEAPS_URL @ CHR ''/'' # g @ CHR ''/'' # p)
    \<and> split_on (CHR ''/'') (HEAPS_URL @ CHR ''/'' # g @ CHR ''/'' # p) = [[], ''api'', ''v1'', ''heaps'', g] @ split_on (CHR ''/'') p"
  using plain_no_special(1) [of g]
  by (simp add: HEAPS_URL_def split_on_append plain_path_def plain_def plain_char_def)

lemma group_path:
  "plain g \<Longrightarrow> plain_path (HEAP_GROUPS_URL @ CHR ''/'' # g)
    \<and> split_on (CHR ''/'') (HEAP_GROUPS_URL @ CHR ''/'' # g) = [[], ''api'', ''v1'', ''heap_groups'', g]"
  using plain_no_special(1) [of g]
  by (simp add: HEAP_GROUPS_URL_def split_on_single plain_path_def plain_def plain_char_def)

lemma heap_routed:
  assumes "g \<noteq> []" and "ss \<noteq> []"
  shows "route_in ROUTES ''GET'' ([[], ''api'', ''v1'', ''heaps'', g] @ ss) = Found EP_Manifest [g, join ''/'' ss]"
    and "g \<noteq> ''images'' \<or> length ss \<noteq> 1 \<Longrightarrow>
      route_in ROUTES ''DELETE'' ([[], ''api'', ''v1'', ''heaps'', g] @ ss) = Found EP_Delete_Heap [g, join ''/'' ss]"
  using assms by (cases ss; cases "tl ss"; auto simp: ROUTES_def api_def of_session_def)+

lemma image_routed: "s \<noteq> [] \<Longrightarrow> route_in ROUTES ''DELETE'' [[], ''api'', ''v1'', ''heaps'', ''images'', s] = Found EP_Delete_Image [s]"
  by (simp add: ROUTES_def api_def of_session_def)

lemma split_on_two: "CHR ''/'' \<in> set p \<Longrightarrow> length (split_on (CHR ''/'') p) \<noteq> 1"
proof -
  assume "CHR ''/'' \<in> set p"
  then obtain u v where "p = u @ CHR ''/'' # v" by (meson split_list)
  then show ?thesis by (cases "split_on (CHR ''/'') u"; cases "split_on (CHR ''/'') v") (auto simp: split_on_at_sep)
qed

lemma send_fields [simp]:
  "hr_url (send own m url body lid t) = url" "hr_method (send own m url body lid t) = m"
  "hr_body (send own m url body lid t) = body"
  by (simp_all add: send_def)

text \<open>Every call on the server arrives. A call without a session whose names need no quoting is received as
  the request it means: creation, acquisition, the listings, the heap endpoints and the batch build, each with the
  parameters of the call and the server's defaults for what the call leaves out.\<close>

theorem server_calls_arrive:
  assumes "standard w" and "plain_server_call c"
  shows "receive w (transmit w (server_request_for own c)) = server_asked c"
proof -
  note std = assms(1) and coerced [OF assms(1), simp] and at = receive_plain [OF assms(1)]
  note urls = url_segments ROUTES_def api_def of_session_def
  have arrive: "receive w (transmit w (send own m url body lid t)) = (case route_in ROUTES m (split_on (CHR ''/'') url) of
       No_Route \<Rightarrow> Refused 404 | Other_Methods \<Rightarrow> Refused 405 | Found ep args \<Rightarrow> endpoint_params w ep args (query_of w []) body)"
    if "plain_path url" for m url body lid t
    using at [of "send own m url body lid t"] that by (simp split: routed.split)
  show ?thesis
  proof (cases c)
    case (Call_Create thys fld lbl grp heap project)
    have "check_body w SessionCreateRequest (Some (JObj (given ''theories'' json_strs thys @ given ''field'' JStr fld
        @ given ''label'' JStr lbl @ given ''task_group'' JStr grp @ given ''heap_session'' JStr heap
        @ given ''project'' JStr project))) = Some [(''theories'', json_opt json_strs thys), (''field'', json_opt JStr fld),
        (''label'', json_opt JStr lbl), (''task_group'', json_opt JStr grp), (''heap_session'', json_opt JStr heap),
        (''project'', json_opt JStr project)]"
      by (cases thys; cases fld; cases lbl; cases grp; cases heap; cases project)
        (simp_all add: check_body_def model_defs json_opt_def given_def)
    then show ?thesis using Call_Create
      by (simp add: arrive url_plain urls with_body_def requested_session_def field_of_def)
  next
    case (Call_Acquire thys fld reuse grp heap project lbl)
    have "check_body w SessionAcquireRequest (Some (JObj ([(''reuse_dirty'', JBool reuse)]
        @ given ''theories'' json_strs thys @ given ''field'' JStr fld @ given ''task_group'' JStr grp
        @ given ''heap_session'' JStr heap @ given ''project'' JStr project @ given ''label'' JStr lbl))) =
        Some [(''theories'', json_strs (or_else thys [])), (''field'', json_opt JStr fld), (''reuse_dirty'', JBool reuse),
        (''task_group'', json_opt JStr grp), (''heap_session'', json_opt JStr heap), (''project'', json_opt JStr project),
        (''label'', json_opt JStr lbl)]"
      by (cases thys; cases fld; cases lbl; cases grp; cases heap; cases project)
        (simp_all add: check_body_def model_defs json_opt_def given_def or_else_def json_strs_Nil)
    then show ?thesis using Call_Acquire
      by (simp add: arrive url_plain urls with_body_def requested_session_def field_of_def)
  next
    case (Call_Heap_Build grp project name)
    then show ?thesis
      by (cases name)
        (simp_all add: arrive url_plain urls with_body_def check_body_def model_defs given_def field_of_def)
  next
    case (Call_Big_Step name x fld deps t)
    then show ?thesis
      by (cases "truthy deps")
        (auto simp: arrive url_plain urls with_body_def check_body_def model_defs field_of_def timed_def truthy_def or_else_def
          split: option.splits if_splits)
  next
    case (Call_List_Heaps grp)
    show ?thesis
    proof (cases "truthy grp")
      case True
      then have g: "plain (or_else grp [])" using assms(2) Call_List_Heaps by simp
      have "plain ''task_group''" by (simp add: plain_def plain_char_def)
      then have "query_of w (''task_group'' @ CHR ''='' # or_else grp []) = [(''task_group'', or_else grp [])]"
        by (rule query_single [OF std _ g])
      moreover have "or_else grp [] = the grp \<and> grp = Some (the grp)" using True by (auto simp: truthy_def or_else_def split: option.splits)
      ultimately show ?thesis using Call_List_Heaps True g receive_query [OF std, of "server_request_for own c" HEAPS_URL "''task_group'' @ CHR ''='' # or_else grp []"]
        by (simp add: url_plain urls plain_query_plain plain_char_def)
    next
      case False
      then show ?thesis using Call_List_Heaps by (simp add: arrive url_plain urls query_none [OF std])
    qed
  next
    case (Call_Get_Heap grp project)
    then have "plain grp" "plain_path project" using assms(2) by auto
    then show ?thesis using Call_Get_Heap heap_path [of grp project] heap_routed(1) [of grp "split_on (CHR ''/'') project"]
        plain_no_special(5)
      by (simp add: arrive)
  next
    case (Call_Delete_Heap grp project)
    then have "plain grp" "plain_path project" "grp \<noteq> ''images'' \<or> length (split_on (CHR ''/'') project) \<noteq> 1"
      using assms(2) split_on_two by auto
    then show ?thesis using Call_Delete_Heap heap_path [of grp project] heap_routed(2) [of grp "split_on (CHR ''/'') project"]
        plain_no_special(5)
      by (simp add: arrive)
  next
    case (Call_Delete_Group grp)
    then show ?thesis using assms(2) group_path [of grp] plain_no_special(5) [of grp]
      by (simp add: arrive ROUTES_def api_def of_session_def)
  next
    case (Call_Parse_Header x)
    then show ?thesis using assms(2) by simp
  qed (simp_all add: arrive url_plain urls)
qed

text \<open>The header parse is asked for under \<open>/sessions\<close>, where no route takes it.\<close>

theorem header_call_refused:
  assumes "standard w"
  shows "receive w (transmit w (server_request_for own (Call_Parse_Header x))) = Refused 405"
  using receive_plain [OF assms, of "server_request_for own (Call_Parse_Header x)"]
  by (simp add: url_plain url_segments ROUTES_def api_def of_session_def)

text \<open>In a group named \<open>images\<close>, deleting the heap of a project without a slash deletes an image.\<close>

theorem images_group_deletes_image:
  assumes "standard w" and "plain project"
  shows "receive w (transmit w (server_request_for own (Call_Delete_Heap ''images'' project))) = Ask_Delete_Image project None"
proof -
  have "plain ''images''" by (simp add: plain_def plain_char_def)
  note query_none [OF assms(1)]
  moreover note heap_path [OF \<open>plain ''images''\<close> plain_path_plain [OF assms(2)]] image_routed [of project]
    plain_no_special [OF assms(2)]
  ultimately show ?thesis
    using receive_plain [OF assms(1), of "server_request_for own (Call_Delete_Heap ''images'' project)"]
    by (simp add: split_on_single)
qed

text \<open>The time a request gives the server.\<close>

fun server_budget :: "request \<Rightarrow> real option" where
  "server_budget (On_Session (Execute c t) sid) = Some t"
| "server_budget (On_Session (route.Diagnostic c t) sid) = Some t"
| "server_budget (On_Session (Verify_Chunk c t) sid) = Some t"
| "server_budget (On_Session (Load_Document x n i t r) sid) = Some t"
| "server_budget (On_Session (route.Sledgehammer t) sid) = Some (of_int t)"
| "server_budget (On_Session (Sledgehammer_At l g t) sid) = Some (of_int t)"
| "server_budget (Ask_Big_Step name x deps fld t) = Some t"
| "server_budget rq = None"

text \<open>The client outwaits the server. For every call on a session with a time budget, the one exception
  being the sledgehammer at a line, the client waits at least half a minute longer than the budget it sends, so it
  learns of a timeout from the server's answer.\<close>

theorem client_outwaits_server:
  assumes "server_budget (asked own sid c) = Some t" and "\<forall>l g s. c \<noteq> Call_Sledgehammer_At l g s"
  shows "t + 30 \<le> hr_timeout (session_request_for own sid lid c)"
  using assms by (cases c) (auto simp: send_def)

lemma late_sledgehammer_unanswered:
  "hr_timeout (session_request_for 30 sid lid (Call_Sledgehammer_At line 1 t)) = 30"
  "server_budget (asked 30 sid (Call_Sledgehammer_At line 1 t)) = Some (of_int t)"
  by (simp_all add: send_def)

section \<open>An ideal stack\<close>

lemma digits_value_snoc:
  "xs \<noteq> [] \<Longrightarrow> list_all is_digit_ascii xs \<Longrightarrow> digits_value acc xs = Some v \<Longrightarrow> is_digit_ascii d
    \<Longrightarrow> digits_value acc (xs @ [d]) = Some (10 * v + (int (ord d) - 48))"
proof (induction xs arbitrary: acc)
  case (Cons c cs)
  show ?case
  proof (cases cs)
    case Nil
    then show ?thesis using Cons.prems by (auto simp: Let_def is_digit_ascii_def)
  next
    case (Cons e es)
    then have "e \<noteq> CHR ''_''" using Cons.prems by (auto simp: is_digit_ascii_def)
    then show ?thesis using Cons Cons.IH Cons.prems by (auto simp: Let_def)
  qed
qed simp

lemma show_nat_digits: "list_all is_digit_ascii (show_nat n) \<and> digits_value 0 (show_nat n) = Some (int n)"
proof (induction n rule: show_nat.induct)
  case (1 n)
  have digit: "is_digit_ascii (char_of (48 + m :: nat)) \<and> ord (char_of (48 + m :: nat)) = 48 + m" if "m < 10" for m
    using that by (simp add: is_digit_ascii_def take_bit_eq_mod of_char_of)
  show ?case
  proof (cases "n < 10")
    case True
    then show ?thesis using digit [of n] by (simp add: show_nat.simps [of n] Let_def)
  next
    case False
    have "show_nat (n div 10) \<noteq> []" using show_nat_plain by blast
    then have "digits_value 0 (show_nat (n div 10) @ [char_of (48 + n mod 10)]) = Some (10 * int (n div 10) + int (n mod 10))"
      using digits_value_snoc [of "show_nat (n div 10)" 0 _ "char_of (48 + n mod 10)"] 1 False digit [of "n mod 10"] by simp
    moreover have "10 * int (n div 10) + int (n mod 10) = int n" by presburger
    ultimately show ?thesis using 1 False digit [of "n mod 10"] by (simp add: show_nat.simps [of n])
  qed
qed

lemma digit_facts: "is_digit_ascii c \<Longrightarrow> \<not> is_space c \<and> c \<noteq> CHR ''-'' \<and> c \<noteq> CHR ''+''"
  by (auto simp: is_digit_ascii_def is_space_def Let_def)

lemma show_nat_stripped: "strip (show_nat k) = show_nat k" "strip (CHR ''-'' # show_nat k) = CHR ''-'' # show_nat k"
proof -
  have ne: "show_nat k \<noteq> []" and d: "\<forall>c \<in> set (show_nat k). \<not> is_space c"
    using show_nat_plain show_nat_digits [of k] digit_facts by (auto simp: list_all_iff)
  show "strip (show_nat k) = show_nat k" using ne d by (simp add: strip_id_iff)
  show "strip (CHR ''-'' # show_nat k) = CHR ''-'' # show_nat k"
    using ne d by (subst strip_id_iff) (simp add: is_space_def)
qed

lemma py_int_show_int: "py_int (show_int n) = Some n"
proof -
  obtain c cs where c: "show_nat (nat \<bar>n\<bar>) = c # cs" using show_nat_plain [of "nat \<bar>n\<bar>"] by (cases "show_nat (nat \<bar>n\<bar>)") auto
  then have "is_digit_ascii c" using show_nat_digits [of "nat \<bar>n\<bar>"] by simp
  then have "c \<noteq> CHR ''-''" "c \<noteq> CHR ''+''" using digit_facts by auto
  moreover have "digits_value 0 (c # cs) = Some \<bar>n\<bar>" using show_nat_digits [of "nat \<bar>n\<bar>"] c
    by (simp del: digits_value.simps)
  moreover have "show_int n = (if n < 0 then CHR ''-'' # c # cs else c # cs)" using c by (auto simp: show_int_def)
  moreover have "strip (show_int n) = show_int n" using show_nat_stripped by (simp add: show_int_def)
  ultimately show ?thesis by (auto simp: py_int_def simp del: digits_value.simps)
qed

definition ideal :: stack where
  "ideal = \<lparr>quote_url = id, unquote = id, coerce = (\<lambda>t v. if conforms t v then Some (canonical t v) else None),
     read_int = py_int, command_default = 30, bigstep_default = 300\<rparr>"

lemma conforms_canonical: "conforms t v \<Longrightarrow> conforms t (canonical t v)"
  by (induction t v rule: canonical.induct) (auto split: json.splits simp: list_all_iff)

lemma ideal_standard: "standard ideal"
  by (simp add: standard_def ideal_def py_int_show_int conforms_canonical)


theorem client_outwaits_server_witness:
  "hr_timeout (session_request_for 30 ''s-1'' None (Call_Execute ''lemma x'' (Some 10))) \<ge> 40"
  using client_outwaits_server [of 30 "''s-1''" "Call_Execute ''lemma x'' (Some 10)" 10 None] by (simp add: budget_def)


theorem server_calls_arrive_witness:
  "receive ideal (transmit ideal (server_request_for 30 (Call_Get_Heap ''alpha'' ''/tmp/hp1''))) =
     Ask EP_Manifest [''alpha'', ''/tmp/hp1'']"
  using server_calls_arrive [OF ideal_standard, of "Call_Get_Heap ''alpha'' ''/tmp/hp1''" 30]
  by (simp add: plain_path_def plain_def plain_char_def)

section \<open>The tools of the editor server\<close>

text \<open>The client's method behind each query of the editor server's tools.\<close>

fun client_method :: "client_call \<Rightarrow> session_call" where
  "client_method (GoalsAtLine line) = Call_Goals_At line"
| "client_method (CommandAtLine line) = Call_Command_At line"
| "client_method GetProofState = Call_Proof_State"
| "client_method GetSource = Call_Source"
| "client_method (client_call.Diagnostic command) = Call_Diagnostic command None"
| "client_method GetLocalFacts = Call_Local_Facts"
| "client_method (GetGlobalFacts limit) = Call_Global_Facts limit"
| "client_method (HoverAt line column) = Call_Hover_At line column"
| "client_method (DefinitionAt line column) = Call_Definition_At line column"
| "client_method (client_call.Sledgehammer timeout_s) = Call_Sledgehammer timeout_s"
| "client_method (SledgehammerAt line subgoal timeout_s) = Call_Sledgehammer_At line subgoal timeout_s"
| "client_method SaveCheckpoint = Call_Save_Checkpoint"
| "client_method (RestoreCheckpoint i) = Call_Restore_Checkpoint i"
| "client_method client_call.Rollback = Call_Rollback"
| "client_method GetHistory = Call_History 50"
| "client_method GetLastReport = Call_Last_Report"

end
