(* ===== verification/Router_Properties.thy ===== *)
theory Router_Properties
  imports Router
begin

text \<open>
  What the HTTP endpoints guarantee: the lease in front of every session endpoint and what an endpoint
  may change, the verdict on a chunk, sessions on heaps, and what the listings and the closing of a session
  require.
\<close>

section \<open>What an endpoint leaves alone\<close>

lemma keeps_sum [frame]:
  "\<lbrakk>\<And>e. keeps f (h e); \<And>v. keeps f (k v)\<rbrakk> \<Longrightarrow> keeps f (case x of Inl e \<Rightarrow> h e | Inr v \<Rightarrow> k v)"
  by (cases x) simp_all

text \<open>A part of the session that no operation of the session touches is not touched by any endpoint.\<close>

locale untouched =
  fixes f :: "'b session \<Rightarrow> 'x" and api :: "'b raw_api"
  assumes prover_moves: "f (s\<lparr>raw := b\<rparr>) = f s"
    and time_passes: "f (s\<lparr>ticks := n\<rparr>) = f s"
    and theory_entered: "f (s\<lparr>entered_thy := nm\<rparr>) = f s"
    and commands: "keeps f (execute_command api c t)"
    and loads: "keeps f (load_document api txt thy imps t rep)"
    and diagnostics: "keeps f (run_diagnostic api c t)"
    and chunks: "keeps f (verify_chunk api c t)"
    and states: "keeps f (get_proof_state api t)"
    and saves: "keeps f (save_checkpoint api t)"
    and restores: "keeps f (restore_checkpoint api i t)"
    and hammers: "keeps f (sledgehammer_methods api k ht)"
    and hammers_at: "keeps f (sledgehammer_at api l g k ht)"
begin

lemmas kept = commands loads diagnostics chunks states saves restores hammers hammers_at

lemma keeps_page:
  assumes api: "api_of srv = api"
  shows "keeps f (page_of srv rt)"
proof (cases rt)
  case (Execute c t)
  then show ?thesis by (simp add: execute_page_def api, intro frame kept)
next
  case (Verify_Chunk c t)
  then show ?thesis by (simp add: chunk_page_def api, intro frame kept)
next
  case (Load_Document x1 x2 x3 x4 x5)
  then show ?thesis by (simp add: load_page_def api, intro frame kept)
next
  case Last_Report
  then show ?thesis by (simp add: last_report_page_def, intro frame)
next
  case (Diagnostic c t)
  then show ?thesis by (simp add: diagnostic_page_def api, intro frame kept)
next
  case Proof_State
  then show ?thesis by (simp add: state_page_def proof_state_page_def api, intro frame kept)
next
  case Subgoals
  then show ?thesis by (simp add: subgoals_page_def proof_state_page_def api, intro frame kept)
next
  case Local_Facts
  then show ?thesis by (simp add: facts_page_def api, intro frame prover_moves)
next
  case (Global_Facts n)
  then show ?thesis by (simp add: facts_page_def api, intro frame prover_moves)
next
  case (Command_At l)
  then show ?thesis by (simp add: command_at_page_def api, intro frame prover_moves)
next
  case (Goals_At l)
  then show ?thesis by (simp add: goals_page_def api, intro frame prover_moves)
next
  case (Hover_At l c)
  then show ?thesis by (simp add: hover_page_def api, intro frame prover_moves)
next
  case (Definition_At l c)
  then show ?thesis by (simp add: definition_page_def api, intro frame prover_moves)
next
  case (Sledgehammer_At l g k)
  then show ?thesis by (simp add: hammer_at_page_def api, intro frame kept time_passes)
next
  case (Sledgehammer k)
  then show ?thesis by (simp add: hammer_page_def api, intro frame kept time_passes)
next
  case Source
  then show ?thesis by (simp add: source_page_def api, intro frame prover_moves)
next
  case Save_Checkpoint
  then show ?thesis by (simp add: save_page_def api, intro frame kept)
next
  case (Restore_Checkpoint i)
  then show ?thesis by (simp add: restore_page_def api, intro frame kept)
next
  case Rollback
  then show ?thesis by (simp add: rollback_page_def api, intro frame prover_moves)
next
  case (Enter_Theory nm imps)
  then show ?thesis by (simp add: enter_page_def api, intro frame prover_moves theory_entered)
next
  case (History n)
  then show ?thesis by (simp add: history_page_def, intro frame)
next
  case Stats
  then show ?thesis by (simp add: stats_page_def, intro frame time_passes)
next
  case Info
  then show ?thesis by (simp add: info_page_def, intro frame)
qed

end

interpretation counter: untouched active_requests api
  by unfold_locales (auto intro: frame)

text \<open>Who the session is and who holds it.\<close>

definition standing :: "'b session \<Rightarrow> pystr \<times> bool \<times> session_status \<times> bool \<times> pystr option" where
  "standing s = (session_id s, closed s, session_status s, leased s, lease_id s)"

lemma standing_simps [simp]:
  "standing (s\<lparr>raw := b\<rparr>) = standing s" "standing (s\<lparr>ticks := n\<rparr>) = standing s"
  "standing (s\<lparr>entered_thy := nm\<rparr>) = standing s" "standing (s\<lparr>last_chunk_report := cr\<rparr>) = standing s"
  "standing (s\<lparr>checkpoints := ch\<rparr>) = standing s" "standing (s\<lparr>command_history := hs\<rparr>) = standing s"
  "standing (touch t s) = standing s" "standing (acquire_request s) = standing s"
  "standing (release_request s) = standing s" "standing (reset_bookkeeping s) = standing s"
  by (simp_all add: standing_def touch_def acquire_request_def release_request_def reset_bookkeeping_def)

lemma keeps_standing [frame]:
  "keeps standing (execute_command api c t)" "keeps standing (load_document api txt thy imps t rep)"
  "keeps standing (run_diagnostic api c t)" "keeps standing (verify_chunk api c t)"
  "keeps standing (get_proof_state api t)" "keeps standing (save_checkpoint api t)"
  "keeps standing (restore_checkpoint api i t)" "keeps standing (sledgehammer_methods api k ht)"
  "keeps standing (sledgehammer_at api l g k ht)"
  unfolding execute_command_def load_document_def load_body_def run_diagnostic_def verify_chunk_def
    get_proof_state_def save_checkpoint_def restore_checkpoint_def
  by ((intro frame; simp)+)

interpretation holder: untouched standing api
  by unfold_locales (auto intro: frame)

lemma page_same_life: "page_of srv rt s = (r, s') \<Longrightarrow> same_life s s'"
  using keepsD [OF counter.keeps_page [OF refl]] keepsD [OF holder.keeps_page [OF refl]]
  by (fastforce simp: same_life_def standing_def)

section \<open>Access\<close>

text \<open>The status a request is refused with, if it is.\<close>

definition refusal :: "'b server \<Rightarrow> route \<Rightarrow> pystr \<Rightarrow> pystr option \<Rightarrow> 'b pool \<Rightarrow> nat option" where
  "refusal srv rt req_id x p =
     (case check_request srv rt of Inl e \<Rightarrow> Some 422
      | Inr rt' \<Rightarrow>
          if \<not> truthy x then Some 403
          else case normalize_session_id req_id of Inl e \<Rightarrow> Some 500
          | Inr sid \<Rightarrow> (case od_get sid (lru p) of None \<Rightarrow> Some 404
              | Some s \<Rightarrow> if leased s \<and> lease_id s = x then None else Some 403))"

lemma check_request_error: "check_request srv rt = Inl e \<Longrightarrow> \<exists>msg. e = HTTPError 422 msg"
  by (cases rt) (auto simp: unprocessable_def split: if_splits sum.splits)

lemma error_status [simp]:
  "status (handle_exception (HTTPError n d)) = n"
  "status (handle_exception (session_error c a b)) = status_of_class c"
  by (simp_all add: session_error_def status_handle_exception)
    (simp add: handle_exception_def mro_def answer_def)

lemma set_to_end: "od_get k d = Some w \<Longrightarrow> od_set k v (od_to_end k d) = od_pop k d @ [(k, v)]"
proof -
  have "map (\<lambda>(j, u). (j, if j = k then v else u)) (od_pop k d) = od_pop k d"
    by (rule map_idI) (auto simp: od_pop_def)
  then show "od_get k d = Some w \<Longrightarrow> ?thesis" by (simp add: od_to_end_def od_set_def)
qed

lemma lease_refused: "truthy x \<Longrightarrow> \<not> (leased s \<and> lease_id s = x)
    \<Longrightarrow> \<exists>e. require_lease x s = Inl e \<and> status (handle_exception e) = 403"
  by (auto simp: require_lease_def lease_error_def status_of_class_def)

lemma with_session_run:
  assumes inv: "pool_inv cap (mpool m)" and norm: "normalize_session_id req_id = Inr sid"
    and get: "od_get sid (lru (mpool m)) = Some s" and x: "truthy x" "leased s" "lease_id s = x"
    and op: "op s = (r, s')"
  shows "with_session req_id x op m =
    (r, m\<lparr>mpool := (mpool m)\<lparr>lru := od_pop sid (lru (mpool m)) @ [(sid, s')]\<rparr>\<rparr>)"
proof -
  have "require_lease_id x = Inr (or_else x [])" "x = Some (or_else x [])"
    using x(1) by (auto simp: require_lease_id_def truthy_def or_else_def split: option.splits)
  moreover have "session_id s = sid" using live_get [OF inv get] by simp
  moreover have "live_session sid (mpool m) = Inr s" using inv get by (simp add: live_session_inv)
  moreover have "require_lease x s = Inr ()" using x by (simp add: require_lease_def)
  ultimately show ?thesis
    using norm get op set_to_end [OF get]
    by (simp add: with_session_def leased_session_def andThen_def on_pool_def get_session_def run_on_def)
qed

lemma with_session_refused:
  assumes "pool_inv cap (mpool m)"
    and "\<not> truthy x \<and> n = 403 \<or> truthy x \<and> (case normalize_session_id req_id of Inl e \<Rightarrow> n = 500
      | Inr sid \<Rightarrow> (case od_get sid (lru (mpool m)) of None \<Rightarrow> n = 404
          | Some s \<Rightarrow> \<not> (leased s \<and> lease_id s = x) \<and> n = 403))"
  shows "\<exists>e. with_session req_id x op m = (Inl e, m) \<and> status (handle_exception e) = n"
proof (cases "truthy x")
  case False
  then show ?thesis using assms(2)
    by (simp add: with_session_def leased_session_def andThen_def require_lease_id_def status_of_class_def)
next
  case True
  then have x: "require_lease_id x = Inr (or_else x [])" "Some (or_else x []) = x"
    by (auto simp: require_lease_id_def truthy_def or_else_def split: option.splits)
  have run: "with_session req_id x op m = (Inl e, m)" if "get_session req_id x True (mpool m) = (Inl e, mpool m)" for e
    using that x by (simp add: with_session_def leased_session_def andThen_def on_pool_def)
  show ?thesis
  proof (cases "normalize_session_id req_id")
    case (Inl e)
    then have "status (handle_exception e) = 500"
      by (auto simp: normalize_session_id_def status_of_class_def split: option.splits)
    moreover have "get_session req_id x True (mpool m) = (Inl e, mpool m)" using Inl by (simp add: get_session_def)
    ultimately show ?thesis using run True assms(2) Inl by fastforce
  next
    case (Inr sid)
    show ?thesis
    proof (cases "od_get sid (lru (mpool m))")
      case None
      then have "get_session req_id x True (mpool m) = (Inl (no_session sid), mpool m)"
        using Inr by (simp add: get_session_def live_session_def)
      then show ?thesis using run True assms(2) Inr None by (auto simp: no_session_def status_of_class_def)
    next
      case (Some s)
      then obtain e where e: "require_lease x s = Inl e" "status (handle_exception e) = 403"
        using lease_refused [OF True, of s] True assms(2) Inr by auto
      then have "get_session req_id x True (mpool m) = (Inl e, mpool m)"
        using Inr Some assms(1) by (simp add: get_session_def live_session_inv)
      then show ?thesis using run True assms(2) Inr Some e(2) by auto
    qed
  qed
qed

text \<open>A request on a session: a refusal with a status, or the operation on exactly that session.\<close>

lemma guarded_endpoint:
  assumes "pool_inv cap (mpool m)" and "serve srv rt req_id x m = (r, m')"
  shows "case refusal srv rt req_id x (mpool m) of
      Some n \<Rightarrow> m' = m \<and> (\<exists>e. r = Inl e \<and> status (handle_exception e) = n)
    | None \<Rightarrow> (\<exists>rt' sid s s'. check_request srv rt = Inr rt' \<and> normalize_session_id req_id = Inr sid
        \<and> od_get sid (lru (mpool m)) = Some s \<and> page_of srv rt' s = (r, s') \<and> same_life s s'
        \<and> m' = m\<lparr>mpool := (mpool m)\<lparr>lru := od_pop sid (lru (mpool m)) @ [(sid, s')]\<rparr>\<rparr>)"
proof (cases "check_request srv rt")
  case (Inl e)
  then have "r = Inl e" "m' = m" using assms(2) by (simp_all add: serve_def andThen_def)
  then show ?thesis using Inl check_request_error [OF Inl] by (auto simp: refusal_def)
next
  case (Inr rt')
  then have run: "with_session req_id x (page_of srv rt') m = (r, m')"
    using assms(2) by (simp add: serve_def andThen_def)
  show ?thesis
  proof (cases "refusal srv rt req_id x (mpool m)")
    case (Some n)
    then have "\<exists>e. with_session req_id x (page_of srv rt') m = (Inl e, m) \<and> status (handle_exception e) = n"
      by (intro with_session_refused [OF assms(1)])
        (auto simp: refusal_def Inr split: if_splits sum.splits option.splits)
    then show ?thesis using Some run by auto
  next
    case None
    then obtain sid s where *: "truthy x" "normalize_session_id req_id = Inr sid"
      "od_get sid (lru (mpool m)) = Some s" "leased s" "lease_id s = x"
      by (auto simp: refusal_def Inr split: if_splits sum.splits option.splits)
    obtain r1 s' where op: "page_of srv rt' s = (r1, s')" by force
    show ?thesis
      using with_session_run [where op = "page_of srv rt'", OF assms(1) *(2,3,1,4,5) op] run page_same_life [OF op] None Inr * op by auto
  qed
qed


section \<open>The verdict on a chunk\<close>

lemma onOk_Inr: "onOk r f = Inr y \<longleftrightarrow> (\<exists>v. r = Inr v \<and> f v = Inr y)"
  by (auto simp: onOk_def split: sum.splits)

lemma each_ok_iff: "each_ok f xs = Inr ys \<longleftrightarrow> list_all2 (\<lambda>x y. f x = Inr y) xs ys"
  by (induction xs arbitrary: ys) (auto simp: onOk_Inr list_all2_Cons1)

lemma command_status_field:
  "command_status_of srv j = Inr c \<Longrightarrow> text_field srv ''status'' ''unprocessed'' j = Inr (st_status c)"
  by (auto simp: command_status_of_def onOk_Inr)

lemma statuses_ok:
  assumes "list_all2 (\<lambda>j c. command_status_of srv j = Inr c) js cs"
  shows "list_all (\<lambda>c. st_status c = ''ok'') cs
    \<longleftrightarrow> (\<forall>j \<in> set js. text_field srv ''status'' ''unprocessed'' j = Inr ''ok'')"
  using assms by (induction rule: list_all2_induct) (auto dest: command_status_field)

text \<open>Property C22: the verdict on a chunk. A response has one entry per command of the backend's report, in its
  order, and it says success exactly when the report has a command, did not run out of time, and every one
  of its commands has the status \<open>ok\<close>; a command without a status counts as unprocessed. The line that
  is shown as stuck is the one of the first command still running, so a success has none.\<close>

theorem chunk_verdict:
  assumes "chunk_answer srv (rep, t) = Inr a"
  shows "\<exists>js timed. list_field ''commands'' (json_or rep (JObj [])) = Inr js
      \<and> flag_field ''timed_out'' (json_or rep (JObj [])) = Inr timed
      \<and> list_all2 (\<lambda>j c. command_status_of srv j = Inr c) js (ck_commands a)
      \<and> (ck_success a \<longleftrightarrow> \<not> timed \<and> js \<noteq> [] \<and> (\<forall>j \<in> set js. text_field srv ''status'' ''unprocessed'' j = Inr ''ok''))
      \<and> ck_stuck_line a = map_option st_line (find (\<lambda>c. st_status c = ''running'') (ck_commands a))
      \<and> (ck_success a \<longrightarrow> ck_stuck_line a = None)"
proof -
  obtain js cs timed where *: "list_field ''commands'' (json_or rep (JObj [])) = Inr js"
    "each_ok (command_status_of srv) js = Inr cs" "flag_field ''timed_out'' (json_or rep (JObj [])) = Inr timed"
    "ck_success a = chunk_passed timed cs" "ck_commands a = cs" "ck_stuck_line a = stuck_line_of cs"
    using assms by (auto simp: chunk_answer_def Let_def onOk_Inr)
  have pairs: "list_all2 (\<lambda>j c. command_status_of srv j = Inr c) js cs" using *(2) by (simp add: each_ok_iff)
  have "ck_success a \<longleftrightarrow> \<not> timed \<and> js \<noteq> [] \<and> (\<forall>j \<in> set js. text_field srv ''status'' ''unprocessed'' j = Inr ''ok'')"
    using statuses_ok [OF pairs] list_all2_lengthD [OF pairs] *(4) by (auto simp: chunk_passed_def)
  moreover have "ck_success a \<longrightarrow> ck_stuck_line a = None"
    using *(4,6) by (auto simp: chunk_passed_def stuck_line_of_def find_None_iff list_all_iff)
  ultimately show ?thesis using * pairs by (auto simp: stuck_line_of_def)
qed

section \<open>Administration\<close>

text \<open>A close that is answered, with or without a lease.\<close>

lemma acquire_in_use: "in_use (acquire_request s)"
  by (simp add: in_use_def acquire_request_def)

lemma closed_for_good:
  assumes "close_session api now raced req_id lid need p = (Inr b, q)"
  shows "\<exists>sid s. normalize_session_id req_id = Inr sid \<and> od_get sid (lru p) = Some s \<and> \<not> in_use s
    \<and> (need \<longrightarrow> require_lease lid s = Inr ()) \<and> od_get sid (lru q) = None
    \<and> close api (if leased s then release_lease now s else s) \<in> set (closed_sessions q)"
proof -
  obtain sid where sid: "normalize_session_id req_id = Inr sid"
    and run: "close_by_id api now raced sid lid need p = (Inr b, q)"
    using assms by (auto simp: close_session_def split: sum.splits)
  obtain s where s: "live_session sid p = Inr s" "need \<longrightarrow> require_lease lid s = Inr ()" "\<not> in_use s"
    using run by (auto simp: close_by_id_def onOk_def split: sum.splits if_splits)
  then have get: "od_get sid (lru p) = Some s" by (simp add: live_session_ok)
  have "\<not> raced" "q = bury api [if leased s then release_lease now s else s] (p\<lparr>lru := od_pop sid (lru p)\<rparr>)"
    using run s by (auto simp: close_by_id_def Let_def acquire_in_use split: if_splits)
  then show ?thesis using sid get s by (auto simp: bury_def)
qed

definition closes :: "'b server \<Rightarrow> 'b manager \<Rightarrow> pystr \<Rightarrow> 'b session \<Rightarrow> 'b manager \<Rightarrow> bool" where
  "closes srv m sid s m' \<longleftrightarrow> od_get sid (lru (mpool m)) = Some s \<and> \<not> in_use s \<and> od_get sid (lru (mpool m')) = None
     \<and> close (api_of srv) (if leased s then release_lease (wall_clock (web_site srv) (observed m)) s else s)
         \<in> set (closed_sessions (mpool m'))"

lemma close_page_closes:
  assumes "close_page srv raced req_id x tok m = (Inr A_Closed, m')"
  shows "\<exists>sid s. normalize_session_id req_id = Inr sid \<and> closes srv m sid s m'
    \<and> (if truthy x then leased s \<and> lease_id s = x else admin_token srv \<noteq> [] \<and> tok = Some (admin_token srv))"
proof -
  let ?now = "wall_clock (web_site srv) (observed m)"
  have admin: "truthy x \<or> admin_token srv \<noteq> [] \<and> tok = Some (admin_token srv)"
    using assms by (auto simp: close_page_def andThen_def split: if_splits)
  then obtain b q where run: "close_session (api_of srv) ?now raced req_id (if truthy x then x else None) (truthy x) (mpool m) = (Inr b, q)"
    and m': "mpool m' = q"
    using assms by (cases "truthy x") (auto simp: close_page_def andThen_def observe_def on_pool_def split: prod.splits sum.splits)
  show ?thesis using closed_for_good [OF run] m' admin
    by (auto simp: closes_def require_lease_def split: if_splits)
qed

text \<open>What needs the administrator. The public listing carries no lease token. The listing with tokens
  is answered only for the configured token, and never when none is configured. A session is closed
  without its lease only for that token; otherwise the request is refused and nothing changes. A close
  that is answered took the session out of the pool.\<close>

theorem admin_rules:
  "(\<forall>e \<in> set (list_sessions False (mpool m)). e_lease_id e = None)
   \<and> outcome list_public m = Inr (list_sessions False (mpool m))
   \<and> (if admin_token srv \<noteq> [] \<and> tok = Some (admin_token srv)
      then list_admin srv tok m = (Inr (list_sessions True (mpool m)), m)
      else list_admin srv tok m = (Inl (HTTPError 403 ''admin token required''), m)
        \<and> (\<not> truthy x \<longrightarrow> (\<exists>d. close_page srv raced req_id x tok m = (Inl (HTTPError 400 d), m))))
   \<and> (\<forall>m'. close_page srv raced req_id x tok m = (Inr A_Closed, m') \<longrightarrow>
       (\<exists>sid s. normalize_session_id req_id = Inr sid \<and> closes srv m sid s m'
          \<and> (if truthy x then leased s \<and> lease_id s = x else admin_token srv \<noteq> [] \<and> tok = Some (admin_token srv))))"
  using close_page_closes [of srv raced req_id x tok m]
  by (auto simp: list_sessions_def list_entry_def list_public_def outcome_def list_admin_def close_page_def andThen_def)

section \<open>Sessions on heaps\<close>

lemma create_leased_created:
  assumes "inj (uuid4 w)" and "mgr_ok w m" and "create_leased_session w cr m = (r, m')"
  shows "mgr_ok w m' \<and> (\<forall>s lid. r = Inr (s, lid) \<longrightarrow> created w (cr\<lparr>cr_lease := Some lid\<rparr>) s m')"
proof -
  let ?m1 = "m\<lparr>observed := Suc (observed m)\<rparr>"
  let ?lid = "take 12 (filter (\<lambda>c. c \<noteq> CHR ''-'') (uuid4 w (observed m)))"
  let ?op = "andThen (create_session_raw w (cr\<lparr>cr_lease := Some ?lid\<rparr>)) (\<lambda>s. ret (s, ?lid))"
  have run: "as_start_error ''create_leased_session'' ''Failed to create leased session: '' ?op ?m1 = (r, m')"
    using assms(3) by (simp add: create_leased_session_def new_lease_id_def andThen_def observe_def)
  obtain r1 m1 where r1: "create_session_raw w (cr\<lparr>cr_lease := Some ?lid\<rparr>) ?m1 = (r1, m1)" by force
  note raw = create_raw_triple [OF assms(1), of "observed ?m1" "cr\<lparr>cr_lease := Some ?lid\<rparr>"]
  have ok: "mgr_ok w ?m1 \<and> observed ?m1 \<le> observed ?m1" using assms(2) by simp
  have "?op ?m1 = (case r1 of Inl e \<Rightarrow> (Inl e, m1) | Inr s \<Rightarrow> (Inr (s, ?lid), m1))"
    using r1 by (simp add: andThen_def split: sum.split)
  moreover have "m' = snd (?op ?m1)" using as_start_error_state run by (metis snd_conv)
  ultimately have m': "m' = m1" by (auto split: sum.splits)
  have "mgr_ok w m1" using triple_value [OF raw ok] triple_error [OF raw ok] r1 by (cases r1) auto
  moreover have "created w (cr\<lparr>cr_lease := Some lid\<rparr>) s m1" if "r = Inr (s, lid)" for s lid
  proof -
    have "?op ?m1 = (Inr (s, lid), m')" using run that by (simp add: as_start_error_value)
    then have "lid = ?lid" "r1 = Inr s" using r1 by (auto simp: andThen_def split: sum.splits)
    then show ?thesis using triple_value [OF raw ok] r1 by simp
  qed
  ultimately show ?thesis using m' by simp
qed

lemma set_label_ok:
  assumes "mgr_ok w m" and "od_get sid (lru (mpool m)) = Some s"
  shows "mgr_ok w (set_label l sid m)" and "od_get sid (lru (mpool (set_label l sid m))) = Some (s\<lparr>label := l\<rparr>)"
proof -
  have inv: "pool_inv (pool_size (settings w)) (mpool m)" using assms(1) by (simp add: mgr_ok_def)
  have "pool_inv (pool_size (settings w)) ((mpool m)\<lparr>lru := od_set sid (s\<lparr>label := l\<rparr>) (lru (mpool m))\<rparr>)"
    using live_get [OF inv assms(2)] by (intro pool_inv_update [OF inv assms(2)]) (auto simp: live_def)
  then show "mgr_ok w (set_label l sid m)"
    using assms by (auto simp: mgr_ok_def set_label_def ledger_update)
  show "od_get sid (lru (mpool (set_label l sid m))) = Some (s\<lparr>label := l\<rparr>)"
    using assms(2) by (simp add: set_label_def)
qed

text \<open>What the manager is asked for when a heap is named.\<close>

definition heap_request :: "session_request \<Rightarrow> heap_entry \<Rightarrow> create_request" where
  "heap_request rq e =
     \<lparr>cr_theories = Some (map Some (sorted_set (or_else (if truthy (sr_theories rq) then sr_theories rq else None) [] @ heap_theories e))),
      cr_field = Some (he_session e), cr_lease = None, cr_dirs = Some [he_root_dir e],
      cr_group = Some (request_group rq), cr_extra = Some (request_group rq @ '':'' @ he_fingerprint e)\<rparr>"

lemma prepare_on_heap:
  assumes "truthy (sr_heap rq) \<or> truthy (sr_project rq)"
    and "resolve_for_session (heap_world srv) (request_group rq) (sr_heap rq) (sr_project rq) (app_heaps a) = (g, h)"
  shows "prepare_request srv rq a = (case g of Inl e \<Rightarrow> Inl e | Inr e \<Rightarrow> Inr (heap_request rq e), a\<lparr>app_heaps := h\<rparr>)"
proof -
  have "on_heaps (resolve_heap srv (request_group rq) (sr_heap rq) (sr_project rq)) a
      = (case g of Inl e \<Rightarrow> Inl e | Inr e \<Rightarrow> Inr (heap_theories e, he_session e, [he_root_dir e], request_group rq @ '':'' @ he_fingerprint e),
         a\<lparr>app_heaps := h\<rparr>)"
    using assms(2) by (simp add: on_heaps_def resolve_heap_def andThen_def split: sum.split)
  then show ?thesis using assms(1)
    by (simp add: prepare_request_def Let_def andThen_def heap_request_def split: sum.split)
qed

text \<open>A session on a heap. The request goes through the gate of the heap pool first: when the gate
  refuses, that is the answer and the manager is as it was. Otherwise a session that is handed out is the
  caller's alone, is labelled and grouped as asked, runs on the heap's session, states the theories asked
  for together with the theories of the heap, and its dependency key names the group and the fingerprint
  of the sources, so it is not reused for another group or for changed sources.\<close>

theorem heap_session_gated:
  assumes "inj (uuid4 (web_site srv))" and "mgr_ok (web_site srv) (app_manager a)"
    and "truthy (sr_heap rq) \<or> truthy (sr_project rq)"
    and "resolve_for_session (heap_world srv) (request_group rq) (sr_heap rq) (sr_project rq) (app_heaps a) = (g, h)"
    and "create_page srv rq a = (r, a')"
  shows "app_heaps a' = h \<and> (case g of
      Inl e \<Rightarrow> r = Inl e \<and> app_manager a' = app_manager a
    | Inr e \<Rightarrow> mgr_ok (web_site srv) (app_manager a') \<and> (\<forall>ans l. r = Inr (ans, l) \<longrightarrow>
        (\<exists>s. od_get (sa_id ans) (lru (mpool (app_manager a'))) = Some s \<and> live s
          \<and> leased s \<and> lease_id s = Some (sa_lease ans) \<and> label s = sr_label rq \<and> task_group s = Some (request_group rq)
          \<and> session_field s = normalize_field (default_field (settings (web_site srv))) (Some (he_session e))
          \<and> theories s = normalize_theories (cr_theories (heap_request rq e)) \<and> sa_theories ans = theories s
          \<and> dependency_key s = Some (session_key (web_site srv) (heap_request rq e)))))"
proof (cases g)
  case (Inl e)
  then show ?thesis using prepare_on_heap [OF assms(3,4)] assms(5) by (auto simp: create_page_def andThen_def)
next
  case (Inr e)
  let ?w = "web_site srv"
  obtain q m1 where q: "create_leased_session ?w (heap_request rq e) (app_manager a) = (q, m1)" by force
  note made = create_leased_created [OF assms(1,2) q]
  show ?thesis
  proof (cases q)
    case (Inl x)
    then show ?thesis using prepare_on_heap [OF assms(3,4)] assms(5) Inr q made \<open>g = Inr e\<close>
      by (auto simp: create_page_def andThen_def on_manager_def)
  next
    case (Inr v)
    obtain s lid where v: "v = (s, lid)" by force
    then have c: "created ?w ((heap_request rq e)\<lparr>cr_lease := Some lid\<rparr>) s m1" using made Inr by simp
    have inv: "pool_inv (pool_size (settings ?w)) (mpool m1)" using made by (simp add: mgr_ok_def)
    have "(session_id s, s) \<in> set (lru (mpool m1))" using c last_in_set unfolding created_def by metis
    then have get: "od_get (session_id s) (lru (mpool m1)) = Some s"
      using inv by (intro get_of_mem) (simp_all add: pool_inv_def)
    have fin: "r = Inr (session_answer_of s lid rq, sr_label rq)"
      "app_manager a' = set_label (sr_label rq) (session_id s) m1" "app_heaps a' = h"
      using prepare_on_heap [OF assms(3,4)] assms(5) \<open>g = Inr e\<close> q Inr v
      by (auto simp: create_page_def andThen_def on_manager_def)
    then show ?thesis using \<open>g = Inr e\<close> set_label_ok [OF _ get, of ?w "sr_label rq"] made c
      by (auto simp: session_answer_of_def created_def live_def request_fld_def request_deps_def heap_request_def session_key_def)
  qed
qed

section \<open>Three requests that go wrong\<close>

text \<open>A checkpoint the prover refuses to save is answered 500 \<open>Internal server error\<close>: the page is built from
  attributes the error object does not have.\<close>

theorem failed_save_is_internal_error:
  assumes "outcome (save_checkpoint (api_of srv) (save_timeout srv)) s = Inr (Inl err)"
  shows "\<exists>e. outcome (save_page srv) s = Inl e \<and> handle_exception e = answer 500 ''Internal server error''"
  using assms by (auto simp: outcome_def save_page_def andThen_def handle_exception_def mro_def split: prod.splits)

text \<open>A history of at most no entry is the whole history.\<close>

theorem history_limit_zero: "outcome (history_page 0) s = Inr (A_History (length (command_history s)) (command_history s))"
  by (simp add: history_page_def outcome_def andThen_def slice_from_def)

text \<open>A malformed session identifier is reported as a server error.\<close>

theorem malformed_id_is_server_error:
  assumes "parse_uuid req_id = None"
  shows "\<exists>e. fst (with_session req_id (Some (c # cs)) op m) = Inl e \<and> status (handle_exception e) = 500"
  using assms by (simp add: with_session_def leased_session_def andThen_def on_pool_def get_session_def
      normalize_session_id_def require_lease_id_def truthy_def or_else_def status_of_class_def)

section \<open>Witnesses\<close>

definition demo_server :: "nat server" where
  "demo_server = \<lparr>web_site = demo_site, heap_world = demo_heap_env, symbol_host = demo_host, ascii_output = False,
     admin_token = ''root'', validate_int = (\<lambda>_. Inr None), validate_target = Inr, diagnostic_max = 4000,
     proof_state_timeout = 30, save_timeout = 30, restore_timeout = 30\<rparr>"

definition demo_busy_manager :: "nat manager" where
  "demo_busy_manager = (demo_manager True)\<lparr>mpool := demo_pool\<rparr>"

lemma demo_pool_inv: "pool_inv 1 (mpool demo_busy_manager)"
  using reach_inv [OF demo_reach] by (simp add: demo_busy_manager_def demo_config_def)

lemma demo_id_normal: "normalize_session_id demo_id = Inr demo_id"
  by code_simp


theorem chunk_verdict_witness:
  "\<exists>a. chunk_answer demo_server (JObj [(''commands'', JList [JObj [(''status'', JStr ''ok'')]])], 1) = Inr a \<and> ck_success a"
proof -
  let ?j = "JObj [(''status'', JStr ''ok'')]" and ?rep = "JObj [(''commands'', JList [JObj [(''status'', JStr ''ok'')]])]"
  have fields: "list_field ''commands'' (json_or ?rep (JObj [])) = Inr [?j]"
    "text_field demo_server ''status'' ''unprocessed'' ?j = Inr ''ok''"
    by (simp_all add: list_field_def text_field_def dict_get_or_def json_or_def)
  obtain a where a: "chunk_answer demo_server (?rep, 1) = Inr a"
    by (simp add: chunk_answer_def command_status_of_def list_field_def flag_field_def text_field_def dict_get_or_def
        json_or_def json_int_def as_error_text_def demo_server_def)
  have "flag_field ''timed_out'' (json_or ?rep (JObj [])) = Inr False"
    by (simp add: flag_field_def dict_get_or_def json_or_def)
  then show ?thesis using chunk_verdict [OF a] a fields by auto
qed

theorem admin_rules_witness:
  "list_admin demo_server None demo_busy_manager = (Inl (HTTPError 403 ''admin token required''), demo_busy_manager)
   \<and> (\<exists>d. close_page demo_server False demo_id None None demo_busy_manager = (Inl (HTTPError 400 d), demo_busy_manager))"
  using admin_rules [of demo_busy_manager demo_server None None False demo_id] by (simp add: demo_server_def truthy_def)

text \<open>A creation at the site of the examples, with theories of its own.\<close>

lemma demo_prepare:
  assumes "thy_gen m = Some t"
  shows "\<exists>v m'. prepare_theories demo_site fld deps m = (Inr v, m') \<and> mpool m' = mpool m"
proof (cases "deps = []")
  case False
  have "write_file demo_site k = Inr ()" for k by (simp add: demo_site_def)
  then show ?thesis using False assms
    by (auto simp: prepare_theories_def catch_def andThen_def use_thy_gen_def gen_file_def observe_def Let_def)
qed (simp add: prepare_theories_def)

lemma demo_create_with:
  assumes "\<not> gateway_up m" and "lru (mpool m) = []" and "thy_gen m = None"
  shows "\<exists>s m'. create_session_raw demo_site rq m = (Inr s, m')"
proof -
  have "ensure_gateway demo_site m = (Inr (), m\<lparr>observed := Suc (observed m), gateway_up := True\<rparr>)"
    using assms(1) by (simp add: ensure_gateway_def catch_def andThen_def attempt_at_def observe_def demo_site_def)
  moreover obtain m2 t where "need_thy_init demo_site (m\<lparr>observed := Suc (observed m), gateway_up := True\<rparr>) = (Inr (), m2)"
    "mpool m2 = mpool m" "thy_gen m2 = Some t"
    using assms(3) by (simp add: need_thy_init_def load_template_def catch_def andThen_def attempt_at_def observe_def demo_site_def)
  moreover obtain v m3 where "prepare_theories demo_site (request_fld demo_site rq) (request_deps rq) m2 = (Inr v, m3)"
    "mpool m3 = mpool m2"
    using demo_prepare [OF \<open>thy_gen m2 = Some t\<close>] by blast
  moreover obtain s m4 where "open_session demo_site rq v m3 = (Inr s, m4)"
    using demo_open [of m3 rq v] assms(2) \<open>mpool m2 = mpool m\<close> \<open>mpool m3 = mpool m2\<close> by auto
  ultimately show ?thesis by (simp add: create_session_raw_def andThen_def)
qed

definition demo_app :: "nat app" where
  "demo_app = \<lparr>app_manager = demo_manager False, app_heaps = demo_ready\<rparr>"

definition demo_request :: session_request where
  "demo_request = \<lparr>sr_theories = None, sr_field = None, sr_label = Some ''me'', sr_group = Some ''g'',
     sr_heap = None, sr_project = Some ''/p''\<rparr>"

lemma demo_resolve:
  "resolve_for_session demo_heap_env ''g'' None (Some ''/p'') demo_ready
     = (Inr (finished demo_heap_env 100 (Inr (20, 0, ''Finished S'')) demo_heap_entry), demo_ready)"
proof -
  let ?e = "finished demo_heap_env 100 (Inr (20, 0, ''Finished S'')) demo_heap_entry"
  have "candidate ''g'' None (Some ''/p'') demo_ready = Some ?e"
    using demo_building_eq by (simp add: candidate_def get_heap_def demo_ready_def end_build_def Let_def demo_heap_entry_status)
  moreover have "he_status ?e = HS_Ready" by (simp add: finished_def build_outcome_def demo_heap_env_def)
  moreover have "current_print demo_heap_env ?e = Inr (he_fingerprint ?e)"
    by (simp add: current_print_def scan_sources_def theory_files_def finished_def build_outcome_def
        demo_heap_entry_def new_entry_def demo_heap_env_def fingerprint_def)
  ultimately show ?thesis by (simp add: resolve_for_session_def check_stale_eq)
qed

theorem heap_session_gated_witness:
  "\<exists>ans l a' s. create_page demo_server demo_request demo_app = (Inr (ans, l), a')
     \<and> od_get (sa_id ans) (lru (mpool (app_manager a'))) = Some s
     \<and> label s = Some ''me'' \<and> task_group s = Some ''g'' \<and> lease_id s = Some (sa_lease ans)"
proof -
  let ?e = "finished demo_heap_env 100 (Inr (20, 0, ''Finished S'')) demo_heap_entry"
  have named: "truthy (sr_heap demo_request) \<or> truthy (sr_project demo_request)" by (simp add: demo_request_def truthy_def)
  have gate: "resolve_for_session (heap_world demo_server) (request_group demo_request) (sr_heap demo_request)
      (sr_project demo_request) (app_heaps demo_app) = (Inr ?e, demo_ready)"
    using demo_resolve by (simp add: demo_request_def demo_server_def request_group_def or_else_def demo_app_def)
  have site: "web_site demo_server = demo_site" by (simp add: demo_server_def)
  obtain r a' where run: "create_page demo_server demo_request demo_app = (r, a')" by force
  have "\<exists>s m'. create_session_raw demo_site rq ((demo_manager False)\<lparr>observed := Suc 0\<rparr>) = (Inr s, m')" for rq
    by (rule demo_create_with) (simp_all add: demo_manager_def)
  then obtain s m' where "create_session_raw demo_site
      ((heap_request demo_request ?e)\<lparr>cr_lease := Some (take 12 (filter (\<lambda>c. c \<noteq> CHR ''-'') (uuid4 demo_site 0)))\<rparr>)
      ((demo_manager False)\<lparr>observed := Suc 0\<rparr>) = (Inr s, m')" by blast
  then have "\<exists>s lid m'. create_leased_session demo_site (heap_request demo_request ?e) (demo_manager False) = (Inr (s, lid), m')"
    by (simp add: create_leased_session_def new_lease_id_def andThen_def observe_def as_start_error_def catch_def
        demo_manager_def)
  then obtain ans l where "r = Inr (ans, l)"
    using run prepare_on_heap [OF named gate] site
    by (auto simp: create_page_def andThen_def on_manager_def demo_app_def)
  moreover have "mgr_ok (web_site demo_server) (app_manager demo_app)" "inj (uuid4 (web_site demo_server))"
    using demo_ok demo_inj by (simp_all add: site demo_app_def)
  ultimately show ?thesis using heap_session_gated [OF _ _ named gate run] run
    by (auto simp: demo_request_def request_group_def or_else_def)
qed

end
