(* ===== verification/Client_Server.thy ===== *)
theory Client_Server
  imports Client_Properties Router_Properties
begin

text \<open>
  The client and the server together: a call of the client, the request on the wire, the endpoint behind its lease, the
  answer and what the client makes of it. How a page is written as JSON is a parameter.
\<close>

section \<open>The exchange\<close>

definition http_answer :: "(page \<Rightarrow> json) \<Rightarrow> exn + page \<Rightarrow> client_response" where
  "http_answer render r =
     (case r of
        Inr p \<Rightarrow> \<lparr>rs_status = page_status p, rs_content = Some (render p)\<rparr>
      | Inl e \<Rightarrow> \<lparr>rs_status = status (handle_exception e),
                  rs_content = Some (JObj [(''detail'', JStr (detail (handle_exception e)))])\<rparr>)"

text \<open>The endpoints of a session but its closing; \<open>None\<close> for the others.\<close>

definition served :: "'b server \<Rightarrow> stack \<Rightarrow> http_request \<Rightarrow> 'b manager \<Rightarrow> ((exn + page) \<times> 'b manager) option" where
  "served srv w rq m =
     (case receive w rq of
        On_Session rt sid \<Rightarrow> Some (serve srv rt sid (hr_lease rq) m)
      | Ask_Release sid \<Rightarrow> Some (release_page srv sid (hr_lease rq) m)
      | Refused n \<Rightarrow> Some (Inl (HTTPError n []), m)
      | _ \<Rightarrow> None)"

definition remote_call :: "'b server \<Rightarrow> stack \<Rightarrow> (page \<Rightarrow> json) \<Rightarrow> real \<Rightarrow> pystr \<Rightarrow> pystr option \<Rightarrow> session_call
    \<Rightarrow> 'b manager \<Rightarrow> ((exn + json) \<times> 'b manager) option" where
  "remote_call srv w render own sid lid c m =
     map_option (\<lambda>(r, m'). (read_answer c (http_answer render r), m'))
       (served srv w (transmit w (session_request_for own sid lid c)) m)"

lemma refused_answer: "\<not> (200 \<le> rs_status a \<and> rs_status a < 300) \<Longrightarrow> read_answer c a = Inl (HTTPError (rs_status a) [])"
  unfolding read_answer_def raise_for_status_def onOk_def by (simp only: if_False sum.case)

lemma refusal_statuses: "refusal srv rt req_id x p = Some n \<Longrightarrow> n \<in> {403, 404, 422, 500}"
  by (auto simp: refusal_def split: sum.splits if_splits option.splits)

lemma transmit_lease: "hr_lease (transmit w rq) = hr_lease rq"
  by (simp add: transmit_def)



end
