(* ===== verification/Heap_Images.thy ===== *)
theory Heap_Images
  imports Heap_Pool Py_Effects "HOL-Library.Sublist"
begin

text \<open>
  The heap images on disk (\<open>services/heap_pool.py\<close>): their removal with a heap record, their deletion by an
  administrator, and their listing. The file system is a table from paths, as lists of names, to files; symbolic links
  and failing removals of whole directories are left out. \<open>Path.glob\<close> is modelled with its wildcards, since the code
  builds patterns from the names it is given.
\<close>

section \<open>Files\<close>

type_synonym fpath = "pystr list"

datatype fnode = Regular nat real | Folder real | Special

type_synonym files = "(fpath, fnode) od"

text \<open>Where a path leads: \<open>..\<close> is the parent.\<close>

definition resolve :: "fpath \<Rightarrow> fpath" where
  "resolve p = foldl (\<lambda>q c. if c = ''..'' then butlast q else q @ [c]) [] p"

definition file_at :: "files \<Rightarrow> fpath \<Rightarrow> fnode option" where
  "file_at fs p = od_get (resolve p) fs"

definition is_dir :: "files \<Rightarrow> fpath \<Rightarrow> bool" where
  "is_dir fs p = (resolve p = [] \<or> (case file_at fs p of Some (Folder t) \<Rightarrow> True | _ \<Rightarrow> False))"

definition is_file :: "files \<Rightarrow> fpath \<Rightarrow> bool" where
  "is_file fs p = (case file_at fs p of Some (Regular n t) \<Rightarrow> True | _ \<Rightarrow> False)"

definition children :: "files \<Rightarrow> fpath \<Rightarrow> pystr list" where
  "children fs p = map (\<lambda>e. last (fst e)) (filter (\<lambda>e. fst e \<noteq> [] \<and> butlast (fst e) = resolve p) fs)"

text \<open>\<open>sum(f.stat().st_size for f in p.rglob("*") if f.is_file())\<close>.\<close>

definition size_below :: "files \<Rightarrow> fpath \<Rightarrow> nat" where
  "size_below fs p = sum_list (map (\<lambda>(q, n). case n of Regular k t \<Rightarrow> k | _ \<Rightarrow> 0) (filter (\<lambda>(q, n). strict_prefix (resolve p) q) fs))"

definition file_size :: "files \<Rightarrow> fpath \<Rightarrow> nat" where
  "file_size fs p = (case file_at fs p of Some (Regular k t) \<Rightarrow> k | _ \<Rightarrow> 0)"

definition mtime_of :: "files \<Rightarrow> fpath \<Rightarrow> real" where
  "mtime_of fs p = (case file_at fs p of Some (Regular k t) \<Rightarrow> t | Some (Folder t) \<Rightarrow> t | _ \<Rightarrow> 0)"

definition rmtree :: "fpath \<Rightarrow> (files, unit) py" where
  "rmtree p = change (filter (\<lambda>(q, n). \<not> prefix (resolve p) q))"

text \<open>\<open>unlink(missing_ok=True)\<close>, which a directory refuses.\<close>

definition unlink :: "fpath \<Rightarrow> (files, unit) py" where
  "unlink p fs = (if is_dir fs p then (Inl (Exn C_OSError ''Is a directory''), fs) else (Inr (), od_pop (resolve p) fs))"

section \<open>Patterns\<close>

fun in_class :: "pystr \<Rightarrow> char \<Rightarrow> bool" where
  "in_class (x # CHR ''-'' # y # r) c = (x \<le> c \<and> c \<le> y \<or> in_class r c)"
| "in_class (x # r) c = (c = x \<or> in_class r c)"
| "in_class [] c = False"

text \<open>The class after a \<open>[\<close> and what follows it; \<open>None\<close> when it is not closed.\<close>

definition bracket :: "pystr \<Rightarrow> (pystr \<times> pystr) option" where
  "bracket p =
     (let a = (if take 1 p = ''!'' then 1 else 0);
          b = (if take 1 (drop a p) = '']'' then Suc a else a);
          j = b + length (takeWhile (\<lambda>c. c \<noteq> CHR '']'') (drop b p))
      in if j < length p then Some (take j p, drop (Suc j) p) else None)"

definition class_match :: "pystr \<Rightarrow> char \<Rightarrow> bool" where
  "class_match body c = (if take 1 body = ''!'' then \<not> in_class (tl body) c else in_class body c)"

lemma bracket_shorter: "bracket p = Some (body, rest) \<Longrightarrow> length rest < length p"
  by (auto simp: bracket_def Let_def split: if_splits)

text \<open>\<open>fnmatch.fnmatchcase\<close>, the pattern first.\<close>

function fnmatch :: "pystr \<Rightarrow> pystr \<Rightarrow> bool" where
  "fnmatch [] s = (s = [])"
| "fnmatch (c # p) s =
     (if c = CHR ''*'' then list_ex (\<lambda>k. fnmatch p (drop k s)) [0..<Suc (length s)]
      else if s = [] then False
      else if c = CHR ''?'' then fnmatch p (tl s)
      else if c = CHR ''['' then
        (case bracket p of
           None \<Rightarrow> hd s = CHR ''['' \<and> fnmatch p (tl s)
         | Some (body, rest) \<Rightarrow> class_match body (hd s) \<and> fnmatch rest (tl s))
      else hd s = c \<and> fnmatch p (tl s))"
  by pat_completeness auto

termination
  by (relation "measure (\<lambda>(p, s). length p)") (auto dest: bracket_shorter)

definition magic :: "pystr \<Rightarrow> bool" where
  "magic part = (CHR ''*'' \<in> set part \<or> CHR ''?'' \<in> set part \<or> CHR ''['' \<in> set part)"

definition folders_below :: "files \<Rightarrow> fpath \<Rightarrow> fpath list" where
  "folders_below fs p = map (\<lambda>(q, n). p @ drop (length (resolve p)) q)
     (filter (\<lambda>(q, n). strict_prefix (resolve p) q \<and> (case n of Folder t \<Rightarrow> True | _ \<Rightarrow> False)) fs)"

text \<open>The paths the parts of a pattern select below \<open>p\<close>; every part but the last must be a directory.\<close>

fun select :: "files \<Rightarrow> pystr list \<Rightarrow> fpath \<Rightarrow> fpath list" where
  "select fs [] p = [p]"
| "select fs (part # ps) p =
     (let next = (\<lambda>q. if ps = [] \<or> is_dir fs q then select fs ps q else []) in
      if part = ''**'' then concat (map (select fs ps) (p # folders_below fs p))
      else if magic part then concat (map (\<lambda>c. next (p @ [c])) (filter (fnmatch part) (children fs p)))
      else if part = ''..'' \<or> is_dir fs (p @ [part]) \<or> file_at fs (p @ [part]) \<noteq> None then next (p @ [part])
      else [])"

definition glob :: "files \<Rightarrow> fpath \<Rightarrow> pystr \<Rightarrow> exn + fpath list" where
  "glob fs p pattern =
     (if startswith pattern ''/'' then Inl (Exn (C_Foreign ''NotImplementedError'') ''Non-relative patterns are unsupported'')
      else if path_parts pattern = [] then Inl (Exn C_ValueError ''Unacceptable pattern'')
      else if \<not> is_dir fs p then Inr []
      else Inr (remdups (filter (\<lambda>q. last pattern = CHR ''/'' \<longrightarrow> is_dir fs q) (select fs (path_parts pattern) p))))"

definition glob_now :: "fpath \<Rightarrow> pystr \<Rightarrow> (files, fpath list) py" where
  "glob_now p pattern fs = (glob fs p pattern, fs)"

fun for_all :: "('a \<Rightarrow> ('s, unit) py) \<Rightarrow> 'a list \<Rightarrow> ('s, unit) py" where
  "for_all f [] = ret ()"
| "for_all f (x # xs) = andThen (f x) (\<lambda>_. for_all f xs)"

section \<open>The Isabelle homes\<close>

text \<open>
  The answers of \<open>isabelle getenv\<close> for the two homes (asked once and kept), whether images are collected, and how a
  time and a size are printed.
\<close>

record image_env =
  user_home_answer :: "exn + pystr"
  home_answer :: "exn + pystr"
  gc_images :: bool
  gmtime :: "real \<Rightarrow> pystr"
  megabytes :: "nat \<Rightarrow> real"

definition home_of :: "exn + pystr \<Rightarrow> fpath option" where
  "home_of r = (case r of Inl e \<Rightarrow> None | Inr out \<Rightarrow> if strip out = [] then None else Some (path_parts (strip out)))"

abbreviation isabelle_home_user :: "image_env \<Rightarrow> fpath option" where
  "isabelle_home_user w \<equiv> home_of (user_home_answer w)"

abbreviation image_home :: "image_env \<Rightarrow> fpath option" where
  "image_home w \<equiv> home_of (home_answer w)"

section \<open>Removing the image of a deleted heap\<close>

definition remove_image :: "fpath \<Rightarrow> (files, unit) py" where
  "remove_image img fs =
     (if is_dir fs img then rmtree img fs else if is_file fs img then unlink img fs else (Inr (), fs))"

definition gc_heap_image :: "image_env \<Rightarrow> (heap_key, heap_entry) od \<Rightarrow> pystr \<Rightarrow> (files, unit) py" where
  "gc_heap_image w es name =
     (if \<not> gc_images w then ret ()
      else if list_ex (\<lambda>e. he_session (snd e) = name) es then ret ()
      else (case isabelle_home_user w of
        None \<Rightarrow> ret ()
      | Some home \<Rightarrow>
          andThen (glob_now (home @ [''heaps'']) (''*/'' @ name)) (\<lambda>imgs.
          andThen (for_all remove_image imgs) (\<lambda>_.
          andThen (glob_now (home @ [''heaps'']) (''*/log/'' @ name @ ''.*'')) (\<lambda>logs.
          for_all unlink logs)))))"

text \<open>The whole deletion of a record, and of all records of a group.\<close>

definition delete_with_image :: "heap_env \<Rightarrow> image_env \<Rightarrow> pystr \<Rightarrow> pystr \<Rightarrow> (heap_state \<times> files, bool) py" where
  "delete_with_image env w g project =
     (\<lambda>(st, fs). case od_get (g, project) (entries st) of
        None \<Rightarrow> (Inr False, (st, fs))
      | Some e \<Rightarrow>
          let st' = snd (delete_heap env g project st) in
          case gc_heap_image w (entries st') (he_session e) fs of
            (Inl err, fs') \<Rightarrow> (Inl err, (st', fs'))
          | (Inr _, fs') \<Rightarrow> (Inr True, (st', fs')))"

definition delete_group_with_images :: "heap_env \<Rightarrow> image_env \<Rightarrow> pystr \<Rightarrow> (heap_state \<times> files, nat) py" where
  "delete_group_with_images env w g =
     andThen (fetch (\<lambda>(st, fs). map (\<lambda>((g', p), e). p) (filter (\<lambda>((g', p), e). g' = g) (entries st)))) (\<lambda>projects.
     andThen (for_all (\<lambda>p. andThen (delete_with_image env w g p) (\<lambda>_. ret ())) projects) (\<lambda>_.
     ret (length projects)))"

section \<open>Deleting an image\<close>

record deleted_image =
  di_session :: pystr
  di_platform :: pystr
  di_freed_mb :: real

definition parent_name :: "fpath \<Rightarrow> pystr" where
  "parent_name p = (if butlast p = [] then [] else last (butlast p))"

fun delete_images :: "fpath \<Rightarrow> pystr \<Rightarrow> fpath list \<Rightarrow> nat \<times> pystr option \<Rightarrow> (files, nat \<times> pystr option) py" where
  "delete_images heaps name [] acc = ret acc"
| "delete_images heaps name (img # imgs) (freed, hit) =
     andThen (fetch (\<lambda>fs. (is_dir fs img, is_file fs img, if is_dir fs img then size_below fs img else file_size fs img)))
       (\<lambda>(dir, file, n).
        if \<not> (file \<or> dir) then delete_images heaps name imgs (freed, hit)
        else andThen (remove_image img) (\<lambda>_.
             andThen (glob_now heaps (parent_name img @ ''/log/'' @ name @ ''.*'')) (\<lambda>logs.
             andThen (for_all unlink logs) (\<lambda>_.
             delete_images heaps name imgs (freed + n, Some (parent_name img))))))"

definition delete_heap_image :: "heap_env \<Rightarrow> image_env \<Rightarrow> pystr \<Rightarrow> pystr option \<Rightarrow> (files, deleted_image) py" where
  "delete_heap_image env w name platform =
     (case isabelle_home_user w of
        None \<Rightarrow> throw (Exn C_HeapNotFound ''ISABELLE_HOME_USER unavailable'')
      | Some home \<Rightarrow>
          let heaps = home @ [''heaps''];
              pattern = (if truthy platform then or_else platform [] else ''*'') @ ''/'' @ name in
          andThen (glob_now heaps pattern) (\<lambda>imgs.
          andThen (delete_images heaps name imgs (0, None)) (\<lambda>(freed, hit).
          case hit of
            None \<Rightarrow> throw (Exn C_HeapNotFound (''no user heap image for session '' @ repr env name))
          | Some p \<Rightarrow> ret \<lparr>di_session = name, di_platform = p, di_freed_mb = megabytes w freed\<rparr>)))"

text \<open>The endpoint: a missing image is a 404.\<close>

definition delete_image_page :: "heap_env \<Rightarrow> image_env \<Rightarrow> pystr \<Rightarrow> pystr option \<Rightarrow> (files, deleted_image) py" where
  "delete_image_page env w name platform =
     catch (delete_heap_image env w name platform)
       (\<lambda>e. if isinstance e C_HeapNotFound then throw (HTTPError 404 (str_of e)) else throw e)"

section \<open>Listing the images\<close>

record available_heap =
  ah_session :: pystr
  ah_platform :: pystr
  ah_size_mb :: real
  ah_modified :: pystr
  ah_origin :: pystr
  ah_path :: pystr

definition images_in :: "image_env \<Rightarrow> pystr list \<Rightarrow> files \<Rightarrow> fpath \<Rightarrow> pystr \<Rightarrow> pystr \<Rightarrow> available_heap list" where
  "images_in w pooled fs heaps origin platform =
     concat (map (\<lambda>name.
       let img = heaps @ [platform, name] in
       if name = ''log'' \<or> \<not> (is_file fs img \<or> is_dir fs img) then []
       else [\<lparr>ah_session = name, ah_platform = platform,
              ah_size_mb = megabytes w (if is_file fs img then file_size fs img else size_below fs img),
              ah_modified = gmtime w (mtime_of fs img), ah_origin = (if name \<in> set pooled then ''pool'' else origin),
              ah_path = ''/'' @ join ''/'' img\<rparr>])
       (sort (children fs (heaps @ [platform]))))"

definition list_available_heaps :: "image_env \<Rightarrow> heap_state \<Rightarrow> files \<Rightarrow> available_heap list" where
  "list_available_heaps w st fs =
     (let pooled = map (\<lambda>e. he_session (snd e)) (entries st) in
      concat (map (\<lambda>(home, origin). case home of
          None \<Rightarrow> []
        | Some h \<Rightarrow>
            if \<not> is_dir fs (h @ [''heaps'']) then []
            else concat (map (images_in w pooled fs (h @ [''heaps'']) origin)
                   (filter (\<lambda>p. is_dir fs (h @ [''heaps'', p]) \<and> p \<noteq> ''log'') (sort (children fs (h @ [''heaps'']))))))
        [(isabelle_home_user w, ''user''), (image_home w, ''distribution'')]))"

end
