(* ===== verification/Image_Properties.thy ===== *)
theory Image_Properties
  imports Heap_Images Heap_Properties
begin

text \<open>
  What the removal of heap images keeps: with plain session names the deletion of a heap record takes exactly the image
  and the logs of that session, and only when no other record uses it; with other names it can take everything.
\<close>

section \<open>The file table\<close>

lemma resolve_id [simp]: "''..'' \<notin> set p \<Longrightarrow> resolve p = p"
proof -
  have "''..'' \<notin> set p \<Longrightarrow> foldl (\<lambda>q c. if c = ''..'' then butlast q else q @ [c]) acc p = acc @ p" for acc
    by (induction p arbitrary: acc) auto
  then show "''..'' \<notin> set p \<Longrightarrow> resolve p = p" by (simp add: resolve_def)
qed

lemma get_filter: "od_get p (filter (\<lambda>(q, n). P q) fs) = (if P p then od_get p fs else None)"
  by (induction fs) (auto simp: od_get_def)

lemma get_mem: "od_get p fs \<noteq> None \<longleftrightarrow> p \<in> fst ` set fs"
  by (simp add: od_get_None_iff od_keys_def)

text \<open>No name is \<open>..\<close>, and what contains something is a directory.\<close>

definition fs_ok :: "files \<Rightarrow> bool" where
  "fs_ok fs \<longleftrightarrow> (\<forall>p. od_get p fs \<noteq> None \<longrightarrow> ''..'' \<notin> set p \<and> (p \<noteq> [] \<longrightarrow> is_dir fs (butlast p)))"

definition removable :: "files \<Rightarrow> fpath \<Rightarrow> bool" where
  "removable fs p \<longleftrightarrow> is_dir fs p \<or> is_file fs p"

lemma above_is_dir:
  assumes "fs_ok fs"
  shows "od_get (p @ q) fs \<noteq> None \<Longrightarrow> q \<noteq> [] \<Longrightarrow> is_dir fs p"
proof (induction q rule: rev_induct)
  case (snoc c q)
  have top: "is_dir fs (p @ q)" "''..'' \<notin> set (p @ q)"
    using assms snoc.prems(1) by (auto simp: fs_ok_def butlast_append)
  show ?case
  proof (cases "q = []")
    case False
    then have "od_get (p @ q) fs \<noteq> None" using top by (auto simp: is_dir_def file_at_def split: option.splits)
    then show ?thesis using snoc.IH False by simp
  qed (use top in simp)
qed simp

lemma is_dir_get: "''..'' \<notin> set p \<Longrightarrow> is_dir fs p \<longleftrightarrow> p = [] \<or> (\<exists>t. od_get p fs = Some (Folder t))"
  by (auto simp: is_dir_def file_at_def split: option.splits fnode.splits)

lemma is_file_get: "''..'' \<notin> set p \<Longrightarrow> is_file fs p \<longleftrightarrow> (\<exists>n t. od_get p fs = Some (Regular n t))"
  by (auto simp: is_file_def file_at_def split: option.splits fnode.splits)

lemma fs_ok_names: "fs_ok fs \<Longrightarrow> od_get p fs \<noteq> None \<Longrightarrow> ''..'' \<notin> set p"
  by (auto simp: fs_ok_def)

text \<open>Taking paths away with everything below them keeps the table in order.\<close>

lemma fs_ok_cut:
  assumes ok: "fs_ok fs" and down: "\<And>p. p \<noteq> [] \<Longrightarrow> C (butlast p) \<Longrightarrow> C p"
  shows "fs_ok (filter (\<lambda>(q, n). \<not> C q) fs)"
proof -
  have "is_dir (filter (\<lambda>(q, n). \<not> C q) fs) (butlast p)" if p: "od_get p fs \<noteq> None" "\<not> C p" "p \<noteq> []" for p
  proof -
    have "''..'' \<notin> set (butlast p)" using fs_ok_names [OF ok p(1)] in_set_butlastD by fast
    moreover have "is_dir fs (butlast p)" using ok p by (auto simp: fs_ok_def)
    moreover have "\<not> C (butlast p)" using p down by blast
    ultimately show ?thesis by (auto simp: is_dir_get get_filter)
  qed
  then show ?thesis using fs_ok_names [OF ok] by (auto simp: fs_ok_def get_filter split: if_splits)
qed

lemma prefix_of_butlast: "prefix i (butlast p) \<Longrightarrow> prefix i p"
  by (metis prefix_order.trans prefixeq_butlast)

section \<open>Removing images\<close>

lemma remove_image_cut:
  assumes ok: "fs_ok fs" and i: "''..'' \<notin> set i"
  shows "remove_image i fs = (Inr (), filter (\<lambda>(q, n). \<not> (prefix i q \<and> removable fs i)) fs)"
proof -
  consider (folder) "is_dir fs i" | (regular) "\<not> is_dir fs i" "is_file fs i" | (neither) "\<not> is_dir fs i" "\<not> is_file fs i" by blast
  then show ?thesis
  proof cases
    case folder
    then show ?thesis using i by (simp add: remove_image_def removable_def rmtree_def change_def)
  next
    case regular
    have "prefix i q \<longleftrightarrow> q = i" if "(q, n) \<in> set fs" for q n
    proof
      assume "prefix i q"
      then obtain r where r: "q = i @ r" by (auto simp: prefix_def)
      have "od_get (i @ r) fs \<noteq> None" using that r image_eqI [of "i @ r" fst "(q, n)" "set fs"] by (subst get_mem) simp
      then have "r = []" using above_is_dir [OF ok, of i r] regular(1) by blast
      then show "q = i" using r by simp
    qed simp
    then have "od_pop i fs = filter (\<lambda>(q, n). \<not> prefix i q) fs" by (auto simp: od_pop_def intro!: filter_cong)
    then show ?thesis using regular i by (simp add: remove_image_def removable_def unlink_def)
  qed (simp add: remove_image_def removable_def)
qed

lemma same_length_prefix: "length p = length q \<Longrightarrow> prefix p q \<longleftrightarrow> p = q"
  by (auto simp: prefix_def)

lemma remove_images_cut:
  assumes "fs_ok fs" and "\<forall>i \<in> set is. ''..'' \<notin> set i \<and> length i = k" and "distinct is"
  shows "for_all remove_image is fs = (Inr (), filter (\<lambda>(q, n). \<not> (\<exists>i \<in> set is. prefix i q \<and> removable fs i)) fs)"
  using assms
proof (induction "is" arbitrary: fs)
  case Nil
  then show ?case by (simp add: ret_def case_prod_unfold)
next
  case (Cons i "is")
  let ?fs = "filter (\<lambda>(q, n). \<not> (prefix i q \<and> removable fs i)) fs"
  have same: "removable ?fs j = removable fs j" if "j \<in> set is" for j
  proof -
    have "''..'' \<notin> set j" "\<not> prefix i j" using Cons.prems that same_length_prefix [of i j] by auto
    then show ?thesis by (auto simp: removable_def is_dir_get is_file_get get_filter)
  qed
  have "for_all remove_image (i # is) fs = for_all remove_image is ?fs"
    using remove_image_cut [OF Cons.prems(1), of i] Cons.prems(2) by (simp add: andThen_def)
  also have "\<dots> = (Inr (), filter (\<lambda>(q, n). \<not> (\<exists>j \<in> set is. prefix j q \<and> removable ?fs j)) ?fs)"
    using Cons.prems by (intro Cons.IH fs_ok_cut [where C = "\<lambda>q. prefix i q \<and> removable fs i"]) (auto dest: prefix_of_butlast)
  also have "filter (\<lambda>(q, n). \<not> (\<exists>j \<in> set is. prefix j q \<and> removable ?fs j)) ?fs
      = filter (\<lambda>(q, n). \<not> (\<exists>j \<in> set (i # is). prefix j q \<and> removable fs j)) fs"
    unfolding filter_filter using same by (intro filter_cong) auto
  finally show ?case .
qed

lemma unlink_logs:
  assumes "\<forall>l \<in> set ls. ''..'' \<notin> set l \<and> \<not> is_dir fs l"
  shows "for_all unlink ls fs = (Inr (), filter (\<lambda>(q, n). q \<notin> set ls) fs)"
  using assms
proof (induction ls arbitrary: fs)
  case Nil
  then show ?case by (simp add: ret_def case_prod_unfold)
next
  case (Cons l ls)
  have pop: "od_pop l fs = filter (\<lambda>(q, n). q \<noteq> l) fs" by (simp add: od_pop_def case_prod_unfold)
  have still: "\<forall>k \<in> set ls. ''..'' \<notin> set k \<and> \<not> is_dir (filter (\<lambda>(q, n). q \<noteq> l) fs) k"
    using Cons.prems by (auto simp: is_dir_get get_filter)
  have "unlink l fs = (Inr (), filter (\<lambda>(q, n). q \<noteq> l) fs)" using Cons.prems pop by (simp add: unlink_def)
  then have "for_all unlink (l # ls) fs = for_all unlink ls (filter (\<lambda>(q, n). q \<noteq> l) fs)" by (simp add: andThen_def)
  also have "\<dots> = (Inr (), filter (\<lambda>(q, n). q \<notin> set (l # ls)) fs)"
    unfolding Cons.IH [OF still] filter_filter by (auto intro!: filter_cong)
  finally show ?case .
qed

section \<open>What the patterns select\<close>

text \<open>A session name as the pool checks it: letters, digits and underscores.\<close>

definition plain_session :: "pystr \<Rightarrow> bool" where
  "plain_session s \<longleftrightarrow> s \<noteq> [] \<and> (\<forall>c \<in> set s. is_ident_char c)"

lemma ident_char_facts: "is_ident_char c \<Longrightarrow> c \<notin> set ''*?[./''"
  by (auto simp: is_ident_char_def is_alpha_ascii_def is_digit_ascii_def)

lemma plain_session_facts:
  assumes "plain_session s"
  shows "\<not> magic s" "CHR ''/'' \<notin> set s" "s \<noteq> ''..''" "s \<noteq> ''.''" "s \<noteq> ''**''" "s \<noteq> []" "CHR ''.'' \<notin> set s"
    "last s \<noteq> CHR ''/''"
proof -
  have no: "c \<notin> set s" if "c \<in> set ''*?[./''" for c
    using assms ident_char_facts [of c] that by (auto simp: plain_session_def)
  show "\<not> magic s" "CHR ''/'' \<notin> set s" "CHR ''.'' \<notin> set s" using no by (auto simp: magic_def)
  show "s \<noteq> []" using assms by (simp add: plain_session_def)
  show "s \<noteq> ''..''" "s \<noteq> ''.''" "s \<noteq> ''**''" using no [of "CHR ''.''"] no [of "CHR ''*''"] by auto
  show "last s \<noteq> CHR ''/''" using last_in_set [OF \<open>s \<noteq> []\<close>] no [of "CHR ''/''"] by (metis list.set_intros(1) list.set_intros(2))
qed

lemma fnmatch_star: "fnmatch ''*'' s"
  by (auto simp: list_ex_iff)

lemma fnmatch_literal:
  "\<forall>c \<in> set u. c \<notin> set ''*?['' \<Longrightarrow> fnmatch (u @ p) s \<longleftrightarrow> (\<exists>t. s = u @ t \<and> fnmatch p t)"
proof (induction u arbitrary: s)
  case (Cons c u)
  then show ?case by (cases s) auto
qed simp

lemma fnmatch_log: "plain_session s \<Longrightarrow> fnmatch (s @ ''.*'') f \<longleftrightarrow> startswith f (s @ ''.'')"
proof -
  assume s: "plain_session s"
  have "fnmatch ((s @ ''.'') @ ''*'') f \<longleftrightarrow> (\<exists>t. f = (s @ ''.'') @ t \<and> fnmatch ''*'' t)"
    using s ident_char_facts by (intro fnmatch_literal) (auto simp: plain_session_def)
  then have "fnmatch (s @ ''.*'') f \<longleftrightarrow> (\<exists>t. f = (s @ ''.'') @ t)" using fnmatch_star by (simp del: fnmatch.simps)
  then show ?thesis by (simp only: startswith_iff)
qed

lemma children_mem: "c \<in> set (children fs p) \<longleftrightarrow> od_get (resolve p @ [c]) fs \<noteq> None"
proof -
  have "(\<exists>n. (resolve p @ [c], n) \<in> set fs) \<longleftrightarrow> (\<exists>q n. (q, n) \<in> set fs \<and> q \<noteq> [] \<and> butlast q = resolve p \<and> last q = c)"
    by (metis append_butlast_last_id butlast_snoc last_snoc snoc_eq_iff_butlast)
  also have "\<dots> \<longleftrightarrow> c \<in> set (children fs p)" by (auto simp: children_def image_iff)
  also have "(\<exists>n. (resolve p @ [c], n) \<in> set fs) \<longleftrightarrow> od_get (resolve p @ [c]) fs \<noteq> None"
    by (subst get_mem) force
  finally show ?thesis by simp
qed


lemma split_parts: "CHR ''/'' \<notin> set u \<Longrightarrow> split_on (CHR ''/'') (u @ CHR ''/'' # v) = u # split_on (CHR ''/'') v"
  by (simp add: split_on_append)

lemma parts_image:
  assumes "plain_session s"
  shows "path_parts (''*/'' @ s) = [''*'', s]" "path_parts (''*/log/'' @ s @ ''.*'') = [''*'', ''log'', s @ ''.*'']"
proof -
  note s = plain_session_facts [OF assms]
  have "split_on (CHR ''/'') (''*'' @ CHR ''/'' # s) = [''*'', s]"
    using split_parts [of "''*''" s] split_on_single s by simp
  then show "path_parts (''*/'' @ s) = [''*'', s]" using s by (simp add: path_parts_def)
  have "split_on (CHR ''/'') (''*'' @ CHR ''/'' # ''log'' @ CHR ''/'' # s @ ''.*'') = [''*'', ''log'', s @ ''.*'']"
    using split_parts [of "''*''" "''log'' @ CHR ''/'' # s @ ''.*''"] split_parts [of "''log''" "s @ ''.*''"]
      split_on_single s by simp
  then show "path_parts (''*/log/'' @ s @ ''.*'') = [''*'', ''log'', s @ ''.*'']" using s by (simp add: path_parts_def)
qed

lemma child_of:
  assumes ok: "fs_ok fs" and h: "''..'' \<notin> set p" and q: "q \<noteq> []"
  shows "od_get (p @ c # q) fs \<noteq> None \<longleftrightarrow> c \<in> set (children fs p) \<and> is_dir fs (p @ [c]) \<and> od_get (p @ c # q) fs \<noteq> None"
proof -
  have "od_get (p @ [c]) fs \<noteq> None \<and> is_dir fs (p @ [c])" if "od_get (p @ c # q) fs \<noteq> None"
    using above_is_dir [OF ok, of "p @ [c]" q] that q fs_ok_names [OF ok that] by (auto simp: is_dir_get)
  then show ?thesis using h by (auto simp: children_mem)
qed

lemma child_not_up: "fs_ok fs \<Longrightarrow> ''..'' \<notin> set p \<Longrightarrow> c \<in> set (children fs p) \<Longrightarrow> c \<noteq> ''..''"
  using fs_ok_names [of fs "p @ [c]"] by (auto simp add: children_mem simp del: not_None_eq)

lemma glob_images:
  assumes ok: "fs_ok fs" and h: "''..'' \<notin> set p" and s: "plain_session s"
  shows "\<exists>is. glob fs p (''*/'' @ s) = Inr is \<and> distinct is \<and> set is = {p @ [c, s] | c. od_get (p @ [c, s]) fs \<noteq> None}"
proof -
  note facts = plain_session_facts [OF s]
  have star: "magic ''*''" by (simp add: magic_def)
  have hit: "set (select fs [s] (p @ [c])) = (if od_get (p @ [c, s]) fs \<noteq> None then {p @ [c, s]} else {})" if "c \<noteq> ''..''" for c
    using facts h that by (auto simp: is_dir_get file_at_def)
  have "set (select fs [''*'', s] p) = {p @ [c, s] | c. od_get (p @ [c, s]) fs \<noteq> None}"
  proof -
    have "set (select fs [''*'', s] p) = (\<Union>c \<in> {c \<in> set (children fs p). is_dir fs (p @ [c])}. set (select fs [s] (p @ [c])))"
      using star fnmatch_star by (auto simp del: fnmatch.simps split: if_splits)
    also have "\<dots> = (\<Union>c \<in> {c \<in> set (children fs p). is_dir fs (p @ [c])}. if od_get (p @ [c, s]) fs \<noteq> None then {p @ [c, s]} else {})"
      using child_not_up [OF ok h] by (intro SUP_cong refl hit) auto
    also have "\<dots> = {p @ [c, s] | c. od_get (p @ [c, s]) fs \<noteq> None}"
      using child_of [OF ok h, of "[s]"] by (auto split: if_splits)
    finally show ?thesis .
  qed
  moreover have "\<not> is_dir fs p \<Longrightarrow> od_get (p @ [c, s]) fs = None" for c
    by (rule ccontr) (use above_is_dir [OF ok, of p "[c, s]"] in simp)
  ultimately show ?thesis
    using parts_image(1) [OF s] facts by (auto simp: glob_def startswith_def simp del: select.simps)
qed

lemma glob_logs:
  assumes ok: "fs_ok fs" and h: "''..'' \<notin> set p" and s: "plain_session s"
  shows "\<exists>ls. glob fs p (''*/log/'' @ s @ ''.*'') = Inr ls \<and> set ls =
    {p @ [c, ''log'', f] | c f. startswith f (s @ ''.'') \<and> od_get (p @ [c, ''log'', f]) fs \<noteq> None}"
proof -
  note facts = plain_session_facts [OF s]
  have star: "magic ''*''" and tail: "magic (s @ ''.*'')" "s @ ''.*'' \<noteq> ''**''" and log: "\<not> magic ''log''"
    using facts by (auto simp: magic_def append_eq_Cons_conv)
  have last: "set (select fs [s @ ''.*''] q) = {q @ [f] | f. startswith f (s @ ''.'') \<and> f \<in> set (children fs q)}" for q
    using tail fnmatch_log [OF s] by (auto simp del: fnmatch.simps)
  have mid: "set (select fs [''log'', s @ ''.*''] q) =
      (if is_dir fs (q @ [''log'']) then set (select fs [s @ ''.*''] (q @ [''log''])) else {})" for q
    using log by (simp del: fnmatch.simps)
  have "set (select fs [''*'', ''log'', s @ ''.*''] p) =
      (\<Union>c \<in> {c \<in> set (children fs p). is_dir fs (p @ [c])}. set (select fs [''log'', s @ ''.*''] (p @ [c])))"
    using star fnmatch_star by (auto simp del: fnmatch.simps split: if_splits)
  also have "\<dots> = {p @ [c, ''log'', f] | c f. c \<in> set (children fs p) \<and> is_dir fs (p @ [c]) \<and> is_dir fs (p @ [c, ''log''])
      \<and> startswith f (s @ ''.'') \<and> f \<in> set (children fs (p @ [c, ''log'']))}"
    unfolding mid last by (auto split: if_splits)
  also have "\<dots> = {p @ [c, ''log'', f] | c f. startswith f (s @ ''.'') \<and> od_get (p @ [c, ''log'', f]) fs \<noteq> None}"
  proof -
    have "od_get (p @ [c, ''log'', f]) fs \<noteq> None \<longleftrightarrow> c \<in> set (children fs p) \<and> is_dir fs (p @ [c]) \<and> is_dir fs (p @ [c, ''log''])
        \<and> f \<in> set (children fs (p @ [c, ''log'']))" for c f
    proof -
      have up: "od_get (p @ [c, ''log'', f]) fs \<noteq> None \<Longrightarrow> is_dir fs (p @ [c, ''log'']) \<and> c \<noteq> ''..''"
        using above_is_dir [OF ok, of "p @ [c, ''log'']" "[f]"] fs_ok_names [OF ok, of "p @ [c, ''log'', f]"] by auto
      have down: "c \<in> set (children fs p) \<Longrightarrow> c \<noteq> ''..''" by (rule child_not_up [OF ok h])
      show ?thesis using child_of [OF ok h, of "[''log'', f]" c] up down h by (auto simp: children_mem)
    qed
    then show ?thesis by blast
  qed
  finally have set: "set (select fs [''*'', ''log'', s @ ''.*''] p) =
      {p @ [c, ''log'', f] | c f. startswith f (s @ ''.'') \<and> od_get (p @ [c, ''log'', f]) fs \<noteq> None}" .
  moreover have "\<not> is_dir fs p \<Longrightarrow> od_get (p @ [c, ''log'', f]) fs = None" for c f
    by (rule ccontr) (use above_is_dir [OF ok, of p "[c, ''log'', f]"] in simp)
  ultimately show ?thesis
    using parts_image(2) [OF s] by (auto simp: glob_def startswith_def simp del: select.simps)
qed


section \<open>Exactly the images nobody uses\<close>

definition image_of :: "files \<Rightarrow> fpath \<Rightarrow> pystr \<Rightarrow> fpath \<Rightarrow> bool" where
  "image_of fs heaps s p \<longleftrightarrow> (\<exists>c. prefix (heaps @ [c, s]) p \<and> removable fs (heaps @ [c, s]))"

definition log_of :: "fpath \<Rightarrow> pystr \<Rightarrow> fpath \<Rightarrow> bool" where
  "log_of heaps s p \<longleftrightarrow> (\<exists>c f. p = heaps @ [c, ''log'', f] \<and> startswith f (s @ ''.''))"

definition gc_applies :: "image_env \<Rightarrow> (heap_key, heap_entry) od \<Rightarrow> pystr \<Rightarrow> bool" where
  "gc_applies w es s \<longleftrightarrow> gc_images w \<and> isabelle_home_user w \<noteq> None \<and> (\<forall>e \<in> snd ` set es. he_session e \<noteq> s)"

lemma gc_exact:
  assumes ok: "fs_ok fs" and s: "plain_session s" and home: "isabelle_home_user w = Some h" "''..'' \<notin> set h"
    and gc: "gc_applies w es s"
    and logs: "\<forall>c f. startswith f (s @ ''.'') \<longrightarrow> \<not> is_dir fs (h @ [''heaps'', c, ''log'', f])"
  shows "gc_heap_image w es s fs =
    (Inr (), filter (\<lambda>(q, n). \<not> (image_of fs (h @ [''heaps'']) s q \<or> log_of (h @ [''heaps'']) s q)) fs)"
proof -
  let ?p = "h @ [''heaps'']"
  let ?C = "\<lambda>q. image_of fs ?p s q" and ?fs = "filter (\<lambda>(q, n). \<not> image_of fs (h @ [''heaps'']) s q) fs"
  have up: "''..'' \<notin> set ?p" using home by simp
  obtain "is" where imgs: "glob fs ?p (''*/'' @ s) = Inr is" "distinct is" "set is = {?p @ [c, s] | c. od_get (?p @ [c, s]) fs \<noteq> None}"
    using glob_images [OF ok up s] by blast
  have "for_all remove_image is fs = (Inr (), filter (\<lambda>(q, n). \<not> (\<exists>i \<in> set is. prefix i q \<and> removable fs i)) fs)"
    using fs_ok_names [OF ok] by (intro remove_images_cut [OF ok _ imgs(2), where k = "length ?p + 2"]) (auto simp: imgs(3) simp del: not_None_eq)
  also have "filter (\<lambda>(q, n). \<not> (\<exists>i \<in> set is. prefix i q \<and> removable fs i)) fs = ?fs"
  proof -
    have "od_get (?p @ [c, s]) fs \<noteq> None" if "removable fs (?p @ [c, s])" "(q, n) \<in> set fs" "prefix (?p @ [c, s]) q" for c q n
    proof -
      have "od_get q fs \<noteq> None" using that(2) by (subst get_mem) force
      then have "''..'' \<notin> set (?p @ [c, s])" using fs_ok_names [OF ok, of q] that(3) set_mono_prefix by blast
      then show ?thesis using that(1) by (auto simp: removable_def is_dir_get is_file_get)
    qed
    then show ?thesis unfolding imgs(3) image_of_def by (intro filter_cong) (auto simp del: not_None_eq append_assoc)
  qed
  finally have cut: "for_all remove_image is fs = (Inr (), ?fs)" .
  have ok': "fs_ok ?fs" by (rule fs_ok_cut [OF ok]) (auto simp: image_of_def dest: prefix_of_butlast)
  obtain ls where ls: "glob ?fs ?p (''*/log/'' @ s @ ''.*'') = Inr ls"
    "set ls = {?p @ [c, ''log'', f] | c f. startswith f (s @ ''.'') \<and> od_get (?p @ [c, ''log'', f]) ?fs \<noteq> None}"
    using glob_logs [OF ok' up s] by blast
  have "\<not> is_dir ?fs l" "''..'' \<notin> set l" if l: "l \<in> set ls" for l
  proof -
    obtain c f where cf: "l = ?p @ [c, ''log'', f]" "startswith f (s @ ''.'')" "od_get l ?fs \<noteq> None" using l ls(2) by auto
    show names: "''..'' \<notin> set l" by (rule fs_ok_names [OF ok' cf(3)])
    show "\<not> is_dir ?fs l"
    proof
      assume "is_dir ?fs l"
      then have "is_dir fs l" using names by (auto simp: is_dir_get get_filter split: if_splits)
      then show False using logs cf(1,2) by simp
    qed
  qed
  then have "for_all unlink ls ?fs = (Inr (), filter (\<lambda>(q, n). q \<notin> set ls) ?fs)" by (intro unlink_logs) auto
  also have "filter (\<lambda>(q, n). q \<notin> set ls) ?fs = filter (\<lambda>(q, n). \<not> (image_of fs ?p s q \<or> log_of ?p s q)) fs"
  proof -
    have "q \<in> set ls \<longleftrightarrow> log_of ?p s q" if "(q, n) \<in> set ?fs" for q n
    proof -
      have "od_get q ?fs \<noteq> None" using that by (subst get_mem) force
      then show ?thesis unfolding ls(2) log_of_def by auto
    qed
    then show ?thesis by (auto simp: filter_filter intro!: filter_cong)
  qed
  finally have "for_all unlink ls ?fs = (Inr (), filter (\<lambda>(q, n). \<not> (image_of fs ?p s q \<or> log_of ?p s q)) fs)" .
  then show ?thesis
    using gc home(1) imgs(1) cut ls(1)
    by (auto simp: gc_heap_image_def gc_applies_def glob_now_def andThen_def list_ex_iff)
qed



section \<open>On a small disk\<close>

definition small_disk :: files where
  "small_disk = [([''u''], Folder 0), ([''u'', ''etc''], Folder 0), ([''u'', ''etc'', ''settings''], Regular 1 0),
     ([''u'', ''heaps''], Folder 0), ([''u'', ''heaps'', ''x''], Folder 0), ([''u'', ''heaps'', ''x'', ''S''], Regular 5 0),
     ([''u'', ''heaps'', ''x'', ''T''], Regular 6 0), ([''u'', ''heaps'', ''x'', ''log''], Folder 0),
     ([''u'', ''heaps'', ''x'', ''log'', ''S.gz''], Regular 2 0), ([''u'', ''heaps'', ''x'', ''log'', ''T.gz''], Regular 2 0)]"

definition small_homes :: image_env where
  "small_homes = \<lparr>user_home_answer = Inr ''/u'', home_answer = Inl (Exn C_OSError []), gc_images = True,
     gmtime = (\<lambda>t. []), megabytes = real\<rparr>"

lemma small_disk_ok: "fs_ok small_disk"
  unfolding fs_ok_def
proof (intro allI impI)
  fix p assume "od_get p small_disk \<noteq> None"
  then have "p \<in> fst ` set small_disk" by (simp only: get_mem)
  then show "''..'' \<notin> set p \<and> (p \<noteq> [] \<longrightarrow> is_dir small_disk (butlast p))"
    by (auto simp: small_disk_def is_dir_get od_get_def)
qed

lemma small_home: "isabelle_home_user small_homes = Some [''u'']"
  by code_simp

lemma demo_only: "entries demo_building = [((''g'', ''/p''), demo_heap_entry)]"
  by (simp add: demo_building_def demo_heap_entry_def demo_heap_env_def lock_build_def start_build_def Let_def od_set_def
      wanted_session_def root_and_session_def truthy_def or_else_def scan_sources_def theory_files_def onOk_def
      place_root_def persist_def)



text \<open>A project with a ROOT of its own may be built under any session name; the name is not checked.\<close>

definition wild_building :: heap_state where
  "wild_building = snd (start_build demo_heap_env ''g'' ''/p'' (Some ''*'') None
     (snd (lock_build ''g'' ''/p'' \<lparr>entries = [], manifests = [], scratch_roots = [], locked = []\<rparr>)))"

lemma wild_name_accepted: "map_option he_session (od_get (''g'', ''/p'') (entries wild_building)) = Some ''*''"
  by (simp add: wild_building_def demo_heap_env_def lock_build_def start_build_def Let_def new_entry_def
      wanted_session_def root_and_session_def truthy_def or_else_def scan_sources_def theory_files_def onOk_def)

text \<open>Deleting such a record deletes every image of every session, and all build logs.\<close>

theorem wild_name_deletes_every_image:
  "snd (gc_heap_image small_homes [] ''*'' small_disk) = [([''u''], Folder 0), ([''u'', ''etc''], Folder 0),
     ([''u'', ''etc'', ''settings''], Regular 1 0), ([''u'', ''heaps''], Folder 0), ([''u'', ''heaps'', ''x''], Folder 0)]"
  by code_simp

text \<open>A platform of \<open>..\<close> leads out of the directory of the heaps.\<close>

theorem platform_leads_out:
  "snd (delete_heap_image demo_heap_env small_homes ''etc'' (Some ''..'') small_disk) =
     filter (\<lambda>(q, n). \<not> prefix [''u'', ''etc''] q) small_disk"
  by code_simp

end
