(* ===== verification/Gym_Agent.thy ===== *)
theory Gym_Agent
  imports Success_Checker Py_Effects
begin

text \<open>
  The agents that prove theorems in a local gym (\<open>evaluation/local_gym\<close>): the success checker they use, the context of a
  proof, and the proof loop of \<open>IsabelleAgent.prove_theorem\<close> with its statistics.

  The gym and the clock are the parameter \<open>gym_api\<close>, functions on a world \<open>'w\<close>; the abstract methods of a class of agents
  are the parameter \<open>agent_class\<close>, whose own attributes are \<open>'m\<close>. The visualiser, which is output only, is left out (and of the
  harmless first words of a line, the one with a dash that is not an 8-bit character);
  \<open>training_collector\<close> is \<open>None\<close>, and \<open>IsabelleGym\<close> has neither \<open>sledgehammer\<close> nor \<open>get_session_info\<close>.
\<close>

section \<open>The success checker of the local gym\<close>

definition local_harmless :: "pystr \<Rightarrow> bool" where
  "local_harmless stripped =
     (stripped = [] \<or> startswith stripped ''###'' \<or> startswith stripped ''Warning:'' \<or> startswith stripped ''note:'')"

definition local_has_error_output :: "repl_result \<Rightarrow> bool" where
  "local_has_error_output r =
     (case rr_error r of
        Inl _ \<Rightarrow> True
      | Inr None \<Rightarrow> False
      | Inr (Some t) \<Rightarrow> strip t \<noteq> [] \<and> filter (\<lambda>s. \<not> local_harmless s) (map strip (splitlines (strip t))) \<noteq> [])"

definition local_syntax_ok :: "repl_result \<Rightarrow> bool" where
  "local_syntax_ok r = (\<not> local_has_error_output r)"

definition local_error_message :: "repl_result \<Rightarrow> pystr" where
  "local_error_message r =
     (case rr_error r of Inr (Some t) \<Rightarrow> strip t | _ \<Rightarrow> ''Unknown error occurred'')"

definition local_output_message :: "repl_result \<Rightarrow> pystr" where
  "local_output_message r = (case rr_output r of Inr (Some t) \<Rightarrow> strip t | _ \<Rightarrow> [])"

definition local_proof_progress :: "pystr list \<Rightarrow> pystr list \<Rightarrow> bool" where
  "local_proof_progress before_goals after_goals =
     (if length after_goals < length before_goals then True
      else if length after_goals = length before_goals then after_goals \<noteq> before_goals
      else if length before_goals < length after_goals then 0 < length before_goals
      else False)"

section \<open>The gym and the context of a proof\<close>

record 'w gym_api =
  g_step :: "pystr \<Rightarrow> 'w \<Rightarrow> (exn + repl_result) \<times> 'w"
  g_goals :: "'w \<Rightarrow> (exn + pystr list) \<times> 'w"
  g_source :: "'w \<Rightarrow> (exn + pystr) \<times> 'w"
  g_clock :: "'w \<Rightarrow> real \<times> 'w"

record proof_context =
  subgoals :: "pystr list"
  priorities :: "real list"
  current_theorem :: pystr
  proof_depth :: nat
  solved :: "bool list"
  attempted_tactics :: "pystr list"
  successful_tactics :: "pystr list"

text \<open>\<open>__post_init__\<close>, for the attributes given to the constructor.\<close>

definition post_init :: "proof_context \<Rightarrow> proof_context" where
  "post_init c =
     (let c1 = (if length (priorities c) \<noteq> length (subgoals c) then c\<lparr>priorities := replicate (length (subgoals c)) 1\<rparr> else c) in
      if length (solved c1) \<noteq> length (subgoals c1) then c1\<lparr>solved := replicate (length (subgoals c1)) False\<rparr> else c1)"

definition ProofContext :: "pystr list \<Rightarrow> pystr \<Rightarrow> proof_context" where
  "ProofContext goals thm_text = post_init \<lparr>subgoals = goals, priorities = [], current_theorem = thm_text, proof_depth = 0,
     solved = [], attempted_tactics = [], successful_tactics = []\<rparr>"

text \<open>\<open>max(xs, key=f)\<close>: the first of the greatest.\<close>

fun max_by :: "('a \<Rightarrow> real) \<Rightarrow> 'a \<Rightarrow> 'a list \<Rightarrow> 'a" where
  "max_by f m [] = m"
| "max_by f m (x # xs) = max_by f (if f m < f x then x else m) xs"

definition active_goal_id :: "proof_context \<Rightarrow> int" where
  "active_goal_id c =
     (if subgoals c = [] then -1
      else case filter (\<lambda>(i, p). i < length (solved c) \<and> \<not> solved c ! i) (enumerate 0 (priorities c)) of
             [] \<Rightarrow> -1
           | x # xs \<Rightarrow> int (fst (max_by snd x xs)))"

definition is_complete :: "proof_context \<Rightarrow> bool" where
  "is_complete c = (length (subgoals c) = 0 \<or> list_all id (solved c))"

definition update_subgoals :: "pystr list \<Rightarrow> proof_context \<Rightarrow> proof_context" where
  "update_subgoals goals c =
     c\<lparr>subgoals := goals, priorities := replicate (length goals) 1, solved := replicate (length goals) False\<rparr>"

definition record_tactic_attempt :: "pystr \<Rightarrow> bool \<Rightarrow> proof_context \<Rightarrow> proof_context" where
  "record_tactic_attempt tactic good c =
     c\<lparr>attempted_tactics := attempted_tactics c @ [tactic],
       successful_tactics := successful_tactics c @ (if good then [tactic] else [])\<rparr>"

definition progress_ratio :: "proof_context \<Rightarrow> real" where
  "progress_ratio c =
     (if successful_tactics c = [] then 0
      else if length (attempted_tactics c) = 0 then 0
      else real (length (successful_tactics c)) / real (length (attempted_tactics c)))"

section \<open>The result of a proof\<close>

record proof_result =
  pf_success :: bool
  pf_duration :: real
  pf_steps :: nat
  pf_length :: nat
  pf_state :: pystr
  pf_attempts :: nat
  pf_successful :: nat
  pf_failed :: nat
  pf_priority_updates :: nat
  pf_cache_hit_rate :: real
  pf_reward :: real
  pf_guidance_calls :: nat
  pf_recommendations :: "pystr list"
  pf_error :: "pystr option"

definition result_success_rate :: "proof_result \<Rightarrow> real" where
  "result_success_rate r = (if pf_attempts r = 0 then 0 else real (pf_successful r) / real (pf_attempts r))"

definition performance_score :: "proof_result \<Rightarrow> real" where
  "performance_score r =
     (if \<not> pf_success r then 0
      else min (100
        + (if 0 < pf_attempts r then real (pf_successful r) / real (pf_attempts r) * 20 else 0)
        + (if 0 < pf_duration r then max 0 (10 - pf_duration r) else 0)
        + pf_cache_hit_rate r * 5) 150)"

section \<open>The agent\<close>

record agent =
  step_count :: nat
  tactic_history :: "pystr list"
  priority_calls :: nat
  start_time :: "real option"
  proofs_attempted :: nat
  proofs_succeeded :: nat
  tactics_tried :: nat
  tactics_succeeded :: nat

record ('w, 'm) arena =
  world :: 'w
  mind :: 'm
  self :: agent

type_synonym ('w, 'm, 'a) act = "(('w, 'm) arena, 'a) py"

record ('w, 'm) agent_class =
  recommend_tactic :: "proof_context \<Rightarrow> int \<Rightarrow> ('w, 'm, pystr option) act"
  evaluate_priorities :: "proof_context \<Rightarrow> ('w, 'm, real list) act"

definition ask_gym :: "('w \<Rightarrow> (exn + 'a) \<times> 'w) \<Rightarrow> ('w, 'm, 'a) act" where
  "ask_gym f st = (case f (world st) of (r, w) \<Rightarrow> (r, st\<lparr>world := w\<rparr>))"

definition local_tactic_successful :: "'w gym_api \<Rightarrow> repl_result \<Rightarrow> pystr list option \<Rightarrow> ('w, 'm, bool) act" where
  "local_tactic_successful api res before_opt =
     (if \<not> local_syntax_ok res then ret False
      else case before_opt of
             None \<Rightarrow> ret True
           | Some before_goals \<Rightarrow> andThen (ask_gym (g_goals api)) (\<lambda>after_goals. ret (local_proof_progress before_goals after_goals)))"

definition now :: "'w gym_api \<Rightarrow> ('w, 'm, real) act" where
  "now api st = (case g_clock api (world st) of (t, w) \<Rightarrow> (Inr t, st\<lparr>world := w\<rparr>))"

definition on_self :: "(agent \<Rightarrow> agent) \<Rightarrow> ('w, 'm, unit) act" where
  "on_self f = change (\<lambda>st. st\<lparr>self := f (self st)\<rparr>)"

definition reset_session :: "('w, 'm, unit) act" where
  "reset_session = on_self (\<lambda>a. a\<lparr>step_count := 0, tactic_history := [], priority_calls := 0, start_time := None\<rparr>)"

definition failure_result :: "'w gym_api \<Rightarrow> real \<Rightarrow> pystr \<Rightarrow> nat \<Rightarrow> nat \<Rightarrow> ('w, 'm, proof_result) act" where
  "failure_result api start msg steps depth =
     andThen (now api) (\<lambda>t. andThen (fetch self) (\<lambda>a.
     ret \<lparr>pf_success = False, pf_duration = t - start, pf_steps = steps, pf_length = depth, pf_state = ''Proof failed'',
          pf_attempts = 0, pf_successful = 0, pf_failed = 0, pf_priority_updates = 0, pf_cache_hit_rate = 0, pf_reward = -10,
          pf_guidance_calls = priority_calls a, pf_recommendations = tactic_history a, pf_error = Some msg\<rparr>))"

definition success_result :: "'w gym_api \<Rightarrow> real \<Rightarrow> nat \<Rightarrow> proof_context \<Rightarrow> ('w, 'm, proof_result) act" where
  "success_result api start steps c =
     andThen (now api) (\<lambda>t. andThen (fetch self) (\<lambda>a.
     ret \<lparr>pf_success = True, pf_duration = t - start, pf_steps = steps, pf_length = proof_depth c, pf_state = ''Proof completed'',
          pf_attempts = length (attempted_tactics c), pf_successful = length (successful_tactics c),
          pf_failed = length (attempted_tactics c) - length (successful_tactics c), pf_priority_updates = priority_calls a,
          pf_cache_hit_rate = 0, pf_reward = 100, pf_guidance_calls = priority_calls a,
          pf_recommendations = tactic_history a, pf_error = None\<rparr>))"

definition timeout_result :: "'w gym_api \<Rightarrow> real \<Rightarrow> nat \<Rightarrow> proof_context \<Rightarrow> pystr \<Rightarrow> ('w, 'm, proof_result) act" where
  "timeout_result api start steps c msg =
     andThen (now api) (\<lambda>t. andThen (fetch self) (\<lambda>a.
     ret \<lparr>pf_success = False, pf_duration = t - start, pf_steps = steps, pf_length = proof_depth c, pf_state = ''Proof timeout'',
          pf_attempts = length (attempted_tactics c), pf_successful = length (successful_tactics c),
          pf_failed = length (attempted_tactics c) - length (successful_tactics c), pf_priority_updates = 0,
          pf_cache_hit_rate = 0, pf_reward = -5, pf_guidance_calls = priority_calls a,
          pf_recommendations = tactic_history a, pf_error = Some msg\<rparr>))"

section \<open>The proof loop\<close>

record limits =
  max_steps :: nat
  max_depth :: nat
  time_limit :: real
  time_limit_text :: pystr

definition goal_line :: "int \<Rightarrow> pystr \<Rightarrow> pystr" where
  "goal_line i tactic = ''Goal '' @ show_int i @ '': '' @ tactic"

text \<open>One tactic on the gym, and what the context learns from it.\<close>

definition try_tactic :: "'w gym_api \<Rightarrow> pystr \<Rightarrow> int \<Rightarrow> proof_context \<Rightarrow> ('w, 'm, proof_context) act" where
  "try_tactic api tactic goal c =
     andThen (on_self (\<lambda>a. a\<lparr>tactic_history := tactic_history a @ [goal_line goal tactic]\<rparr>)) (\<lambda>_.
     andThen (now api) (\<lambda>_.
     andThen (ask_gym (g_step api tactic)) (\<lambda>res.
     andThen (now api) (\<lambda>_.
     andThen (ask_gym (g_goals api)) (\<lambda>after_goals.
     let good = (local_syntax_ok res \<and> (length after_goals \<noteq> length (subgoals c) \<or> after_goals \<noteq> subgoals c));
         c1 = record_tactic_attempt tactic good c in
     andThen (on_self (\<lambda>a. a\<lparr>tactics_tried := tactics_tried a + 1, step_count := step_count a + 1\<rparr>)) (\<lambda>_.
     if good
     then andThen (on_self (\<lambda>a. a\<lparr>tactics_succeeded := tactics_succeeded a + 1, tactic_history := tactic_history a @ [tactic]\<rparr>))
            (\<lambda>_. ret ((update_subgoals after_goals c1)\<lparr>proof_depth := proof_depth c1 + 1\<rparr>))
     else ret c1))))))"

definition weigh_goals :: "('w, 'm) agent_class \<Rightarrow> proof_context \<Rightarrow> ('w, 'm, proof_context) act" where
  "weigh_goals cls c =
     (if 1 < length (subgoals c)
      then andThen (evaluate_priorities cls c) (\<lambda>ps.
           andThen (on_self (\<lambda>a. a\<lparr>priority_calls := priority_calls a + 1\<rparr>)) (\<lambda>_. ret (c\<lparr>priorities := ps\<rparr>)))
      else ret c)"

fun proof_loop :: "'w gym_api \<Rightarrow> ('w, 'm) agent_class \<Rightarrow> limits \<Rightarrow> real \<Rightarrow> nat \<Rightarrow> nat \<Rightarrow> proof_context
    \<Rightarrow> ('w, 'm, proof_result) act" where
  "proof_loop api cls bnd start 0 k c =
     failure_result api start (''Maximum steps '' @ show_nat (max_steps bnd) @ '' reached'') (max_steps bnd) (proof_depth c)"
| "proof_loop api cls bnd start (Suc n) k c =
     andThen (now api) (\<lambda>t.
     if time_limit bnd < t - start
     then timeout_result api start k c (''Proof timeout after '' @ time_limit_text bnd @ ''s'')
     else if is_complete c
     then andThen (on_self (\<lambda>a. a\<lparr>proofs_succeeded := proofs_succeeded a + 1\<rparr>)) (\<lambda>_. success_result api start k c)
     else if max_depth bnd \<le> proof_depth c
     then failure_result api start (''Maximum proof depth '' @ show_nat (max_depth bnd) @ '' reached'') k (proof_depth c)
     else
       andThen (weigh_goals cls c) (\<lambda>c1.
       let goal = active_goal_id c1 in
       if goal < 0 then failure_result api start ''No available goals to work on'' k (proof_depth c1)
       else
         andThen (recommend_tactic cls c1 goal) (\<lambda>tac.
         if \<not> truthy tac then failure_result api start ''No more tactics available'' k (proof_depth c1)
         else andThen (try_tactic api (or_else tac []) goal c1) (\<lambda>c2. proof_loop api cls bnd start n (Suc k) c2))))"

definition begin_proof :: "'w gym_api \<Rightarrow> ('w, 'm) agent_class \<Rightarrow> limits \<Rightarrow> real \<Rightarrow> pystr \<Rightarrow> ('w, 'm, proof_result) act" where
  "begin_proof api cls bnd start thm_text =
     andThen (ask_gym (g_step api thm_text)) (\<lambda>res.
     if \<not> local_syntax_ok res
     then failure_result api start (''Failed to start theorem: '' @ local_error_message res) 0 0
     else
       andThen (ask_gym (g_goals api)) (\<lambda>goals.
       if goals = [] then failure_result api start ''No subgoals found after theorem statement'' 0 0
       else proof_loop api cls bnd start (max_steps bnd) 0 (ProofContext goals thm_text)))"

definition prove_theorem :: "'w gym_api \<Rightarrow> ('w, 'm) agent_class \<Rightarrow> limits \<Rightarrow> pystr \<Rightarrow> ('w, 'm, proof_result) act" where
  "prove_theorem api cls bnd thm_text =
     andThen (now api) (\<lambda>start.
     andThen (on_self (\<lambda>a. a\<lparr>start_time := Some start\<rparr>)) (\<lambda>_.
     andThen reset_session (\<lambda>_.
     andThen (on_self (\<lambda>a. a\<lparr>proofs_attempted := proofs_attempted a + 1\<rparr>)) (\<lambda>_.
     catch (begin_proof api cls bnd start thm_text)
       (\<lambda>e. failure_result api start (''Unexpected error during proof: '' @ str_of e) 0 0)))))"

definition agent_success_rate :: "agent \<Rightarrow> real" where
  "agent_success_rate a = (if proofs_attempted a = 0 then 0 else real (proofs_succeeded a) / real (proofs_attempted a))"

definition tactic_efficiency :: "agent \<Rightarrow> real" where
  "tactic_efficiency a = (if tactics_tried a = 0 then 0 else real (tactics_succeeded a) / real (tactics_tried a))"

section \<open>The simple agent\<close>

definition basic_tactics :: "pystr list" where
  "basic_tactics = [''by auto'', ''by simp'', ''by blast'']"

definition intro_tactics :: "pystr list" where
  "intro_tactics = [''apply (rule impI)'', ''apply (rule allI)'', ''apply (rule conjI)'']"

definition elimination_tactics :: "pystr list" where
  "elimination_tactics = [''apply (erule conjE)'', ''apply (erule disjE)'', ''apply (erule exE)'']"

text \<open>
  The counters of the simple agent by goals and goal. Whether a goal has a universal quantifier, and whether it has a
  conjunction or a disjunction, are parameters: the symbols are not 8-bit characters.
\<close>

type_synonym counters = "(pystr list \<times> int) \<Rightarrow> nat"

record symbols =
  has_forall :: "pystr \<Rightarrow> bool"
  has_con_dis :: "pystr \<Rightarrow> bool"

definition simple_tactics :: "symbols \<Rightarrow> pystr \<Rightarrow> pystr list" where
  "simple_tactics sy goal =
     (if has_forall sy goal then intro_tactics else if has_con_dis sy goal then elimination_tactics else basic_tactics)"

definition simple_recommend :: "symbols \<Rightarrow> proof_context \<Rightarrow> int \<Rightarrow> ('w, counters, pystr option) act" where
  "simple_recommend sy c goal =
     (if int (length (subgoals c)) \<le> goal then ret None
      else
        let tactics = simple_tactics sy (subgoals c ! nat goal); key = (subgoals c, goal) in
        andThen (fetch (\<lambda>st. mind st key)) (\<lambda>n.
        if length tactics \<le> n then ret None
        else andThen (change (\<lambda>st. st\<lparr>mind := (mind st)(key := n + 1)\<rparr>)) (\<lambda>_. ret (Some (tactics ! n)))))"

definition simple_priorities :: "proof_context \<Rightarrow> ('w, counters, real list) act" where
  "simple_priorities c = ret (1 # replicate (length (subgoals c) - 1) (1 / 2))"

definition SimpleIsabelleAgent :: "symbols \<Rightarrow> ('w, counters) agent_class" where
  "SimpleIsabelleAgent sy = \<lparr>recommend_tactic = simple_recommend sy, evaluate_priorities = simple_priorities\<rparr>"

definition fresh_agent :: agent where
  "fresh_agent = \<lparr>step_count = 0, tactic_history = [], priority_calls = 0, start_time = None, proofs_attempted = 0,
     proofs_succeeded = 0, tactics_tried = 0, tactics_succeeded = 0\<rparr>"

definition create_isabelle_agent :: "symbols \<Rightarrow> pystr \<Rightarrow> exn + ('w, counters) agent_class" where
  "create_isabelle_agent sy agent_type =
     (if agent_type = ''simple'' then Inr (SimpleIsabelleAgent sy)
      else Inl (Exn C_ValueError (''Unknown agent type: '' @ agent_type @ ''. Available: simple'')))"

text \<open>A new agent for one proof, on the gym in world \<open>w\<close>.\<close>

definition quick_prove :: "symbols \<Rightarrow> pystr \<Rightarrow> 'w gym_api \<Rightarrow> limits \<Rightarrow> pystr \<Rightarrow> 'w
    \<Rightarrow> (exn + proof_result) \<times> ('w, counters) arena" where
  "quick_prove sy agent_type api bnd thm_text w =
     andThen (from_result (create_isabelle_agent sy agent_type)) (\<lambda>cls. prove_theorem api cls bnd thm_text)
       \<lparr>world = w, mind = (\<lambda>_. 0), self = fresh_agent\<rparr>"

end
