(* ===== verification/Local_Client.thy ===== *)
theory Local_Client
  imports Session_Manager Gym_Agent
begin

text \<open>
  The stand-alone client of a local gateway (\<open>repl/src/python/isabelle_client.py\<close>), the gym over it
  (\<open>evaluation/local_gym/isabelle_gym.py\<close>, of which \<open>server_gym/isabelle_gym.py\<close> is a copy) and the multi-agent cycle
  (\<open>multi_agent_isabelle_gym.py\<close>). In the multi-session mode the client keeps a table of sessions, each with a backend and
  perhaps a wrapper theory of its own, and which of them is current.

  The gateway, the backends, the file system and the clock are the parameter \<open>local_sys\<close>, functions on a world \<open>'w\<close> that is
  part of the client's state; \<open>lc_dir\<close> is the directory of wrapper theories, by file name without extension, as the client
  leaves it. The messages printed are left out.
\<close>

section \<open>The state of the client\<close>

record 'b local_session =
  ls_backend :: 'b
  ls_theories :: "pystr list"
  ls_loaded :: "pystr list"
  ls_wrapper :: "pystr option"
  ls_created :: real

record ('b, 'w) local_client =
  lc_world :: 'w
  lc_gateway :: bool
  lc_multi :: bool
  lc_main :: "'b option"
  lc_defaults :: "pystr list"
  lc_initial :: "pystr list"
  lc_main_wrapper :: "pystr option"
  lc_sessions :: "(pystr, 'b local_session) od"
  lc_current :: "pystr option"
  lc_gen :: thy_init
  lc_dir :: "(pystr, pystr) od"

text \<open>\<open>ly_make\<close> takes whether the cache is shared, the theories and the field; \<open>ly_ended\<close> is \<open>has_terminated\<close>.\<close>

record ('b, 'w) local_sys =
  ly_start :: "'w \<Rightarrow> (exn + unit) \<times> 'w"
  ly_ended :: "'w \<Rightarrow> bool"
  ly_terminate :: "'w \<Rightarrow> (exn + unit) \<times> 'w"
  ly_template :: "'w \<Rightarrow> (exn + pystr) \<times> 'w"
  ly_make :: "bool \<Rightarrow> pystr list \<Rightarrow> pystr \<Rightarrow> 'w \<Rightarrow> (exn + 'b) \<times> 'w"
  ly_write :: "pystr \<Rightarrow> 'w \<Rightarrow> (exn + unit) \<times> 'w"
  ly_unlink :: "pystr \<Rightarrow> 'w \<Rightarrow> (exn + unit) \<times> 'w"
  ly_time :: "'w \<Rightarrow> real \<times> 'w"
  ly_enter :: "'b \<Rightarrow> pystr \<Rightarrow> 'w \<Rightarrow> (exn + repl_result) \<times> 'w"
  ly_step :: "'b \<Rightarrow> pystr \<Rightarrow> 'w \<Rightarrow> (exn + repl_result) \<times> 'w"
  ly_name :: "'b \<Rightarrow> 'w \<Rightarrow> (exn + pystr) \<times> 'w"
  ly_goals :: "'b \<Rightarrow> 'w \<Rightarrow> (exn + pystr list) \<times> 'w"
  ly_local_facts :: "'b \<Rightarrow> 'w \<Rightarrow> (exn + pystr list) \<times> 'w"
  ly_global_facts :: "'b \<Rightarrow> int \<Rightarrow> 'w \<Rightarrow> (exn + pystr list) \<times> 'w"
  ly_source :: "'b \<Rightarrow> 'w \<Rightarrow> (exn + repl_result) \<times> 'w"
  ly_rollback :: "'b \<Rightarrow> 'w \<Rightarrow> (exn + repl_result) \<times> 'w"
  ly_save :: "'b \<Rightarrow> 'w \<Rightarrow> (exn + int) \<times> 'w"
  ly_restore :: "'b \<Rightarrow> int \<Rightarrow> 'w \<Rightarrow> (exn + bool) \<times> 'w"
  ly_reset :: "'b \<Rightarrow> 'w \<Rightarrow> (exn + unit) \<times> 'w"
  ly_vectorise :: "'b \<Rightarrow> int \<Rightarrow> 'w \<Rightarrow> (exn + unit) \<times> 'w"
  ly_scalarise :: "'b \<Rightarrow> int \<Rightarrow> 'w \<Rightarrow> (exn + unit) \<times> 'w"
  ly_vector_step :: "'b \<Rightarrow> pystr list \<Rightarrow> 'w \<Rightarrow> (exn + repl_result) \<times> 'w"
  ly_stats :: "'b \<Rightarrow> 'w \<Rightarrow> (exn + (pystr, int) od) \<times> 'w"
  ly_cache_status :: "'b \<Rightarrow> 'w \<Rightarrow> (exn + pystr) \<times> 'w"
  ly_exit :: "'b \<Rightarrow> 'w \<Rightarrow> (exn + unit) \<times> 'w"

type_synonym ('b, 'w, 'a) client_act = "(('b, 'w) local_client, 'a) py"

definition outside :: "('w \<Rightarrow> (exn + 'a) \<times> 'w) \<Rightarrow> ('b, 'w, 'a) client_act" where
  "outside f c = (case f (lc_world c) of (r, w) \<Rightarrow> (r, c\<lparr>lc_world := w\<rparr>))"

definition read_time :: "('b, 'w) local_sys \<Rightarrow> ('b, 'w, real) client_act" where
  "read_time sys c = (case ly_time sys (lc_world c) of (t, w) \<Rightarrow> (Inr t, c\<lparr>lc_world := w\<rparr>))"

section \<open>Wrapper theories\<close>

definition local_gen_file :: "('b, 'w) local_sys \<Rightarrow> pystr \<Rightarrow> pystr list \<Rightarrow> ('b, 'w, gen_result) client_act" where
  "local_gen_file sys filename thys =
     (if filename \<in> set thys_pool then ret (Success filename)
      else catch
        (andThen (outside (ly_write sys filename)) (\<lambda>_.
         andThen (change (\<lambda>c. c\<lparr>lc_dir := od_set filename (generate_thy_file (template (lc_gen c)) thys filename) (lc_dir c),
             lc_gen := (lc_gen c)\<lparr>created_files := List.insert filename (created_files (lc_gen c))\<rparr>\<rparr>))
           (\<lambda>_. ret (Success filename))))
        (\<lambda>e. if isinstance e C_OSError then ret (Failure (str_of e)) else throw e))"

definition local_cleanup_file :: "('b, 'w) local_sys \<Rightarrow> pystr \<Rightarrow> ('b, 'w, unit) client_act" where
  "local_cleanup_file sys filename =
     andThen (fetch lc_gen) (\<lambda>gen.
     if filename \<notin> set (created_files gen) \<or> filename \<in> set thys_pool then ret ()
     else catch
        (andThen (outside (ly_unlink sys filename)) (\<lambda>_.
         change (\<lambda>c. c\<lparr>lc_dir := od_pop filename (lc_dir c),
             lc_gen := (lc_gen c)\<lparr>created_files := removeAll filename (created_files (lc_gen c))\<rparr>\<rparr>)))
        (\<lambda>e. if isinstance e C_OSError then ret () else throw e))"

definition normalize_local :: "pystr option list option \<Rightarrow> pystr list" where
  "normalize_local thys =
     (case thys of
        None \<Rightarrow> []
      | Some ts \<Rightarrow> filter (\<lambda>v. v \<noteq> []) (map strip (List.map_filter (\<lambda>t. t) ts)))"

definition build_loaded_theories :: "('b, 'w) local_sys \<Rightarrow> pystr \<Rightarrow> pystr list
    \<Rightarrow> ('b, 'w, pystr list \<times> pystr option) client_act" where
  "build_loaded_theories sys wrapper deps =
     (if deps = [] then ret ([default_theory], None)
      else andThen (local_gen_file sys wrapper deps) (\<lambda>res. case res of
        Failure err \<Rightarrow> throw (Exn C_RuntimeError (''Failed to generate theory wrapper '' @ wrapper @ '': '' @ err))
      | Success data \<Rightarrow>
          if data = []
          then throw (Exn C_RuntimeError (''Failed to generate theory wrapper '' @ wrapper @ '': unknown ThyInit error''))
          else ret ([''$ISABELLE_REPL_HOME/thys/'' @ data], Some data)))"

section \<open>The constructor\<close>

text \<open>
  From a state with nothing but a world and a directory: the gateway is started, the template read, the theories of the
  main session built, and one backend made, whose cache is shared in the multi-session mode.
\<close>

definition blank_client :: "'w \<Rightarrow> (pystr, pystr) od \<Rightarrow> ('b, 'w) local_client" where
  "blank_client w dir = \<lparr>lc_world = w, lc_gateway = False, lc_multi = False, lc_main = None, lc_defaults = [], lc_initial = [],
     lc_main_wrapper = None, lc_sessions = [], lc_current = None, lc_gen = \<lparr>template = [], created_files = []\<rparr>, lc_dir = dir\<rparr>"

definition local_template :: "('b, 'w) local_sys \<Rightarrow> ('b, 'w, pystr) client_act" where
  "local_template sys =
     catch (outside (ly_template sys))
       (\<lambda>e. throw (if isinstance e C_FileNotFoundError then Exn C_RuntimeError ''init.thy file not found''
                   else if isinstance e C_OSError then Exn C_RuntimeError (''Error reading init.thy file: '' @ str_of e) else e))"

definition IsabelleClient :: "('b, 'w) local_sys \<Rightarrow> bool \<Rightarrow> pystr option list option \<Rightarrow> pystr \<Rightarrow> ('b, 'w, unit) client_act" where
  "IsabelleClient sys shared_cache initial_thys fld =
     andThen (outside (ly_start sys)) (\<lambda>_.
     andThen (change (\<lambda>c. c\<lparr>lc_gateway := True\<rparr>)) (\<lambda>_.
     andThen (local_template sys) (\<lambda>tmpl.
     andThen (change (\<lambda>c. c\<lparr>lc_gen := \<lparr>template = tmpl, created_files = []\<rparr>, lc_defaults := normalize_local initial_thys\<rparr>)) (\<lambda>_.
     andThen (build_loaded_theories sys ''main'' (normalize_local initial_thys)) (\<lambda>(loaded_thys, wrapper).
     andThen (change (\<lambda>c. c\<lparr>lc_initial := loaded_thys, lc_main_wrapper := wrapper\<rparr>)) (\<lambda>_.
     andThen (outside (ly_make sys shared_cache loaded_thys fld)) (\<lambda>b.
     change (\<lambda>c. c\<lparr>lc_main := Some b, lc_multi := shared_cache, lc_sessions := [], lc_current := None\<rparr>))))))))"

section \<open>Sessions\<close>

definition only_multi :: "pystr \<Rightarrow> ('b, 'w, 'a) client_act \<Rightarrow> ('b, 'w, 'a) client_act" where
  "only_multi name act =
     andThen (fetch lc_multi) (\<lambda>multi.
     if \<not> multi then throw (Exn C_RuntimeError (name @ '' is only available in multi-session mode'')) else act)"

definition create_local_session :: "('b, 'w) local_sys \<Rightarrow> pystr \<Rightarrow> pystr option list option \<Rightarrow> pystr
    \<Rightarrow> ('b, 'w, pystr) client_act" where
  "create_local_session sys sid initial_thys fld =
     only_multi ''create_session''
       (andThen (fetch lc_defaults) (\<lambda>defaults.
        let deps = (if initial_thys = None then defaults else normalize_local initial_thys) in
        andThen (build_loaded_theories sys sid deps) (\<lambda>(loaded_thys, wrapper).
        andThen (outside (ly_make sys True loaded_thys fld)) (\<lambda>b.
        andThen (read_time sys) (\<lambda>t.
        andThen (change (\<lambda>c. c\<lparr>lc_sessions := od_set sid \<lparr>ls_backend = b, ls_theories = deps, ls_loaded = loaded_thys,
            ls_wrapper = wrapper, ls_created = t\<rparr> (lc_sessions c)\<rparr>)) (\<lambda>_.
        andThen (change (\<lambda>c. if lc_current c = None then c\<lparr>lc_current := Some sid\<rparr> else c)) (\<lambda>_. ret sid)))))))"

definition switch_session :: "pystr \<Rightarrow> ('b, 'w, bool) client_act" where
  "switch_session sid =
     only_multi ''switch_session''
       (andThen (fetch lc_sessions) (\<lambda>d.
        if sid \<notin> set (od_keys d) then ret False
        else andThen (change (\<lambda>c. c\<lparr>lc_current := Some sid\<rparr>)) (\<lambda>_. ret True)))"

definition get_current_session :: "('b, 'w, 'b) client_act" where
  "get_current_session =
     only_multi ''get_current_session''
       (andThen (fetch lc_current) (\<lambda>cur. case cur of
          None \<Rightarrow> throw (Exn C_RuntimeError ''No active Session'')
        | Some sid \<Rightarrow> andThen (fetch lc_sessions) (\<lambda>d. case od_get sid d of
            None \<Rightarrow> throw (Exn C_KeyError sid)
          | Some s \<Rightarrow> ret (ls_backend s))))"

record session_row =
  row_theories :: "pystr list"
  row_initial :: "pystr list"
  row_created :: real
  row_current :: bool

definition list_local_sessions :: "('b, 'w, (pystr, session_row) od) client_act" where
  "list_local_sessions =
     only_multi ''list_sessions''
       (andThen (fetch lc_sessions) (\<lambda>d. andThen (fetch lc_current) (\<lambda>cur.
        ret (map (\<lambda>(sid, s). (sid, \<lparr>row_theories = ls_theories s, row_initial = ls_loaded s, row_created = ls_created s,
          row_current = (Some sid = cur)\<rparr>)) d))))"

definition close_local_session :: "('b, 'w) local_sys \<Rightarrow> pystr \<Rightarrow> ('b, 'w, bool) client_act" where
  "close_local_session sys sid =
     only_multi ''close_session''
       (andThen (fetch lc_sessions) (\<lambda>d. case od_get sid d of
          None \<Rightarrow> ret False
        | Some s \<Rightarrow>
            andThen (change (\<lambda>c. if lc_current c = Some sid then c\<lparr>lc_current := None\<rparr> else c)) (\<lambda>_.
            andThen (change (\<lambda>c. c\<lparr>lc_sessions := od_pop sid (lc_sessions c)\<rparr>)) (\<lambda>_.
            andThen (case ls_wrapper s of None \<Rightarrow> ret () | Some w \<Rightarrow> local_cleanup_file sys w) (\<lambda>_. ret True)))))"

text \<open>The session a cache query is about: the one named, else the current one; \<open>None in self.sessions\<close> is \<open>False\<close>.\<close>

definition cache_session :: "pystr option \<Rightarrow> ('b, 'w, 'b option) client_act" where
  "cache_session sid =
     andThen (fetch lc_current) (\<lambda>cur. andThen (fetch lc_sessions) (\<lambda>d.
     ret (case (if sid = None then cur else sid) of None \<Rightarrow> None | Some i \<Rightarrow> map_option ls_backend (od_get i d))))"

definition get_session_cache_stats :: "('b, 'w) local_sys \<Rightarrow> pystr option \<Rightarrow> ('b, 'w, (pystr, int) od) client_act" where
  "get_session_cache_stats sys sid =
     only_multi ''get_session_cache_stats''
       (andThen (cache_session sid) (\<lambda>b. case b of None \<Rightarrow> ret [] | Some b \<Rightarrow> outside (ly_stats sys b)))"

definition get_session_cache_status :: "('b, 'w) local_sys \<Rightarrow> pystr option \<Rightarrow> ('b, 'w, pystr) client_act" where
  "get_session_cache_status sys sid =
     only_multi ''get_session_cache_status''
       (andThen (cache_session sid) (\<lambda>b. case b of
          None \<Rightarrow> ret ''Session does not exist'' | Some b \<Rightarrow> outside (ly_cache_status sys b)))"

section \<open>Calls on the active backend\<close>

definition main_backend :: "('b, 'w, 'b) client_act" where
  "main_backend = andThen (fetch lc_main) (\<lambda>b. case b of
     Some b \<Rightarrow> ret b | None \<Rightarrow> throw (Exn C_AttributeError ''IsabelleClient has no attribute repl_backend''))"

definition get_active_backend :: "('b, 'w, 'b) client_act" where
  "get_active_backend = andThen (fetch lc_multi) (\<lambda>multi. if multi then get_current_session else main_backend)"

definition on_active :: "('b \<Rightarrow> 'w \<Rightarrow> (exn + 'a) \<times> 'w) \<Rightarrow> ('b, 'w, 'a) client_act" where
  "on_active f = andThen get_active_backend (\<lambda>b. outside (f b))"

definition client_enter_thy :: "('b, 'w) local_sys \<Rightarrow> pystr \<Rightarrow> ('b, 'w, repl_result) client_act" where
  "client_enter_thy sys thy = on_active (\<lambda>b. ly_enter sys b thy)"

text \<open>\<open>ReplResult\<close> is a protocol class, so the empty input, which constructs one, raises.\<close>

definition isar_snippet :: "('b, 'w) local_sys \<Rightarrow> pystr \<Rightarrow> ('b, 'w, repl_result) client_act" where
  "isar_snippet sys isar =
     (if strip isar = [] then throw (Exn C_TypeError ''Protocols cannot be instantiated'')
      else on_active (\<lambda>b. ly_step sys b isar))"

definition get_current_thy_name :: "('b, 'w) local_sys \<Rightarrow> ('b, 'w, pystr) client_act" where
  "get_current_thy_name sys = on_active (ly_name sys)"

definition client_open_subgoals :: "('b, 'w) local_sys \<Rightarrow> ('b, 'w, pystr list) client_act" where
  "client_open_subgoals sys = andThen (on_active (ly_goals sys)) (\<lambda>gs. ret (map strip gs))"

definition client_local_facts :: "('b, 'w) local_sys \<Rightarrow> ('b, 'w, pystr list) client_act" where
  "client_local_facts sys = on_active (ly_local_facts sys)"

definition client_global_facts :: "('b, 'w) local_sys \<Rightarrow> int \<Rightarrow> ('b, 'w, pystr list) client_act" where
  "client_global_facts sys n = on_active (\<lambda>b. ly_global_facts sys b n)"

definition client_get_source :: "('b, 'w) local_sys \<Rightarrow> ('b, 'w, repl_result) client_act" where
  "client_get_source sys = on_active (ly_source sys)"

definition client_rollback :: "('b, 'w) local_sys \<Rightarrow> ('b, 'w, repl_result) client_act" where
  "client_rollback sys = on_active (ly_rollback sys)"

definition client_save_state :: "('b, 'w) local_sys \<Rightarrow> ('b, 'w, int) client_act" where
  "client_save_state sys = on_active (ly_save sys)"

definition client_restore_state :: "('b, 'w) local_sys \<Rightarrow> int \<Rightarrow> ('b, 'w, bool) client_act" where
  "client_restore_state sys i = on_active (\<lambda>b. ly_restore sys b i)"

definition client_reset :: "('b, 'w) local_sys \<Rightarrow> ('b, 'w, unit) client_act" where
  "client_reset sys = on_active (ly_reset sys)"

definition client_vectorise :: "('b, 'w) local_sys \<Rightarrow> int \<Rightarrow> ('b, 'w, unit) client_act" where
  "client_vectorise sys n = on_active (\<lambda>b. ly_vectorise sys b n)"

definition client_scalarise :: "('b, 'w) local_sys \<Rightarrow> int \<Rightarrow> ('b, 'w, unit) client_act" where
  "client_scalarise sys i = on_active (\<lambda>b. ly_scalarise sys b i)"

definition client_vector_step :: "('b, 'w) local_sys \<Rightarrow> pystr list \<Rightarrow> ('b, 'w, repl_result) client_act" where
  "client_vector_step sys cmds = on_active (\<lambda>b. ly_vector_step sys b cmds)"

definition client_cache_stats :: "('b, 'w) local_sys \<Rightarrow> ('b, 'w, (pystr, int) od) client_act" where
  "client_cache_stats sys = andThen (fetch lc_multi) (\<lambda>multi.
     if multi then get_session_cache_stats sys None else andThen main_backend (\<lambda>b. outside (ly_stats sys b)))"

definition client_cache_status :: "('b, 'w) local_sys \<Rightarrow> ('b, 'w, pystr) client_act" where
  "client_cache_status sys = andThen (fetch lc_multi) (\<lambda>multi.
     if multi then get_session_cache_status sys None else andThen main_backend (\<lambda>b. outside (ly_cache_status sys b)))"

section \<open>The end of the client\<close>

definition attempt_quietly :: "('b, 'w, 'a) client_act \<Rightarrow> ('b, 'w, unit) client_act" where
  "attempt_quietly act = catch (andThen act (\<lambda>_. ret ())) (\<lambda>_. ret ())"

fun close_all :: "('b, 'w) local_sys \<Rightarrow> pystr list \<Rightarrow> ('b, 'w, unit) client_act" where
  "close_all sys [] = ret ()"
| "close_all sys (sid # sids) = andThen (attempt_quietly (close_local_session sys sid)) (\<lambda>_. close_all sys sids)"

definition exit_main :: "('b, 'w) local_sys \<Rightarrow> ('b, 'w, unit) client_act" where
  "exit_main sys =
     andThen (attempt_quietly (andThen main_backend (\<lambda>b. outside (ly_exit sys b)))) (\<lambda>_.
     andThen (fetch lc_main_wrapper) (\<lambda>w. case w of None \<Rightarrow> ret () | Some w \<Rightarrow> local_cleanup_file sys w))"

definition client_cleanup :: "('b, 'w) local_sys \<Rightarrow> ('b, 'w, unit) client_act" where
  "client_cleanup sys =
     andThen (fetch (\<lambda>c. lc_gateway c \<and> \<not> ly_ended sys (lc_world c))) (\<lambda>up.
     if \<not> up then ret ()
     else andThen (fetch lc_multi) (\<lambda>multi.
       andThen (if multi then andThen (fetch (\<lambda>c. od_keys (lc_sessions c))) (close_all sys) else exit_main sys) (\<lambda>_.
       attempt_quietly (outside (ly_terminate sys)))))"

section \<open>The gym\<close>

record gym_state =
  ps_subgoals :: "pystr list"
  ps_local :: "pystr list"
  ps_global :: "pystr list"

definition gym_proof_finished :: "('b, 'w) local_sys \<Rightarrow> ('b, 'w, bool) client_act" where
  "gym_proof_finished sys = andThen (client_open_subgoals sys) (\<lambda>gs. ret (gs = []))"

definition gym_proof_state :: "('b, 'w) local_sys \<Rightarrow> bool \<Rightarrow> bool \<Rightarrow> bool \<Rightarrow> int \<Rightarrow> ('b, 'w, gym_state) client_act" where
  "gym_proof_state sys want_goals want_local want_global n =
     andThen (if want_goals then client_open_subgoals sys else ret []) (\<lambda>gs.
     andThen (if want_local then client_local_facts sys else ret []) (\<lambda>ls.
     andThen (if want_global then client_global_facts sys n else ret []) (\<lambda>fs.
     ret \<lparr>ps_subgoals = gs, ps_local = ls, ps_global = fs\<rparr>)))"

text \<open>The gym as the agents of \<open>Gym_Agent\<close> see it: \<open>step\<close>, \<open>open_subgoals\<close>, the text of the source, and the clock.\<close>

definition gym_of :: "('b, 'w) local_sys \<Rightarrow> ('b, 'w) local_client gym_api" where
  "gym_of sys = \<lparr>g_step = isar_snippet sys, g_goals = client_open_subgoals sys,
     g_source = andThen (client_get_source sys) (\<lambda>r. from_result (rr_total r)),
     g_clock = (\<lambda>c. case ly_time sys (lc_world c) of (t, w) \<Rightarrow> (t, c\<lparr>lc_world := w\<rparr>))\<rparr>"

section \<open>The multi-agent cycle\<close>

text \<open>An agent acts on the gym and the shared state, here one state \<open>'s\<close>.\<close>

type_synonym 's cycle_agents = "(pystr, ('s, unit) py) od"

definition register_agent :: "pystr \<Rightarrow> ('s, unit) py \<Rightarrow> 's cycle_agents \<Rightarrow> 's cycle_agents" where
  "register_agent name act d = od_set name act d"

definition unregister_agent :: "pystr \<Rightarrow> 's cycle_agents \<Rightarrow> 's cycle_agents" where
  "unregister_agent name d = (if name \<in> set (od_keys d) then od_pop name d else d)"

fun run_agent_env_cycle :: "'s cycle_agents \<Rightarrow> pystr list \<Rightarrow> ('s, unit) py" where
  "run_agent_env_cycle d [] = ret ()"
| "run_agent_env_cycle d (name # names) =
     (case od_get name d of
        None \<Rightarrow> throw (Exn (C_Foreign ''AssertionError'') (''Agent '' @ name @ '' not registered''))
      | Some act \<Rightarrow> andThen act (\<lambda>_. run_agent_env_cycle d names))"

end
