(* ===== verification/Agent_Properties.thy ===== *)
theory Agent_Properties
  imports Gym_Agent Py_Hoare
begin

text \<open>
  What the proof loop of \<open>Gym_Agent\<close> guarantees. A success means that the gym has no open goal: the hypotheses are that
  asking for the goals or the time does not change them (\<open>steady\<close>) and that the abstract methods of the class do not either
  (\<open>hands_off\<close>). \<open>prove_theorem\<close> always returns a result, and its counters fit together. The last section has the proof
  finished by the last step that is allowed, which is reported as a failure.
\<close>

section \<open>Rules for the steps of the loop\<close>

definition open_goals :: "'w gym_api \<Rightarrow> ('w, 'm) arena \<Rightarrow> exn + pystr list" where
  "open_goals api st = fst (g_goals api (world st))"

definition steady :: "'w gym_api \<Rightarrow> bool" where
  "steady api \<longleftrightarrow>
     (\<forall>w. fst (g_goals api (snd (g_goals api w))) = fst (g_goals api w)) \<and>
     (\<forall>w. fst (g_goals api (snd (g_clock api w))) = fst (g_goals api w))"

definition hands_off :: "'w gym_api \<Rightarrow> ('w, 'm) agent_class \<Rightarrow> bool" where
  "hands_off api cls \<longleftrightarrow>
     (\<forall>c i st. open_goals api (snd (recommend_tactic cls c i st)) = open_goals api st) \<and>
     (\<forall>c st. open_goals api (snd (evaluate_priorities cls c st)) = open_goals api st)"

lemma triple_now [triple]:
  "(\<And>st. P st \<Longrightarrow> Q (fst (g_clock api (world st))) (st\<lparr>world := snd (g_clock api (world st))\<rparr>)) \<Longrightarrow> triple P (now api) Q E"
  by (simp add: triple_def now_def split_beta)

lemma triple_on_self [triple]: "(\<And>st. P st \<Longrightarrow> Q () (st\<lparr>self := f (self st)\<rparr>)) \<Longrightarrow> triple P (on_self f) Q E"
  by (simp add: triple_def on_self_def)

lemma triple_ask:
  assumes "\<And>st v w. P st \<Longrightarrow> f (world st) = (Inr v, w) \<Longrightarrow> Q v (st\<lparr>world := w\<rparr>)"
    and "\<And>st e w. P st \<Longrightarrow> f (world st) = (Inl e, w) \<Longrightarrow> E e (st\<lparr>world := w\<rparr>)"
  shows "triple P (ask_gym f) Q E"
  using assms by (auto simp: triple_def ask_gym_def split: prod.splits sum.splits)

lemma triple_any: "\<lbrakk>\<And>v s. Q v s; \<And>e s. E e s\<rbrakk> \<Longrightarrow> triple P m Q E"
  by (simp add: triple_def split: prod.splits sum.splits)

lemma triple_keeps:
  assumes "\<And>st. h (snd (m st)) = h st"
  shows "triple (\<lambda>st. P (h st)) m (\<lambda>_ st. P (h st)) (\<lambda>_ _. True)"
  unfolding triple_def
proof (intro allI impI)
  fix s assume "P (h s)"
  then have "P (h (snd (m s)))" using assms [of s] by simp
  then show "case m s of (Inr v, s') \<Rightarrow> P (h s') | (Inl e, s') \<Rightarrow> True"
    by (cases "m s"; cases "fst (m s)") auto
qed

section \<open>A success leaves no goal\<close>

definition in_step :: "'w gym_api \<Rightarrow> proof_context \<Rightarrow> ('w, 'm) arena \<Rightarrow> bool" where
  "in_step api c st \<longleftrightarrow>
     solved c = replicate (length (subgoals c)) False \<and> (subgoals c = [] \<longrightarrow> open_goals api st = Inr [])"

definition earned :: "'w gym_api \<Rightarrow> proof_result \<Rightarrow> ('w, 'm) arena \<Rightarrow> bool" where
  "earned api r st \<longleftrightarrow> (pf_success r \<longrightarrow> open_goals api st = Inr [])"

lemma in_step_complete: "in_step api c st \<Longrightarrow> is_complete c \<longleftrightarrow> subgoals c = []"
  by (cases "subgoals c") (auto simp: in_step_def is_complete_def)

lemma in_step_done: "\<lbrakk>is_complete c; in_step api c st\<rbrakk> \<Longrightarrow> open_goals api st = Inr []"
  by (simp add: in_step_complete) (simp add: in_step_def)

lemma in_step_start: "in_step api (ProofContext (g # gs) thm_text) st"
  by (simp add: in_step_def ProofContext_def post_init_def Let_def)

lemma open_goals_now: "steady api \<Longrightarrow> open_goals api (st\<lparr>world := snd (g_clock api (world st))\<rparr>) = open_goals api st"
  by (simp add: open_goals_def steady_def)

lemma open_goals_self [simp]: "open_goals api (st\<lparr>self := a\<rparr>) = open_goals api st"
  by (simp add: open_goals_def)

lemma earned_failure: "triple P (failure_result api start msg k d) (earned api) E"
  unfolding failure_result_def by (intro triple) (auto simp: earned_def)

lemma earned_timeout: "triple P (timeout_result api start k c msg) (earned api) E"
  unfolding timeout_result_def by (intro triple) (auto simp: earned_def)

lemma earned_success:
  assumes "steady api"
  shows "triple (\<lambda>st. open_goals api st = Inr []) (success_result api start k c) (earned api) E"
  unfolding success_result_def
  by (rule triple_andThen [where R = "\<lambda>_ st. open_goals api st = Inr []"], rule triple_now, simp add: open_goals_now assms)
     (intro triple; simp add: earned_def)

lemma try_tactic_in_step:
  assumes "steady api"
  shows "triple (\<lambda>st. in_step api c st \<and> subgoals c \<noteq> []) (try_tactic api tactic goal c) (in_step api) (\<lambda>_ _. True)"
proof -
  let ?P = "solved c = replicate (length (subgoals c)) False \<and> subgoals c \<noteq> []"
  have goals: "triple (\<lambda>_. ?P) (ask_gym (g_goals api)) (\<lambda>gs st. ?P \<and> open_goals api st = Inr gs) (\<lambda>_ _. True)"
    using assms by (auto intro!: triple_ask simp: open_goals_def steady_def) (metis fst_conv snd_conv)
  show ?thesis
    unfolding try_tactic_def Let_def
    apply (rule triple_andThen [where R = "\<lambda>_ _. ?P"], rule triple_on_self, simp add: in_step_def)
    apply (rule triple_andThen [where R = "\<lambda>_ _. ?P"], rule triple_now, simp)
    apply (rule triple_andThen [where R = "\<lambda>_ _. ?P"], rule triple_ask, simp, simp)
    apply (rule triple_andThen [where R = "\<lambda>_ _. ?P"], rule triple_now, simp)
    apply (rule triple_andThen, rule goals)
    subgoal for _ _ _ _ gs
      apply (rule triple_andThen [where R = "\<lambda>_ st. ?P \<and> open_goals api st = Inr gs"], rule triple_on_self, simp)
      apply (rule triple_if)
       apply (rule triple_andThen [where R = "\<lambda>_ st. ?P \<and> open_goals api st = Inr gs"], rule triple_on_self, simp)
      by (rule triple_ret; simp add: in_step_def update_subgoals_def record_tactic_attempt_def)+
    done
qed

lemma weigh_goals_in_step:
  assumes "hands_off api cls"
  shows "triple (in_step api c) (weigh_goals cls c)
    (\<lambda>c' st. in_step api c st \<and> (\<exists>ps. c' = c\<lparr>priorities := ps\<rparr>)) (\<lambda>_ _. True)"
proof -
  have ask: "triple (in_step api c) (evaluate_priorities cls c) (\<lambda>_. in_step api c) (\<lambda>_ _. True)"
    unfolding in_step_def using assms
    by (intro triple_keeps [where h = "open_goals api" and
          P = "\<lambda>g. solved c = replicate (length (subgoals c)) False \<and> (subgoals c = [] \<longrightarrow> g = Inr [])"])
       (simp add: hands_off_def)
  show ?thesis
    unfolding weigh_goals_def
    apply (rule triple_if, rule triple_andThen, rule ask)
     apply (rule triple_andThen [where R = "\<lambda>_. in_step api c"], rule triple_on_self, simp add: in_step_def)
    by (rule triple_ret, simp add: in_step_def, blast?)+ (metis proof_context.surjective proof_context.update_convs(2))
qed

lemma recommend_in_step:
  assumes "hands_off api cls"
  shows "triple (in_step api c) (recommend_tactic cls c' i) (\<lambda>_. in_step api c) (\<lambda>_ _. True)"
  unfolding in_step_def using assms
  by (intro triple_keeps [where h = "open_goals api" and
        P = "\<lambda>g. solved c = replicate (length (subgoals c)) False \<and> (subgoals c = [] \<longrightarrow> g = Inr [])"])
     (simp add: hands_off_def)

lemma in_step_priorities [simp]: "in_step api (c\<lparr>priorities := ps\<rparr>) = in_step api c"
  by (simp add: in_step_def fun_eq_iff)

lemma proof_loop_earned:
  assumes "steady api" and "hands_off api cls"
  shows "triple (in_step api c) (proof_loop api cls bnd start n k c) (earned api) (\<lambda>_ _. True)"
proof (induction n arbitrary: k c)
  case 0
  show ?case by (simp add: earned_failure)
next
  case (Suc n)
  have time: "triple (in_step api c) (now api) (\<lambda>_. in_step api c) (\<lambda>_ _. True)"
    using assms(1) by (intro triple) (auto simp: in_step_def open_goals_now)
  have step_ok: "triple (in_step api c) (try_tactic api t g (c\<lparr>priorities := ps\<rparr>)) (in_step api) (\<lambda>_ _. True)"
    if "\<not> is_complete c" for t g ps
    by (rule triple_weaken [OF try_tactic_in_step [OF assms(1)]]) (use that in \<open>auto simp: is_complete_def in_step_def\<close>)
  have round: "triple (\<lambda>st. in_step api c st \<and> (\<exists>ps. c1 = c\<lparr>priorities := ps\<rparr>))
      (if active_goal_id c1 < 0 then failure_result api start ''No available goals to work on'' k (proof_depth c1)
       else andThen (recommend_tactic cls c1 (active_goal_id c1)) (\<lambda>tac.
         if \<not> truthy tac then failure_result api start ''No more tactics available'' k (proof_depth c1)
         else andThen (try_tactic api (or_else tac []) (active_goal_id c1) c1)
                (\<lambda>c2. proof_loop api cls bnd start n (Suc k) c2))) (earned api) (\<lambda>_ _. True)"
    if "\<not> is_complete c" for c1
  proof (cases "\<exists>ps. c1 = c\<lparr>priorities := ps\<rparr>")
    case True
    then obtain ps where c1: "c1 = c\<lparr>priorities := ps\<rparr>" by blast
    show ?thesis
      apply (rule triple_if, rule earned_failure)
      apply (rule triple_andThen [where R = "\<lambda>_. in_step api c"])
       apply (rule triple_weaken [OF recommend_in_step [OF assms(2), of c]]; simp)
      apply (rule triple_if, rule earned_failure)
      apply (rule triple_andThen [where R = "in_step api"])
      unfolding c1 by (rule step_ok [OF that], rule Suc.IH)
  qed (simp add: triple_def)
  show ?case
    apply (subst proof_loop.simps)
    unfolding Let_def
    apply (rule triple_andThen, rule time)
    apply (rule triple_if, rule earned_timeout)
    apply (rule triple_if)
     apply (rule triple_andThen [where R = "\<lambda>_ st. open_goals api st = Inr []"])
      apply (rule triple_on_self, simp add: in_step_done)
     apply (rule earned_success [OF assms(1)])
    apply (rule triple_if, rule earned_failure)
    by (rule triple_andThen, rule weigh_goals_in_step [OF assms(2)], rule round)
qed

lemma begin_proof_earned:
  assumes "steady api" and "hands_off api cls"
  shows "triple (\<lambda>_. True) (begin_proof api cls bnd start thm_text) (earned api) (\<lambda>_ _. True)"
  unfolding begin_proof_def
  apply (rule triple_andThen [where R = "\<lambda>_ _. True"], rule triple_any, simp, simp)
  apply (rule triple_if, rule earned_failure)
  apply (rule triple_andThen [where R = "\<lambda>_ _. True"], rule triple_any, simp, simp)
  apply (rule triple_if, rule earned_failure)
  subgoal for _ goals
    by (cases goals) (simp_all, rule triple_weaken [OF proof_loop_earned [OF assms]], simp_all add: in_step_start)
  done

lemma prove_theorem_earned:
  assumes "steady api" and "hands_off api cls"
  shows "triple (\<lambda>_. True) (prove_theorem api cls bnd thm_text) (earned api) E"
  unfolding prove_theorem_def reset_session_def
  apply (rule triple_andThen [where R = "\<lambda>_ _. True"], rule triple_now, simp)
  apply (rule triple_andThen [where R = "\<lambda>_ _. True"], rule triple_on_self, simp)+
  by (rule triple_catch, rule begin_proof_earned [OF assms], rule earned_failure)

lemma simple_hands_off: "hands_off api (SimpleIsabelleAgent sy)"
  by (simp add: hands_off_def SimpleIsabelleAgent_def simple_recommend_def simple_priorities_def open_goals_def
      Let_def andThen_def fetch_def change_def ret_def)

text \<open>Property C33: a success leaves no goal.
  When \<open>prove_theorem\<close> reports a success, the gym has no open goal at that moment, for every gym whose goals query and clock
  change nothing and every class of agents whose methods leave the goals alone.\<close>

theorem success_leaves_no_goal:
  assumes "steady api" and "hands_off api cls"
    and "prove_theorem api cls bnd thm_text st = (Inr r, st')" and "pf_success r"
  shows "fst (g_goals api (world st')) = Inr []"
  using triple_value [OF prove_theorem_earned [OF assms(1,2)], where s = st and v = r and s' = st', OF TrueI assms(3)] assms(4)
  by (simp add: earned_def open_goals_def)

section \<open>A result is always returned, and its counters fit\<close>

definition counted :: "limits \<Rightarrow> proof_result \<Rightarrow> bool" where
  "counted bnd r \<longleftrightarrow>
     pf_steps r \<le> max_steps bnd \<and> pf_length r \<le> max_depth bnd \<and> pf_attempts r \<le> pf_steps r \<and>
     pf_successful r + pf_failed r = pf_attempts r \<and> pf_successful r \<le> pf_length r \<and>
     (pf_success r = (pf_error r = None)) \<and> (pf_success r \<longrightarrow> pf_steps r < max_steps bnd)"

definition in_count :: "limits \<Rightarrow> nat \<Rightarrow> proof_context \<Rightarrow> bool" where
  "in_count bnd k c \<longleftrightarrow>
     length (attempted_tactics c) = k \<and> length (successful_tactics c) = proof_depth c \<and>
     proof_depth c \<le> k \<and> proof_depth c \<le> max_depth bnd"

lemma counted_failure:
  "\<lbrakk>k \<le> max_steps bnd; d \<le> max_depth bnd\<rbrakk> \<Longrightarrow> triple P (failure_result api start msg k d) (\<lambda>r _. counted bnd r) E"
  by (simp add: triple_def failure_result_def counted_def now_def andThen_def fetch_def ret_def split_beta)

lemma counted_success:
  "\<lbrakk>k < max_steps bnd; in_count bnd k c\<rbrakk> \<Longrightarrow> triple P (success_result api start k c) (\<lambda>r _. counted bnd r) E"
  by (simp add: triple_def success_result_def counted_def in_count_def now_def andThen_def fetch_def ret_def split_beta)

lemma counted_timeout:
  "\<lbrakk>k \<le> max_steps bnd; in_count bnd k c\<rbrakk> \<Longrightarrow> triple P (timeout_result api start k c msg) (\<lambda>r _. counted bnd r) E"
  by (simp add: triple_def timeout_result_def counted_def in_count_def now_def andThen_def fetch_def ret_def split_beta)

lemma try_tactic_in_count:
  assumes "in_count bnd k c" and "proof_depth c < max_depth bnd"
  shows "triple P (try_tactic api tactic goal c) (\<lambda>c' _. in_count bnd (Suc k) c') (\<lambda>_ _. True)"
  unfolding try_tactic_def Let_def
  apply (rule triple_andThen [where R = "\<lambda>_ _. True"], rule triple_any, simp, simp)+
  by (rule triple_if, rule triple_andThen [where R = "\<lambda>_ _. True"], rule triple_any, simp, simp)
     (rule triple_ret, use assms in \<open>simp add: in_count_def record_tactic_attempt_def update_subgoals_def\<close>)+

lemma weigh_goals_shape:
  "triple P (weigh_goals cls c) (\<lambda>c' _. \<exists>ps. c' = c\<lparr>priorities := ps\<rparr>) (\<lambda>_ _. True)"
  unfolding weigh_goals_def
  apply (rule triple_if, rule triple_andThen [where R = "\<lambda>_ _. True"], rule triple_any, simp, simp)
   apply (rule triple_andThen [where R = "\<lambda>_ _. True"], rule triple_any, simp, simp)
  by (rule triple_ret, blast?)+ (metis proof_context.surjective proof_context.update_convs(2))

lemma proof_loop_counted:
  assumes "k + n = max_steps bnd" and "in_count bnd k c"
  shows "triple P (proof_loop api cls bnd start n k c) (\<lambda>r _. counted bnd r) (\<lambda>_ _. True)"
  using assms
proof (induction n arbitrary: k c P)
  case 0
  then show ?case by (simp add: counted_failure in_count_def)
next
  case (Suc n)
  have fail: "triple P' (failure_result api start msg k (proof_depth c')) (\<lambda>r _. counted bnd r) E"
    if "proof_depth c' = proof_depth c" for P' msg c' E
    using Suc.prems that by (intro counted_failure) (auto simp: in_count_def)
  have round: "triple (\<lambda>_. \<exists>ps. c1 = c\<lparr>priorities := ps\<rparr>)
      (if active_goal_id c1 < 0 then failure_result api start ''No available goals to work on'' k (proof_depth c1)
       else andThen (recommend_tactic cls c1 (active_goal_id c1)) (\<lambda>tac.
         if \<not> truthy tac then failure_result api start ''No more tactics available'' k (proof_depth c1)
         else andThen (try_tactic api (or_else tac []) (active_goal_id c1) c1)
                (\<lambda>c2. proof_loop api cls bnd start n (Suc k) c2))) (\<lambda>r _. counted bnd r) (\<lambda>_ _. True)"
    if deep: "\<not> max_depth bnd \<le> proof_depth c" for c1
  proof (cases "\<exists>ps. c1 = c\<lparr>priorities := ps\<rparr>")
    case True
    then obtain ps where c1: "c1 = c\<lparr>priorities := ps\<rparr>" by blast
    have count: "in_count bnd k c1" "proof_depth c1 < max_depth bnd"
      using Suc.prems(2) deep by (auto simp: c1 in_count_def)
    have next_round: "triple (\<lambda>_. in_count bnd (Suc k) c2) (proof_loop api cls bnd start n (Suc k) c2) (\<lambda>r _. counted bnd r) (\<lambda>_ _. True)" for c2
      using Suc.IH [of "Suc k" c2] Suc.prems(1) by (cases "in_count bnd (Suc k) c2") (simp_all add: triple_def)
    show ?thesis
      apply (rule triple_if, rule fail, simp add: c1)
      apply (rule triple_andThen [where R = "\<lambda>_ _. True"], rule triple_any, simp, simp)
      apply (rule triple_if, rule fail, simp add: c1)
      by (rule triple_andThen, rule try_tactic_in_count [OF count], rule next_round)
  qed (simp add: triple_def)
  show ?case
    apply (subst proof_loop.simps)
    unfolding Let_def
    apply (rule triple_andThen [where R = "\<lambda>_ _. True"], rule triple_any, simp, simp)
    apply (rule triple_if, rule counted_timeout, use Suc.prems in simp, use Suc.prems in simp)
    apply (rule triple_if, rule triple_andThen [where R = "\<lambda>_ _. True"], rule triple_any, simp, simp)
     apply (rule counted_success, use Suc.prems in simp, use Suc.prems in simp)
    apply (rule triple_if, rule fail, simp)
    by (rule triple_andThen, rule weigh_goals_shape, rule round)
qed

lemma begin_proof_counted:
  "triple P (begin_proof api cls bnd start thm_text) (\<lambda>r _. counted bnd r) (\<lambda>_ _. True)"
  unfolding begin_proof_def
  apply (rule triple_andThen [where R = "\<lambda>_ _. True"], rule triple_any, simp, simp)
  apply (rule triple_if, rule counted_failure, simp, simp)
  apply (rule triple_andThen [where R = "\<lambda>_ _. True"], rule triple_any, simp, simp)
  by (rule triple_if, rule counted_failure, simp, simp)
     (rule proof_loop_counted, simp_all add: in_count_def ProofContext_def post_init_def Let_def)

lemma prove_theorem_counted: "triple P (prove_theorem api cls bnd thm_text) (\<lambda>r _. counted bnd r) (\<lambda>_ _. False)"
  unfolding prove_theorem_def reset_session_def
  apply (rule triple_andThen [where R = "\<lambda>_ _. True"], rule triple_now, simp)
  apply (rule triple_andThen [where R = "\<lambda>_ _. True"], rule triple_on_self, simp)+
  by (rule triple_catch, rule begin_proof_counted, rule counted_failure, simp, simp)

text \<open>A proof attempt always has a result.
  Whatever the gym and the methods of the agent raise, \<open>prove_theorem\<close> returns a result: the steps and the depth are within
  their limits, at most one tactic was tried per step, the successful and the failed ones add up, no more were successful
  than the proof is deep, and there is an error message exactly when it failed.\<close>

theorem proof_attempt_has_result:
  "\<exists>r st'. prove_theorem api cls bnd thm_text st = (Inr r, st') \<and> pf_steps r \<le> max_steps bnd \<and> pf_length r \<le> max_depth bnd \<and>
     pf_attempts r \<le> pf_steps r \<and> pf_successful r + pf_failed r = pf_attempts r \<and> pf_successful r \<le> pf_length r \<and>
     pf_success r = (pf_error r = None)"
  using prove_theorem_counted [of "\<lambda>_. True" api cls bnd thm_text, unfolded triple_def, rule_format, of st]
  by (auto simp: counted_def split: prod.splits sum.splits)

section \<open>The last allowed step\<close>

text \<open>
  Whether the proof is complete is tested at the start of a round only, so a proof the last round finished is reported as
  a failure: with one step allowed no theorem can be proved.
\<close>

theorem one_step_never_enough:
  assumes "max_steps bnd = 1" and "prove_theorem api cls bnd thm_text st = (Inr r, st')"
  shows "pf_success r = False \<or> pf_steps r = 0"
  using prove_theorem_counted [of "\<lambda>_. True" api cls bnd thm_text, unfolded triple_def, rule_format, of st] assms
  by (auto simp: counted_def)

definition demo_gym :: "pystr list gym_api" where
  "demo_gym = \<lparr>g_step = (\<lambda>t w. (Inr \<lparr>rr_error = Inr None, rr_output = Inr None, rr_total = Inr [], rr_str = Inr []\<rparr>, if t = ''by auto'' then [] else [t])),
     g_goals = (\<lambda>w. (Inr w, w)), g_source = (\<lambda>w. (Inr [], w)), g_clock = (\<lambda>w. (0, w))\<rparr>"

definition demo_agent :: "agent" where
  "demo_agent = \<lparr>step_count = 0, tactic_history = [], priority_calls = 0, start_time = None, proofs_attempted = 0,
     proofs_succeeded = 0, tactics_tried = 0, tactics_succeeded = 0\<rparr>"

definition demo_arena :: "(pystr list, counters) arena" where
  "demo_arena = \<lparr>world = [], mind = (\<lambda>_. 0), self = demo_agent\<rparr>"

definition demo_limits :: "nat \<Rightarrow> limits" where
  "demo_limits n = \<lparr>max_steps = n, max_depth = 50, time_limit = 60, time_limit_text = ''60.0''\<rparr>"

definition demo_class :: "(pystr list, counters) agent_class" where
  "demo_class = SimpleIsabelleAgent \<lparr>has_forall = (\<lambda>_. False), has_con_dis = (\<lambda>_. False)\<rparr>"

lemma demo_steady: "steady demo_gym"
  by (simp add: steady_def demo_gym_def)


definition demo_outcome :: "nat \<Rightarrow> (bool \<times> pystr option \<times> pystr list) option" where
  "demo_outcome n =
     (case prove_theorem demo_gym demo_class (demo_limits n) ''lemma a'' demo_arena of
        (Inl _, _) \<Rightarrow> None
      | (Inr r, st) \<Rightarrow> Some (pf_success r, pf_error r, world st))"

lemma demo_outcome_2: "demo_outcome 2 = Some (True, None, [])"
  by code_simp

lemma demo_outcome_1: "demo_outcome 1 = Some (False, Some ''Maximum steps 1 reached'', [])"
  by code_simp

lemma demo_outcome_run:
  "demo_outcome n = Some (good, msg, gs) \<Longrightarrow>
     \<exists>r st'. prove_theorem demo_gym demo_class (demo_limits n) ''lemma a'' demo_arena = (Inr r, st') \<and>
       pf_success r = good \<and> pf_error r = msg \<and> world st' = gs"
  by (auto simp: demo_outcome_def split: prod.splits sum.splits)

theorem success_leaves_no_goal_witness:
  "\<exists>r st'. prove_theorem demo_gym demo_class (demo_limits 2) ''lemma a'' demo_arena = (Inr r, st') \<and> pf_success r \<and>
     fst (g_goals demo_gym (world st')) = Inr []"
proof -
  obtain r st' where run: "prove_theorem demo_gym demo_class (demo_limits 2) ''lemma a'' demo_arena = (Inr r, st')"
    and good: "pf_success r" using demo_outcome_run [OF demo_outcome_2] by blast
  have "hands_off demo_gym demo_class" unfolding demo_class_def by (rule simple_hands_off)
  then have "fst (g_goals demo_gym (world st')) = Inr []"
    using success_leaves_no_goal [OF demo_steady _ run good] by simp
  then show ?thesis using run good by blast
qed

text \<open>The same theorem and the same tactic with one step: the gym has no open goal left, and the result is a failure.\<close>

theorem last_step_unrewarded:
  "\<exists>r st'. prove_theorem demo_gym demo_class (demo_limits 1) ''lemma a'' demo_arena = (Inr r, st') \<and>
     fst (g_goals demo_gym (world st')) = Inr [] \<and> \<not> pf_success r \<and> pf_error r = Some ''Maximum steps 1 reached''"
  using demo_outcome_run [OF demo_outcome_1] by (auto simp: demo_gym_def)

end
