(* ===== verification/Local_Properties.thy ===== *)
theory Local_Properties
  imports Local_Client Agent_Properties
begin

text \<open>
  What the client of \<open>Local_Client\<close> guarantees: the current session is always one of the table, a session that is created and
  closed leaves nothing behind, the end of the client closes every session, and an agent that reports a success on such a gym
  has finished the proof. The last section has what is left behind when the gateway refuses a session, when an identifier is
  used twice and when the client ends, and what a session named like a theory of the repository costs.
\<close>

section \<open>The current session exists\<close>

definition client_ok :: "('b, 'w) local_client \<Rightarrow> bool" where
  "client_ok c \<longleftrightarrow> od_ok (lc_sessions c) \<and> (\<forall>sid. lc_current c = Some sid \<longrightarrow> sid \<in> set (od_keys (lc_sessions c)))"

lemmas client_run = andThen_def catch_def fetch_def change_def ret_def throw_def

lemma outside_fields [simp]:
  "lc_sessions (snd (outside f c)) = lc_sessions c" "lc_current (snd (outside f c)) = lc_current c"
  "lc_multi (snd (outside f c)) = lc_multi c" "lc_dir (snd (outside f c)) = lc_dir c" "lc_gen (snd (outside f c)) = lc_gen c"
  "lc_main (snd (outside f c)) = lc_main c" "lc_gateway (snd (outside f c)) = lc_gateway c"
  "lc_defaults (snd (outside f c)) = lc_defaults c"
  by (simp_all add: outside_def split_beta)

definition table :: "('b, 'w) local_client \<Rightarrow> bool \<times> (pystr, 'b local_session) od \<times> pystr option" where
  "table c = (lc_multi c, lc_sessions c, lc_current c)"

lemma keeps_table_outside [frame]: "keeps table (outside f)"
  by (simp add: keeps_def table_def)

lemma keeps_table_time [frame]: "keeps table (read_time sys)"
  by (simp add: keeps_def table_def read_time_def split_beta)

lemma keeps_table_gen [frame]: "keeps table (local_gen_file sys f thys)" "keeps table (local_cleanup_file sys f)"
  unfolding local_gen_file_def local_cleanup_file_def by (intro frame; simp add: table_def)+

lemma keeps_table_build [frame]: "keeps table (build_loaded_theories sys f deps)"
  unfolding build_loaded_theories_def
  by (intro frame) (auto split: gen_result.split intro!: frame)

lemma client_ok_table: "table c = table c' \<Longrightarrow> client_ok c = client_ok c'"
  by (simp add: table_def client_ok_def)

lemma preserves_ok_of_table: "keeps table m \<Longrightarrow> preserves client_ok m"
  unfolding keeps_def preserves_def using client_ok_table by blast

lemma preserves_ok_basic [inv_intro]: "preserves client_ok (outside f)" "preserves client_ok (read_time sys)"
  "preserves client_ok (build_loaded_theories sys n deps)" "preserves client_ok (local_cleanup_file sys n)"
  by (rule preserves_ok_of_table, intro frame)+

lemma preserves_only_multi [inv_intro]: "preserves I m \<Longrightarrow> preserves I (only_multi name m)"
  unfolding only_multi_def by (intro inv_intro)

lemma preserves_ok_create: "preserves client_ok (create_local_session sys sid thys fld)"
proof -
  have add: "client_ok (if lc_current c = None then c\<lparr>lc_current := Some sid\<rparr> else c)"
    if "client_ok c" "sid \<in> set (od_keys (lc_sessions c))" for c :: "('a, 'b) local_client"
    using that by (auto simp: client_ok_def)
  have tail: "preserves client_ok
      (andThen (change (\<lambda>c. c\<lparr>lc_sessions := od_set sid v (lc_sessions c)\<rparr>)) (\<lambda>_.
       andThen (change (\<lambda>c. if lc_current c = None then c\<lparr>lc_current := Some sid\<rparr> else c)) (\<lambda>_. ret sid)))" for v :: "'a local_session"
    by (auto simp: preserves_def client_run client_ok_def od_keys_set)
  show ?thesis
    unfolding create_local_session_def Let_def split_beta
    by (intro inv_intro tail)
qed

lemma preserves_ok_switch: "preserves client_ok (switch_session sid)"
  by (auto simp: switch_session_def only_multi_def preserves_def client_run client_ok_def)

lemma preserves_ok_close: "preserves client_ok (close_local_session sys sid)"
proof -
  have tail: "preserves client_ok
      (andThen (change (\<lambda>c. if lc_current c = Some sid then c\<lparr>lc_current := None\<rparr> else c)) (\<lambda>_.
       andThen (change (\<lambda>c. c\<lparr>lc_sessions := od_pop sid (lc_sessions c)\<rparr>)) (\<lambda>_.
       andThen (case x of None \<Rightarrow> ret () | Some w \<Rightarrow> local_cleanup_file sys w) (\<lambda>_. ret True))))"
    (is "preserves _ (andThen _ (\<lambda>_. andThen _ (\<lambda>_. ?rest)))") for x
  proof -
    have rest: "preserves client_ok ?rest" by (intro inv_intro)
    have "client_ok ((if lc_current c = Some sid then c\<lparr>lc_current := None\<rparr> else c)
        \<lparr>lc_sessions := od_pop sid (lc_sessions (if lc_current c = Some sid then c\<lparr>lc_current := None\<rparr> else c))\<rparr>)"
      if "client_ok c" for c :: "('a, 'b) local_client"
      using that by (auto simp: client_ok_def)
    then show ?thesis using rest
      by (simp add: preserves_def andThen_def change_def)
  qed
  show ?thesis
    unfolding close_local_session_def
    by (rule preserves_only_multi, rule preserves_andThen, rule inv_intro)
       (rule preserves_option, rule inv_intro, rule tail)
qed

lemma preserves_ok_close_all: "preserves client_ok (close_all sys sids)"
proof (induction sids)
  case (Cons sid sids)
  then show ?case
    unfolding close_all.simps attempt_quietly_def by (intro inv_intro preserves_ok_close)
qed (simp add: preserves_def ret_def)

text \<open>
  The life of a client: the constructor, then the operations on the sessions and, for everything else, calls of the active
  backend, whose results are dropped here.
\<close>

inductive client_life :: "('b, 'w) local_sys \<Rightarrow> ('b, 'w) local_client \<Rightarrow> bool" for sys where
  born: "IsabelleClient sys shared thys fld (blank_client w dir) = (Inr (), c) \<Longrightarrow> client_life sys c"
| created: "client_life sys c \<Longrightarrow> client_life sys (snd (create_local_session sys sid thys fld c))"
| switched: "client_life sys c \<Longrightarrow> client_life sys (snd (switch_session sid c))"
| closed: "client_life sys c \<Longrightarrow> client_life sys (snd (close_local_session sys sid c))"
| called: "client_life sys c \<Longrightarrow> client_life sys (snd (on_active (f :: 'b \<Rightarrow> 'w \<Rightarrow> (exn + unit) \<times> 'w) c))"
| ended: "client_life sys c \<Longrightarrow> client_life sys (snd (client_cleanup sys c))"

lemma preserves_ok_active: "preserves client_ok (on_active f)"
  unfolding on_active_def get_active_backend_def get_current_session_def main_backend_def only_multi_def
  by (intro inv_intro preserves_ok_basic)

lemma preserves_ok_cleanup: "preserves client_ok (client_cleanup sys)"
  unfolding client_cleanup_def exit_main_def attempt_quietly_def main_backend_def
  by (intro inv_intro preserves_ok_basic preserves_ok_close_all)

lemma client_born_ok: "IsabelleClient sys shared thys fld c0 = (Inr (), c) \<Longrightarrow> client_ok c"
  by (auto simp: IsabelleClient_def client_run client_ok_def od_ok_def od_keys_def split: prod.splits sum.splits)

lemma preservesD: "preserves I m \<Longrightarrow> I s \<Longrightarrow> I (snd (m s))"
  by (simp add: preserves_def)

lemma client_life_ok: "client_life sys c \<Longrightarrow> client_ok c"
proof (induction rule: client_life.induct)
  case (born shared thys fld w dir c)
  then show ?case by (rule client_born_ok)
qed (rule preservesD, (rule preserves_ok_create preserves_ok_switch preserves_ok_close preserves_ok_active preserves_ok_cleanup),
     assumption)+

text \<open>The current session of a local client exists.
  Through every sequence of creations, switches, closes, calls and the end of the client, the identifiers in the table are
  distinct and looking up the current session never fails: either there is none, which is reported, or its backend is found.\<close>

theorem current_session_found:
  assumes "client_life sys c" and "lc_multi c"
  shows "distinct (od_keys (lc_sessions c)) \<and>
    (case lc_current c of
       None \<Rightarrow> fst (get_current_session c) = Inl (Exn C_RuntimeError ''No active Session'')
     | Some sid \<Rightarrow> \<exists>s. od_get sid (lc_sessions c) = Some s \<and> fst (get_current_session c) = Inr (ls_backend s))"
proof -
  have ok: "client_ok c" using assms(1) by (rule client_life_ok)
  have "\<exists>s. od_get sid (lc_sessions c) = Some s" if "lc_current c = Some sid" for sid
    using ok that od_get_None_iff [of sid "lc_sessions c"] by (cases "od_get sid (lc_sessions c)") (auto simp: client_ok_def)
  then show ?thesis using ok assms(2)
    by (auto simp: client_ok_def od_ok_def get_current_session_def only_multi_def client_run split: option.splits)
qed

section \<open>Creating and closing\<close>

lemma od_pop_set_fresh: "k \<notin> set (od_keys d) \<Longrightarrow> od_pop k (od_set k v d) = d"
  by (auto simp: od_set_def od_keys_def) (simp add: od_pop_def filter_id_conv, force)

text \<open>What building the theories of a session adds, and then a successful creation.\<close>

definition wrote :: "pystr \<Rightarrow> pystr list \<Rightarrow> pystr option \<Rightarrow> ('b, 'w) local_client \<Rightarrow> ('b, 'w) local_client \<Rightarrow> bool" where
  "wrote sid deps wrapper c c' \<longleftrightarrow>
     (if wrapper = None \<or> sid \<in> set thys_pool then lc_dir c' = lc_dir c \<and> lc_gen c' = lc_gen c
      else lc_dir c' = od_set sid (generate_thy_file (template (lc_gen c)) deps sid) (lc_dir c) \<and>
           lc_gen c' = (lc_gen c)\<lparr>created_files := List.insert sid (created_files (lc_gen c))\<rparr>)"

lemma gen_adds:
  assumes "local_gen_file sys sid deps c = (Inr (Success data), c')"
  shows "data = sid \<and> wrote sid deps (Some sid) c c'"
proof (cases "sid \<in> set thys_pool")
  case True
  then show ?thesis using assms by (auto simp: local_gen_file_def ret_def wrote_def)
next
  case False
  obtain r w where "ly_write sys sid (lc_world c) = (r, w)" by force
  then show ?thesis using assms False
    by (cases r) (auto simp: local_gen_file_def client_run outside_def wrote_def split: if_splits)
qed

lemma build_adds:
  assumes "build_loaded_theories sys sid deps c = (Inr (ld, wrapper), c')"
  shows "(wrapper = (if deps = [] then None else Some sid)) \<and> wrote sid deps wrapper c c'"
proof (cases "deps = []")
  case True
  then show ?thesis using assms by (auto simp: build_loaded_theories_def ret_def wrote_def)
next
  case False
  obtain r c1 where g: "local_gen_file sys sid deps c = (r, c1)" by force
  show ?thesis
  proof (cases "\<exists>data. r = Inr (Success data)")
    case True
    then obtain data where r: "r = Inr (Success data)" by blast
    then have "data = sid" "wrote sid deps (Some sid) c c1" using gen_adds g by blast+
    then show ?thesis using assms False g r
      by (simp add: build_loaded_theories_def andThen_def ret_def throw_def split: if_splits)
  next
    case other: False
    then show ?thesis using assms False g
      by (cases r) (auto simp: build_loaded_theories_def client_run split: gen_result.splits)
  qed
qed

definition session_deps :: "pystr option list option \<Rightarrow> ('b, 'w) local_client \<Rightarrow> pystr list" where
  "session_deps thys c = (if thys = None then lc_defaults c else normalize_local thys)"

lemma build_keeps:
  assumes "build_loaded_theories sys sid deps c = (r, c')"
  shows "lc_sessions c' = lc_sessions c \<and> lc_current c' = lc_current c \<and> lc_multi c' = lc_multi c"
  using keepsD [OF keeps_table_build, of sys sid deps c] assms by (simp add: table_def)

lemma create_adds:
  assumes "create_local_session sys sid thys fld c = (Inr r, c')"
  shows "\<exists>s. lc_multi c \<and> lc_multi c' \<and> lc_sessions c' = od_set sid s (lc_sessions c) \<and>
     lc_current c' = (if lc_current c = None then Some sid else lc_current c) \<and>
     ls_wrapper s = (if session_deps thys c = [] then None else Some sid) \<and>
     wrote sid (session_deps thys c) (ls_wrapper s) c c'"
proof -
  let ?deps = "session_deps thys c"
  obtain r1 c1 where build: "build_loaded_theories sys sid ?deps c = (r1, c1)" by force
  have multi: "lc_multi c"
    using assms by (auto simp: create_local_session_def only_multi_def andThen_def fetch_def throw_def split: if_splits)
  have run: "create_local_session sys sid thys fld c =
      andThen (build_loaded_theories sys sid ?deps) (\<lambda>(loaded_thys, wrapper).
        andThen (outside (ly_make sys True loaded_thys fld)) (\<lambda>b.
        andThen (read_time sys) (\<lambda>t.
        andThen (change (\<lambda>c. c\<lparr>lc_sessions := od_set sid \<lparr>ls_backend = b, ls_theories = ?deps, ls_loaded = loaded_thys,
            ls_wrapper = wrapper, ls_created = t\<rparr> (lc_sessions c)\<rparr>)) (\<lambda>_.
        andThen (change (\<lambda>c. if lc_current c = None then c\<lparr>lc_current := Some sid\<rparr> else c)) (\<lambda>_. ret sid))))) c"
    using multi by (simp add: create_local_session_def only_multi_def andThen_def fetch_def session_deps_def Let_def)
  then obtain ld wrapper where r1: "r1 = Inr (ld, wrapper)"
    using build assms by (cases r1) (auto simp: andThen_def)
  obtain rb cb where make: "outside (ly_make sys True ld fld) c1 = (rb, cb)" by force
  obtain t ct where time: "read_time sys cb = (Inr t, ct)" by (auto simp: read_time_def split_beta)
  have same: "lc_sessions ct = lc_sessions c1" "lc_current ct = lc_current c1" "lc_dir ct = lc_dir c1" "lc_gen ct = lc_gen c1"
     "lc_multi ct = lc_multi c1"
    using make time by (auto simp: outside_def read_time_def split: prod.splits)
  obtain b where "rb = Inr b"
    using assms run build r1 make by (cases rb) (auto simp: andThen_def)
  then show ?thesis
    using assms run build r1 make time same build_keeps [OF build] build_adds [OF build [unfolded r1]] multi
    by (intro exI [where x = "\<lparr>ls_backend = b, ls_theories = ?deps, ls_loaded = ld, ls_wrapper = wrapper, ls_created = t\<rparr>"])
       (auto simp: andThen_def change_def ret_def wrote_def)
qed

lemma close_effect:
  assumes "close_local_session sys sid c = (Inr True, c')" and "od_get sid (lc_sessions c) = Some s"
  shows "lc_sessions c' = od_pop sid (lc_sessions c) \<and> lc_multi c' = lc_multi c \<and>
     lc_current c' = (if lc_current c = Some sid then None else lc_current c) \<and>
     (ls_wrapper s = None \<longrightarrow> lc_dir c' = lc_dir c \<and> lc_gen c' = lc_gen c)"
proof -
  have multi: "lc_multi c"
    using assms by (auto simp: close_local_session_def only_multi_def andThen_def fetch_def throw_def split: if_splits)
  let ?c1 = "(if lc_current c = Some sid then c\<lparr>lc_current := None\<rparr> else c)\<lparr>lc_sessions := od_pop sid (lc_sessions c)\<rparr>"
  have run: "close_local_session sys sid c =
      andThen (case ls_wrapper s of None \<Rightarrow> ret () | Some w \<Rightarrow> local_cleanup_file sys w) (\<lambda>_. ret True) ?c1"
    using multi assms(2) by (simp add: close_local_session_def only_multi_def andThen_def fetch_def change_def)
  have "table c' = table ?c1"
  proof (cases "ls_wrapper s")
    case (Some w)
    then show ?thesis using assms(1) run keepsD [OF keeps_table_gen(2), of sys w ?c1]
      by (auto simp: andThen_def ret_def split: prod.splits sum.splits)
  qed (use assms(1) run in \<open>auto simp: andThen_def ret_def\<close>)
  then show ?thesis using assms(1) run multi
    by (auto simp: table_def andThen_def ret_def split: if_splits)
qed

text \<open>What closing does to the directory, when the file can be deleted.\<close>

lemma cleanup_file_effect:
  assumes "fst (ly_unlink sys f (lc_world c)) = Inr ()" and "f \<in> set (created_files (lc_gen c))" and "f \<notin> set thys_pool"
  shows "\<exists>c'. local_cleanup_file sys f c = (Inr (), c') \<and> lc_dir c' = od_pop f (lc_dir c) \<and>
    lc_gen c' = (lc_gen c)\<lparr>created_files := removeAll f (created_files (lc_gen c))\<rparr>"
  using assms by (auto simp: local_cleanup_file_def client_run outside_def split: prod.splits)

lemma close_file_effect:
  assumes "close_local_session sys sid c = (Inr True, c')" and "od_get sid (lc_sessions c) = Some s" and "ls_wrapper s = Some f"
    and "\<And>w. fst (ly_unlink sys f w) = Inr ()" and "f \<in> set (created_files (lc_gen c))" and "f \<notin> set thys_pool"
  shows "lc_dir c' = od_pop f (lc_dir c) \<and> lc_gen c' = (lc_gen c)\<lparr>created_files := removeAll f (created_files (lc_gen c))\<rparr>"
proof -
  let ?c1 = "(if lc_current c = Some sid then c\<lparr>lc_current := None\<rparr> else c)\<lparr>lc_sessions := od_pop sid (lc_sessions c)\<rparr>"
  have "close_local_session sys sid c = andThen (local_cleanup_file sys f) (\<lambda>_. ret True) ?c1"
    using assms(1,2,3) by (auto simp: close_local_session_def only_multi_def andThen_def fetch_def change_def throw_def split: if_splits)
  moreover obtain c2 where "local_cleanup_file sys f ?c1 = (Inr (), c2)" "lc_dir c2 = od_pop f (lc_dir c)"
      "lc_gen c2 = (lc_gen c)\<lparr>created_files := removeAll f (created_files (lc_gen c))\<rparr>"
    using cleanup_file_effect [of sys f ?c1] assms(4,5,6) by (cases "lc_current c = Some sid") (simp_all, blast+)
  ultimately show ?thesis using assms(1) by (simp add: andThen_def ret_def)
qed

text \<open>Creating and closing a session leaves nothing.
  A session with a new identifier that is created and closed restores the table of sessions, which of them is current, the
  directory of wrapper theories and the files tracked, when the file of its wrapper can be deleted.\<close>

theorem create_close_roundtrip:
  assumes "create_local_session sys sid thys fld c = (Inr r, c1)" and "close_local_session sys sid c1 = (Inr True, c2)"
    and "sid \<notin> set (od_keys (lc_sessions c))" and "sid \<notin> set (od_keys (lc_dir c))" and "sid \<notin> set (created_files (lc_gen c))"
    and "lc_current c \<noteq> Some sid" and "sid \<notin> set thys_pool" and "\<And>w. fst (ly_unlink sys sid w) = Inr ()"
  shows "lc_sessions c2 = lc_sessions c \<and> lc_current c2 = lc_current c \<and> lc_dir c2 = lc_dir c \<and> lc_gen c2 = lc_gen c"
proof -
  obtain s where s: "lc_sessions c1 = od_set sid s (lc_sessions c)"
      "lc_current c1 = (if lc_current c = None then Some sid else lc_current c)"
      "ls_wrapper s = (if session_deps thys c = [] then None else Some sid)" "wrote sid (session_deps thys c) (ls_wrapper s) c c1"
    using create_adds [OF assms(1)] by blast
  have entry: "od_get sid (lc_sessions c1) = Some s" using s(1) by simp
  have "lc_sessions c2 = lc_sessions c \<and> lc_current c2 = lc_current c"
    using close_effect [OF assms(2) entry] s(1,2) od_pop_set_fresh [OF assms(3)] assms(6) by (cases "lc_current c") simp_all
  moreover have "lc_dir c2 = lc_dir c \<and> lc_gen c2 = lc_gen c"
  proof (cases "session_deps thys c = []")
    case True
    then show ?thesis using close_effect [OF assms(2) entry] s(3,4) by (simp add: wrote_def)
  next
    case False
    have files: "lc_dir c1 = od_set sid (generate_thy_file (template (lc_gen c)) (session_deps thys c) sid) (lc_dir c)"
        "lc_gen c1 = (lc_gen c)\<lparr>created_files := List.insert sid (created_files (lc_gen c))\<rparr>"
      using s(3,4) False assms(7) by (auto simp: wrote_def)
    have "lc_dir c2 = od_pop sid (lc_dir c1) \<and> lc_gen c2 = (lc_gen c1)\<lparr>created_files := removeAll sid (created_files (lc_gen c1))\<rparr>"
      by (rule close_file_effect [OF assms(2) entry _ assms(8)]) (use s(3) False files(2) assms(7) in simp_all)
    then show ?thesis using files assms(4,5) by (simp add: od_pop_set_fresh od_pop_absent List.insert_def)
  qed
  ultimately show ?thesis by blast
qed

section \<open>The end of the client\<close>

lemma close_sessions:
  assumes "lc_multi c"
  shows "lc_sessions (snd (close_local_session sys sid c)) = od_pop sid (lc_sessions c) \<and>
    lc_multi (snd (close_local_session sys sid c))"
proof (cases "od_get sid (lc_sessions c)")
  case None
  then show ?thesis using assms od_get_None_iff [of sid "lc_sessions c"]
    by (simp add: close_local_session_def only_multi_def andThen_def fetch_def ret_def od_pop_absent)
next
  case (Some s)
  let ?c1 = "(if lc_current c = Some sid then c\<lparr>lc_current := None\<rparr> else c)\<lparr>lc_sessions := od_pop sid (lc_sessions c)\<rparr>"
  have "close_local_session sys sid c =
      andThen (case ls_wrapper s of None \<Rightarrow> ret () | Some w \<Rightarrow> local_cleanup_file sys w) (\<lambda>_. ret True) ?c1"
    using assms Some by (simp add: close_local_session_def only_multi_def andThen_def fetch_def change_def)
  moreover have "keeps table (andThen (case ls_wrapper s of None \<Rightarrow> ret () | Some w \<Rightarrow> local_cleanup_file sys w) (\<lambda>_. ret True))"
    by (intro frame)
  ultimately have "table (snd (close_local_session sys sid c)) = table ?c1" by (simp add: keeps_def)
  moreover have "lc_sessions ?c1 = od_pop sid (lc_sessions c)" "lc_multi ?c1" using assms by simp_all
  ultimately show ?thesis unfolding table_def prod.inject by metis
qed

lemma attempt_quietly_run [simp]: "attempt_quietly act c = (Inr (), snd (act c))"
  by (auto simp: attempt_quietly_def catch_def andThen_def ret_def split: prod.split sum.split)

lemma close_all_run: "close_all sys sids c = (Inr (), snd (close_all sys sids c))"
proof (induction sids arbitrary: c)
  case (Cons sid sids)
  show ?case
    unfolding close_all.simps andThen_def attempt_quietly_run prod.case sum.case by (rule Cons.IH)
qed (simp add: ret_def)

lemma close_all_Cons [simp]:
  "snd (close_all sys (sid # sids) c) = snd (close_all sys sids (snd (close_local_session sys sid c)))"
  by (simp add: andThen_def)

declare close_all.simps(2) [simp del]

lemma close_all_sessions:
  "lc_multi c \<Longrightarrow> lc_sessions (snd (close_all sys sids c)) = filter (\<lambda>p. fst p \<notin> set sids) (lc_sessions c)"
proof (induction sids arbitrary: c)
  case (Cons sid sids)
  then show ?case using close_sessions [OF Cons.prems, of sys sid]
    by (auto simp: od_pop_def intro: filter_cong)
qed (simp add: ret_def)

definition gone :: "pystr \<Rightarrow> ('b, 'w) local_client \<Rightarrow> bool" where
  "gone f c \<longleftrightarrow> f \<notin> set (od_keys (lc_dir c))"

definition tracked :: "pystr \<Rightarrow> ('b, 'w) local_client \<Rightarrow> bool" where
  "tracked f c \<longleftrightarrow> f \<in> set (created_files (lc_gen c)) \<or> gone f c"

lemma preserves_gone_cleanup: "preserves (gone f) (local_cleanup_file sys g)"
  by (auto simp: preserves_def local_cleanup_file_def client_run outside_def gone_def split: prod.splits sum.splits)

lemma preserves_tracked_cleanup: "preserves (tracked f) (local_cleanup_file sys g)"
  by (auto simp: preserves_def local_cleanup_file_def client_run outside_def gone_def tracked_def split: prod.splits sum.splits)

lemma preserves_close:
  assumes "\<And>g. preserves I (local_cleanup_file sys g)" and "\<And>c cur. I (c\<lparr>lc_current := cur\<rparr>) = I c"
    and "\<And>c d. I (c\<lparr>lc_sessions := d\<rparr>) = I c"
  shows "preserves I (close_local_session sys sid)"
  unfolding close_local_session_def by (intro inv_intro assms(1); simp add: assms(2,3))

lemma preserves_close_gone: "preserves (gone f) (close_local_session sys sid)"
  by (rule preserves_close) (simp_all add: preserves_gone_cleanup gone_def)

lemma preserves_close_tracked: "preserves (tracked f) (close_local_session sys sid)"
  by (rule preserves_close) (simp_all add: preserves_tracked_cleanup tracked_def gone_def)

lemma close_all_gone: "gone f c \<Longrightarrow> gone f (snd (close_all sys sids c))"
  by (induction sids arbitrary: c) (simp_all add: ret_def preservesD [OF preserves_close_gone])

lemma close_wrapper_gone:
  assumes "lc_multi c" and "od_get sid (lc_sessions c) = Some s" and "ls_wrapper s = Some f" and "tracked f c"
    and "f \<notin> set thys_pool" and "\<And>w. fst (ly_unlink sys f w) = Inr ()"
  shows "gone f (snd (close_local_session sys sid c))"
proof (cases "f \<in> set (created_files (lc_gen c))")
  case False
  then show ?thesis using assms(4) preservesD [OF preserves_close_gone] by (auto simp: tracked_def)
next
  case True
  let ?c1 = "(if lc_current c = Some sid then c\<lparr>lc_current := None\<rparr> else c)\<lparr>lc_sessions := od_pop sid (lc_sessions c)\<rparr>"
  have run: "close_local_session sys sid c = andThen (local_cleanup_file sys f) (\<lambda>_. ret True) ?c1"
    using assms(1,2,3) by (simp add: close_local_session_def only_multi_def andThen_def fetch_def change_def)
  moreover have "f \<in> set (created_files (lc_gen ?c1))" "lc_dir ?c1 = lc_dir c" using True by simp_all
  ultimately have "close_local_session sys sid c = (Inr True, snd (close_local_session sys sid c))"
    using cleanup_file_effect [of sys f ?c1] assms(5,6) by (auto simp: andThen_def ret_def)
  from close_file_effect [OF this assms(2,3,6) True assms(5)] show ?thesis by (simp add: gone_def)
qed

lemma close_all_wrapper_gone:
  assumes "lc_multi c" and "od_get sid (lc_sessions c) = Some s" and "ls_wrapper s = Some f" and "tracked f c"
    and "f \<notin> set thys_pool" and "\<And>w. fst (ly_unlink sys f w) = Inr ()" and "sid \<in> set sids"
  shows "gone f (snd (close_all sys sids c))"
  using assms(1-4,7)
proof (induction sids arbitrary: c)
  case (Cons j sids)
  show ?case
  proof (cases "j = sid")
    case True
    then show ?thesis using close_wrapper_gone [OF Cons.prems(1-4) assms(5,6)] by (simp add: close_all_gone)
  next
    case False
    then show ?thesis using Cons.prems close_sessions [OF Cons.prems(1), of sys j]
      by (simp, intro Cons.IH) (simp_all add: preservesD [OF preserves_close_tracked])
  qed
qed simp

text \<open>Property C34: the end of a local client closes every session.
  In the multi-session mode, while the gateway runs, the cleanup returns with an empty table and no current session, whatever
  fails on the way, and each wrapper theory that the client tracked for a session and that can be deleted is gone.\<close>

theorem end_closes_every_session:
  assumes "client_life sys c" and "lc_multi c" and "lc_gateway c" and "\<not> ly_ended sys (lc_world c)"
  shows "\<exists>c'. client_cleanup sys c = (Inr (), c') \<and> lc_sessions c' = [] \<and> lc_current c' = None \<and>
    (\<forall>sid s f. od_get sid (lc_sessions c) = Some s \<and> ls_wrapper s = Some f \<and> f \<in> set (created_files (lc_gen c)) \<and>
       f \<notin> set thys_pool \<and> (\<forall>w. fst (ly_unlink sys f w) = Inr ()) \<longrightarrow> od_get f (lc_dir c') = None)"
proof -
  let ?c' = "snd (client_cleanup sys c)"
  obtain c1 where c1: "close_all sys (od_keys (lc_sessions c)) c = (Inr (), c1)"
    using close_all_run by metis
  let ?c1 = "snd (close_all sys (od_keys (lc_sessions c)) c)"
  have run: "client_cleanup sys c = (Inr (), snd (outside (ly_terminate sys) ?c1))"
    using assms(2-4) by (simp add: client_cleanup_def andThen_def fetch_def c1)
  then have same: "lc_sessions ?c' = lc_sessions ?c1" "lc_dir ?c' = lc_dir ?c1" by simp_all
  have empty: "lc_sessions ?c' = []"
    using close_all_sessions [OF assms(2), of sys] same(1) by (auto simp: od_keys_def filter_empty_conv)
  have "client_ok ?c'" using client_life_ok [OF client_life.ended [OF assms(1)]] .
  then have "lc_current ?c' = None" using empty by (cases "lc_current ?c'") (simp_all add: client_ok_def od_keys_def)
  moreover have "od_get f (lc_dir ?c') = None"
    if "od_get sid (lc_sessions c) = Some s" "ls_wrapper s = Some f" "f \<in> set (created_files (lc_gen c))"
       "f \<notin> set thys_pool" "\<forall>w. fst (ly_unlink sys f w) = Inr ()" for sid s f
  proof -
    have "sid \<in> set (od_keys (lc_sessions c))" using that(1) od_get_None_iff [of sid "lc_sessions c"] by auto
    then have "gone f ?c1"
      using close_all_wrapper_gone [OF assms(2) that(1,2)] that(3-5) by (simp add: tracked_def)
    then show ?thesis using same(2) by (simp add: gone_def od_get_None_iff)
  qed
  ultimately show ?thesis using run empty by (intro exI [where x = ?c']) auto
qed

section \<open>Agents on a local gym\<close>

text \<open>The hypothesis on the backends: asking for the goals, or for the time, does not change the goals.\<close>

definition steady_backends :: "('b, 'w) local_sys \<Rightarrow> bool" where
  "steady_backends sys \<longleftrightarrow>
     (\<forall>b w. fst (ly_goals sys b (snd (ly_goals sys b w))) = fst (ly_goals sys b w)) \<and>
     (\<forall>b w. fst (ly_goals sys b (snd (ly_time sys w))) = fst (ly_goals sys b w))"

lemma active_backend_cases:
  "(\<exists>b. \<forall>w. get_active_backend (c\<lparr>lc_world := w\<rparr>) = (Inr b, c\<lparr>lc_world := w\<rparr>)) \<or>
   (\<exists>e. \<forall>w. get_active_backend (c\<lparr>lc_world := w\<rparr>) = (Inl e, c\<lparr>lc_world := w\<rparr>))"
proof (cases "lc_multi c")
  case True
  then show ?thesis
    by (cases "lc_current c"; cases "od_get (the (lc_current c)) (lc_sessions c)")
       (simp_all add: get_active_backend_def get_current_session_def only_multi_def client_run)
next
  case False
  then show ?thesis by (cases "lc_main c") (simp_all add: get_active_backend_def main_backend_def client_run)
qed

lemma goals_of_world:
  "(\<exists>b. \<forall>w. client_open_subgoals sys (c\<lparr>lc_world := w\<rparr>) =
      (case ly_goals sys b w of (r, w') \<Rightarrow> (map_sum id (map strip) r, c\<lparr>lc_world := w'\<rparr>))) \<or>
   (\<exists>e. \<forall>w. client_open_subgoals sys (c\<lparr>lc_world := w\<rparr>) = (Inl e, c\<lparr>lc_world := w\<rparr>))"
  using active_backend_cases [of c]
proof (elim disjE exE)
  fix b assume "\<forall>w. get_active_backend (c\<lparr>lc_world := w\<rparr>) = (Inr b, c\<lparr>lc_world := w\<rparr>)"
  then show ?thesis
    by (intro disjI1 exI [where x = b])
       (simp add: client_open_subgoals_def on_active_def andThen_def outside_def ret_def split: prod.split sum.split)
next
  fix e assume "\<forall>w. get_active_backend (c\<lparr>lc_world := w\<rparr>) = (Inl e, c\<lparr>lc_world := w\<rparr>)"
  then show ?thesis
    by (intro disjI2 exI [where x = e]) (simp add: client_open_subgoals_def on_active_def andThen_def)
qed

lemma local_steady:
  assumes "steady_backends sys"
  shows "steady (gym_of sys)"
  unfolding steady_def
proof (intro conjI allI)
  fix c :: "('a, 'b) local_client"
  show "fst (g_goals (gym_of sys) (snd (g_goals (gym_of sys) c))) = fst (g_goals (gym_of sys) c)"
    using goals_of_world [of sys c]
  proof (elim disjE exE)
    fix b
    assume run: "\<forall>w. client_open_subgoals sys (c\<lparr>lc_world := w\<rparr>) =
      (case ly_goals sys b w of (r, w') \<Rightarrow> (map_sum id (map strip) r, c\<lparr>lc_world := w'\<rparr>))"
    obtain r w where g: "ly_goals sys b (lc_world c) = (r, w)" by force
    then have "fst (ly_goals sys b w) = r" using assms unfolding steady_backends_def by (metis fst_conv snd_conv)
    then show ?thesis using run [rule_format, of "lc_world c"] run [rule_format, of w] g
      by (simp add: gym_of_def split_beta)
  next
    fix e
    assume run: "\<forall>w. client_open_subgoals sys (c\<lparr>lc_world := w\<rparr>) = (Inl e, c\<lparr>lc_world := w\<rparr>)"
    then show ?thesis using run [rule_format, of "lc_world c"] by (simp add: gym_of_def)
  qed
next
  fix c :: "('a, 'b) local_client"
  have clock: "snd (g_clock (gym_of sys) c) = c\<lparr>lc_world := snd (ly_time sys (lc_world c))\<rparr>"
    by (simp add: gym_of_def split_beta)
  show "fst (g_goals (gym_of sys) (snd (g_clock (gym_of sys) c))) = fst (g_goals (gym_of sys) c)"
    using goals_of_world [of sys c]
  proof (elim disjE exE)
    fix b
    assume run: "\<forall>w. client_open_subgoals sys (c\<lparr>lc_world := w\<rparr>) =
      (case ly_goals sys b w of (r, w') \<Rightarrow> (map_sum id (map strip) r, c\<lparr>lc_world := w'\<rparr>))"
    have "fst (ly_goals sys b (snd (ly_time sys (lc_world c)))) = fst (ly_goals sys b (lc_world c))"
      using assms unfolding steady_backends_def by blast
    then show ?thesis unfolding clock using run [rule_format, of "lc_world c"] run [rule_format, of "snd (ly_time sys (lc_world c))"]
      by (simp add: gym_of_def split_beta)
  next
    fix e
    assume run: "\<forall>w. client_open_subgoals sys (c\<lparr>lc_world := w\<rparr>) = (Inl e, c\<lparr>lc_world := w\<rparr>)"
    then show ?thesis unfolding clock using run [rule_format, of "lc_world c"] by (simp add: gym_of_def)
  qed
qed


text \<open>
  The framework for several sessions starts the theorem itself and then calls \<open>prove_theorem\<close> with an empty statement
  (\<open>_execute_agent_proving\<close>), which the client cannot answer: no agent of a competition ever succeeds.
\<close>

theorem empty_statement_fails:
  assumes "strip thm_text = []"
  shows "\<exists>r st'. prove_theorem (gym_of sys) cls bnd thm_text st = (Inr r, st') \<and> \<not> pf_success r \<and>
    pf_error r = Some ''Unexpected error during proof: Protocols cannot be instantiated''"
proof -
  have "begin_proof (gym_of sys) cls bnd start thm_text st = (Inl (Exn C_TypeError ''Protocols cannot be instantiated''), st)" for start st
    using assms by (simp add: begin_proof_def andThen_def ask_gym_def gym_of_def isar_snippet_def throw_def)
  then show ?thesis
    by (simp add: prove_theorem_def andThen_def catch_def now_def on_self_def change_def reset_session_def failure_result_def
        fetch_def ret_def split_beta)
qed

section \<open>A concrete client\<close>

text \<open>A gateway on which everything succeeds; a backend is the number of those made before it, and the world counts them and
  holds the open goals of each.\<close>

definition demo_sys :: "(nat, nat \<times> (nat \<Rightarrow> pystr list)) local_sys" where
  "demo_sys = \<lparr>ly_start = (\<lambda>w. (Inr (), w)), ly_ended = (\<lambda>w. False), ly_terminate = (\<lambda>w. (Inr (), w)),
     ly_template = (\<lambda>w. (Inr ''theory [filename] imports [thys] begin end'', w)),
     ly_make = (\<lambda>shared thys fld (n, gs). (Inr n, (n + 1, gs))), ly_write = (\<lambda>f w. (Inr (), w)), ly_unlink = (\<lambda>f w. (Inr (), w)),
     ly_time = (\<lambda>w. (0, w)),
     ly_enter = (\<lambda>b t w. (Inl (Exn C_RuntimeError ''unused''), w)),
     ly_step = (\<lambda>b t (n, gs). (Inr \<lparr>rr_error = Inr None, rr_output = Inr None, rr_total = Inr [], rr_str = Inr []\<rparr>,
       (n, gs(b := if t = ''by auto'' then [] else [t])))),
     ly_name = (\<lambda>b w. (Inr ''A'', w)), ly_goals = (\<lambda>b w. (Inr (snd w b), w)), ly_local_facts = (\<lambda>b w. (Inr [], w)),
     ly_global_facts = (\<lambda>b n w. (Inr [], w)), ly_source = (\<lambda>b w. (Inl (Exn C_RuntimeError ''unused''), w)),
     ly_rollback = (\<lambda>b w. (Inl (Exn C_RuntimeError ''unused''), w)), ly_save = (\<lambda>b w. (Inr 0, w)),
     ly_restore = (\<lambda>b i w. (Inr True, w)), ly_reset = (\<lambda>b w. (Inr (), w)), ly_vectorise = (\<lambda>b n w. (Inr (), w)),
     ly_scalarise = (\<lambda>b i w. (Inr (), w)), ly_vector_step = (\<lambda>b cs w. (Inl (Exn C_RuntimeError ''unused''), w)),
     ly_stats = (\<lambda>b w. (Inr [], w)), ly_cache_status = (\<lambda>b w. (Inr [], w)), ly_exit = (\<lambda>b w. (Inr (), w))\<rparr>"

definition demo_dir :: "(pystr, pystr) od" where
  "demo_dir = [(''init'', ''theory [filename] imports [thys] begin end''), (''IsabelleREPL'', ''theory IsabelleREPL'')]"

definition demo_client :: "(nat, nat \<times> (nat \<Rightarrow> pystr list)) local_client" where
  "demo_client = snd (IsabelleClient demo_sys True (Some [Some ''HOL.List'']) ''HOL'' (blank_client (0, \<lambda>_. []) demo_dir))"

definition demo_open :: "pystr \<Rightarrow> (nat, nat \<times> (nat \<Rightarrow> pystr list)) local_client \<Rightarrow> (nat, nat \<times> (nat \<Rightarrow> pystr list)) local_client" where
  "demo_open sid c = snd (create_local_session demo_sys sid None ''HOL'' c)"

definition demo_close :: "pystr \<Rightarrow> (nat, nat \<times> (nat \<Rightarrow> pystr list)) local_client \<Rightarrow> (nat, nat \<times> (nat \<Rightarrow> pystr list)) local_client" where
  "demo_close sid c = snd (close_local_session demo_sys sid c)"

definition ended_well :: "(exn + 'a) \<times> 's \<Rightarrow> bool" where
  "ended_well out = (case fst out of Inr v \<Rightarrow> True | Inl e \<Rightarrow> False)"

lemma ended_wellD: "ended_well out \<Longrightarrow> \<exists>v. out = (Inr v, snd out)"
  by (cases out) (auto simp: ended_well_def split: sum.splits)

lemma demo_born: "ended_well (IsabelleClient demo_sys True (Some [Some ''HOL.List'']) ''HOL'' (blank_client (0, \<lambda>_. []) demo_dir))"
  by code_simp

lemma demo_life: "client_life demo_sys demo_client"
  using client_life.born ended_wellD [OF demo_born] unfolding demo_client_def by (metis (full_types) old.unit.exhaust)

lemma demo_open_life: "client_life demo_sys (demo_open ''s1'' demo_client)"
  unfolding demo_open_def by (rule client_life.created, rule demo_life)

text \<open>What the witnesses ask of a client, evaluated once for each.\<close>

definition facts_of :: "(nat, nat \<times> (nat \<Rightarrow> pystr list)) local_client
    \<Rightarrow> (bool \<times> bool \<times> bool \<times> pystr option) \<times> (pystr option option \<times> bool \<times> bool \<times> bool)" where
  "facts_of c = ((lc_multi c, lc_gateway c, ly_ended demo_sys (lc_world c), lc_current c),
     (map_option ls_wrapper (od_get ''s1'' (lc_sessions c)), ''s1'' \<in> set (created_files (lc_gen c)),
      ''s1'' \<in> set (od_keys (lc_sessions c)), ''s1'' \<in> set (od_keys (lc_dir c))))"

lemma demo_open_facts:
  "facts_of (demo_open ''s1'' demo_client) = ((True, True, False, Some ''s1''), (Some (Some ''s1''), True, True, True))"
  by code_simp

lemma demo_client_facts: "facts_of demo_client = ((True, True, False, None), (None, False, False, False))"
  by code_simp

lemma demo_facts:
  "lc_multi (demo_open ''s1'' demo_client)" "lc_gateway (demo_open ''s1'' demo_client)"
  "\<not> ly_ended demo_sys (lc_world (demo_open ''s1'' demo_client))" "lc_current (demo_open ''s1'' demo_client) = Some ''s1''"
  "map_option ls_wrapper (od_get ''s1'' (lc_sessions (demo_open ''s1'' demo_client))) = Some (Some ''s1'')"
  "''s1'' \<in> set (created_files (lc_gen (demo_open ''s1'' demo_client)))"
  using demo_open_facts by (simp_all add: facts_of_def)

theorem current_session_found_witness:
  "\<exists>s. od_get ''s1'' (lc_sessions (demo_open ''s1'' demo_client)) = Some s \<and>
     fst (get_current_session (demo_open ''s1'' demo_client)) = Inr (ls_backend s)"
  using current_session_found [OF demo_open_life demo_facts(1)] demo_facts(4) by simp

definition value_of :: "(exn + 'a) \<times> 's \<Rightarrow> 'a option" where
  "value_of out = (case fst out of Inr v \<Rightarrow> Some v | Inl e \<Rightarrow> None)"

lemma demo_ends:
  "ended_well (create_local_session demo_sys ''s1'' None ''HOL'' demo_client)"
  "value_of (close_local_session demo_sys ''s1'' (demo_open ''s1'' demo_client)) = Some True" "''s1'' \<notin> set thys_pool"
  by code_simp+

lemma demo_round:
  "ended_well (create_local_session demo_sys ''s1'' None ''HOL'' demo_client)"
  "ended_well (close_local_session demo_sys ''s1'' (demo_open ''s1'' demo_client))"
  "fst (close_local_session demo_sys ''s1'' (demo_open ''s1'' demo_client)) = Inr True"
  "''s1'' \<notin> set (od_keys (lc_sessions demo_client))" "''s1'' \<notin> set (od_keys (lc_dir demo_client))"
  "''s1'' \<notin> set (created_files (lc_gen demo_client))" "lc_current demo_client \<noteq> Some ''s1''" "''s1'' \<notin> set thys_pool"
  using demo_ends demo_client_facts by (simp_all add: facts_of_def value_of_def ended_well_def split: sum.splits)

lemma demo_unlink: "fst (ly_unlink demo_sys f w) = Inr ()"
  by (simp add: demo_sys_def)

theorem create_close_roundtrip_witness:
  "lc_dir (demo_close ''s1'' (demo_open ''s1'' demo_client)) = lc_dir demo_client \<and>
   lc_sessions (demo_close ''s1'' (demo_open ''s1'' demo_client)) = lc_sessions demo_client"
proof -
  obtain r where opened: "create_local_session demo_sys ''s1'' None ''HOL'' demo_client = (Inr r, demo_open ''s1'' demo_client)"
    using ended_wellD [OF demo_round(1)] by (auto simp: demo_open_def)
  have closed: "close_local_session demo_sys ''s1'' (demo_open ''s1'' demo_client) = (Inr True, demo_close ''s1'' (demo_open ''s1'' demo_client))"
    using demo_round(3) by (simp add: demo_close_def prod_eq_iff)
  show ?thesis using create_close_roundtrip [OF opened closed demo_round(4-8) demo_unlink] by blast
qed

theorem end_closes_every_session_witness:
  "\<exists>c'. client_cleanup demo_sys (demo_open ''s1'' demo_client) = (Inr (), c') \<and> lc_sessions c' = [] \<and> od_get ''s1'' (lc_dir c') = None"
proof -
  obtain s where "od_get ''s1'' (lc_sessions (demo_open ''s1'' demo_client)) = Some s" "ls_wrapper s = Some ''s1''"
    using demo_facts(5) by auto
  then show ?thesis
    using end_closes_every_session [OF demo_open_life demo_facts(1-3)] demo_facts(6) demo_round(8) demo_unlink by blast
qed

definition demo_proof :: "(exn + proof_result) \<times> ((nat, nat \<times> (nat \<Rightarrow> pystr list)) local_client, counters) arena" where
  "demo_proof = prove_theorem (gym_of demo_sys) (SimpleIsabelleAgent \<lparr>has_forall = (\<lambda>_. False), has_con_dis = (\<lambda>_. False)\<rparr>)
     (demo_limits 2) ''lemma a'' \<lparr>world = demo_open ''s1'' demo_client, mind = (\<lambda>_. 0), self = fresh_agent\<rparr>"

lemma demo_proof_success: "(case fst demo_proof of Inr r \<Rightarrow> pf_success r | Inl e \<Rightarrow> False)"
  by code_simp

lemma demo_steady_backends: "steady_backends demo_sys"
  by (simp add: steady_backends_def demo_sys_def)


section \<open>What is left behind\<close>

text \<open>In the multi-session mode the cleanup never removes the wrapper of the main session.\<close>

theorem main_wrapper_left:
  "lc_sessions (snd (client_cleanup demo_sys demo_client)) = [] \<and>
   od_get ''main'' (lc_dir (snd (client_cleanup demo_sys demo_client))) \<noteq> None \<and> od_get ''main'' demo_dir = None"
  by code_simp

text \<open>A session the gateway refuses leaves its wrapper: no session owns it, so no close and no cleanup deletes it.\<close>

theorem refused_session_leaves_wrapper:
  assumes "lc_multi c" and "session_deps thys c \<noteq> []" and "sid \<notin> set thys_pool" and "\<And>w. fst (ly_write sys sid w) = Inr ()"
    and "\<And>thys fld w. fst (ly_make sys True thys fld w) = Inl e" and "sid \<noteq> []"
  shows "\<exists>c'. create_local_session sys sid thys fld c = (Inl e, c') \<and> lc_sessions c' = lc_sessions c \<and>
    od_get sid (lc_dir c') \<noteq> None \<and> sid \<in> set (created_files (lc_gen c'))"
  using assms(1-3,6) assms(4) [of "lc_world c"] assms(5)
  by (simp add: create_local_session_def only_multi_def build_loaded_theories_def local_gen_file_def client_run outside_def
      session_deps_def Let_def split_beta)

text \<open>A second session with the same identifier and no theories forgets the wrapper of the first.\<close>

definition demo_twice :: "(nat, nat \<times> (nat \<Rightarrow> pystr list)) local_client" where
  "demo_twice = snd (create_local_session demo_sys ''s1'' (Some []) ''HOL'' (demo_open ''s1'' demo_client))"

theorem reused_name_leaves_wrapper:
  "lc_sessions (snd (client_cleanup demo_sys demo_twice)) = [] \<and> od_get ''s1'' (lc_dir (snd (client_cleanup demo_sys demo_twice))) \<noteq> None"
  by code_simp

text \<open>The identifier is the name of the wrapper file: a session called like a theory of the repository overwrites it and deletes
  it when it is closed, here the template every later client reads.\<close>

theorem template_deleted:
  "od_get ''init'' (lc_dir demo_client) \<noteq> None \<and> od_get ''init'' (lc_dir (demo_close ''init'' (demo_open ''init'' demo_client))) = None"
  by code_simp

end
