(* ===== verification/Mcts_Agent.thy ===== *)
theory Mcts_Agent
  imports Gym_Agent
begin

text \<open>
  Proof search by Monte Carlo tree search (\<open>evaluation/local_gym/mcts_agent.py\<close>): the tree of contexts, backing up the value of
  a new node along the path that led to it, the search loop of \<open>MCTSIsabelleAgent.prove_theorem\<close>, and the UCB rule and the
  tactics of \<open>SimpleMCTSIsabelleAgent\<close>.

  The objects that point to their parents and children become a datatype, and a trajectory of \<open>select\<close> the path of child
  numbers from the root to its last node, whose prefixes are the other nodes. The abstract methods are the parameter
  \<open>mcts_class\<close>; the random numbers and the name of the theory are \<open>dice\<close> and \<open>thy_name\<close> of the gym. Floats are reals, and an
  infinite score is \<open>None\<close>. The messages of the verbose mode are left out.
\<close>

section \<open>The tree\<close>

record mcts_context = proof_context +
  visit_count :: nat
  total_value :: real
  parent_goal :: "int option"
  exhausted :: bool
  subtree_exhausted :: bool
  feedback :: "pystr option"
  trials :: "nat list"

datatype mcts_tree = Node (ctx: mcts_context) (kids: "mcts_tree list")

type_synonym path = "nat list"

text \<open>\<open>__post_init__\<close> for the attributes the constructor is given; the others have their defaults.\<close>

definition MCTSProofContext :: "pystr list \<Rightarrow> real list \<Rightarrow> pystr \<Rightarrow> nat \<Rightarrow> int option \<Rightarrow> mcts_context" where
  "MCTSProofContext goals prios thm_text depth pg =
     \<lparr>subgoals = goals,
      priorities = (if length prios \<noteq> length goals then replicate (length goals) 1 else prios),
      current_theorem = thm_text, proof_depth = depth, solved = replicate (length goals) False,
      attempted_tactics = [], successful_tactics = [], visit_count = 1, total_value = 0, parent_goal = pg,
      exhausted = False, subtree_exhausted = False, feedback = None, trials = replicate (length goals) 0\<rparr>"

definition base :: "mcts_context \<Rightarrow> proof_context" where
  "base c = proof_context.truncate c"

definition get_mean_value :: "mcts_context \<Rightarrow> real" where
  "get_mean_value c = (if visit_count c = 0 then 0 else total_value c / real (visit_count c))"

definition is_expanded :: "mcts_tree \<Rightarrow> bool" where
  "is_expanded t = (0 < length (kids t))"

fun node_at :: "mcts_tree \<Rightarrow> path \<Rightarrow> mcts_tree option" where
  "node_at t [] = Some t"
| "node_at (Node c ks) (i # p) = (if i < length ks then node_at (ks ! i) p else None)"

fun update_at :: "(mcts_tree \<Rightarrow> mcts_tree) \<Rightarrow> path \<Rightarrow> mcts_tree \<Rightarrow> mcts_tree" where
  "update_at f [] t = f t"
| "update_at f (i # p) (Node c ks) = Node c (if i < length ks then ks[i := update_at f p (ks ! i)] else ks)"

definition all_kids_exhausted :: "mcts_tree list \<Rightarrow> bool" where
  "all_kids_exhausted ks = list_all (\<lambda>k. subtree_exhausted (ctx k)) ks"

text \<open>One state of the trajectory in \<open>backup\<close>: its children are those from before the states after it are updated.\<close>

definition back_up_one :: "real \<Rightarrow> mcts_context \<Rightarrow> mcts_tree list \<Rightarrow> mcts_context" where
  "back_up_one v c ks =
     (let c1 = c\<lparr>total_value := total_value c + v, visit_count := visit_count c + 1\<rparr> in
      if ks \<noteq> [] then c1\<lparr>subtree_exhausted := (all_kids_exhausted ks \<and> exhausted c1)\<rparr> else c1)"

fun backup :: "path \<Rightarrow> real \<Rightarrow> mcts_tree \<Rightarrow> mcts_tree" where
  "backup [] v (Node c ks) = Node (back_up_one v c ks) ks"
| "backup (i # p) v (Node c ks) =
     Node (back_up_one v c ks) (if i < length ks then ks[i := backup p v (ks ! i)] else ks)"

section \<open>The search\<close>

record 'w mcts_gym = "'w gym_api" +
  dice :: "'w \<Rightarrow> int \<times> 'w"
  thy_name :: "'w \<Rightarrow> (exn + pystr) \<times> 'w"

text \<open>The tree of the search is kept beside the agent's own attributes.\<close>

type_synonym ('w, 'm, 'a) mcts_act = "('w, 'm \<times> mcts_tree, 'a) act"

record ('w, 'm) mcts_class =
  mc_estimate :: "mcts_context \<Rightarrow> ('w, 'm, mcts_context) mcts_act"
  mc_select :: "mcts_tree \<Rightarrow> ('w, 'm, path) mcts_act"
  mc_recommend :: "mcts_context \<Rightarrow> int \<Rightarrow> ('w, 'm, pystr option) mcts_act"
  mc_priorities :: "mcts_context \<Rightarrow> ('w, 'm, real list) mcts_act"

definition get_tree :: "('w, 'm, mcts_tree) mcts_act" where
  "get_tree = fetch (\<lambda>st. snd (mind st))"

definition on_tree :: "(mcts_tree \<Rightarrow> mcts_tree) \<Rightarrow> ('w, 'm, unit) mcts_act" where
  "on_tree f = change (\<lambda>st. st\<lparr>mind := (fst (mind st), f (snd (mind st)))\<rparr>)"

definition on_node :: "path \<Rightarrow> (mcts_context \<Rightarrow> mcts_context) \<Rightarrow> ('w, 'm, unit) mcts_act" where
  "on_node p f = on_tree (update_at (\<lambda>t. Node (f (ctx t)) (kids t)) p)"

text \<open>The node as it is now; \<open>c\<close> is what it was.\<close>

definition context_at :: "path \<Rightarrow> mcts_context \<Rightarrow> ('w, 'm, mcts_context) mcts_act" where
  "context_at p c = fetch (\<lambda>st. case node_at (snd (mind st)) p of None \<Rightarrow> c | Some n \<Rightarrow> ctx n)"

definition add_kid :: "path \<Rightarrow> mcts_context \<Rightarrow> ('w, 'm, unit) mcts_act" where
  "add_kid p c = on_tree (update_at (\<lambda>t. Node (ctx t) (kids t @ [Node c []])) p)"

definition mcts_result :: "bool \<Rightarrow> real \<Rightarrow> nat \<Rightarrow> nat \<Rightarrow> pystr \<Rightarrow> pystr option \<Rightarrow> proof_result" where
  "mcts_result good dur steps len final_text msg =
     \<lparr>pf_success = good, pf_duration = dur, pf_steps = steps, pf_length = len, pf_state = final_text, pf_attempts = 0,
      pf_successful = 0, pf_failed = 0, pf_priority_updates = 0, pf_cache_hit_rate = 0, pf_reward = 0, pf_guidance_calls = 0,
      pf_recommendations = [], pf_error = msg\<rparr>"

text \<open>The results that end a search: its duration is read before the source.\<close>

definition search_result :: "'w mcts_gym \<Rightarrow> real \<Rightarrow> bool \<Rightarrow> nat \<Rightarrow> nat \<Rightarrow> pystr option \<Rightarrow> ('w, 'm, proof_result) mcts_act" where
  "search_result api start good steps len msg =
     andThen (now (gym_api.truncate api)) (\<lambda>t.
     andThen (ask_gym (g_source api)) (\<lambda>src.
     andThen (fetch self) (\<lambda>a.
     ret ((mcts_result good (t - start) steps len src msg)
       \<lparr>pf_guidance_calls := priority_calls a, pf_recommendations := tactic_history a\<rparr>))))"

definition early_failure :: "'w mcts_gym \<Rightarrow> real \<Rightarrow> pystr \<Rightarrow> ('w, 'm, proof_result) mcts_act" where
  "early_failure api start msg =
     andThen (now (gym_api.truncate api)) (\<lambda>t. ret (mcts_result False (t - start) 0 0 [] (Some msg)))"

text \<open>Expansion: one tactic on the gym. \<open>except Exception\<close> notes the error at the node and the search goes on.\<close>

definition expand_node :: "'w mcts_gym \<Rightarrow> ('w, 'm) mcts_class \<Rightarrow> path \<Rightarrow> mcts_context \<Rightarrow> nat \<Rightarrow> pystr \<Rightarrow> ('w, 'm, unit) mcts_act" where
  "expand_node api cls p c goal tactic =
     catch
       (andThen (on_node p (\<lambda>c. c\<lparr>trials := (trials c)[goal := trials c ! goal + 1]\<rparr>)) (\<lambda>_.
        andThen (ask_gym (g_goals api)) (\<lambda>_.
        andThen (ask_gym (g_step api tactic)) (\<lambda>res.
        if local_syntax_ok res
        then
          andThen (ask_gym (g_goals api)) (\<lambda>goals.
          andThen (if length goals \<le> 1 then ret (replicate (length goals) 0)
                   else andThen (andThen (context_at p c) (mc_priorities cls)) (\<lambda>ps.
                     andThen (on_self (\<lambda>a. a\<lparr>priority_calls := priority_calls a + 1\<rparr>)) (\<lambda>_. ret ps))) (\<lambda>prios.
          andThen (mc_estimate cls (MCTSProofContext goals prios (current_theorem c @ [CHR 0x0A] @ tactic) (proof_depth c + 1)
              (Some (int goal)))) (\<lambda>child.
          andThen (add_kid p child) (\<lambda>_.
          andThen (on_self (\<lambda>a. a\<lparr>tactic_history := tactic_history a @ [goal_line (int goal) tactic]\<rparr>)) (\<lambda>_.
          on_tree (backup p (total_value child)))))))
        else andThen (from_result (rr_str res)) (\<lambda>s. on_node p (\<lambda>c. c\<lparr>feedback := Some s\<rparr>))))))
       (\<lambda>e. on_node p (\<lambda>c. c\<lparr>feedback := Some (str_of e)\<rparr>))"

text \<open>One step of the search on the selected node: the length of its proof if it is complete.\<close>

definition search_step :: "'w mcts_gym \<Rightarrow> ('w, 'm) mcts_class \<Rightarrow> nat \<Rightarrow> ('w, 'm, nat option) mcts_act" where
  "search_step api cls max_trials =
     andThen get_tree (\<lambda>t.
     andThen (mc_select cls t) (\<lambda>p.
     andThen get_tree (\<lambda>t. case node_at t p of
       None \<Rightarrow> throw (Exn (C_Foreign ''IndexError'') ''list index out of range'')
     | Some n \<Rightarrow>
        let c = ctx n in
        if is_complete (base c) then ret (Some (proof_depth c))
        else
          let goal = active_goal_id (base c) in
          if goal < 0
          then andThen (on_node p (\<lambda>c. c\<lparr>exhausted := True, subtree_exhausted := True\<rparr>)) (\<lambda>_. ret None)
          else
            andThen (if max_trials < trials c ! nat goal then ret None else mc_recommend cls c goal) (\<lambda>tac.
            if \<not> truthy tac
            then andThen (on_tree (update_at (\<lambda>t. Node ((ctx t)\<lparr>feedback := None, exhausted := True,
                   subtree_exhausted := all_kids_exhausted (kids t)\<rparr>) (kids t)) p)) (\<lambda>_. ret None)
            else
              let tactic = or_else tac [] in
              andThen (on_node p (\<lambda>c. if tactic \<in> set (attempted_tactics c) then c
                                       else c\<lparr>attempted_tactics := attempted_tactics c @ [tactic]\<rparr>)) (\<lambda>_.
              andThen (expand_node api cls p c (nat goal) tactic) (\<lambda>_. ret None))))))"

fun search_loop :: "'w mcts_gym \<Rightarrow> ('w, 'm) mcts_class \<Rightarrow> nat \<Rightarrow> nat \<Rightarrow> real \<Rightarrow> nat \<Rightarrow> nat \<Rightarrow> ('w, 'm, proof_result) mcts_act" where
  "search_loop api cls steps max_trials start 0 k =
     andThen get_tree (\<lambda>t. search_result api start False steps (proof_depth (ctx t)) (Some ''MCTS search steps exhausted''))"
| "search_loop api cls steps max_trials start (Suc n) k =
     andThen (search_step api cls max_trials) (\<lambda>found. case found of
       Some len \<Rightarrow> search_result api start True k len None
     | None \<Rightarrow> search_loop api cls steps max_trials start n (Suc k))"

definition tree_search_from :: "'w mcts_gym \<Rightarrow> ('w, 'm) mcts_class \<Rightarrow> nat \<Rightarrow> nat \<Rightarrow> real \<Rightarrow> pystr list \<Rightarrow> pystr
    \<Rightarrow> ('w, 'm, proof_result) mcts_act" where
  "tree_search_from api cls steps max_trials start goals thm_text =
     andThen (mc_estimate cls (MCTSProofContext goals (replicate (length goals) 0) thm_text 0 None)) (\<lambda>root.
     andThen (on_tree (\<lambda>_. Node root [])) (\<lambda>_. search_loop api cls steps max_trials start steps 0))"

definition mcts_prove_theorem :: "'w mcts_gym \<Rightarrow> ('w, 'm) mcts_class \<Rightarrow> nat \<Rightarrow> nat \<Rightarrow> pystr \<Rightarrow> ('w, 'm, proof_result) mcts_act" where
  "mcts_prove_theorem api cls steps max_trials thm_text =
     andThen (now (gym_api.truncate api)) (\<lambda>start.
     andThen reset_session (\<lambda>_.
     andThen (ask_gym (thy_name api)) (\<lambda>_.
     andThen (ask_gym (g_goals api)) (\<lambda>goals.
     if goals \<noteq> [] then tree_search_from api cls steps max_trials start goals thm_text
     else
       andThen (ask_gym (g_step api thm_text)) (\<lambda>res.
       if \<not> local_syntax_ok res then early_failure api start (''Failed to start theorem: '' @ local_error_message res)
       else
         andThen (ask_gym (g_goals api)) (\<lambda>goals.
         if goals = []
         then early_failure api start ''Failed to start theorem: No subgoals generated after theorem statement''
         else tree_search_from api cls steps max_trials start goals thm_text))))))"

section \<open>The simple agent\<close>

definition primary_tactics :: "pystr list" where
  "primary_tactics = [''by auto'', ''by simp'', ''by blast'']"

definition secondary_tactics :: "pystr list" where
  "secondary_tactics = []"

definition specialized_tactics :: "pystr list" where
  "specialized_tactics = []"

text \<open>\<open>random.random()\<close>: a multiple of \<open>1 / 2 ^ 53\<close> below 1.\<close>

definition roll :: "'w mcts_gym \<Rightarrow> ('w, 'm, real) mcts_act" where
  "roll api st = (case dice api (world st) of (n, w) \<Rightarrow> (Inr (real_of_int (n mod 2 ^ 53) / 2 ^ 53), st\<lparr>world := w\<rparr>))"

definition simple_estimate :: "'w mcts_gym \<Rightarrow> mcts_context \<Rightarrow> ('w, 'm, mcts_context) mcts_act" where
  "simple_estimate api c =
     (if is_complete (base c) then ret (c\<lparr>total_value := 1\<rparr>)
      else andThen (roll api) (\<lambda>x.
        let heuristic = 1 / (1 + real (length (subgoals c))); noise = x * (3 / 10) in
        ret (c\<lparr>total_value := heuristic + noise\<rparr>)))"

text \<open>The comparison of scores and \<open>max(indices, key=score)\<close>, the first of the greatest; \<open>None\<close> is infinity.\<close>

definition score_less :: "real option \<Rightarrow> real option \<Rightarrow> bool" where
  "score_less x y = (case x of None \<Rightarrow> False | Some a \<Rightarrow> (case y of None \<Rightarrow> True | Some b \<Rightarrow> a < b))"

fun best_index :: "(nat \<Rightarrow> real option) \<Rightarrow> nat \<Rightarrow> nat list \<Rightarrow> nat" where
  "best_index f m [] = m"
| "best_index f m (i # is) = best_index f (if score_less (f m) (f i) then i else m) is"

definition explore :: "nat \<Rightarrow> nat \<Rightarrow> real" where
  "explore n k = sqrt (ln (real n) / real k)"

text \<open>The first visit, which is all that is evaluated below, explores nothing.\<close>

lemma explore_code [code]: "explore n k = (if n = 1 then 0 else Code.abort (STR ''sqrt'') (\<lambda>_. explore n k))"
  by (simp add: explore_def)

definition root_ucb :: "real \<Rightarrow> mcts_context \<Rightarrow> real option" where
  "root_ucb c_puct c =
     (if 0 < visit_count c
      then Some (total_value c / real (visit_count c) + c_puct * explore (visit_count c) (visit_count c))
      else None)"

definition child_ucb :: "real \<Rightarrow> mcts_context \<Rightarrow> mcts_context \<Rightarrow> real option" where
  "child_ucb c_puct node child =
     (if 0 < visit_count child \<and> 0 < visit_count node
      then Some (total_value child / real (visit_count child) + c_puct * explore (visit_count node) (visit_count child))
      else None)"

definition available_children :: "mcts_tree list \<Rightarrow> nat list" where
  "available_children ks = filter (\<lambda>i. \<not> subtree_exhausted (ctx (ks ! i))) [0..<length ks]"

fun ucb_path :: "real \<Rightarrow> mcts_tree \<Rightarrow> real option \<Rightarrow> path" where
  "ucb_path c_puct (Node c ks) current =
     (if ks = [] then []
      else case available_children ks of
        [] \<Rightarrow> []
      | i # is \<Rightarrow>
          let ucb = (\<lambda>j. child_ucb c_puct c (ctx (ks ! j))); best = best_index ucb i is in
          if score_less (ucb best) current \<and> \<not> exhausted c then []
          else best # (map (ucb_path c_puct) ks ! best) (ucb best))"

definition simple_select :: "real \<Rightarrow> mcts_tree \<Rightarrow> ('w, 'm, path) mcts_act" where
  "simple_select c_puct t = ret (ucb_path c_puct t (root_ucb c_puct (ctx t)))"

definition mcts_tactics :: "pystr \<Rightarrow> pystr list" where
  "mcts_tactics goal =
     (if contains ''True'' goal then primary_tactics
      else if length (words_of goal) \<le> 3 then primary_tactics @ secondary_tactics
      else primary_tactics @ secondary_tactics @ specialized_tactics)"

text \<open>The first tactic from index \<open>k\<close> that the node has not attempted, with its index.\<close>

fun next_untried :: "pystr list \<Rightarrow> nat \<Rightarrow> pystr list \<Rightarrow> (nat \<times> pystr) option" where
  "next_untried tried k [] = None"
| "next_untried tried k (t # ts) = (if t \<notin> set tried then Some (k, t) else next_untried tried (Suc k) ts)"

definition mcts_recommend :: "mcts_context \<Rightarrow> int \<Rightarrow> ('w, counters, pystr option) mcts_act" where
  "mcts_recommend c goal =
     (if int (length (subgoals c)) \<le> goal then ret None
      else
        let key = (subgoals c, goal); tactics = mcts_tactics (subgoals c ! nat goal) in
        andThen (fetch (\<lambda>st. fst (mind st) key)) (\<lambda>k.
        case next_untried (attempted_tactics c) k (drop k tactics) of
          None \<Rightarrow> ret None
        | Some (i, t) \<Rightarrow>
            andThen (change (\<lambda>st. st\<lparr>mind := ((fst (mind st))(key := i + 1), snd (mind st))\<rparr>)) (\<lambda>_. ret (Some t))))"

definition zero_priorities :: "mcts_context \<Rightarrow> ('w, 'm, real list) mcts_act" where
  "zero_priorities c = ret (map (\<lambda>_. 0) (subgoals c))"

definition SimpleMCTSIsabelleAgent :: "'w mcts_gym \<Rightarrow> real \<Rightarrow> ('w, counters) mcts_class" where
  "SimpleMCTSIsabelleAgent api c_puct =
     \<lparr>mc_estimate = simple_estimate api, mc_select = simple_select c_puct, mc_recommend = mcts_recommend,
      mc_priorities = zero_priorities\<rparr>"

end
