(* ===== verification/Mcts_Properties.thy ===== *)
theory Mcts_Properties
  imports Mcts_Agent Agent_Properties
begin

text \<open>
  What the tree search of \<open>Mcts_Agent\<close> guarantees. The locale \<open>tree_search\<close> is the contract of the abstract methods: \<open>select\<close>
  answers a path of the tree, \<open>estimate\<close> only sets a value between 0 and 1, and none of them changes the tree. Under it every
  node has been visited once for itself and once for each node below it, its mean value stays between 0 and 1, and no goal is
  tried more than once above the limit. The UCB rule and the heuristic of \<open>SimpleMCTSIsabelleAgent\<close> fulfil the contract.
\<close>

section \<open>The tree invariant\<close>

fun nodes :: "mcts_tree \<Rightarrow> nat" where
  "nodes (Node c ks) = 1 + sum_list (map nodes ks)"

definition context_ok :: "(pystr list \<Rightarrow> bool) \<Rightarrow> nat \<Rightarrow> mcts_context \<Rightarrow> bool" where
  "context_ok Q m c \<longleftrightarrow>
     Q (subgoals c) \<and> solved c = replicate (length (subgoals c)) False \<and> length (trials c) = length (subgoals c) \<and>
     (\<forall>k \<in> set (trials c). k \<le> m + 1)"

fun tree_ok :: "(pystr list \<Rightarrow> bool) \<Rightarrow> nat \<Rightarrow> mcts_tree \<Rightarrow> bool" where
  "tree_ok Q m (Node c ks) \<longleftrightarrow>
     context_ok Q m c \<and> visit_count c = 1 + sum_list (map nodes ks) \<and>
     0 \<le> total_value c \<and> total_value c \<le> real (visit_count c) \<and>
     (\<forall>k \<in> set ks. tree_ok Q m k \<and> proof_depth (ctx k) = proof_depth c + 1)"

lemma nodes_pos: "0 < nodes t"
  by (cases t) simp

lemma tree_ok_node:
  "\<lbrakk>tree_ok Q m t; node_at t p = Some n\<rbrakk> \<Longrightarrow> tree_ok Q m n"
  by (induction t p rule: node_at.induct) (auto split: if_splits)

lemma tree_ok_top:
  assumes "tree_ok Q m t"
  shows "context_ok Q m (ctx t) \<and> visit_count (ctx t) = nodes t \<and> 0 \<le> total_value (ctx t) \<and>
    total_value (ctx t) \<le> real (visit_count (ctx t))"
  using assms by (cases t) simp

lemma sum_list_update_nat:
  "i < length xs \<Longrightarrow> sum_list (xs[i := (v :: nat)]) + xs ! i = sum_list xs + v"
  by (induction xs arbitrary: i) (auto split: nat.split simp: add.commute)

text \<open>A change of one node that keeps its number of nodes and its depth.\<close>

lemma update_at_ok:
  assumes "tree_ok Q m t" and "node_at t p = Some n"
    and "tree_ok Q m (f n)" and "nodes (f n) = nodes n" and "proof_depth (ctx (f n)) = proof_depth (ctx n)"
  shows "tree_ok Q m (update_at f p t) \<and> nodes (update_at f p t) = nodes t \<and>
    proof_depth (ctx (update_at f p t)) = proof_depth (ctx t) \<and> node_at (update_at f p t) p = Some (f n)"
  using assms
proof (induction t p rule: node_at.induct)
  case (2 c ks i p)
  then have i: "i < length ks" and sub: "node_at (ks ! i) p = Some n" by (auto split: if_splits)
  have kid: "tree_ok Q m (ks ! i)" "proof_depth (ctx (ks ! i)) = proof_depth c + 1" using 2(2) i by auto
  let ?k = "update_at f p (ks ! i)"
  have ih: "tree_ok Q m ?k" "nodes ?k = nodes (ks ! i)" "proof_depth (ctx ?k) = proof_depth c + 1" "node_at ?k p = Some (f n)"
    using 2(1) [OF i kid(1) sub 2(4-6)] kid(2) by auto
  have sum: "sum_list (map nodes (ks[i := ?k])) = sum_list (map nodes ks)"
    using sum_list_update_nat [of i "map nodes ks" "nodes ?k"] ih(2) i by (simp add: map_update)
  have "\<forall>k \<in> set (ks[i := ?k]). tree_ok Q m k \<and> proof_depth (ctx k) = proof_depth c + 1"
    using set_update_subset_insert [of ks i ?k] 2(2) ih(1,3) by auto
  then show ?case using 2(2) i sum ih(4) by simp
qed simp

text \<open>A new node below the node at the end of the path, and its value backed up.\<close>

definition grow :: "path \<Rightarrow> mcts_context \<Rightarrow> mcts_tree \<Rightarrow> mcts_tree" where
  "grow p c t = backup p (total_value c) (update_at (\<lambda>t. Node (ctx t) (kids t @ [Node c []])) p t)"

lemma context_ok_back_up [simp]: "context_ok Q m (back_up_one v c ks) = context_ok Q m c"
  by (simp add: back_up_one_def context_ok_def Let_def)

lemma back_up_one_fields [simp]:
  "visit_count (back_up_one v c ks) = visit_count c + 1" "total_value (back_up_one v c ks) = total_value c + v"
  "proof_depth (back_up_one v c ks) = proof_depth c"
  by (simp_all add: back_up_one_def Let_def)

lemma grow_ok:
  assumes "tree_ok Q m t" and "node_at t p = Some n" and "context_ok Q m c" and "visit_count c = 1"
    and "0 \<le> total_value c" and "total_value c \<le> 1" and "proof_depth c = proof_depth (ctx n) + 1"
  shows "tree_ok Q m (grow p c t) \<and> nodes (grow p c t) = nodes t + 1 \<and> proof_depth (ctx (grow p c t)) = proof_depth (ctx t)"
  using assms
proof (induction t p rule: node_at.induct)
  case (1 t)
  then show ?case by (cases t) (auto simp: grow_def)
next
  case (2 d ks i p)
  then have i: "i < length ks" and sub: "node_at (ks ! i) p = Some n" by (auto split: if_splits)
  have kid: "tree_ok Q m (ks ! i)" "proof_depth (ctx (ks ! i)) = proof_depth d + 1" using 2(2) i by auto
  let ?k = "grow p c (ks ! i)"
  have ih: "tree_ok Q m ?k" "nodes ?k = nodes (ks ! i) + 1" "proof_depth (ctx ?k) = proof_depth d + 1"
    using 2(1) [OF i kid(1) sub 2(4-8)] kid(2) by auto
  have run: "\<exists>d'. grow (i # p) c (Node d ks) = Node d' (ks[i := ?k]) \<and> context_ok Q m d' = context_ok Q m d \<and>
      visit_count d' = visit_count d + 1 \<and> total_value d' = total_value d + total_value c \<and> proof_depth d' = proof_depth d"
    using i by (simp add: grow_def)
  have "sum_list (map nodes (ks[i := ?k])) = sum_list (map nodes ks) + 1"
    using sum_list_update_nat [of i "map nodes ks" "nodes ?k"] ih(2) i by (simp add: map_update)
  moreover have "\<forall>k \<in> set (ks[i := ?k]). tree_ok Q m k \<and> proof_depth (ctx k) = proof_depth d + 1"
    using set_update_subset_insert [of ks i ?k] 2(2) ih(1,3) by auto
  ultimately show ?case using 2(2,6,7) run by auto
qed

section \<open>The contract of the abstract methods\<close>

definition the_tree :: "('w, 'm \<times> mcts_tree) arena \<Rightarrow> mcts_tree" where
  "the_tree st = snd (mind st)"

definition answers :: "(pystr list \<Rightarrow> bool) \<Rightarrow> 'w mcts_gym \<Rightarrow> bool" where
  "answers Q api \<longleftrightarrow> (\<forall>w gs. fst (g_goals api w) = Inr gs \<longrightarrow> Q gs)"

text \<open>The invariant of the search: the tree is well formed, and it has grown by at most one node per step.\<close>

definition search_inv :: "(pystr list \<Rightarrow> bool) \<Rightarrow> nat \<Rightarrow> nat \<Rightarrow> ('w, 'm \<times> mcts_tree) arena \<Rightarrow> bool" where
  "search_inv Q m n st \<longleftrightarrow> tree_ok Q m (the_tree st) \<and> nodes (the_tree st) \<le> n"

definition at_node :: "(pystr list \<Rightarrow> bool) \<Rightarrow> nat \<Rightarrow> nat \<Rightarrow> path \<Rightarrow> nat \<Rightarrow> ('w, 'm \<times> mcts_tree) arena \<Rightarrow> bool" where
  "at_node Q m n p d st \<longleftrightarrow> search_inv Q m n st \<and> (\<exists>x. node_at (the_tree st) p = Some x \<and> proof_depth (ctx x) = d)"

lemma the_tree_frames [frame]:
  "keeps the_tree (ask_gym f)" "keeps the_tree (now g)" "keeps the_tree (on_self h)" "keeps the_tree get_tree"
  "keeps the_tree (context_at p c)" "keeps the_tree (roll api)"
  by (simp_all add: keeps_def the_tree_def ask_gym_def now_def on_self_def get_tree_def context_at_def roll_def change_def
      fetch_def split_beta)

lemma triple_tree:
  assumes "keeps the_tree op" and "\<And>st st'. the_tree st = the_tree st' \<Longrightarrow> P st = P st'"
  shows "triple P op (\<lambda>_. P) (\<lambda>_. P)"
  unfolding triple_def
proof (intro allI impI)
  fix s assume "P s"
  then have "P (snd (op s))" using assms(1) assms(2) [of "snd (op s)" s] by (simp add: keeps_def)
  then show "case op s of (Inr v, s') \<Rightarrow> P s' | (Inl e, s') \<Rightarrow> P s'"
    by (cases "op s"; cases "fst (op s)") auto
qed

lemma triple_vacuous: "(\<And>s. \<not> P s) \<Longrightarrow> triple P op Q E"
  by (simp add: triple_def)

lemma search_inv_tree: "the_tree st = the_tree st' \<Longrightarrow> search_inv Q m n st = search_inv Q m n st'"
  by (simp add: search_inv_def)

lemma at_node_tree: "the_tree st = the_tree st' \<Longrightarrow> at_node Q m n p d st = at_node Q m n p d st'"
  by (simp add: at_node_def search_inv_def)

lemma at_node_inv: "at_node Q m n p d st \<Longrightarrow> search_inv Q m (Suc n) st"
  by (auto simp: at_node_def search_inv_def)

lemma on_tree_run: "on_tree f st = (Inr (), st\<lparr>mind := (fst (mind st), f (the_tree st))\<rparr>)"
  by (simp add: on_tree_def change_def the_tree_def)

lemma the_tree_put [simp]: "the_tree (st\<lparr>mind := (x, t)\<rparr>) = t"
  by (simp add: the_tree_def)

text \<open>A change of the node that keeps its context well formed.\<close>

definition node_sat :: "path \<Rightarrow> (mcts_context \<Rightarrow> bool) \<Rightarrow> ('w, 'm \<times> mcts_tree) arena \<Rightarrow> bool" where
  "node_sat p B st \<longleftrightarrow> (\<forall>x. node_at (the_tree st) p = Some x \<longrightarrow> B (ctx x))"

lemma on_tree_ok:
  assumes "\<And>t. context_ok Q m (ctx t) \<Longrightarrow> B (ctx t) \<Longrightarrow> context_ok Q m (g t) \<and> proof_depth (g t) = proof_depth (ctx t) \<and>
      visit_count (g t) = visit_count (ctx t) \<and> total_value (g t) = total_value (ctx t) \<and> B' (g t)"
  shows "triple (\<lambda>st. at_node Q m n p d st \<and> node_sat p B st) (on_tree (update_at (\<lambda>t. Node (g t) (kids t)) p))
    (\<lambda>_ st. at_node Q m n p d st \<and> node_sat p B' st) E"
  unfolding triple_def
proof (intro allI impI)
  fix st :: "('a, 'b \<times> mcts_tree) arena"
  assume pre: "at_node Q m n p d st \<and> node_sat p B st"
  then obtain x where x: "tree_ok Q m (the_tree st)" "node_at (the_tree st) p = Some x" "proof_depth (ctx x) = d" "B (ctx x)"
    and size: "nodes (the_tree st) \<le> n" by (auto simp: at_node_def search_inv_def node_sat_def)
  let ?f = "\<lambda>t. Node (g t) (kids t)"
  have sub: "tree_ok Q m x" using tree_ok_node x(1,2) .
  then have ok: "context_ok Q m (ctx x)" using tree_ok_top by blast
  have g: "context_ok Q m (g x)" "proof_depth (g x) = proof_depth (ctx x)" "visit_count (g x) = visit_count (ctx x)"
      "total_value (g x) = total_value (ctx x)" "B' (g x)" using assms [OF ok x(4)] by auto
  then have "tree_ok Q m (?f x)" "nodes (?f x) = nodes x" "proof_depth (ctx (?f x)) = proof_depth (ctx x)"
    using sub by (cases x; simp)+
  from update_at_ok [where f = ?f, OF x(1,2) this]
  show "case on_tree (update_at ?f p) st of (Inr v, s') \<Rightarrow> at_node Q m n p d s' \<and> node_sat p B' s' | (Inl e, s') \<Rightarrow> E e s'"
    using x(3) size g(2,5) by (simp add: on_tree_run at_node_def search_inv_def node_sat_def)
qed

lemma on_node_ok:
  assumes "\<And>c. context_ok Q m c \<Longrightarrow> B c \<Longrightarrow> context_ok Q m (f c) \<and> proof_depth (f c) = proof_depth c \<and>
      visit_count (f c) = visit_count c \<and> total_value (f c) = total_value c \<and> B' (f c)"
  shows "triple (\<lambda>st. at_node Q m n p d st \<and> node_sat p B st) (on_node p f)
    (\<lambda>_ st. at_node Q m n p d st \<and> node_sat p B' st) E"
  unfolding on_node_def using on_tree_ok [where g = "\<lambda>t. f (ctx t)"] assms by blast

text \<open>The end of a successful expansion.\<close>

lemma grow_inv:
  assumes "context_ok Q m child" and "visit_count child = 1" and "0 \<le> total_value child" and "total_value child \<le> 1"
    and "proof_depth child = d + 1"
  shows "triple (at_node Q m n p d)
    (andThen (add_kid p child) (\<lambda>_. andThen (on_self h) (\<lambda>_. on_tree (backup p (total_value child)))))
    (\<lambda>_. search_inv Q m (Suc n)) E"
  unfolding triple_def
proof (intro allI impI)
  fix st :: "('a, 'b \<times> mcts_tree) arena"
  assume "at_node Q m n p d st"
  then obtain x where x: "tree_ok Q m (the_tree st)" "node_at (the_tree st) p = Some x" "proof_depth (ctx x) = d"
    and size: "nodes (the_tree st) \<le> n" by (auto simp: at_node_def search_inv_def)
  have "tree_ok Q m (grow p child (the_tree st)) \<and> nodes (grow p child (the_tree st)) = nodes (the_tree st) + 1"
    using grow_ok [OF x(1,2) assms(1-4)] assms(5) x(3) by simp
  then show "case andThen (add_kid p child) (\<lambda>_. andThen (on_self h) (\<lambda>_. on_tree (backup p (total_value child)))) st of
      (Inr v, s') \<Rightarrow> search_inv Q m (Suc n) s' | (Inl e, s') \<Rightarrow> E e s'"
    using size by (simp add: add_kid_def on_tree_run andThen_def on_self_def change_def search_inv_def grow_def the_tree_def)
qed

locale tree_search =
  fixes cls :: "('w, 'm) mcts_class"
  assumes select_path: "fst (mc_select cls t st) = Inr p \<Longrightarrow> node_at t p \<noteq> None"
    and select_keeps: "keeps the_tree (mc_select cls t)"
    and recommend_keeps: "keeps the_tree (mc_recommend cls c i)"
    and priorities_keeps: "keeps the_tree (mc_priorities cls c)"
    and estimate_keeps: "keeps the_tree (mc_estimate cls c)"
    and estimate_value: "\<lbrakk>fst (mc_estimate cls c st) = Inr c'; solved c = replicate (length (subgoals c)) False\<rbrakk>
      \<Longrightarrow> \<exists>v. c' = c\<lparr>total_value := v\<rparr> \<and> 0 \<le> v \<and> v \<le> 1"
begin

lemma estimate_new:
  assumes "\<And>st st'. the_tree st = the_tree st' \<Longrightarrow> P st = P st'" and "Q goals"
  shows "triple P (mc_estimate cls (MCTSProofContext goals prios said k pg))
    (\<lambda>c st. P st \<and> context_ok Q m c \<and> visit_count c = 1 \<and> 0 \<le> total_value c \<and> total_value c \<le> 1 \<and> proof_depth c = k)
    (\<lambda>_. P)"
  unfolding triple_def
proof (intro allI impI)
  let ?c = "MCTSProofContext goals prios said k pg"
  fix st :: "('w, 'm \<times> mcts_tree) arena"
  assume P: "P st"
  obtain r st' where run: "mc_estimate cls ?c st = (r, st')" by force
  have "the_tree st' = the_tree st" using estimate_keeps [of ?c] run unfolding keeps_def by (metis snd_conv)
  then have P': "P st'" using P assms(1) by blast
  have "\<exists>v. c' = ?c\<lparr>total_value := v\<rparr> \<and> 0 \<le> v \<and> v \<le> 1" if "r = Inr c'" for c'
    using estimate_value [of ?c st c'] run that by (simp add: MCTSProofContext_def)
  then show "case mc_estimate cls ?c st of
      (Inr c, s') \<Rightarrow> P s' \<and> context_ok Q m c \<and> visit_count c = 1 \<and> 0 \<le> total_value c \<and> total_value c \<le> 1 \<and> proof_depth c = k
    | (Inl e, s') \<Rightarrow> P s'"
    using run P' assms(2) by (cases r) (auto simp: MCTSProofContext_def context_ok_def)
qed

lemma expand_inv:
  assumes "answers Q api" and "goal < length (subgoals c)"
  shows "triple (\<lambda>st. at_node Q m n p (proof_depth c) st \<and> node_sat p (\<lambda>c. trials c ! goal \<le> m) st)
    (expand_node api cls p c goal tactic) (\<lambda>_. search_inv Q m (Suc n)) (\<lambda>_. search_inv Q m (Suc n))"
proof -
  let ?K = "at_node Q m n p (proof_depth c)"
  have keep: "triple ?K op (\<lambda>_. ?K) (\<lambda>_. ?K)" if "keeps the_tree op" for op :: "('w, 'm, 'a) mcts_act"
    by (rule triple_tree [OF that]) (rule at_node_tree)
  have goals: "triple ?K (ask_gym (g_goals api)) (\<lambda>gs st. ?K st \<and> Q gs) (\<lambda>_. ?K)"
    using assms(1) by (intro triple_ask) (auto simp: answers_def at_node_def search_inv_def the_tree_def, (metis fst_conv)+)
  have count: "triple (\<lambda>st. ?K st \<and> node_sat p (\<lambda>c. trials c ! goal \<le> m) st)
      (on_node p (\<lambda>c. c\<lparr>trials := (trials c)[goal := trials c ! goal + 1]\<rparr>)) (\<lambda>_. ?K) (\<lambda>_. ?K)"
    by (rule triple_weaken [OF on_node_ok [where Q = Q and n = n and d = "proof_depth c" and B = "\<lambda>c. trials c ! goal \<le> m" and B' = "\<lambda>_. True"]])
       (auto simp: context_ok_def dest!: set_update_subset_insert [THEN subsetD])
  have note_it: "triple ?K (on_node p (\<lambda>c. c\<lparr>feedback := fb\<rparr>)) (\<lambda>_. ?K) E" for fb E
    by (rule triple_weaken [OF on_node_ok [where Q = Q and n = n and d = "proof_depth c" and B = "\<lambda>_. True" and B' = "\<lambda>_. True"]])
       (auto simp: context_ok_def node_sat_def)
  have weak: "triple ?K op (\<lambda>_. search_inv Q m (Suc n)) (\<lambda>_. search_inv Q m (Suc n))"
    if "triple ?K op (\<lambda>_. ?K) (\<lambda>_. ?K)" for op :: "('w, 'm, 'a) mcts_act"
    by (rule triple_weaken [OF that]) (simp_all add: at_node_inv)
  have prios: "triple (\<lambda>st. ?K st \<and> Q gs)
      (if length gs \<le> 1 then ret (replicate (length gs) 0)
       else andThen (andThen (context_at p c) (mc_priorities cls)) (\<lambda>ps.
              andThen (on_self (\<lambda>a. a\<lparr>priority_calls := priority_calls a + 1\<rparr>)) (\<lambda>_. ret ps)))
      (\<lambda>_ st. ?K st \<and> Q gs) (\<lambda>_. ?K)" (is "triple _ ?weigh _ _") for gs
  proof (cases "Q gs")
    case True
    have "keeps the_tree ?weigh" by (intro frame priorities_keeps)
    then show ?thesis by (rule triple_weaken [OF keep]) (simp_all add: True)
  qed (simp add: triple_def)
  let ?new = "\<lambda>ch st. ?K st \<and> context_ok Q m ch \<and> visit_count ch = 1 \<and> 0 \<le> total_value ch \<and> total_value ch \<le> 1 \<and>
      proof_depth ch = proof_depth c + 1"
  have child: "triple (\<lambda>st. ?K st \<and> Q gs)
      (mc_estimate cls (MCTSProofContext gs prios said (proof_depth c + 1) pg)) ?new (\<lambda>_. ?K)" for gs prios said pg
  proof (cases "Q gs")
    case True
    have "triple ?K (mc_estimate cls (MCTSProofContext gs prios said (proof_depth c + 1) pg)) ?new (\<lambda>_. ?K)"
      by (rule estimate_new) (rule at_node_tree, assumption, rule True)
    then show ?thesis by (rule triple_weaken) simp_all
  qed (simp add: triple_def)
  have end_of_it: "triple (?new ch)
      (andThen (add_kid p ch) (\<lambda>_. andThen (on_self h) (\<lambda>_. on_tree (backup p (total_value ch)))))
      (\<lambda>_. search_inv Q m (Suc n)) E" for ch h E
  proof (cases "context_ok Q m ch \<and> visit_count ch = 1 \<and> 0 \<le> total_value ch \<and> total_value ch \<le> 1 \<and>
      proof_depth ch = proof_depth c + 1")
    case True
    then show ?thesis by (intro triple_weaken [OF grow_inv]) auto
  next
    case False
    then show ?thesis by (intro triple_vacuous) blast
  qed
  show ?thesis
    unfolding expand_node_def
    apply (rule triple_catch [where R = "\<lambda>_. ?K"])
     apply (rule triple_andThen, rule count)
     apply (rule triple_andThen [where R = "\<lambda>_. ?K"], rule keep, rule frame)
     apply (rule triple_andThen [where R = "\<lambda>_. ?K"], rule keep, rule frame)
     apply (rule triple_if)
      apply (rule triple_andThen, rule goals)
      apply (rule triple_andThen, rule prios)
      apply (rule triple_andThen, rule child)
      apply (rule end_of_it)
     apply (rule triple_andThen [where R = "\<lambda>_. ?K"], rule keep, rule frame)
     apply (rule triple_weaken [OF note_it], assumption, rule at_node_inv, assumption, assumption)
    by (rule triple_weaken [OF note_it], assumption, rule at_node_inv, assumption, rule at_node_inv, assumption)
qed

lemma select_inv:
  "triple (\<lambda>st. search_inv Q m n st \<and> the_tree st = t) (mc_select cls t)
    (\<lambda>p st. search_inv Q m n st \<and> node_at (the_tree st) p \<noteq> None) (\<lambda>_. search_inv Q m n)"
  unfolding triple_def
proof (intro allI impI)
  fix st :: "('w, 'm \<times> mcts_tree) arena"
  assume pre: "search_inv Q m n st \<and> the_tree st = t"
  obtain r st' where run: "mc_select cls t st = (r, st')" by force
  then have same: "the_tree st' = the_tree st" using select_keeps [of t] unfolding keeps_def by (metis snd_conv)
  then have inv: "search_inv Q m n st'" using pre search_inv_tree by blast
  show "case mc_select cls t st of (Inr p, s') \<Rightarrow> search_inv Q m n s' \<and> node_at (the_tree s') p \<noteq> None
      | (Inl e, s') \<Rightarrow> search_inv Q m n s'"
    using select_path [of t st] run same inv pre by (cases r) auto
qed

definition chosen :: "(pystr list \<Rightarrow> bool) \<Rightarrow> nat \<Rightarrow> nat \<Rightarrow> path \<Rightarrow> mcts_tree \<Rightarrow> ('w, 'm \<times> mcts_tree) arena \<Rightarrow> bool" where
  "chosen Q m n p x st \<longleftrightarrow> search_inv Q m n st \<and> node_at (the_tree st) p = Some x"

lemma chosen_tree: "the_tree st = the_tree st' \<Longrightarrow> chosen Q m n p x st = chosen Q m n p x st'"
  by (simp add: chosen_def search_inv_def)

lemma chosen_at: "chosen Q m n p x st \<Longrightarrow> at_node Q m n p (proof_depth (ctx x)) st"
  by (simp add: chosen_def at_node_def)

lemma chosen_sat: "\<lbrakk>chosen Q m n p x st; B (ctx x)\<rbrakk> \<Longrightarrow> node_sat p B st"
  by (simp add: chosen_def node_sat_def)

lemma chosen_context: "chosen Q m n p x st \<Longrightarrow> context_ok Q m (ctx x)"
  using tree_ok_node tree_ok_top unfolding chosen_def search_inv_def by blast

end

lemma max_by_mem: "max_by f x xs \<in> set (x # xs)"
proof (induction xs arbitrary: x)
  case (Cons y xs)
  then show ?case using Cons.IH [of "if f x < f y then y else x"] by (auto split: if_splits)
qed simp

lemma active_goal_lt:
  assumes "\<not> active_goal_id c < 0"
  shows "nat (active_goal_id c) < length (solved c)"
proof -
  let ?xs = "filter (\<lambda>(i, p). i < length (solved c) \<and> \<not> solved c ! i) (enumerate 0 (priorities c))"
  obtain x xs where split: "?xs = x # xs" and id: "active_goal_id c = int (fst (max_by snd x xs))"
    using assms by (cases ?xs) (auto simp: active_goal_id_def split: if_splits)
  have "max_by snd x xs \<in> set ?xs" using max_by_mem [of snd x xs] split by simp
  then show ?thesis using id by auto
qed

lemma base_fields [simp]: "subgoals (base c) = subgoals c" "solved (base c) = solved c" "priorities (base c) = priorities c"
  by (simp_all add: base_def proof_context.defs)

lemma context_complete: "context_ok Q m c \<Longrightarrow> is_complete (base c) \<longleftrightarrow> subgoals c = []"
  by (cases "subgoals c") (auto simp: context_ok_def is_complete_def)

context tree_search
begin

lemma search_step_inv:
  assumes "answers Q api"
  shows "triple (search_inv Q m n) (search_step api cls m)
    (\<lambda>found st. search_inv Q m (Suc n) st \<and> (found \<noteq> None \<longrightarrow> Q [])) (\<lambda>_. search_inv Q m (Suc n))"
proof -
  have grown: "search_inv Q m n st \<Longrightarrow> search_inv Q m (Suc n) st" for st :: "('w, 'm \<times> mcts_tree) arena"
    by (simp add: search_inv_def)
  let ?post = "\<lambda>found st. search_inv Q m (Suc n) st \<and> (found \<noteq> None \<longrightarrow> Q [])"
  let ?err = "\<lambda>_. search_inv Q m (Suc n)"
  have node: "triple (chosen Q m n p x)
      (let c = ctx x in
        if is_complete (base c) then ret (Some (proof_depth c))
        else
          let goal = active_goal_id (base c) in
          if goal < 0
          then andThen (on_node p (\<lambda>c. c\<lparr>exhausted := True, subtree_exhausted := True\<rparr>)) (\<lambda>_. ret None)
          else
            andThen (if m < trials c ! nat goal then ret None else mc_recommend cls c goal) (\<lambda>tac.
            if \<not> truthy tac
            then andThen (on_tree (update_at (\<lambda>t. Node ((ctx t)\<lparr>feedback := None, exhausted := True,
                   subtree_exhausted := all_kids_exhausted (kids t)\<rparr>) (kids t)) p)) (\<lambda>_. ret None)
            else
              let tactic = or_else tac [] in
              andThen (on_node p (\<lambda>c. if tactic \<in> set (attempted_tactics c) then c
                                       else c\<lparr>attempted_tactics := attempted_tactics c @ [tactic]\<rparr>)) (\<lambda>_.
              andThen (expand_node api cls p c (nat goal) tactic) (\<lambda>_. ret None)))) ?post ?err" for p x
  proof -
    let ?d = "proof_depth (ctx x)" and ?goal = "active_goal_id (base (ctx x))"
    have plain: "triple (chosen Q m n p x) (andThen (on_tree (update_at (\<lambda>t. Node (g t) (kids t)) p)) (\<lambda>_. ret None)) ?post ?err"
      if "\<And>t. context_ok Q m (g t) = context_ok Q m (ctx t) \<and> proof_depth (g t) = proof_depth (ctx t) \<and>
          visit_count (g t) = visit_count (ctx t) \<and> total_value (g t) = total_value (ctx t)" for g
      apply (rule triple_andThen [where R = "\<lambda>_. at_node Q m n p ?d"])
       apply (rule triple_weaken [OF on_tree_ok [where Q = Q and m = m and n = n and d = ?d and g = g and
              B = "\<lambda>_. True" and B' = "\<lambda>_. True"]])
      using that by (simp_all add: node_sat_def chosen_at at_node_inv triple_ret)
    have ask: "triple (chosen Q m n p x) (if m < trials (ctx x) ! nat ?goal then ret None else mc_recommend cls (ctx x) ?goal)
        (\<lambda>tac st. chosen Q m n p x st \<and> (truthy tac \<longrightarrow> trials (ctx x) ! nat ?goal \<le> m)) (\<lambda>_. chosen Q m n p x)"
      apply (rule triple_if, rule triple_ret, simp add: truthy_def)
      by (rule triple_weaken [OF triple_tree [where P = "chosen Q m n p x", OF recommend_keeps]], rule chosen_tree, assumption,
          assumption, simp, assumption)
    have plain_node: "triple (chosen Q m n p x) (andThen (on_node p f) (\<lambda>_. ret None)) ?post ?err"
      if "\<And>c. context_ok Q m (f c) = context_ok Q m c \<and> proof_depth (f c) = proof_depth c \<and>
          visit_count (f c) = visit_count c \<and> total_value (f c) = total_value c" for f
      unfolding on_node_def by (rule plain [of "\<lambda>t. f (ctx t)"]) (rule that)
    show ?thesis
    proof (cases "context_ok Q m (ctx x)")
      case False
      then show ?thesis using chosen_context by (intro triple_vacuous) blast
    next
      case ok: True
      have run: "triple (\<lambda>st. chosen Q m n p x st \<and> trials (ctx x) ! nat ?goal \<le> m)
          (andThen (on_node p (\<lambda>c. if trick \<in> set (attempted_tactics c) then c
               else c\<lparr>attempted_tactics := attempted_tactics c @ [trick]\<rparr>)) (\<lambda>_.
           andThen (expand_node api cls p (ctx x) (nat ?goal) trick) (\<lambda>_. ret None))) ?post ?err"
        if "\<not> ?goal < 0" for trick
      proof -
        have goal: "nat ?goal < length (subgoals (ctx x))"
          using active_goal_lt [OF that] ok by (simp add: context_ok_def)
        show ?thesis
          apply (rule triple_andThen [where R = "\<lambda>_ st. at_node Q m n p ?d st \<and> node_sat p (\<lambda>c. trials c ! nat ?goal \<le> m) st"])
           apply (rule triple_weaken [OF on_node_ok [where Q = Q and m = m and n = n and d = ?d and B = "\<lambda>c. trials c ! nat ?goal \<le> m"
                and B' = "\<lambda>c. trials c ! nat ?goal \<le> m"]])
             apply (simp add: context_ok_def)
            apply (elim conjE, intro conjI, erule chosen_at, erule chosen_sat, assumption, assumption, assumption)
          apply (rule triple_andThen, rule expand_inv [OF assms goal])
          by (rule triple_ret) simp
      qed
      show ?thesis
        unfolding Let_def
        apply (rule triple_if)
         apply (rule triple_ret)
         using ok apply (auto simp: context_complete context_ok_def chosen_def grown)[1]
        apply (rule triple_if)
         apply (rule plain_node, simp add: context_ok_def)
        apply (rule triple_andThen [where R = "\<lambda>tac st. chosen Q m n p x st \<and> (truthy tac \<longrightarrow> trials (ctx x) ! nat ?goal \<le> m)"])
         apply (rule triple_weaken [OF ask], assumption, assumption, simp add: chosen_def grown)
        apply (rule triple_if)
         apply (rule triple_weaken [OF plain], simp add: context_ok_def, simp, simp, simp)
        by (rule triple_weaken [OF run], assumption, simp, assumption, assumption)
    qed
  qed
  show ?thesis
    unfolding search_step_def get_tree_def
    apply (rule triple_andThen [where R = "\<lambda>t st. search_inv Q m n st \<and> the_tree st = t"], rule triple_fetch)
     apply (simp add: the_tree_def)
    apply (rule triple_andThen, rule triple_weaken [OF select_inv], assumption, assumption, erule grown)
    subgoal for _ p
      apply (rule triple_andThen [where R = "\<lambda>t st. search_inv Q m n st \<and> node_at (the_tree st) p \<noteq> None \<and> the_tree st = t"])
       apply (rule triple_fetch, simp add: the_tree_def)
      apply (rule triple_option)
       apply (rule triple_weaken [OF triple_false], fastforce+)
      apply (rule triple_weaken [OF node], auto simp: chosen_def)
      done
    done
qed

lemma search_result_inv:
  "triple (search_inv Q m n) (search_result api start good steps len msg)
    (\<lambda>r st. search_inv Q m n st \<and> pf_success r = good \<and> pf_steps r = steps) (\<lambda>_. search_inv Q m n)"
  unfolding search_result_def
  apply (rule triple_andThen, rule triple_tree, rule frame, rule search_inv_tree, assumption)
  apply (rule triple_andThen, rule triple_tree, rule frame, rule search_inv_tree, assumption)
  by (rule triple_andThen [where R = "\<lambda>_. search_inv Q m n"], rule triple_fetch, assumption)
     (rule triple_ret, simp add: mcts_result_def)

lemma search_inv_mono: "\<lbrakk>search_inv Q m n st; n \<le> n'\<rbrakk> \<Longrightarrow> search_inv Q m n' st"
  by (simp add: search_inv_def)

lemma search_loop_inv:
  assumes "answers Q api"
  shows "triple (search_inv Q m n) (search_loop api cls steps m start left k)
    (\<lambda>r st. search_inv Q m (n + left) st \<and> (pf_success r \<longrightarrow> Q [] \<and> pf_steps r < k + left) \<and>
       (\<not> pf_success r \<longrightarrow> pf_steps r = steps)) (\<lambda>_. search_inv Q m (n + left))"
proof (induction left arbitrary: n k)
  case 0
  show ?case
    unfolding search_loop.simps get_tree_def
    by (rule triple_andThen [where R = "\<lambda>_. search_inv Q m n"], rule triple_fetch, assumption)
       (rule triple_weaken [OF search_result_inv], assumption, simp, simp)
next
  case (Suc left)
  show ?case
    unfolding search_loop.simps
    apply (rule triple_andThen, rule triple_weaken [OF search_step_inv [OF assms]], assumption, assumption)
     apply (erule search_inv_mono, simp)
    apply (rule triple_option)
     apply (rule triple_weaken [OF Suc.IH [where n = "Suc n" and k = "Suc k"]], simp, simp, simp)
    subgoal for _ len
    proof (cases "Q []")
      case True
      show ?thesis
        by (rule triple_weaken [OF search_result_inv [where n = "Suc n"]]) (use True in \<open>auto elim: search_inv_mono\<close>)
    qed (simp add: triple_def)
    done
qed

lemma search_from_inv:
  assumes "answers Q api" and "Q goals"
  shows "triple (\<lambda>_. True) (tree_search_from api cls steps m start goals thm_text)
    (\<lambda>r st. search_inv Q m (1 + steps) st \<and> (pf_success r \<longrightarrow> Q [] \<and> pf_steps r < steps) \<and>
       (\<not> pf_success r \<longrightarrow> pf_steps r = steps)) (\<lambda>_ _. True)"
proof -
  let ?ok = "\<lambda>c. context_ok Q m c \<and> visit_count c = 1 \<and> 0 \<le> total_value c \<and> total_value c \<le> 1 \<and> proof_depth c = 0"
  have plant: "triple (\<lambda>st. True \<and> ?ok c) (on_tree (\<lambda>_. Node c [])) (\<lambda>_. search_inv Q m 1) (\<lambda>_ _. True)" for c
    by (simp add: triple_def on_tree_run search_inv_def)
  show ?thesis
    unfolding tree_search_from_def
    apply (rule triple_andThen, rule estimate_new [where Q = Q and m = m], simp, rule assms(2))
    apply (rule triple_andThen, rule plant)
    by (rule triple_weaken [OF search_loop_inv [OF assms(1), where n = 1 and k = 0]]) simp_all
qed

text \<open>A success needs an answer without open goals from the gym.\<close>

lemma search_needs_no_goals:
  assumes "answers (\<lambda>gs. gs \<noteq> []) api"
  shows "triple (\<lambda>_. True) (mcts_prove_theorem api cls steps m thm_text) (\<lambda>r _. \<not> pf_success r) (\<lambda>_ _. True)"
proof -
  have goals: "triple (\<lambda>_. True) (ask_gym (g_goals api)) (\<lambda>gs _. gs \<noteq> []) (\<lambda>_ _. True)"
    using assms by (intro triple_ask) (auto simp: answers_def, (metis fst_conv)+)
  have found: "triple (\<lambda>_. gs \<noteq> []) (tree_search_from api cls steps m start gs thm_text) (\<lambda>r _. \<not> pf_success r) (\<lambda>_ _. True)" for gs start
  proof (cases "gs = []")
    case False
    show ?thesis by (rule triple_weaken [OF search_from_inv [OF assms]]) (use False in auto)
  qed (simp add: triple_def)
  show ?thesis
    unfolding mcts_prove_theorem_def
    apply (rule triple_andThen [where R = "\<lambda>_ _. True"], rule triple_any, simp, simp)
    apply (rule triple_andThen [where R = "\<lambda>_ _. True"], rule triple_any, simp, simp)
    apply (rule triple_andThen [where R = "\<lambda>_ _. True"], rule triple_any, simp, simp)
    apply (rule triple_andThen, rule goals)
    apply (rule triple_if, rule found)
    by (rule triple_vacuous) simp
qed

end

section \<open>The UCB rule\<close>

lemma best_index_mem: "best_index f i is \<in> set (i # is)"
proof (induction "is" arbitrary: i)
  case (Cons j "is")
  then show ?case using Cons.IH [of "if score_less (f i) (f j) then j else i"] by (auto split: if_splits)
qed simp

lemma score_less_trans:
  "\<lbrakk>\<not> score_less x y; \<not> score_less y z\<rbrakk> \<Longrightarrow> \<not> score_less x z"
  by (auto simp: score_less_def split: option.splits)

lemma score_less_asym: "score_less x y \<Longrightarrow> \<not> score_less y x"
  by (auto simp: score_less_def split: option.splits)

lemma best_index_max: "j \<in> set (i # is) \<Longrightarrow> \<not> score_less (f (best_index f i is)) (f j)"
proof (induction "is" arbitrary: i j)
  case (Cons k "is")
  let ?m = "if score_less (f i) (f k) then k else i"
  have m: "\<not> score_less (f (best_index f ?m is)) (f ?m)" using Cons.IH [of ?m ?m] by simp
  have "\<not> score_less (f ?m) (f i)" "\<not> score_less (f ?m) (f k)"
    using score_less_asym by (auto simp: score_less_def split: option.splits)
  then have "\<not> score_less (f (best_index f ?m is)) (f i)" "\<not> score_less (f (best_index f ?m is)) (f k)"
    using m score_less_trans by blast+
  then show ?case using Cons.IH [of j ?m] Cons.prems by auto
qed (auto simp: score_less_def split: option.splits)

text \<open>A path of the tree whose nodes below the root have not been exhausted.\<close>

fun live_path :: "mcts_tree \<Rightarrow> path \<Rightarrow> bool" where
  "live_path t [] = True"
| "live_path (Node c ks) (i # p) = (i < length ks \<and> \<not> subtree_exhausted (ctx (ks ! i)) \<and> live_path (ks ! i) p)"

lemma live_node_at: "live_path t p \<Longrightarrow> node_at t p \<noteq> None"
  by (induction t p rule: live_path.induct) auto

lemma available_mem: "i \<in> set (available_children ks) \<longleftrightarrow> i < length ks \<and> \<not> subtree_exhausted (ctx (ks ! i))"
  by (auto simp: available_children_def)

lemma ucb_path_live: "live_path t (ucb_path c_puct t u)"
proof (induction t arbitrary: u)
  case (Node c ks)
  show ?case
  proof (cases "available_children ks")
    case (Cons i "is")
    let ?f = "\<lambda>j. child_ucb c_puct c (ctx (ks ! j))"
    let ?b = "best_index ?f i is"
    have b: "?b < length ks" "\<not> subtree_exhausted (ctx (ks ! ?b))"
      using best_index_mem [of ?f i "is"] available_mem [of ?b ks] Cons by auto
    then have "live_path (ks ! ?b) (ucb_path c_puct (ks ! ?b) v)" for v by (intro Node.IH) simp
    then show ?thesis using Cons b by (auto simp: Let_def)
  qed (simp split: if_splits)
qed

text \<open>Property C36: the UCB rule descends to the best live child.
  The path the simple agent selects stays in the tree and never enters a child whose subtree is exhausted; its first step is to
  a child with the greatest score, and a step to a child that scores less than the node itself is made only if that is exhausted.\<close>

theorem ucb_selects_best:
  "live_path (Node c ks) (ucb_path c_puct (Node c ks) u) \<and>
   (case ucb_path c_puct (Node c ks) u of
      [] \<Rightarrow> True
    | i # p \<Rightarrow>
        (\<exists>v. v = child_ucb c_puct c (ctx (ks ! i)) \<and> p = ucb_path c_puct (ks ! i) v \<and> (score_less v u = (score_less v u \<and> exhausted c))) \<and>
        filter (\<lambda>j. \<not> subtree_exhausted (ctx (ks ! j)) \<and>
          score_less (child_ucb c_puct c (ctx (ks ! i))) (child_ucb c_puct c (ctx (ks ! j)))) [0..<length ks] = [])"
proof (cases "available_children ks")
  case Nil
  then show ?thesis using ucb_path_live [of "Node c ks" c_puct u] by (simp split: if_splits)
next
  case (Cons i "is")
  let ?f = "\<lambda>j. child_ucb c_puct c (ctx (ks ! j))"
  have best: "\<not> score_less (?f (best_index ?f i is)) (?f j)" if "j < length ks" "\<not> subtree_exhausted (ctx (ks ! j))" for j
    using best_index_max [of j i "is" ?f] available_mem [of j ks] Cons that by simp
  have mem: "best_index ?f i is < length ks"
    using best_index_mem [of ?f i "is"] available_mem [of "best_index ?f i is" ks] Cons by simp
  show ?thesis using ucb_path_live [of "Node c ks" c_puct u] best mem Cons
    by (auto simp: Let_def filter_empty_conv split: if_splits)
qed

section \<open>The simple agent fulfils the contract\<close>

lemma simple_estimate_value:
  assumes "fst (simple_estimate api c st) = Inr c'" and "solved c = replicate (length (subgoals c)) False"
  shows "\<exists>v. c' = c\<lparr>total_value := v\<rparr> \<and> 0 \<le> v \<and> v \<le> 1"
proof (cases "is_complete (base c)")
  case True
  then show ?thesis using assms(1) by (auto simp: simple_estimate_def ret_def)
next
  case False
  define x where "x = real_of_int (fst (dice api (world st)) mod 2 ^ 53) / 2 ^ 53"
  have "fst (dice api (world st)) mod 2 ^ 53 \<le> 2 ^ 53" using pos_mod_bound [of "2 ^ 53"] by (simp add: less_imp_le)
  then have "real_of_int (fst (dice api (world st)) mod 2 ^ 53) \<le> real_of_int (2 ^ 53)" by (simp only: of_int_le_iff)
  then have x: "0 \<le> x" "x \<le> 1" unfolding x_def by simp_all
  have "1 \<le> length (subgoals c)" using False by (cases "subgoals c") (simp_all add: is_complete_def)
  then have "1 / (1 + real (length (subgoals c))) \<le> 1 / 2" by (simp add: field_simps)
  then have "1 / (1 + real (length (subgoals c))) + x * (3 / 10) \<le> 1 / 2 + 3 / 10" using x by (intro add_mono) auto
  moreover have "c' = c\<lparr>total_value := 1 / (1 + real (length (subgoals c))) + x * (3 / 10)\<rparr>"
    using assms(1) False by (auto simp: simple_estimate_def andThen_def roll_def ret_def Let_def x_def split: prod.splits)
  ultimately show ?thesis using x
    by (intro exI [where x = "1 / (1 + real (length (subgoals c))) + x * (3 / 10)"]) auto
qed

lemma keeps_tree_own [frame]: "keeps the_tree (change (\<lambda>st. st\<lparr>mind := (h (mind st), snd (mind st))\<rparr>))"
  by (simp add: keeps_def change_def the_tree_def)

interpretation simple_mcts: tree_search "SimpleMCTSIsabelleAgent api c_puct" for api c_puct
proof
  fix t p and st :: "('a, counters \<times> mcts_tree) arena"
  assume "fst (mc_select (SimpleMCTSIsabelleAgent api c_puct) t st) = Inr p"
  then show "node_at t p \<noteq> None"
    using live_node_at [OF ucb_path_live] by (auto simp: SimpleMCTSIsabelleAgent_def simple_select_def ret_def)
next
  fix c c' and st :: "('a, counters \<times> mcts_tree) arena"
  assume "fst (mc_estimate (SimpleMCTSIsabelleAgent api c_puct) c st) = Inr c'"
    and "solved c = replicate (length (subgoals c)) False"
  then show "\<exists>v. c' = c\<lparr>total_value := v\<rparr> \<and> 0 \<le> v \<and> v \<le> 1"
    using simple_estimate_value by (simp add: SimpleMCTSIsabelleAgent_def)
next
  fix c i
  show "keeps the_tree (mc_recommend (SimpleMCTSIsabelleAgent api c_puct) c i)"
    by (auto simp: SimpleMCTSIsabelleAgent_def mcts_recommend_def Let_def keeps_def andThen_def fetch_def ret_def change_def
        the_tree_def split: option.split)
qed (simp_all add: SimpleMCTSIsabelleAgent_def simple_select_def zero_priorities_def simple_estimate_def Let_def frame)

text \<open>Property C37: the tree of the search is accounted for.
  After a search of the simple agent, each node has been visited exactly as often as there are nodes in its subtree, its mean
  value is between 0 and 1, no goal of it was tried more than once above the limit, and the tree has at most one node per step.\<close>

theorem mcts_tree_counts:
  assumes "tree_search_from api (SimpleMCTSIsabelleAgent api c_puct) steps m start goals thm_text st = (Inr r, st')"
    and "node_at (snd (mind st')) p = Some n"
  shows "visit_count (ctx n) = nodes n \<and> 0 \<le> get_mean_value (ctx n) \<and> get_mean_value (ctx n) \<le> 1 \<and>
    (\<forall>k \<in> set (trials (ctx n)). k \<le> m + 1) \<and> nodes (snd (mind st')) \<le> 1 + steps"
proof -
  have "triple (\<lambda>_. True) (tree_search_from api (SimpleMCTSIsabelleAgent api c_puct) steps m start goals thm_text)
      (\<lambda>_. search_inv (\<lambda>_. True) m (1 + steps)) (\<lambda>_ _. True)"
    by (rule triple_weaken [OF simple_mcts.search_from_inv [where Q = "\<lambda>_. True"]]) (simp_all add: answers_def)
  then have inv: "search_inv (\<lambda>_. True) m (1 + steps) st'"
    using assms(1) unfolding triple_def by (auto dest!: spec [where x = st])
  then have "tree_ok (\<lambda>_. True) m n"
    using tree_ok_node assms(2) unfolding search_inv_def the_tree_def by blast
  from tree_ok_top [OF this] show ?thesis
    using inv nodes_pos [of n] by (auto simp: get_mean_value_def search_inv_def the_tree_def context_ok_def)
qed

text \<open>The tree search succeeds only when the gym has had no goals.
  If the gym never answers that no goal is open, \<open>prove_theorem\<close> of the simple search agent does not report a success.\<close>

theorem mcts_success_sound:
  assumes "\<And>w. fst (g_goals api w) \<noteq> Inr []"
    and "mcts_prove_theorem api (SimpleMCTSIsabelleAgent api c_puct) steps m thm_text st = (Inr r, st')"
  shows "pf_success r = False"
proof -
  have "answers (\<lambda>gs. gs \<noteq> []) api" using assms(1) by (auto simp: answers_def)
  from simple_mcts.search_needs_no_goals [OF this, of api c_puct steps m thm_text] show ?thesis
    using assms(2) unfolding triple_def by (auto dest!: spec [where x = st])
qed

section \<open>Concrete searches\<close>

definition demo_mcts :: "pystr list mcts_gym" where
  "demo_mcts = gym_api.extend demo_gym \<lparr>dice = (\<lambda>w. (0, w)), thy_name = (\<lambda>w. (Inr ''A'', w))\<rparr>"

definition stuck_mcts :: "pystr list mcts_gym" where
  "stuck_mcts = demo_mcts\<lparr>g_goals := (\<lambda>w. (Inr [''a''], w))\<rparr>"

definition demo_search_arena :: "(pystr list, counters \<times> mcts_tree) arena" where
  "demo_search_arena = \<lparr>world = [''a''], mind = (\<lambda>_. 0, Node (MCTSProofContext [] [] [] 0 None) []), self = fresh_agent\<rparr>"

text \<open>One step from one goal, which \<open>by auto\<close> proves: the root and one complete child.\<close>

definition demo_search :: "(exn + proof_result) \<times> (pystr list, counters \<times> mcts_tree) arena" where
  "demo_search = tree_search_from demo_mcts (SimpleMCTSIsabelleAgent demo_mcts (6 / 10)) 1 5 0 [''a''] ''lemma a'' demo_search_arena"

lemma demo_search_runs:
  "isl (fst demo_search) = False" "map_option (subgoals \<circ> ctx) (node_at (snd (mind (snd demo_search))) [0]) = Some []"
  "nodes (snd (mind (snd demo_search))) = 2"
  by code_simp+

theorem mcts_tree_counts_witness:
  "\<exists>n. node_at (snd (mind (snd demo_search))) [0] = Some n \<and> visit_count (ctx n) = nodes n \<and> get_mean_value (ctx n) \<le> 1"
proof -
  obtain r where "fst demo_search = Inr r" using demo_search_runs(1) by (cases "fst demo_search") auto
  then have run: "demo_search = (Inr r, snd demo_search)" by (simp add: prod_eq_iff)
  obtain n where n: "node_at (snd (mind (snd demo_search))) [0] = Some n" using demo_search_runs(2) by auto
  show ?thesis using mcts_tree_counts [OF run [unfolded demo_search_def] n [unfolded demo_search_def]] n
    unfolding demo_search_def by blast
qed

definition stuck_search :: "(exn + proof_result) \<times> (pystr list, counters \<times> mcts_tree) arena" where
  "stuck_search = mcts_prove_theorem stuck_mcts (SimpleMCTSIsabelleAgent stuck_mcts (6 / 10)) 1 5 ''lemma a'' demo_search_arena"

lemma stuck_search_runs: "isl (fst stuck_search) = False"
  by code_simp

theorem mcts_success_sound_witness: "\<exists>r. fst stuck_search = Inr r \<and> pf_success r = False"
proof -
  obtain r where "fst stuck_search = Inr r" using stuck_search_runs by (cases "fst stuck_search") auto
  then have run: "stuck_search = (Inr r, snd stuck_search)" by (simp add: prod_eq_iff)
  have "fst (g_goals stuck_mcts w) \<noteq> Inr []" for w by (simp add: stuck_mcts_def)
  from mcts_success_sound [OF this run [unfolded stuck_search_def]] show ?thesis using run by (metis fst_conv)
qed

text \<open>The search does not count the proofs and the tactics it tries: the rates of such an agent never change.\<close>

definition tally :: "agent \<Rightarrow> nat \<times> nat \<times> nat \<times> nat" where
  "tally a = (proofs_attempted a, proofs_succeeded a, tactics_tried a, tactics_succeeded a)"

theorem search_counts_nothing:
  "tally (self (snd demo_search)) = tally (self demo_search_arena) \<and> nodes (snd (mind (snd demo_search))) = 2"
  by code_simp

text \<open>Unlike the agents of \<open>Gym_Agent\<close>, the search lets the errors of the gym's first queries through.\<close>

theorem search_raises_first_errors:
  assumes "fst (thy_name api (snd (g_clock api (world st)))) = Inl e"
  shows "fst (mcts_prove_theorem api cls steps m thm_text st) = Inl e"
  using assms
  by (simp add: mcts_prove_theorem_def andThen_def now_def reset_session_def on_self_def change_def ask_gym_def gym_api.defs split_beta)

end
