(* ===== verification/Training_Data.thy ===== *)
theory Training_Data
  imports Mcts_Agent Ordered_Dict Py_Regex
begin

text \<open>
  The collection of training data (\<open>evaluation/local_gym/training_data_system.py\<close>): the constants a tactic mentions, the log
  of a proof session, the collector with its exports and its report, and the agent that proves with a base agent while every
  tactic is logged.

  The sessions are shared objects: the collector keeps a store of all it ever made and refers to them by their place in it.
  Dates, new identifiers and the writing of a file are parameters. Of the logical symbols and of the mark of a finished
  goal only 8-bit characters can be written; the turnstile of the mark is \<open>|-\<close> here.
\<close>

section \<open>The constants of a tactic\<close>

definition training_keywords :: "pystr list" where
  "training_keywords =
     [''by'', ''apply'', ''simp'', ''auto'', ''blast'', ''arith'', ''force'',
      ''intro'', ''elim'', ''cases'', ''induction'', ''rule'', ''erule'',
      ''assumption'', ''trivial'', ''clarify'', ''safe'', ''fast'',
      ''where'', ''using'', ''have'', ''show'', ''fix'', ''assume'',
      ''obtain'', ''consider'', ''define'', ''let'', ''moreover'',
      ''ultimately'', ''hence'', ''thus'', ''then'', ''finally'']"

definition logic_symbols :: "pystr list" where
  "logic_symbols = [[CHR 0xAC], ''='', ''<'', ''>'']"

definition is_upper_ascii :: "char \<Rightarrow> bool" where
  "is_upper_ascii c = (65 \<le> ord c \<and> ord c \<le> 90)"

definition is_lower_ascii :: "char \<Rightarrow> bool" where
  "is_lower_ascii c = (97 \<le> ord c \<and> ord c \<le> 122)"

definition ident_first :: "char \<Rightarrow> bool" where
  "ident_first c = (is_alpha_ascii c \<or> c = CHR ''_'')"

definition ident_rest :: "char \<Rightarrow> bool" where
  "ident_rest c = (is_alpha_ascii c \<or> is_digit_ascii c \<or> c = CHR ''_'')"

definition dotted :: "(char \<Rightarrow> bool) \<Rightarrow> re" where
  "dotted P = seqs [Chr P, Star (Chr ident_rest), Star (seqs [lit ''.'', Chr P, Star (Chr ident_rest)])]"

definition rule_pattern :: re where
  "rule_pattern = seqs [alts [lit ''rule'', lit ''erule'', lit ''drule''], Plus (Chr is_space), Grp 1 (dotted ident_first)]"

definition using_pattern :: re where
  "using_pattern = seqs [lit ''using'', Plus (Chr is_space), Grp 1 (LazyPlus (Chr (\<lambda>c. c \<noteq> CHR '')''))),
     alts [Chr is_space, TextEnd, lit ''by'', lit ''apply'']]"

definition number_pattern :: re where
  "number_pattern = seqs [WordBoundary, Plus (Chr is_digit_ascii), WordBoundary]"

definition type_pattern :: re where
  "type_pattern = seqs [WordBoundary, Grp 1 (dotted is_upper_ascii), WordBoundary]"

definition identifier_pattern :: re where
  "identifier_pattern = seqs [WordBoundary, Grp 1 (seqs [Chr (\<lambda>c. is_lower_ascii c \<or> c = CHR ''_''), Star (Chr ident_rest)]), WordBoundary]"

definition first_groups :: "re \<Rightarrow> pystr \<Rightarrow> pystr list" where
  "first_groups r s = List.map_filter (\<lambda>(a, b, g). group 1 g) (finditer r s)"

definition is_keyword :: "pystr \<Rightarrow> bool" where
  "is_keyword w = (w \<in> set training_keywords)"

definition extract_theorem_references :: "pystr \<Rightarrow> pystr list" where
  "extract_theorem_references trick =
     filter (\<lambda>r. \<not> is_keyword r) (first_groups rule_pattern trick) @
     filter (\<lambda>r. r \<noteq> [] \<and> \<not> is_keyword r)
       (map (strip_chars (set ''(),[]'')) (concat (map words_of (first_groups using_pattern trick))))"

definition extract_math_constants :: "pystr \<Rightarrow> pystr list" where
  "extract_math_constants trick = findall number_pattern trick @ filter (contains trick) logic_symbols"

definition extract_type_constructors :: "pystr \<Rightarrow> pystr list" where
  "extract_type_constructors trick = filter (\<lambda>c. \<not> is_keyword c) (first_groups type_pattern trick)"

definition extract_function_names :: "pystr \<Rightarrow> pystr list" where
  "extract_function_names trick =
     filter (\<lambda>n. \<not> is_keyword n \<and> 1 < length n \<and> \<not> list_all is_digit_ascii n) (first_groups identifier_pattern trick)"

definition extract_from_tactic :: "pystr \<Rightarrow> pystr list" where
  "extract_from_tactic trick =
     sorted_set (extract_theorem_references trick @ extract_math_constants trick @ extract_type_constructors trick
       @ extract_function_names trick)"

section \<open>The log of a session\<close>

record invocation =
  iv_before :: pystr
  iv_after :: pystr
  iv_tactic :: pystr
  iv_success :: bool
  iv_goal :: int
  iv_goals_before :: "pystr list"
  iv_goals_after :: "pystr list"
  iv_constants :: "pystr list"
  iv_time :: real
  iv_theorem :: pystr
  iv_step :: nat
  iv_agent :: pystr
  iv_stamp :: pystr
  iv_depth :: nat
  iv_total :: nat
  iv_reduced :: int

record ml_record =
  ml_goal :: pystr
  ml_all_subgoals :: "pystr list"
  ml_goal_id :: int
  ml_theorem :: pystr
  ml_context :: "pystr list"
  ml_proof_step :: nat
  ml_depth :: nat
  ml_target :: pystr
  ml_success :: bool
  ml_time :: real
  ml_change :: "nat \<times> nat"
  ml_agent :: pystr
  ml_stamp :: pystr

definition to_ml_format :: "invocation \<Rightarrow> ml_record" where
  "to_ml_format v = \<lparr>ml_goal = iv_before v, ml_all_subgoals = iv_goals_before v, ml_goal_id = iv_goal v, ml_theorem = iv_theorem v,
     ml_context = iv_constants v, ml_proof_step = iv_step v, ml_depth = iv_depth v, ml_target = iv_tactic v,
     ml_success = iv_success v, ml_time = iv_time v, ml_change = (length (iv_goals_before v), length (iv_goals_after v)),
     ml_agent = iv_agent v, ml_stamp = iv_stamp v\<rparr>"

record proof_log =
  pl_theorem :: pystr
  pl_agent :: pystr
  pl_id :: pystr
  pl_start :: pystr
  pl_end :: "pystr option"
  pl_success :: bool
  pl_steps :: nat
  pl_duration :: real
  pl_error :: "pystr option"
  pl_invocations :: "invocation list"
  pl_final :: "pystr option"
  pl_good :: nat
  pl_bad :: nat
  pl_unique :: "pystr list"

definition new_log :: "pystr \<Rightarrow> pystr \<Rightarrow> pystr \<Rightarrow> pystr \<Rightarrow> proof_log" where
  "new_log thm_text agent_name sid t = \<lparr>pl_theorem = thm_text, pl_agent = agent_name, pl_id = sid, pl_start = t, pl_end = None,
     pl_success = False, pl_steps = 0, pl_duration = 0, pl_error = None, pl_invocations = [], pl_final = None, pl_good = 0,
     pl_bad = 0, pl_unique = []\<rparr>"

definition add_tactic_invocation :: "invocation \<Rightarrow> proof_log \<Rightarrow> proof_log" where
  "add_tactic_invocation v l =
     l\<lparr>pl_invocations := pl_invocations l @ [v], pl_steps := pl_steps l + 1,
       pl_good := (if iv_success v then pl_good l + 1 else pl_good l),
       pl_bad := (if iv_success v then pl_bad l else pl_bad l + 1),
       pl_unique := (if iv_tactic v \<in> set (pl_unique l) then pl_unique l else pl_unique l @ [iv_tactic v])\<rparr>"

definition log_success_rate :: "proof_log \<Rightarrow> real" where
  "log_success_rate l = (if pl_steps l = 0 then 0 else real (pl_good l) / real (pl_steps l))"

record log_summary =
  sm_id :: pystr
  sm_theorem :: pystr
  sm_agent :: pystr
  sm_success :: bool
  sm_duration :: real
  sm_steps :: nat
  sm_rate :: real
  sm_unique :: nat
  sm_start :: pystr
  sm_end :: "pystr option"

definition to_summary :: "proof_log \<Rightarrow> log_summary" where
  "to_summary l = \<lparr>sm_id = pl_id l, sm_theorem = pl_theorem l, sm_agent = pl_agent l, sm_success = pl_success l,
     sm_duration = pl_duration l, sm_steps = pl_steps l, sm_rate = log_success_rate l, sm_unique = length (pl_unique l),
     sm_start = pl_start l, sm_end = pl_end l\<rparr>"

section \<open>The collector\<close>

text \<open>\<open>tc_store\<close> holds every session made; \<open>tc_current\<close> and \<open>tc_collected\<close> refer to them.\<close>

record collector =
  tc_store :: "proof_log list"
  tc_current :: "nat option"
  tc_collected :: "nat list"
  tc_total :: nat
  tc_good :: nat
  tc_auto_save :: bool
  tc_files :: "(pystr, proof_log) od"

definition new_collector :: "bool \<Rightarrow> collector" where
  "new_collector auto_save = \<lparr>tc_store = [], tc_current = None, tc_collected = [], tc_total = 0, tc_good = 0,
     tc_auto_save = auto_save, tc_files = []\<rparr>"

record 'w train_gym = "'w gym_api" +
  stamp :: "'w \<Rightarrow> pystr \<times> 'w"
  name_stamp :: "'w \<Rightarrow> pystr \<times> 'w"
  write_json :: "pystr \<Rightarrow> 'w \<Rightarrow> (exn + unit) \<times> 'w"

type_synonym ('w, 'm, 'a) train_act = "('w, 'm \<times> collector, 'a) act"

definition get_collector :: "('w, 'm, collector) train_act" where
  "get_collector = fetch (\<lambda>st. snd (mind st))"

definition on_collector :: "(collector \<Rightarrow> collector) \<Rightarrow> ('w, 'm, unit) train_act" where
  "on_collector f = change (\<lambda>st. st\<lparr>mind := (fst (mind st), f (snd (mind st)))\<rparr>)"

definition on_log :: "nat \<Rightarrow> (proof_log \<Rightarrow> proof_log) \<Rightarrow> collector \<Rightarrow> collector" where
  "on_log i f c = c\<lparr>tc_store := (tc_store c)[i := f (tc_store c ! i)]\<rparr>"

definition read_stamp :: "('w \<Rightarrow> pystr \<times> 'w) \<Rightarrow> ('w, 'm, pystr) train_act" where
  "read_stamp f st = (case f (world st) of (t, w) \<Rightarrow> (Inr t, st\<lparr>world := w\<rparr>))"

definition start_log :: "proof_log \<Rightarrow> collector \<Rightarrow> collector" where
  "start_log l c = c\<lparr>tc_store := tc_store c @ [l], tc_current := Some (length (tc_store c))\<rparr>"

definition start_session :: "'w train_gym \<Rightarrow> pystr \<Rightarrow> pystr \<Rightarrow> ('w, 'm, pystr) train_act" where
  "start_session api thm_text agent_name =
     andThen (read_stamp (name_stamp api)) (\<lambda>n.
     andThen (read_stamp (stamp api)) (\<lambda>t.
     let sid = ''session_'' @ n in
     andThen (on_collector (start_log (new_log thm_text agent_name sid t))) (\<lambda>_. ret sid)))"

definition goal_text :: "int \<Rightarrow> pystr list \<Rightarrow> pystr option" where
  "goal_text i goals = (if 0 \<le> i \<and> i < int (length goals) then Some (goals ! nat i) else None)"

definition make_invocation :: "proof_context \<Rightarrow> proof_context \<Rightarrow> pystr \<Rightarrow> int \<Rightarrow> bool \<Rightarrow> real \<Rightarrow> proof_log \<Rightarrow> pystr \<Rightarrow> invocation" where
  "make_invocation b a trick goal good seconds l t =
     \<lparr>iv_before = (case goal_text goal (subgoals b) of Some g \<Rightarrow> g | None \<Rightarrow> []),
      iv_after = (case goal_text goal (subgoals a) of Some g \<Rightarrow> g | None \<Rightarrow> if length (subgoals a) = 0 then ''|- True'' else []),
      iv_tactic = trick, iv_success = good, iv_goal = goal, iv_goals_before = subgoals b, iv_goals_after = subgoals a,
      iv_constants = extract_from_tactic trick, iv_time = seconds * 1000, iv_theorem = pl_theorem l,
      iv_step = length (pl_invocations l), iv_agent = pl_agent l, iv_stamp = t, iv_depth = proof_depth b,
      iv_total = length (subgoals b), iv_reduced = int (length (subgoals b)) - int (length (subgoals a))\<rparr>"

definition log_invocation :: "nat \<Rightarrow> invocation \<Rightarrow> collector \<Rightarrow> collector" where
  "log_invocation i v c =
     (on_log i (add_tactic_invocation v) c)
       \<lparr>tc_total := tc_total c + 1, tc_good := (if iv_success v then tc_good c + 1 else tc_good c)\<rparr>"

definition record_tactic_invocation :: "'w train_gym \<Rightarrow> proof_context \<Rightarrow> proof_context \<Rightarrow> pystr \<Rightarrow> int \<Rightarrow> bool \<Rightarrow> real
    \<Rightarrow> ('w, 'm, unit) train_act" where
  "record_tactic_invocation api b a trick goal good seconds =
     andThen get_collector (\<lambda>c. case tc_current c of
       None \<Rightarrow> throw (Exn C_RuntimeError ''No active session. Call start_session() first.'')
     | Some i \<Rightarrow>
         andThen (read_stamp (stamp api)) (\<lambda>t.
         on_collector (log_invocation i (make_invocation b a trick goal good seconds (tc_store c ! i) t))))"

definition complete_log :: "proof_result \<Rightarrow> pystr \<Rightarrow> proof_log \<Rightarrow> proof_log" where
  "complete_log r t l =
     l\<lparr>pl_end := Some t, pl_success := pf_success r, pl_duration := pf_duration r, pl_final := Some (pf_state r),
       pl_error := (if truthy (pf_error r) then pf_error r else pl_error l)\<rparr>"

definition archive :: "nat \<Rightarrow> proof_result \<Rightarrow> pystr \<Rightarrow> collector \<Rightarrow> collector" where
  "archive i r t c = (on_log i (complete_log r t) c)\<lparr>tc_collected := tc_collected c @ [i]\<rparr>"

definition save_session :: "'w train_gym \<Rightarrow> nat \<Rightarrow> ('w, 'm, unit) train_act" where
  "save_session api i =
     andThen get_collector (\<lambda>c.
     let l = tc_store c ! i; filename = pl_id l @ ''.json'' in
     andThen (ask_gym (write_json api filename)) (\<lambda>_. on_collector (\<lambda>c. c\<lparr>tc_files := od_set filename l (tc_files c)\<rparr>)))"

definition end_session :: "'w train_gym \<Rightarrow> proof_result \<Rightarrow> ('w, 'm, unit) train_act" where
  "end_session api r =
     andThen get_collector (\<lambda>c. case tc_current c of
       None \<Rightarrow> ret ()
     | Some i \<Rightarrow>
         andThen (read_stamp (stamp api)) (\<lambda>t.
         andThen (on_collector (archive i r t)) (\<lambda>_.
         andThen (if tc_auto_save c then save_session api i else ret ()) (\<lambda>_.
         on_collector (\<lambda>c. c\<lparr>tc_current := None\<rparr>)))))"

section \<open>Exports and the report\<close>

definition collected :: "collector \<Rightarrow> proof_log list" where
  "collected c = map (\<lambda>i. tc_store c ! i) (tc_collected c)"

definition get_training_dataset :: "bool \<Rightarrow> bool \<Rightarrow> collector \<Rightarrow> invocation list" where
  "get_training_dataset only_good only_proved c =
     concat (map (\<lambda>l. if only_proved \<and> \<not> pl_success l then []
                       else filter (\<lambda>v. \<not> (only_good \<and> \<not> iv_success v)) (pl_invocations l)) (collected c))"

text \<open>What an export writes, and the path it returns; \<open>csv_path\<close> is \<open>with_suffix('.csv')\<close>.\<close>

datatype exported =
    Json_Lines pystr "ml_record list"
  | Csv_Rows pystr "(pystr \<times> pystr \<times> bool \<times> real \<times> nat \<times> nat \<times> pystr) list"

definition csv_row :: "invocation \<Rightarrow> pystr \<times> pystr \<times> bool \<times> real \<times> nat \<times> nat \<times> pystr" where
  "csv_row v = (iv_before v, iv_tactic v, iv_success v, iv_time v, length (iv_goals_before v), length (iv_goals_after v), iv_agent v)"

definition export_for_ml_training :: "(pystr \<Rightarrow> pystr) \<Rightarrow> pystr \<Rightarrow> pystr \<Rightarrow> bool \<Rightarrow> bool \<Rightarrow> collector \<Rightarrow> exn + exported \<times> pystr" where
  "export_for_ml_training csv_path output_path format_type only_good only_proved c =
     (let dataset = get_training_dataset only_good only_proved c in
      if format_type = ''jsonl'' then Inr (Json_Lines output_path (map to_ml_format dataset), output_path)
      else if format_type = ''csv'' then Inr (Csv_Rows (csv_path output_path) (map csv_row dataset), output_path)
      else Inl (Exn C_ValueError (''Unsupported format: '' @ format_type)))"

record training_report =
  rp_sessions :: nat
  rp_proved :: nat
  rp_session_rate :: real
  rp_invocations :: nat
  rp_good :: nat
  rp_rate :: real
  rp_top :: "(pystr \<times> nat) list"
  rp_summaries :: "log_summary list"

definition count_tactic :: "invocation \<Rightarrow> (pystr, nat) od \<Rightarrow> (pystr, nat) od" where
  "count_tactic v d = od_set (iv_tactic v) ((case od_get (iv_tactic v) d of None \<Rightarrow> 0 | Some n \<Rightarrow> n) + 1) d"

definition tactic_counts :: "collector \<Rightarrow> (pystr, nat) od" where
  "tactic_counts c = fold count_tactic (concat (map pl_invocations (collected c))) []"

definition generate_report :: "collector \<Rightarrow> pystr + training_report" where
  "generate_report c =
     (let ls = collected c;
          proved = length (filter pl_success ls);
          total = sum_list (map (\<lambda>l. length (pl_invocations l)) ls);
          good = sum_list (map pl_good ls) in
      if ls = [] then Inl ''No sessions collected''
      else Inr \<lparr>rp_sessions = length ls, rp_proved = proved, rp_session_rate = real proved / real (length ls),
        rp_invocations = total, rp_good = good, rp_rate = (if 0 < total then real good / real total else 0),
        rp_top = take 10 (sort_key (\<lambda>p. - int (snd p)) (tactic_counts c)), rp_summaries = map to_summary ls\<rparr>)"

section \<open>The agent that collects\<close>

definition finish :: "'w train_gym \<Rightarrow> real \<Rightarrow> bool \<Rightarrow> nat \<Rightarrow> nat \<Rightarrow> pystr option \<Rightarrow> ('w, 'm, proof_result) train_act" where
  "finish api start good steps len msg =
     andThen (now (gym_api.truncate api)) (\<lambda>t.
     andThen (ask_gym (g_source api)) (\<lambda>src. ret (mcts_result good (t - start) steps len src msg)))"

definition early :: "'w train_gym \<Rightarrow> real \<Rightarrow> pystr \<Rightarrow> ('w, 'm, proof_result) train_act" where
  "early api start msg = andThen (now (gym_api.truncate api)) (\<lambda>t. ret (mcts_result False (t - start) 0 0 [] (Some msg)))"

text \<open>One tactic of the base agent, logged; a failed one is only noted as attempted.\<close>

definition logged_tactic :: "'w train_gym \<Rightarrow> pystr \<Rightarrow> int \<Rightarrow> proof_context \<Rightarrow> ('w, 'm, proof_context) train_act" where
  "logged_tactic api trick goal c =
     (let b = (ProofContext (subgoals c) (current_theorem c))\<lparr>priorities := (if length (priorities c) \<noteq> length (subgoals c)
                 then replicate (length (subgoals c)) 1 else priorities c), proof_depth := proof_depth c\<rparr> in
      andThen (now (gym_api.truncate api)) (\<lambda>t0.
      andThen (ask_gym (g_step api trick)) (\<lambda>res.
      andThen (now (gym_api.truncate api)) (\<lambda>t1.
      andThen (ask_gym (g_goals api)) (\<lambda>after_goals.
      let a = (ProofContext after_goals (current_theorem c @ [CHR 0x0A] @ trick))\<lparr>priorities := replicate (length after_goals) 0,
                proof_depth := proof_depth c + (if local_syntax_ok res then 1 else 0)\<rparr>;
          good = (local_syntax_ok res \<and> (length after_goals \<noteq> length (subgoals b) \<or> after_goals \<noteq> subgoals b)) in
      andThen (record_tactic_invocation api b a trick goal good (t1 - t0)) (\<lambda>_.
      ret (if good then a else c\<lparr>attempted_tactics := attempted_tactics c @ [trick]\<rparr>)))))))"

fun train_loop :: "'w train_gym \<Rightarrow> ('w, 'm \<times> collector) agent_class \<Rightarrow> limits \<Rightarrow> real \<Rightarrow> nat \<Rightarrow> nat \<Rightarrow> proof_context
    \<Rightarrow> ('w, 'm, proof_result) train_act" where
  "train_loop api cls bnd start 0 k c =
     finish api start False (max_steps bnd) (proof_depth c) (Some (''Maximum steps '' @ show_nat (max_steps bnd) @ '' reached''))"
| "train_loop api cls bnd start (Suc n) k c =
     andThen (now (gym_api.truncate api)) (\<lambda>t.
     if time_limit bnd < t - start
     then finish api start False k (proof_depth c) (Some (''Search timeout after '' @ time_limit_text bnd @ ''s''))
     else if is_complete c then finish api start True k (proof_depth c) None
     else if max_depth bnd \<le> proof_depth c
     then finish api start False k (proof_depth c) (Some (''Maximum depth '' @ show_nat (max_depth bnd) @ '' reached''))
     else
       andThen (if 1 < length (subgoals c)
                then andThen (evaluate_priorities cls c) (\<lambda>ps. ret (c\<lparr>priorities := ps\<rparr>)) else ret c) (\<lambda>c1.
       let goal = active_goal_id c1 in
       if goal < 0 then finish api start False k (proof_depth c1) (Some ''No available goals'')
       else
         andThen (recommend_tactic cls c1 goal) (\<lambda>tac.
         if \<not> truthy tac then finish api start False k (proof_depth c1) (Some ''No more tactics available'')
         else andThen (logged_tactic api (or_else tac []) goal c1) (\<lambda>c2. train_loop api cls bnd start n (Suc k) c2))))"

definition search_with_data :: "'w train_gym \<Rightarrow> ('w, 'm \<times> collector) agent_class \<Rightarrow> limits \<Rightarrow> pystr
    \<Rightarrow> ('w, 'm, proof_result) train_act" where
  "search_with_data api cls bnd thm_text =
     andThen (now (gym_api.truncate api)) (\<lambda>start.
     andThen reset_session (\<lambda>_.
     andThen (catch
        (andThen (ask_gym (g_step api thm_text)) (\<lambda>res. ret (if local_syntax_ok res then None else Some (local_error_message res))))
        (\<lambda>e. ret (Some (str_of e)))) (\<lambda>bad. case bad of
       Some msg \<Rightarrow> early api start (''Failed to start theorem: '' @ msg)
     | None \<Rightarrow>
         andThen (ask_gym (g_goals api)) (\<lambda>goals.
         if goals = [] then early api start ''Failed to start theorem: No subgoals found after theorem statement''
         else train_loop api cls bnd start (max_steps bnd) 0
                ((ProofContext goals thm_text)\<lparr>priorities := replicate (length goals) 0\<rparr>)))))"

text \<open>The base agent has attributes of its own, kept beside the collector; its methods run on them.\<close>

type_synonym ('w, 'm) train_arena = "('w, ('m \<times> agent) \<times> collector) arena"

definition delegate :: "('w, 'm, 'a) act \<Rightarrow> ('w, 'm \<times> agent, 'a) train_act" where
  "delegate op st =
     (case op \<lparr>world = world st, mind = fst (fst (mind st)), self = snd (fst (mind st))\<rparr> of
        (r, b) \<Rightarrow> (r, st\<lparr>world := world b, mind := ((mind b, self b), snd (mind st))\<rparr>))"

definition TrainingDataAgent :: "('w, 'm) agent_class \<Rightarrow> ('w, ('m \<times> agent) \<times> collector) agent_class" where
  "TrainingDataAgent cls = \<lparr>recommend_tactic = (\<lambda>c i. delegate (recommend_tactic cls c i)),
     evaluate_priorities = (\<lambda>c. delegate (evaluate_priorities cls c))\<rparr>"

definition raised_result :: "exn \<Rightarrow> proof_result" where
  "raised_result e = mcts_result False 0 0 0 [] (Some (str_of e))"

definition train_prove_theorem :: "'w train_gym \<Rightarrow> ('w, 'm \<times> collector) agent_class \<Rightarrow> pystr \<Rightarrow> limits \<Rightarrow> pystr
    \<Rightarrow> ('w, 'm, proof_result) train_act" where
  "train_prove_theorem api cls base_name bnd thm_text =
     andThen (start_session api thm_text base_name) (\<lambda>_.
     catch
       (andThen (search_with_data api cls bnd thm_text) (\<lambda>r. andThen (end_session api r) (\<lambda>_. ret r)))
       (\<lambda>e. andThen (end_session api (raised_result e)) (\<lambda>_. throw e)))"

text \<open>A collector and an agent that writes to it, on the gym in world \<open>w\<close>.\<close>

definition create_training_data_agent :: "'m \<Rightarrow> agent \<Rightarrow> 'w \<Rightarrow> ('w, 'm) train_arena" where
  "create_training_data_agent m base_self w =
     \<lparr>world = w, mind = ((m, base_self), new_collector True), self = fresh_agent\<rparr>"

end
