(* ===== verification/Training_Properties.thy ===== *)
theory Training_Properties
  imports Training_Data Agent_Properties
begin

text \<open>
  What the collection of training data guarantees: the counters of a session are those of its invocations, every proof of a
  collecting agent is archived once with its outcome, and the report counts what the data set holds. The last section has the
  session that is archived twice because its file cannot be written.
\<close>

section \<open>The counters of a session\<close>

definition counters_right :: "proof_log \<Rightarrow> bool" where
  "counters_right l \<longleftrightarrow>
     pl_steps l = length (pl_invocations l) \<and> pl_good l = length (filter iv_success (pl_invocations l)) \<and>
     pl_good l + pl_bad l = pl_steps l \<and> distinct (pl_unique l) \<and> set (pl_unique l) = iv_tactic ` set (pl_invocations l)"

lemma counters_right_new: "counters_right (new_log thm_text agent_name sid t)"
  by (simp add: counters_right_def new_log_def)

lemma counters_right_add: "counters_right l \<Longrightarrow> counters_right (add_tactic_invocation v l)"
  by (auto simp: counters_right_def add_tactic_invocation_def)

lemma counters_right_finish [simp]: "counters_right (complete_log r t l) = counters_right l"
  by (simp add: counters_right_def complete_log_def)

section \<open>A proof is archived once\<close>

definition the_collector :: "('w, 'm \<times> collector) arena \<Rightarrow> collector" where
  "the_collector st = snd (mind st)"

definition discreet :: "('w, 'm \<times> collector) agent_class \<Rightarrow> bool" where
  "discreet cls \<longleftrightarrow> (\<forall>c i. keeps the_collector (recommend_tactic cls c i)) \<and> (\<forall>c. keeps the_collector (evaluate_priorities cls c))"

text \<open>A session with \<open>k\<close> invocations is open since the collector was \<open>c0\<close>; and the same session archived.\<close>

definition logging :: "collector \<Rightarrow> nat \<Rightarrow> ('w, 'm \<times> collector) arena \<Rightarrow> bool" where
  "logging c0 k st \<longleftrightarrow>
     (\<exists>l. tc_store (the_collector st) = tc_store c0 @ [l] \<and> counters_right l \<and> pl_steps l = k \<and>
        tc_current (the_collector st) = Some (length (tc_store c0)) \<and> tc_collected (the_collector st) = tc_collected c0 \<and>
        tc_total (the_collector st) = tc_total c0 + k)"

definition archived :: "collector \<Rightarrow> bool \<Rightarrow> nat \<Rightarrow> ('w, 'm \<times> collector) arena \<Rightarrow> bool" where
  "archived c0 good k st \<longleftrightarrow>
     (\<exists>l. tc_store (the_collector st) = tc_store c0 @ [l] \<and> counters_right l \<and> pl_steps l = k \<and> pl_success l = good \<and>
        tc_current (the_collector st) = None \<and> tc_collected (the_collector st) = tc_collected c0 @ [length (tc_store c0)] \<and>
        tc_total (the_collector st) = tc_total c0 + k)"

lemma the_collector_frames [frame]:
  "keeps the_collector (ask_gym f)" "keeps the_collector (now g)" "keeps the_collector (on_self h)"
  "keeps the_collector get_collector" "keeps the_collector (read_stamp s)"
  by (simp_all add: keeps_def the_collector_def ask_gym_def now_def on_self_def get_collector_def read_stamp_def change_def
      fetch_def split_beta)

lemma triple_ex: "(\<And>k. triple (P k) op Q E) \<Longrightarrow> triple (\<lambda>s. \<exists>k. P k s) op Q E"
  unfolding triple_def by (intro allI impI, elim exE) simp

lemma logging_cong: "the_collector st = the_collector st' \<Longrightarrow> logging c0 k st = logging c0 k st'"
  by (simp add: logging_def)

lemma triple_logging:
  assumes "keeps the_collector (op :: ('w, 'm, 'a) train_act)"
  shows "triple (logging c0 k) op (\<lambda>_. logging c0 k) (\<lambda>_ st. \<exists>k. logging c0 k st)"
  unfolding triple_def
proof (intro allI impI)
  fix s :: "('w, 'm \<times> collector) arena"
  assume "logging c0 k s"
  then have "logging c0 k (snd (op s))" using assms logging_cong [of "snd (op s)" s] by (simp add: keeps_def)
  then show "case op s of (Inr v, s') \<Rightarrow> logging c0 k s' | (Inl e, s') \<Rightarrow> \<exists>k. logging c0 k s'"
    by (cases "op s"; cases "fst (op s)") auto
qed

lemma on_collector_run: "on_collector f st = (Inr (), st\<lparr>mind := (fst (mind st), f (the_collector st))\<rparr>)"
  by (simp add: on_collector_def change_def the_collector_def)

lemma the_collector_put [simp]: "the_collector (st\<lparr>mind := (x, c)\<rparr>) = c"
  by (simp add: the_collector_def)

lemma start_session_logging:
  "triple (\<lambda>st. the_collector st = c0) (start_session api thm_text agent_name) (\<lambda>_. logging c0 0) E"
  by (auto simp: triple_def start_session_def andThen_def read_stamp_def Let_def on_collector_run ret_def logging_def counters_right_new
      start_log_def the_collector_def new_log_def counters_right_def split: prod.splits)

lemma record_logging:
  "triple (logging c0 k) (record_tactic_invocation api b a trick goal good seconds) (\<lambda>_. logging c0 (Suc k)) E"
  unfolding triple_def
proof (intro allI impI)
  fix st :: "('a, 'b \<times> collector) arena"
  assume "logging c0 k st"
  then obtain l where l: "tc_store (the_collector st) = tc_store c0 @ [l]" "counters_right l" "pl_steps l = k"
      "tc_current (the_collector st) = Some (length (tc_store c0))" "tc_collected (the_collector st) = tc_collected c0"
      "tc_total (the_collector st) = tc_total c0 + k" by (auto simp: logging_def)
  obtain t w where time: "stamp api (world st) = (t, w)" by force
  let ?v = "make_invocation b a trick goal good seconds l t"
  have run: "record_tactic_invocation api b a trick goal good seconds st =
      (Inr (), st\<lparr>world := w, mind := (fst (mind st), log_invocation (length (tc_store c0)) ?v (the_collector st))\<rparr>)"
    using l(1,4) time
    by (simp add: record_tactic_invocation_def get_collector_def andThen_def fetch_def read_stamp_def on_collector_def change_def
        the_collector_def)
  have "pl_steps (add_tactic_invocation ?v l) = Suc k" using l(3) by (simp add: add_tactic_invocation_def)
  then have "logging c0 (Suc k) (st\<lparr>world := w, mind := (fst (mind st), log_invocation (length (tc_store c0)) ?v (the_collector st))\<rparr>)"
    using l counters_right_add [OF l(2), of ?v]
    by (simp add: logging_def log_invocation_def on_log_def the_collector_def list_update_append nth_append)
  then show "case record_tactic_invocation api b a trick goal good seconds st of
      (Inr v, s') \<Rightarrow> logging c0 (Suc k) s' | (Inl e, s') \<Rightarrow> E e s'"
    using run by simp
qed

lemma finish_logging:
  "triple (logging c0 k) (finish api start good steps len msg)
    (\<lambda>r st. logging c0 k st \<and> pf_steps r = steps \<and> pf_success r = good) (\<lambda>_ st. \<exists>k. logging c0 k st)"
  unfolding finish_def
  apply (rule triple_andThen, rule triple_logging, rule frame)
  apply (rule triple_andThen, rule triple_logging, rule frame)
  by (rule triple_ret, simp add: mcts_result_def)

lemma early_logging:
  "triple (logging c0 0) (early api start msg) (\<lambda>r st. logging c0 (pf_steps r) st) (\<lambda>_ st. \<exists>k. logging c0 k st)"
  unfolding early_def
  by (rule triple_andThen, rule triple_logging, rule frame) (rule triple_ret, simp add: mcts_result_def)

lemma logged_tactic_logging:
  "triple (logging c0 k) (logged_tactic api trick goal c) (\<lambda>_. logging c0 (Suc k)) (\<lambda>_ st. \<exists>k. logging c0 k st)"
  unfolding logged_tactic_def Let_def
  apply (rule triple_andThen, rule triple_logging, rule frame)
  apply (rule triple_andThen, rule triple_logging, rule frame)
  apply (rule triple_andThen, rule triple_logging, rule frame)
  apply (rule triple_andThen, rule triple_logging, rule frame)
  by (rule triple_andThen, rule record_logging, rule triple_ret)

lemma train_loop_logging:
  assumes "discreet cls" and "k + n = max_steps bnd"
  shows "triple (logging c0 k) (train_loop api cls bnd start n k c) (\<lambda>r st. logging c0 (pf_steps r) st)
    (\<lambda>_ st. \<exists>k. logging c0 k st)"
  using assms(2)
proof (induction n arbitrary: k c)
  case 0
  then show ?case by (simp, intro triple_weaken [OF finish_logging]) auto
next
  case (Suc n)
  have stop: "triple (logging c0 k) (finish api start good k len msg) (\<lambda>r st. logging c0 (pf_steps r) st)
      (\<lambda>_ st. \<exists>k. logging c0 k st)" for good len msg
    by (rule triple_weaken [OF finish_logging]) auto
  have ask: "triple (logging c0 k) (recommend_tactic cls c' i) (\<lambda>_. logging c0 k) (\<lambda>_ st. \<exists>k. logging c0 k st)" for c' i
    using assms(1) by (intro triple_logging) (simp add: discreet_def)
  have weigh: "triple (logging c0 k) (if 1 < length (subgoals c)
      then andThen (evaluate_priorities cls c) (\<lambda>ps. ret (c\<lparr>priorities := ps\<rparr>)) else ret c)
      (\<lambda>_. logging c0 k) (\<lambda>_ st. \<exists>k. logging c0 k st)"
    using assms(1) by (intro triple_logging frame) (simp add: discreet_def)
  show ?case
    unfolding train_loop.simps Let_def
    apply (rule triple_andThen, rule triple_logging, rule frame)
    apply (rule triple_if, rule stop)
    apply (rule triple_if, rule stop)
    apply (rule triple_if, rule stop)
    apply (rule triple_andThen, rule weigh)
    apply (rule triple_if, rule stop)
    apply (rule triple_andThen, rule ask)
    apply (rule triple_if, rule stop)
    by (rule triple_andThen, rule logged_tactic_logging, rule Suc.IH) (use Suc.prems in simp)
qed

lemma search_logging:
  assumes "discreet cls"
  shows "triple (logging c0 0) (search_with_data api cls bnd thm_text) (\<lambda>r st. logging c0 (pf_steps r) st)
    (\<lambda>_ st. \<exists>k. logging c0 k st)"
  unfolding search_with_data_def reset_session_def
  apply (rule triple_andThen, rule triple_logging, rule frame)
  apply (rule triple_andThen, rule triple_logging, rule frame)
  apply (rule triple_andThen, rule triple_logging, intro frame)
  apply (rule triple_option)
   apply (rule triple_andThen, rule triple_logging, rule frame)
   apply (rule triple_if, rule early_logging)
   apply (rule train_loop_logging [OF assms], simp)
  by (rule early_logging)

lemma end_session_archives:
  assumes "\<And>f w. fst (write_json api f w) = Inr ()"
  shows "triple (logging c0 k) (end_session api r) (\<lambda>_. archived c0 (pf_success r) k) E"
  unfolding triple_def
proof (intro allI impI)
  fix st :: "('a, 'b \<times> collector) arena"
  assume "logging c0 k st"
  then obtain l where l: "tc_store (the_collector st) = tc_store c0 @ [l]" "counters_right l" "pl_steps l = k"
      "tc_current (the_collector st) = Some (length (tc_store c0))" "tc_collected (the_collector st) = tc_collected c0"
      "tc_total (the_collector st) = tc_total c0 + k" by (auto simp: logging_def)
  have can_write: "\<exists>w'. write_json api f w = (Inr (), w')" for f w using assms [of f w] by (cases "write_json api f w") simp
  obtain t w where time: "stamp api (world st) = (t, w)" by force
  obtain w' where saved: "write_json api (pl_id (complete_log r t l) @ ''.json'') w = (Inr (), w')" using can_write by blast
  have fin: "pl_steps (complete_log r t l) = k" "pl_success (complete_log r t l) = pf_success r"
    using l(3) by (simp_all add: complete_log_def)
  show "case end_session api r st of (Inr v, s') \<Rightarrow> archived c0 (pf_success r) k s' | (Inl e, s') \<Rightarrow> E e s'"
    using l time saved fin
    by (auto simp: end_session_def get_collector_def andThen_def fetch_def read_stamp_def on_collector_def change_def the_collector_def
        save_session_def ask_gym_def Let_def archive_def on_log_def archived_def ret_def list_update_append nth_append)
qed

lemma training_agent_discreet: "discreet (TrainingDataAgent cls)"
  by (simp add: discreet_def TrainingDataAgent_def keeps_def delegate_def the_collector_def split_beta)

text \<open>Property C38: every proof of a collecting agent is archived once.
  When session files can be written, a proof ends with no session open and exactly one more collected: a new one whose counters are
  those of its invocations, as many as the steps of the result, with the success of the result, or without one if the
  proof raised.\<close>

theorem training_archives_once:
  assumes "\<And>f w. fst (write_json api f w) = Inr ()"
    and "train_prove_theorem api (TrainingDataAgent cls) base_name bnd thm_text st = (out, st')"
  shows "tc_current (snd (mind st')) = None \<and>
    tc_collected (snd (mind st')) = tc_collected (snd (mind st)) @ [length (tc_store (snd (mind st)))] \<and>
    (\<exists>l. tc_store (snd (mind st')) = tc_store (snd (mind st)) @ [l] \<and> pl_steps l = length (pl_invocations l) \<and>
       pl_good l = length (filter iv_success (pl_invocations l)) \<and>
       tc_total (snd (mind st')) = tc_total (snd (mind st)) + pl_steps l \<and>
       (case out of Inr r \<Rightarrow> pl_success l = pf_success r \<and> pl_steps l = pf_steps r | Inl e \<Rightarrow> pl_success l = False))"
proof -
  let ?c0 = "the_collector st"
  have "triple (\<lambda>st. the_collector st = ?c0) (train_prove_theorem api (TrainingDataAgent cls) base_name bnd thm_text)
      (\<lambda>r. archived ?c0 (pf_success r) (pf_steps r)) (\<lambda>_ st. \<exists>k. archived ?c0 False k st)"
    unfolding train_prove_theorem_def
    apply (rule triple_andThen, rule start_session_logging)
    apply (rule triple_catch [where R = "\<lambda>_ st. \<exists>k. logging ?c0 k st"])
     apply (rule triple_andThen, rule search_logging [OF training_agent_discreet])
     apply (rule triple_andThen, rule end_session_archives [OF assms(1)], rule triple_ret, assumption)
    apply (rule triple_andThen [where R = "\<lambda>_ st. \<exists>k. archived ?c0 False k st"])
    subgoal for _ e
    proof -
      have "triple (logging ?c0 k) (end_session api (raised_result e)) (\<lambda>_ st. \<exists>k. archived ?c0 False k st) E" for k E
        by (rule triple_weaken [OF end_session_archives [OF assms(1)]]) (auto simp: raised_result_def mcts_result_def)
      then show ?thesis by (rule triple_ex)
    qed
    by (rule triple_throw)
  then have "case out of Inr r \<Rightarrow> archived ?c0 (pf_success r) (pf_steps r) st' | Inl e \<Rightarrow> \<exists>k. archived ?c0 False k st'"
    using assms(2) unfolding triple_def by (auto dest: spec [where x = st])
  then show ?thesis
    by (cases out) (auto simp: archived_def counters_right_def the_collector_def)
qed

section \<open>The report and the data set\<close>

lemma count_tactic_get:
  "od_get t (fold count_tactic vs d) =
     (case od_get t d of
        None \<Rightarrow> (if t \<in> iv_tactic ` set vs then Some (length (filter (\<lambda>v. iv_tactic v = t) vs)) else None)
      | Some n \<Rightarrow> Some (n + length (filter (\<lambda>v. iv_tactic v = t) vs)))"
  by (induction vs arbitrary: d) (auto simp: count_tactic_def split: option.splits)

lemma tactic_counts_ok: "od_ok d \<Longrightarrow> od_ok (fold count_tactic vs d)"
  by (induction vs arbitrary: d) (simp_all add: count_tactic_def)

lemma tactic_counts_mem:
  "(t, n) \<in> set (tactic_counts c) \<Longrightarrow> n = length (filter (\<lambda>v. iv_tactic v = t) (get_training_dataset False False c))"
proof -
  assume "(t, n) \<in> set (tactic_counts c)"
  moreover have "od_ok (tactic_counts c)" unfolding tactic_counts_def by (rule tactic_counts_ok) (simp add: od_ok_def od_keys_def)
  ultimately have "od_get t (tactic_counts c) = Some n" by (simp add: od_get_Some_iff)
  then show ?thesis by (auto simp: tactic_counts_def count_tactic_get get_training_dataset_def split: if_splits)
qed

lemma dataset_good: "list_all counters_right ls \<Longrightarrow>
    length (concat (map (\<lambda>l. filter iv_success (pl_invocations l)) ls)) = sum_list (map pl_good ls)"
  by (induction ls) (simp_all add: counters_right_def)

text \<open>The report counts what the data set holds.
  If the counters of the collected sessions are right, the report's number of invocations is the length of the whole data set,
  its number of successful ones that of the data set of successful tactics, and each of its top ten tactics occurs in the data set
  as often as the report says.\<close>

theorem report_counts_dataset:
  assumes "generate_report c = Inr r" and "list_all counters_right (collected c)"
  shows "rp_invocations r = length (get_training_dataset False False c) \<and>
    rp_good r = length (get_training_dataset True False c) \<and> rp_good r \<le> rp_invocations r \<and>
    list_all (\<lambda>(t, n). n = length (filter (\<lambda>v. iv_tactic v = t) (get_training_dataset False False c))) (rp_top r)"
proof -
  have top: "p \<in> set (tactic_counts c)" if "p \<in> set (take 10 (sort_key key (tactic_counts c)))"
    for key :: "pystr \<times> nat \<Rightarrow> int" and p
    using in_set_takeD [OF that] by simp
  have r: "rp_invocations r = length (get_training_dataset False False c)"
      "rp_good r = length (get_training_dataset True False c)" "set (rp_top r) \<subseteq> set (tactic_counts c)"
    using assms dataset_good [OF assms(2)]
    by (auto simp: generate_report_def Let_def get_training_dataset_def length_concat comp_def split: if_splits intro: top)
  have "length (concat (map (\<lambda>l. filter iv_success (pl_invocations l)) ls)) \<le> length (concat (map pl_invocations ls))" for ls
    by (induction ls) (auto intro: add_mono)
  then have "rp_good r \<le> rp_invocations r" using r by (simp add: get_training_dataset_def)
  then show ?thesis using r tactic_counts_mem by (fastforce simp: list_all_iff)
qed

section \<open>Concrete proofs\<close>

definition demo_train :: "bool \<Rightarrow> pystr list train_gym" where
  "demo_train writable = gym_api.extend demo_gym \<lparr>stamp = (\<lambda>w. (''today'', w)), name_stamp = (\<lambda>w. (''now'', w)),
     write_json = (\<lambda>f w. (if writable then Inr () else Inl (Exn C_OSError ''No space left on device''), w))\<rparr>"

definition demo_train_arena :: "(pystr list, counters) train_arena" where
  "demo_train_arena = create_training_data_agent (\<lambda>_. 0) fresh_agent []"

text \<open>\<open>by auto\<close> proves the goal; the second step finds it gone.\<close>

definition demo_training :: "bool \<Rightarrow> (exn + proof_result) \<times> (pystr list, counters) train_arena" where
  "demo_training writable =
     train_prove_theorem (demo_train writable) (TrainingDataAgent demo_class) ''simple'' (demo_limits 2) ''lemma a'' demo_train_arena"

text \<open>What is asked of a run, evaluated once for each.\<close>

definition training_facts :: "(exn + proof_result) \<times> (pystr list, counters) train_arena
    \<Rightarrow> (bool \<times> nat list \<times> nat option \<times> bool list) \<times> (nat list \<times> bool \<times> nat \<times> bool)" where
  "training_facts out =
     (let c = snd (mind (snd out)) in
      ((isl (fst out), tc_collected c, tc_current c, map pl_success (tc_store c)),
       (map pl_steps (collected c), isl (generate_report c), length (get_training_dataset True False c),
        list_all counters_right (collected c))))"

lemma demo_training_facts:
  "training_facts (demo_training True) = ((False, [0], None, [True]), ([1], False, 1, True))"
  "training_facts (demo_training False) = ((True, [0, 0], Some 0, [False]), ([1, 1], False, 2, True))"
  by code_simp+

lemma demo_training_runs:
  "isl (fst (demo_training True)) = False" "tc_collected (snd (mind (snd (demo_training True)))) = [0]"
  using demo_training_facts(1) by (simp_all add: training_facts_def Let_def)

theorem training_archives_once_witness:
  "tc_current (snd (mind (snd (demo_training True)))) = None \<and> tc_collected (snd (mind (snd (demo_training True)))) = [0] \<and>
    (\<exists>l. tc_store (snd (mind (snd (demo_training True)))) = [l] \<and> pl_steps l = length (pl_invocations l))"
proof -
  have writes: "fst (write_json (demo_train True) f w) = Inr ()" for f w by (simp add: demo_train_def gym_api.defs)
  have run: "train_prove_theorem (demo_train True) (TrainingDataAgent demo_class) ''simple'' (demo_limits 2) ''lemma a'' demo_train_arena
      = (fst (demo_training True), snd (demo_training True))" by (simp add: demo_training_def)
  show ?thesis using training_archives_once [OF writes run] demo_training_runs
    by (auto simp: demo_train_arena_def create_training_data_agent_def new_collector_def)
qed

definition demo_collector :: collector where
  "demo_collector = snd (mind (snd (demo_training True)))"

lemma demo_collector_report:
  "isl (generate_report demo_collector) = False" "length (get_training_dataset True False demo_collector) = 1"
  "list_all counters_right (collected demo_collector)"
  using demo_training_facts(1) by (simp_all add: training_facts_def demo_collector_def Let_def)

theorem report_counts_dataset_witness: "\<exists>r. generate_report demo_collector = Inr r \<and> rp_good r = 1 \<and> rp_invocations r \<ge> 1"
proof -
  obtain r where r: "generate_report demo_collector = Inr r"
    using demo_collector_report(1) by (cases "generate_report demo_collector") auto
  show ?thesis using report_counts_dataset [OF r demo_collector_report(3)] r demo_collector_report(2) by auto
qed

text \<open>A session whose file cannot be written is archived twice, and stays open: \<open>end_session\<close> raises after it has archived the
  session, and the agent's handler of that error ends the session once more.\<close>

theorem unwritable_session_archived_twice:
  "tc_collected (snd (mind (snd (demo_training False)))) = [0, 0] \<and> tc_current (snd (mind (snd (demo_training False)))) = Some 0
    \<and> map pl_success (tc_store (snd (mind (snd (demo_training False))))) = [False]"
  using demo_training_facts(2) by (simp add: training_facts_def Let_def)

text \<open>The references after \<open>using\<close>: the lazy group stops at the first space, and at a \<open>by\<close> or \<open>apply\<close> inside a name.\<close>

theorem using_takes_first_fact:
  "extract_theorem_references ''using List.foo Set.bar by simp'' = [''List.foo'']"
  "extract_theorem_references ''using rubyist'' = [''ru'']"
  by code_simp+

text \<open>An export as csv writes one file and returns the name of another.\<close>

theorem csv_export_path:
  "export_for_ml_training (\<lambda>f. f @ ''.csv'') ''data'' ''csv'' b p c =
     Inr (Csv_Rows ''data.csv'' (map csv_row (get_training_dataset b p c)), ''data'')"
  by (simp add: export_for_ml_training_def)

end
