(* ===== verification/Fast_Pool.thy ===== *)
theory Fast_Pool
  imports Py_Prelude "HOL-Library.Multiset"
begin

text \<open>
  The pool of warm backends for local gyms (\<open>evaluation/local_gym/session_pool.py\<close>): module-level state, a bounded queue, and
  gyms that threads open and close.

  Backends are numbered in the order they are made. The phase of a gym says how far its constructor or its \<open>close\<close> has come,
  and a move is what happens between two points where another thread may run: reading the flag, making a backend, a call on
  the queue. Whether the gateway starts, makes a backend or resets one is the choice of the environment. The printed
  messages are left out.
\<close>

section \<open>The state of the module\<close>

datatype gym_phase =
    Entering
  | Initialising
  | Warming nat
  | Putting nat nat
  | Getting
  | Creating
  | Gym_Open nat bool
  | Returning nat
  | Gym_Closed nat
  | Raised

record fast_pool =
  fp_gateways :: nat
  fp_initialised :: bool
  fp_queue :: "nat list"
  fp_made :: nat
  fp_dropped :: "nat list"
  fp_gyms :: "gym_phase list"

definition queue_size :: nat where
  "queue_size = 10"

definition warm_count :: nat where
  "warm_count = 3"

definition fresh_pool :: fast_pool where
  "fresh_pool = \<lparr>fp_gateways = 0, fp_initialised = False, fp_queue = [], fp_made = 0, fp_dropped = [], fp_gyms = []\<rparr>"

section \<open>Operations\<close>

text \<open>The lock makes the start of the gateway one step; a start that raises leaves \<open>None\<close> behind.\<close>

definition ensure_fast_gateway :: "bool \<Rightarrow> fast_pool \<Rightarrow> bool \<times> fast_pool" where
  "ensure_fast_gateway starts s =
     (if fp_gateways s = 0 then if starts then (True, s\<lparr>fp_gateways := 1\<rparr>) else (False, s) else (True, s))"

definition create_fast_backend :: "bool \<Rightarrow> bool \<Rightarrow> fast_pool \<Rightarrow> nat option \<times> fast_pool" where
  "create_fast_backend starts makes s =
     (case ensure_fast_gateway starts s of
        (False, s1) \<Rightarrow> (None, s1)
      | (True, s1) \<Rightarrow> if makes then (Some (fp_made s1), s1\<lparr>fp_made := fp_made s1 + 1\<rparr>) else (None, s1))"

definition return_backend :: "bool \<Rightarrow> nat \<Rightarrow> fast_pool \<Rightarrow> fast_pool" where
  "return_backend resets b s =
     (if resets \<and> length (fp_queue s) < queue_size then s\<lparr>fp_queue := fp_queue s @ [b]\<rparr>
      else s\<lparr>fp_dropped := fp_dropped s @ [b]\<rparr>)"

text \<open>The next move of a gym, if it has one: \<open>put\<close> waits while the queue is full, and an open gym waits to be closed.\<close>

fun gym_move :: "bool \<Rightarrow> bool \<Rightarrow> gym_phase \<Rightarrow> fast_pool \<Rightarrow> (gym_phase \<times> fast_pool) option" where
  "gym_move a b Entering s = Some (if fp_initialised s then Getting else Initialising, s)"
| "gym_move a b Initialising s = Some (if fp_initialised s then Getting else Warming 0, s)"
| "gym_move a b (Warming i) s =
     (if i < warm_count
      then case create_fast_backend a b s of (None, s1) \<Rightarrow> Some (Raised, s1) | (Some n, s1) \<Rightarrow> Some (Putting i n, s1)
      else Some (Getting, s\<lparr>fp_initialised := True\<rparr>))"
| "gym_move a b (Putting i n) s =
     (if length (fp_queue s) < queue_size then Some (Warming (Suc i), s\<lparr>fp_queue := fp_queue s @ [n]\<rparr>) else None)"
| "gym_move a b Getting s =
     (case fp_queue s of n # ns \<Rightarrow> Some (Gym_Open n True, s\<lparr>fp_queue := ns\<rparr>) | [] \<Rightarrow> Some (Creating, s))"
| "gym_move a b Creating s =
     (case create_fast_backend a b s of (None, s1) \<Rightarrow> Some (Raised, s1) | (Some n, s1) \<Rightarrow> Some (Gym_Open n False, s1))"
| "gym_move a b (Gym_Open n p) s = Some (Returning n, s)"
| "gym_move a b (Returning n) s = Some (Gym_Closed n, return_backend a n s)"
| "gym_move a b (Gym_Closed n) s = None"
| "gym_move a b Raised s = None"

inductive fp_step :: "fast_pool \<Rightarrow> fast_pool \<Rightarrow> bool" where
  arrive: "fp_step s (s\<lparr>fp_gyms := fp_gyms s @ [Entering]\<rparr>)"
| move: "\<lbrakk>i < length (fp_gyms s); gym_move a b (fp_gyms s ! i) s = Some (p, s')\<rbrakk>
    \<Longrightarrow> fp_step s (s'\<lparr>fp_gyms := (fp_gyms s)[i := p]\<rparr>)"

inductive_cases fp_stepE: "fp_step s t"

inductive fp_reach :: "fast_pool \<Rightarrow> bool" where
  start: "fp_reach fresh_pool"
| more: "\<lbrakk>fp_reach s; fp_step s s'\<rbrakk> \<Longrightarrow> fp_reach s'"

text \<open>The backend a method of the gym calls: none of the methods looks at \<open>_closed\<close>.\<close>

fun backend_of :: "gym_phase \<Rightarrow> nat option" where
  "backend_of (Gym_Open n p) = Some n"
| "backend_of (Returning n) = Some n"
| "backend_of (Gym_Closed n) = Some n"
| "backend_of _ = None"

section \<open>Every backend is accounted for\<close>

fun backends_held :: "gym_phase \<Rightarrow> nat list" where
  "backends_held (Putting i n) = [n]"
| "backends_held (Gym_Open n p) = [n]"
| "backends_held (Returning n) = [n]"
| "backends_held _ = []"

definition in_hands :: "gym_phase list \<Rightarrow> nat multiset" where
  "in_hands ps = (\<Sum>p \<in># mset ps. mset (backends_held p))"

definition numbered :: "nat \<Rightarrow> nat multiset" where
  "numbered n = mset [0..<n]"

lemma numbered_simps: "numbered 0 = {#}" "numbered (Suc n) = add_mset n (numbered n)"
  by (simp_all add: numbered_def del: mset_upt)

definition fp_ok :: "fast_pool \<Rightarrow> bool" where
  "fp_ok s \<longleftrightarrow> mset (fp_queue s) + in_hands (fp_gyms s) + mset (fp_dropped s) = numbered (fp_made s) \<and>
     length (fp_queue s) \<le> queue_size \<and> fp_gateways s \<le> 1 \<and> (0 < fp_made s \<longrightarrow> fp_gateways s = 1)"

lemma in_hands_simps [simp]:
  "in_hands [] = {#}" "in_hands (p # ps) = mset (backends_held p) + in_hands ps" "in_hands (ps @ qs) = in_hands ps + in_hands qs"
  by (simp_all add: in_hands_def)

lemma in_hands_split:
  assumes "i < length ps"
  obtains H where "in_hands ps = H + mset (backends_held (ps ! i))" and "\<And>p. in_hands (ps[i := p]) = H + mset (backends_held p)"
proof
  let ?H = "in_hands (take i ps) + in_hands (drop (Suc i) ps)"
  show "in_hands ps = ?H + mset (backends_held (ps ! i))"
    by (subst id_take_nth_drop [OF assms]) (simp add: ac_simps)
  show "in_hands (ps[i := p]) = ?H + mset (backends_held p)" for p
    using assms by (simp add: upd_conv_take_nth_drop ac_simps)
qed

text \<open>One move keeps the account, with what the gym held before exchanged for what it holds after.\<close>

lemma gym_move_account:
  assumes "gym_move a b q s = Some (p, s')"
    and "mset (fp_queue s) + (H + mset (backends_held q)) + mset (fp_dropped s) = numbered (fp_made s)"
  shows "mset (fp_queue s') + (H + mset (backends_held p)) + mset (fp_dropped s') = numbered (fp_made s') \<and> fp_gyms s' = fp_gyms s"
  using assms
  by (cases "(a, b, q, s)" rule: gym_move.cases)
    (auto simp: create_fast_backend_def ensure_fast_gateway_def return_backend_def numbered_simps ac_simps
      split: if_splits prod.splits option.splits bool.splits list.splits)

lemma gym_move_bounds:
  assumes "gym_move a b q s = Some (p, s')" and "length (fp_queue s) \<le> queue_size" and "fp_gateways s \<le> 1"
    and "0 < fp_made s \<longrightarrow> fp_gateways s = 1"
  shows "length (fp_queue s') \<le> queue_size \<and> fp_gateways s' \<le> 1 \<and> (0 < fp_made s' \<longrightarrow> fp_gateways s' = 1)"
  using assms
  by (cases "(a, b, q, s)" rule: gym_move.cases)
    (auto simp: create_fast_backend_def ensure_fast_gateway_def return_backend_def
      split: if_splits prod.splits option.splits bool.splits list.splits)

lemma fp_step_ok: "\<lbrakk>fp_step s s'; fp_ok s\<rbrakk> \<Longrightarrow> fp_ok s'"
proof (induction rule: fp_step.induct)
  case (arrive s)
  then show ?case by (simp add: fp_ok_def)
next
  case (move i s a b p s')
  obtain H where H: "in_hands (fp_gyms s) = H + mset (backends_held (fp_gyms s ! i))"
      "in_hands ((fp_gyms s)[i := p]) = H + mset (backends_held p)"
    using in_hands_split [OF move.hyps(1)] by metis
  show ?case
    using gym_move_account [OF move.hyps(2), of H] gym_move_bounds [OF move.hyps(2)] move.prems H
    by (simp add: fp_ok_def)
qed

lemma fp_reach_ok: "fp_reach s \<Longrightarrow> fp_ok s"
proof (induction rule: fp_reach.induct)
  case start
  then show ?case by (simp add: fp_ok_def fresh_pool_def numbered_simps queue_size_def)
next
  case (more s s')
  then show ?case using fp_step_ok by blast
qed

lemma mset_held: "mset (concat (map backends_held ps)) = in_hands ps"
  by (induction ps) simp_all

lemma set_numbered: "set_mset (numbered n) = {..<n}"
  by (auto simp: numbered_def)

lemma held_twice:
  assumes "i < length ps" "j < length ps" "i \<noteq> j" "n \<in> set (backends_held (ps ! i))" "n \<in> set (backends_held (ps ! j))"
  shows "\<not> distinct (concat (map backends_held ps))"
  using assms
proof (induction ps arbitrary: i j)
  case (Cons p ps)
  then show ?case by (cases i; cases j) fastforce+
qed simp

text \<open>Property C39: the pool of warm backends accounts for every backend.
  In every reachable state, with any number of gyms opened and closed at the same time, each backend ever made is in the queue,
  held by one gym, or dropped, and exactly once; two open gyms never share one; the queue holds at most ten and at most one
  gateway was started.\<close>

theorem fast_pool_accounted:
  assumes "fp_reach s"
  shows "distinct (fp_queue s @ concat (map backends_held (fp_gyms s)) @ fp_dropped s) \<and>
    set (fp_queue s @ concat (map backends_held (fp_gyms s)) @ fp_dropped s) = {..<fp_made s} \<and>
    length (fp_queue s) \<le> 10 \<and> fp_gateways s \<le> 1 \<and>
    (\<forall>i j n p m q. i < j \<and> j < length (fp_gyms s) \<and> fp_gyms s ! i = Gym_Open n p \<and> fp_gyms s ! j = Gym_Open m q \<longrightarrow> n \<noteq> m)"
proof -
  let ?all = "fp_queue s @ concat (map backends_held (fp_gyms s)) @ fp_dropped s"
  have ok: "mset ?all = numbered (fp_made s)" "length (fp_queue s) \<le> 10" "fp_gateways s \<le> 1"
    using fp_reach_ok [OF assms] by (simp_all add: fp_ok_def mset_held queue_size_def ac_simps)
  then have "mset ?all = mset [0..<fp_made s]" by (simp only: numbered_def)
  then have d: "distinct ?all" by (metis distinct_upt mset_eq_imp_distinct_iff)
  have "set ?all = {..<fp_made s}" using ok(1) set_numbered by (metis set_mset_mset)
  moreover have "n \<noteq> m" if "i < j" "j < length (fp_gyms s)" "fp_gyms s ! i = Gym_Open n p" "fp_gyms s ! j = Gym_Open m q"
    for i j n p m q
    using held_twice [of i "fp_gyms s" j n] d that by auto
  ultimately show ?thesis using d ok(2,3) by blast
qed

section \<open>Concrete runs\<close>

text \<open>An event is a new gym (\<open>None\<close>) or a move of the gym with a number.\<close>

fun fp_run :: "nat option list \<Rightarrow> fast_pool \<Rightarrow> fast_pool option" where
  "fp_run [] s = Some s"
| "fp_run (None # es) s = fp_run es (s\<lparr>fp_gyms := fp_gyms s @ [Entering]\<rparr>)"
| "fp_run (Some i # es) s =
     (if i < length (fp_gyms s)
      then case gym_move True True (fp_gyms s ! i) s of
          Some (p, s') \<Rightarrow> fp_run es (s'\<lparr>fp_gyms := (fp_gyms s)[i := p]\<rparr>)
        | None \<Rightarrow> None
      else None)"

lemma fp_run_reach: "\<lbrakk>fp_run es s = Some s'; fp_reach s\<rbrakk> \<Longrightarrow> fp_reach s'"
proof (induction es s rule: fp_run.induct)
  case (2 es s)
  then show ?case using fp_reach.more [OF _ fp_step.arrive] by simp
next
  case (3 i es s)
  then obtain p s1 where move: "i < length (fp_gyms s)" "gym_move True True (fp_gyms s ! i) s = Some (p, s1)"
      "fp_run es (s1\<lparr>fp_gyms := (fp_gyms s)[i := p]\<rparr>) = Some s'"
    by (auto split: if_splits option.splits)
  from fp_reach.more [OF "3.prems"(2) fp_step.move [OF move(1,2)]] show ?case
    using "3.IH" [OF move(1,2) refl move(3)] by simp
qed simp

text \<open>The first gym warms three backends and takes one, the next two take the others; then the first is closed and a fourth
  opened.\<close>

definition reuse_run :: "nat option list" where
  "reuse_run = [None, None, None, None] @ replicate 10 (Some 0) @ replicate 2 (Some 1) @ replicate 2 (Some 2)
     @ replicate 2 (Some 0) @ replicate 2 (Some 3)"

definition reused_pool :: fast_pool where
  "reused_pool = \<lparr>fp_gateways = 1, fp_initialised = True, fp_queue = [], fp_made = 3, fp_dropped = [],
     fp_gyms = [Gym_Closed 0, Gym_Open 1 True, Gym_Open 2 True, Gym_Open 0 True]\<rparr>"

lemma reuse_run_ends: "fp_run reuse_run fresh_pool = Some reused_pool"
  by code_simp

lemma reused_pool_reach: "fp_reach reused_pool"
  by (rule fp_run_reach [OF reuse_run_ends fp_reach.start])

theorem fast_pool_accounted_witness:
  "distinct (fp_queue reused_pool @ concat (map backends_held (fp_gyms reused_pool)) @ fp_dropped reused_pool) \<and>
   length (fp_gyms reused_pool) = 4"
  using fast_pool_accounted [OF reused_pool_reach] by (simp add: reused_pool_def)

text \<open>A closed gym keeps its backend and its methods do not ask whether it is closed: here they would run on the backend of
  the fourth gym.\<close>

theorem closed_gym_shares_backend:
  "fp_reach reused_pool \<and> fp_gyms reused_pool ! 0 = Gym_Closed 0 \<and> fp_gyms reused_pool ! 3 = Gym_Open 0 True \<and>
   backend_of (fp_gyms reused_pool ! 0) = backend_of (fp_gyms reused_pool ! 3)"
  using reused_pool_reach by (simp add: reused_pool_def)

section \<open>Five first calls at once\<close>

text \<open>Nothing keeps two threads from filling the pool at the same time. Five of them make fifteen backends for ten places.\<close>

fun jam_phase :: "gym_phase \<Rightarrow> bool" where
  "jam_phase (Putting i n) = True"
| "jam_phase (Warming i) = (i = 0)"
| "jam_phase p = (p = Entering \<or> p = Initialising \<or> p = Raised)"

definition jammed :: "fast_pool \<Rightarrow> bool" where
  "jammed s \<longleftrightarrow> \<not> fp_initialised s \<and> length (fp_queue s) = queue_size \<and> list_all jam_phase (fp_gyms s)"

lemma jammed_move:
  assumes "gym_move a b q s = Some (p, s')" and "jam_phase q" and "\<not> fp_initialised s" and "length (fp_queue s) = queue_size"
  shows "jam_phase p \<and> \<not> fp_initialised s' \<and> length (fp_queue s') = queue_size"
  using assms
  by (cases "(a, b, q, s)" rule: gym_move.cases)
    (auto simp: create_fast_backend_def ensure_fast_gateway_def warm_count_def split: if_splits prod.splits option.splits bool.splits)

lemma jammed_step: "\<lbrakk>fp_step s s'; jammed s\<rbrakk> \<Longrightarrow> jammed s'"
proof (induction rule: fp_step.induct)
  case (arrive s)
  then show ?case by (simp add: jammed_def)
next
  case (move i s a b p s')
  then have "jam_phase (fp_gyms s ! i)" by (simp add: jammed_def list_all_length)
  from jammed_move [OF move.hyps(2) this] show ?case
    using move.prems set_update_subset_insert [of "fp_gyms s" i p] by (auto simp: jammed_def list_all_iff)
qed

lemma jammed_for_ever: "\<lbrakk>fp_step\<^sup>*\<^sup>* s s'; jammed s\<rbrakk> \<Longrightarrow> jammed s'"
  by (induction rule: rtranclp_induct) (auto dest: jammed_step)

definition jam_run :: "nat option list" where
  "jam_run = replicate 5 None @ concat (map (\<lambda>i. replicate 7 (Some i)) [0..<5])"

definition jam :: fast_pool where
  "jam = \<lparr>fp_gateways = 1, fp_initialised = False, fp_queue = [0, 1, 3, 4, 6, 7, 9, 10, 12, 13], fp_made = 15, fp_dropped = [],
     fp_gyms = [Putting 2 2, Putting 2 5, Putting 2 8, Putting 2 11, Putting 2 14]\<rparr>"

lemma jam_run_ends: "fp_run jam_run fresh_pool = Some jam"
  by code_simp

theorem five_first_calls_jam:
  "fp_reach jam \<and> (\<forall>s. fp_step\<^sup>*\<^sup>* jam s \<longrightarrow> list_all jam_phase (fp_gyms s) \<and> (\<forall>n p. Gym_Open n p \<notin> set (fp_gyms s)))"
proof -
  have "fp_reach jam" by (rule fp_run_reach [OF jam_run_ends fp_reach.start])
  moreover have "list_all jam_phase (fp_gyms s)" if "fp_step\<^sup>*\<^sup>* jam s" for s
    using jammed_for_ever [OF that] by (simp add: jammed_def jam_def queue_size_def)
  moreover have "Gym_Open n p \<notin> set ps" if "list_all jam_phase ps" for n p ps
    using that by (auto simp: list_all_iff)
  ultimately show ?thesis by blast
qed

end
