(* ===== verification/Theory_Cleaner.thy ===== *)
theory Theory_Cleaner
  imports Theory_Splitter
begin

text \<open>
  Two scripts that prepare theories for the evaluation: \<open>clean_example_dir.py\<close> removes the document commands of a theory, and
  \<open>process.py\<close> rewrites its imports. Reading and writing the files is left out.
\<close>

section \<open>Header, body and end\<close>

text \<open>The header is searched in the text as it is, and its end used as a position in the stripped text.\<close>

definition clean_split :: "pystr \<Rightarrow> exn + pystr \<times> pystr \<times> pystr" where
  "clean_split txt =
     (let s = strip txt in
      case (search HEADER_RE txt, search END_RE s) of
        (Some (a, b, g), Some (a', b', g')) \<Rightarrow>
          (let m = length txt - length (snd b); n = length s - length (snd a'); k = length s - length (snd b') in
           Inr (strip (take m s) @ [NL], strip (drop m (take n s)), strip (drop n (take k s))))
      | _ \<Rightarrow> Inl (Exn C_ValueError ''Could not split theory into header/body/end''))"

section \<open>Commands\<close>

record clean_state =
  cs_comment :: nat
  cs_cartouche :: nat
  cs_string :: bool
  cs_backtick :: bool
  cs_fresh :: bool

definition clean_start :: clean_state where
  "clean_start = \<lparr>cs_comment = 0, cs_cartouche = 0, cs_string = False, cs_backtick = False, cs_fresh = True\<rparr>"

definition starts_word :: "char \<Rightarrow> char \<Rightarrow> bool" where
  "starts_word prev c = ((is_alpha c \<or> c = CHR ''_'') \<and> \<not> (is_word prev \<or> prev = CHR 0x27))"

definition pass_char :: "char \<Rightarrow> clean_state \<Rightarrow> clean_state" where
  "pass_char c st = (if c = NL then st\<lparr>cs_fresh := True\<rparr> else if is_space c then st else st\<lparr>cs_fresh := False\<rparr>)"

text \<open>One round of the loop at a position with the characters \<open>prev\<close> before and \<open>rest\<close> after it: the next state, how far the
  position moves, and whether a command starts there.\<close>

definition clean_step :: "clean_state \<Rightarrow> char \<Rightarrow> pystr \<Rightarrow> clean_state \<times> nat \<times> bool" where
  "clean_step st prev rest =
     (let c = hd rest; quoted = (cs_string st \<or> cs_backtick st) in
      if \<not> quoted \<and> startswith rest ''(*'' then (st\<lparr>cs_comment := cs_comment st + 1, cs_fresh := False\<rparr>, 2, False)
      else if \<not> quoted \<and> 0 < cs_comment st \<and> startswith rest ''*)''
      then (st\<lparr>cs_comment := cs_comment st - 1, cs_fresh := False\<rparr>, 2, False)
      else if 0 < cs_comment st then (pass_char c st, 1, False)
      else if \<not> quoted \<and> startswith rest OPEN
      then (st\<lparr>cs_cartouche := cs_cartouche st + 1, cs_fresh := False\<rparr>, length OPEN, False)
      else if \<not> quoted \<and> 0 < cs_cartouche st \<and> startswith rest CLOSE
      then (st\<lparr>cs_cartouche := cs_cartouche st - 1, cs_fresh := False\<rparr>, length CLOSE, False)
      else if cs_cartouche st = 0 \<and> \<not> cs_backtick st \<and> c = CHR 0x22
      then (st\<lparr>cs_string := (if prev = CHR 0x5C then cs_string st else \<not> cs_string st), cs_fresh := False\<rparr>, 1, False)
      else if cs_cartouche st = 0 \<and> \<not> cs_string st \<and> c = CHR 0x60
      then (st\<lparr>cs_backtick := (\<not> cs_backtick st), cs_fresh := False\<rparr>, 1, False)
      else (pass_char c st, 1, cs_cartouche st = 0 \<and> \<not> quoted \<and> cs_fresh st \<and> starts_word prev c))"

lemma clean_step_moves: "0 < fst (snd (clean_step st prev rest))"
  by (simp add: clean_step_def Let_def)

function command_starts :: "clean_state \<Rightarrow> char \<Rightarrow> nat \<Rightarrow> pystr \<Rightarrow> nat list" where
  "command_starts st prev i rest =
     (if rest = [] then []
      else let (st', k, b) = clean_step st prev rest in
        (if b then [i] else []) @ command_starts st' (last (prev # take k rest)) (i + k) (drop k rest))"
  by pat_completeness auto
termination
proof (relation "measure (\<lambda>(st, prev, i, rest). length rest)", simp, goal_cases)
  case (1 st prev i rest step st' b' k b)
  then have "fst (snd (clean_step st prev rest)) = k" by (metis fst_conv snd_conv)
  then have "0 < k" using clean_step_moves [of st prev rest] by simp
  then show ?case using 1 by (cases rest) simp_all
qed

declare command_starts.simps [simp del]

definition pieces :: "pystr \<Rightarrow> nat list \<Rightarrow> pystr list" where
  "pieces s starts = map (\<lambda>(i, j). drop i (take j s)) (zip starts (tl starts @ [length s]))"

text \<open>The first character has a line end before it: \<open>prev\<close> at position 0.\<close>

definition split_top_level_commands :: "pystr \<Rightarrow> pystr list" where
  "split_top_level_commands body_text =
     (let s = strip (normalize_newlines body_text) in
      if s = [] then []
      else filter (\<lambda>p. p \<noteq> []) (map strip (pieces s (sorted_set (0 # command_starts clean_start NL 0 s)))))"

section \<open>The cleaned theory\<close>

definition DOC_COMMANDS :: "pystr list" where
  "DOC_COMMANDS = [''chapter'', ''section'', ''subsection'', ''subsubsection'', ''subsubsubsection'', ''paragraph'',
     ''subparagraph'', ''text'', ''text_raw'']"

definition KEYWORD_RE :: re where
  "KEYWORD_RE = seqs [TextStart, Star (Chr is_space),
     Grp 1 (Seq (Chr (\<lambda>c. is_alpha_ascii c \<or> c = CHR ''_''))
       (Star (Chr (\<lambda>c. is_alpha_ascii c \<or> is_digit_ascii c \<or> c = CHR ''_'' \<or> c = CHR 0x27)))), WordBoundary]"

definition first_keyword :: "pystr \<Rightarrow> pystr option" where
  "first_keyword command = (case match_start KEYWORD_RE command of None \<Rightarrow> None | Some (b, g) \<Rightarrow> group 1 g)"

definition is_document :: "pystr \<Rightarrow> bool" where
  "is_document command = (case first_keyword command of None \<Rightarrow> False | Some kw \<Rightarrow> kw \<in> set DOC_COMMANDS)"

definition MANY_NEWLINES_RE :: re where
  "MANY_NEWLINES_RE = seqs [Chr (\<lambda>c. c = NL), Chr (\<lambda>c. c = NL), Plus (Chr (\<lambda>c. c = NL))]"

definition normalize_whitespace :: "pystr \<Rightarrow> pystr" where
  "normalize_whitespace txt =
     strip (sub_re MANY_NEWLINES_RE (\<lambda>_. [NL, NL]) (join [NL] (map rstrip (split_on NL (normalize_newlines txt))))) @ [NL]"

definition clean_theory :: "pystr \<Rightarrow> exn + pystr \<times> nat \<times> nat" where
  "clean_theory txt =
     (case clean_split txt of
        Inl e \<Rightarrow> Inl e
      | Inr (header, body, end_kw) \<Rightarrow>
          (let commands = split_top_level_commands body;
               kept = filter (\<lambda>c. \<not> is_document c) commands;
               out = rstrip header @ [NL, NL] @ (if kept \<noteq> [] then rstrip (join [NL, NL] kept) @ [NL, NL] else []) @ end_kw @ [NL] in
           Inr (normalize_whitespace out, length commands, length (filter is_document commands))))"

section \<open>No visible character is lost\<close>

definition visible :: "pystr \<Rightarrow> pystr" where
  "visible s = filter (\<lambda>c. \<not> is_space c) s"

lemma visible_append [simp]: "visible (u @ v) = visible u @ visible v"
  by (simp add: visible_def)

lemma visible_Nil [simp]: "visible [] = []"
  by (simp add: visible_def)

lemma visible_blank: "\<forall>c \<in> set u. is_space c \<Longrightarrow> visible u = []"
  by (simp add: visible_def)

lemma visible_strip [simp]: "visible (strip s) = visible s"
  using strip_decomp [of s] by (metis append_Nil append_Nil2 visible_append visible_blank)

lemma visible_rstrip [simp]: "visible (rstrip s) = visible s"
  using rstrip_prefix [of s] by (metis append_Nil2 visible_append visible_blank)

lemma visible_newline [simp]: "visible [NL] = []" "visible (NL # s) = visible s"
  by (simp_all add: visible_def is_space_def)

lemma visible_normalize_newlines [simp]: "visible (normalize_newlines s) = visible s"
  by (induction s rule: normalize_newlines.induct) (auto simp: visible_def is_space_def)

lemma visible_join: "visible sep = [] \<Longrightarrow> visible (join sep xs) = concat (map visible xs)"
  by (induction xs rule: induct_list012) (simp_all add: visible_def)

lemma visible_lines: "concat (map visible (split_on NL s)) = visible s"
  using visible_join [of "[NL]" "split_on NL s"] by simp

lemma visible_concat: "visible (concat xs) = concat (map visible xs)"
  by (induction xs) (simp_all add: visible_def)

lemma drop_take_rest: "i \<le> j \<Longrightarrow> drop i (take j s) @ drop j s = drop i s"
  by (cases "j \<le> length s") (metis append_take_drop_id drop_append diff_is_0_eq drop0 length_take min.absorb2, simp)

lemma concat_pieces_from:
  "sorted (i # starts) \<Longrightarrow> concat (pieces s (i # starts)) = drop i s"
proof (induction starts arbitrary: i)
  case Nil
  then show ?case by (simp add: pieces_def)
next
  case (Cons j starts)
  then have "i \<le> j" by simp
  have "concat (pieces s (i # j # starts)) = drop i (take j s) @ concat (pieces s (j # starts))" by (simp add: pieces_def)
  also have "\<dots> = drop i (take j s) @ drop j s" using Cons by simp
  also have "\<dots> = drop i s" using \<open>i \<le> j\<close> drop_take_rest by blast
  finally show ?case .
qed

lemma sorted_set_zero: "\<exists>starts. sorted_set (0 # xs) = (0::nat) # starts"
proof (cases "sorted_set (0 # xs)")
  case Nil
  then have "set (sorted_set (0 # xs)) = {}" by simp
  then show ?thesis by simp
next
  case (Cons a starts)
  have "0 \<in> set (sorted_set (0 # xs))" by simp
  moreover have "sorted (a # starts)" using sorted_sorted_set [of "0 # xs"] Cons by simp
  ultimately have "a = 0" using Cons by auto
  then show ?thesis using Cons by blast
qed

lemma concat_pieces: "concat (pieces s (sorted_set (0 # xs))) = s"
proof -
  obtain starts where eq: "sorted_set (0 # xs) = 0 # starts" using sorted_set_zero by blast
  then have "sorted (0 # starts)" using sorted_sorted_set [of "0 # xs"] by simp
  from concat_pieces_from [OF this] show ?thesis by (simp add: eq)
qed

lemma visible_nonblank: "concat (map visible (filter (\<lambda>p. p \<noteq> []) ps)) = concat (map visible ps)"
  by (induction ps) auto

lemma visible_stripped: "concat (map visible (map strip ps)) = visible (concat ps)"
  by (induction ps) simp_all

lemma commands_keep_text: "concat (map visible (split_top_level_commands body_text)) = visible body_text"
proof (cases "strip (normalize_newlines body_text) = []")
  case True
  then have "visible body_text = []" using visible_strip [of "normalize_newlines body_text"] by simp
  then show ?thesis using True by (simp add: split_top_level_commands_def)
next
  case False
  then show ?thesis
    by (simp only: split_top_level_commands_def Let_def if_False visible_nonblank visible_stripped concat_pieces visible_strip
        visible_normalize_newlines)
qed

section \<open>Only the document commands go\<close>

text \<open>Replacing blank text by blank text keeps the visible characters.\<close>

lemma visible_between:
  assumes "reads c d"
  shows "visible (snd c) = visible (between c d) @ visible (snd d)"
  using between_reads [OF assms] visible_append by metis

lemma sub_keeps_visible:
  assumes "\<And>c d g. (d, g) \<in> set (match_re r c []) \<Longrightarrow> visible (f (between c d)) = visible (between c d)"
  shows "visible (sub_from n r f c) = visible (snd c)"
proof (induction n arbitrary: c)
  case (Suc n)
  show ?case
  proof (cases "search_from r c")
    case (Some m)
    obtain a b g where m: "m = (a, b, g)" by (cases m)
    then have found: "reads c a" "reads a b" "(b, g) \<in> set (match_re r a [])" using search_from_reads Some by blast+
    then show ?thesis using Some m Suc assms [OF found(3)] visible_between [OF found(1)] visible_between [OF found(2)] by simp
  qed simp
qed simp

lemma many_newlines_blank:
  assumes "(d, g) \<in> set (match_re MANY_NEWLINES_RE c [])"
  shows "visible (between c d) = []"
proof -
  have "reads_in is_space c d"
    by (rule match_reads_in [OF _ assms]) (auto simp: MANY_NEWLINES_RE_def is_space_def)
  then show ?thesis using visible_blank by (fastforce simp: reads_in_def between_def)
qed

lemma visible_normalize_whitespace [simp]: "visible (normalize_whitespace txt) = visible txt"
proof -
  have "visible (sub_re MANY_NEWLINES_RE (\<lambda>_. [NL, NL]) t) = visible t" for t
    using sub_keeps_visible [of MANY_NEWLINES_RE "\<lambda>_. [NL, NL]" "Suc (length t)" "start_of t"] many_newlines_blank
    by (simp add: sub_re_def start_of_def del: sub_from.simps)
  moreover have "visible (join [NL] (map rstrip ls)) = concat (map visible ls)" for ls
    by (simp add: visible_join comp_def)
  ultimately show ?thesis by (simp add: normalize_whitespace_def visible_lines)
qed

text \<open>Cleaning a theory removes exactly the document commands.
  The visible characters of the result are those of the header, of the commands of the body that are not document commands, in
  their order, and of the end; the commands together have all visible characters of the body, and the counts are right.\<close>

theorem cleaning_removes_documents:
  assumes "clean_theory txt = Inr (out, all, removed)" and "clean_split txt = Inr (header, body_text, end_kw)"
  shows "let commands = split_top_level_commands body_text; kept = filter (\<lambda>c. \<not> is_document c) commands in
    visible out = visible header @ concat (map visible kept) @ visible end_kw \<and>
    concat (map visible commands) = visible body_text \<and> all = length commands \<and> removed = all - length kept"
proof -
  let ?commands = "split_top_level_commands body_text"
  let ?kept = "filter (\<lambda>c. \<not> is_document c) ?commands"
  have "out = normalize_whitespace (rstrip header @ [NL, NL] @ (if ?kept \<noteq> [] then rstrip (join [NL, NL] ?kept) @ [NL, NL] else [])
        @ end_kw @ [NL])" and counts: "all = length ?commands" "removed = length (filter is_document ?commands)"
    using assms by (auto simp: clean_theory_def Let_def)
  then have "visible out = visible header @ visible (if ?kept \<noteq> [] then join [NL, NL] ?kept else []) @ visible end_kw" by simp
  moreover have "visible (if ?kept \<noteq> [] then join [NL, NL] ?kept else []) = concat (map visible ?kept)"
    by (auto simp: visible_join)
  moreover have "length (filter is_document ?commands) = length ?commands - length ?kept"
    using sum_length_filter_compl [of is_document ?commands] by simp
  ultimately show ?thesis using counts commands_keep_text by (simp add: Let_def)
qed

definition demo_theory :: pystr where
  "demo_theory = ''theory T begin'' @ [NL] @ ''text '' @ OPEN @ ''a'' @ CLOSE @ [NL] @ ''lemma'' @ [NL] @ ''end''"

lemma demo_split:
  "clean_split demo_theory = Inr (''theory T begin'' @ [NL], ''text '' @ OPEN @ ''a'' @ CLOSE @ [NL] @ ''lemma'', ''end'')"
  by code_simp

lemma demo_commands:
  "split_top_level_commands (''text '' @ OPEN @ ''a'' @ CLOSE @ [NL] @ ''lemma'') = [''text '' @ OPEN @ ''a'' @ CLOSE, ''lemma'']"
  "is_document (''text '' @ OPEN @ ''a'' @ CLOSE)" "is_document ''lemma'' = False"
  by code_simp+

theorem cleaning_removes_documents_witness:
  "\<exists>out. clean_theory demo_theory = Inr (out, 2, 1) \<and> visible out = ''theoryTbeginlemmaend''"
proof -
  obtain out all removed where run: "clean_theory demo_theory = Inr (out, all, removed)"
    unfolding clean_theory_def demo_split by (simp add: Let_def)
  have "visible out = ''theoryTbeginlemmaend'' \<and> all = 2 \<and> removed = 1"
    using cleaning_removes_documents [OF run demo_split] demo_commands by (simp add: visible_def is_space_def)
  then show ?thesis using run by simp
qed

section \<open>Where the cleaner goes wrong\<close>

text \<open>A blank line before the header shifts its end into the body; and a star in parentheses inside a document text is taken for
  the start of a comment, so everything after it goes with the text.\<close>

theorem leading_line_shifts_header:
  "clean_split ([NL, NL] @ ''theory T begin'' @ [NL] @ ''ab'' @ [NL] @ ''end'') =
     Inr (''theory T begin'' @ [NL] @ ''a'' @ [NL], ''b'', ''end'')"
  by code_simp

theorem starred_text_swallows_rest:
  "split_top_level_commands (''text '' @ OPEN @ ''(*)'' @ CLOSE @ [NL] @ ''lemma'') = [''text '' @ OPEN @ ''(*)'' @ CLOSE @ [NL] @ ''lemma'']"
  "is_document (''text '' @ OPEN @ ''(*)'' @ CLOSE @ [NL] @ ''lemma'')"
  by code_simp+

end
