(* ===== verification/Import_Rewriter.thy ===== *)
theory Import_Rewriter
  imports Theory_Splitter
begin

text \<open>
  The rewriting of imports for the evaluation (\<open>evaluation/scripts/process.py\<close>): theories of HOL-Analysis imported by their bare
  names get the name of the session. The token pattern is that of \<open>Theory_Parsing\<close>. Finding and writing the files is left
  out, but for the set of names of the analysis theories.
\<close>

section \<open>The patterns\<close>

definition REWRITE_HEADER_RE :: re where
  "REWRITE_HEADER_RE =
     Seq (Grp 1 (seqs [word ''theory'', Lazy any_char, word ''imports'']))
       (Seq (Grp 2 (Lazy any_char)) (Grp 3 (word ''begin'')))"

definition CITE_ANTIQUOT_RE :: re where
  "CITE_ANTIQUOT_RE = seqs [lit (BS # ''<^cite>'' @ OPEN @ [DQ]), Plus (Chr (\<lambda>c. c \<noteq> DQ \<and> c \<noteq> NL)), lit (DQ # CLOSE)]"

definition LATEX_LINE_RE :: re where
  "LATEX_LINE_RE = seqs [LineStart, Star (Chr is_blank), lit (BS # ''<^latex>'' @ OPEN), Lazy (Chr (\<lambda>c. c \<noteq> NL)), lit CLOSE,
     Star (Chr is_blank), Alt (Chr (\<lambda>c. c = NL)) (NotBefore (\<lambda>_. True))]"

section \<open>The rewriting\<close>

definition sanitize_theory_text_for_baseline :: "pystr \<Rightarrow> pystr" where
  "sanitize_theory_text_for_baseline txt = sub_re LATEX_LINE_RE (\<lambda>_. []) (sub_re CITE_ANTIQUOT_RE (\<lambda>_. []) txt)"

definition endswith_quote :: "pystr \<Rightarrow> bool" where
  "endswith_quote s = (s \<noteq> [] \<and> last s = DQ)"

definition normalize_import_token :: "pystr set \<Rightarrow> pystr \<Rightarrow> pystr" where
  "normalize_import_token analysis token =
     (let raw = strip token;
          name = (if startswith raw [DQ] \<and> endswith_quote raw then butlast (tl raw) else raw) in
      if CHR ''.'' \<in> set name \<or> CHR ''/'' \<in> set name then raw
      else if name \<in> analysis then DQ # ''HOL-Analysis.'' @ name @ [DQ]
      else raw)"

definition rewrite_token :: "pystr set \<Rightarrow> pystr \<Rightarrow> pystr" where
  "rewrite_token analysis token = (if token \<in> {''keywords'', ''begin''} then token else normalize_import_token analysis token)"

text \<open>The loop over \<open>finditer\<close> that copies the text between the tokens is \<open>sub\<close> with a function.\<close>

definition rewrite_imports_block :: "pystr set \<Rightarrow> pystr \<Rightarrow> pystr" where
  "rewrite_imports_block analysis imports_block = sub_re IMPORT_TOKEN_RE (rewrite_token analysis) imports_block"

definition rewrite_theory_text :: "pystr set \<Rightarrow> pystr \<Rightarrow> pystr" where
  "rewrite_theory_text analysis txt =
     (let t = sanitize_theory_text_for_baseline txt in
      case search REWRITE_HEADER_RE t of
        None \<Rightarrow> t
      | Some (a, b, g) \<Rightarrow>
          take (length t - length (snd a)) t @ or_else (group 1 g) [] @ rewrite_imports_block analysis (or_else (group 2 g) [])
            @ or_else (group 3 g) [] @ drop (length t - length (snd b)) t)"

section \<open>Tokens\<close>

lemma strip_quoted [simp]: "strip (DQ # s @ [DQ]) = DQ # s @ [DQ]"
  by (simp add: strip_id_iff is_space_def)

lemma normalize_token_idempotent:
  "normalize_import_token analysis (normalize_import_token analysis token) = normalize_import_token analysis token"
proof -
  have "normalize_import_token analysis (strip token) = normalize_import_token analysis token"
    by (simp add: normalize_import_token_def Let_def)
  moreover have "normalize_import_token analysis (DQ # ''HOL-Analysis.'' @ name @ [DQ]) = DQ # ''HOL-Analysis.'' @ name @ [DQ]" for name
    using strip_quoted [of "''HOL-Analysis.'' @ name"]
    by (simp add: normalize_import_token_def Let_def startswith_def endswith_quote_def butlast_append)
  moreover have "normalize_import_token analysis token = strip token \<or>
      (\<exists>name. normalize_import_token analysis token = DQ # ''HOL-Analysis.'' @ name @ [DQ])"
    by (auto simp: normalize_import_token_def Let_def)
  ultimately show ?thesis by metis
qed

section \<open>Only the imports change\<close>

text \<open>An expression without groups leaves the groups as they are.\<close>

primrec ungrouped :: "re \<Rightarrow> bool" where
  "ungrouped Eps = True"
| "ungrouped (Chr P) = True"
| "ungrouped (Seq r q) = (ungrouped r \<and> ungrouped q)"
| "ungrouped (Alt r q) = (ungrouped r \<and> ungrouped q)"
| "ungrouped (Star r) = ungrouped r"
| "ungrouped (Lazy r) = ungrouped r"
| "ungrouped (Grp n r) = False"
| "ungrouped LineStart = True"
| "ungrouped TextStart = True"
| "ungrouped TextEnd = True"
| "ungrouped WordBoundary = True"
| "ungrouped (NotAfter P) = True"
| "ungrouped (NotBefore P) = True"

lemma iterate_ungrouped:
  assumes "\<And>c g d h. (d, h) \<in> set (f c g) \<Longrightarrow> h = g"
  shows "(d, h) \<in> set (iterate n b f c g) \<Longrightarrow> h = g"
proof (induction n arbitrary: c g)
  case (Suc n)
  from Suc.prems consider "h = g" | d' h' where "(d', h') \<in> set (f c g)" "(d, h) \<in> set (iterate n b f d' h')"
    by (auto simp: Let_def split: if_splits)
  then show ?case using Suc.IH assms by cases blast+
qed simp

lemma match_ungrouped: "ungrouped r \<Longrightarrow> (d, h) \<in> set (match_re r c g) \<Longrightarrow> h = g"
proof (induction r arbitrary: c g d h)
  case (Seq r q)
  then obtain d' h' where m: "(d', h') \<in> set (match_re r c g)" "(d, h) \<in> set (match_re q d' h')" by auto
  have "h' = g" by (rule Seq.IH(1) [OF _ m(1)]) (use Seq.prems in simp)
  moreover have "h = h'" by (rule Seq.IH(2) [OF _ m(2)]) (use Seq.prems in simp)
  ultimately show ?case by simp
next
  case (Star r)
  then show ?case using iterate_ungrouped [of "match_re r"] by simp
next
  case (Lazy r)
  then show ?case using iterate_ungrouped [of "match_re r"] by simp
qed (auto split: if_splits)

lemma three_groups:
  assumes "(b, g) \<in> set (match_re (Seq (Grp 1 r) (Seq (Grp 2 q) (Grp 3 p))) a [])"
    and "ungrouped r" "ungrouped q" "ungrouped p"
  obtains d e where "reads a d" "reads d e" "reads e b" "g = [(3, between e b), (2, between d e), (1, between a d)]"
proof -
  from assms(1) obtain d h1 e h2 h3 where m: "(d, h1) \<in> set (match_re r a [])"
      "(e, h2) \<in> set (match_re q d ((1, between a d) # h1))" "(b, h3) \<in> set (match_re p e ((2, between d e) # h2))"
      "g = (3, between e b) # h3"
    by (simp only: match_re.simps(3,7)) auto
  show ?thesis
    by (rule that [OF match_reads [OF m(1)] match_reads [OF m(2)] match_reads [OF m(3)]])
      (use m match_ungrouped [OF assms(2) m(1)] match_ungrouped [OF assms(3) m(2)] match_ungrouped [OF assms(4) m(3)] in simp)
qed

lemma ungrouped_lit [simp]: "ungrouped (lit w)"
  by (induction w) simp_all

lemma take_before: "reads c d \<Longrightarrow> take (length (snd c) - length (snd d)) (snd c) = between c d"
  by (simp add: between_def)

lemma drop_before: "reads c d \<Longrightarrow> drop (length (snd c) - length (snd d)) (snd c) = snd d"
  by (auto simp: reads_def)

text \<open>Only the block of the imports changes.
  Rewriting a theory removes the citations and the lines of LaTeX; of what is left it changes nothing, or only the text between
  \<open>imports\<close> and \<open>begin\<close>, where every token becomes its normal form; a token in normal form stays as it is.\<close>

theorem rewriting_keeps_the_rest:
  "let t = sanitize_theory_text_for_baseline txt in
    (search REWRITE_HEADER_RE t = None \<and> rewrite_theory_text analysis txt = t \<or>
     (\<exists>u block v. t = u @ block @ v \<and> rewrite_theory_text analysis txt = u @ rewrite_imports_block analysis block @ v)) \<and>
    normalize_import_token analysis (normalize_import_token analysis token) = normalize_import_token analysis token"
proof -
  define t where "t = sanitize_theory_text_for_baseline txt"
  have "\<exists>u block v. t = u @ block @ v \<and> rewrite_theory_text analysis txt = u @ rewrite_imports_block analysis block @ v"
    if found: "search REWRITE_HEADER_RE t = Some (a, b, g)" for a b g
  proof -
    have m: "reads (start_of t) a" "reads a b" "(b, g) \<in> set (match_re REWRITE_HEADER_RE a [])"
      using search_from_reads found unfolding search_def by blast+
    have free: "ungrouped (seqs [word ''theory'', Lazy any_char, word ''imports''])" "ungrouped (Lazy any_char)"
        "ungrouped (word ''begin'')" by simp_all
    obtain d e where de: "reads a d" "reads d e" "reads e b" "g = [(3, between e b), (2, between d e), (1, between a d)]"
      using three_groups [OF m(3) [unfolded REWRITE_HEADER_RE_def] free] .
    have "t = between (start_of t) a @ snd a" "snd a = between a d @ snd d" "snd d = between d e @ snd e" "snd e = between e b @ snd b"
      using between_reads [OF m(1)] between_reads [OF de(1)] between_reads [OF de(2)] between_reads [OF de(3)]
      by (simp_all add: start_of_def)
    then have "t = (between (start_of t) a @ between a d) @ between d e @ (between e b @ snd b)" by (metis append.assoc)
    moreover have "take (length t - length (snd a)) t = between (start_of t) a" "drop (length t - length (snd b)) t = snd b"
      using take_before [OF m(1)] drop_before [OF reads_trans [OF m(1,2)]] by (simp_all add: start_of_def)
    then have "rewrite_theory_text analysis txt =
        (between (start_of t) a @ between a d) @ rewrite_imports_block analysis (between d e) @ (between e b @ snd b)"
      using found de(4)
      by (simp add: rewrite_theory_text_def t_def [symmetric] group_def or_else_def)
    ultimately show ?thesis by blast
  qed
  moreover have "rewrite_theory_text analysis txt = t" if "search REWRITE_HEADER_RE t = None"
    using that by (simp add: rewrite_theory_text_def t_def [symmetric])
  ultimately show ?thesis
    using normalize_token_idempotent by (cases "search REWRITE_HEADER_RE t") (auto simp: t_def Let_def)
qed

text \<open>A token has no prime: of an imported \<open>Foo'\<close> the part before it is rewritten when it names another theory.\<close>

theorem primed_import_broken: "rewrite_imports_block {''Foo''} (''Foo'' @ [CHR 0x27]) = DQ # ''HOL-Analysis.Foo'' @ [DQ, CHR 0x27]"
  by code_simp

end
