(* ===== verification/Eval_Harness.thy ===== *)
theory Eval_Harness
  imports Py_Regex Py_Hoare Ordered_Dict
begin

text \<open>
  The common part of the comparison of the provers' interfaces (\<open>evaluation/MCP-comparison\<close>): problems (\<open>common/problems.py\<close>), the
  policy for a round without a tool call (\<open>common/model.py\<close>), results and timers (\<open>common/metrics.py\<close>), the arbiter that says
  whether a problem is solved (\<open>common/arbiter.py\<close>), and the figures of \<open>analyze.py\<close>.

  The model and the server are parameters; the log of the arbiter's build is left out of a
  verdict, and the names of the system and the model out of a result. A long dash in a message is written as a short one, and surrogates, which
  \<open>sanitize_for_isabelle\<close> removes, are not 8-bit characters. Reading, writing and printing are left out.
\<close>

section \<open>Problems\<close>

record problem =
  pr_name :: pystr
  pr_theorem :: pystr
  pr_imports :: "pystr list"
  pr_statement :: pystr
  pr_text :: pystr

abbreviation visible_char :: re where
  "visible_char \<equiv> Chr (\<lambda>c. \<not> is_space c)"

abbreviation blank_char :: re where
  "blank_char \<equiv> Chr is_space"

definition PROBLEM_HEADER_RE :: re where
  "PROBLEM_HEADER_RE = seqs [LineStart, lit ''theory'', Plus blank_char, Grp 1 (Plus visible_char), Plus blank_char, lit ''imports'',
     Plus blank_char, Grp 2 (LazyPlus any_char), Plus blank_char, lit ''begin'']"

definition PROBLEM_THEOREM_RE :: re where
  "PROBLEM_THEOREM_RE = seqs [Grp 1 (seqs [lit ''theorem'', Plus blank_char, Grp 2 (Plus visible_char), Star blank_char, lit '':'',
     Lazy any_char]), word ''sorry'']"

definition normalize_import :: "pystr \<Rightarrow> pystr" where
  "normalize_import raw = strip_chars {CHR 0x27} (strip_chars {CHR 0x22} (strip raw))"

definition parse_thy :: "pystr \<Rightarrow> pystr \<Rightarrow> exn + problem" where
  "parse_thy path txt =
     (case search PROBLEM_HEADER_RE txt of
        None \<Rightarrow> Inl (Exn C_ValueError (path @ '': cannot parse theory header''))
      | Some (a, b, g) \<Rightarrow>
          (case search PROBLEM_THEOREM_RE txt of
             None \<Rightarrow> Inl (Exn C_ValueError (path @ '': cannot find '' @ CHR 0x27 # ''theorem ... sorry'' @ [CHR 0x27]))
           | Some (a', b', g') \<Rightarrow>
               Inr \<lparr>pr_name = or_else (group 1 g) [], pr_theorem = or_else (group 2 g') [],
                 pr_imports = map normalize_import (words_of (or_else (group 2 g) [])),
                 pr_statement = rstrip (or_else (group 1 g') []), pr_text = txt\<rparr>))"

text \<open>\<open>imp.split(".")[0]\<close> of an import with a dot.\<close>

definition import_session :: "pystr \<Rightarrow> pystr option" where
  "import_session imp =
     (let p = before (CHR ''.'') imp in if CHR ''.'' \<in> set imp \<and> p \<noteq> [] \<and> p \<noteq> ''Main'' then Some p else None)"

definition derive_session :: "pystr list \<Rightarrow> pystr \<Rightarrow> pystr" where
  "derive_session imps fallback = (case List.map_filter import_session imps of [] \<Rightarrow> fallback | p # ps \<Rightarrow> p)"

section \<open>A round without a tool call\<close>

record 'a round_reply =
  rd_text :: "pystr option"
  rd_calls :: "'a list"
  rd_usage :: "nat \<times> nat \<times> nat"
  rd_finish :: "pystr option"

datatype nudging = Nudge_Done | Nudge pystr | Nudge_Stop pystr

definition NUDGE_LIMIT :: nat where
  "NUDGE_LIMIT = 2"

definition no_tool_call_action :: "'a round_reply \<Rightarrow> nat \<Rightarrow> nudging" where
  "no_tool_call_action r nudges_used =
     (let txt = strip (or_else (rd_text r) []); truncated = (rd_finish r = Some ''length'') in
      if contains txt ''DONE'' then Nudge_Done
      else if NUDGE_LIMIT \<le> nudges_used then
        if truncated then Nudge_Stop (''model output truncated at max_tokens (finish_reason=length) ''
               @ ''repeatedly - raise model.max_tokens in config'')
        else if txt = [] then Nudge_Stop ''model returned empty responses after nudges''
        else Nudge_Stop ''model stopped calling tools without replying DONE''
      else if truncated then Nudge (''[Your previous response was cut off at the token limit before any ''
             @ ''tool call was emitted. Think more briefly, then act: call a tool '' @ ''now, or reply DONE if the proof is complete.]'')
      else if txt = [] then Nudge ''[Your previous response was empty. Call a tool now, or reply DONE if finished.]''
      else Nudge (''[Reminder: you must CALL A TOOL to make progress, or reply DONE '' @ ''if the proof is complete.]''))"

section \<open>Results\<close>

record attempt_result =
  ar_problem :: pystr
  ar_repeat :: nat
  ar_solved :: bool
  ar_claimed :: bool
  ar_rounds :: nat
  ar_tool_calls :: nat
  ar_truncated :: nat
  ar_nudges :: nat
  ar_wall :: real
  ar_setup :: "real option"
  ar_first_tool :: "real option"
  ar_prover :: "real option"
  ar_latencies :: "real list"
  ar_model :: "real option"
  ar_input :: nat
  ar_output :: nat
  ar_total :: nat
  ar_cached :: nat
  ar_final :: bool
  ar_error :: "pystr option"

definition AttemptResult :: "pystr \<Rightarrow> nat \<Rightarrow> attempt_result" where
  "AttemptResult name rep = \<lparr>ar_problem = name, ar_repeat = rep, ar_solved = False, ar_claimed = False, ar_rounds = 0,
     ar_tool_calls = 0, ar_truncated = 0, ar_nudges = 0, ar_wall = 0, ar_setup = None, ar_first_tool = None, ar_prover = None,
     ar_latencies = [], ar_model = None, ar_input = 0, ar_output = 0, ar_total = 0, ar_cached = 0, ar_final = False, ar_error = None\<rparr>"

text \<open>\<open>round(x, 2)\<close>\<close>

definition round2 :: "real \<Rightarrow> real" where
  "round2 x = of_int (round_half_even (100 * x)) / 100"

definition finalize :: "attempt_result \<Rightarrow> attempt_result" where
  "finalize r =
     (let r1 = r\<lparr>ar_total := ar_input r + ar_output r\<rparr> in
      case ar_prover r1 of
        None \<Rightarrow> r1
      | Some p \<Rightarrow> if 0 < ar_wall r1 then r1\<lparr>ar_model := Some (round2 (ar_wall r1 - p))\<rparr> else r1)"

text \<open>The file of results: \<open>append_result\<close> finalises what it writes.\<close>

definition append_result :: "attempt_result \<Rightarrow> attempt_result list \<Rightarrow> attempt_result list" where
  "append_result r rows = rows @ [finalize r]"

section \<open>The arbiter\<close>

record verdict =
  vd_solved :: bool
  vd_error :: "pystr option"

definition SORRY_RE :: re where
  "SORRY_RE = seqs [WordBoundary, alts [lit ''sorry'', lit ''oops''], WordBoundary]"

definition contains_sorry_parsed :: "pystr \<Rightarrow> bool" where
  "contains_sorry_parsed txt = (search SORRY_RE txt \<noteq> None)"

text \<open>The sessions the imports name, each once, in the order of their first mention.\<close>

definition external_sessions :: "pystr list \<Rightarrow> pystr list" where
  "external_sessions imps = fold (\<lambda>p deps. if p \<in> set deps then deps else deps @ [p]) (List.map_filter import_session imps) []"

text \<open>A value of the server's answer as an error text.\<close>

definition answer_error :: "(json \<Rightarrow> pystr) \<Rightarrow> json \<Rightarrow> pystr option" where
  "answer_error rp j = (if j = JNull then None else Some (show_json rp j))"

record 'w arbiter_api =
  judge :: "pystr \<Rightarrow> pystr \<Rightarrow> pystr \<Rightarrow> 'w \<Rightarrow> (exn + json) \<times> 'w"
  json_text :: "json \<Rightarrow> pystr"

definition read_verdict :: "(json \<Rightarrow> pystr) \<Rightarrow> json \<Rightarrow> exn + verdict" where
  "read_verdict rp data =
     onOk (dict_get_or ''theory_verified'' (JBool False) data) (\<lambda>v.
     if py_bool v then Inr \<lparr>vd_solved = True, vd_error = None\<rparr>
     else onOk (dict_get_or ''error'' (JStr ''bigstep verification failed'') data) (\<lambda>e.
       Inr \<lparr>vd_solved = False, vd_error = answer_error rp e\<rparr>))"

definition check_file :: "'w arbiter_api \<Rightarrow> problem \<Rightarrow> pystr \<Rightarrow> pystr option \<Rightarrow> pystr \<Rightarrow> 'w \<Rightarrow> verdict \<times> 'w" where
  "check_file api p path file fallback w =
     (case file of
        None \<Rightarrow> (\<lparr>vd_solved = False, vd_error = Some (''file not found: '' @ path)\<rparr>, w)
      | Some txt \<Rightarrow>
          if contains_sorry_parsed txt then (\<lparr>vd_solved = False, vd_error = Some ''file still contains sorry/oops''\<rparr>, w)
          else if \<not> contains txt (''theorem '' @ pr_theorem p)
          then (\<lparr>vd_solved = False, vd_error = Some (''target theorem '' @ pr_theorem p @ '' not found'')\<rparr>, w)
          else (let deps = external_sessions (pr_imports p); effective_field = (if deps = [] then fallback else hd deps) in
            case judge api (pr_name p) txt effective_field w of
              (r, w') \<Rightarrow>
                (case onOk r (read_verdict (json_text api)) of
                   Inr v \<Rightarrow> (v, w')
                 | Inl e \<Rightarrow> (\<lparr>vd_solved = False,
                     vd_error = Some (''gym arbiter: '' @ class_name (class_of e) @ '': '' @ str_of e)\<rparr>, w'))))"

section \<open>Figures\<close>

definition mean_of :: "real list \<Rightarrow> real option" where
  "mean_of xs = (if xs = [] then None else Some (sum_list xs / real (length xs)))"

record variant_summary =
  vs_attempts :: nat
  vs_pass :: real
  vs_solved :: nat
  vs_rounds :: "real option"
  vs_productive :: "real option"
  vs_wall :: "real option"
  vs_setup :: "real option"
  vs_first :: "real option"
  vs_tokens :: "real option"
  vs_truncated :: nat
  vs_nudges :: nat

definition variant_summary_of :: "attempt_result list \<Rightarrow> variant_summary" where
  "variant_summary_of rs =
     (let solved = filter ar_solved rs in
      \<lparr>vs_attempts = length rs, vs_pass = (if rs = [] then 0 else real (length solved) / real (length rs)),
       vs_solved = length solved, vs_rounds = mean_of (map (\<lambda>r. real (ar_rounds r)) solved),
       vs_productive = mean_of (map (\<lambda>r. real (ar_rounds r) - real (ar_nudges r)) solved),
       vs_wall = mean_of (map ar_wall solved), vs_setup = mean_of (List.map_filter ar_setup rs),
       vs_first = mean_of (List.map_filter ar_first_tool rs), vs_tokens = mean_of (map (\<lambda>r. real (ar_total r)) solved),
       vs_truncated = sum_list (map ar_truncated rs), vs_nudges = sum_list (map ar_nudges rs)\<rparr>)"

text \<open>The number of sledgehammer calls by repeat, from the logs that exist; \<open>hits\<close> counts them in a log.\<close>

definition sledgehammer_counts :: "(pystr \<Rightarrow> nat \<Rightarrow> pystr option) \<Rightarrow> (pystr \<Rightarrow> nat) \<Rightarrow> attempt_result list \<Rightarrow> (nat, nat) od" where
  "sledgehammer_counts logged hits rs =
     fold (\<lambda>r d. case logged (ar_problem r) (ar_repeat r) of None \<Rightarrow> d | Some t \<Rightarrow> od_set (ar_repeat r) (hits t) d) rs []"

definition error_class :: "pystr option \<Rightarrow> pystr" where
  "error_class e =
     (let err = hd (splitlines (or_else e ''none recorded'')) in
      if contains err ''truncated at max_tokens'' then ''truncated at max_tokens''
      else if contains err ''empty response'' then ''empty response''
      else if contains err ''wall cap'' then ''wall cap exceeded''
      else if contains err ''not found'' \<and> contains err ''theorem'' then ''target theorem missing''
      else if contains err ''sorry/oops'' then ''sorry/oops left in file''
      else take 60 err)"

definition error_classes :: "attempt_result list \<Rightarrow> (pystr, nat) od" where
  "error_classes rs =
     fold (\<lambda>r d. if ar_solved r then d
                  else let k = error_class (ar_error r) in od_set k ((case od_get k d of None \<Rightarrow> 0 | Some n \<Rightarrow> n) + 1) d) rs []"

end
