(* ===== verification/Attempt_Runner.thy ===== *)
theory Attempt_Runner
  imports Eval_Harness
begin

text \<open>
  The runner of the comparison on the stepwise server (\<open>evaluation/MCP-comparison/run_isabellegym.py\<close>): one attempt of a model at
  a problem, with its set-up, its rounds of chat and tool calls, the check of a claim to be done, the clean-up and the arbiter;
  and the loop over problems and repeats.

  The model, the tools, the clock and \<open>json.loads\<close> are parameters. \<open>call_tool\<close> never raises, and under a time limit it may
  not answer (\<open>None\<close>). Exceptions are those inside their groups. Prompts, logs and the creation of directories are left out.
\<close>

section \<open>State and parameters\<close>

record call_request =
  ca_id :: pystr
  ca_name :: pystr
  ca_args :: pystr

datatype message = User pystr | Assistant pystr | Assistant_Calls pystr "call_request list" | Tool_Reply pystr pystr pystr

record harness_limits =
  hl_rounds :: nat
  hl_wall_cap :: real
  hl_wall_cap_text :: pystr
  hl_tool_timeout_text :: pystr

record 'w runner_api = "'w arbiter_api" +
  h_now :: "'w \<Rightarrow> real \<times> 'w"
  h_chat :: "message list \<Rightarrow> 'w \<Rightarrow> (exn + call_request round_reply) \<times> 'w"
  h_tool :: "pystr \<Rightarrow> (pystr \<times> json) list \<Rightarrow> 'w \<Rightarrow> pystr \<times> 'w"
  h_timed_tool :: "pystr \<Rightarrow> (pystr \<times> json) list \<Rightarrow> 'w \<Rightarrow> pystr option \<times> 'w"
  h_prepare :: "'w \<Rightarrow> (exn + unit) \<times> 'w"
  h_open :: "'w \<Rightarrow> (exn + unit) \<times> 'w"
  h_list :: "'w \<Rightarrow> (exn + unit) \<times> 'w"
  h_exit :: "'w \<Rightarrow> (exn + unit) \<times> 'w"
  h_loads :: "pystr \<Rightarrow> pystr + json"

text \<open>\<open>rn_files\<close> are the final theory files by problem and repeat, which an earlier run may have left; \<open>rn_rows\<close> is the file of
  results.\<close>

record 'w runner =
  rn_world :: 'w
  rn_result :: attempt_result
  rn_messages :: "message list"
  rn_tokens :: "nat \<times> nat \<times> nat"
  rn_tool_times :: "real list"
  rn_latencies :: "real list"
  rn_started :: "real option"
  rn_stopped :: "real option"
  rn_opened :: bool
  rn_files :: "pystr \<times> nat \<Rightarrow> pystr option"
  rn_rows :: "attempt_result list"

type_synonym ('w, 'a) run = "('w runner, 'a) py"

section \<open>Statements\<close>

definition on_result :: "(attempt_result \<Rightarrow> attempt_result) \<Rightarrow> ('w, unit) run" where
  "on_result f = change (\<lambda>s. s\<lparr>rn_result := f (rn_result s)\<rparr>)"

definition say :: "message list \<Rightarrow> ('w, unit) run" where
  "say ms = change (\<lambda>s. s\<lparr>rn_messages := rn_messages s @ ms\<rparr>)"

definition world_gives :: "('w \<Rightarrow> 'a \<times> 'w) \<Rightarrow> ('w, 'a) run" where
  "world_gives f s = (case f (rn_world s) of (v, w) \<Rightarrow> (Inr v, s\<lparr>rn_world := w\<rparr>))"

definition world_may :: "('w \<Rightarrow> (exn + 'a) \<times> 'w) \<Rightarrow> ('w, 'a) run" where
  "world_may f s = (case f (rn_world s) of (r, w) \<Rightarrow> (r, s\<lparr>rn_world := w\<rparr>))"

definition read_clock :: "'w runner_api \<Rightarrow> ('w, real) run" where
  "read_clock api = world_gives (h_now api)"

definition timer_start :: "'w runner_api \<Rightarrow> ('w, unit) run" where
  "timer_start api = andThen (read_clock api) (\<lambda>t. change (\<lambda>s. s\<lparr>rn_started := Some t\<rparr>))"

text \<open>\<open>self.t1 or time.time()\<close>: the clock is read when the timer has not been stopped.\<close>

definition timer_elapsed :: "'w runner_api \<Rightarrow> ('w, real) run" where
  "timer_elapsed api =
     andThen (fetch (\<lambda>s. (rn_started s, rn_stopped s))) (\<lambda>(t0, t1).
     case t0 of None \<Rightarrow> ret 0
     | Some t \<Rightarrow>
         (case t1 of Some u \<Rightarrow> if u \<noteq> 0 then ret (u - t) else andThen (read_clock api) (\<lambda>v. ret (v - t))
          | None \<Rightarrow> andThen (read_clock api) (\<lambda>v. ret (v - t))))"

definition timer_stop :: "'w runner_api \<Rightarrow> ('w, real) run" where
  "timer_stop api = andThen (read_clock api) (\<lambda>t. andThen (change (\<lambda>s. s\<lparr>rn_stopped := Some t\<rparr>)) (\<lambda>_. timer_elapsed api))"

definition call_tool :: "'w runner_api \<Rightarrow> pystr \<Rightarrow> (pystr \<times> json) list \<Rightarrow> ('w, pystr) run" where
  "call_tool api name args = world_gives (h_tool api name args)"

definition timed_tool :: "'w runner_api \<Rightarrow> pystr \<Rightarrow> (pystr \<times> json) list \<Rightarrow> ('w, pystr) run" where
  "timed_tool api name args =
     andThen (world_gives (h_timed_tool api name args)) (\<lambda>r. case r of None \<Rightarrow> throw (Exn C_TimeoutError []) | Some out \<Rightarrow> ret out)"

section \<open>Set-up\<close>

definition tool_error :: pystr where
  "tool_error = ''MCP tool error''"

definition seed_statement :: "'w runner_api \<Rightarrow> problem \<Rightarrow> ('w, unit) run" where
  "seed_statement api p =
     andThen (timed_tool api ''verify_chunk'' [(''text'', JStr (pr_statement p))]) (\<lambda>out.
     if startswith out tool_error \<or> contains out ''success=False''
     then throw (Exn C_RuntimeError (''statement seeding failed: '' @ take 300 out)) else ret ())"

definition warmup :: "'w runner_api \<Rightarrow> pystr \<Rightarrow> (pystr \<times> json) list \<Rightarrow> ('w, unit) run" where
  "warmup api name args = catch (andThen (timed_tool api name args) (\<lambda>_. ret ())) (\<lambda>_. ret ())"

definition warmup_session :: "'w runner_api \<Rightarrow> ('w, unit) run" where
  "warmup_session api = warmup api ''verify_chunk'' [(''text'', JStr ''lemma harness_warmup: True by simp'')]"

definition warmup_sledgehammer :: "'w runner_api \<Rightarrow> ('w, unit) run" where
  "warmup_sledgehammer api = warmup api ''sledgehammer'' [(''timeout_s'', JInt 15)]"

definition setup_attempt :: "'w runner_api \<Rightarrow> harness_limits \<Rightarrow> problem \<Rightarrow> ('w, unit) run" where
  "setup_attempt api hl p =
     andThen (catch
       (timed_tool api ''enter_theory'' [(''name'', JStr (pr_name p)), (''imports'', JList (map JStr (pr_imports p))),
          (''field'', JStr (derive_session (pr_imports p) ''HOL''))])
       (\<lambda>e. if isinstance e C_TimeoutError
             then throw (Exn C_RuntimeError (''enter_theory setup timed out after '' @ hl_tool_timeout_text hl @ ''s ''
                    @ ''(server unresponsive or session creation overloaded)''))
             else throw e)) (\<lambda>out.
     if startswith out tool_error \<or> contains out ''McpError''
     then throw (Exn C_RuntimeError (''enter_theory failed at setup: '' @ take 300 out))
     else andThen (warmup_session api) (\<lambda>_. andThen (seed_statement api p) (\<lambda>_. warmup_sledgehammer api)))"

section \<open>A claim to be done\<close>

text \<open>\<open>json.loads(raw).get("source", raw)\<close>, or \<open>raw\<close> when the text is no JSON or no dict.\<close>

definition source_of :: "'w runner_api \<Rightarrow> pystr \<Rightarrow> json" where
  "source_of api raw =
     (case h_loads api raw of
        Inl _ \<Rightarrow> JStr raw
      | Inr j \<Rightarrow> (case dict_get_or ''source'' (JStr raw) j of Inl _ \<Rightarrow> JStr raw | Inr v \<Rightarrow> v))"

text \<open>A dict whose \<open>proof_finished\<close> is not \<open>True\<close>.\<close>

fun not_finished :: "json \<Rightarrow> bool" where
  "not_finished (JObj kvs) = (map_of kvs ''proof_finished'' \<noteq> Some (JBool True))"
| "not_finished _ = False"

definition check_done_readiness :: "'w runner_api \<Rightarrow> ('w, pystr option) run" where
  "check_done_readiness api =
     andThen (call_tool api ''proof_state'' []) (\<lambda>state_raw.
     if startswith state_raw tool_error then ret None
     else case h_loads api state_raw of
       Inl _ \<Rightarrow> ret None
     | Inr state \<Rightarrow>
         if not_finished state then ret (Some ''proof_state reports proof_finished=false - the goal is still open'')
         else andThen (call_tool api ''source'' []) (\<lambda>src_raw.
           case source_of api src_raw of
             JStr src \<Rightarrow> ret (if contains_sorry_parsed src then Some ''the source still contains sorry/oops'' else None)
           | _ \<Rightarrow> ret None))"

definition DONE_NUDGE_LIMIT :: nat where
  "DONE_NUDGE_LIMIT = 2"

section \<open>The tool calls of a round\<close>

definition run_tool_call :: "'w runner_api \<Rightarrow> harness_limits \<Rightarrow> problem \<Rightarrow> call_request \<Rightarrow> ('w, message) run" where
  "run_tool_call api hl p tc =
     andThen (on_result (\<lambda>r. r\<lparr>ar_tool_calls := ar_tool_calls r + 1\<rparr>)) (\<lambda>_.
     case h_loads api (ca_args tc) of
       Inl bad \<Rightarrow> ret (Tool_Reply (ca_id tc) (ca_name tc) (''ERROR: tool arguments were not valid JSON ('' @ bad @ ''). ''
                   @ ''Re-issue the call with complete, valid JSON.''))
     | Inr (JObj args) \<Rightarrow>
         andThen (read_clock api) (\<lambda>t0.
         andThen (catch (timed_tool api (ca_name tc) args)
           (\<lambda>e. if isinstance e C_TimeoutError then ret (''Tool call timed out after '' @ hl_tool_timeout_text hl @ ''s'') else throw e)) (\<lambda>out.
         andThen (if ca_name tc = ''enter_theory'' \<and> \<not> startswith out tool_error
                  then catch (andThen (seed_statement api p) (\<lambda>_. ret (out @ [NL] @ ''[harness] target theorem statement re-submitted - ''
                           @ ''the proof is OPEN; continue from the goal, do not re-declare it.'')))
                         (\<lambda>e. ret (out @ [NL] @ ''[harness] statement re-seeding FAILED: '' @ str_of e))
                  else ret out) (\<lambda>out2.
         andThen (read_clock api) (\<lambda>t1.
         andThen (change (\<lambda>s. s\<lparr>rn_tool_times := rn_tool_times s @ [t1 - t0]\<rparr>)) (\<lambda>_.
         ret (Tool_Reply (ca_id tc) (ca_name tc) out2))))))
     | Inr _ \<Rightarrow> throw (Exn C_AttributeError ''object has no attribute items''))"

fun run_tool_calls :: "'w runner_api \<Rightarrow> harness_limits \<Rightarrow> problem \<Rightarrow> call_request list \<Rightarrow> ('w, message list) run" where
  "run_tool_calls api hl p [] = ret []"
| "run_tool_calls api hl p (tc # tcs) =
     andThen (run_tool_call api hl p tc) (\<lambda>m. andThen (run_tool_calls api hl p tcs) (\<lambda>ms. ret (m # ms)))"

section \<open>The rounds\<close>

definition add_usage :: "nat \<times> nat \<times> nat \<Rightarrow> nat \<times> nat \<times> nat \<Rightarrow> nat \<times> nat \<times> nat" where
  "add_usage u t = (case (u, t) of ((a, b, c), (x, y, z)) \<Rightarrow> (x + a, y + b, z + c))"

definition count_round :: "call_request round_reply \<Rightarrow> attempt_result \<Rightarrow> attempt_result" where
  "count_round rd r =
     r\<lparr>ar_rounds := ar_rounds r + 1,
       ar_truncated := (if rd_finish rd = Some ''length'' then ar_truncated r + 1 else ar_truncated r)\<rparr>"

definition nudge_model :: "call_request round_reply \<Rightarrow> pystr \<Rightarrow> ('w, unit) run" where
  "nudge_model rd payload =
     andThen (on_result (\<lambda>r. r\<lparr>ar_nudges := ar_nudges r + 1\<rparr>)) (\<lambda>_.
     let txt = strip (or_else (rd_text rd) []) in
     say ((if txt \<noteq> [] then [Assistant txt] else []) @ [User payload]))"

definition chat_round :: "'w runner_api \<Rightarrow> real \<Rightarrow> ('w, call_request round_reply \<times> real) run" where
  "chat_round api round_start =
     andThen (fetch rn_messages) (\<lambda>ms.
     andThen (world_may (h_chat api ms)) (\<lambda>rd.
     andThen (change (\<lambda>s. s\<lparr>rn_tokens := add_usage (rd_usage rd) (rn_tokens s)\<rparr>)) (\<lambda>_.
     andThen (on_result (count_round rd)) (\<lambda>_.
     andThen (timer_elapsed api) (\<lambda>t.
     andThen (change (\<lambda>s. s\<lparr>rn_latencies := rn_latencies s @ [round2 (t - round_start)]\<rparr>)) (\<lambda>_. ret (rd, t)))))))"

fun run_rounds :: "'w runner_api \<Rightarrow> harness_limits \<Rightarrow> problem \<Rightarrow> nat \<Rightarrow> nat \<Rightarrow> nat \<Rightarrow> real \<Rightarrow> ('w, unit) run" where
  "run_rounds api hl p 0 nudges dones round_start = ret ()"
| "run_rounds api hl p (Suc n) nudges dones round_start =
     andThen (timer_elapsed api) (\<lambda>elapsed.
     if hl_wall_cap hl \<le> elapsed
     then on_result (\<lambda>r. r\<lparr>ar_error := Some (''problem wall cap exceeded ('' @ hl_wall_cap_text hl @ ''s)'')\<rparr>)
     else
       andThen (chat_round api round_start) (\<lambda>(rd, t).
       if rd_calls rd = []
       then (case no_tool_call_action rd nudges of
           Nudge_Done \<Rightarrow>
             andThen (if dones < DONE_NUDGE_LIMIT then check_done_readiness api else ret None) (\<lambda>refused.
             case refused of
               None \<Rightarrow> on_result (\<lambda>r. r\<lparr>ar_claimed := True\<rparr>)
             | Some reason \<Rightarrow>
                 andThen (nudge_model rd (''[DONE not accepted: '' @ reason @ ''. Fix this and re-check (proof_state must show ''
                     @ ''proof_finished=true and the source must be sorry-free), then reply DONE.]'')) (\<lambda>_.
                 run_rounds api hl p n nudges (Suc dones) t))
         | Nudge_Stop err \<Rightarrow> on_result (\<lambda>r. r\<lparr>ar_error := Some err\<rparr>)
         | Nudge payload \<Rightarrow> andThen (nudge_model rd payload) (\<lambda>_. run_rounds api hl p n (Suc nudges) dones t))
       else
         andThen (run_tool_calls api hl p (rd_calls rd)) (\<lambda>outs.
         andThen (say (Assistant_Calls (or_else (rd_text rd) []) (rd_calls rd) # outs)) (\<lambda>_.
         run_rounds api hl p n nudges dones t))))"

section \<open>An attempt\<close>

definition first_of :: "real list \<Rightarrow> real option" where
  "first_of ts = (case ts of [] \<Rightarrow> None | t # _ \<Rightarrow> Some (round2 t))"

text \<open>The figures both endings of an attempt note.\<close>

definition settle :: "real \<Rightarrow> ('w, unit) run" where
  "settle wall =
     change (\<lambda>s. case rn_tokens s of (i, out, c) \<Rightarrow>
       s\<lparr>rn_result := (rn_result s)\<lparr>ar_wall := wall, ar_input := i, ar_output := out, ar_cached := c,
         ar_prover := (if rn_tool_times s \<noteq> [] then Some (round2 (sum_list (rn_tool_times s))) else None),
         ar_first_tool := first_of (rn_tool_times s), ar_latencies := rn_latencies s\<rparr>\<rparr>)"

definition with_end :: "pystr \<Rightarrow> pystr" where
  "with_end src = (if drop (length (rstrip src) - 3) (rstrip src) = ''end'' then src else rstrip src @ [NL] @ ''end'' @ [NL])"

definition save_source :: "'w runner_api \<Rightarrow> problem \<Rightarrow> nat \<Rightarrow> ('w, unit) run" where
  "save_source api p rep =
     andThen (call_tool api ''source'' []) (\<lambda>raw.
     case source_of api raw of
       JStr src \<Rightarrow>
         andThen (change (\<lambda>s. s\<lparr>rn_files := (rn_files s)((pr_name p, rep) := Some (with_end src))\<rparr>)) (\<lambda>_.
         andThen (on_result (\<lambda>r. r\<lparr>ar_final := True\<rparr>)) (\<lambda>_.
         andThen (call_tool api ''close_theory'' []) (\<lambda>_. ret ())))
     | _ \<Rightarrow> throw (Exn C_AttributeError ''object has no attribute rstrip''))"

text \<open>\<open>async with\<close>: leaving the session may raise, and its exception replaces that of the body.\<close>

definition with_mcp_session :: "'w runner_api \<Rightarrow> ('w, unit) run \<Rightarrow> ('w, unit) run" where
  "with_mcp_session api body =
     andThen (world_may (h_open api)) (\<lambda>_.
     andThen (change (\<lambda>s. s\<lparr>rn_opened := True\<rparr>)) (\<lambda>_ s.
     case body s of (r, s') \<Rightarrow> (case world_may (h_exit api) s' of (Inl e, s'') \<Rightarrow> (Inl e, s'') | (Inr _, s'') \<Rightarrow> (r, s''))))"

definition attempt_body :: "'w runner_api \<Rightarrow> harness_limits \<Rightarrow> problem \<Rightarrow> nat \<Rightarrow> real \<Rightarrow> ('w, unit) run" where
  "attempt_body api hl p rep attempt_t0 =
     with_mcp_session api
       (andThen (world_may (h_list api)) (\<lambda>_.
        andThen (setup_attempt api hl p) (\<lambda>_.
        andThen (read_clock api) (\<lambda>t.
        andThen (on_result (\<lambda>r. r\<lparr>ar_setup := Some (round2 (t - attempt_t0))\<rparr>)) (\<lambda>_.
        andThen (timer_start api) (\<lambda>_.
        andThen (run_rounds api hl p (hl_rounds hl) 0 0 0) (\<lambda>_.
        andThen (timer_stop api) (\<lambda>wall.
        andThen (settle (round2 wall)) (\<lambda>_. save_source api p rep)))))))))"

text \<open>A \<open>session\<close> that was never assigned raises a \<open>NameError\<close>, which the clean-up swallows.\<close>

definition close_opened :: "'w runner_api \<Rightarrow> ('w, unit) run" where
  "close_opened api =
     andThen (fetch rn_opened) (\<lambda>b. if b then andThen (call_tool api ''close_theory'' []) (\<lambda>_. ret ()) else ret ())"

definition attempt_failed :: "'w runner_api \<Rightarrow> exn \<Rightarrow> ('w, unit) run" where
  "attempt_failed api e =
     andThen (on_result (\<lambda>r. r\<lparr>ar_error := Some (class_name (class_of e) @ '': '' @ str_of e)\<rparr>)) (\<lambda>_.
     andThen (andThen (fetch rn_started) (\<lambda>t0. if t0 \<noteq> None then timer_stop api else ret 0)) (\<lambda>wall.
     andThen (settle (round2 wall)) (\<lambda>_. close_opened api)))"

definition ask_arbiter :: "'w runner_api \<Rightarrow> problem \<Rightarrow> nat \<Rightarrow> ('w, unit) run" where
  "ask_arbiter api p rep =
     andThen (fetch (\<lambda>s. rn_files s (pr_name p, rep))) (\<lambda>file.
     if file = None
     then on_result (\<lambda>r. r\<lparr>ar_solved := False,
            ar_error := (if ar_error r = None then Some ''no final theory file available for arbiter'' else ar_error r)\<rparr>)
     else andThen (world_gives (check_file (arbiter_api.truncate api) p [] file ''HOL'')) (\<lambda>v.
       on_result (\<lambda>r. r\<lparr>ar_solved := vd_solved v,
         ar_error := (if \<not> vd_solved v \<and> ar_error r = None then vd_error v else ar_error r)\<rparr>)))"

definition record_attempt :: "('w, unit) run" where
  "record_attempt = change (\<lambda>s. s\<lparr>rn_rows := append_result (rn_result s) (rn_rows s)\<rparr>)"

definition begin_attempt :: "pystr \<Rightarrow> problem \<Rightarrow> nat \<Rightarrow> 'w runner \<Rightarrow> 'w runner" where
  "begin_attempt prompt p rep s =
     s\<lparr>rn_result := AttemptResult (pr_name p) rep, rn_messages := [User prompt], rn_tokens := (0, 0, 0), rn_tool_times := [],
       rn_latencies := [], rn_started := None, rn_stopped := None, rn_opened := False\<rparr>"

definition run_problem :: "'w runner_api \<Rightarrow> harness_limits \<Rightarrow> (problem \<Rightarrow> pystr) \<Rightarrow> problem \<Rightarrow> nat \<Rightarrow> ('w, unit) run" where
  "run_problem api hl prompt p rep =
     andThen (world_may (h_prepare api)) (\<lambda>_.
     andThen (change (begin_attempt (prompt p) p rep)) (\<lambda>_.
     andThen (read_clock api) (\<lambda>attempt_t0.
     andThen (catch (attempt_body api hl p rep attempt_t0) (attempt_failed api)) (\<lambda>_.
     andThen (close_opened api) (\<lambda>_.
     andThen (ask_arbiter api p rep) (\<lambda>_. record_attempt))))))"

text \<open>One repeat of \<open>main\<close>, and all of them.\<close>

definition attempt_or_note :: "'w runner_api \<Rightarrow> harness_limits \<Rightarrow> (problem \<Rightarrow> pystr) \<Rightarrow> problem \<times> nat \<Rightarrow> ('w, unit) run" where
  "attempt_or_note api hl prompt pr =
     catch (run_problem api hl prompt (fst pr) (snd pr))
       (\<lambda>e. change (\<lambda>s. s\<lparr>rn_rows := append_result ((AttemptResult (pr_name (fst pr)) (snd pr))\<lparr>ar_error := Some (str_of e)\<rparr>) (rn_rows s)\<rparr>))"

fun run_all :: "'w runner_api \<Rightarrow> harness_limits \<Rightarrow> (problem \<Rightarrow> pystr) \<Rightarrow> (problem \<times> nat) list \<Rightarrow> ('w, unit) run" where
  "run_all api hl prompt [] = ret ()"
| "run_all api hl prompt (pr # prs) = andThen (attempt_or_note api hl prompt pr) (\<lambda>_. run_all api hl prompt prs)"

definition schedule :: "problem list \<Rightarrow> nat \<Rightarrow> (problem \<times> nat) list" where
  "schedule ps repeats = concat (map (\<lambda>p. map (Pair p) [0..<repeats]) ps)"

end
