(* ===== verification/Attempt_Properties.thy ===== *)
theory Attempt_Properties
  imports Attempt_Runner
begin

text \<open>
  What the runner of the comparison records: one row per attempt, with counters that fit, and \<open>solved\<close> only for a file the
  server has verified. The last section shows what the score does not guarantee.
\<close>

section \<open>Counters\<close>

text \<open>What the invariant looks at; the operations that keep it are framed by \<open>keeps\<close>.\<close>

definition tally_of :: "'w runner \<Rightarrow> attempt_result list \<times> pystr \<times> nat \<times> nat \<times> nat \<times> nat \<times> real list" where
  "tally_of s = (rn_rows s, ar_problem (rn_result s), ar_repeat (rn_result s), ar_rounds (rn_result s), ar_truncated (rn_result s),
     ar_nudges (rn_result s), rn_latencies s)"

definition in_rounds :: "attempt_result list \<Rightarrow> pystr \<Rightarrow> nat \<Rightarrow> nat \<Rightarrow> nat \<Rightarrow> 'w runner \<Rightarrow> bool" where
  "in_rounds rows name rep k m s \<longleftrightarrow>
     rn_rows s = rows \<and> ar_problem (rn_result s) = name \<and> ar_repeat (rn_result s) = rep \<and> ar_rounds (rn_result s) = k \<and>
     length (rn_latencies s) = k \<and> ar_truncated (rn_result s) \<le> k \<and> ar_nudges (rn_result s) = m \<and> m \<le> k"

definition bounded :: "attempt_result list \<Rightarrow> pystr \<Rightarrow> nat \<Rightarrow> nat \<Rightarrow> 'w runner \<Rightarrow> bool" where
  "bounded rows name rep n s \<longleftrightarrow> (\<exists>k m. k \<le> n \<and> m \<le> NUDGE_LIMIT + DONE_NUDGE_LIMIT \<and> in_rounds rows name rep k m s)"

lemma in_rounds_cong: "tally_of s = tally_of s' \<Longrightarrow> in_rounds rows name rep k m s = in_rounds rows name rep k m s'"
  by (simp add: tally_of_def in_rounds_def)

lemma tally_triple:
  assumes "keeps tally_of op"
  shows "triple (in_rounds rows name rep k m) op (\<lambda>_. in_rounds rows name rep k m) (\<lambda>_. in_rounds rows name rep k m)"
  unfolding triple_def
proof (intro allI impI)
  fix s :: "'a runner"
  assume "in_rounds rows name rep k m s"
  then have "in_rounds rows name rep k m (snd (op s))" using assms in_rounds_cong [of "snd (op s)" s] by (simp add: keeps_def)
  then show "case op s of (Inr v, s') \<Rightarrow> in_rounds rows name rep k m s' | (Inl e, s') \<Rightarrow> in_rounds rows name rep k m s'"
    by (cases "op s"; cases "fst (op s)") auto
qed

lemma bounded_keeps: "keeps tally_of op \<Longrightarrow> preserves (bounded rows name rep n) op"
  unfolding preserves_def keeps_def bounded_def using in_rounds_cong by metis

lemma tally_frames [frame]:
  "keeps tally_of (world_gives f)" "keeps tally_of (world_may g)" "keeps tally_of (say ms)"
  by (simp_all add: keeps_def tally_of_def world_gives_def world_may_def say_def split_beta)

lemma tally_on_result [frame]:
  assumes "\<And>r. ar_problem (f r) = ar_problem r \<and> ar_repeat (f r) = ar_repeat r \<and> ar_rounds (f r) = ar_rounds r \<and>
    ar_truncated (f r) = ar_truncated r \<and> ar_nudges (f r) = ar_nudges r"
  shows "keeps tally_of (on_result f)"
  using assms by (simp add: keeps_def tally_of_def on_result_def)

lemma tally_calls [frame]:
  "keeps tally_of (read_clock api)" "keeps tally_of (timer_elapsed api)" "keeps tally_of (timer_start api)"
  "keeps tally_of (timer_stop api)" "keeps tally_of (call_tool api name args)" "keeps tally_of (timed_tool api name args)"
  unfolding read_clock_def timer_elapsed_def timer_start_def timer_stop_def call_tool_def timed_tool_def
  by (intro frame; auto simp: tally_of_def intro!: frame split: option.split prod.split)+

lemma tally_setup [frame]:
  "keeps tally_of (seed_statement api p)" "keeps tally_of (warmup api name args)" "keeps tally_of (setup_attempt api hl p)"
  unfolding seed_statement_def warmup_def setup_attempt_def warmup_session_def warmup_sledgehammer_def
  by (intro frame)+

lemma tally_done [frame]: "keeps tally_of (check_done_readiness api)"
  unfolding check_done_readiness_def by (auto intro!: frame split: sum.split json.split)

lemma tally_tool_call [frame]: "keeps tally_of (run_tool_call api hl p tc)"
  unfolding run_tool_call_def
  by (auto intro!: frame simp: tally_of_def split: sum.split json.split)

lemma tally_tool_calls [frame]: "keeps tally_of (run_tool_calls api hl p tcs)"
  by (induction tcs) (simp_all only: run_tool_calls.simps, (intro frame, assumption?)+)

lemma nudge_below_limit: "no_tool_call_action rd nudges = Nudge payload \<Longrightarrow> nudges < NUDGE_LIMIT"
  by (auto simp: no_tool_call_action_def Let_def split: if_splits)

lemma chat_round_counts:
  "triple (in_rounds rows name rep k m) (chat_round api t0) (\<lambda>_. in_rounds rows name rep (Suc k) m) (\<lambda>_. in_rounds rows name rep k m)"
proof -
  let ?late = "\<lambda>s. rn_rows s = rows \<and> ar_problem (rn_result s) = name \<and> ar_repeat (rn_result s) = rep \<and> ar_rounds (rn_result s) = Suc k
      \<and> length (rn_latencies s) = k \<and> ar_truncated (rn_result s) \<le> Suc k \<and> ar_nudges (rn_result s) = m \<and> m \<le> k"
  have clock: "triple ?late (timer_elapsed api) (\<lambda>_. ?late) E" for E
    by (auto simp: triple_def timer_elapsed_def read_clock_def world_gives_def andThen_def split: option.splits prod.splits)
  show ?thesis
    unfolding chat_round_def
    apply (rule triple_andThen, rule tally_triple, rule frame)
    apply (rule triple_andThen, rule tally_triple, rule frame)
    apply (rule triple_andThen [where R = "\<lambda>_. in_rounds rows name rep k m"], rule triple_change, simp add: in_rounds_def)
    apply (rule triple_andThen [where R = "\<lambda>_. ?late"])
     apply (simp add: on_result_def, rule triple_change, simp add: in_rounds_def count_round_def)
    apply (rule triple_andThen, rule clock)
    apply (rule triple_andThen [where R = "\<lambda>_. in_rounds rows name rep (Suc k) m"], rule triple_change, simp add: in_rounds_def)
    by (rule triple_ret)
qed

lemma nudge_counts:
  "triple (in_rounds rows name rep (Suc k) m) (nudge_model rd payload) (\<lambda>_. in_rounds rows name rep (Suc k) (Suc m)) E" if "m \<le> k"
  using that by (simp add: triple_def nudge_model_def on_result_def say_def Let_def andThen_def in_rounds_def)

lemma rounds_bounded:
  assumes "k + n \<le> most" and "nudges \<le> NUDGE_LIMIT" and "dones \<le> DONE_NUDGE_LIMIT"
  shows "triple (in_rounds rows name rep k (nudges + dones)) (run_rounds api hl p n nudges dones t0)
    (\<lambda>_. bounded rows name rep most) (\<lambda>_. bounded rows name rep most)"
  using assms
proof (induction n arbitrary: k nudges dones t0)
  case 0
  show ?case unfolding run_rounds.simps bounded_def
    by (rule triple_ret, rule exI [of _ k], rule exI [of _ "nudges + dones"]) (use 0 in auto)
next
  case (Suc n)
  have into: "bounded rows name rep most s" if "in_rounds rows name rep k' (nudges + dones) s" "k' \<le> Suc k" for k' and s :: "'a runner"
    using that Suc.prems unfolding bounded_def by (intro exI [of _ k'] exI [of _ "nudges + dones"]) auto
  have stop: "triple (in_rounds rows name rep k' (nudges + dones)) op (\<lambda>_. bounded rows name rep most) (\<lambda>_. bounded rows name rep most)"
    if "keeps tally_of op" "k' \<le> Suc k" for k' and op :: "('a, unit) run"
    by (rule triple_weaken [OF tally_triple [OF that(1)]]) (use into [OF _ that(2)] in auto)
  have ask: "triple (in_rounds rows name rep k' (nudges + dones)) op (\<lambda>_. in_rounds rows name rep k' (nudges + dones))
      (\<lambda>_. bounded rows name rep most)" if "keeps tally_of op" "k' \<le> Suc k" for k' and op :: "('a, 'b) run"
    by (rule triple_weaken [OF tally_triple [OF that(1)]]) (use into [OF _ that(2)] in auto)
  have chat: "triple (in_rounds rows name rep k (nudges + dones)) (chat_round api t0) (\<lambda>_. in_rounds rows name rep (Suc k) (nudges + dones))
      (\<lambda>_. bounded rows name rep most)"
    by (rule triple_weaken [OF chat_round_counts]) (use into [of k] in auto)
  have again: "triple (in_rounds rows name rep (Suc k) (nudges + dones)) (andThen (nudge_model rd payload) (\<lambda>_. run_rounds api hl p n nudges' dones' t))
      (\<lambda>_. bounded rows name rep most) (\<lambda>_. bounded rows name rep most)"
    if "nudges' + dones' = Suc (nudges + dones)" "nudges' \<le> NUDGE_LIMIT" "dones' \<le> DONE_NUDGE_LIMIT" "nudges + dones \<le> k"
    for rd payload nudges' dones' t
    by (rule triple_andThen, rule nudge_counts [OF that(4)], unfold that(1) [symmetric], rule Suc.IH)
      (use that(2,3) Suc.prems in auto)
  show ?case
  proof (cases "nudges + dones \<le> k")
    case False
    then show ?thesis by (simp add: triple_def in_rounds_def)
  next
    case True
    show ?thesis
      unfolding run_rounds.simps
      apply (rule triple_andThen, rule ask, rule frame, simp)
      apply (rule triple_if, rule stop, rule frame, simp, simp)
      apply (rule triple_andThen, rule chat)
      apply (rule triple_prod, rule triple_if)
      subgoal for elapsed x rd t
        apply (cases "no_tool_call_action rd nudges"; simp only: nudging.case)
          apply (cases "dones < DONE_NUDGE_LIMIT"; simp only: if_True if_False andThen_ret option.case)
           apply (rule triple_andThen, rule ask, rule frame, simp)
           apply (rule triple_option, rule stop, rule frame, simp, simp)
           apply (rule again; use True Suc.prems in simp)
          apply (rule stop, rule frame, simp, simp)
         apply (rule again; use True Suc.prems in \<open>auto simp: Suc_le_eq dest: nudge_below_limit\<close>)
        by (rule stop, rule frame, simp, simp)
      apply (rule triple_andThen, rule ask, rule frame, simp)
      apply (rule triple_andThen, rule ask, rule frame, simp)
      by (rule Suc.IH) (use Suc.prems in auto)
  qed
qed

section \<open>The row of an attempt\<close>

definition settled_result :: "attempt_result list \<Rightarrow> pystr \<Rightarrow> nat \<Rightarrow> nat \<Rightarrow> 'w runner \<Rightarrow> bool" where
  "settled_result rows name rep n s \<longleftrightarrow> bounded rows name rep n s \<and> ar_latencies (rn_result s) = rn_latencies s"

definition figures :: "'w runner \<Rightarrow> (attempt_result list \<times> pystr \<times> nat \<times> nat \<times> nat \<times> nat \<times> real list) \<times> real list" where
  "figures s = (tally_of s, ar_latencies (rn_result s))"

lemma settled_result_keeps:
  assumes "keeps figures op"
  shows "triple (settled_result rows name rep n) op (\<lambda>_. settled_result rows name rep n) (\<lambda>_. settled_result rows name rep n)"
proof (rule triple_of_preserves)
  have "keeps tally_of op" using assms by (simp add: keeps_def figures_def)
  then have "preserves (bounded rows name rep n) op" by (rule bounded_keeps)
  then show "preserves (settled_result rows name rep n) op"
    using assms unfolding preserves_def settled_result_def keeps_def figures_def by (simp add: tally_of_def)
qed

lemma figures_frames [frame]: "keeps figures (world_gives f)" "keeps figures (world_may g)" "keeps figures (call_tool api name args)"
  by (simp_all add: keeps_def figures_def tally_of_def world_gives_def world_may_def call_tool_def split_beta)

lemma figures_on_result [frame]:
  assumes "\<And>r. ar_problem (f r) = ar_problem r \<and> ar_repeat (f r) = ar_repeat r \<and> ar_rounds (f r) = ar_rounds r \<and>
    ar_truncated (f r) = ar_truncated r \<and> ar_nudges (f r) = ar_nudges r \<and> ar_latencies (f r) = ar_latencies r"
  shows "keeps figures (on_result f)"
  using assms by (simp add: keeps_def figures_def tally_of_def on_result_def)

lemma figures_close [frame]: "keeps figures (close_opened api)"
  unfolding close_opened_def by (intro frame)

lemma settle_settles: "triple (bounded rows name rep n) (settle wall) (\<lambda>_. settled_result rows name rep n) E"
  by (auto simp: triple_def settle_def settled_result_def bounded_def in_rounds_def split: prod.split)

lemma save_source_figures: "keeps figures (save_source api p rep)"
  unfolding save_source_def
  by (intro frame, simp split: json.split, intro allI conjI impI frame) (simp_all add: figures_def tally_of_def)

lemma bounded_any:
  "keeps tally_of op \<Longrightarrow> triple (bounded rows name rep n) op (\<lambda>_. bounded rows name rep n) (\<lambda>_. bounded rows name rep n)"
  by (rule triple_of_preserves [OF bounded_keeps])

lemma in_rounds_bounded: "in_rounds rows name rep 0 0 s \<Longrightarrow> bounded rows name rep n s"
  unfolding bounded_def by (intro exI [of _ 0]) simp

lemma start_any:
  assumes "keeps tally_of op"
  shows "triple (in_rounds rows name rep 0 0) op (\<lambda>_. in_rounds rows name rep 0 0) (\<lambda>_. bounded rows name rep n)"
  by (rule triple_weaken [OF tally_triple [OF assms]]) (auto intro: in_rounds_bounded)

text \<open>Leaving the session keeps what holds after the body, whatever it raises.\<close>

lemma leave_session:
  assumes "triple P body (\<lambda>_. Q) (\<lambda>_. R)" and "\<And>s. Q s \<Longrightarrow> R s"
    and "\<And>s w. Q (s\<lparr>rn_world := w\<rparr>) = Q s" and "\<And>s w. R (s\<lparr>rn_world := w\<rparr>) = R s"
  shows "triple P (\<lambda>s. case body s of (r, s') \<Rightarrow>
      (case world_may (h_exit api) s' of (Inl e, s'') \<Rightarrow> (Inl e, s'') | (Inr _, s'') \<Rightarrow> (r, s''))) (\<lambda>_. Q) (\<lambda>_. R)"
proof (rule tripleI)
  fix s assume "P s"
  obtain r s' where r: "body s = (r, s')" by force
  obtain x w where x: "h_exit api (rn_world s') = (x, w)" by force
  show "case (case body s of (r, s') \<Rightarrow> (case world_may (h_exit api) s' of (Inl e, s'') \<Rightarrow> (Inl e, s'') | (Inr _, s'') \<Rightarrow> (r, s''))) of
      (Inr v, s') \<Rightarrow> Q s' | (Inl e, s') \<Rightarrow> R s'"
    using r x assms(2) triple_value [OF assms(1) \<open>P s\<close>] triple_error [OF assms(1) \<open>P s\<close>]
    by (cases r; cases x) (simp_all add: world_may_def assms(3,4))
qed

lemma attempt_body_settles:
  "triple (in_rounds rows name rep 0 0) (attempt_body api hl p rep' t0) (\<lambda>_. settled_result rows name rep (hl_rounds hl))
    (\<lambda>_. bounded rows name rep (hl_rounds hl))"
proof -
  let ?Q = "settled_result rows name rep (hl_rounds hl)" and ?R = "bounded rows name rep (hl_rounds hl)"
  have world: "?Q (s\<lparr>rn_world := w\<rparr>) = ?Q s" "?R (s\<lparr>rn_world := w\<rparr>) = ?R s" for s :: "'a runner" and w
    by (simp_all add: settled_result_def bounded_def in_rounds_def)
  have save: "triple ?Q (save_source api p rep') (\<lambda>_. ?Q) (\<lambda>_. ?R)"
    by (rule triple_weaken [OF settled_result_keeps [OF save_source_figures]]) (auto simp: settled_result_def)
  have rounds: "triple (in_rounds rows name rep 0 0) (run_rounds api hl p (hl_rounds hl) 0 0 0) (\<lambda>_. ?R) (\<lambda>_. ?R)"
    using rounds_bounded [of 0 "hl_rounds hl" "hl_rounds hl" 0 0] by simp
  show ?thesis
    unfolding attempt_body_def with_mcp_session_def
    apply (rule triple_andThen, rule start_any, rule frame)
    apply (rule triple_andThen, rule start_any, rule frame, simp add: tally_of_def)
    apply (rule leave_session [OF _ _ world])
     apply (rule triple_andThen, rule start_any, rule frame)
     apply (rule triple_andThen, rule start_any, rule frame)
     apply (rule triple_andThen, rule start_any, rule frame)
     apply (rule triple_andThen, rule start_any, rule frame, simp)
     apply (rule triple_andThen, rule start_any, rule frame)
     apply (rule triple_andThen, rule rounds)
     apply (rule triple_andThen, rule bounded_any, rule frame)
     apply (rule triple_andThen, rule settle_settles, rule save)
    by (simp add: settled_result_def)
qed

lemma attempt_failed_settles:
  "triple (bounded rows name rep n) (attempt_failed api e) (\<lambda>_. settled_result rows name rep n) (\<lambda>_. settled_result rows name rep n)"
proof -
  have stop: "keeps tally_of (andThen (fetch rn_started) (\<lambda>t0. if t0 \<noteq> None then timer_stop api else ret 0))" by (intro frame)
  have noted: "triple (bounded rows name rep n) op (\<lambda>_. bounded rows name rep n) (\<lambda>_. settled_result rows name rep n)"
    if keep: "keeps tally_of op" and never: "\<And>s. \<not> isl (fst (op s))" for op :: "('a, 'b) run"
  proof (rule tripleI)
    fix s :: "'a runner" assume b: "bounded rows name rep n s"
    obtain v s' where "op s = (Inr v, s')" using never [of s] by (cases "op s"; cases "fst (op s)") auto
    then show "case op s of (Inr v, s') \<Rightarrow> bounded rows name rep n s' | (Inl e, s') \<Rightarrow> settled_result rows name rep n s'"
      using triple_value [OF bounded_any [OF keep, of rows name rep n] b] by simp
  qed
  have calm: "\<not> isl (fst (andThen (fetch rn_started) (\<lambda>t0. if t0 \<noteq> None then timer_stop api else ret 0) s))" for s
    by (auto simp: timer_stop_def timer_elapsed_def read_clock_def world_gives_def andThen_def split: option.splits prod.splits)
  show ?thesis
    unfolding attempt_failed_def
    apply (rule triple_andThen, rule noted, rule frame, simp, simp add: on_result_def)
    apply (rule triple_andThen, rule noted, rule stop, rule calm)
    apply (rule triple_andThen, rule settle_settles)
    by (rule settled_result_keeps, rule frame)
qed

section \<open>What solved means\<close>

definition says_verified :: "json \<Rightarrow> bool" where
  "says_verified j = (case j of JObj kvs \<Rightarrow> (case map_of kvs ''theory_verified'' of None \<Rightarrow> False | Some v \<Rightarrow> py_bool v) | _ \<Rightarrow> False)"

definition session_for :: "problem \<Rightarrow> pystr" where
  "session_for p = (if external_sessions (pr_imports p) = [] then ''HOL'' else hd (external_sessions (pr_imports p)))"

definition server_verified :: "'w arbiter_api \<Rightarrow> problem \<Rightarrow> pystr \<Rightarrow> bool" where
  "server_verified api p src \<longleftrightarrow> (\<exists>w j w'. judge api (pr_name p) src (session_for p) w = (Inr j, w') \<and> says_verified j)"

lemma read_verdict_solved: "read_verdict rp j = Inr v \<Longrightarrow> vd_solved v \<Longrightarrow> says_verified j"
  by (cases j) (auto simp: read_verdict_def dict_get_or_def says_verified_def split: option.splits if_splits)

lemma check_file_solved:
  assumes "vd_solved (fst (check_file api p path file ''HOL'' w))"
  obtains src where "file = Some src" "\<not> contains_sorry_parsed src" "contains src (''theorem '' @ pr_theorem p)"
    "server_verified api p src"
proof -
  obtain src where src: "file = Some src" "\<not> contains_sorry_parsed src" "contains src (''theorem '' @ pr_theorem p)"
    using assms by (auto simp: check_file_def split: option.splits if_splits)
  obtain r w' where r: "judge api (pr_name p) src (session_for p) w = (r, w')" by force
  then obtain j v where "r = Inr j" "read_verdict (json_text api) j = Inr v" "vd_solved v"
    using assms src by (cases r) (auto simp: check_file_def Let_def session_for_def [symmetric] split: sum.splits)
  then have "server_verified api p src" using r read_verdict_solved unfolding server_verified_def by blast
  then show ?thesis using that src by blast
qed

definition fair :: "'w arbiter_api \<Rightarrow> problem \<Rightarrow> nat \<Rightarrow> 'w runner \<Rightarrow> bool" where
  "fair api p rep s \<longleftrightarrow> (ar_solved (rn_result s) \<longrightarrow>
     (\<exists>src. rn_files s (pr_name p, rep) = Some src \<and> \<not> contains_sorry_parsed src \<and> contains src (''theorem '' @ pr_theorem p) \<and>
        server_verified api p src))"

lemma ask_arbiter_fair: "triple P (ask_arbiter api p rep) (\<lambda>_. fair (arbiter_api.truncate api) p rep) E"
proof (rule tripleI)
  fix s :: "'a runner"
  show "case ask_arbiter api p rep s of (Inr v, s') \<Rightarrow> fair (arbiter_api.truncate api) p rep s' | (Inl e, s') \<Rightarrow> E e s'"
  proof (cases "rn_files s (pr_name p, rep)")
    case None
    then show ?thesis by (simp add: ask_arbiter_def andThen_def on_result_def fair_def)
  next
    case (Some src)
    obtain v w where v: "check_file (arbiter_api.truncate api) p [] (Some src) ''HOL'' (rn_world s) = (v, w)" by force
    have "\<not> contains_sorry_parsed src \<and> contains src (''theorem '' @ pr_theorem p) \<and> server_verified (arbiter_api.truncate api) p src"
      if "vd_solved v"
      using check_file_solved [of "arbiter_api.truncate api" p "[]" "Some src" "rn_world s"] v that by auto
    then show ?thesis using Some v by (simp add: ask_arbiter_def andThen_def on_result_def world_gives_def fair_def)
  qed
qed

lemma ask_arbiter_figures: "keeps figures (ask_arbiter api p rep)"
  unfolding ask_arbiter_def by (intro frame; simp)

lemma triple_both:
  assumes "triple P m Q E" and "triple P m R F"
  shows "triple P m (\<lambda>v s. Q v s \<and> R v s) E"
proof (rule tripleI)
  fix s assume "P s"
  obtain r s' where r: "m s = (r, s')" by force
  show "case m s of (Inr v, s') \<Rightarrow> Q v s' \<and> R v s' | (Inl e, s') \<Rightarrow> E e s'"
    using r triple_value [OF assms(1) \<open>P s\<close>] triple_value [OF assms(2) \<open>P s\<close>] triple_error [OF assms(1) \<open>P s\<close>]
    by (cases r) simp_all
qed

definition fair_row :: "'w runner_api \<Rightarrow> problem \<Rightarrow> nat \<Rightarrow> nat \<Rightarrow> (pystr \<times> nat \<Rightarrow> pystr option) \<Rightarrow> attempt_result \<Rightarrow> bool" where
  "fair_row api p rep n files r \<longleftrightarrow>
     ar_problem r = pr_name p \<and> ar_repeat r = rep \<and> ar_rounds r \<le> n \<and> length (ar_latencies r) = ar_rounds r \<and>
     ar_truncated r \<le> ar_rounds r \<and> ar_nudges r \<le> min (ar_rounds r) (NUDGE_LIMIT + DONE_NUDGE_LIMIT) \<and>
     ar_total r = ar_input r + ar_output r \<and>
     (ar_solved r \<longrightarrow> (\<exists>src. files (pr_name p, rep) = Some src \<and> \<not> contains_sorry_parsed src \<and>
        contains src (''theorem '' @ pr_theorem p) \<and> server_verified (arbiter_api.truncate api) p src))"

lemma finalize_fields [simp]:
  "ar_problem (finalize r) = ar_problem r" "ar_repeat (finalize r) = ar_repeat r" "ar_rounds (finalize r) = ar_rounds r"
  "ar_latencies (finalize r) = ar_latencies r" "ar_truncated (finalize r) = ar_truncated r" "ar_nudges (finalize r) = ar_nudges r"
  "ar_solved (finalize r) = ar_solved r" "ar_total (finalize r) = ar_input r + ar_output r" "ar_input (finalize r) = ar_input r"
  "ar_output (finalize r) = ar_output r"
  by (simp_all add: finalize_def Let_def split: option.split)

lemma record_row:
  assumes "settled_result rows (pr_name p) rep n s" and "fair (arbiter_api.truncate api) p rep s"
  shows "fair_row api p rep n (rn_files s) (finalize (rn_result s))"
  using assms by (auto simp: fair_row_def settled_result_def bounded_def in_rounds_def fair_def)

lemma run_problem_row:
  "triple (\<lambda>s. rn_rows s = rows) (run_problem api hl prompt p rep)
    (\<lambda>_ s. \<exists>r. rn_rows s = rows @ [r] \<and> fair_row api p rep (hl_rounds hl) (rn_files s) r) (\<lambda>_ s. rn_rows s = rows)"
proof -
  let ?S = "settled_result rows (pr_name p) rep (hl_rounds hl)"
  have rows: "?S s \<Longrightarrow> rn_rows s = rows" for s :: "'a runner"
    by (auto simp: settled_result_def bounded_def in_rounds_def)
  have prepare: "triple (\<lambda>s. rn_rows s = rows) (world_may f) (\<lambda>_ s. rn_rows s = rows) (\<lambda>_ s. rn_rows s = rows)"
    for f :: "'a \<Rightarrow> (exn + unit) \<times> 'a"
    by (auto simp: triple_def world_may_def split: prod.split sum.split)
  have tried: "triple (in_rounds rows (pr_name p) rep 0 0) (catch (attempt_body api hl p rep t0) (attempt_failed api)) (\<lambda>_. ?S) (\<lambda>_ s. rn_rows s = rows)"
    for t0
    by (rule triple_catch [OF attempt_body_settles], rule triple_weaken [OF attempt_failed_settles]) (auto intro: rows)
  have close: "triple ?S (close_opened api) (\<lambda>_. ?S) (\<lambda>_ s. rn_rows s = rows)"
    by (rule triple_weaken [OF settled_result_keeps [OF figures_close]]) (auto intro: rows)
  have ask: "triple ?S (ask_arbiter api p rep) (\<lambda>_ s. ?S s \<and> fair (arbiter_api.truncate api) p rep s) (\<lambda>_ s. rn_rows s = rows)"
    by (rule triple_both [OF triple_weaken [OF settled_result_keeps [OF ask_arbiter_figures]] ask_arbiter_fair]) (auto intro: rows)
  have clock: "triple (in_rounds rows (pr_name p) rep 0 0) (read_clock api) (\<lambda>_. in_rounds rows (pr_name p) rep 0 0) (\<lambda>_ s. rn_rows s = rows)"
    by (rule triple_weaken [OF tally_triple [OF tally_calls(1)]]) (auto simp: in_rounds_def)
  show ?thesis
    unfolding run_problem_def
    apply (rule triple_andThen, rule prepare)
    apply (rule triple_andThen [where R = "\<lambda>_. in_rounds rows (pr_name p) rep 0 0"])
     apply (rule triple_change, simp add: begin_attempt_def in_rounds_def AttemptResult_def)
    apply (rule triple_andThen, rule clock)
    apply (rule triple_andThen, rule tried)
    apply (rule triple_andThen, rule close)
    apply (rule triple_andThen, rule ask)
    unfolding record_attempt_def
    by (rule triple_change) (use rows record_row in \<open>fastforce simp: append_result_def\<close>)
qed


section \<open>Every attempt has a row\<close>

definition row_key :: "attempt_result \<Rightarrow> pystr \<times> nat" where
  "row_key r = (ar_problem r, ar_repeat r)"

lemma attempt_noted:
  "triple (\<lambda>s. rn_rows s = rows) (attempt_or_note api hl prompt pr)
    (\<lambda>_ s. \<exists>r. rn_rows s = rows @ [r] \<and> row_key r = (pr_name (fst pr), snd pr)) E"
  unfolding attempt_or_note_def
  apply (rule triple_catch [OF triple_weaken [OF run_problem_row]])
     apply assumption
    apply (auto simp: fair_row_def row_key_def)[1]
   apply assumption
  by (rule triple_change) (simp add: append_result_def row_key_def AttemptResult_def)

text \<open>The results of a run have one row for each scheduled problem and repeat, in that order, whatever the attempts raise.\<close>

theorem one_row_per_attempt:
  "\<exists>rows. fst (run_all api hl prompt prs st) = Inr () \<and> rn_rows (snd (run_all api hl prompt prs st)) = rn_rows st @ rows \<and>
    map row_key rows = map (\<lambda>pr. (pr_name (fst pr), snd pr)) prs"
proof (induction prs arbitrary: st)
  case (Cons pr prs)
  obtain x s where run: "attempt_or_note api hl prompt pr st = (x, s)" by force
  have noted: "case x of Inr v \<Rightarrow> \<exists>r. rn_rows s = rn_rows st @ [r] \<and> row_key r = (pr_name (fst pr), snd pr) | Inl e \<Rightarrow> False"
    using attempt_noted [of "rn_rows st" api hl prompt pr "\<lambda>_ _. False"] run unfolding triple_def
    by (auto dest: spec [where x = st] split: sum.splits)
  then obtain v r where "x = Inr v" "rn_rows s = rn_rows st @ [r]" "row_key r = (pr_name (fst pr), snd pr)"
    by (auto split: sum.splits)
  moreover obtain rows where "fst (run_all api hl prompt prs s) = Inr ()" "rn_rows (snd (run_all api hl prompt prs s)) = rn_rows s @ rows"
      "map row_key rows = map (\<lambda>pr. (pr_name (fst pr), snd pr)) prs" using Cons by blast
  ultimately show ?case using run by (intro exI [of _ "r # rows"]) (simp add: andThen_def)
qed simp

section \<open>Concrete attempts\<close>

text \<open>A model that says \<open>DONE\<close>, a server that verifies everything, and a prover whose theory is \<open>theorem a\<close>; with \<open>opens\<close> false
  its session cannot be opened.\<close>

definition demo_runner :: "bool \<Rightarrow> unit runner_api" where
  "demo_runner opens =
     \<lparr>judge = (\<lambda>_ _ _ w. (Inr (JObj [(''theory_verified'', JBool True)]), w)), json_text = (\<lambda>_. []), h_now = (\<lambda>w. (0, w)),
      h_chat = (\<lambda>_ w. (Inr \<lparr>rd_text = Some ''DONE'', rd_calls = [], rd_usage = (2, 1, 0), rd_finish = None\<rparr>, w)),
      h_tool = (\<lambda>_ _ w. (''theorem a'', w)), h_timed_tool = (\<lambda>_ _ w. (Some [], w)), h_prepare = (\<lambda>w. (Inr (), w)),
      h_open = (\<lambda>w. (if opens then Inr () else Inl (Exn C_OSError ''no server''), w)), h_list = (\<lambda>w. (Inr (), w)),
      h_exit = (\<lambda>w. (Inr (), w)), h_loads = (\<lambda>_. Inl ''no JSON'')\<rparr>"

definition demo_hl :: harness_limits where
  "demo_hl = \<lparr>hl_rounds = 3, hl_wall_cap = 60, hl_wall_cap_text = ''60'', hl_tool_timeout_text = ''60''\<rparr>"

definition demo_problem :: problem where
  "demo_problem = \<lparr>pr_name = ''T'', pr_theorem = ''a'', pr_imports = [''Main''], pr_statement = ''theorem a: True'', pr_text = []\<rparr>"

definition demo_run :: "bool \<Rightarrow> (exn + unit) \<times> unit runner" where
  "demo_run opens = run_problem (demo_runner opens) demo_hl (\<lambda>_. []) demo_problem 0
     \<lparr>rn_world = (), rn_result = AttemptResult [] 0, rn_messages = [], rn_tokens = (0, 0, 0), rn_tool_times = [], rn_latencies = [],
      rn_started = None, rn_stopped = None, rn_opened = False, rn_files = (\<lambda>_. if opens then None else Some ''theorem a''), rn_rows = []\<rparr>"

lemma demo_run_ends:
  "isl (fst (demo_run True)) = False" "map ar_solved (rn_rows (snd (demo_run True))) = [True]"
  by code_simp+


section \<open>What the score does not guarantee\<close>

text \<open>An attempt whose session never opened is scored by the file an earlier run left under the same name.\<close>

theorem stale_file_scores:
  "map (\<lambda>r. (ar_solved r, ar_rounds r, ar_error r)) (rn_rows (snd (demo_run False))) = [(True, 0, Some ''OSError: no server'')]"
  by code_simp

text \<open>The arbiter does not look at the statement, and takes a longer name for the target's.\<close>

theorem arbiter_ignores_statement: "check_file api (p\<lparr>pr_statement := other, pr_text := t\<rparr>) path file f w = check_file api p path file f w"
  by (simp add: check_file_def Let_def split: option.split)

theorem longer_name_accepted:
  "vd_solved (fst (check_file (arbiter_api.truncate (demo_runner True)) demo_problem [] (Some ''theorem aa'') ''HOL'' ()))"
  by code_simp

text \<open>The counts of sledgehammer calls are kept by repeat alone: of two problems only the last is counted.\<close>

theorem repeats_of_problems_merged:
  "sledgehammer_counts (\<lambda>name _. Some name) length [AttemptResult ''a'' 0, AttemptResult ''bcd'' 0] = [(0, 3)]"
  by code_simp

end
