(* ===== verification/Chunk_Report.thy ===== *)
theory Chunk_Report
  imports Lsp_Tools
begin

text \<open>
  The text of a chunk's report: the table of the client (\<open>format_chunk_report\<close> in \<open>client/async_client.py\<close>) and the
  summary of the stepwise MCP server (\<open>_render_chunk\<close> in \<open>mcp_stepwise_server/app.py\<close>). \<open>str\<close> of floats and containers,
  two-digit formatting, \<open>float\<close> of a value and the ellipsis character are parameters; a dash outside ASCII is a hyphen.
\<close>

record printing =
  pr_json :: "json \<Rightarrow> pystr"
  pr_two :: "real \<Rightarrow> pystr"
  pr_float :: "json \<Rightarrow> exn + real"
  pr_int :: "json \<Rightarrow> exn + int"
  pr_dots :: pystr

abbreviation show_val :: "printing \<Rightarrow> json \<Rightarrow> pystr" where
  "show_val w \<equiv> show_json (pr_json w)"

text \<open>\<open>f"{n:>3}"\<close> and \<open>f"{s:<7}"\<close>.\<close>

definition right3 :: "pystr \<Rightarrow> pystr" where
  "right3 s = replicate (3 - length s) (CHR '' '') @ s"

definition left7 :: "pystr \<Rightarrow> pystr" where
  "left7 s = s @ replicate (7 - length s) (CHR '' '')"

definition show_field :: "printing \<Rightarrow> pystr \<Rightarrow> json \<Rightarrow> exn + pystr" where
  "show_field w key d = onOk (dict_get key d) (\<lambda>v. Inr (show_val w v))"

definition report_time :: "printing \<Rightarrow> json \<Rightarrow> exn + pystr" where
  "report_time w report =
     onOk (dict_get_or ''execution_time'' (JFloat 0) report) (\<lambda>t.
     onOk (pr_float w (json_or t (JFloat 0))) (\<lambda>x. Inr (pr_two w x)))"

section \<open>The table of the client\<close>

definition marker :: "pystr \<Rightarrow> pystr" where
  "marker s = (if s = ''ok'' then ''OK '' else if s = ''failed'' then ''ERR'' else if s = ''running'' then ''RUN''
     else if s = ''unprocessed'' then ''...'' else '' ? '')"

definition shorten :: "printing \<Rightarrow> int \<Rightarrow> pystr \<Rightarrow> pystr" where
  "shorten w max_msg t = (if max_msg < int (length t) then slice_to (max_msg - 1) t @ pr_dots w else t)"

definition message_line :: "printing \<Rightarrow> int \<Rightarrow> json \<Rightarrow> exn + pystr" where
  "message_line w max_msg m =
     onOk (dict_get_or ''text'' (JStr []) m) (\<lambda>t.
     onOk (dict_get_or ''sev'' (JStr []) m) (\<lambda>sev.
     Inr (''        '' @ show_val w sev @ '': '' @ shorten w max_msg (join '' '' (words_of (show_val w t))))))"

definition command_rows :: "printing \<Rightarrow> int \<Rightarrow> json \<Rightarrow> exn + pystr list" where
  "command_rows w max_msg c =
     onOk (dict_get_or ''status'' (JStr ''?'') c) (\<lambda>st.
     onOk (onOk (dict_get_or ''line'' (JInt 0) c) (pr_int w)) (\<lambda>l.
     onOk (dict_get_or ''kind'' (JStr []) c) (\<lambda>kind.
     onOk (get_list ''messages'' c) (\<lambda>ms.
     onOk (each (message_line w max_msg) ms) (\<lambda>rows.
     Inr ((''  ['' @ marker (show_val w st) @ ''] line '' @ right3 (show_int l) @ ''  '' @ left7 (show_val w kind) @ '' ''
       @ show_val w st) # rows))))))"

definition format_chunk_report :: "printing \<Rightarrow> int \<Rightarrow> json \<Rightarrow> exn + pystr list" where
  "format_chunk_report w max_msg report =
     onOk (each (\<lambda>key. show_field w key report) [''success'', ''proof_open'', ''used_sorry'', ''timed_out'', ''stuck_line'']) (\<lambda>vs.
     onOk (report_time w report) (\<lambda>t.
     onOk (get_list ''commands'' report) (\<lambda>cmds.
     onOk (each (command_rows w max_msg) cmds) (\<lambda>rows.
     Inr (concat [''verify_chunk: success='', vs ! 0, '' proof_open='', vs ! 1, '' used_sorry='', vs ! 2, '' timed_out='', vs ! 3,
            '' stuck_line='', vs ! 4, '' time='', t, ''s'']
          # (if cmds = [] then [''  (no commands reported)''] else []) @ concat rows)))))"

section \<open>The summary of the stepwise server\<close>

definition open_note :: pystr where
  "open_note = ''  NOTE: proof is still OPEN (theorem NOT proved). Close it (qed / terminal method) or rollback before a new theorem/lemma.''"

definition pending_note :: pystr where
  "pending_note = ''  NOTE: goal discharged but the proof block is NOT closed - submit a bare `qed` chunk to finish (do NOT start new proof work).''"

definition sorry_note :: pystr where
  "sorry_note = ''  NOTE: chunk uses sorry/oops - the theorem is NOT actually proved.''"

definition chunk_notes :: "json \<Rightarrow> json \<Rightarrow> json \<Rightarrow> json \<Rightarrow> pystr list" where
  "chunk_notes success proof_open pending_qed used_sorry =
     (if py_bool success \<and> py_bool pending_qed then [pending_note]
      else if py_bool success \<and> py_bool proof_open then [open_note] else [])
     @ (if py_bool used_sorry then [sorry_note] else [])"

definition bad_row :: "printing \<Rightarrow> json \<Rightarrow> exn + pystr" where
  "bad_row w c =
     onOk (command_messages c) (\<lambda>msgs.
     onOk (show_field w ''line'' c) (\<lambda>l.
     onOk (show_field w ''kind'' c) (\<lambda>kind.
     onOk (show_field w ''status'' c) (\<lambda>st.
     Inr (rstrip (''  line '' @ l @ '' '' @ kind @ '' '' @ st @ '' '' @ msgs))))))"

definition summary_head :: "printing \<Rightarrow> json \<Rightarrow> json list \<Rightarrow> exn + pystr" where
  "summary_head w report cmds =
     onOk (each (\<lambda>key. show_field w key report)
       [''proof_open'', ''pending_qed'', ''used_sorry'', ''success'', ''timed_out'', ''stuck_line'']) (\<lambda>vs.
     onOk (report_time w report) (\<lambda>t.
     Inr (concat [''success='', vs ! 3, '' proof_open='', vs ! 0, '' pending_qed='', vs ! 1, '' used_sorry='', vs ! 2,
       '' timed_out='', vs ! 4, '' stuck_line='', vs ! 5, '' time='', t, ''s commands='', show_int (int (length cmds))])))"

definition render_chunk :: "printing \<Rightarrow> json \<Rightarrow> bool \<Rightarrow> exn + pystr list" where
  "render_chunk w report full =
     (if full then format_chunk_report w 300 report
      else onOk (get_list ''commands'' report) (\<lambda>cmds.
           onOk (dict_get ''proof_open'' report) (\<lambda>proof_open.
           onOk (dict_get ''pending_qed'' report) (\<lambda>pending_qed.
           onOk (dict_get ''used_sorry'' report) (\<lambda>used_sorry.
           onOk (summary_head w report cmds) (\<lambda>top.
           onOk (bad_commands (\<lambda>c. onOk (bad_row w c) (\<lambda>r. Inr (JStr r))) report) (\<lambda>bad.
           onOk (dict_get ''error'' report) (\<lambda>err.
           onOk (dict_get ''success'' report) (\<lambda>success.
           Inr ([top] @ (if py_bool err then [''  ERROR: '' @ show_val w err] else [])
             @ map (show_val w) bad @ (if cmds \<noteq> [] \<and> bad = [] then [''  (all commands ok)''] else [])
             @ chunk_notes success proof_open pending_qed used_sorry
             @ [''  [call with detail=True for the full per-command table]'']))))))))))"

text \<open>A summary of a success warns unless the theorem is proved: without a note the proof is closed and no \<open>sorry\<close> was used.\<close>

theorem unnoted_success_is_proved:
  assumes "render_chunk w report False = Inr rows" and "dict_get ''success'' report = Inr ok" and "py_bool ok"
    and "pending_note \<notin> set rows" and "open_note \<notin> set rows" and "sorry_note \<notin> set rows"
  shows "\<exists>po pq us. dict_get ''proof_open'' report = Inr po \<and> dict_get ''pending_qed'' report = Inr pq
    \<and> dict_get ''used_sorry'' report = Inr us \<and> \<not> py_bool po \<and> \<not> py_bool pq \<and> \<not> py_bool us"
  using assms
  by (auto simp: render_chunk_def onOk_def chunk_notes_def split: sum.splits if_splits)

end
