(* ===== verification/Stepwise_Pool.thy ===== *)
theory Stepwise_Pool
  imports Chunk_Report
begin

text \<open>
  The stepwise MCP server (\<open>mcp_stepwise_server\<close>): one leased session per connection, the tools on it, the batch that
  runs many chunks at once, and the text of a report. The HTTP client is the parameter \<open>step_world\<close>; \<open>taken\<close> and
  \<open>given_up\<close> record the sessions acquired from the server and the sessions the server was
  asked to close, \<open>orphaned\<close> those whose connection went away, each with its lease.
\<close>

section \<open>State\<close>

record current =
  cu_session :: pystr
  cu_lease :: "pystr option"
  cu_theory :: pystr

text \<open>A connection is known by its MCP session object; \<open>None\<close> is the key of transports without one.\<close>

type_synonym conn = "nat option"

record step_state =
  currents :: "(conn, current) od"
  taken :: "(pystr \<times> pystr option) list"
  given_up :: "(pystr \<times> pystr option) list"
  orphaned :: "(pystr \<times> pystr option) list"
  ticks :: nat

record step_world =
  sw_acquire :: "nat \<Rightarrow> pystr list \<Rightarrow> pystr \<Rightarrow> exn + pystr \<times> pystr option"
  sw_enter :: "nat \<Rightarrow> pystr \<Rightarrow> pystr \<Rightarrow> pystr list \<Rightarrow> pystr option \<Rightarrow> exn + unit"
  sw_call :: "nat \<Rightarrow> client_call \<Rightarrow> pystr \<Rightarrow> pystr option \<Rightarrow> exn + json"
  sw_field :: pystr
  sw_verify :: "nat \<Rightarrow> pystr \<Rightarrow> pystr \<Rightarrow> real \<Rightarrow> pystr option \<Rightarrow> exn + json"

text \<open>The clean-only acquisition (\<open>reuse_dirty=False\<close>) of a session.\<close>

definition take_session :: "step_world \<Rightarrow> pystr list \<Rightarrow> pystr \<Rightarrow> (step_state, pystr \<times> pystr option) py" where
  "take_session w thys fld st =
     (case sw_acquire w (ticks st) thys fld of
        Inl e \<Rightarrow> (Inl e, st\<lparr>ticks := Suc (ticks st)\<rparr>)
      | Inr (sid, lease) \<Rightarrow> (Inr (sid, lease), st\<lparr>ticks := Suc (ticks st), taken := taken st @ [(sid, lease)]\<rparr>))"

text \<open>\<open>try: await c.close_session(sid, lease_id=lease) except Exception: pass\<close>: whatever the server answers.\<close>

definition close_quietly :: "pystr \<Rightarrow> pystr option \<Rightarrow> (step_state, unit) py" where
  "close_quietly sid lease =
     change (\<lambda>st. st\<lparr>ticks := Suc (ticks st), given_up := given_up st @ [(sid, lease)]\<rparr>)"

definition ask :: "(nat \<Rightarrow> exn + 'a) \<Rightarrow> (step_state, 'a) py" where
  "ask f st = (f (ticks st), st\<lparr>ticks := Suc (ticks st)\<rparr>)"

section \<open>The session of a connection\<close>

definition begin_theory :: "step_world \<Rightarrow> pystr \<Rightarrow> pystr list \<Rightarrow> pystr \<Rightarrow> (step_state, pystr \<times> pystr option) py" where
  "begin_theory w name thys fld =
     andThen (take_session w thys fld) (\<lambda>(sid, lease).
     andThen (catch (ask (\<lambda>k. sw_enter w k sid name thys lease))
               (\<lambda>e. andThen (close_quietly sid lease) (\<lambda>_. throw e)))
       (\<lambda>_. ret (sid, lease)))"

definition safe_close :: "current \<Rightarrow> (step_state, unit) py" where
  "safe_close cur = close_quietly (cu_session cur) (cu_lease cur)"

text \<open>\<open>self._current.pop(key, None)\<close>.\<close>

definition pop_current :: "conn \<Rightarrow> (step_state, current option) py" where
  "pop_current key =
     andThen (fetch (\<lambda>st. od_get key (currents st))) (\<lambda>old.
     andThen (change (\<lambda>st. st\<lparr>currents := od_pop key (currents st)\<rparr>)) (\<lambda>_. ret old))"

definition detach :: "conn \<Rightarrow> (step_state, unit) py" where
  "detach key =
     andThen (pop_current key) (\<lambda>old. case old of None \<Rightarrow> ret () | Some cur \<Rightarrow> safe_close cur)"

definition attach :: "step_world \<Rightarrow> conn \<Rightarrow> pystr \<Rightarrow> pystr list \<Rightarrow> pystr \<Rightarrow> (step_state, current) py" where
  "attach w key name thys fld =
     andThen (begin_theory w name thys fld) (\<lambda>(sid, lease).
     let cur = \<lparr>cu_session = sid, cu_lease = lease, cu_theory = name\<rparr> in
     andThen (change (\<lambda>st. st\<lparr>currents := od_set key cur (currents st)\<rparr>)) (\<lambda>_. ret cur))"

definition open_theory :: "step_world \<Rightarrow> conn \<Rightarrow> pystr \<Rightarrow> pystr list \<Rightarrow> pystr \<Rightarrow> (step_state, current) py" where
  "open_theory w key name thys fld = andThen (detach key) (\<lambda>_. attach w key name thys fld)"

definition require_current :: "conn \<Rightarrow> (step_state, current) py" where
  "require_current key =
     andThen (fetch (\<lambda>st. od_get key (currents st))) (\<lambda>cur. case cur of
       None \<Rightarrow> throw (Exn C_RuntimeError ''No active theory for this connection - call enter_theory first.'')
     | Some c \<Rightarrow> ret c)"

definition close_for :: "conn \<Rightarrow> (step_state, bool) py" where
  "close_for key =
     andThen (pop_current key) (\<lambda>cur. case cur of
       None \<Rightarrow> ret False | Some c \<Rightarrow> andThen (safe_close c) (\<lambda>_. ret True))"

section \<open>The tools\<close>

text \<open>Entering answers with the imports printed as a list, a chunk with the lines of its report.\<close>

definition enter_theory_tool :: "printing \<Rightarrow> step_world \<Rightarrow> conn \<Rightarrow> pystr \<Rightarrow> pystr list option \<Rightarrow> pystr \<Rightarrow> (step_state, pystr) py" where
  "enter_theory_tool p w key name imports fld =
     (let imps = or_else imports [''Main''] in
      andThen (open_theory w key name imps fld) (\<lambda>_.
      ret (concat [''entered theory '', [CHR 0x27], name, [CHR 0x27], '' (imports '', show_val p (JList (map JStr imps)),
        '', field '', fld, ''); session bound to this connection''])))"

definition verify_chunk_tool :: "printing \<Rightarrow> step_world \<Rightarrow> conn \<Rightarrow> pystr \<Rightarrow> real \<Rightarrow> bool \<Rightarrow> (step_state, pystr list) py" where
  "verify_chunk_tool p w key txt timeout full =
     andThen (require_current key) (\<lambda>cur.
     andThen (ask (\<lambda>k. sw_verify w k (cu_session cur) txt timeout (cu_lease cur))) (\<lambda>report.
     from_result (render_chunk p report full)))"

datatype step_query =
    Step_State
  | Step_Source
  | Step_Diagnostic pystr
  | Step_Sledgehammer int
  | Step_Checkpoint
  | Step_Restore int
  | Step_Rollback

fun step_request :: "step_query \<Rightarrow> client_call" where
  "step_request Step_State = GetProofState"
| "step_request Step_Source = GetSource"
| "step_request (Step_Diagnostic command) = Diagnostic command"
| "step_request (Step_Sledgehammer timeout_s) = Sledgehammer timeout_s"
| "step_request Step_Checkpoint = SaveCheckpoint"
| "step_request (Step_Restore i) = RestoreCheckpoint i"
| "step_request Step_Rollback = Rollback"

definition step_tool :: "step_world \<Rightarrow> conn \<Rightarrow> step_query \<Rightarrow> (step_state, json) py" where
  "step_tool w key q =
     andThen (require_current key) (\<lambda>cur.
     let run = ask (\<lambda>k. sw_call w k (step_request q) (cu_session cur) (cu_lease cur)) in
     if q = Step_Rollback
     then catch run (\<lambda>e. ret (JObj [(''success'', JBool False), (''error'', JStr (str_of e))]))
     else run)"

definition close_theory_tool :: "conn \<Rightarrow> (step_state, pystr) py" where
  "close_theory_tool key =
     andThen (close_for key) (\<lambda>closed. ret (if closed then ''closed'' else ''no active session''))"

datatype step_call =
    Enter conn pystr "pystr list option" pystr
  | Verify conn pystr real bool
  | Ask_Step conn step_query
  | Close_Theory conn

fun run_step :: "printing \<Rightarrow> step_world \<Rightarrow> step_call \<Rightarrow> (step_state, unit) py" where
  "run_step p w (Enter key name imports fld) = andThen (enter_theory_tool p w key name imports fld) (\<lambda>_. ret ())"
| "run_step p w (Verify key txt timeout full) = andThen (verify_chunk_tool p w key txt timeout full) (\<lambda>_. ret ())"
| "run_step p w (Ask_Step key q) = andThen (step_tool w key q) (\<lambda>_. ret ())"
| "run_step p w (Close_Theory key) = andThen (close_theory_tool key) (\<lambda>_. ret ())"

text \<open>The sessions are kept in a \<open>WeakKeyDictionary\<close>: a connection that is gone takes its entry along, and its session is
  left to the server's reaper. The key of transports without connections stays.\<close>

definition connection_gone :: "nat \<Rightarrow> step_state \<Rightarrow> step_state" where
  "connection_gone n st =
     st\<lparr>currents := od_pop (Some n) (currents st),
        orphaned := orphaned st @ (case od_get (Some n) (currents st) of None \<Rightarrow> [] | Some c \<Rightarrow> [(cu_session c, cu_lease c)])\<rparr>"

inductive step_reach :: "step_world \<Rightarrow> step_state \<Rightarrow> bool" for w :: step_world where
  step_start: "step_reach w \<lparr>currents = [], taken = [], given_up = [], orphaned = [], ticks = 0\<rparr>"
| step_next: "step_reach w st \<Longrightarrow> run_step p w c st = (x, st') \<Longrightarrow> step_reach w st'"
| step_gone: "step_reach w st \<Longrightarrow> step_reach w (connection_gone n st)"

section \<open>The batch\<close>

record batch_item =
  bi_name :: "pystr option"
  bi_imports :: "pystr list option"
  bi_field :: "pystr option"
  bi_chunk :: "pystr option"

definition item_name :: "batch_item \<Rightarrow> pystr" where
  "item_name it = (case bi_name it of None \<Rightarrow> ''Chunk'' | Some n \<Rightarrow> n)"

definition item_imports :: "batch_item \<Rightarrow> pystr list" where
  "item_imports it = or_else (bi_imports it) [''Main'']"

definition item_field :: "step_world \<Rightarrow> batch_item \<Rightarrow> pystr" where
  "item_field w it = or_else (bi_field it) (sw_field w)"

definition batch_cap :: "int \<Rightarrow> int \<Rightarrow> nat" where
  "batch_cap max_parallel limit = nat (max 1 (min max_parallel limit))"

text \<open>\<open>sum(1 for x in cmds if x.get("status") == s)\<close>.\<close>

definition count_status :: "pystr \<Rightarrow> json list \<Rightarrow> exn + int" where
  "count_status s cmds =
     onOk (each (dict_get ''status'') cmds) (\<lambda>vs. Inr (int (length (filter (\<lambda>v. v = JStr s) vs))))"

definition item_answer :: "pystr \<Rightarrow> json \<Rightarrow> exn + json" where
  "item_answer name rep =
     onOk (dict_get_or ''commands'' (JList []) rep) (\<lambda>v.
     onOk (pick [''success'', ''timed_out'', ''stuck_line'', ''execution_time''] rep) (\<lambda>flags.
     onOk (py_iter (json_or v (JList []))) (\<lambda>cmds.
     onOk (count_status ''failed'' cmds) (\<lambda>failed.
     onOk (count_status ''running'' cmds) (\<lambda>running.
     Inr (JObj ([(''name'', JStr name)] @ flags @ [(''n_failed'', JInt failed), (''n_running'', JInt running)])))))))"

definition item_error :: "pystr \<Rightarrow> exn \<Rightarrow> json" where
  "item_error name e = JObj [(''name'', JStr name), (''error'', JStr (exn_text e))]"

text \<open>Where an item is: before the semaphore, past it, with a session, about to close it, or done.\<close>

datatype item_phase =
    Queued
  | Starting
  | Holding pystr "pystr option"
  | Leaving pystr "pystr option" json
  | Finished json

fun active :: "item_phase \<Rightarrow> bool" where
  "active Queued = False"
| "active (Finished v) = False"
| "active p = True"

record batch =
  phases :: "item_phase list"
  b_taken :: "(pystr \<times> pystr option) list"
  b_closed :: "(pystr \<times> pystr option) list"

inductive batch_step :: "step_world \<Rightarrow> nat \<Rightarrow> real \<Rightarrow> batch_item list \<Rightarrow> batch \<Rightarrow> batch \<Rightarrow> bool"
  for w :: step_world and cap :: nat and timeout :: real and items :: "batch_item list" where
  enter_semaphore: "i < length (phases b) \<Longrightarrow> phases b ! i = Queued \<Longrightarrow> length (filter active (phases b)) < cap
    \<Longrightarrow> batch_step w cap timeout items b (b\<lparr>phases := (phases b)[i := Starting]\<rparr>)"
| no_session: "i < length (phases b) \<Longrightarrow> phases b ! i = Starting
    \<Longrightarrow> sw_acquire w k (item_imports (items ! i)) (item_field w (items ! i)) = Inl e
    \<Longrightarrow> batch_step w cap timeout items b (b\<lparr>phases := (phases b)[i := Finished (item_error (item_name (items ! i)) e)]\<rparr>)"
| no_theory: "i < length (phases b) \<Longrightarrow> phases b ! i = Starting
    \<Longrightarrow> sw_acquire w k (item_imports (items ! i)) (item_field w (items ! i)) = Inr (sid, lease)
    \<Longrightarrow> sw_enter w k' sid (item_name (items ! i)) (item_imports (items ! i)) lease = Inl e
    \<Longrightarrow> batch_step w cap timeout items b (b\<lparr>phases := (phases b)[i := Finished (item_error (item_name (items ! i)) e)],
          b_taken := b_taken b @ [(sid, lease)], b_closed := b_closed b @ [(sid, lease)]\<rparr>)"
| begun: "i < length (phases b) \<Longrightarrow> phases b ! i = Starting
    \<Longrightarrow> sw_acquire w k (item_imports (items ! i)) (item_field w (items ! i)) = Inr (sid, lease)
    \<Longrightarrow> sw_enter w k' sid (item_name (items ! i)) (item_imports (items ! i)) lease = Inr ()
    \<Longrightarrow> batch_step w cap timeout items b (b\<lparr>phases := (phases b)[i := Holding sid lease], b_taken := b_taken b @ [(sid, lease)]\<rparr>)"
| verified: "i < length (phases b) \<Longrightarrow> phases b ! i = Holding sid lease
    \<Longrightarrow> ans = (case onOk (sw_verify w k sid (or_else (bi_chunk (items ! i)) []) timeout lease) (item_answer (item_name (items ! i)))
                  of Inr v \<Rightarrow> v | Inl e \<Rightarrow> item_error (item_name (items ! i)) e)
    \<Longrightarrow> batch_step w cap timeout items b (b\<lparr>phases := (phases b)[i := Leaving sid lease ans]\<rparr>)"
| closed_one: "i < length (phases b) \<Longrightarrow> phases b ! i = Leaving sid lease v
    \<Longrightarrow> batch_step w cap timeout items b (b\<lparr>phases := (phases b)[i := Finished v], b_closed := b_closed b @ [(sid, lease)]\<rparr>)"

definition batch_start :: "batch_item list \<Rightarrow> batch" where
  "batch_start items = \<lparr>phases = replicate (length items) Queued, b_taken = [], b_closed = []\<rparr>"

inductive_cases batch_stepE: "batch_step w cap timeout items b b'"

end
