(* ===== verification/Stepwise_Properties.thy ===== *)
theory Stepwise_Properties
  imports Stepwise_Pool Py_Hoare "HOL-Library.Multiset"
begin

text \<open>
  What the stepwise MCP server promises: no session it acquired is forgotten. Each is the session of exactly one
  connection or the server was asked to close it, once; a batch keeps to its bound and ends with every session closed.
\<close>

section \<open>Accounting for sessions\<close>

definition bound :: "step_state \<Rightarrow> (pystr \<times> pystr option) list" where
  "bound st = map (\<lambda>(key, cur). (cu_session cur, cu_lease cur)) (currents st)"

text \<open>With sessions \<open>M\<close> in the hands of a call that runs.\<close>

definition accounted :: "(pystr \<times> pystr option) multiset \<Rightarrow> step_state \<Rightarrow> bool" where
  "accounted M st \<longleftrightarrow> od_ok (currents st) \<and> mset (taken st) = mset (given_up st) + mset (orphaned st) + mset (bound st) + M"

lemma bound_pop:
  "od_ok d \<Longrightarrow> mset (map f d) = mset (map f (od_pop key d)) + (case od_get key d of None \<Rightarrow> {#} | Some v \<Rightarrow> {#f (key, v)#})"
proof (induction d)
  case (Cons p d)
  obtain k v where p: "p = (k, v)" by (cases p)
  have ok: "od_ok d" "k \<notin> set (od_keys d)" using Cons.prems p by (auto simp: od_ok_def od_keys_def)
  show ?case
  proof (cases "k = key")
    case True
    then have "od_pop key d = d" "od_get key d = None" using ok(2) by (simp_all add: od_pop_absent od_get_None_iff)
    then show ?thesis using p True by (simp add: od_pop_def od_get_def)
  next
    case False
    then show ?thesis using Cons.IH [OF ok(1)] p by (simp add: od_pop_def od_get_def)
  qed
qed (simp add: od_pop_def)

lemma pop_accounted:
  "accounted M st \<Longrightarrow> accounted (M + (case od_get key (currents st) of None \<Rightarrow> {#} | Some c \<Rightarrow> {#(cu_session c, cu_lease c)#}))
     (st\<lparr>currents := od_pop key (currents st)\<rparr>)"
  using bound_pop [of "currents st" "\<lambda>(key, cur). (cu_session cur, cu_lease cur)" key]
  by (auto simp: accounted_def bound_def split: option.splits)

lemma set_accounted:
  "accounted (M + {#(cu_session c, cu_lease c)#}) st \<Longrightarrow> od_get key (currents st) = None
    \<Longrightarrow> accounted M (st\<lparr>currents := od_set key c (currents st)\<rparr>)"
proof -
  assume a: "accounted (M + {#(cu_session c, cu_lease c)#}) st" and "od_get key (currents st) = None"
  then have "key \<notin> fst ` set (currents st)" by (simp add: od_get_None_iff od_keys_def)
  then have "od_set key c (currents st) = currents st @ [(key, c)]" by (simp add: od_set_def)
  then show ?thesis using a by (simp add: accounted_def bound_def) (metis od_ok_set)
qed

text \<open>The same with the connections \<open>N\<close> known to have no session.\<close>

definition owing :: "(pystr \<times> pystr option) multiset \<Rightarrow> conn set \<Rightarrow> step_state \<Rightarrow> bool" where
  "owing M N st \<longleftrightarrow> accounted M st \<and> (\<forall>key \<in> N. od_get key (currents st) = None)"

lemma take_owing: "triple (owing M N) (take_session w thys fld) (\<lambda>v. owing (M + {#v#}) N) (\<lambda>_. owing M N)"
  by (rule tripleI)
    (auto simp: take_session_def owing_def accounted_def bound_def split: sum.split)

lemma close_owing: "triple (owing (M + {#(sid, lease)#}) N) (close_quietly sid lease) (\<lambda>_. owing M N) E"
  unfolding close_quietly_def
  by (rule triple_change) (auto simp: owing_def accounted_def bound_def)

lemma ask_owing: "triple (owing M N) (ask f) (\<lambda>_. owing M N) (\<lambda>_. owing M N)"
  by (rule tripleI) (auto simp: ask_def owing_def accounted_def bound_def split: sum.split)

lemma begin_owing: "triple (owing M N) (begin_theory w name thys fld) (\<lambda>v. owing (M + {#v#}) N) (\<lambda>_. owing M N)"
proof -
  have "triple (owing (M + {#(sid, lease)#}) N)
      (andThen (catch (ask (\<lambda>k. sw_enter w k sid name thys lease)) (\<lambda>e. andThen (close_quietly sid lease) (\<lambda>_. throw e)))
        (\<lambda>_. ret (sid, lease)))
      (\<lambda>v. owing (M + {#v#}) N) (\<lambda>_. owing M N)" for sid lease
    by (rule triple_andThen triple_catch [OF ask_owing] triple_andThen [OF close_owing] triple_throw triple_ret | assumption)+
  then show ?thesis
    unfolding begin_theory_def by (intro triple_andThen [OF take_owing]) (auto intro!: triple_prod)
qed

lemma pop_owing:
  "triple (owing {#} {}) (pop_current key)
     (\<lambda>old. owing (case old of None \<Rightarrow> {#} | Some c \<Rightarrow> {#(cu_session c, cu_lease c)#}) {key}) E"
  using pop_accounted [of "{#}" _ key]
  by (auto intro!: tripleI simp: pop_current_def andThen_def owing_def)

lemma detach_owing: "triple (owing {#} {}) (detach key) (\<lambda>_. owing {#} {key}) (\<lambda>_. owing {#} {})"
proof -
  have "triple (owing (case old of None \<Rightarrow> {#} | Some c \<Rightarrow> {#(cu_session c, cu_lease c)#}) {key})
      (case old of None \<Rightarrow> ret () | Some cur \<Rightarrow> safe_close cur) (\<lambda>_. owing {#} {key}) (\<lambda>_. owing {#} {})" for old
    using close_owing [of "{#}"] by (cases old) (auto simp: safe_close_def intro: triple_ret)
  then show ?thesis unfolding detach_def by (rule triple_andThen [OF pop_owing])
qed

lemma attach_owing: "triple (owing {#} {key}) (attach w key name thys fld) (\<lambda>_. owing {#} {}) (\<lambda>_. owing {#} {})"
proof -
  have put: "triple (owing {#(sid, lease)#} {key})
      (andThen (change (\<lambda>st. st\<lparr>currents := od_set key \<lparr>cu_session = sid, cu_lease = lease, cu_theory = name\<rparr> (currents st)\<rparr>))
        (\<lambda>_. ret \<lparr>cu_session = sid, cu_lease = lease, cu_theory = name\<rparr>)) (\<lambda>_. owing {#} {}) (\<lambda>_. owing {#} {})"
    for sid lease
    using set_accounted [of "{#}" "\<lparr>cu_session = sid, cu_lease = lease, cu_theory = name\<rparr>" _ key]
    by (intro triple_andThen [where R = "\<lambda>_. owing {#} {}"] triple_change triple_ret) (auto simp: owing_def)
  have begun: "triple (owing {#} {key}) (begin_theory w name thys fld) (\<lambda>v. owing {#v#} {key}) (\<lambda>_. owing {#} {})"
    by (rule triple_weaken [OF begin_owing [of "{#}" "{key}"]]) (auto simp: owing_def)
  show ?thesis
    unfolding attach_def Let_def by (rule triple_andThen [OF begun], rule triple_prod, hypsubst, rule put)
qed

lemma open_owing: "triple (owing {#} {}) (open_theory w key name thys fld) (\<lambda>_. owing {#} {}) (\<lambda>_. owing {#} {})"
  unfolding open_theory_def by (rule triple_andThen [OF detach_owing attach_owing])

lemma current_owing: "triple (owing M N) (require_current key) (\<lambda>_. owing M N) (\<lambda>_. owing M N)"
  by (rule tripleI) (auto simp: require_current_def andThen_def split: option.split)

lemma close_for_owing: "triple (owing {#} {}) (close_for key) (\<lambda>_. owing {#} {}) (\<lambda>_. owing {#} {})"
proof -
  have weak: "owing {#} {key} st \<Longrightarrow> owing {#} {} st" for st by (simp add: owing_def)
  have "triple (owing (case cur of None \<Rightarrow> {#} | Some c \<Rightarrow> {#(cu_session c, cu_lease c)#}) {key})
      (case cur of None \<Rightarrow> ret False | Some c \<Rightarrow> andThen (safe_close c) (\<lambda>_. ret True))
      (\<lambda>_. owing {#} {}) (\<lambda>_. owing {#} {})" for cur
    using close_owing [of "{#}"] weak
    by (cases cur) (auto simp: safe_close_def intro!: triple_ret triple_andThen)
  then show ?thesis unfolding close_for_def by (rule triple_andThen [OF pop_owing])
qed

lemma run_step_owing: "preserves (owing {#} {}) (run_step p w c)"
proof -
  have ask: "preserves (owing {#} {}) (ask f)" for f :: "nat \<Rightarrow> exn + 'a" by (rule preserves_of_triple [OF ask_owing])
  have cur: "preserves (owing {#} {}) (require_current key)" for key by (rule preserves_of_triple [OF current_owing])
  show ?thesis
  proof (cases c)
    case (Enter key name imps fld)
    then show ?thesis using preserves_of_triple [OF open_owing]
      by (auto simp: enter_theory_tool_def Let_def intro!: inv_intro)
  next
    case (Verify key x timeout full)
    then show ?thesis by (auto simp: verify_chunk_tool_def intro!: inv_intro ask cur)
  next
    case (Ask_Step key q)
    then show ?thesis by (auto simp: step_tool_def Let_def intro!: inv_intro ask cur)
  next
    case (Close_Theory key)
    then show ?thesis using preserves_of_triple [OF close_for_owing]
      by (auto simp: close_theory_tool_def intro!: inv_intro)
  qed
qed


text \<open>Two openings on one connection that overlap lose a session: it is nobody's and never closed.\<close>

definition opening_world :: step_world where
  "opening_world = \<lparr>sw_acquire = (\<lambda>k thys fld. Inr (if k = 0 then ''a'' else ''b'', Some ''l'')), sw_enter = (\<lambda>k sid name thys lease. Inr ()),
     sw_call = (\<lambda>k c sid lease. Inr JNull), sw_field = ''HOL'', sw_verify = (\<lambda>k sid x t lease. Inr JNull)\<rparr>"

definition no_sessions :: step_state where
  "no_sessions = \<lparr>currents = [], taken = [], given_up = [], orphaned = [], ticks = 0\<rparr>"

lemmas stepwise_run = detach_def attach_def begin_theory_def take_session_def pop_current_def close_quietly_def ask_def
  safe_close_def od_set_def od_pop_def od_get_def andThen_def catch_def

theorem overlapping_opens_leak:
  "let opened = final (andThen (detach None) (\<lambda>_. andThen (detach None) (\<lambda>_.
       andThen (attach opening_world None ''A'' [''Main''] ''HOL'') (\<lambda>_. attach opening_world None ''B'' [''Main''] ''HOL''))))
       no_sessions
   in taken opened = [(''a'', Some ''l''), (''b'', Some ''l'')] \<and> bound opened = [(''b'', Some ''l'')] \<and> given_up opened = []"
  by (simp add: final_def stepwise_run opening_world_def no_sessions_def bound_def Let_def)


section \<open>The batch\<close>

fun held_by :: "item_phase \<Rightarrow> (pystr \<times> pystr option) multiset" where
  "held_by (Holding sid lease) = {#(sid, lease)#}"
| "held_by (Leaving sid lease v) = {#(sid, lease)#}"
| "held_by p = {#}"

definition batch_ok :: "nat \<Rightarrow> batch_item list \<Rightarrow> batch \<Rightarrow> bool" where
  "batch_ok cap items b \<longleftrightarrow> length (phases b) = length items \<and> length (filter active (phases b)) \<le> cap
     \<and> mset (b_taken b) = mset (b_closed b) + (\<Sum>p\<in>#mset (phases b). held_by p)"

lemma sum_update:
  "i < length ps \<Longrightarrow> (\<Sum>p\<in>#mset (ps[i := q]). f p) + f (ps ! i) = (\<Sum>p\<in>#mset ps. f p) + (f q :: 'a::cancel_comm_monoid_add)"
proof -
  assume i: "i < length ps"
  then have "mset ps = add_mset (ps ! i) (mset ps - {#ps ! i#})" by (simp add: insert_DiffM)
  then have "(\<Sum>p\<in>#mset ps. f p) = f (ps ! i) + (\<Sum>p\<in>#mset ps - {#ps ! i#}. f p)" by (metis image_mset_add_mset sum_mset.add_mset)
  moreover have "(\<Sum>p\<in>#mset (ps[i := q]). f p) = f q + (\<Sum>p\<in>#mset ps - {#ps ! i#}. f p)" using i by (simp add: mset_update)
  ultimately show ?thesis by (simp add: ac_simps)
qed

lemma active_update:
  "i < length ps \<Longrightarrow> length (filter active (ps[i := q])) + (if active (ps ! i) then 1 else 0)
     = length (filter active ps) + (if active q then 1 else 0)"
proof (induction ps arbitrary: i)
  case (Cons p ps)
  then show ?case by (cases i) auto
qed simp

text \<open>Changing one phase, seen by the invariant.\<close>

lemma batch_ok_update:
  assumes ok: "batch_ok cap items b" and i: "i < length (phases b)"
    and room: "active (phases b ! i) \<or> \<not> active q \<or> length (filter active (phases b)) < cap"
    and bal: "mset t + held_by (phases b ! i) = mset c + held_by q"
  shows "batch_ok cap items (b\<lparr>phases := (phases b)[i := q], b_taken := b_taken b @ t, b_closed := b_closed b @ c\<rparr>)"
proof -
  let ?S = "\<lambda>ps. \<Sum>p\<in>#mset ps. held_by p"
  have "mset (b_taken b @ t) + held_by (phases b ! i) = mset (b_closed b @ c) + ?S (phases b) + held_by q"
    using ok bal by (simp add: batch_ok_def ac_simps)
  also have "\<dots> = mset (b_closed b @ c) + ?S ((phases b)[i := q]) + held_by (phases b ! i)"
    using sum_update [OF i, of held_by q] by (simp add: ac_simps)
  finally have "mset (b_taken b @ t) = mset (b_closed b @ c) + ?S ((phases b)[i := q])" by simp
  moreover have "length (filter active ((phases b)[i := q])) \<le> cap"
    using active_update [OF i, of q] ok room by (auto simp: batch_ok_def split: if_splits)
  ultimately show ?thesis using ok by (simp add: batch_ok_def)
qed

lemma batch_step_ok:
  assumes "batch_step w cap timeout items b b'" and ok: "batch_ok cap items b"
  shows "batch_ok cap items b'"
  using assms(1)
proof (cases rule: batch_step.cases)
  case (enter_semaphore i)
  then show ?thesis using batch_ok_update [OF ok, of i Starting "[]" "[]"] by simp
next
  case (no_session i k e)
  then show ?thesis using batch_ok_update [OF ok, of i "Finished (item_error (item_name (items ! i)) e)" "[]" "[]"] by simp
next
  case (no_theory i k sid lease k' e)
  then show ?thesis
    using batch_ok_update [OF ok, of i "Finished (item_error (item_name (items ! i)) e)" "[(sid, lease)]" "[(sid, lease)]"]
    by simp
next
  case (begun i k sid lease k')
  then show ?thesis using batch_ok_update [OF ok, of i "Holding sid lease" "[(sid, lease)]" "[]"] by simp
next
  case (verified i sid lease ans k)
  then show ?thesis using batch_ok_update [OF ok, of i "Leaving sid lease ans" "[]" "[]"] by simp
next
  case (closed_one i sid lease v)
  then show ?thesis using batch_ok_update [OF ok, of i "Finished v" "[]" "[(sid, lease)]"] by simp
qed

lemma batch_run_ok:
  assumes "(batch_step w cap timeout items)\<^sup>*\<^sup>* (batch_start items) b"
  shows "batch_ok cap items b"
  using assms
proof induction
  case base
  have "(\<Sum>p\<in>#mset (replicate n Queued). held_by p) = {#}" for n by (induction n) auto
  then show ?case by (simp add: batch_ok_def batch_start_def)
qed (rule batch_step_ok)

fun steps_left :: "item_phase \<Rightarrow> nat" where
  "steps_left Queued = 4"
| "steps_left Starting = 3"
| "steps_left (Holding sid lease) = 2"
| "steps_left (Leaving sid lease v) = 1"
| "steps_left (Finished v) = 0"

lemma batch_step_decreases:
  assumes "batch_step w cap timeout items b b'"
  shows "sum_list (map steps_left (phases b')) < sum_list (map steps_left (phases b))"
proof -
  have less: "sum_list (map steps_left (ps[i := q])) < sum_list (map steps_left ps)"
    if "i < length ps" "steps_left q < steps_left (ps ! i)" for ps i q
    using that by (induction ps arbitrary: i) (auto split: nat.split simp: nth_Cons)
  from assms show ?thesis by (cases rule: batch_step.cases) (auto intro: less)
qed

text \<open>While an item is not finished, one can go on.\<close>

lemma batch_goes_on:
  assumes ok: "batch_ok cap items b" and cap: "0 < cap" and left: "\<exists>p \<in> set (phases b). steps_left p \<noteq> 0"
  shows "\<exists>b'. batch_step w cap timeout items b b'"
proof (cases "\<exists>p \<in> set (phases b). active p")
  case True
  then obtain i where i: "i < length (phases b)" "active (phases b ! i)" by (auto simp: in_set_conv_nth)
  let ?it = "items ! i"
  show ?thesis
  proof (cases "phases b ! i")
    case Starting
    show ?thesis
    proof (cases "sw_acquire w 0 (item_imports ?it) (item_field w ?it)")
      case (Inl e)
      then show ?thesis using no_session [OF i(1) Starting] by blast
    next
      case (Inr v)
      obtain sid lease where v: "v = (sid, lease)" by (cases v)
      show ?thesis
      proof (cases "sw_enter w 0 sid (item_name ?it) (item_imports ?it) lease")
        case (Inl e)
        then show ?thesis using no_theory [OF i(1) Starting] Inr v by blast
      next
        case (Inr u)
        then show ?thesis using begun [OF i(1) Starting] \<open>sw_acquire w 0 (item_imports ?it) (item_field w ?it) = Inr v\<close> v
          by (metis (full_types) unit.exhaust)
      qed
    qed
  next
    case (Holding sid lease)
    then show ?thesis using verified [OF i(1) Holding refl] by blast
  next
    case (Leaving sid lease v)
    then show ?thesis using closed_one [OF i(1) Leaving] by blast
  qed (use i in simp_all)
next
  case False
  then have "filter active (phases b) = []" by (simp add: filter_empty_conv)
  moreover obtain i where i: "i < length (phases b)" "steps_left (phases b ! i) \<noteq> 0"
    using left by (auto simp: in_set_conv_nth)
  moreover have "\<not> active (phases b ! i)" using False i(1) by simp
  then have "phases b ! i = Queued" using i(2) by (cases "phases b ! i") simp_all
  ultimately show ?thesis using enter_semaphore [of i b cap] cap by auto
qed

text \<open>Property C30: a batch ends clean. However the items of a batch interleave and whatever the server answers, at most
  \<open>cap\<close> items use the server at a time, a step is possible until every item has its result, no run has more than four
  steps per item, and at the end every session taken was asked to be closed exactly once, with its own lease.\<close>

theorem batch_ends_clean:
  assumes run: "(batch_step w cap timeout items ^^ n) (batch_start items) b" and "0 < cap"
  shows "length (filter active (phases b)) \<le> cap \<and> n \<le> 4 * length items
    \<and> ((\<exists>b'. batch_step w cap timeout items b b') \<or> (\<forall>p \<in> set (phases b). \<exists>v. p = Finished v))
    \<and> ((\<forall>p \<in> set (phases b). \<exists>v. p = Finished v) \<longrightarrow> mset (b_taken b) = mset (b_closed b))"
proof -
  have ok: "batch_ok cap items b" using run by (intro batch_run_ok) (auto dest: relpowp_imp_rtranclp)
  have "n + sum_list (map steps_left (phases b)) \<le> 4 * length items"
    using run
  proof (induction n arbitrary: b)
    case 0
    have "sum_list (map steps_left (replicate k Queued)) = 4 * k" for k by (induction k) auto
    then show ?case using 0 by (auto simp: batch_start_def)
  next
    case (Suc n)
    then obtain b1 where "(batch_step w cap timeout items ^^ n) (batch_start items) b1" "batch_step w cap timeout items b1 b"
      by auto
    then show ?case using Suc.IH [of b1] batch_step_decreases [of w cap timeout items b1 b] by simp
  qed
  moreover have "(\<exists>b'. batch_step w cap timeout items b b') \<or> (\<forall>p \<in> set (phases b). \<exists>v. p = Finished v)"
    using batch_goes_on [OF ok assms(2), of w timeout] by (metis steps_left.cases steps_left.simps zero_neq_numeral zero_neq_one)
  moreover have "mset (b_taken b) = mset (b_closed b)" if "\<forall>p \<in> set (phases b). \<exists>v. p = Finished v"
  proof -
    have "(\<Sum>p\<in>#mset ps. held_by p) = {#}" if "\<forall>p \<in> set ps. \<exists>v. p = Finished v" for ps
      using that by (induction ps) auto
    then show ?thesis using ok that by (simp add: batch_ok_def)
  qed
  ultimately show ?thesis using ok by (simp add: batch_ok_def)
qed

definition lone_item :: batch_item where
  "lone_item = \<lparr>bi_name = None, bi_imports = None, bi_field = None, bi_chunk = Some ''lemma x''\<rparr>"

theorem batch_ends_clean_witness:
  "\<exists>b. (batch_step opening_world 1 60 [lone_item] ^^ 4) (batch_start [lone_item]) b
     \<and> b_taken b = [(''a'', Some ''l'')] \<and> mset (b_taken b) = mset (b_closed b)"
proof -
  let ?step = "batch_step opening_world 1 60 [lone_item]"
  let ?b = "\<lambda>p t c. \<lparr>phases = [p], b_taken = t, b_closed = c\<rparr>" and ?s = "[(''a'', Some ''l'')]"
  have "?step (batch_start [lone_item]) (?b Starting [] [])"
    using enter_semaphore [of 0 "batch_start [lone_item]" 1] by (simp add: batch_start_def)
  moreover have "?step (?b Starting [] []) (?b (Holding ''a'' (Some ''l'')) ?s [])"
    using begun [of 0 "?b Starting [] []" opening_world 0 "[lone_item]" "''a''" "Some ''l''" 0] by (simp add: opening_world_def)
  moreover have answered: "\<exists>v. ?step b (b\<lparr>phases := (phases b)[0 := Leaving ''a'' (Some ''l'') v]\<rparr>)"
    if "0 < length (phases b)" "phases b ! 0 = Holding ''a'' (Some ''l'')" for b
    using verified [OF that refl] by blast
  moreover obtain v where "?step (?b (Holding ''a'' (Some ''l'')) ?s []) (?b (Leaving ''a'' (Some ''l'') v) ?s [])"
    using answered [of "?b (Holding ''a'' (Some ''l'')) ?s []"] by auto
  moreover have "?step (?b (Leaving ''a'' (Some ''l'') v) ?s []) (?b (Finished v) ?s ?s)"
    using closed_one [of 0 "?b (Leaving ''a'' (Some ''l'') v) ?s []" "''a''" "Some ''l''" v] by simp
  ultimately have run: "(?step ^^ 4) (batch_start [lone_item]) (?b (Finished v) ?s ?s)"
    by (auto simp: numeral_eq_Suc intro!: relcomppI)
  from batch_ends_clean [OF run] run show ?thesis by (intro exI [of _ "?b (Finished v) ?s ?s"]) simp
qed

end
