(* ===== verification/Lsp_Properties.thy ===== *)
theory Lsp_Properties
  imports Lsp_Tools Py_Hoare
begin

text \<open>
  What the MCP server for editors promises: every tool that reads a file answers from a session that holds the text
  of that file, no two files share a session, the scratch sessions of a key stay within the cap and belong to one
  call at a time, and the lines of a candidate are counted from the line it is tried at.
\<close>

section \<open>The bindings\<close>

definition text_loaded :: "lsp_state \<Rightarrow> nat \<Rightarrow> bool" where
  "text_loaded st n = (\<forall>t. b_text (store st ! n) = Some t \<longrightarrow> documents st (b_session (store st ! n)) = Some t)"

definition shape :: "lsp_state \<Rightarrow> bool" where
  "shape st \<longleftrightarrow> od_ok (registry st)
     \<and> (\<forall>p n. od_get p (registry st) = Some n \<longrightarrow> n < length (store st) \<and> b_path (store st ! n) = p)
     \<and> (\<forall>p q n m. od_get p (registry st) = Some n \<and> od_get q (registry st) = Some m \<and> p \<noteq> q
          \<longrightarrow> b_session (store st ! n) \<noteq> b_session (store st ! m))"

definition bindings_ok :: "lsp_state \<Rightarrow> bool" where
  "bindings_ok st \<longleftrightarrow> shape st \<and> (\<forall>p n. od_get p (registry st) = Some n \<longrightarrow> text_loaded st n)"

text \<open>The same while a call holds the binding \<open>r\<close>, whose text may be about to be replaced.\<close>

definition holding :: "nat \<Rightarrow> lsp_state \<Rightarrow> bool" where
  "holding r st \<longleftrightarrow> shape st \<and> r < length (store st)
     \<and> (\<forall>p n. od_get p (registry st) = Some n \<and> n \<noteq> r \<longrightarrow> text_loaded st n
          \<and> (b_session (store st ! n) = b_session (store st ! r) \<longrightarrow> b_text (store st ! n) = None))"

text \<open>What the server promises: a session is not leased out twice, and a load that fails changes nothing.\<close>

definition exclusive_leases :: "lsp_world \<Rightarrow> bool" where
  "exclusive_leases w \<longleftrightarrow> (\<forall>k used args sid lease. gym_acquire w k used args = Inr (sid, lease) \<longrightarrow> sid \<notin> used)"

definition failed_loads_undone :: "lsp_world \<Rightarrow> bool" where
  "failed_loads_undone w \<longleftrightarrow> (\<forall>k sid txt d. gym_left w k sid txt d = d)"

lemma bindings_of_holding: "holding r st \<Longrightarrow> text_loaded st r \<Longrightarrow> bindings_ok st"
  unfolding holding_def bindings_ok_def by metis

lemma shape_ref: "shape st \<Longrightarrow> od_get p (registry st) = Some n \<Longrightarrow> n < length (store st) \<and> b_path (store st ! n) = p"
  by (simp add: shape_def)

lemma shape_apart:
  "shape st \<Longrightarrow> od_get p (registry st) = Some n \<Longrightarrow> od_get q (registry st) = Some m \<Longrightarrow> p \<noteq> q
    \<Longrightarrow> b_session (store st ! n) \<noteq> b_session (store st ! m)"
  by (simp add: shape_def)

lemma holding_of_bindings:
  assumes "bindings_ok st" and "od_get p (registry st) = Some r"
  shows "holding r st \<and> text_loaded st r \<and> b_path (store st ! r) = p"
proof -
  have sh: "shape st" and tl: "\<And>q n. od_get q (registry st) = Some n \<Longrightarrow> text_loaded st n"
    using assms(1) by (auto simp: bindings_ok_def)
  have "b_session (store st ! n) \<noteq> b_session (store st ! r)"
    if "od_get q (registry st) = Some n" and "n \<noteq> r" for q n
    using that assms(2) shape_apart [OF sh that(1) assms(2)] by (cases "q = p") auto
  then have "holding r st" using sh tl shape_ref [OF sh assms(2)] by (auto simp: holding_def)
  then show ?thesis using tl [OF assms(2)] shape_ref [OF sh assms(2)] by simp
qed

lemma held_mem: "od_get q (registry st) = Some n \<Longrightarrow> b_session (store st ! n) \<in> held st"
  unfolding held_def by (metis image_eqI od_get_mem snd_conv)

text \<open>The states differ in the clock alone.\<close>

lemma seen_irrelevant [simp]:
  "shape (st\<lparr>seen := k\<rparr>) = shape st" "bindings_ok (st\<lparr>seen := k\<rparr>) = bindings_ok st"
  "holding r (st\<lparr>seen := k\<rparr>) = holding r st" "text_loaded (st\<lparr>seen := k\<rparr>) r = text_loaded st r"
  by (auto simp: shape_def bindings_ok_def holding_def text_loaded_def)

section \<open>A new binding\<close>

lemma replace_binding_ok:
  assumes ok: "bindings_ok st" and new: "b_session b \<notin> held st" and "b_text b = None"
    and run: "replace_binding b st = (Inr (n, prev), st')"
  shows "bindings_ok st'" and "od_get (b_path b) (registry st') = Some n" and "n = length (store st)"
    and "store st' = store st @ [b]" and "seen st' = seen st" and "documents st' = documents st"
    and "\<And>q m. od_get q (registry st') = Some m \<Longrightarrow> m = n \<or> q \<noteq> b_path b \<and> od_get q (registry st) = Some m"
proof -
  have sh: "shape st" using ok by (simp add: bindings_ok_def)
  have st': "st' = st\<lparr>store := store st @ [b],
      registry := od_set (b_path b) (length (store st)) (od_pop (b_path b) (registry st))\<rparr>"
    and n: "n = length (store st)"
    using run by (auto simp: replace_binding_def Let_def)
  show "n = length (store st)" by (fact n)
  show "store st' = store st @ [b]" "seen st' = seen st" "documents st' = documents st" by (simp_all add: st')
  show "od_get (b_path b) (registry st') = Some n" by (simp add: st' n)
  have get: "od_get q (registry st') = (if q = b_path b then Some n else od_get q (registry st))" for q
    by (simp add: st' n)
  then show "\<And>q m. od_get q (registry st') = Some m \<Longrightarrow> m = n \<or> q \<noteq> b_path b \<and> od_get q (registry st) = Some m"
    by (auto split: if_splits)
  have old: "m < n \<and> store st' ! m = store st ! m" if "od_get q (registry st) = Some m" for q m
    using sh that by (auto simp: shape_def st' n nth_append)
  have new_at: "store st' ! n = b" by (simp add: st' n)
  have sep: "b_session (store st ! m) \<noteq> b_session b" if "od_get q (registry st) = Some m" for q m
    using held_mem [OF that] new by auto
  have "shape st'"
    unfolding shape_def
  proof (intro conjI allI impI)
    show "od_ok (registry st')" using sh by (simp add: st' shape_def)
  next
    fix p m assume "od_get p (registry st') = Some m"
    then show "m < length (store st')" "b_path (store st' ! m) = p"
      using shape_ref [OF sh, of p m] old [of p m] new_at by (auto simp: get n \<open>store st' = store st @ [b]\<close> split: if_splits)
  next
    fix p q m l assume "od_get p (registry st') = Some m \<and> od_get q (registry st') = Some l \<and> p \<noteq> q"
    then show "b_session (store st' ! m) \<noteq> b_session (store st' ! l)"
      using shape_apart [OF sh, of p m q l] old [of p m] old [of q l] sep [of p m] sep [of q l] new_at
      by (auto simp: get split: if_splits)
  qed
  moreover have "text_loaded st' m" if "od_get q (registry st') = Some m" for q m
    using that ok old [of q m] new_at \<open>b_text b = None\<close> \<open>documents st' = documents st\<close>
    by (auto simp: get bindings_ok_def text_loaded_def split: if_splits)
  ultimately show "bindings_ok st'" by (simp add: bindings_ok_def)
qed

lemma run_look: "look f st = (Inr (f (seen st)), st\<lparr>seen := Suc (seen st)\<rparr>)"
  by (simp add: look_def)

lemma run_attempt: "attempt_call f st = (f (seen st), st\<lparr>seen := Suc (seen st)\<rparr>)"
  by (simp add: attempt_call_def andThen_def run_look)

lemma run_release: "safe_release w r st = (Inr (), st\<lparr>seen := Suc (seen st)\<rparr>)"
  "safe_destroy w r st = (Inr (), st\<lparr>seen := Suc (seen st)\<rparr>)"
  by (auto simp: safe_release_def safe_destroy_def andThen_def catch_def run_attempt split: sum.split)

lemma held_seen [simp]: "held (st\<lparr>seen := k\<rparr>) = held st"
  by (simp add: held_def)

text \<open>A failed creation has only taken time.\<close>

lemma create_fails:
  assumes "create_binding w canon g h l st = (Inl e, st')"
  shows "st' = st\<lparr>seen := Suc (Suc (seen st))\<rparr>"
  using assms
  by (auto simp: create_binding_def Let_def andThen_def run_look acquire_for_def run_attempt replace_binding_def run_release
      split: sum.splits option.splits prod.splits)

lemma create_succeeds:
  assumes "create_binding w canon g h l st = (Inr n, st')" and ok: "bindings_ok st" and ex: "exclusive_leases w"
  obtains b where "bindings_ok st'" "od_get canon (registry st') = Some n" "n = length (store st)"
    "store st' = store st @ [b]" "b_path b = canon" "b_text b = None" "seen st \<le> seen st'"
    "\<And>q m. od_get q (registry st') = Some m \<Longrightarrow> m = n \<or> q \<noteq> canon \<and> od_get q (registry st) = Some m"
proof -
  let ?txt = "file_at w (seen st) canon"
  let ?args = "\<lparr>aq_theories = (case ?txt of None \<Rightarrow> None | Some t \<Rightarrow> none_if_empty (header_imports t)),
    aq_group = or_else g (default_group w), aq_heap = h, aq_label = or_else l canon\<rparr>"
  let ?st = "st\<lparr>seen := Suc (Suc (seen st))\<rparr>"
  obtain sid lease where aq: "gym_acquire w (Suc (seen st)) (held st) ?args = Inr (sid, lease)"
    using assms(1)
    by (auto simp: create_binding_def Let_def andThen_def run_look acquire_for_def run_attempt split: sum.splits prod.splits)
  define b where "b = \<lparr>b_path = canon, b_session = sid, b_lease = lease, b_group = or_else g (default_group w), b_heap = h,
    b_text = None, b_report = None\<rparr>"
  obtain prev st1 where rb: "replace_binding b ?st = (Inr (length (store st), prev), st1)"
    by (simp add: replace_binding_def Let_def)
  have run: "n = length (store st)" "st' = st1 \<or> st' = st1\<lparr>seen := Suc (seen st1)\<rparr>"
    using assms(1) rb
    by (auto simp: create_binding_def Let_def andThen_def run_look acquire_for_def run_attempt aq b_def [symmetric]
        replace_binding_def run_release split: option.splits)
  have new: "b_session b \<notin> held ?st" using aq ex by (simp add: b_def exclusive_leases_def) blast
  have "bindings_ok ?st" "b_text b = None" "b_path b = canon" using ok by (simp_all add: b_def)
  note rb_ok = replace_binding_ok [OF this(1) new this(2) rb, unfolded this(3)]
  have same: "registry st' = registry st1" "store st' = store st1" "documents st' = documents st1" "seen st1 \<le> seen st'"
    using run(2) by auto
  show ?thesis
  proof (rule that)
    show "n = length (store st)" by (fact run(1))
    show "b_path b = canon" "b_text b = None" by (simp_all add: b_def)
    show "bindings_ok st'" using rb_ok(1) run(2) by auto
    show "store st' = store st @ [b]" "seen st \<le> seen st'" "od_get canon (registry st') = Some n"
      using rb_ok(2,4,5) same run(1) by simp_all
    show "\<And>q m. od_get q (registry st') = Some m \<Longrightarrow> m = n \<or> q \<noteq> canon \<and> od_get q (registry st) = Some m"
      using rb_ok(7) same(1) run(1) by simp
  qed
qed

section \<open>One call on a binding\<close>

text \<open>A call holds \<open>r\<close>, the binding of the file \<open>c\<close>; it began at time \<open>k0\<close>.\<close>

definition holds_file :: "nat \<Rightarrow> nat \<Rightarrow> pystr \<Rightarrow> lsp_state \<Rightarrow> bool" where
  "holds_file k0 r c st \<longleftrightarrow> holding r st \<and> text_loaded st r \<and> b_path (store st ! r) = c \<and> k0 \<le> seen st"

lemma holds_file_length: "holds_file k0 r c st \<Longrightarrow> r < length (store st)"
  by (simp add: holds_file_def holding_def)

lemma holds_file_earlier: "holds_file k0 r c st \<Longrightarrow> k \<le> k0 \<Longrightarrow> holds_file k r c st"
  by (simp add: holds_file_def)

text \<open>The session of \<open>r\<close> holds a text the file had since then.\<close>

definition current :: "lsp_world \<Rightarrow> nat \<Rightarrow> nat \<Rightarrow> pystr \<Rightarrow> lsp_state \<Rightarrow> bool" where
  "current w k0 r c st \<longleftrightarrow> (\<exists>k txt. k0 \<le> k \<and> k < seen st \<and> file_at w k c = Some txt
     \<and> b_text (store st ! r) = Some txt \<and> documents st (b_session (store st ! r)) = Some txt)"

lemma holds_later: "holds_file k0 r c st \<Longrightarrow> seen st \<le> k \<Longrightarrow> holds_file k0 r c (st\<lparr>seen := k\<rparr>)"
  by (simp add: holds_file_def)

lemma current_later: "current w k0 r c st \<Longrightarrow> seen st \<le> k \<Longrightarrow> current w k0 r c (st\<lparr>seen := k\<rparr>)"
  by (auto simp: current_def intro: less_le_trans)

lemma holds_adopted:
  assumes ok: "bindings_ok st" and away: "\<And>q m. od_get q (registry st) = Some m \<Longrightarrow> m \<noteq> r"
    and r: "r < length (store st)" "b_path b = c" "k0 \<le> seen st" "b_text b = None"
    and n: "od_get c (registry st) = Some n" "b_session (store st ! n) = b_session b" "b_text (store st ! n) = None"
  shows "holds_file k0 r c (st\<lparr>store := (store st)[r := b]\<rparr>)"
proof -
  let ?st = "st\<lparr>store := (store st)[r := b]\<rparr>"
  have sh: "shape st" and tl: "\<And>q m. od_get q (registry st) = Some m \<Longrightarrow> text_loaded st m"
    using ok by (auto simp: bindings_ok_def)
  have same: "store ?st ! m = store st ! m" if "od_get q (registry st) = Some m" for q m
    using away [OF that] by simp
  have "shape ?st"
    using sh same unfolding shape_def by simp metis
  moreover have "text_loaded ?st m" if "od_get q (registry st) = Some m" for q m
    using tl [OF that] same [OF that] by (simp add: text_loaded_def)
  moreover have "b_session (store st ! m) = b_session b \<longrightarrow> b_text (store st ! m) = None"
    if "od_get q (registry st) = Some m" for q m
    using shape_apart [OF sh that n(1)] n that by (cases "q = c") auto
  ultimately have "holding r ?st"
    using r(1) away same by (auto simp: holding_def)
  then show ?thesis using r by (simp add: holds_file_def text_loaded_def)
qed

lemma rebind_holds:
  assumes ex: "exclusive_leases w"
  shows "preserves (holds_file k0 r c) (rebind w r)"
  unfolding preserves_def
proof (intro allI impI)
  fix st assume h: "holds_file k0 r c st"
  then have ok: "bindings_ok st" and r: "r < length (store st)" "b_path (store st ! r) = c" "k0 \<le> seen st"
    using bindings_of_holding by (auto simp: holds_file_def holding_def)
  let ?b = "store st ! r"
  obtain x st' where run: "create_binding w c (Some (b_group ?b)) (b_heap ?b) None st = (x, st')" by force
  show "holds_file k0 r c (snd (rebind w r st))"
  proof (cases x)
    case (Inl e)
    then have "st' = st\<lparr>seen := Suc (Suc (seen st))\<rparr>" using create_fails run by blast
    then show ?thesis using run Inl holds_later [OF h] r
      by (simp add: rebind_def andThen_def binding_at_def)
  next
    case (Inr n)
    obtain b where b: "bindings_ok st'" "od_get c (registry st') = Some n" "n = length (store st)"
      "store st' = store st @ [b]" "b_path b = c" "b_text b = None" "seen st \<le> seen st'"
      and reg: "\<And>q m. od_get q (registry st') = Some m \<Longrightarrow> m = n \<or> q \<noteq> c \<and> od_get q (registry st) = Some m"
      using create_succeeds [OF run [unfolded Inr] ok ex] by metis
    let ?r' = "?b\<lparr>b_session := b_session b, b_lease := b_lease b, b_text := None\<rparr>"
    have "snd (rebind w r st) = st'\<lparr>store := (store st')[r := ?r']\<rparr>"
      using run Inr b(3,4) r(1,2) by (simp add: rebind_def andThen_def binding_at_def modify_def nth_append)
    moreover have "m \<noteq> r" if "od_get q (registry st') = Some m" for q m
      using reg [OF that] r(1,2) b(3) shape_ref [of st q m] ok by (auto simp: bindings_ok_def)
    ultimately show ?thesis
      using holds_adopted [OF b(1), of r ?r' c k0 n] b r by simp
  qed
qed

lemma load_binding_loads:
  assumes "failed_loads_undone w"
  shows "triple (holds_file k0 r c) (load_binding w r txt)
     (\<lambda>_ s. holding r s \<and> b_path (store s ! r) = c \<and> k0 \<le> seen s \<and> documents s (b_session (store s ! r)) = Some txt)
     (\<lambda>_. holds_file k0 r c)"
proof (rule tripleI)
  fix st assume h: "holds_file k0 r c st"
  let ?sid = "b_session (store st ! r)"
  show "case load_binding w r txt st of
      (Inr v, s) \<Rightarrow> holding r s \<and> b_path (store s ! r) = c \<and> k0 \<le> seen s \<and> documents s (b_session (store s ! r)) = Some txt
    | (Inl e, s) \<Rightarrow> holds_file k0 r c s"
  proof (cases "gym_load w (seen st) ?sid txt (b_lease (store st ! r))")
    case (Inl e)
    then show ?thesis using assms holds_later [OF h, of "Suc (seen st)"]
      by (simp add: load_binding_def Let_def failed_loads_undone_def)
  next
    case (Inr v)
    have "holding r (st\<lparr>seen := Suc (seen st), documents := (documents st)(?sid := Some txt)\<rparr>)"
      using h by (auto simp: holds_file_def holding_def shape_def text_loaded_def)
    then show ?thesis using h Inr by (simp add: load_binding_def Let_def holds_file_def)
  qed
qed

lemma load_or_rebind_loads:
  assumes "failed_loads_undone w" and "exclusive_leases w"
  shows "triple (holds_file k0 r c) (load_or_rebind w r txt)
     (\<lambda>_ s. holding r s \<and> b_path (store s ! r) = c \<and> k0 \<le> seen s \<and> documents s (b_session (store s ! r)) = Some txt)
     (\<lambda>_. holds_file k0 r c)"
  unfolding load_or_rebind_def
  by (rule triple_catch [OF load_binding_loads [OF assms(1)]] triple_if triple_throw
      triple_andThen [OF triple_of_preserves [OF rebind_holds [OF assms(2)]]] load_binding_loads [OF assms(1)]
    | assumption)+

text \<open>Writing a text into the binding the call holds, once its session has it.\<close>

lemma holds_recorded:
  assumes "holding r st" and "b_path (store st ! r) = c" and "k0 \<le> seen st"
    and "documents st (b_session (store st ! r)) = Some txt"
  shows "holds_file k0 r c (st\<lparr>store := (store st)[r := (store st ! r)\<lparr>b_text := Some txt\<rparr>]\<rparr>)"
proof -
  have r: "r < length (store st)" and sh: "shape st" using assms(1) by (auto simp: holding_def)
  let ?st = "st\<lparr>store := (store st)[r := (store st ! r)\<lparr>b_text := Some txt\<rparr>]\<rparr>"
  have at: "b_session (store ?st ! m) = b_session (store st ! m)" "b_path (store ?st ! m) = b_path (store st ! m)" for m
    using r by (auto simp: nth_list_update)
  have "shape ?st" using sh at by (simp add: shape_def)
  then have "holding r ?st" using assms(1) at by (auto simp: holding_def text_loaded_def)
  then show ?thesis using assms r by (simp add: holds_file_def text_loaded_def)
qed

text \<open>The report is no part of the contract.\<close>

lemma report_irrelevant:
  assumes "holds_file k0 r c st"
  shows "holds_file k0 r c (st\<lparr>store := (store st)[r := (store st ! r)\<lparr>b_report := v\<rparr>]\<rparr>)"
proof -
  let ?st = "st\<lparr>store := (store st)[r := (store st ! r)\<lparr>b_report := v\<rparr>]\<rparr>"
  have r: "r < length (store st)" using assms by (auto simp: holds_file_def holding_def)
  have at: "b_session (store ?st ! m) = b_session (store st ! m)" "b_path (store ?st ! m) = b_path (store st ! m)"
    "b_text (store ?st ! m) = b_text (store st ! m)" for m
    using r by (auto simp: nth_list_update)
  have "shape ?st" using assms at by (simp add: shape_def holds_file_def holding_def)
  then show ?thesis using assms at by (auto simp: holds_file_def holding_def text_loaded_def)
qed

lemma current_report [simp]:
  "r < length (store st) \<Longrightarrow>
    current w k0 r c (st\<lparr>store := (store st)[r := (store st ! r)\<lparr>b_report := v\<rparr>]\<rparr>) = current w k0 r c st"
  by (simp add: current_def)

lemma record_load_current:
  assumes "k0 \<le> k" and "file_at w k c = Some txt"
  shows "triple (\<lambda>s. holding r s \<and> b_path (store s ! r) = c \<and> k < seen s \<and> documents s (b_session (store s ! r)) = Some txt)
     (record_load r txt result) (\<lambda>_ s. holds_file k0 r c s \<and> current w k0 r c s) (\<lambda>_. holds_file k0 r c)"
proof -
  let ?Q = "\<lambda>s. holds_file k0 r c s \<and> current w k0 r c s"
  have written: "triple (\<lambda>s. holding r s \<and> b_path (store s ! r) = c \<and> k < seen s
        \<and> documents s (b_session (store s ! r)) = Some txt)
     (modify r (\<lambda>b. b\<lparr>b_text := Some txt\<rparr>)) (\<lambda>_. ?Q) (\<lambda>_. holds_file k0 r c)"
    unfolding modify_def
    using assms by (intro triple_change conjI holds_recorded) (auto simp: current_def holding_def)
  have noted: "triple ?Q (modify r (\<lambda>b. b\<lparr>b_report := v\<rparr>)) (\<lambda>_. ?Q) (\<lambda>_. holds_file k0 r c)" for v
    unfolding modify_def
    by (rule triple_change) (metis current_report holds_file_length report_irrelevant)
  have "triple ?Q (andThen (from_result (dict_get ''report'' result))
      (\<lambda>rep. andThen (modify r (\<lambda>b. b\<lparr>b_report := Some (json_or rep (JObj []))\<rparr>)) (\<lambda>_. ret True)))
      (\<lambda>_. ?Q) (\<lambda>_. holds_file k0 r c)"
    by (intro triple_andThen [where R = "\<lambda>_. ?Q"] triple_from_result noted triple_ret) auto
  then show ?thesis unfolding record_load_def by (rule triple_andThen [OF written])
qed

lemma sync_current:
  assumes "failed_loads_undone w" and "exclusive_leases w"
  shows "triple (holds_file k0 r c) (sync w r) (\<lambda>_ s. holds_file k0 r c s \<and> current w k0 r c s) (\<lambda>_. holds_file k0 r c)"
proof (rule tripleI)
  fix st assume h: "holds_file k0 r c st"
  let ?k = "seen st" and ?st = "st\<lparr>seen := Suc (seen st)\<rparr>"
  have b: "b_path (store st ! r) = c" "k0 \<le> ?k" using h by (simp_all add: holds_file_def)
  have later: "holds_file (Suc ?k) r c ?st" using h by (simp add: holds_file_def)
  show "case sync w r st of (Inr v, s) \<Rightarrow> holds_file k0 r c s \<and> current w k0 r c s | (Inl e, s) \<Rightarrow> holds_file k0 r c s"
  proof (cases "file_at w ?k c")
    case None
    then show ?thesis using b holds_file_earlier [OF later] by (simp add: sync_def andThen_def run_look binding_at_def)
  next
    case (Some t)
    show ?thesis
    proof (cases "b_text (store st ! r) = Some t")
      case True
      then have "current w k0 r c ?st" using b Some h by (auto simp: current_def holds_file_def text_loaded_def)
      then show ?thesis using b Some True holds_file_earlier [OF later]
        by (simp add: sync_def andThen_def run_look binding_at_def)
    next
      case False
      let ?loaded = "\<lambda>s. holding r s \<and> b_path (store s ! r) = c \<and> ?k < seen s
        \<and> documents s (b_session (store s ! r)) = Some t"
      have "triple (holds_file (Suc ?k) r c) (load_or_rebind w r t) (\<lambda>_. ?loaded) (\<lambda>_. holds_file k0 r c)"
        by (rule triple_weaken [OF load_or_rebind_loads [OF assms]]) (use b holds_file_earlier in fastforce)+
      from triple_andThen [OF this record_load_current [OF b(2) Some]]
      have "triple (holds_file (Suc ?k) r c) (andThen (load_or_rebind w r t) (record_load r t))
          (\<lambda>_ s. holds_file k0 r c s \<and> current w k0 r c s) (\<lambda>_. holds_file k0 r c)" .
      from this [unfolded triple_def, rule_format, OF later] show ?thesis
        using b Some False by (simp add: sync_def andThen_def [of "look _"] andThen_def [of "fetch _"] run_look binding_at_def)
    qed
  qed
qed

text \<open>The value came from the session \<open>r\<close> has now.\<close>

definition answered_by :: "lsp_world \<Rightarrow> nat \<Rightarrow> client_call \<Rightarrow> json \<Rightarrow> lsp_state \<Rightarrow> bool" where
  "answered_by w r fn v st \<longleftrightarrow>
     gym_call w (seen st - 1) fn (b_session (store st ! r)) (b_lease (store st ! r)) = Inr v"

lemma call_once_keeps:
  "triple (\<lambda>s. holds_file k0 r c s \<and> current w k0 r c s) (call_once w r fn)
     (\<lambda>v s. holds_file k0 r c s \<and> current w k0 r c s \<and> answered_by w r fn v s) (\<lambda>_. holds_file k0 r c)"
  by (rule tripleI)
    (auto simp: call_once_def andThen_def run_attempt holds_later current_later answered_by_def binding_at_def split: sum.split)

lemma call_current:
  assumes "failed_loads_undone w" and "exclusive_leases w"
  shows "triple (\<lambda>s. holds_file k0 r c s \<and> current w k0 r c s) (call w r fn)
     (\<lambda>v s. holds_file k0 r c s \<and> current w k0 r c s \<and> answered_by w r fn v s) (\<lambda>_. holds_file k0 r c)"
  unfolding call_def
  by (rule triple_catch [OF call_once_keeps] triple_if triple_throw
      triple_andThen [OF triple_of_preserves [OF rebind_holds [OF assms(2)]]]
      triple_andThen [OF sync_current [OF assms]] call_once_keeps | assumption)+

lemma call_once_holds: "preserves (holds_file k0 r c) (call_once w r fn)"
  by (auto simp: preserves_def call_once_def andThen_def run_attempt holds_later split: sum.split)

text \<open>Without the synchronisation before it.\<close>

lemma call_holds:
  assumes "failed_loads_undone w" and "exclusive_leases w"
  shows "preserves (holds_file k0 r c) (call w r fn)"
proof -
  have "preserves (holds_file k0 r c) (sync w r)"
    by (rule preserves_of_triple, rule triple_weaken [OF sync_current [OF assms]]) auto
  then show ?thesis
    unfolding call_def by (intro inv_intro call_once_holds rebind_holds assms)
qed

section \<open>Whole tools\<close>

lemma get_binding_holds:
  assumes "exclusive_leases w"
  shows "triple (\<lambda>s. bindings_ok s \<and> k0 \<le> seen s) (get_binding w p g h l)
     (\<lambda>r. holds_file k0 r (canonical_path w p)) (\<lambda>_. bindings_ok)"
proof (rule tripleI)
  fix st assume pre: "bindings_ok st \<and> k0 \<le> seen st"
  let ?c = "canonical_path w p"
  have held: "holds_file k0 n ?c s" if "bindings_ok s" "od_get ?c (registry s) = Some n" "k0 \<le> seen s" for n s
    using holding_of_bindings [OF that(1,2)] that(3) by (simp add: holds_file_def)
  show "case get_binding w p g h l st of (Inr r, s) \<Rightarrow> holds_file k0 r ?c s | (Inl e, s) \<Rightarrow> bindings_ok s"
  proof (cases "od_get ?c (registry st)")
    case (Some r)
    then show ?thesis using pre held by (simp add: get_binding_def andThen_def)
  next
    case None
    obtain x st' where run: "create_binding w ?c g h l st = (x, st')" by force
    show ?thesis
    proof (cases x)
      case (Inl e)
      then have "st' = st\<lparr>seen := Suc (Suc (seen st))\<rparr>" using create_fails run by blast
      then show ?thesis using None run Inl pre by (simp add: get_binding_def andThen_def)
    next
      case (Inr n)
      have "bindings_ok st'" "od_get ?c (registry st') = Some n" "seen st \<le> seen st'"
        using create_succeeds [OF run [unfolded Inr] _ assms] pre by metis+
      then show ?thesis using None run Inr pre held by (simp add: get_binding_def andThen_def)
    qed
  qed
qed

lemma holds_file_ok: "holds_file k0 r c st \<Longrightarrow> bindings_ok st"
  using bindings_of_holding by (auto simp: holds_file_def)

lemma bound_synced_current:
  assumes "failed_loads_undone w" and "exclusive_leases w"
  shows "triple (\<lambda>s. bindings_ok s \<and> k0 \<le> seen s) (bound_synced w p)
     (\<lambda>v s. holds_file k0 (fst v) (canonical_path w p) s \<and> current w k0 (fst v) (canonical_path w p) s) (\<lambda>_. bindings_ok)"
proof -
  have "triple (holds_file k0 r c) (andThen (sync w r) (\<lambda>b. ret (r, b)))
     (\<lambda>v s. holds_file k0 (fst v) c s \<and> current w k0 (fst v) c s) (\<lambda>_. bindings_ok)" for r c
    by (rule triple_andThen [where R = "\<lambda>_ s. holds_file k0 r c s \<and> current w k0 r c s"],
        rule triple_weaken [OF sync_current [OF assms]]) (auto intro: triple_ret holds_file_ok)
  then show ?thesis
    unfolding bound_synced_def by (rule triple_andThen [OF get_binding_holds [OF assms(2)]])
qed

lemma file_tool_current:
  assumes "failed_loads_undone w" and "exclusive_leases w"
  shows "triple (\<lambda>s. bindings_ok s \<and> k0 \<le> seen s) (file_tool w p q)
     (\<lambda>v s. bindings_ok s \<and> (\<exists>r. current w k0 r (canonical_path w p) s \<and> answered_by w r (file_request q) v s))
     (\<lambda>_. bindings_ok)"
proof -
  have "triple (\<lambda>s. holds_file k0 r c s \<and> current w k0 r c s) (call w r fn)
     (\<lambda>v s. bindings_ok s \<and> (\<exists>r. current w k0 r c s \<and> answered_by w r fn v s)) (\<lambda>_. bindings_ok)" for r c fn
    by (rule triple_weaken [OF call_current [OF assms]]) (auto intro: holds_file_ok)
  then show ?thesis
    unfolding file_tool_def
    by (intro triple_andThen [OF bound_synced_current [OF assms]]) (auto intro!: triple_prod)
qed

lemma bound_synced_keeps:
  assumes "failed_loads_undone w" and "exclusive_leases w"
  shows "preserves bindings_ok (bound_synced w p)"
  by (rule preserves_of_triple, rule triple_weaken [OF bound_synced_current [OF assms, of 0]]) (auto intro: holds_file_ok)

lemma close_binding_keeps: "preserves bindings_ok (close_binding w p destroy)"
proof -
  have "bindings_ok (st\<lparr>registry := od_pop c (registry st)\<rparr>)" if "bindings_ok st" for st c
    using that by (auto simp: bindings_ok_def shape_def text_loaded_def)
  moreover have "preserves bindings_ok (safe_release w r)" "preserves bindings_ok (safe_destroy w r)" for r
    by (simp_all add: preserves_def run_release)
  ultimately show ?thesis
    unfolding close_binding_def by (intro inv_intro) auto
qed

lemma with_binding_keeps:
  assumes "exclusive_leases w" and "\<And>r. preserves (holds_file 0 r (canonical_path w p)) (k r)"
  shows "preserves bindings_ok (andThen (get_binding w p g h l) k)"
proof -
  have "triple (holds_file 0 r (canonical_path w p)) (k r) (\<lambda>_. bindings_ok) (\<lambda>_. bindings_ok)" for r
    by (rule triple_weaken [OF triple_of_preserves [OF assms(2)]]) (auto intro: holds_file_ok)
  then have "triple (\<lambda>s. bindings_ok s \<and> 0 \<le> seen s) (andThen (get_binding w p g h l) k) (\<lambda>_. bindings_ok) (\<lambda>_. bindings_ok)"
    by (rule triple_andThen [OF get_binding_holds [OF assms(1)]])
  then show ?thesis by (intro preserves_of_triple) simp
qed

lemma run_tool_keeps:
  assumes fl: "failed_loads_undone w" and ex: "exclusive_leases w"
  shows "preserves bindings_ok (run_tool w t)"
proof (cases t)
  case (OpenFile p g h l)
  have "preserves (holds_file 0 r c) (sync w r)" for r c
    by (rule preserves_of_triple, rule triple_weaken [OF sync_current [OF assms]]) auto
  then show ?thesis
    unfolding OpenFile run_tool.simps isabelle_open_def by (intro inv_intro with_binding_keeps ex)
next
  case (CloseFile p destroy)
  show ?thesis unfolding CloseFile run_tool.simps isabelle_close_def Let_def by (intro inv_intro close_binding_keeps)
next
  case (SyncFile p)
  show ?thesis unfolding SyncFile run_tool.simps isabelle_sync_def
    by (intro inv_intro bound_synced_keeps [OF assms]) (auto intro!: inv_intro split: prod.split)
next
  case (Diagnostics p severity)
  show ?thesis unfolding Diagnostics run_tool.simps isabelle_diagnostic_messages_def
    by (intro inv_intro bound_synced_keeps [OF assms]) (auto intro!: inv_intro split: prod.split)
next
  case (OnFile p q)
  have "preserves bindings_ok (file_tool w p q)"
    by (rule preserves_of_triple, rule triple_weaken [OF file_tool_current [OF assms, of 0]]) auto
  then show ?thesis unfolding OnFile run_tool.simps by (intro inv_intro)
next
  case (OnSession p q)
  show ?thesis unfolding OnSession run_tool.simps session_tool_def
    by (intro inv_intro with_binding_keeps ex call_holds [OF assms])
next
  case (Attempts p line)
  show ?thesis unfolding Attempts run_tool.simps multi_attempt_plan_def Let_def
    by (intro inv_intro bound_synced_keeps [OF assms]) (auto intro!: inv_intro split: prod.split)
qed

lemma reachable_bindings:
  assumes "lsp_reach w st" and "failed_loads_undone w" and "exclusive_leases w"
  shows "bindings_ok st"
  using assms(1)
proof induction
  case (lsp_start d)
  show ?case by (simp add: bindings_ok_def shape_def od_ok_def od_keys_def)
next
  case (lsp_next st t x st')
  then show ?case using run_tool_keeps [OF assms(2,3), of t] by (metis preserves_def snd_conv)
qed

section \<open>Guarantees\<close>


text \<open>
  At every moment between tool calls, two files of the registry are bound to
  different sessions, the session of each holds the text the binding remembers, and a file has one binding.
\<close>

theorem files_have_own_sessions:
  assumes "lsp_reach w st" and "exclusive_leases w" and "failed_loads_undone w"
    and "od_get p (registry st) = Some n"
  shows "b_path (store st ! n) = p
    \<and> (\<forall>txt. b_text (store st ! n) = Some txt \<longrightarrow> documents st (b_session (store st ! n)) = Some txt)
    \<and> (\<forall>q m. q \<noteq> p \<and> od_get q (registry st) = Some m \<longrightarrow> b_session (store st ! m) \<noteq> b_session (store st ! n))"
proof -
  have ok: "bindings_ok st" using reachable_bindings assms by blast
  then have "holding n st \<and> text_loaded st n \<and> b_path (store st ! n) = p"
    by (rule holding_of_bindings) (fact assms(4))
  then show ?thesis using shape_apart [of st] ok assms(4) by (auto simp: text_loaded_def bindings_ok_def)
qed

text \<open>A world in which the session of a new binding is gone by the first load.\<close>

definition desk :: lsp_world where
  "desk = \<lparr>canonical_path = id, file_at = (\<lambda>k p. if k = 2 then Some ''theory A'' else None),
     gym_acquire = (\<lambda>k used args. if ''s'' \<notin> used then Inr (''s'', ''l'') else if ''t'' \<notin> used then Inr (''t'', ''m'')
       else Inl (HTTPError 503 ''pool full'')),
     gym_load = (\<lambda>k sid txt lease. if sid = ''s'' then Inl (HTTPError 404 ''not found'') else Inr (JObj [])),
     gym_left = (\<lambda>k sid txt d. d), gym_call = (\<lambda>k fn sid lease. Inr (JStr (sid @ lease))),
     gym_release = (\<lambda>k sid lease. Inr ()), gym_close = (\<lambda>k sid lease. Inr ()),
     default_group = ''default'', default_field = ''HOL'', close_destroys = False\<rparr>"

definition no_bindings :: lsp_state where
  "no_bindings = \<lparr>store = [], registry = [], documents = (\<lambda>_. None), seen = 0\<rparr>"

lemma desk_honest: "exclusive_leases desk" "failed_loads_undone desk"
  by (auto simp: exclusive_leases_def failed_loads_undone_def desk_def split: if_splits)

lemmas lsp_run = file_tool_def bound_synced_def get_binding_def create_binding_def acquire_for_def replace_binding_def
  sync_def load_or_rebind_def load_binding_def record_load_def rebind_def call_def call_once_def modify_def binding_at_def
  run_look run_attempt run_release andThen_def catch_def held_def od_set_def od_pop_def od_get_def

lemma desk_query:
  "\<exists>st. file_tool desk ''A.thy'' ProofState no_bindings = (Inr (JStr ''tm''), st) \<and> seen st = 9
     \<and> od_get ''A.thy'' (registry st) = Some 1 \<and> documents st ''t'' = Some ''theory A''"
  by (simp add: lsp_run desk_def no_bindings_def Let_def json_or_def)


theorem files_have_own_sessions_witness:
  "\<exists>st n. lsp_reach desk st \<and> od_get ''A.thy'' (registry st) = Some n \<and> b_path (store st ! n) = ''A.thy''"
proof -
  obtain st' where run: "file_tool desk ''A.thy'' ProofState no_bindings = (Inr (JStr ''tm''), st')"
    and reg: "od_get ''A.thy'' (registry st') = Some 1"
    using desk_query by blast
  have "lsp_reach desk no_bindings" unfolding no_bindings_def by (rule lsp_start)
  moreover have "run_tool desk (OnFile ''A.thy'' ProofState) no_bindings = (Inr (), st')"
    using run by (simp add: andThen_def)
  ultimately have reach: "lsp_reach desk st'" by (rule lsp_next)
  from files_have_own_sessions [OF this desk_honest reg] reach reg show ?thesis by blast
qed

text \<open>
  The trust in failed loads is needed: when a load that the client gave up on has gone through, and the file is then
  changed back, the remembered text hides that the session holds another one.
\<close>

definition slow :: lsp_world where
  "slow = desk\<lparr>file_at := (\<lambda>k p. if k = 2 \<or> k = 6 then Some ''A'' else if k = 4 then Some ''B'' else None),
     gym_load := (\<lambda>k sid txt lease. if k = 5 then Inl (Exn C_TimeoutError ''read timeout'') else Inr (JObj [])),
     gym_left := (\<lambda>k sid txt d. Some txt)\<rparr>"

theorem abandoned_load_goes_unnoticed:
  "\<exists>st st'. lsp_reach slow st \<and> exclusive_leases slow \<and> file_tool slow ''A.thy'' ProofState st = (Inr (JStr ''sl''), st')
     \<and> file_at slow (seen st) ''A.thy'' = Some ''A'' \<and> b_session (store st' ! 0) = ''s'' \<and> documents st' ''s'' = Some ''B''"
proof -
  obtain s1 where s1: "run_tool slow (SyncFile ''A.thy'') no_bindings = (Inr (), s1)"
    and s1_is: "s1 = \<lparr>store = [\<lparr>b_path = ''A.thy'', b_session = ''s'', b_lease = ''l'', b_group = ''default'', b_heap = None,
       b_text = Some ''A'', b_report = Some (JObj [])\<rparr>], registry = [(''A.thy'', 0)], documents = [''s'' \<mapsto> ''A''], seen = 4\<rparr>"
    by (simp add: lsp_run slow_def desk_def no_bindings_def Let_def json_or_def isabelle_sync_def report_of_def pick_def
        stuck_line_def)
  obtain e s2 where s2: "run_tool slow (SyncFile ''A.thy'') s1 = (Inl e, s2)"
    and s2_is: "s2 = s1\<lparr>documents := [''s'' \<mapsto> ''B''], seen := 6\<rparr>"
    by (simp add: lsp_run slow_def desk_def s1_is Let_def isabelle_sync_def)
  have "lsp_reach slow no_bindings" unfolding no_bindings_def by (rule lsp_start)
  then have "lsp_reach slow s2" using lsp_next s1 s2 by blast
  moreover have "exclusive_leases slow" using desk_honest by (simp add: slow_def exclusive_leases_def)
  moreover have "\<exists>st'. file_tool slow ''A.thy'' ProofState s2 = (Inr (JStr ''sl''), st')
      \<and> b_session (store st' ! 0) = ''s'' \<and> documents st' ''s'' = Some ''B''"
    by (simp add: lsp_run slow_def desk_def s1_is s2_is Let_def)
  moreover have "file_at slow (seen s2) ''A.thy'' = Some ''A''" by (simp add: slow_def s2_is)
  ultimately show ?thesis by blast
qed

end
