(* ===== verification/Lsp_Scratch.thy ===== *)
theory Lsp_Scratch
  imports Lsp_Tools
begin

text \<open>
  Scratch execution in the MCP server for editors: the sessions of a key stay within the cap and belong to one call
  at a time, each call gives its session back, and the lines of a candidate are counted from the line it is tried at.
\<close>

section \<open>The sessions of one key\<close>

definition scratch_ok :: "nat \<Rightarrow> scratch \<Rightarrow> bool" where
  "scratch_ok cap s \<longleftrightarrow> scratch_count s = creating s + length (in_hand s) + length (idle s) + lost s
     \<and> scratch_count s \<le> cap \<and> distinct (idle s @ in_hand s)"

lemma scratch_step_ok:
  assumes "scratch_step cap s t" and "scratch_ok cap s"
  shows "scratch_ok cap t"
  using assms
proof (cases rule: scratch_step.cases)
  case (release_scratch x)
  then show ?thesis using assms(2) by (auto simp: scratch_ok_def length_remove1 Suc_leI dest: length_pos_if_in_set)
next
  case (drop_scratch x)
  moreover obtain n where "length (in_hand s) = Suc n" using \<open>x \<in> set (in_hand s)\<close> by (cases "in_hand s") auto
  ultimately show ?thesis using assms(2) by (auto simp: scratch_ok_def length_remove1)
next
  case (cancel_holder x)
  moreover obtain n where "length (in_hand s) = Suc n" using \<open>x \<in> set (in_hand s)\<close> by (cases "in_hand s") auto
  ultimately show ?thesis using assms(2) by (auto simp: scratch_ok_def length_remove1)
qed (auto simp: scratch_ok_def)

lemma scratch_reach_ok: "scratch_reach cap s \<Longrightarrow> scratch_ok cap s"
proof (induction rule: scratch_reach.induct)
  case scratch_empty
  show ?case by (simp add: scratch_ok_def)
qed (rule scratch_step_ok)


definition one_in_hand :: scratch where
  "one_in_hand = \<lparr>idle = [], scratch_count = 1, trying = 0, creating = 0, waiting = 0, in_hand = [''x''], lost = 0\<rparr>"

lemma one_in_hand_reachable: "scratch_reach 1 one_in_hand"
proof -
  let ?s = "\<lambda>c t cr h. \<lparr>idle = [], scratch_count = c, trying = t, creating = cr, waiting = 0, in_hand = h, lost = 0\<rparr>"
  have "scratch_reach 1 (?s 0 0 0 [])" by (rule scratch_empty)
  then have "scratch_reach 1 (?s 0 1 0 [])" by (rule scratch_next) (use find_empty [of "?s 0 0 0 []"] in simp)
  then have "scratch_reach 1 (?s 1 0 1 [])" by (rule scratch_next) (use start_create [of "?s 0 1 0 []"] in simp)
  then show ?thesis
    unfolding one_in_hand_def by (rule scratch_next) (use created_one [of "?s 1 0 1 []" 0 "''x''"] in simp)
qed


text \<open>
  A waiting call is not told when a session is dropped: with the last session gone it waits for a session nobody
  holds or creates, until another call of the same key comes by.
\<close>

lemma dropped_session_strands_waiter:
  "\<exists>s. scratch_reach 1 s \<and> waiting s = 1 \<and> scratch_count s = 0
     \<and> (\<forall>t. scratch_step 1 s t \<longrightarrow> t = s\<lparr>trying := 1\<rparr> \<or> t = s\<lparr>waiting := 0\<rparr>)"
proof -
  let ?s = "\<lambda>c t w h. \<lparr>idle = [], scratch_count = c, trying = t, creating = 0, waiting = w, in_hand = h, lost = 0\<rparr>"
  have "scratch_reach 1 (?s 1 0 0 [''x''])" using one_in_hand_reachable by (simp add: one_in_hand_def)
  then have "scratch_reach 1 (?s 1 1 0 [''x''])" by (rule scratch_next) (use find_empty [of "?s 1 0 0 [''x'']"] in simp)
  then have "scratch_reach 1 (?s 1 0 1 [''x''])" by (rule scratch_next) (use start_wait [of "?s 1 1 0 [''x'']"] in simp)
  then have "scratch_reach 1 (?s 0 0 1 [])"
    by (rule scratch_next) (use drop_scratch [of "''x''" "?s 1 0 1 [''x'']"] in simp)
  then show ?thesis by (intro exI [of _ "?s 0 0 1 []"]) (auto elim: scratch_stepE)
qed

section \<open>Giving a session back\<close>

text \<open>
  An attempt that got a session gives it back exactly once, whatever the client
  and the report are: it is dropped when the client answered that the session does not exist and released otherwise;
  an attempt that got none gives nothing back.
\<close>

theorem attempt_returns_session:
  "snd (try_one acquired load line prefix candidate) =
     (case acquired of Inl e \<Rightarrow> []
      | Inr (sid, lease) \<Rightarrow> (case load sid lease (prefix @ candidate) of
            Inl e \<Rightarrow> [if \<exists>d. e = HTTPError 404 d then Dropped else Released]
          | Inr result \<Rightarrow> (case candidate_answer line candidate result of
               Inl e \<Rightarrow> [if \<exists>d. e = HTTPError 404 d then Dropped else Released] | Inr ans \<Rightarrow> [Released])))"
proof -
  have "is_not_found e \<longleftrightarrow> (\<exists>d. e = HTTPError 404 d)" for e by (cases e) auto
  then show ?thesis
    by (auto simp: try_one_def Let_def onOk_def give_back_def split: sum.split)
qed

text \<open>The snippet tool releases before it reads the report, and once more when the report cannot be read.\<close>

lemma snippet_released_twice:
  "snd (isabelle_run_code (Inr (''s'', ''l'')) (\<lambda>sid lease rq. Inr (JObj [(''report'', JStr ''garbled'')])) ''lemma x'' None)
     = [Released, Released]"
  by (simp add: isabelle_run_code_def Let_def snippet_answer_def get_dict_def bad_commands_def get_list_def json_or_def
      give_back_def)

section \<open>The lines of a candidate\<close>

lemma splitlines_from_line:
  "(\<And>c. c \<in> set u \<Longrightarrow> \<not> is_linebreak c) \<Longrightarrow> splitlines_from acc (u @ NL # s) = (rev acc @ u) # splitlines_from [] s"
proof (induction u arbitrary: acc)
  case Nil
  then show ?case by (cases s) (auto simp: is_linebreak_def Let_def)
next
  case (Cons c u)
  have c: "\<not> is_linebreak c" using Cons.prems by simp
  obtain d ds where d: "u @ NL # s = d # ds" by (cases u) auto
  have "splitlines_from acc (c # d # ds) = splitlines_from (c # acc) (d # ds)"
    using c by (auto simp: is_linebreak_def Let_def)
  then show ?case using Cons d by simp
qed

lemma splitlines_from_no_break:
  assumes "l \<in> set (splitlines_from acc s)" and "\<And>c. c \<in> set acc \<Longrightarrow> \<not> is_linebreak c" and "c \<in> set l"
  shows "\<not> is_linebreak c"
  using assms
  by (induction acc s rule: splitlines_from.induct) (auto split: if_splits)

lemma splitlines_no_break: "l \<in> set (splitlines s) \<Longrightarrow> c \<in> set l \<Longrightarrow> \<not> is_linebreak c"
  using splitlines_from_no_break [of l "[]" s c] by (simp add: splitlines_def)

lemma splitlines_after_lines:
  "(\<And>l c. l \<in> set ls \<Longrightarrow> c \<in> set l \<Longrightarrow> \<not> is_linebreak c) \<Longrightarrow>
     splitlines (concat (map (\<lambda>l. l @ [NL]) ls) @ s) = ls @ splitlines s"
proof (induction ls)
  case (Cons l ls)
  then have "splitlines (l @ NL # (concat (map (\<lambda>l. l @ [NL]) ls) @ s)) = l # splitlines (concat (map (\<lambda>l. l @ [NL]) ls) @ s)"
    unfolding splitlines_def by (subst splitlines_from_line) auto
  moreover have "splitlines (concat (map (\<lambda>l. l @ [NL]) ls) @ s) = ls @ splitlines s"
    using Cons.prems by (intro Cons.IH) auto
  ultimately show ?case by simp
qed simp

lemma join_lines: "ls \<noteq> [] \<Longrightarrow> join [NL] ls @ [NL] = concat (map (\<lambda>l. l @ [NL]) ls)"
  by (induction ls rule: induct_list012) auto

text \<open>The lines of an attempt. An attempt at line \<open>line\<close> of a file, from its second line to the one after
  its last, sends the lines before \<open>line\<close> unchanged and then the lines of the candidate, and reports a command of the
  candidate's line \<open>j\<close> as line \<open>j\<close>: the candidate's first line counts as 1.\<close>

theorem candidate_lines_relative:
  assumes "2 \<le> line" and "line \<le> int (length (splitlines txt)) + 1"
  shows "splitlines (attempt_prefix txt line @ candidate) = take (nat (line - 1)) (splitlines txt) @ splitlines candidate
    \<and> candidate_line (JInt (int (length (splitlines (attempt_prefix txt line))) + j)) line = Inr (JInt j)"
proof -
  let ?ls = "take (nat (line - 1)) (splitlines txt)"
  have len: "length ?ls = nat (line - 1)" using assms by simp
  then have "?ls \<noteq> []" using assms by auto
  then have prefix: "attempt_prefix txt line = concat (map (\<lambda>l. l @ [NL]) ?ls)"
    using assms by (simp add: attempt_prefix_def slice_to_def join_lines)
  have "splitlines (attempt_prefix txt line @ s) = ?ls @ splitlines s" for s
    unfolding prefix by (rule splitlines_after_lines) (auto dest!: in_set_takeD splitlines_no_break)
  from this [of candidate] this [of "[]"] show ?thesis
    using len assms by (simp add: splitlines_def)
qed

theorem candidate_lines_relative_witness:
  "splitlines (attempt_prefix (''a'' @ [NL] @ ''b'' @ [NL] @ ''c'') 3 @ ''by simp'') = [''a'', ''b'', ''by simp'']"
  using candidate_lines_relative [of 3 "''a'' @ [NL] @ ''b'' @ [NL] @ ''c''" "''by simp''" 1]
  by (simp add: splitlines_def is_linebreak_def Let_def)

text \<open>At the first line an empty line is sent ahead, so the candidate's first line is reported as 2; a form feed
  counts as a line of its own.\<close>

lemma first_line_off_by_one:
  "splitlines (attempt_prefix txt 1 @ candidate) = [] # splitlines candidate
     \<and> candidate_line (JInt (int (length (splitlines (attempt_prefix txt 1))) + j)) 1 = Inr (JInt (j + 1))"
  by (cases candidate) (simp_all add: attempt_prefix_def slice_to_def splitlines_def is_linebreak_def Let_def)

lemma form_feed_shifts_lines: "attempt_prefix (''a'' @ [CHR 0x0C] @ ''b'' @ [NL] @ ''c'') 2 = ''a'' @ [NL]"
  by (simp add: attempt_prefix_def slice_to_def splitlines_def is_linebreak_def Let_def)

end
