(* ===== verification/Gateway_Process.thy ===== *)
theory Gateway_Process
  imports Server_Errors Memory_Monitor
begin

text \<open>
  The process of the Scala gateway (\<open>repl/src/python/repl_backend_gateway.py\<close>): the liveness probe, the calls
  of the factory methods with their retry loop, and the termination of the process group.

  The process, the clock and the Java side are parameters: each is a function of the round of the loop that
  asks it. A loop over the clock need not end, so it is a \<open>partial_function\<close> with \<open>None\<close> for a loop that
  never ends; that it does end is proved for a clock that advances in every round, which \<open>time.sleep\<close> ensures.
  The start of the process records what it has opened and started, whether or not it ends well.
\<close>

section \<open>The start of the process\<close>

text \<open>What the start meets: the file system, the operating system, the first line of the process and the
  constructor of the Java gateway.\<close>

record start_world =
  sw_isabelle :: pystr
  sw_source :: pystr
  sw_read_timeout :: real
  sw_mkdir :: "exn + unit"
  sw_open :: "exn + unit"
  sw_popen :: "exn + unit"
  sw_piped :: bool
  sw_first_line :: "exn + pystr"
  sw_connect :: "exn + unit"

datatype start_event = Made_Log_Dir | Opened_Log | Spawned "pystr list" | Pumping | Connected int real

text \<open>The message of \<open>int()\<close> without its quotation of the text.\<close>

definition bad_port :: exn where
  "bad_port = Exn C_ValueError ''invalid literal for int() with base 10''"

definition no_stdout :: exn where
  "no_stdout = Exn C_RuntimeError ''Scala REPL gateway process failed to start (stdout is None).''"

text \<open>\<open>__init__\<close>: what it did, in order, and the port of the gateway or what it raises.\<close>

definition start_gateway :: "start_world \<Rightarrow> start_event list \<times> (exn + int)" where
  "start_gateway w =
     (case sw_mkdir w of Inl e \<Rightarrow> ([], Inl e) | Inr _ \<Rightarrow>
      (case sw_open w of Inl e \<Rightarrow> ([Made_Log_Dir], Inl e) | Inr _ \<Rightarrow>
       (case sw_popen w of Inl e \<Rightarrow> ([Made_Log_Dir, Opened_Log], Inl e) | Inr _ \<Rightarrow>
        (let running = [Made_Log_Dir, Opened_Log, Spawned [sw_isabelle w, ''scala'', sw_source w]] in
         if \<not> sw_piped w then (running, Inl no_stdout)
         else (case sw_first_line w of Inl e \<Rightarrow> (running, Inl e) | Inr line \<Rightarrow>
           (case py_int (strip line) of None \<Rightarrow> (running, Inl bad_port) | Some port \<Rightarrow>
             (case sw_connect w of Inl e \<Rightarrow> (running @ [Pumping], Inl e) | Inr _ \<Rightarrow>
                (running @ [Pumping, Connected port (sw_read_timeout w)], Inr port))))))))"

text \<open>\<open>_pump_stdout\<close>: the lines written to the log, and the error that ends the thread, if any.\<close>

fun pump_stdout :: "(pystr \<Rightarrow> exn option) \<Rightarrow> pystr list \<Rightarrow> pystr list \<times> exn option" where
  "pump_stdout wr [] = ([], None)"
| "pump_stdout wr (line # rest) = (case wr line of
     Some e \<Rightarrow> ([], if isinstance e C_ValueError \<or> isinstance e C_OSError then None else Some e)
   | None \<Rightarrow> (case pump_stdout wr rest of (out, end) \<Rightarrow> (line # out, end)))"

text \<open>A line is lost only after a write failed: what reaches the log is the longest part of the output
  before the first line that could not be written.\<close>

lemma pump_stdout_prefix: "fst (pump_stdout wr ls) = takeWhile (\<lambda>l. wr l = None) ls"
  by (induction ls) (auto split: option.split prod.split)

text \<open>A start that succeeds has the process running and its output pumped, and the port is the number on the first
  line of the process. The object it makes is the only handle on the process.\<close>

theorem start_gateway_running:
  assumes "start_gateway w = (evs, Inr port)"
  shows "Spawned [sw_isabelle w, ''scala'', sw_source w] \<in> set evs \<and> Pumping \<in> set evs
    \<and> last evs = Connected port (sw_read_timeout w) \<and> (\<exists>line. sw_first_line w = Inr line \<and> py_int (strip line) = Some port)"
  using assms by (auto simp: start_gateway_def Let_def split: sum.splits option.splits if_splits)

text \<open>A start that raises leaves the process it has started running exactly when the process had come up: no branch
  after \<open>Popen\<close> terminates it, and the caller gets no object to terminate it with. The branches are a missing
  pipe, a first line that cannot be read, that is not a number (also the empty line of a process that died at
  once), and a failing constructor of the Java gateway.\<close>

theorem failed_start_leaves_process:
  assumes "start_gateway w = (evs, Inl e)"
  shows "Spawned [sw_isabelle w, ''scala'', sw_source w] \<in> set evs
    \<longleftrightarrow> (\<exists>u. sw_mkdir w = Inr u) \<and> (\<exists>u. sw_open w = Inr u) \<and> (\<exists>u. sw_popen w = Inr u)"
  using assms by (auto simp: start_gateway_def Let_def split: sum.splits option.splits if_splits)

text \<open>A process that prints a warning before its port.\<close>

definition warned_start :: start_world where
  "warned_start = \<lparr>sw_isabelle = ''isabelle'', sw_source = ''gateway.scala'', sw_read_timeout = 60, sw_mkdir = Inr (),
     sw_open = Inr (), sw_popen = Inr (), sw_piped = True, sw_first_line = Inr ''WARNING'', sw_connect = Inr ()\<rparr>"

theorem failed_start_leaves_process_witness:
  "Spawned [''isabelle'', ''scala'', ''gateway.scala''] \<in> set (fst (start_gateway warned_start))
   \<and> snd (start_gateway warned_start) = Inl bad_port"
proof -
  have "py_int (strip ''WARNING'') = None" by code_simp
  moreover have "strip ''WARNING'' = ''WARNING''" by code_simp
  ultimately obtain evs where run: "start_gateway warned_start = (evs, Inl bad_port)"
    by (simp add: start_gateway_def warned_start_def)
  have "Spawned [''isabelle'', ''scala'', ''gateway.scala''] \<in> set evs"
    using failed_start_leaves_process [OF run] by (simp add: warned_start_def)
  then show ?thesis by (simp add: run)
qed

section \<open>The factory calls\<close>

datatype java_arg = Flag bool | Num int | Text pystr | Strings "pystr list"

text \<open>\<open>gw_clock 0\<close> is read before the loop and \<open>gw_clock (Suc k)\<close> by the test of round \<open>k\<close>; an exit code is the
  result of \<open>poll()\<close>.\<close>

record 'b gateway =
  poll_timeout :: real
  poll_timeout_text :: pystr
  gw_clock :: "nat \<Rightarrow> real"
  gw_exit :: "nat \<Rightarrow> int option"
  gw_call :: "nat \<Rightarrow> pystr \<Rightarrow> java_arg list \<Rightarrow> exn + 'b"

definition is_network_error :: "exn \<Rightarrow> bool" where
  "is_network_error e = (class_of e = C_Foreign ''Py4JNetworkError'')"

definition terminated_error :: exn where
  "terminated_error = Exn C_RuntimeError ''Scala REPL gateway process has terminated.''"

definition poll_failed :: "'b gateway \<Rightarrow> pystr \<Rightarrow> exn" where
  "poll_failed g method = Exn C_RuntimeError
     (''Failed to call ReplBackendGateway.'' @ method @ '' within '' @ poll_timeout_text g @ ''s.'')"

partial_function (option) poll_rounds :: "'b gateway \<Rightarrow> pystr \<Rightarrow> java_arg list \<Rightarrow> nat \<Rightarrow> (exn + 'b) option" where
  "poll_rounds g method args k =
     (if gw_clock g (Suc k) - gw_clock g 0 < poll_timeout g then
        (if gw_exit g k \<noteq> None then Some (Inl terminated_error)
         else case gw_call g k method args of
           Inr b \<Rightarrow> Some (Inr b)
         | Inl e \<Rightarrow> if is_network_error e then poll_rounds g method args (Suc k) else Some (Inl e))
      else Some (Inl (poll_failed g method)))"

definition poll_gateway :: "'b gateway \<Rightarrow> pystr \<Rightarrow> java_arg list \<Rightarrow> (exn + 'b) option" where
  "poll_gateway g method args = poll_rounds g method args 0"

definition get_repl_backend :: "'b gateway \<Rightarrow> bool \<Rightarrow> (exn + 'b) option" where
  "get_repl_backend g show_states = poll_gateway g ''get_repl_backend'' [Flag show_states]"

definition get_repl_backend_with_cache :: "'b gateway \<Rightarrow> bool \<Rightarrow> bool \<Rightarrow> (exn + 'b) option" where
  "get_repl_backend_with_cache g show_states enable_cache =
     poll_gateway g ''get_repl_backend_with_cache'' [Flag show_states, Flag enable_cache]"

definition get_repl_backend_with_full_cache_config :: "'b gateway \<Rightarrow> bool \<Rightarrow> bool \<Rightarrow> int \<Rightarrow> pystr \<Rightarrow> (exn + 'b) option" where
  "get_repl_backend_with_full_cache_config g show_states enable_cache max_cache_size fld =
     poll_gateway g ''get_repl_backend_with_full_cache_config''
       [Flag show_states, Flag enable_cache, Num max_cache_size, Text fld]"

definition get_repl_backend_with_memory_management :: "'b gateway \<Rightarrow> bool \<Rightarrow> bool \<Rightarrow> int \<Rightarrow> pystr \<Rightarrow> (exn + 'b) option" where
  "get_repl_backend_with_memory_management g show_states enable_cache max_cache_size fld =
     poll_gateway g ''get_repl_backend_with_memory_management''
       [Flag show_states, Flag enable_cache, Num max_cache_size, Text fld]"

definition get_repl_backend_with_initial_theories :: "'b gateway \<Rightarrow> bool \<Rightarrow> bool \<Rightarrow> int \<Rightarrow> pystr list \<Rightarrow> pystr
    \<Rightarrow> pystr list option \<Rightarrow> (exn + 'b) option" where
  "get_repl_backend_with_initial_theories g show_states enable_cache max_cache_size thys fld dirs =
     poll_gateway g ''get_repl_backend_with_initial_theories''
       [Flag show_states, Flag enable_cache, Num max_cache_size, Strings thys, Text fld,
        Strings (case dirs of Some ds \<Rightarrow> ds | None \<Rightarrow> [])]"

definition get_repl_backend_with_shared_cache :: "'b gateway \<Rightarrow> bool \<Rightarrow> bool \<Rightarrow> int \<Rightarrow> pystr list \<Rightarrow> pystr
    \<Rightarrow> (exn + 'b) option" where
  "get_repl_backend_with_shared_cache g show_states enable_cache max_cache_size thys fld =
     poll_gateway g ''get_repl_backend_with_shared_cache''
       [Flag show_states, Flag enable_cache, Num max_cache_size, Strings thys, Text fld]"

section \<open>The liveness probe\<close>

definition PROBE_TIMEOUT :: real where
  "PROBE_TIMEOUT = 5"

text \<open>The answer of the \<open>alive\<close> method and the seconds it takes.\<close>

definition is_alive :: "int option \<Rightarrow> (exn + bool) \<times> real \<Rightarrow> bool" where
  "is_alive exit_code probe =
     (if exit_code \<noteq> None then False
      else case probe of (res, seconds) \<Rightarrow>
        if PROBE_TIMEOUT < seconds then False
        else case res of Inr b \<Rightarrow> b | Inl e \<Rightarrow> False)"

section \<open>Signals and termination\<close>

datatype signal_target = To_Group int | To_Process

datatype signal_kind = SIGTERM | SIGKILL

text \<open>What the operating system answers to one \<open>_signal_group\<close>; \<open>ProcessLookupError\<close> is an \<open>OSError\<close>.\<close>

record signal_answers =
  sg_pgid :: "exn + int"
  sg_killpg :: "exn + unit"
  sg_send :: "exn + unit"

definition group_of :: "signal_answers \<Rightarrow> exn + int option" where
  "group_of a = (case sg_pgid a of
       Inr pg \<Rightarrow> Inr (Some pg)
     | Inl e \<Rightarrow> if isinstance e C_OSError then Inr None else Inl e)"

text \<open>Whom the signal reached.\<close>

definition signal_group :: "signal_answers \<Rightarrow> exn + signal_target option" where
  "signal_group a =
     (case group_of a of
        Inl e \<Rightarrow> Inl e
      | Inr pgid \<Rightarrow>
          (let fallback = (case sg_send a of
               Inr _ \<Rightarrow> Inr (Some To_Process)
             | Inl e \<Rightarrow> if isinstance e C_OSError \<or> isinstance e C_ValueError then Inr None else Inl e) in
           case pgid of None \<Rightarrow> fallback
           | Some pg \<Rightarrow> (case sg_killpg a of
               Inr _ \<Rightarrow> Inr (Some (To_Group pg))
             | Inl e \<Rightarrow> if isinstance e C_OSError then fallback else Inl e)))"

record shutdown_world =
  terminate_wait :: real
  sh_clock :: "nat \<Rightarrow> real"
  sh_exit :: "nat \<Rightarrow> int option"
  sh_term :: signal_answers
  sh_kill :: signal_answers

text \<open>The wait after \<open>SIGTERM\<close>: whether the leader was seen to exit.\<close>

partial_function (option) wait_rounds :: "shutdown_world \<Rightarrow> nat \<Rightarrow> bool option" where
  "wait_rounds w k =
     (if sh_clock w (Suc k) - sh_clock w 0 < terminate_wait w then
        (if sh_exit w k \<noteq> None then Some True else wait_rounds w (Suc k))
      else Some False)"

text \<open>The errors of the shutdown call and of the last \<open>wait\<close> are swallowed, so they do not matter here. The result
  is what was sent.\<close>

definition terminate :: "shutdown_world \<Rightarrow> (exn + (signal_kind \<times> signal_target option) list) option" where
  "terminate w =
     (case signal_group (sh_term w) of
        Inl e \<Rightarrow> Some (Inl e)
      | Inr t \<Rightarrow> (case wait_rounds w 0 of
          None \<Rightarrow> None
        | Some exited \<Rightarrow> (case signal_group (sh_kill w) of
              Inl e \<Rightarrow> Some (Inl e)
            | Inr k \<Rightarrow> Some (Inr [(SIGTERM, t), (SIGKILL, k)]))))"

section \<open>The loops end\<close>

text \<open>A clock that advances by at least \<open>d\<close> in every round.\<close>

definition advances :: "real \<Rightarrow> (nat \<Rightarrow> real) \<Rightarrow> bool" where
  "advances d c \<longleftrightarrow> 0 < d \<and> c 0 \<le> c 1 \<and> (\<forall>k. c (Suc k) + d \<le> c (Suc (Suc k)))"

lemma advances_far: "advances d c \<Longrightarrow> c 0 + real k * d \<le> c (Suc k)"
proof (induction k)
  case (Suc k)
  then have "c (Suc k) + d \<le> c (Suc (Suc k))" by (simp add: advances_def)
  then show ?case using Suc by (simp add: algebra_simps)
qed (simp add: advances_def)

definition round_bound :: "real \<Rightarrow> real \<Rightarrow> nat" where
  "round_bound d t = nat \<lceil>t / d\<rceil>"

lemma advances_over: "advances d c \<Longrightarrow> round_bound d t \<le> k \<Longrightarrow> \<not> c (Suc k) - c 0 < t"
proof -
  assume a: "advances d c" and k: "round_bound d t \<le> k"
  have "0 < d" using a by (simp add: advances_def)
  have "t / d \<le> real k" using k unfolding round_bound_def by linarith
  then have "t \<le> real k * d" using \<open>0 < d\<close> by (simp add: field_simps)
  then show ?thesis using advances_far [OF a, of k] by linarith
qed

text \<open>A round that does not end the loop.\<close>

definition retries :: "'b gateway \<Rightarrow> pystr \<Rightarrow> java_arg list \<Rightarrow> nat \<Rightarrow> bool" where
  "retries g method args k \<longleftrightarrow> gw_clock g (Suc k) - gw_clock g 0 < poll_timeout g \<and> gw_exit g k = None
     \<and> (\<exists>e. gw_call g k method args = Inl e \<and> is_network_error e)"

definition round_result :: "'b gateway \<Rightarrow> pystr \<Rightarrow> java_arg list \<Rightarrow> nat \<Rightarrow> exn + 'b" where
  "round_result g method args k =
     (if \<not> gw_clock g (Suc k) - gw_clock g 0 < poll_timeout g then Inl (poll_failed g method)
      else if gw_exit g k \<noteq> None then Inl terminated_error else gw_call g k method args)"

lemma poll_round: "poll_rounds g method args k =
    (if retries g method args k then poll_rounds g method args (Suc k) else Some (round_result g method args k))"
  by (subst poll_rounds.simps) (auto simp: retries_def round_result_def split: sum.split)

lemma poll_from:
  assumes "k \<le> n" and "\<not> retries g method args n" and "\<forall>j. k \<le> j \<longrightarrow> j < n \<longrightarrow> retries g method args j"
  shows "poll_rounds g method args k = Some (round_result g method args n)"
  using assms
proof (induction "n - k" arbitrary: k)
  case 0
  then show ?case by (simp add: poll_round)
next
  case (Suc x)
  then have "retries g method args k" "poll_rounds g method args (Suc k) = Some (round_result g method args n)" by auto
  then show ?case by (subst poll_round) simp
qed

section \<open>Properties\<close>

text \<open>Property C23: a call of a gateway factory comes back. When the clock advances by at least \<open>d\<close> from one round to the
  next, at most \<open>poll_timeout / d\<close> rounds (rounded up) are retried, and the result is decided by the first round that is
  not: the error of the timeout when the time was over, the error of a dead process when it had exited, and
  otherwise what the factory returned or raised. A backend that is returned was the answer of a live process
  within the time, and every attempt before it was a network error.\<close>

theorem gateway_poll_ends:
  assumes "advances d (gw_clock g)"
  shows "\<exists>n \<le> round_bound d (poll_timeout g). poll_gateway g method args = Some (round_result g method args n)
    \<and> (\<forall>j < n. retries g method args j) \<and> \<not> retries g method args n
    \<and> (\<forall>b. poll_gateway g method args = Some (Inr b) \<longrightarrow>
        gw_call g n method args = Inr b \<and> gw_exit g n = None \<and> gw_clock g (Suc n) - gw_clock g 0 < poll_timeout g)"
proof -
  let ?stop = "\<lambda>k. \<not> retries g method args k"
  have over: "?stop (round_bound d (poll_timeout g))" using advances_over [OF assms order_refl] by (simp add: retries_def)
  define n where "n = (LEAST k. ?stop k)"
  have n: "?stop n" "\<forall>j < n. retries g method args j" "n \<le> round_bound d (poll_timeout g)"
    unfolding n_def using LeastI [of ?stop, OF over] not_less_Least [of _ ?stop] Least_le [of ?stop, OF over] by blast+
  have run: "poll_gateway g method args = Some (round_result g method args n)"
    unfolding poll_gateway_def using n by (intro poll_from) auto
  then have "gw_call g n method args = Inr b \<and> gw_exit g n = None \<and> gw_clock g (Suc n) - gw_clock g 0 < poll_timeout g"
    if "poll_gateway g method args = Some (Inr b)" for b
    using that by (simp add: round_result_def split: if_splits)
  then show ?thesis using n run by blast
qed

text \<open>The wait for the leader ends in the same way.\<close>

lemma wait_ends:
  assumes "advances d (sh_clock w)"
  shows "\<exists>b. wait_rounds w k = Some b"
proof (induction "round_bound d (terminate_wait w) - k" arbitrary: k)
  case 0
  then show ?case using advances_over [OF assms, of "terminate_wait w" k] by (subst wait_rounds.simps) auto
next
  case (Suc x)
  then have "\<exists>b. wait_rounds w (Suc k) = Some b" by simp
  then show ?case by (subst wait_rounds.simps) auto
qed

text \<open>Only operating-system errors, as the manuals of the three calls promise.\<close>

definition os_errors_only :: "signal_answers \<Rightarrow> bool" where
  "os_errors_only a \<longleftrightarrow> (\<forall>e. sg_pgid a = Inl e \<or> sg_killpg a = Inl e \<or> sg_send a = Inl e \<longrightarrow> isinstance e C_OSError)"

lemma signal_group_calm:
  assumes "os_errors_only a"
  shows "\<exists>t. signal_group a = Inr t \<and> (\<forall>pg u. sg_pgid a = Inr pg \<longrightarrow> sg_killpg a = Inr u \<longrightarrow> t = Some (To_Group pg))"
  using assms by (auto simp: signal_group_def group_of_def os_errors_only_def Let_def split: sum.split)

text \<open>Terminating the gateway ends, raises nothing, and sends \<open>SIGTERM\<close> and then, whatever happened in between, \<open>SIGKILL\<close>;
  each reaches the whole process group whenever the group exists.\<close>

theorem terminate_kills_group:
  assumes "advances d (sh_clock w)" and "os_errors_only (sh_term w)" and "os_errors_only (sh_kill w)"
  shows "\<exists>t k. terminate w = Some (Inr [(SIGTERM, t), (SIGKILL, k)])
    \<and> (\<forall>pg u. sg_pgid (sh_kill w) = Inr pg \<longrightarrow> sg_killpg (sh_kill w) = Inr u \<longrightarrow> k = Some (To_Group pg))"
  using wait_ends [OF assms(1), of 0] signal_group_calm [OF assms(2)] signal_group_calm [OF assms(3)]
  by (auto simp: terminate_def)

section \<open>Witnesses\<close>

text \<open>A gateway that refuses two calls and answers the third.\<close>

definition demo_gateway :: "nat gateway" where
  "demo_gateway = \<lparr>poll_timeout = 20, poll_timeout_text = ''20.0'', gw_clock = of_nat, gw_exit = (\<lambda>_. None),
     gw_call = (\<lambda>k m args. if k < 2 then Inl (Exn (C_Foreign ''Py4JNetworkError'') ''refused'') else Inr 7)\<rparr>"

theorem gateway_poll_ends_witness:
  "get_repl_backend demo_gateway True = Some (Inr 7)"
proof -
  have clock: "advances 1 (gw_clock demo_gateway)" by (simp add: advances_def demo_gateway_def)
  have stop: "\<not> retries demo_gateway m args n \<longleftrightarrow> 2 \<le> n" if "n \<le> 2" for m args n
    using that by (auto simp: retries_def demo_gateway_def is_network_error_def)
  obtain n where n: "poll_gateway demo_gateway ''get_repl_backend'' [Flag True]
      = Some (round_result demo_gateway ''get_repl_backend'' [Flag True] n)"
    "\<forall>j < n. retries demo_gateway ''get_repl_backend'' [Flag True] j"
    "\<not> retries demo_gateway ''get_repl_backend'' [Flag True] n"
    using gateway_poll_ends [OF clock] by blast
  have "n = 2"
  proof (rule ccontr)
    assume "n \<noteq> 2"
    then consider "n < 2" | "2 < n" by linarith
    then show False using n stop [of n] stop [of 2] by cases auto
  qed
  then show ?thesis using n(1) by (simp add: get_repl_backend_def round_result_def demo_gateway_def)
qed

end
