(* ===== verification/Spec2Isabelle.thy ===== *)
theory Spec2Isabelle
  imports Sledgehammer_Gate Lsp_Heap_Tools Smallstep_Properties Client_Server Image_Properties Local_Properties Mcts_Properties Training_Properties Fast_Pool Theory_Cleaner Import_Rewriter Attempt_Properties Stepwise_Properties Lsp_Properties Lsp_Scratch Gateway_Process Big_Step Build_Verify Theory_Parsing Theory_Chunks Success_Checker
    Diagnostic_Guard Memory_Monitor Unicode_Normaliser
begin

text \<open>
  \<^bold>\<open>IsabelleGym server\<close>: a server that keeps a pool of interactive Isabelle sessions behind an HTTP
  interface. The Python code under \<open>src/server/app\<close> is modelled, with the parts of \<open>src/repl\<close> and
  \<open>src/server_gym\<close> it stands on, and its clients: \<open>src/client\<close>, \<open>src/mcp_lsp_server\<close> and
  \<open>src/mcp_stepwise_server\<close>; beside the server, the local gym and the agents of \<open>src/evaluation\<close>. The Scala side, the operating system and the Python packages are parameters.

  \<^bold>\<open>How the parts work together.\<close> A request arrives at an endpoint (\<open>api/v1/router.py\<close>), which checks the lease
  header, asks the session manager (\<open>session_manager.py\<close>) for the session and runs one operation of it
  (\<open>session.py\<close>). The operation sends its calls through a worker thread (\<open>threaded_backend.py\<close>) to the prover and
  judges the answer (\<open>success_checker.py\<close>). Sessions are created on a gateway process (\<open>repl_backend_gateway.py\<close>)
  for a field and a set of theories, under a memory budget (\<open>memory_monitor.py\<close>); they are leased, released, reused
  by their dependency key, evicted, swept and closed. A session may start on a heap of the heap pool
  (\<open>heap_pool.py\<close>). A whole theory is checked either in a session (\<open>session_bigstep.py\<close>) or by a batch build
  (\<open>build_verify.py\<close>). Every exception becomes an HTTP answer in \<open>main.py\<close>.

  \<^bold>\<open>Theories.\<close>
  \<^item> \<open>Py_Prelude\<close>, \<open>Py_Regex\<close>, \<open>Py_Effects\<close>, \<open>Py_Hoare\<close>, \<open>Ordered_Dict\<close>: the Python the code uses. Texts are 8-bit
    character lists with the \<open>str\<close> methods; a backtracking matcher for the regular expressions; statements as
    functions from a state to an outcome (an exception or a value) and the next state, with frame, invariant and
    triple rules; insertion-ordered dictionaries with the locale \<open>keyed_store\<close>.
  \<^item> \<open>Server_Errors\<close>: the exception classes of \<open>errors.py\<close> and \<open>heap_pool.py\<close>, the method resolution order, the
    handlers of \<open>main.py\<close>.
  \<^item> \<open>Theory_Parsing\<close> and \<open>Theory_Chunks\<close>: \<open>theory_parsing.py\<close> and \<open>theory_chunks.py\<close> (comment stripping, header
    parser and printer, blocks, chunks, previews). \<open>Success_Checker\<close>: \<open>success_checker.py\<close>. \<open>Diagnostic_Guard\<close>:
    the allow and deny rules of \<open>core/diagnostic_guard.py\<close>. \<open>Unicode_Normaliser\<close>: \<open>unicode_normaliser.py\<close>.
    \<open>Memory_Monitor\<close>: the cgroup files and the admission test of \<open>memory_monitor.py\<close>.
  \<^item> \<open>Threaded_Backend\<close>: queue, worker, \<open>submit\<close> and \<open>close\<close> as the interleaved steps of the relation \<open>tb_step\<close>.
  \<^item> \<open>Session_State\<close>, \<open>Session_Ops\<close>, \<open>Big_Step\<close>: the record of a session, its leases and busy counter (locale
    \<open>leasable\<close>), every operation of \<open>session.py\<close> and \<open>session_bigstep.py\<close>.
  \<^item> \<open>Session_Keys\<close>, \<open>Session_Pool\<close>, \<open>Pool_Properties\<close>, \<open>Pool_Machine\<close>, \<open>Pool_Guarantees\<close>: dependency keys and
    session identifiers; the operations under the manager's lock (locales \<open>reclaimer\<close> and \<open>safe_reclaimer\<close> for the
    loop that frees memory); the pool as a state machine \<open>pool_step\<close>, in which requests begin, work and end
    between any two operations.
  \<^item> \<open>Session_Manager\<close>, \<open>Manager_Properties\<close>: the rest of the manager and its helpers, \<open>thy_init.py\<close>, the
    gateway's recovery.
  \<^item> \<open>Build_Verify\<close>: \<open>build_verify.py\<close>, with concurrent requests as the relation \<open>bv_step\<close>.
  \<^item> \<open>Heap_Pool\<close>, \<open>Heap_Properties\<close>: \<open>heap_pool.py\<close>, with builds and deletions as the relation \<open>heap_step\<close>;
    \<open>Heap_Images\<close>, \<open>Image_Properties\<close>: its files on disk, with the patterns of \<open>Path.glob\<close>.
  \<^item> \<open>Gateway_Process\<close>: start, output pump, retry loop, probe and termination of \<open>repl_backend_gateway.py\<close>.
  \<^item> \<open>Router\<close>, \<open>Router_Properties\<close>: the endpoints and the checks of their request models (locale \<open>untouched\<close> for
    what no endpoint changes). \<open>Sledgehammer_Gate\<close>: the queue before the sledgehammer runs, as the relation
    \<open>hammer_step\<close>.
  \<^item> \<open>Lsp_Pool\<close>, \<open>Lsp_Tools\<close>, \<open>Lsp_Properties\<close>, \<open>Lsp_Scratch\<close>: the MCP server for editors (\<open>mcp_lsp_server\<close>), a client
    of the endpoints: its bindings of files to sessions as shared objects in an explicit store, its tools, and its pool
    of scratch sessions as the relation \<open>scratch_step\<close>; \<open>Lsp_Heap_Tools\<close>: its two tools on heaps.
  \<^item> \<open>Http_Routes\<close>, \<open>Http_Client\<close>, \<open>Http_Properties\<close>, \<open>Client_Properties\<close>, \<open>Client_Server\<close>: the wire. The request models
    of \<open>API_models.py\<close> as typed fields with defaults, the route decorators of \<open>router.py\<close>, what an endpoint makes of
    path, query and body; each method of \<open>client/async_client.py\<close> as the request it sends; both ends composed.
  \<^item> \<open>Chunk_Report\<close>, \<open>Stepwise_Pool\<close>, \<open>Stepwise_Properties\<close>: the stepwise MCP server (\<open>mcp_stepwise_server\<close>), one leased
    session per connection, its tools and the text of its reports, and the batch as the relation \<open>batch_step\<close>.
  \<^item> \<open>Local_Client\<close>, \<open>Local_Properties\<close>: the client of a local gateway (\<open>repl/src/python/isabelle_client.py\<close>), the gym over
    it and the multi-agent cycle. \<open>Gym_Agent\<close>, \<open>Agent_Properties\<close>: the proof loop of the agents
    (\<open>isabelle_agent_interface.py\<close>). \<open>Mcts_Agent\<close>, \<open>Mcts_Properties\<close>: the tree search (\<open>mcts_agent.py\<close>), the contract of its
    abstract methods as the locale \<open>tree_search\<close>. \<open>Training_Data\<close>, \<open>Training_Properties\<close>: the collection of training data
    (\<open>training_data_system.py\<close>) and the agent that logs its proofs. \<open>Fast_Pool\<close>: the pool of warm backends
    (\<open>session_pool.py\<close>) as the relation \<open>fp_step\<close>.
  \<^item> \<open>Theory_Splitter\<close>, \<open>Theory_Cleaner\<close>, \<open>Import_Rewriter\<close>: scripts of \<open>evaluation/scripts\<close> on theories. \<open>Eval_Harness\<close>,
    \<open>Attempt_Runner\<close>, \<open>Attempt_Properties\<close>: the comparison of interfaces (\<open>evaluation/MCP-comparison\<close>), with the runner on the
    stepwise server (\<open>run_isabellegym.py\<close>), its arbiter and its figures. \<open>Eval_Stats\<close>, \<open>Smallstep_Eval\<close>,
    \<open>Smallstep_Properties\<close>: the small-step benchmarks over the client (\<open>eval_stats.py\<close>, \<open>eval_smallstep_server_client_*.py\<close>),
    their workers as the relation \<open>bench_step\<close>.

  \<^bold>\<open>What is shown.\<close>
  \<^item> Access: a leased session answers only to its token, every session endpoint stands behind that lease and changes
    nothing when it refuses, the listing without the administrator's token carries no token, and every typed error
    reaches the client with its own status.
  \<^item> Sessions: the busy counter returns to its value after every operation, read-only queries leave no trace,
    loading a document replaces all bookkeeping, a checkpoint is restored only if it was saved, a closed session never
    reaches the prover, a failed big step puts the prover and the session back, and only commands the guard accepts run
    as diagnostics.
  \<^item> Pool and manager: every session ever registered is in the pool or closed, exactly once; a busy or leased session
    is never evicted; registration, reuse, relief and the sweep do exactly what their rules say; what a creation or an
    acquisition hands out; what happens to a dead gateway.
  \<^item> Threads and builds: the worker runs the accepted calls in order, closing answers every call, and each key is
    built at most once at a time and never again after a success.
  \<^item> Heaps: a restart restores the registry, the gate lets exactly the ready and unchanged heaps of the caller's group
    through, and a session on a heap carries the group and the fingerprint in its key.
  \<^item> Texts: header round trip, line numbers kept by stripping and blocking, chunks bounded and complete, canonical symbols.
  \<^item> Editors: a query on a file is answered by a session that holds the file's text, scratch sessions are bounded and
    exclusive, and the lines of a candidate are counted from its position.
  \<^item> Clients: every call of the client arrives as the request it means, with its lease; from end to end it is refused
    without effect or runs once on its session; accepted bodies have the declared types; the client waits longer than
    the time it grants; the stepwise server accounts for every session it acquired, and a batch ends with all closed.
  \<^item> Agents: a success leaves the gym without goals, an attempt always has a result with fitting counters, the tree search
    accounts for every visit and selects the best live child; a proof whose tactics are logged is archived once, and the
    report of the collection agrees with its data set; a local session leaves nothing behind; and
    warm backends are shared by no two open gyms.
  \<^item> Evaluation: commands are cut exactly where they begin, cleaning and rewriting a theory change only what they are meant to,
    and an attempt leaves one row whose counters fit and which is solved only for a file the server verified; a small-step
    benchmark calls a theory ok exactly when all its commands were accepted, and reports every file once.
  \<^item> Loops: the retry loop of the gateway returns within a bounded number of rounds, and relief stops at the first
    reading that admits.

  \<^bold>\<open>Bounds and fuel.\<close> Loops over data are structural or have a measure. The loops over a clock are
  \<open>partial_function (option)\<close>, and that they return is proved for a clock that advances. The regular expression
  matcher returns the list of all matches in the order of backtracking; a star is taken only while it consumes
  input, which bounds it by the length of the rest. Numbers are unbounded, as in Python; floats are reals.

  \<^bold>\<open>Parameters.\<close> The prover (\<open>raw_api\<close>), clocks, memory readings, file operations, identifiers, the hash, the build
  process, \<open>repr\<close>, pydantic's coercions, the quoting of URLs. Hypotheses on them are named: fresh identifiers differ (\<open>inj (uuid4 w)\<close>),
  hashes of the projects in use differ, the clock advances, the server leases a session to one holder, the calls on processes raise only operating-system errors,
  asking a gym for its goals or the time does not change them,
  and \<open>standard\<close>: unreserved characters of a URL stay, unquoting undoes quoting, a value of a declared type is kept.

  \<^bold>\<open>Not modelled.\<close> Logging and metrics, dependency wiring, cancelled requests, the semaphore that bounds heap builds, and
  requests whose timeout is \<open>null\<close>. Outside the server: connection errors of the clients, the console, the
  multi-session framework, the benchmarks of other systems, notebooks and demos, the tests, and the earlier version of the project.
\<close>

end
